(* ===== verification/Prelude.thy ===== *)
theory Prelude
  imports Complex_Main "HOL-Library.Word" "HOL-Library.AList" "HOL-Library.Sublist"
begin

text \<open>
  Shared vocabulary of the development: the Go types the relay uses (byte slices, strings,
  maps, time) and the generic facts about them.

  \<^item> A byte slice is a list of 8-bit words, a Go string a list of characters (Isabelle
    characters are bytes), a \<open>uint64\<close> a 64-bit word.
  \<^item> A Go map is an association list built only with \<open>mput\<close> and \<open>mdel\<close>; \<open>mwf\<close> says its keys
    are distinct. Iteration (\<open>for _, v := range m\<close>) walks \<open>mvals\<close>; Go leaves the order open,
    and no theorem depends on it.
  \<^item> \<open>time.Time\<close> is an integer number of nanoseconds since Go's zero time, so \<open>IsZero\<close> is
    equality with 0; \<open>time.Duration\<close> is an integer number of nanoseconds and \<open>Time.Sub\<close>
    saturates at the 64-bit bounds as Go's does.
\<close>

named_theorems gomap_simps \<open>lookup laws of Go maps\<close>
named_theorems relay_splits \<open>split rules used for handler bodies\<close>

section \<open>Bytes, strings, words\<close>

type_synonym byte = "8 word"
type_synonym bytes = "8 word list"
type_synonym uint64 = "64 word"

definition str_bytes :: "string \<Rightarrow> bytes" where
  "str_bytes s = map (\<lambda>c. word_of_nat (of_char c)) s"

definition bytes_str :: "bytes \<Rightarrow> string" where
  "bytes_str bs = map (\<lambda>b. char_of (unat b)) bs"

lemma length_str_bytes [simp]: "length (str_bytes s) = length s"
  by (simp add: str_bytes_def)

lemma length_bytes_str [simp]: "length (bytes_str s) = length s"
  by (simp add: bytes_str_def)

lemma of_char_less_256: "(of_char c :: nat) < 256"
  by (metis of_char_of char_of_char mod_less_divisor zero_less_numeral)

lemma bytes_str_str_bytes [simp]: "bytes_str (str_bytes s) = s"
proof -
  have "char_of (unat (word_of_nat (of_char c) :: byte)) = c" for c
    using of_char_less_256 [of c] by (simp add: unat_of_nat take_bit_nat_def)
  then show ?thesis by (simp add: bytes_str_def str_bytes_def comp_def)
qed

lemma unat_byte_less [simp]: "unat (b :: byte) < 256"
  using unsigned_less [of b] by simp

lemma str_bytes_bytes_str [simp]: "str_bytes (bytes_str bs) = bs"
proof -
  have "word_of_nat (of_char (char_of (unat b))) = b" for b :: byte
    by (simp add: of_char_of)
  then show ?thesis by (simp add: bytes_str_def str_bytes_def comp_def)
qed

lemma str_bytes_append [simp]: "str_bytes (s @ t) = str_bytes s @ str_bytes t"
  by (simp add: str_bytes_def)

lemma bytes_str_append [simp]: "bytes_str (s @ t) = bytes_str s @ bytes_str t"
  by (simp add: bytes_str_def)

lemma bytes_str_inj: "bytes_str a = bytes_str b \<Longrightarrow> a = b"
  by (metis str_bytes_bytes_str)

definition byte_of :: "nat \<Rightarrow> byte" where
  "byte_of n = word_of_nat n"

lemma unat_byte_of [simp]: "n < 256 \<Longrightarrow> unat (byte_of n) = n"
  by (simp add: byte_of_def unat_of_nat take_bit_nat_def)

lemma byte_of_unat [simp]: "byte_of (unat b) = b"
  by (simp add: byte_of_def)

section \<open>strings\<close>

text \<open>\<open>strings.Split\<close> and \<open>strings.Cut\<close> at a one-character separator.\<close>

fun go_split :: "char \<Rightarrow> string \<Rightarrow> string list" where
  "go_split d [] = [[]]"
| "go_split d (c # s) = (if c = d then [] # go_split d s
     else (case go_split d s of [] \<Rightarrow> [[c]] | p # ps \<Rightarrow> (c # p) # ps))"

definition go_cut :: "char \<Rightarrow> string \<Rightarrow> (string \<times> string) option" where
  "go_cut d s = (case dropWhile (\<lambda>c. c \<noteq> d) s of [] \<Rightarrow> None
     | _ # r \<Rightarrow> Some (takeWhile (\<lambda>c. c \<noteq> d) s, r))"

lemma go_split_single: "d \<notin> set p \<Longrightarrow> go_split d p = [p]"
  by (induction p) auto

lemma go_split_append: "d \<notin> set p \<Longrightarrow> go_split d (p @ d # r) = p # go_split d r"
  by (induction p) auto

section \<open>Go maps\<close>

type_synonym ('k, 'v) gomap = "('k \<times> 'v) list"

definition mget :: "('k, 'v) gomap \<Rightarrow> 'k \<Rightarrow> 'v option" where
  "mget m k = map_of m k"

definition mput :: "'k \<Rightarrow> 'v \<Rightarrow> ('k, 'v) gomap \<Rightarrow> ('k, 'v) gomap" where
  "mput k v m = AList.update k v m"

definition mdel :: "'k \<Rightarrow> ('k, 'v) gomap \<Rightarrow> ('k, 'v) gomap" where
  "mdel k m = AList.delete k m"

definition mvals :: "('k, 'v) gomap \<Rightarrow> 'v list" where
  "mvals m = map snd m"

definition mwf :: "('k, 'v) gomap \<Rightarrow> bool" where
  "mwf m \<longleftrightarrow> distinct (map fst m)"

lemma mget_empty [simp, gomap_simps]: "mget [] k = None"
  by (simp add: mget_def)

lemma mget_mput [simp, gomap_simps]: "mget (mput k v m) k' = (if k' = k then Some v else mget m k')"
  by (simp add: mget_def mput_def update_conv')

lemma mget_mdel [simp, gomap_simps]: "mget (mdel k m) k' = (if k' = k then None else mget m k')"
  by (simp add: mget_def mdel_def delete_conv')

lemma mwf_empty [simp]: "mwf []"
  by (simp add: mwf_def)

lemma mwf_mput [simp]: "mwf m \<Longrightarrow> mwf (mput k v m)"
  by (simp add: mwf_def mput_def distinct_update)

lemma mwf_mdel [simp]: "mwf m \<Longrightarrow> mwf (mdel k m)"
  by (simp add: mwf_def mdel_def distinct_delete)

lemma mvals_iff: "mwf m \<Longrightarrow> v \<in> set (mvals m) \<longleftrightarrow> (\<exists>k. mget m k = Some v)"
  by (force simp: mvals_def mget_def mwf_def dest: map_of_SomeD)

lemma mget_in_mvals: "mget m k = Some v \<Longrightarrow> v \<in> set (mvals m)"
  by (force simp: mvals_def mget_def dest: map_of_SomeD)

lemma mget_filter: "mwf m \<Longrightarrow>
  mget (filter (\<lambda>kv. P (snd kv)) m) k =
    (case mget m k of None \<Rightarrow> None | Some v \<Rightarrow> if P v then Some v else None)"
proof (induction m)
  case (Cons kv m)
  then have "mwf m" and "fst kv \<notin> fst ` set m" by (auto simp: mwf_def)
  then have "map_of m (fst kv) = None" by (simp add: map_of_eq_None_iff)
  with Cons.IH [OF \<open>mwf m\<close>] show ?case
    by (cases kv) (auto simp: mget_def)
qed simp

lemma mwf_filter [simp]: "mwf m \<Longrightarrow> mwf (filter P m)"
  by (simp add: mwf_def distinct_map_filter)

lemma mget_filterD: "mwf m \<Longrightarrow> mget (filter P m) k = Some v \<Longrightarrow> mget m k = Some v"
  by (metis (no_types, lifting) filter_is_subset map_of_SomeD map_of_eq_Some_iff mget_def mwf_def
      mwf_filter subsetD)

section \<open>Secondary indexes\<close>

text \<open>\<open>indexes ix t f\<close>: the map \<open>ix\<close> is the inverse index of the table \<open>t\<close> under the key \<open>f\<close>
  (\<open>byChannel\<close> of \<open>pairings\<close>, \<open>winByHost\<close> of \<open>windows\<close>), so no two rows share a key.\<close>

definition indexes :: "('k, 'i) gomap \<Rightarrow> ('i, 'v) gomap \<Rightarrow> ('v \<Rightarrow> 'k) \<Rightarrow> bool" where
  "indexes ix t f \<longleftrightarrow> (\<forall>k i. (mget ix k = Some i) = (\<exists>v. mget t i = Some v \<and> f v = k))"

lemma indexes_empty [simp]: "indexes [] [] f"
  by (simp add: indexes_def)

lemma indexesD: "indexes ix t f \<Longrightarrow> mget t i = Some v \<Longrightarrow> mget ix (f v) = Some i"
  unfolding indexes_def by blast

lemma indexesE:
  assumes "indexes ix t f" and "mget ix k = Some i"
  obtains v where "mget t i = Some v" and "f v = k"
  using assms unfolding indexes_def by blast

lemma indexes_unique:
  "indexes ix t f \<Longrightarrow> mget t i = Some v \<Longrightarrow> mget t j = Some w \<Longrightarrow> f v = f w \<Longrightarrow> i = j"
  by (metis indexesD option.inject)

lemma indexes_insert:
  assumes "indexes ix t f" "mget t i = None" "mget ix (f v) = None"
  shows "indexes (mput (f v) i ix) (mput i v t) f"
  unfolding indexes_def
proof (intro allI)
  fix k j
  have "mget t j = Some w \<Longrightarrow> f w \<noteq> f v" for w
    using assms(3) indexesD [OF assms(1)] by (metis option.distinct(1))
  moreover have "(mget ix k = Some j) = (\<exists>w. mget t j = Some w \<and> f w = k)"
    using assms(1) by (simp add: indexes_def)
  ultimately show "(mget (mput (f v) i ix) k = Some j) = (\<exists>w. mget (mput i v t) j = Some w \<and> f w = k)"
    using assms(2) by auto
qed

lemma indexes_update:
  assumes "indexes ix t f" "mget t i = Some v" "f v' = f v"
  shows "indexes ix (mput i v' t) f"
  unfolding indexes_def
proof (intro allI)
  fix k j
  have "(mget ix k = Some j) = (\<exists>w. mget t j = Some w \<and> f w = k)"
    using assms(1) by (simp add: indexes_def)
  then show "(mget ix k = Some j) = (\<exists>w. mget (mput i v' t) j = Some w \<and> f w = k)"
    using assms(2,3) by auto
qed

lemma indexes_delete:
  assumes "indexes ix t f" "mget t i = Some v"
  shows "indexes (mdel (f v) ix) (mdel i t) f"
  unfolding indexes_def
proof (intro allI)
  fix k j
  have k: "(mget ix k = Some j) = (\<exists>w. mget t j = Some w \<and> f w = k)"
    using assms(1) by (simp add: indexes_def)
  show "(mget (mdel (f v) ix) k = Some j) = (\<exists>w. mget (mdel i t) j = Some w \<and> f w = k)"
  proof (cases "k = f v")
    case True
    have "j = i" if "mget t j = Some w" "f w = f v" for w
      using indexes_unique [OF assms(1) that(1) assms(2) that(2)] .
    with True show ?thesis by auto
  next
    case False
    with k assms(2) show ?thesis by auto
  qed
qed

lemma indexes_key: "indexes ix t f \<Longrightarrow> mget ix k = Some i \<Longrightarrow> mget t i = Some v \<Longrightarrow> f v = k"
  by (erule indexesE) auto

section \<open>Time\<close>

type_synonym gotime = int
type_synonym duration = int

abbreviation (input) second :: duration where "second \<equiv> 1000000000"
abbreviation (input) minute :: duration where "minute \<equiv> 60 * 1000000000"
abbreviation (input) hour :: duration where "hour \<equiv> 3600 * 1000000000"

definition max_duration :: duration where
  "max_duration = 9223372036854775807"

definition min_duration :: duration where
  "min_duration = - 9223372036854775808"

text \<open>\<open>Time.Sub\<close> saturates at the bounds of \<open>int64\<close>.\<close>

definition time_sub :: "gotime \<Rightarrow> gotime \<Rightarrow> duration" where
  "time_sub t u = (if t - u < min_duration then min_duration
                   else if max_duration < t - u then max_duration else t - u)"

lemma time_sub_less_iff: "min_duration < d \<Longrightarrow> d \<le> max_duration \<Longrightarrow> time_sub t u < d \<longleftrightarrow> t - u < d"
  by (auto simp: time_sub_def)

lemma time_sub_mono: "t \<le> t' \<Longrightarrow> time_sub t u \<le> time_sub t' u"
  by (auto simp: time_sub_def min_duration_def max_duration_def)

lemma time_sub_antimono: "u \<le> u' \<Longrightarrow> time_sub t u' \<le> time_sub t u"
  by (auto simp: time_sub_def min_duration_def max_duration_def)

lemma time_sub_self [simp]: "time_sub t t = 0"
  by (simp add: time_sub_def min_duration_def max_duration_def)

section \<open>Signed 64-bit wrap-around\<close>

definition wrap64 :: "int \<Rightarrow> int" where
  "wrap64 i = (i + 2 ^ 63) mod 2 ^ 64 - 2 ^ 63"

lemma wrap64_id: "- (2 ^ 63) \<le> i \<Longrightarrow> i < 2 ^ 63 \<Longrightarrow> wrap64 i = i"
  by (simp add: wrap64_def)

section \<open>Lists\<close>

lemma suffix_dropWhile: "suffix (dropWhile P xs) xs"
  by (metis suffixI takeWhile_dropWhile_id)

lemma those_map_Some [simp]: "those (map Some xs) = Some xs"
  by (induction xs) auto

lemma those_map_cong: "(\<And>x. x \<in> set xs \<Longrightarrow> f x = Some (g x)) \<Longrightarrow> those (map f xs) = Some (map g xs)"
  by (induction xs) auto

lemma those_SomeD: "those xs = Some ys \<Longrightarrow> xs = map Some ys"
  by (induction xs arbitrary: ys) (auto split: option.splits)

section \<open>State machines\<close>

text \<open>An invariant of a state machine: it holds at the start and every step keeps it.\<close>

locale inductive_invariant =
  fixes start :: "'s \<Rightarrow> bool" and step :: "'s \<Rightarrow> 's \<Rightarrow> bool" and inv :: "'s \<Rightarrow> bool"
  assumes start_inv: "start s \<Longrightarrow> inv s"
    and step_inv: "inv s \<Longrightarrow> step s s' \<Longrightarrow> inv s'"
begin

lemma run_inv: "step\<^sup>*\<^sup>* s s' \<Longrightarrow> inv s \<Longrightarrow> inv s'"
  by (induction rule: rtranclp_induct) (auto intro: step_inv)

lemma always: "start s \<Longrightarrow> step\<^sup>*\<^sup>* s s' \<Longrightarrow> inv s'"
  using run_inv start_inv by blast

end

end
