(* ===== verification/GoFloat.thy ===== *)
theory GoFloat
  imports Prelude "HOL-Library.Log_Nat"
begin

text \<open>
  Go's \<open>float64\<close>, as far as the rate limiter and the token validator use it. \<open>fl64\<close> is IEEE 754
  rounding to nearest, ties to even, to 53 significant bits, with the fixed exponent of the
  subnormal numbers below; it is shown to be monotone, to fix the integers up to 2^53 and to keep
  signs. \<open>f64\<close> are the values: a rational, an infinity or not a number. Its operations are the exact
  ones followed by the rounding, with overflow to infinity; every comparison with a NaN is false.
  The two zeros are one value: the code compares zeros, adds to them and never divides by one.
\<close>

section \<open>Rounding\<close>

definition rnd_even :: "rat \<Rightarrow> int" where
  "rnd_even q = (let n = \<lfloor>q\<rfloor>; r = q - of_int n in
     if r < 1 / 2 then n else if 1 / 2 < r then n + 1 else if even n then n else n + 1)"

text \<open>The binary exponent: 2 to the \<open>expo x\<close> is the largest power of two up to \<open>x\<close>.\<close>

definition expo :: "rat \<Rightarrow> int" where
  "expo x = (let (p, q) = quotient_of x; k = bitlen p - bitlen q
             in if 2 powi k \<le> x then k else k - 1)"

definition fl64 :: "rat \<Rightarrow> rat" where
  "fl64 x = (if x = 0 then 0
             else let u = 2 powi (max (expo \<bar>x\<bar>) (- 1022) - 52) in of_int (rnd_even (x / u)) * u)"

section \<open>Integer division and conversion\<close>

definition go_quot :: "int \<Rightarrow> int \<Rightarrow> int" where
  "go_quot a b = sgn a * sgn b * (\<bar>a\<bar> div \<bar>b\<bar>)"

definition go_rem :: "int \<Rightarrow> int \<Rightarrow> int" where
  "go_rem a b = a - b * go_quot a b"

definition go_trunc :: "rat \<Rightarrow> int" where
  "go_trunc x = (if x < 0 then - \<lfloor>- x\<rfloor> else \<lfloor>x\<rfloor>)"

text \<open>\<open>Duration.Seconds\<close>.\<close>

definition dur_seconds :: "duration \<Rightarrow> rat" where
  "dur_seconds d =
     fl64 (fl64 (of_int (go_quot d second)) + fl64 (fl64 (of_int (go_rem d second)) / 1000000000))"

section \<open>Lemmas\<close>

lemma rnd_even_int [simp]: "rnd_even (of_int n) = n"
  by (simp add: rnd_even_def)

lemma rnd_even_bounds: "\<lfloor>q\<rfloor> \<le> rnd_even q" "rnd_even q \<le> \<lfloor>q\<rfloor> + 1"
  by (simp_all add: rnd_even_def Let_def)

lemma rnd_even_mono: assumes "p \<le> q" shows "rnd_even p \<le> rnd_even q"
proof (cases "\<lfloor>p\<rfloor> = \<lfloor>q\<rfloor>")
  case True
  with assms show ?thesis by (auto simp: rnd_even_def Let_def)
next
  case False
  with floor_mono [OF assms] have "\<lfloor>p\<rfloor> + 1 \<le> \<lfloor>q\<rfloor>" by simp
  with rnd_even_bounds [of p] rnd_even_bounds [of q] show ?thesis by linarith
qed

lemma rnd_even_le_int: "q \<le> of_int n \<Longrightarrow> rnd_even q \<le> n"
  using rnd_even_mono [of q "of_int n"] by simp

lemma rnd_even_ge_int: "of_int n \<le> q \<Longrightarrow> n \<le> rnd_even q"
  using rnd_even_mono [of "of_int n" q] by simp

lemma pos_quotient:
  assumes "0 < (x :: rat)" "quotient_of x = (p, q)"
  shows "0 < p" "0 < q" "x = of_int p / of_int q"
proof -
  show q: "0 < q" using assms(2) by (rule quotient_of_denom_pos)
  show x: "x = of_int p / of_int q" using assms(2) by (rule quotient_of_div)
  show "0 < p"
  proof (rule ccontr)
    assume "\<not> 0 < p"
    then have "of_int p \<le> (0 :: rat)" by simp
    with q have "x \<le> 0" unfolding x by (simp add: divide_le_0_iff)
    with assms(1) show False by simp
  qed
qed

lemma bitlen_rat_bounds:
  assumes "0 < p" shows "2 powi (bitlen p - 1) \<le> (of_int p :: rat)" "of_int p < (2 powi bitlen p :: rat)"
proof -
  have b: "2 ^ nat (bitlen p - 1) \<le> p" "p < 2 ^ nat (bitlen p)"
    using bitlen_bounds [OF assms] by auto
  have n: "0 \<le> bitlen p - 1" using assms by (metis bitlen_eq_zero_iff bitlen_nonneg
        diff_ge_0_iff_ge int_one_le_iff_zero_less leD less_le)
  have "(of_int (2 ^ nat (bitlen p - 1)) :: rat) \<le> of_int p" using b(1) by (simp only: of_int_le_iff)
  then show "2 powi (bitlen p - 1) \<le> (of_int p :: rat)" using n by (simp add: power_int_def)
  have "(of_int p :: rat) < of_int (2 ^ nat (bitlen p))" using b(2) by (simp only: of_int_less_iff)
  then show "of_int p < (2 powi bitlen p :: rat)" using n by (simp add: power_int_def)
qed

lemma expo_bounds:
  assumes "0 < x" shows "2 powi (expo x) \<le> x" "x < 2 powi (expo x + 1)"
proof -
  obtain p q where pq: "quotient_of x = (p, q)" by fastforce
  note Q = pos_quotient [OF assms pq]
  let ?k = "bitlen p - bitlen q"
  have q0: "(0 :: rat) < of_int q" using Q(2) by simp
  have "(2 :: rat) powi (?k - 1) * of_int q \<le> 2 powi (?k - 1) * 2 powi bitlen q"
    using bitlen_rat_bounds(2) [OF Q(2)] by (intro mult_left_mono) auto
  also have "\<dots> = 2 powi (bitlen p - 1)" by (simp add: power_int_add [symmetric])
  also have "\<dots> \<le> of_int p" by (rule bitlen_rat_bounds(1) [OF Q(1)])
  finally have lo: "2 powi (?k - 1) \<le> x" using q0 by (simp add: Q(3) pos_le_divide_eq)
  have "of_int p < (2 :: rat) powi bitlen p" by (rule bitlen_rat_bounds(2) [OF Q(1)])
  also have "\<dots> = 2 powi (?k + 1) * 2 powi (bitlen q - 1)" by (simp add: power_int_add [symmetric])
  also have "\<dots> \<le> 2 powi (?k + 1) * of_int q"
    using bitlen_rat_bounds(1) [OF Q(2)] by (intro mult_left_mono) auto
  finally have hi: "x < 2 powi (?k + 1)" using q0 by (simp add: Q(3) pos_divide_less_eq)
  have e: "expo x = (if 2 powi ?k \<le> x then ?k else ?k - 1)"
    by (simp add: expo_def pq)
  show "2 powi (expo x) \<le> x" using lo by (simp add: e)
  show "x < 2 powi (expo x + 1)" using hi by (simp add: e)
qed

lemma powi_le_iff: "(2 :: rat) powi i \<le> 2 powi j \<longleftrightarrow> i \<le> j"
  by (meson linorder_not_less one_less_numeral_iff power_int_strict_increasing
      power_int_increasing semiring_norm(76) less_imp_le)

lemma expo_mono: assumes "0 < x" "x \<le> y" shows "expo x \<le> expo y"
proof -
  have "2 powi (expo x) < (2 :: rat) powi (expo y + 1)"
    using expo_bounds(1) [OF assms(1)] assms(2) expo_bounds(2) [of y] assms by linarith
  then show ?thesis by (metis linorder_not_less powi_le_iff zle_add1_eq_le)
qed

text \<open>The exponent of a value's last place is 52 below its \<open>scale\<close>.\<close>

definition scale :: "rat \<Rightarrow> int" where
  "scale x = max (expo x) (- 1022)"

lemma fl64_pos: "0 < x \<Longrightarrow> fl64 x = of_int (rnd_even (x / 2 powi (scale x - 52))) * 2 powi (scale x - 52)"
  by (simp add: fl64_def Let_def scale_def)

lemma fl64_0 [simp]: "fl64 0 = 0"
  by (simp add: fl64_def)

lemma powi_split: "(2 :: rat) powi (e + 53) = 2 powi (e + 1) * 2 ^ 52"
  "(2 :: rat) powi e = 2 powi (e - 52) * 2 ^ 52" "(2 :: rat) powi (e + 1) = 2 powi (e - 52) * 2 ^ 53"
  by (simp_all only: power_int_of_nat [symmetric] power_int_add [symmetric, OF disjI1],
      simp_all add: add.commute)

lemma fl64_ge_powi: assumes "0 < x" "- 1022 \<le> expo x" shows "2 powi (scale x) \<le> fl64 x"
proof -
  let ?u = "(2 :: rat) powi (scale x - 52)"
  have e: "scale x = expo x" using assms(2) by (simp add: scale_def)
  have "of_int (2 ^ 52) \<le> x / ?u"
    using expo_bounds(1) [OF assms(1)] by (simp add: e pos_le_divide_eq powi_split(2) [of "expo x"] mult.commute)
  then have "2 ^ 52 \<le> rnd_even (x / ?u)" by (rule rnd_even_ge_int)
  then have "(of_int (2 ^ 52) :: rat) \<le> of_int (rnd_even (x / ?u))" by (simp only: of_int_le_iff)
  then show ?thesis
    by (simp add: fl64_pos [OF assms(1)] powi_split(2) [of "scale x"] mult.commute)
qed

lemma fl64_le_powi: assumes "0 < x" shows "fl64 x \<le> 2 powi (scale x + 1)"
proof -
  let ?u = "(2 :: rat) powi (scale x - 52)"
  have "(2 :: rat) powi (expo x + 1) \<le> 2 powi (scale x + 1)" by (simp add: powi_le_iff scale_def)
  then have "x \<le> 2 powi (scale x + 1)" using expo_bounds(2) [OF assms] by linarith
  then have "x / ?u \<le> of_int (2 ^ 53)"
    by (simp add: pos_divide_le_eq powi_split(3) [of "scale x"] mult.commute)
  then have "rnd_even (x / ?u) \<le> 2 ^ 53" by (rule rnd_even_le_int)
  then have "(of_int (rnd_even (x / ?u)) :: rat) \<le> of_int (2 ^ 53)" by (simp only: of_int_le_iff)
  then show ?thesis
    by (simp add: fl64_pos [OF assms] powi_split(3) [of "scale x"] mult.commute)
qed

lemma fl64_nonneg [simp]: "0 \<le> x \<Longrightarrow> 0 \<le> fl64 x"
proof (cases "x = 0")
  case False
  moreover assume "0 \<le> x"
  ultimately have x: "0 < x" by simp
  have "0 \<le> rnd_even (x / 2 powi (scale x - 52))" using x by (intro rnd_even_ge_int) simp
  then show ?thesis by (simp add: fl64_pos [OF x])
qed simp

lemma fl64_mono: assumes "0 \<le> x" "x \<le> y" shows "fl64 x \<le> fl64 y"
proof (cases "x = 0")
  case False
  then have x: "0 < x" and y: "0 < y" using assms by auto
  have m: "expo x \<le> expo y" by (rule expo_mono [OF x assms(2)])
  show ?thesis
  proof (cases "scale x = scale y")
    case True
    let ?u = "(2 :: rat) powi (scale y - 52)"
    have "rnd_even (x / ?u) \<le> rnd_even (y / ?u)"
      using assms by (intro rnd_even_mono divide_right_mono) auto
    then show ?thesis using True by (simp add: fl64_pos x y)
  next
    case False
    with m have y': "- 1022 \<le> expo y" "scale x + 1 \<le> scale y" by (auto simp: scale_def max_def split: if_splits)
    then have "(2 :: rat) powi (scale x + 1) \<le> 2 powi (scale y)" by (simp add: powi_le_iff)
    with fl64_le_powi [OF x] fl64_ge_powi [OF y y'(1)] show ?thesis by linarith
  qed
qed (use assms in simp)

lemma fl64_of_nat:
  assumes "n < 2 ^ 53" shows "fl64 (of_nat n) = of_nat n"
proof (cases "n = 0")
  case False
  let ?x = "of_nat n :: rat"
  have x: "0 < ?x" using False by simp
  have "?x < 2 ^ 53"
  proof -
    have "(of_nat n :: rat) < of_nat (2 ^ 53)" using assms by (simp only: of_nat_less_iff)
    then show ?thesis by simp
  qed
  then have "2 powi (expo ?x) < (2 :: rat) powi 53"
    using expo_bounds(1) [OF x] by simp
  then have "\<not> 53 \<le> expo ?x" by (simp only: powi_le_iff [symmetric] not_le)
  then have e: "scale ?x \<le> 52" by (simp add: scale_def)
  let ?u = "(2 :: rat) powi (scale ?x - 52)" and ?m = "2 ^ nat (52 - scale ?x) :: int"
  have "?u * of_int ?m = ?u * 2 powi (52 - scale ?x)" using e by (simp add: power_int_def)
  also have "\<dots> = 1" by (simp add: power_int_add [symmetric])
  finally have um: "?u * of_int ?m = 1" .
  have u0: "?u \<noteq> 0" by simp
  have "?x / ?u = ?x * (?u * of_int ?m) / ?u" by (simp only: um mult_1_right)
  also have "\<dots> = of_int (int n * ?m)" using u0 by simp
  finally have "rnd_even (?x / ?u) = int n * ?m" by (simp only: rnd_even_int)
  then have "fl64 ?x = of_int (int n * ?m) * ?u" by (simp only: fl64_pos [OF x])
  also have "\<dots> = ?x * (?u * of_int ?m)" by simp
  finally show ?thesis by (simp only: um mult_1_right)
qed simp

lemma fl64_numeral_1 [simp]: "fl64 1 = 1"
  using fl64_of_nat [of 1] by simp

section \<open>Values\<close>

text \<open>\<open>Infty True\<close> is the negative infinity.\<close>

datatype f64 = Fin rat | Infty bool | NaN

definition f64_round :: "rat \<Rightarrow> f64" where
  "f64_round x = (let y = fl64 x in if 2 ^ 1024 \<le> \<bar>y\<bar> then Infty (y < 0) else Fin y)"

fun f64_less :: "f64 \<Rightarrow> f64 \<Rightarrow> bool" where
  "f64_less (Fin x) (Fin y) \<longleftrightarrow> x < y"
| "f64_less (Fin x) (Infty n) \<longleftrightarrow> \<not> n"
| "f64_less (Infty n) (Fin y) \<longleftrightarrow> n"
| "f64_less (Infty m) (Infty n) \<longleftrightarrow> m \<and> \<not> n"
| "f64_less NaN _ \<longleftrightarrow> False"
| "f64_less _ NaN \<longleftrightarrow> False"

fun f64_eq :: "f64 \<Rightarrow> f64 \<Rightarrow> bool" where
  "f64_eq NaN _ \<longleftrightarrow> False"
| "f64_eq x y \<longleftrightarrow> x = y"

definition f64_le :: "f64 \<Rightarrow> f64 \<Rightarrow> bool" where
  "f64_le x y \<longleftrightarrow> f64_less x y \<or> f64_eq x y"

fun f64_neg :: "f64 \<Rightarrow> f64" where
  "f64_neg (Fin x) = Fin (- x)"
| "f64_neg (Infty n) = Infty (\<not> n)"
| "f64_neg NaN = NaN"

fun f64_add :: "f64 \<Rightarrow> f64 \<Rightarrow> f64" where
  "f64_add (Fin x) (Fin y) = f64_round (x + y)"
| "f64_add (Fin x) (Infty n) = Infty n"
| "f64_add (Infty m) (Fin y) = Infty m"
| "f64_add (Infty m) (Infty n) = (if m = n then Infty m else NaN)"
| "f64_add NaN _ = NaN"
| "f64_add _ NaN = NaN"

definition f64_sub :: "f64 \<Rightarrow> f64 \<Rightarrow> f64" where
  "f64_sub x y = f64_add x (f64_neg y)"

fun f64_mul :: "f64 \<Rightarrow> f64 \<Rightarrow> f64" where
  "f64_mul (Fin x) (Fin y) = f64_round (x * y)"
| "f64_mul (Fin x) (Infty n) = (if x = 0 then NaN else Infty (n \<noteq> (x < 0)))"
| "f64_mul (Infty m) (Fin y) = (if y = 0 then NaN else Infty (m \<noteq> (y < 0)))"
| "f64_mul (Infty m) (Infty n) = Infty (m \<noteq> n)"
| "f64_mul NaN _ = NaN"
| "f64_mul _ NaN = NaN"

text \<open>The quotient; a zero divisor counts as the positive zero.\<close>

fun f64_div :: "f64 \<Rightarrow> f64 \<Rightarrow> f64" where
  "f64_div (Fin x) (Fin y) = (if y \<noteq> 0 then f64_round (x / y) else if x = 0 then NaN else Infty (x < 0))"
| "f64_div (Fin x) (Infty n) = Fin 0"
| "f64_div (Infty m) (Fin y) = Infty (m \<noteq> (y < 0))"
| "f64_div (Infty m) (Infty n) = NaN"
| "f64_div NaN _ = NaN"
| "f64_div _ NaN = NaN"

text \<open>Conversion to a 64-bit integer. The language leaves a value out of range to the platform; this is
  what amd64 returns.\<close>

fun f64_int64 :: "f64 \<Rightarrow> int" where
  "f64_int64 (Fin x) = (if - (2 ^ 63) \<le> go_trunc x \<and> go_trunc x < 2 ^ 63 then go_trunc x else - (2 ^ 63))"
| "f64_int64 _ = - (2 ^ 63)"

lemma f64_round_simps [simp]: "f64_round 0 = Fin 0" "f64_round 1 = Fin 1"
  by (simp_all add: f64_round_def)

lemma f64_round_of_nat: "n < 2 ^ 53 \<Longrightarrow> f64_round (of_nat n) = Fin (of_nat n)"
proof -
  assume n: "n < 2 ^ 53"
  then have "(of_nat n :: rat) < of_nat (2 ^ 53)" by (simp only: of_nat_less_iff)
  also have "\<dots> \<le> 2 ^ 1024" by simp
  finally show ?thesis using n by (simp add: f64_round_def fl64_of_nat Let_def)
qed

lemma f64_less_NaN [simp]: "\<not> f64_less x NaN" "\<not> f64_less NaN x"
  by (cases x; simp)+

lemma f64_eq_simps [simp]: "f64_eq (Fin x) y \<longleftrightarrow> y = Fin x" "f64_eq z (Fin x) \<longleftrightarrow> z = Fin x" "\<not> f64_eq z NaN"
    apply (cases y; auto)
   apply (cases z; auto)
  apply (cases z; auto)
  done

lemma f64_le_simps [simp]: "f64_le (Fin x) (Fin y) \<longleftrightarrow> x \<le> y" "f64_le (Fin x) (Infty n) \<longleftrightarrow> \<not> n"
  "f64_le (Infty n) (Fin y) \<longleftrightarrow> n" "f64_le (Infty m) (Infty n) \<longleftrightarrow> m \<or> \<not> n" "\<not> f64_le z NaN" "\<not> f64_le NaN z"
  by (auto simp: f64_le_def)

lemma f64_arith_NaN [simp]: "f64_add x NaN = NaN" "f64_mul x NaN = NaN" "f64_div x NaN = NaN"
  by (cases x; simp)+

lemma f64_not_less: "x \<noteq> NaN \<Longrightarrow> y \<noteq> NaN \<Longrightarrow> \<not> f64_less x y \<longleftrightarrow> f64_le y x"
  by (cases x; cases y) auto

lemma f64_round_mono: "0 \<le> x \<Longrightarrow> x \<le> y \<Longrightarrow> f64_le (f64_round x) (f64_round y)"
  using fl64_mono [of x y] fl64_nonneg [of x] fl64_nonneg [of y] by (auto simp: f64_round_def Let_def)

lemma f64_round_nonneg: "0 \<le> x \<Longrightarrow> f64_le (Fin 0) (f64_round x)"
  using f64_round_mono [of 0 x] by simp

lemma f64_add_nonneg: "f64_le (Fin 0) x \<Longrightarrow> f64_le (Fin 0) y \<Longrightarrow> f64_le (Fin 0) (f64_add x y)"
  by (cases x; cases y) (auto intro: f64_round_nonneg)

lemma f64_mul_nonneg: "0 < x \<Longrightarrow> f64_less (Fin 0) y \<Longrightarrow> f64_le (Fin 0) (f64_mul (Fin x) y)"
  by (cases y) (auto intro: f64_round_nonneg)

end
