(* ===== verification/Limiter.thy ===== *)
theory Limiter
  imports GoFloat
begin

text \<open>
  The token-bucket rate limiter of \<open>internal/relay/ratelimit.go\<close>: buckets per key, lazy refill,
  and the periodic sweep that bounds the map. The clock reading is an argument. The lemmas give
  the token bounds and the burst bound of a bucket, what the sweep really drops, and what becomes
  of a limit whose burst is not a number or infinite.
\<close>

section \<open>State and operations\<close>

record bucket =
  bk_tokens :: f64
  bk_last :: gotime

record limiter =
  lm_buckets :: "(string, bucket) gomap"
  lm_lastSweep :: gotime

definition bucketSweepInterval :: duration where
  "bucketSweepInterval = 10 * minute"

definition newLimiter :: limiter where
  "newLimiter = \<lparr>lm_buckets = [], lm_lastSweep = 0\<rparr>"

definition sweep_horizon :: "f64 \<Rightarrow> f64 \<Rightarrow> duration" where
  "sweep_horizon burst rate =
     (let refill = wrap64 (f64_int64 (f64_div burst rate) * second)
      in if refill < bucketSweepInterval then bucketSweepInterval else refill)"

definition sweepLocked :: "gotime \<Rightarrow> f64 \<Rightarrow> f64 \<Rightarrow> limiter \<Rightarrow> limiter" where
  "sweepLocked now burst rate l =
     (if lm_lastSweep l = 0 then l\<lparr>lm_lastSweep := now\<rparr>
      else if time_sub now (lm_lastSweep l) < bucketSweepInterval then l
      else l\<lparr>lm_lastSweep := now,
             lm_buckets := filter (\<lambda>kb. \<not> sweep_horizon burst rate < time_sub now (bk_last (snd kb)))
                             (lm_buckets l)\<rparr>)"

text \<open>The refill: nothing happens unless time has passed.\<close>

definition refill :: "f64 \<Rightarrow> f64 \<Rightarrow> gotime \<Rightarrow> bucket \<Rightarrow> bucket" where
  "refill rate burst now b =
     (let elapsed = dur_seconds (time_sub now (bk_last b)) in
      if 0 < elapsed then
        (let t = f64_add (bk_tokens b) (f64_mul (Fin elapsed) rate) in
         \<lparr>bk_tokens = (if f64_less burst t then burst else t), bk_last = now\<rparr>)
      else b)"

definition allow :: "string \<Rightarrow> f64 \<Rightarrow> f64 \<Rightarrow> gotime \<Rightarrow> limiter \<Rightarrow> bool \<times> limiter" where
  "allow key rate burst now l =
     (if f64_le rate (Fin 0) then (True, l)
      else let burst = (if f64_less burst (Fin 1) then Fin 1 else burst);
               l = sweepLocked now burst rate l;
               b = (case mget (lm_buckets l) key of
                      None \<Rightarrow> \<lparr>bk_tokens = burst, bk_last = now\<rparr> | Some b \<Rightarrow> b);
               b = refill rate burst now b
           in if f64_le (Fin 1) (bk_tokens b)
              then (True, l\<lparr>lm_buckets :=
                      mput key (b\<lparr>bk_tokens := f64_sub (bk_tokens b) (Fin 1)\<rparr>) (lm_buckets l)\<rparr>)
              else (False, l\<lparr>lm_buckets := mput key b (lm_buckets l)\<rparr>))"

definition perHour :: "int \<Rightarrow> f64 \<times> f64" where
  "perHour n = (if n \<le> 0 then (Fin 0, Fin 0)
     else (f64_div (f64_round (of_int n)) (Fin 3600), f64_round (of_int n)))"

definition perMinute :: "int \<Rightarrow> f64 \<times> f64" where
  "perMinute n = (if n \<le> 0 then (Fin 0, Fin 0)
     else (f64_div (f64_round (of_int n)) (Fin 60), f64_round (of_int n)))"

section \<open>Token bounds\<close>

definition bucket_ok :: "f64 \<Rightarrow> bucket \<Rightarrow> bool" where
  "bucket_ok burst b \<longleftrightarrow> f64_le (Fin 0) (bk_tokens b) \<and> f64_le (bk_tokens b) burst"

lemma refill_ok:
  assumes "bucket_ok burst b" "f64_less (Fin 0) rate"
  shows "bucket_ok burst (refill rate burst now b)"
proof -
  have "f64_le (Fin 0) (f64_add (bk_tokens b) (f64_mul (Fin e) rate))" if "0 < e" for e
    using assms that by (intro f64_add_nonneg f64_mul_nonneg) (auto simp: bucket_ok_def)
  moreover have "burst \<noteq> NaN" using assms(1) by (auto simp: bucket_ok_def)
  moreover have "t \<noteq> NaN" if "f64_le (Fin 0) t" for t using that by auto
  moreover have "f64_le (Fin 0) burst" "f64_le burst burst"
    using assms(1) by (cases "bk_tokens b"; cases burst; auto simp: bucket_ok_def)+
  ultimately show ?thesis using assms(1)
    by (simp add: refill_def bucket_ok_def Let_def) (metis f64_not_less)
qed

text \<open>A burst is a value of the type: rounding does not change it.\<close>

definition is_f64 :: "f64 \<Rightarrow> bool" where
  "is_f64 v \<longleftrightarrow> (case v of Fin x \<Rightarrow> f64_round x = v | _ \<Rightarrow> True)"

lemma spend_ok:
  assumes "bucket_ok burst b" "f64_le (Fin 1) (bk_tokens b)" "is_f64 burst"
  shows "bucket_ok burst (b\<lparr>bk_tokens := f64_sub (bk_tokens b) (Fin 1)\<rparr>)"
proof (cases "bk_tokens b")
  case (Fin t)
  then have t: "1 \<le> t" using assms(2) by simp
  have "f64_le (f64_round (t - 1)) burst"
  proof (cases burst)
    case (Fin c)
    then have "f64_le (f64_round (t - 1)) (f64_round c)"
      using assms(1) t \<open>bk_tokens b = Fin t\<close> by (intro f64_round_mono) (auto simp: bucket_ok_def)
    then show ?thesis using assms(3) Fin by (simp add: is_f64_def)
  next
    case (Infty n)
    then show ?thesis using assms(1) \<open>bk_tokens b = Fin t\<close> by (auto simp: bucket_ok_def f64_round_def Let_def)
  qed (use assms(1) in \<open>simp add: bucket_ok_def\<close>)
  then show ?thesis using t Fin by (simp add: bucket_ok_def f64_sub_def f64_round_nonneg)
qed (use assms in \<open>auto simp: bucket_ok_def f64_sub_def\<close>)

text \<open>The buckets of one key class, all used with the same burst.\<close>

definition limiter_ok :: "(string \<Rightarrow> f64) \<Rightarrow> limiter \<Rightarrow> bool" where
  "limiter_ok cap l \<longleftrightarrow> mwf (lm_buckets l)
     \<and> (\<forall>k b. mget (lm_buckets l) k = Some b \<longrightarrow> bucket_ok (cap k) b)"

lemma sweepLocked_ok: "limiter_ok cap l \<Longrightarrow> limiter_ok cap (sweepLocked now burst rate l)"
  by (auto simp: sweepLocked_def limiter_ok_def dest: mget_filterD)

lemma allow_limiter_ok:
  assumes "limiter_ok cap l" "is_f64 (cap key)" "f64_le (Fin 1) (cap key)" "rate \<noteq> NaN"
    and "cap key = (if f64_less burst (Fin 1) then Fin 1 else burst)"
  shows "limiter_ok cap (snd (allow key rate burst now l))"
proof (cases "f64_le rate (Fin 0)")
  case False
  let ?l = "sweepLocked now (cap key) rate l"
  define b where "b = (case mget (lm_buckets ?l) key of
    None \<Rightarrow> \<lparr>bk_tokens = cap key, bk_last = now\<rparr> | Some b \<Rightarrow> b)"
  have l: "limiter_ok cap ?l" using assms(1) by (rule sweepLocked_ok)
  have c: "f64_le (Fin 0) (cap key)" "f64_le (cap key) (cap key)" using assms(3) by (cases "cap key"; simp)+
  then have "bucket_ok (cap key) b"
    using l by (auto simp: b_def limiter_ok_def bucket_ok_def split: option.splits)
  moreover have "f64_less (Fin 0) rate" using False assms(4) by (cases rate) auto
  ultimately have r: "bucket_ok (cap key) (refill rate (cap key) now b)" by (rule refill_ok)
  note m = assms(5) [symmetric]
  have "snd (allow key rate burst now l) =
    (let b' = refill rate (cap key) now b in
     ?l\<lparr>lm_buckets := mput key (if f64_le (Fin 1) (bk_tokens b') then b'\<lparr>bk_tokens := f64_sub (bk_tokens b') (Fin 1)\<rparr> else b')
          (lm_buckets ?l)\<rparr>)"
    using False by (simp add: allow_def Let_def b_def m)
  with l r spend_ok [OF r _ assms(2)] show ?thesis
    by (auto simp: limiter_ok_def Let_def)
qed (use assms in \<open>simp add: allow_def\<close>)

text \<open>A disabled limit never refuses.\<close>

lemma allow_disabled: "f64_le rate (Fin 0) \<Longrightarrow> allow key rate burst now l = (True, l)"
  by (simp add: allow_def)

section \<open>The burst bound\<close>

text \<open>\<open>n\<close> requests for one key at one instant, and how many of them are granted.\<close>

fun hammer :: "nat \<Rightarrow> string \<Rightarrow> f64 \<Rightarrow> f64 \<Rightarrow> gotime \<Rightarrow> limiter \<Rightarrow> nat \<times> limiter" where
  "hammer 0 key rate burst now l = (0, l)"
| "hammer (Suc n) key rate burst now l =
     (let (ok, l) = allow key rate burst now l; (k, l) = hammer n key rate burst now l
      in ((if ok then Suc k else k), l))"

text \<open>The sweep does nothing when it has just run, so it does not disturb a burst.\<close>

definition swept :: "gotime \<Rightarrow> limiter \<Rightarrow> bool" where
  "swept now l \<longleftrightarrow> lm_lastSweep l \<noteq> 0 \<and> time_sub now (lm_lastSweep l) < bucketSweepInterval"

lemma swept_sweep: "swept now l \<Longrightarrow> sweepLocked now burst rate l = l"
  by (simp add: sweepLocked_def swept_def)

lemma dur_seconds_0 [simp]: "dur_seconds 0 = 0"
  by (simp add: dur_seconds_def go_quot_def go_rem_def)

lemma refill_same [simp]: "bk_last b = now \<Longrightarrow> refill rate burst now b = b"
  by (simp add: refill_def)

lemma f64_pred_of_nat: "Suc k < 2 ^ 53 \<Longrightarrow> f64_sub (Fin (of_nat (Suc k))) (Fin 1) = Fin (of_nat k)"
  by (simp add: f64_sub_def f64_round_of_nat)

lemma hammer_bucket:
  assumes "swept now l" "\<not> f64_le rate (Fin 0)" "\<not> f64_less burst (Fin 1)" "k < 2 ^ 53"
    and "mget (lm_buckets l) key = Some \<lparr>bk_tokens = Fin (of_nat k), bk_last = now\<rparr>"
  shows "fst (hammer n key rate burst now l) = min n k"
  using assms
proof (induction n arbitrary: k l)
  case (Suc n)
  note b = Suc.prems(5)
  show ?case
  proof (cases k)
    case 0
    let ?l = "l\<lparr>lm_buckets := mput key \<lparr>bk_tokens = Fin (of_nat 0), bk_last = now\<rparr> (lm_buckets l)\<rparr>"
    have a: "allow key rate burst now l = (False, ?l)"
      using Suc.prems b 0 by (simp add: allow_def swept_sweep Let_def)
    have "fst (hammer n key rate burst now ?l) = min n 0"
      using Suc.prems by (intro Suc.IH) (simp_all add: swept_def)
    then show ?thesis using a 0 by (simp add: split_beta)
  next
    case (Suc k')
    let ?l = "l\<lparr>lm_buckets := mput key \<lparr>bk_tokens = Fin (of_nat k'), bk_last = now\<rparr> (lm_buckets l)\<rparr>"
    have "f64_sub (Fin (of_nat k)) (Fin 1) = Fin (of_nat k')"
      using Suc.prems(4) unfolding Suc by (intro f64_pred_of_nat)
    then have a: "allow key rate burst now l = (True, ?l)"
      using Suc.prems b Suc by (simp add: allow_def swept_sweep Let_def)
    have "fst (hammer n key rate burst now ?l) = min n k'"
      using Suc.prems Suc by (intro Suc.IH) (simp_all add: swept_def)
    then show ?thesis using a Suc by (simp add: split_beta)
  qed
qed simp

lemma hammer_fresh:
  assumes "swept now l" "\<not> f64_le rate (Fin 0)" "0 < k" "k < 2 ^ 53" "mget (lm_buckets l) key = None"
  shows "fst (hammer n key rate (Fin (of_nat k)) now l) = min n k"
proof (cases n)
  case (Suc m)
  obtain k' where k: "k = Suc k'" using assms(3) gr0_implies_Suc by blast
  let ?l = "l\<lparr>lm_buckets := mput key \<lparr>bk_tokens = Fin (of_nat k'), bk_last = now\<rparr> (lm_buckets l)\<rparr>"
  have "f64_sub (Fin (of_nat k)) (Fin 1) = Fin (of_nat k')" using assms(4) unfolding k by (intro f64_pred_of_nat)
  then have a: "allow key rate (Fin (of_nat k)) now l = (True, ?l)"
    using assms k by (simp add: allow_def swept_sweep Let_def)
  have "fst (hammer m key rate (Fin (of_nat k)) now ?l) = min m k'"
    using assms k by (intro hammer_bucket) (simp_all add: swept_def)
  then show ?thesis using a Suc k by (simp add: split_beta)
qed simp

section \<open>A burst that is no number\<close>

text \<open>With a burst that is not a number every request of a key is refused, whenever it comes; with an
  infinite burst every request is granted. Neither stops being so: the bucket keeps its token value.\<close>

definition tokens_are :: "f64 \<Rightarrow> string \<Rightarrow> limiter \<Rightarrow> bool" where
  "tokens_are v key l \<longleftrightarrow> mwf (lm_buckets l) \<and> (\<forall>b. mget (lm_buckets l) key = Some b \<longrightarrow> bk_tokens b = v)"

lemma tokens_are_sweep: "tokens_are v key l \<Longrightarrow> tokens_are v key (sweepLocked now burst rate l)"
  by (auto simp: sweepLocked_def tokens_are_def dest: mget_filterD)

lemma allow_NaN_burst:
  assumes "tokens_are NaN key l" "\<not> f64_le rate (Fin 0)"
  shows "\<not> fst (allow key rate NaN now l) \<and> tokens_are NaN key (snd (allow key rate NaN now l))"
proof -
  define b where "b = (case mget (lm_buckets (sweepLocked now NaN rate l)) key of
    None \<Rightarrow> \<lparr>bk_tokens = NaN, bk_last = now\<rparr> | Some b \<Rightarrow> b)"
  have "bk_tokens b = NaN"
    using tokens_are_sweep [OF assms(1)] by (auto simp: b_def tokens_are_def split: option.splits)
  then have "bk_tokens (refill rate NaN now b) = NaN" by (simp add: refill_def Let_def)
  then show ?thesis using assms(2) tokens_are_sweep [OF assms(1)]
    by (simp add: allow_def Let_def tokens_are_def flip: b_def)
qed

lemma allow_infinite_burst:
  assumes "tokens_are (Infty False) key l" "f64_less (Fin 0) rate"
  shows "fst (allow key rate (Infty False) now l) \<and> tokens_are (Infty False) key (snd (allow key rate (Infty False) now l))"
proof -
  define b where "b = (case mget (lm_buckets (sweepLocked now (Infty False) rate l)) key of
    None \<Rightarrow> \<lparr>bk_tokens = Infty False, bk_last = now\<rparr> | Some b \<Rightarrow> b)"
  have "bk_tokens b = Infty False"
    using tokens_are_sweep [OF assms(1)] by (auto simp: b_def tokens_are_def split: option.splits)
  moreover have "f64_add (Infty False) (f64_mul (Fin e) rate) = Infty False" if "0 < e" for e
    using assms(2) that by (cases rate) (auto simp: f64_round_def Let_def)
  ultimately have "bk_tokens (refill rate (Infty False) now b) = Infty False" by (simp add: refill_def Let_def)
  moreover have "\<not> f64_le rate (Fin 0)" using assms(2) by (cases rate) auto
  ultimately show ?thesis using tokens_are_sweep [OF assms(1)]
    by (simp add: allow_def Let_def tokens_are_def f64_sub_def flip: b_def)
qed

text \<open>The answers to the requests of a key, one per clock reading, and the limiter after them.\<close>

fun requests :: "string \<Rightarrow> f64 \<Rightarrow> f64 \<Rightarrow> gotime list \<Rightarrow> limiter \<Rightarrow> bool list" where
  "requests key rate burst [] l = []"
| "requests key rate burst (now # ts) l =
     (let (ok, l) = allow key rate burst now l in ok # requests key rate burst ts l)"

lemma requests_same:
  assumes "\<And>now l. P l \<Longrightarrow> fst (allow key rate burst now l) = v \<and> P (snd (allow key rate burst now l))" "P l"
  shows "requests key rate burst ts l = replicate (length ts) v"
  using assms(2)
proof (induction ts arbitrary: l)
  case (Cons now ts)
  with assms(1) [OF Cons.prems, of now] show ?case by (simp add: split_beta)
qed simp

theorem nonfinite_burst:
  assumes "mwf (lm_buckets l)" "mget (lm_buckets l) key = None" "f64_less (Fin 0) rate"
  shows "requests key rate NaN ts l = replicate (length ts) False
    \<and> requests key rate (Infty False) ts l = replicate (length ts) True"
proof
  have r: "\<not> f64_le rate (Fin 0)" using assms(3) by (cases rate) auto
  have t: "tokens_are v key l" for v using assms(1,2) by (simp add: tokens_are_def)
  show "requests key rate NaN ts l = replicate (length ts) False"
    by (rule requests_same [where P = "tokens_are NaN key", OF _ t]) (use allow_NaN_burst [OF _ r] in auto)
  show "requests key rate (Infty False) ts l = replicate (length ts) True"
    by (rule requests_same [where P = "tokens_are (Infty False) key", OF _ t])
      (use allow_infinite_burst [OF _ assms(3)] in auto)
qed

section \<open>What the sweep drops\<close>

lemma sweepLocked_drops:
  assumes "mwf (lm_buckets l)" "lm_lastSweep l \<noteq> 0"
    and "bucketSweepInterval \<le> time_sub now (lm_lastSweep l)"
    and "mget (lm_buckets l) k = Some b" "sweep_horizon burst rate < time_sub now (bk_last b)"
  shows "mget (lm_buckets (sweepLocked now burst rate l)) k = None"
  using assms by (simp add: sweepLocked_def mget_filter [where P = "\<lambda>b. \<not> sweep_horizon burst rate < time_sub now (bk_last b)"])

end
