(* ===== verification/Mailbox.thy ===== *)
theory Mailbox
  imports Prelude
begin

text \<open>
  The per-channel ciphertext buffer of \<open>internal/relay/store.go\<close> (type \<open>mailbox\<close>): \<open>append\<close> with
  its TTL prune and its two-cap eviction, \<open>prune\<close>, and the paged, non-destructive \<open>fetch\<close>.
  The loops are recursive functions over the item list that carry the byte counter as the Go
  code does. The lemmas show what the loops compute: a suffix of what arrived (never
  reordered, never duplicated), the longest one within both caps, with an exact byte count;
  and pages that partition the items above the cursor.
\<close>

section \<open>Data\<close>

record MailboxItem =
  mi_Seq :: uint64
  mi_PushClass :: string
  mi_Body :: bytes
  mi_StoredAt :: gotime

record MailboxPolicy =
  mp_TTL :: duration
  mp_MaxFrames :: int
  mp_MaxBytes :: int

record mailbox =
  mb_items :: "MailboxItem list"
  mb_bytes :: int

definition empty_mailbox :: mailbox where
  "empty_mailbox = \<lparr>mb_items = [], mb_bytes = 0\<rparr>"

section \<open>Operations\<close>

text \<open>The prune loop: drop items from the front while they are at least \<open>ttl\<close> old.\<close>

fun prune_loop :: "gotime \<Rightarrow> duration \<Rightarrow> MailboxItem list \<Rightarrow> int \<Rightarrow> MailboxItem list \<times> int" where
  "prune_loop now ttl [] b = ([], b)"
| "prune_loop now ttl (it # its) b =
     (if time_sub now (mi_StoredAt it) < ttl then (it # its, b)
      else prune_loop now ttl its (b - int (length (mi_Body it))))"

definition mailbox_prune :: "gotime \<Rightarrow> duration \<Rightarrow> mailbox \<Rightarrow> mailbox" where
  "mailbox_prune now ttl m =
     (let (its, b) = prune_loop now ttl (mb_items m) (mb_bytes m)
      in m\<lparr>mb_items := its, mb_bytes := b\<rparr>)"

text \<open>The eviction loop: drop the oldest item while either cap is exceeded.\<close>

fun evict_loop :: "MailboxPolicy \<Rightarrow> MailboxItem list \<Rightarrow> int \<Rightarrow> MailboxItem list \<times> int" where
  "evict_loop pol [] b = ([], b)"
| "evict_loop pol (it # its) b =
     (if mp_MaxFrames pol < int (length (it # its)) \<or> mp_MaxBytes pol < b
      then evict_loop pol its (b - int (length (mi_Body it))) else (it # its, b))"

definition mailbox_append :: "MailboxItem \<Rightarrow> MailboxPolicy \<Rightarrow> mailbox \<Rightarrow> mailbox" where
  "mailbox_append it pol m =
     (let m = mailbox_prune (mi_StoredAt it) (mp_TTL pol) m;
          m = m\<lparr>mb_items := mb_items m @ [it], mb_bytes := mb_bytes m + int (length (mi_Body it))\<rparr>;
          (its, b) = evict_loop pol (mb_items m) (mb_bytes m)
      in m\<lparr>mb_items := its, mb_bytes := b\<rparr>)"

fun fetch_loop :: "uint64 \<Rightarrow> int \<Rightarrow> MailboxItem list \<Rightarrow> MailboxItem list \<Rightarrow> uint64
    \<Rightarrow> MailboxItem list \<times> uint64 \<times> bool" where
  "fetch_loop after limit [] items nxt = (items, nxt, False)"
| "fetch_loop after limit (it # its) items nxt =
     (if mi_Seq it \<le> after then fetch_loop after limit its items nxt
      else if limit \<le> int (length items) then (items, nxt, True)
      else fetch_loop after limit its (items @ [it]) (mi_Seq it))"

definition mailbox_fetch :: "uint64 \<Rightarrow> int \<Rightarrow> gotime \<Rightarrow> duration \<Rightarrow> mailbox
    \<Rightarrow> (MailboxItem list \<times> uint64 \<times> bool) \<times> mailbox" where
  "mailbox_fetch after limit now ttl m =
     (let m = mailbox_prune now ttl m in (fetch_loop after limit (mb_items m) [] after, m))"

section \<open>Specification vocabulary\<close>

definition weight :: "MailboxItem list \<Rightarrow> int" where
  "weight its = (\<Sum>it\<leftarrow>its. int (length (mi_Body it)))"

definition live :: "gotime \<Rightarrow> duration \<Rightarrow> MailboxItem list \<Rightarrow> MailboxItem list" where
  "live now ttl its = dropWhile (\<lambda>it. ttl \<le> time_sub now (mi_StoredAt it)) its"

definition mb_inv :: "mailbox \<Rightarrow> bool" where
  "mb_inv m \<longleftrightarrow> mb_bytes m = weight (mb_items m)"

definition within_caps :: "MailboxPolicy \<Rightarrow> MailboxItem list \<Rightarrow> bool" where
  "within_caps pol its \<longleftrightarrow> int (length its) \<le> mp_MaxFrames pol \<and> weight its \<le> mp_MaxBytes pol"

text \<open>The caps a configuration that passes validation has: both positive.\<close>

definition pol_ok :: "MailboxPolicy \<Rightarrow> bool" where
  "pol_ok pol \<longleftrightarrow> 0 < mp_MaxFrames pol \<and> 0 < mp_MaxBytes pol"

definition pending :: "uint64 \<Rightarrow> MailboxItem list \<Rightarrow> MailboxItem list" where
  "pending after its = filter (\<lambda>it. after < mi_Seq it) its"

section \<open>What the loops compute\<close>

lemma weight_simps [simp]:
  "weight [] = 0" "weight (it # its) = int (length (mi_Body it)) + weight its"
  "weight (xs @ ys) = weight xs + weight ys"
  by (simp_all add: weight_def)

lemma weight_nonneg [simp]: "0 \<le> weight its"
  by (induction its) auto

lemma weight_suffix: "suffix xs ys \<Longrightarrow> weight xs \<le> weight ys"
  by (auto simp: suffix_def)

lemma prune_loop_eq:
  "prune_loop now ttl its b = (live now ttl its, b - (weight its - weight (live now ttl its)))"
  by (induction its arbitrary: b) (auto simp: live_def)

lemma mailbox_prune_items [simp]: "mb_items (mailbox_prune now ttl m) = live now ttl (mb_items m)"
  by (simp add: mailbox_prune_def prune_loop_eq)

lemma mailbox_prune_inv [simp]: "mb_inv m \<Longrightarrow> mb_inv (mailbox_prune now ttl m)"
  by (simp add: mailbox_prune_def prune_loop_eq mb_inv_def)

lemma suffix_live [simp]: "suffix (live now ttl its) its"
  by (simp add: live_def suffix_dropWhile)

lemma evict_loop_weight: "evict_loop pol its (weight its) = (its', b) \<Longrightarrow> b = weight its'"
  by (induction its) (auto split: if_splits)

lemma evict_loop_suffix: "evict_loop pol its b = (its', b') \<Longrightarrow> suffix its' its"
  by (induction its arbitrary: b) (auto split: if_splits intro: suffix_ConsI)

lemma evict_loop_caps:
  "pol_ok pol \<Longrightarrow> evict_loop pol its (weight its) = (its', b) \<Longrightarrow> within_caps pol its'"
  by (induction its) (auto simp: within_caps_def pol_ok_def split: if_splits)

text \<open>Eviction stops as early as it can: any suffix within the caps is kept.\<close>

lemma evict_loop_longest:
  assumes "evict_loop pol its (weight its) = (its', b)" and "suffix zs its"
    and "within_caps pol zs"
  shows "suffix zs its'"
  using assms
proof (induction its)
  case (Cons it its)
  show ?case
  proof (cases "mp_MaxFrames pol < int (length (it # its)) \<or> mp_MaxBytes pol < weight (it # its)")
    case True
    then have "\<not> within_caps pol (it # its)" by (auto simp: within_caps_def)
    with Cons.prems have "suffix zs its" by (auto simp: suffix_Cons)
    with Cons True show ?thesis by (simp split: if_splits)
  next
    case False
    with Cons.prems show ?thesis by (simp split: if_splits)
  qed
qed simp

lemma mailbox_append_evict:
  fixes it :: MailboxItem and pol :: MailboxPolicy
  assumes "mb_inv m"
  defines "xs \<equiv> live (mi_StoredAt it) (mp_TTL pol) (mb_items m) @ [it]"
  shows "evict_loop pol xs (weight xs)
    = (mb_items (mailbox_append it pol m), mb_bytes (mailbox_append it pol m))"
proof -
  have "mb_inv (mailbox_prune (mi_StoredAt it) (mp_TTL pol) m)" using assms by simp
  then have "mb_bytes (mailbox_prune (mi_StoredAt it) (mp_TTL pol) m) + int (length (mi_Body it))
      = weight xs"
    by (simp add: mb_inv_def xs_def)
  then show ?thesis
    by (simp add: mailbox_append_def Let_def split_beta xs_def)
qed

lemma mailbox_append_inv [simp]: "mb_inv m \<Longrightarrow> mb_inv (mailbox_append it pol m)"
  using evict_loop_weight [OF mailbox_append_evict] by (simp add: mb_inv_def)

text \<open>C32. Appending a frame keeps the longest run of the newest frames that fits both
  caps: the buffer after an append is a suffix of the unexpired items followed by the new one,
  it is within the frame and byte caps, its byte counter is exact, and no longer suffix fits.\<close>

theorem mailbox_append_longest_suffix:
  assumes "mb_inv m" and "pol_ok pol"
  shows "let arrived = live (mi_StoredAt it) (mp_TTL pol) (mb_items m) @ [it];
             m' = mailbox_append it pol m
         in suffix (mb_items m') arrived \<and> within_caps pol (mb_items m')
            \<and> mb_bytes m' = weight (mb_items m')
            \<and> (\<forall>zs. suffix zs arrived \<longrightarrow> within_caps pol zs \<longrightarrow> suffix zs (mb_items m'))"
proof -
  let ?arrived = "live (mi_StoredAt it) (mp_TTL pol) (mb_items m) @ [it]"
  let ?m' = "mailbox_append it pol m"
  have ev: "evict_loop pol ?arrived (weight ?arrived) = (mb_items ?m', mb_bytes ?m')"
    using assms(1) by (rule mailbox_append_evict)
  have "mb_inv ?m'" using assms(1) by simp
  then show ?thesis
    using evict_loop_suffix [OF ev] evict_loop_caps [OF assms(2) ev] evict_loop_longest [OF ev]
    by (simp add: mb_inv_def Let_def)
qed

definition ex_item :: "uint64 \<Rightarrow> nat \<Rightarrow> gotime \<Rightarrow> MailboxItem" where
  "ex_item q n t = \<lparr>mi_Seq = q, mi_PushClass = ''wake'', mi_Body = replicate n 7, mi_StoredAt = t\<rparr>"

definition ex_mailbox :: mailbox where
  "ex_mailbox = \<lparr>mb_items = [ex_item 1 4 10, ex_item 2 5 20, ex_item 3 6 30], mb_bytes = 15\<rparr>"

definition ex_policy :: MailboxPolicy where
  "ex_policy = \<lparr>mp_TTL = 100, mp_MaxFrames = 3, mp_MaxBytes = 16\<rparr>"

theorem mailbox_append_longest_suffix_witness:
  "mb_inv ex_mailbox \<and> pol_ok ex_policy
   \<and> suffix (mb_items (mailbox_append (ex_item 4 9 40) ex_policy ex_mailbox))
       (mb_items ex_mailbox @ [ex_item 4 9 40])
   \<and> mb_items (mailbox_append (ex_item 4 9 40) ex_policy ex_mailbox) = [ex_item 3 6 30, ex_item 4 9 40]"
proof -
  have h: "mb_inv ex_mailbox" "pol_ok ex_policy" by code_simp+
  have "live 40 100 (mb_items ex_mailbox) = mb_items ex_mailbox" by code_simp
  then have "suffix (mb_items (mailbox_append (ex_item 4 9 40) ex_policy ex_mailbox))
       (mb_items ex_mailbox @ [ex_item 4 9 40])"
    using mailbox_append_longest_suffix [OF h, of "ex_item 4 9 40"]
    by (simp add: Let_def ex_item_def ex_policy_def)
  moreover have "mb_items (mailbox_append (ex_item 4 9 40) ex_policy ex_mailbox)
      = [ex_item 3 6 30, ex_item 4 9 40]" by code_simp
  ultimately show ?thesis using h by simp
qed

lemma mailbox_append_suffix:
  assumes "mb_inv m" shows "suffix (mb_items (mailbox_append it pol m)) (mb_items m @ [it])"
proof -
  let ?live = "live (mi_StoredAt it) (mp_TTL pol) (mb_items m)"
  have "suffix (mb_items (mailbox_append it pol m)) (?live @ [it])"
    by (rule evict_loop_suffix [OF mailbox_append_evict [OF assms]])
  moreover have "suffix (?live @ [it]) (mb_items m @ [it])"
    using suffix_live by (simp add: same_suffix_suffix)
  ultimately show ?thesis by (rule suffix_order.trans)
qed

lemma mailbox_append_caps:
  assumes "mb_inv m" and "pol_ok pol" shows "within_caps pol (mb_items (mailbox_append it pol m))"
  by (rule evict_loop_caps [OF assms(2) mailbox_append_evict [OF assms(1)]])

section \<open>Fetching\<close>

lemma fetch_loop_eq:
  "fetch_loop after limit its items nxt =
     (let todo = pending after its; room = nat (limit - int (length items)); got = take room todo
      in (items @ got, (if got = [] then nxt else mi_Seq (last got)), room < length todo))"
proof (induction its arbitrary: items nxt)
  case (Cons it its)
  show ?case
  proof (cases "mi_Seq it \<le> after \<or> limit \<le> int (length items)")
    case True
    then show ?thesis using Cons by (auto simp: pending_def Let_def not_less)
  next
    case False
    then obtain k where k: "nat (limit - int (length items)) = Suc k"
      using not0_implies_Suc [of "nat (limit - int (length items))"] by force
    moreover from k have "nat (limit - int (length (items @ [it]))) = k" by simp
    ultimately show ?thesis using Cons [of "items @ [it]" "mi_Seq it"] False
      by (auto simp: pending_def Let_def)
  qed
qed (simp add: pending_def)

text \<open>C33. A fetch is a page of the live frames above the cursor: the first \<open>limit\<close> of them in
  arrival order, the cursor advanced to the last one returned, \<open>truncated\<close> exactly when more
  remain; and it removes nothing but expired frames.\<close>

theorem mailbox_fetch_page:
  assumes "0 \<le> limit"
  shows "mailbox_fetch after limit now ttl m =
    (let todo = pending after (live now ttl (mb_items m)); page = take (nat limit) todo
     in ((page, (if page = [] then after else mi_Seq (last page)), limit < int (length todo)),
         mailbox_prune now ttl m))"
  using assms by (auto simp: mailbox_fetch_def fetch_loop_eq Let_def)

theorem mailbox_fetch_page_witness:
  "(0::int) \<le> 1 \<and> fst (mailbox_fetch 1 1 40 100 ex_mailbox) = ([ex_item 2 5 20], 2, True)"
proof -
  have p: "pending 1 (live 40 100 (mb_items ex_mailbox)) = [ex_item 2 5 20, ex_item 3 6 30]"
    by code_simp
  show ?thesis
    using mailbox_fetch_page [of 1 1 40 100 ex_mailbox]
    unfolding p by (simp add: Let_def ex_item_def)
qed

lemma mailbox_fetch_inv: "mb_inv m \<Longrightarrow> mb_inv (snd (mailbox_fetch after limit now ttl m))"
  by (simp add: mailbox_fetch_def Let_def)

lemma mailbox_fetch_items [simp]:
  "mb_items (snd (mailbox_fetch after limit now ttl m)) = live now ttl (mb_items m)"
  by (simp add: mailbox_fetch_def Let_def)

lemma live_live [simp]: "live now ttl (live now ttl its) = live now ttl its"
  by (simp add: live_def)

lemma mailbox_fetch_fetch:
  "fst (mailbox_fetch after limit now ttl (snd (mailbox_fetch after' limit' now ttl m)))
   = fst (mailbox_fetch after limit now ttl m)"
  by (simp add: mailbox_fetch_def Let_def)

text \<open>Splitting a sequence-sorted list at the cursor a page returns.\<close>

lemma pending_page:
  assumes sorted: "sorted_wrt (\<lambda>a b. mi_Seq a < mi_Seq b) its"
    and got: "take n (pending after its) \<noteq> []"
  shows "pending (mi_Seq (last (take n (pending after its)))) its = drop n (pending after its)"
proof -
  let ?p = "pending after its" let ?l = "last (take n ?p)"
  have srt: "sorted_wrt (\<lambda>a b. mi_Seq a < mi_Seq b) (take n ?p @ drop n ?p)"
    using sorted by (simp add: pending_def sorted_wrt_filter)
  have l: "?l \<in> set (take n ?p)" using got by (rule last_in_set)
  then have "after < mi_Seq ?l" by (metis (no_types, lifting) in_set_takeD mem_Collect_eq
      pending_def set_filter)
  then have "pending (mi_Seq ?l) its = pending (mi_Seq ?l) ?p"
    unfolding pending_def filter_filter by (intro filter_cong refl) auto
  also have "\<dots> = pending (mi_Seq ?l) (take n ?p) @ pending (mi_Seq ?l) (drop n ?p)"
    unfolding pending_def by (metis append_take_drop_id filter_append)
  also have "pending (mi_Seq ?l) (drop n ?p) = drop n ?p"
  proof -
    have "\<forall>x \<in> set (drop n ?p). mi_Seq ?l < mi_Seq x"
      using srt l unfolding sorted_wrt_append by blast
    then show ?thesis unfolding pending_def [of "mi_Seq ?l"] by (rule filter_True)
  qed
  also have "pending (mi_Seq ?l) (take n ?p) = []"
  proof -
    have "mi_Seq a \<le> mi_Seq ?l" if "a \<in> set (take n ?p)" for a
    proof -
      have s: "sorted_wrt (\<lambda>a b. mi_Seq a < mi_Seq b) (butlast (take n ?p) @ [?l])"
        using srt got by (simp add: sorted_wrt_append)
      have "a \<in> set (butlast (take n ?p)) \<or> a = ?l"
        using that got by (metis append_butlast_last_id in_set_conv_decomp_first set_ConsD
            Un_iff empty_iff list.set(1) set_append)
      with s show ?thesis by (auto simp: sorted_wrt_append)
    qed
    then show ?thesis unfolding pending_def by (intro filter_False) (auto simp: not_less)
  qed
  finally show ?thesis by simp
qed

section \<open>The buffer interface\<close>

text \<open>
  What a router may assume of a per-channel buffer, whatever implements it: appends keep a
  suffix of what arrived and stay within the caps, reads remove nothing that is still live.
\<close>

locale frame_buffer =
  fixes items :: "'b \<Rightarrow> 'i list" and inv :: "'b \<Rightarrow> bool"
    and push :: "'p \<Rightarrow> 'i \<Rightarrow> 'b \<Rightarrow> 'b" and pull :: "'q \<Rightarrow> 'b \<Rightarrow> 'b"
    and caps :: "'p \<Rightarrow> 'i list \<Rightarrow> bool" and ok :: "'p \<Rightarrow> bool"
  assumes push_inv: "inv b \<Longrightarrow> inv (push p i b)"
    and push_suffix: "inv b \<Longrightarrow> suffix (items (push p i b)) (items b @ [i])"
    and push_caps: "inv b \<Longrightarrow> ok p \<Longrightarrow> caps p (items (push p i b))"
    and pull_inv: "inv b \<Longrightarrow> inv (pull q b)"
    and pull_suffix: "inv b \<Longrightarrow> suffix (items (pull q b)) (items b)"
begin

fun run :: "'p \<Rightarrow> ('i + 'q) list \<Rightarrow> 'b \<Rightarrow> 'b" where
  "run p [] b = b"
| "run p (Inl i # es) b = run p es (push p i b)"
| "run p (Inr q # es) b = run p es (pull q b)"

fun pushed :: "('i + 'q) list \<Rightarrow> 'i list" where
  "pushed [] = []"
| "pushed (Inl i # es) = i # pushed es"
| "pushed (Inr q # es) = pushed es"

lemma run_inv: "inv b \<Longrightarrow> inv (run p es b)"
  by (induction p es b rule: run.induct) (auto intro: push_inv pull_inv)

text \<open>Whatever the interleaving of appends and reads, the buffer holds a suffix of what
  arrived: nothing is reordered, duplicated or invented.\<close>

lemma run_suffix: "inv b \<Longrightarrow> suffix (items (run p es b)) (items b @ pushed es)"
proof (induction p es b rule: run.induct)
  case (2 p i es b)
  then have "suffix (items (run p es (push p i b))) (items (push p i b) @ pushed es)"
    by (auto intro: push_inv)
  also have "suffix (items (push p i b) @ pushed es) ((items b @ [i]) @ pushed es)"
    using push_suffix [OF \<open>inv b\<close>, of p i] by (simp only: same_suffix_suffix)
  finally show ?case by simp
next
  case (3 p q es b)
  then have "suffix (items (run p es (pull q b))) (items (pull q b) @ pushed es)"
    by (auto intro: pull_inv)
  also have "suffix (items (pull q b) @ pushed es) (items b @ pushed es)"
    using pull_suffix [OF \<open>inv b\<close>, of q] by (simp only: same_suffix_suffix)
  finally show ?case by simp
qed simp

lemma run_caps: "inv b \<Longrightarrow> ok p \<Longrightarrow> caps p (items (run p (es @ [Inl i]) b))"
  by (induction p es b rule: run.induct) (auto intro: push_caps push_inv pull_inv)

end

interpretation mbx: frame_buffer mb_items mb_inv "\<lambda>pol it. mailbox_append it pol"
  "\<lambda>(after, limit, now, ttl) m. snd (mailbox_fetch after limit now ttl m)" within_caps pol_ok
proof (unfold_locales, goal_cases)
  case 1 then show ?case by (rule mailbox_append_inv)
next
  case 2 then show ?case by (rule mailbox_append_suffix)
next
  case 3 then show ?case by (rule mailbox_append_caps)
next
  case 4 then show ?case by (simp add: mailbox_fetch_inv split_beta)
next
  case 5 then show ?case by (simp add: split_beta)
qed

end
