(* ===== verification/Store.thy ===== *)
theory Store
  imports Mailbox
begin

text \<open>
  \<open>MemStore\<close> of \<open>internal/relay/store.go\<close>: the six persistence classes as records, the store as a
  record of Go maps, and one definition per method of the \<open>Store\<close> interface. A method that
  mutates returns the new store beside its result; \<open>ok\<close> results are options. \<open>MemStore\<close> never
  fails for any other reason than the two sentinel errors, so those are its only error values.

  \<open>store_inv\<close> is the agreement between the store's index maps and its tables; every method keeps
  it. The identifiers a method inserts are drawn by the caller, so the two inserting methods
  keep the invariant when the identifier is fresh.
\<close>

section \<open>The six persistence classes\<close>

record Binding =
  bd_HostID :: string
  bd_AccountSub :: string
  bd_BoundAt :: gotime
  bd_LastAttachAt :: gotime

record Pairing =
  pr_PairingID :: string
  pr_ChannelID :: string
  pr_HostID :: string
  pr_DeviceID :: string
  pr_AccountSub :: string
  pr_HostLabel :: "string option"
  pr_CreatedAt :: gotime

record Window =
  wd_WindowID :: string
  wd_HostID :: string
  wd_ProvisionalChannel :: string
  wd_ExpiresAt :: gotime
  wd_Attaches :: int

record APNSToken =
  at_DeviceID :: string
  at_Token :: string
  at_Env :: string

record HostPresence =
  hp_HostID :: string
  hp_Online :: bool
  hp_LastSeen :: gotime

record DevicePresence =
  dp_ChannelID :: string
  dp_Attached :: bool
  dp_LastSeen :: gotime

datatype StoreError = ErrChannelRegistered | ErrBoundToOtherAccount

record MemStore =
  ms_idleReap :: duration
  ms_bindings :: "(string, Binding) gomap"
  ms_pairings :: "(string, Pairing) gomap"
  ms_byChannel :: "(string, string) gomap"
  ms_windows :: "(string, Window) gomap"
  ms_winByHost :: "(string, string) gomap"
  ms_mailboxes :: "(string, mailbox) gomap"
  ms_apns :: "(string, APNSToken) gomap"
  ms_hostPres :: "(string, HostPresence) gomap"
  ms_devPres :: "(string, DevicePresence) gomap"

definition DefaultBindingIdleReap :: duration where
  "DefaultBindingIdleReap = 30 * 24 * hour"

definition NewMemStore :: "duration \<Rightarrow> MemStore" where
  "NewMemStore idleReap =
     \<lparr>ms_idleReap = (if idleReap \<le> 0 then DefaultBindingIdleReap else idleReap),
      ms_bindings = [], ms_pairings = [], ms_byChannel = [], ms_windows = [], ms_winByHost = [],
      ms_mailboxes = [], ms_apns = [], ms_hostPres = [], ms_devPres = []\<rparr>"

section \<open>Host account bindings\<close>

definition hostHasPairingsLocked :: "string \<Rightarrow> MemStore \<Rightarrow> bool" where
  "hostHasPairingsLocked hostID s = list_ex (\<lambda>p. pr_HostID p = hostID) (mvals (ms_pairings s))"

definition bindingLocked :: "string \<Rightarrow> gotime \<Rightarrow> MemStore \<Rightarrow> Binding option \<times> MemStore" where
  "bindingLocked hostID now s =
     (case mget (ms_bindings s) hostID of
        None \<Rightarrow> (None, s)
      | Some b \<Rightarrow>
          if \<not> hostHasPairingsLocked hostID s \<and> ms_idleReap s \<le> time_sub now (bd_LastAttachAt b)
          then (None, s\<lparr>ms_bindings := mdel hostID (ms_bindings s)\<rparr>)
          else (Some b, s))"

definition BindHost :: "string \<Rightarrow> string \<Rightarrow> gotime \<Rightarrow> MemStore \<Rightarrow> (StoreError + Binding) \<times> MemStore" where
  "BindHost hostID sub now s =
     (case bindingLocked hostID now s of
        (Some b, s) \<Rightarrow>
          if bd_AccountSub b \<noteq> sub then (Inl ErrBoundToOtherAccount, s)
          else (let b = b\<lparr>bd_LastAttachAt := now\<rparr>
                in (Inr b, s\<lparr>ms_bindings := mput hostID b (ms_bindings s)\<rparr>))
      | (None, s) \<Rightarrow>
          (let b = \<lparr>bd_HostID = hostID, bd_AccountSub = sub, bd_BoundAt = now, bd_LastAttachAt = now\<rparr>
           in (Inr b, s\<lparr>ms_bindings := mput hostID b (ms_bindings s)\<rparr>)))"

definition LookupBinding :: "string \<Rightarrow> gotime \<Rightarrow> MemStore \<Rightarrow> Binding option \<times> MemStore" where
  "LookupBinding hostID now s = bindingLocked hostID now s"

definition TouchBinding :: "string \<Rightarrow> gotime \<Rightarrow> MemStore \<Rightarrow> MemStore" where
  "TouchBinding hostID now s =
     (case mget (ms_bindings s) hostID of
        None \<Rightarrow> s
      | Some b \<Rightarrow> s\<lparr>ms_bindings := mput hostID (b\<lparr>bd_LastAttachAt := now\<rparr>) (ms_bindings s)\<rparr>)"

section \<open>Routing registrations\<close>

definition CreatePairing :: "Pairing \<Rightarrow> MemStore \<Rightarrow> StoreError option \<times> MemStore" where
  "CreatePairing p s =
     (case mget (ms_byChannel s) (pr_ChannelID p) of
        Some _ \<Rightarrow> (Some ErrChannelRegistered, s)
      | None \<Rightarrow> (None, s\<lparr>ms_pairings := mput (pr_PairingID p) p (ms_pairings s),
                         ms_byChannel := mput (pr_ChannelID p) (pr_PairingID p) (ms_byChannel s)\<rparr>))"

definition LookupPairing :: "string \<Rightarrow> MemStore \<Rightarrow> Pairing option" where
  "LookupPairing pairingID s = mget (ms_pairings s) pairingID"

definition PairingByChannel :: "string \<Rightarrow> MemStore \<Rightarrow> Pairing option" where
  "PairingByChannel channelID s =
     (case mget (ms_byChannel s) channelID of
        None \<Rightarrow> None
      | Some i \<Rightarrow> mget (ms_pairings s) i)"

definition PairingsForHost :: "string \<Rightarrow> MemStore \<Rightarrow> Pairing list" where
  "PairingsForHost hostID s = filter (\<lambda>p. pr_HostID p = hostID) (mvals (ms_pairings s))"

definition PairingsForDevice :: "string \<Rightarrow> MemStore \<Rightarrow> Pairing list" where
  "PairingsForDevice deviceID s = filter (\<lambda>p. pr_DeviceID p = deviceID) (mvals (ms_pairings s))"

definition SetHostLabel :: "string \<Rightarrow> string option \<Rightarrow> MemStore \<Rightarrow> MemStore" where
  "SetHostLabel pairingID label s =
     (case mget (ms_pairings s) pairingID of
        None \<Rightarrow> s
      | Some p \<Rightarrow> s\<lparr>ms_pairings := mput pairingID (p\<lparr>pr_HostLabel := label\<rparr>) (ms_pairings s)\<rparr>)"

definition DeletePairing :: "string \<Rightarrow> MemStore \<Rightarrow> Pairing option \<times> MemStore" where
  "DeletePairing pairingID s =
     (case mget (ms_pairings s) pairingID of
        None \<Rightarrow> (None, s)
      | Some p \<Rightarrow>
          (let s = s\<lparr>ms_pairings := mdel pairingID (ms_pairings s),
                     ms_byChannel := mdel (pr_ChannelID p) (ms_byChannel s),
                     ms_mailboxes := mdel (pr_ChannelID p) (ms_mailboxes s),
                     ms_devPres := mdel (pr_ChannelID p) (ms_devPres s)\<rparr>;
               still = list_ex (\<lambda>other. pr_DeviceID other = pr_DeviceID p) (mvals (ms_pairings s))
           in (Some p, if still then s
                       else s\<lparr>ms_apns := mdel (pr_DeviceID p) (ms_apns s)\<rparr>)))"

section \<open>Pairing windows\<close>

definition OpenWindow :: "Window \<Rightarrow> MemStore \<Rightarrow> Window option \<times> MemStore" where
  "OpenWindow w s =
     (let (displaced, s) =
        (case mget (ms_winByHost s) (wd_HostID w) of
           None \<Rightarrow> (None, s)
         | Some oldID \<Rightarrow>
             (let (d, s) = (case mget (ms_windows s) oldID of
                              None \<Rightarrow> (None, s)
                            | Some old \<Rightarrow> (Some old, s\<lparr>ms_windows := mdel oldID (ms_windows s)\<rparr>))
              in (d, s\<lparr>ms_winByHost := mdel (wd_HostID w) (ms_winByHost s)\<rparr>)))
      in (displaced, s\<lparr>ms_windows := mput (wd_WindowID w) w (ms_windows s),
                       ms_winByHost := mput (wd_HostID w) (wd_WindowID w) (ms_winByHost s)\<rparr>))"

definition LookupWindow :: "string \<Rightarrow> MemStore \<Rightarrow> Window option" where
  "LookupWindow windowID s = mget (ms_windows s) windowID"

definition WindowForHost :: "string \<Rightarrow> gotime \<Rightarrow> MemStore \<Rightarrow> Window option \<times> MemStore" where
  "WindowForHost hostID now s =
     (case mget (ms_winByHost s) hostID of
        None \<Rightarrow> (None, s)
      | Some i \<Rightarrow>
          (case mget (ms_windows s) i of
             None \<Rightarrow> (None, s)
           | Some w \<Rightarrow>
               if \<not> now < wd_ExpiresAt w
               then (None, s\<lparr>ms_windows := mdel i (ms_windows s),
                             ms_winByHost := mdel hostID (ms_winByHost s)\<rparr>)
               else (Some w, s)))"

definition CountWindowAttach :: "string \<Rightarrow> int \<Rightarrow> MemStore \<Rightarrow> bool \<times> MemStore" where
  "CountWindowAttach windowID mx s =
     (case mget (ms_windows s) windowID of
        None \<Rightarrow> (False, s)
      | Some w \<Rightarrow>
          if 0 < mx \<and> mx \<le> wd_Attaches w then (False, s)
          else (True, s\<lparr>ms_windows :=
                          mput windowID (w\<lparr>wd_Attaches := wd_Attaches w + 1\<rparr>) (ms_windows s)\<rparr>))"

definition DeleteWindow :: "string \<Rightarrow> MemStore \<Rightarrow> Window option \<times> MemStore" where
  "DeleteWindow windowID s =
     (case mget (ms_windows s) windowID of
        None \<Rightarrow> (None, s)
      | Some w \<Rightarrow>
          (let s = s\<lparr>ms_windows := mdel windowID (ms_windows s)\<rparr>
           in (Some w, if mget (ms_winByHost s) (wd_HostID w) = Some windowID
                       then s\<lparr>ms_winByHost := mdel (wd_HostID w) (ms_winByHost s)\<rparr> else s)))"

section \<open>Mailboxes, tokens, presence\<close>

definition AppendMailbox :: "string \<Rightarrow> MailboxItem \<Rightarrow> MailboxPolicy \<Rightarrow> MemStore \<Rightarrow> MemStore" where
  "AppendMailbox channelID it pol s =
     (let mb = (case mget (ms_mailboxes s) channelID of None \<Rightarrow> empty_mailbox | Some mb \<Rightarrow> mb)
      in s\<lparr>ms_mailboxes := mput channelID (mailbox_append it pol mb) (ms_mailboxes s)\<rparr>)"

definition FetchMailbox :: "string \<Rightarrow> uint64 \<Rightarrow> int \<Rightarrow> gotime \<Rightarrow> duration \<Rightarrow> MemStore
    \<Rightarrow> (MailboxItem list \<times> uint64 \<times> bool) \<times> MemStore" where
  "FetchMailbox channelID after limit now ttl s =
     (case mget (ms_mailboxes s) channelID of
        None \<Rightarrow> (([], after, False), s)
      | Some mb \<Rightarrow>
          (let (page, mb) = mailbox_fetch after limit now ttl mb
           in (page, s\<lparr>ms_mailboxes := mput channelID mb (ms_mailboxes s)\<rparr>)))"

definition DropMailbox :: "string \<Rightarrow> MemStore \<Rightarrow> MemStore" where
  "DropMailbox channelID s = s\<lparr>ms_mailboxes := mdel channelID (ms_mailboxes s)\<rparr>"

definition PutAPNSToken :: "APNSToken \<Rightarrow> MemStore \<Rightarrow> MemStore" where
  "PutAPNSToken tok s = s\<lparr>ms_apns := mput (at_DeviceID tok) tok (ms_apns s)\<rparr>"

definition LookupAPNSToken :: "string \<Rightarrow> MemStore \<Rightarrow> APNSToken option" where
  "LookupAPNSToken deviceID s = mget (ms_apns s) deviceID"

definition DeleteAPNSToken :: "string \<Rightarrow> MemStore \<Rightarrow> MemStore" where
  "DeleteAPNSToken deviceID s = s\<lparr>ms_apns := mdel deviceID (ms_apns s)\<rparr>"

definition PutHostPresence :: "HostPresence \<Rightarrow> MemStore \<Rightarrow> MemStore" where
  "PutHostPresence p s = s\<lparr>ms_hostPres := mput (hp_HostID p) p (ms_hostPres s)\<rparr>"

definition LookupHostPresence :: "string \<Rightarrow> MemStore \<Rightarrow> HostPresence option" where
  "LookupHostPresence hostID s = mget (ms_hostPres s) hostID"

definition PutDevicePresence :: "DevicePresence \<Rightarrow> MemStore \<Rightarrow> MemStore" where
  "PutDevicePresence p s = s\<lparr>ms_devPres := mput (dp_ChannelID p) p (ms_devPres s)\<rparr>"

definition LookupDevicePresence :: "string \<Rightarrow> MemStore \<Rightarrow> DevicePresence option" where
  "LookupDevicePresence channelID s = mget (ms_devPres s) channelID"

section \<open>Frame facts: the tables each method leaves alone\<close>

lemma bindingLocked_frame [simp]:
  "ms_idleReap (snd (bindingLocked h t s)) = ms_idleReap s"
  "ms_pairings (snd (bindingLocked h t s)) = ms_pairings s"
  "ms_byChannel (snd (bindingLocked h t s)) = ms_byChannel s"
  "ms_windows (snd (bindingLocked h t s)) = ms_windows s"
  "ms_winByHost (snd (bindingLocked h t s)) = ms_winByHost s"
  "ms_mailboxes (snd (bindingLocked h t s)) = ms_mailboxes s"
  "ms_apns (snd (bindingLocked h t s)) = ms_apns s"
  "ms_hostPres (snd (bindingLocked h t s)) = ms_hostPres s"
  "ms_devPres (snd (bindingLocked h t s)) = ms_devPres s"
  by (simp_all add: bindingLocked_def Let_def split: option.splits prod.splits)

lemma BindHost_frame [simp]:
  "ms_idleReap (snd (BindHost h sub t s)) = ms_idleReap s"
  "ms_pairings (snd (BindHost h sub t s)) = ms_pairings s"
  "ms_byChannel (snd (BindHost h sub t s)) = ms_byChannel s"
  "ms_windows (snd (BindHost h sub t s)) = ms_windows s"
  "ms_winByHost (snd (BindHost h sub t s)) = ms_winByHost s"
  "ms_mailboxes (snd (BindHost h sub t s)) = ms_mailboxes s"
  "ms_apns (snd (BindHost h sub t s)) = ms_apns s"
  "ms_hostPres (snd (BindHost h sub t s)) = ms_hostPres s"
  "ms_devPres (snd (BindHost h sub t s)) = ms_devPres s"
  by (simp_all add: BindHost_def bindingLocked_def Let_def split: option.splits prod.splits)

lemma LookupBinding_frame [simp]:
  "ms_idleReap (snd (LookupBinding h t s)) = ms_idleReap s"
  "ms_pairings (snd (LookupBinding h t s)) = ms_pairings s"
  "ms_byChannel (snd (LookupBinding h t s)) = ms_byChannel s"
  "ms_windows (snd (LookupBinding h t s)) = ms_windows s"
  "ms_winByHost (snd (LookupBinding h t s)) = ms_winByHost s"
  "ms_mailboxes (snd (LookupBinding h t s)) = ms_mailboxes s"
  "ms_apns (snd (LookupBinding h t s)) = ms_apns s"
  "ms_hostPres (snd (LookupBinding h t s)) = ms_hostPres s"
  "ms_devPres (snd (LookupBinding h t s)) = ms_devPres s"
  by (simp_all add: LookupBinding_def bindingLocked_def Let_def split: option.splits prod.splits)

lemma TouchBinding_frame [simp]:
  "ms_idleReap (TouchBinding h t s) = ms_idleReap s"
  "ms_pairings (TouchBinding h t s) = ms_pairings s"
  "ms_byChannel (TouchBinding h t s) = ms_byChannel s"
  "ms_windows (TouchBinding h t s) = ms_windows s"
  "ms_winByHost (TouchBinding h t s) = ms_winByHost s"
  "ms_mailboxes (TouchBinding h t s) = ms_mailboxes s" "ms_apns (TouchBinding h t s) = ms_apns s"
  "ms_hostPres (TouchBinding h t s) = ms_hostPres s"
  "ms_devPres (TouchBinding h t s) = ms_devPres s"
  by (simp_all add: TouchBinding_def Let_def split: option.splits prod.splits)

lemma CreatePairing_frame [simp]:
  "ms_idleReap (snd (CreatePairing p s)) = ms_idleReap s"
  "ms_bindings (snd (CreatePairing p s)) = ms_bindings s"
  "ms_windows (snd (CreatePairing p s)) = ms_windows s"
  "ms_winByHost (snd (CreatePairing p s)) = ms_winByHost s"
  "ms_mailboxes (snd (CreatePairing p s)) = ms_mailboxes s"
  "ms_apns (snd (CreatePairing p s)) = ms_apns s"
  "ms_hostPres (snd (CreatePairing p s)) = ms_hostPres s"
  "ms_devPres (snd (CreatePairing p s)) = ms_devPres s"
  by (simp_all add: CreatePairing_def Let_def split: option.splits prod.splits)

lemma SetHostLabel_frame [simp]:
  "ms_idleReap (SetHostLabel i l s) = ms_idleReap s"
  "ms_bindings (SetHostLabel i l s) = ms_bindings s"
  "ms_byChannel (SetHostLabel i l s) = ms_byChannel s"
  "ms_windows (SetHostLabel i l s) = ms_windows s"
  "ms_winByHost (SetHostLabel i l s) = ms_winByHost s"
  "ms_mailboxes (SetHostLabel i l s) = ms_mailboxes s" "ms_apns (SetHostLabel i l s) = ms_apns s"
  "ms_hostPres (SetHostLabel i l s) = ms_hostPres s"
  "ms_devPres (SetHostLabel i l s) = ms_devPres s"
  by (simp_all add: SetHostLabel_def Let_def split: option.splits prod.splits)

lemma DeletePairing_frame [simp]:
  "ms_idleReap (snd (DeletePairing i s)) = ms_idleReap s"
  "ms_bindings (snd (DeletePairing i s)) = ms_bindings s"
  "ms_windows (snd (DeletePairing i s)) = ms_windows s"
  "ms_winByHost (snd (DeletePairing i s)) = ms_winByHost s"
  "ms_hostPres (snd (DeletePairing i s)) = ms_hostPres s"
  by (simp_all add: DeletePairing_def Let_def split: option.splits prod.splits)

lemma OpenWindow_frame [simp]:
  "ms_idleReap (snd (OpenWindow w s)) = ms_idleReap s"
  "ms_bindings (snd (OpenWindow w s)) = ms_bindings s"
  "ms_pairings (snd (OpenWindow w s)) = ms_pairings s"
  "ms_byChannel (snd (OpenWindow w s)) = ms_byChannel s"
  "ms_mailboxes (snd (OpenWindow w s)) = ms_mailboxes s"
  "ms_apns (snd (OpenWindow w s)) = ms_apns s"
  "ms_hostPres (snd (OpenWindow w s)) = ms_hostPres s"
  "ms_devPres (snd (OpenWindow w s)) = ms_devPres s"
  by (simp_all add: OpenWindow_def Let_def split: option.splits prod.splits)

lemma WindowForHost_frame [simp]:
  "ms_idleReap (snd (WindowForHost h t s)) = ms_idleReap s"
  "ms_bindings (snd (WindowForHost h t s)) = ms_bindings s"
  "ms_pairings (snd (WindowForHost h t s)) = ms_pairings s"
  "ms_byChannel (snd (WindowForHost h t s)) = ms_byChannel s"
  "ms_mailboxes (snd (WindowForHost h t s)) = ms_mailboxes s"
  "ms_apns (snd (WindowForHost h t s)) = ms_apns s"
  "ms_hostPres (snd (WindowForHost h t s)) = ms_hostPres s"
  "ms_devPres (snd (WindowForHost h t s)) = ms_devPres s"
  by (simp_all add: WindowForHost_def Let_def split: option.splits prod.splits)

lemma CountWindowAttach_frame [simp]:
  "ms_idleReap (snd (CountWindowAttach i mx s)) = ms_idleReap s"
  "ms_bindings (snd (CountWindowAttach i mx s)) = ms_bindings s"
  "ms_pairings (snd (CountWindowAttach i mx s)) = ms_pairings s"
  "ms_byChannel (snd (CountWindowAttach i mx s)) = ms_byChannel s"
  "ms_winByHost (snd (CountWindowAttach i mx s)) = ms_winByHost s"
  "ms_mailboxes (snd (CountWindowAttach i mx s)) = ms_mailboxes s"
  "ms_apns (snd (CountWindowAttach i mx s)) = ms_apns s"
  "ms_hostPres (snd (CountWindowAttach i mx s)) = ms_hostPres s"
  "ms_devPres (snd (CountWindowAttach i mx s)) = ms_devPres s"
  by (simp_all add: CountWindowAttach_def Let_def split: option.splits prod.splits)

lemma DeleteWindow_frame [simp]:
  "ms_idleReap (snd (DeleteWindow i s)) = ms_idleReap s"
  "ms_bindings (snd (DeleteWindow i s)) = ms_bindings s"
  "ms_pairings (snd (DeleteWindow i s)) = ms_pairings s"
  "ms_byChannel (snd (DeleteWindow i s)) = ms_byChannel s"
  "ms_mailboxes (snd (DeleteWindow i s)) = ms_mailboxes s"
  "ms_apns (snd (DeleteWindow i s)) = ms_apns s"
  "ms_hostPres (snd (DeleteWindow i s)) = ms_hostPres s"
  "ms_devPres (snd (DeleteWindow i s)) = ms_devPres s"
  by (simp_all add: DeleteWindow_def Let_def split: option.splits prod.splits)

lemma AppendMailbox_frame [simp]:
  "ms_idleReap (AppendMailbox c it pol s) = ms_idleReap s"
  "ms_bindings (AppendMailbox c it pol s) = ms_bindings s"
  "ms_pairings (AppendMailbox c it pol s) = ms_pairings s"
  "ms_byChannel (AppendMailbox c it pol s) = ms_byChannel s"
  "ms_windows (AppendMailbox c it pol s) = ms_windows s"
  "ms_winByHost (AppendMailbox c it pol s) = ms_winByHost s"
  "ms_apns (AppendMailbox c it pol s) = ms_apns s"
  "ms_hostPres (AppendMailbox c it pol s) = ms_hostPres s"
  "ms_devPres (AppendMailbox c it pol s) = ms_devPres s"
  by (simp_all add: AppendMailbox_def Let_def split: option.splits prod.splits)

lemma FetchMailbox_frame [simp]:
  "ms_idleReap (snd (FetchMailbox c a l t ttl s)) = ms_idleReap s"
  "ms_bindings (snd (FetchMailbox c a l t ttl s)) = ms_bindings s"
  "ms_pairings (snd (FetchMailbox c a l t ttl s)) = ms_pairings s"
  "ms_byChannel (snd (FetchMailbox c a l t ttl s)) = ms_byChannel s"
  "ms_windows (snd (FetchMailbox c a l t ttl s)) = ms_windows s"
  "ms_winByHost (snd (FetchMailbox c a l t ttl s)) = ms_winByHost s"
  "ms_apns (snd (FetchMailbox c a l t ttl s)) = ms_apns s"
  "ms_hostPres (snd (FetchMailbox c a l t ttl s)) = ms_hostPres s"
  "ms_devPres (snd (FetchMailbox c a l t ttl s)) = ms_devPres s"
  by (simp_all add: FetchMailbox_def Let_def split: option.splits prod.splits)

lemma DropMailbox_frame [simp]:
  "ms_idleReap (DropMailbox c s) = ms_idleReap s" "ms_bindings (DropMailbox c s) = ms_bindings s"
  "ms_pairings (DropMailbox c s) = ms_pairings s"
  "ms_byChannel (DropMailbox c s) = ms_byChannel s" "ms_windows (DropMailbox c s) = ms_windows s"
  "ms_winByHost (DropMailbox c s) = ms_winByHost s" "ms_apns (DropMailbox c s) = ms_apns s"
  "ms_hostPres (DropMailbox c s) = ms_hostPres s" "ms_devPres (DropMailbox c s) = ms_devPres s"
  by (simp_all add: DropMailbox_def Let_def split: option.splits prod.splits)

lemma PutAPNSToken_frame [simp]:
  "ms_idleReap (PutAPNSToken tok s) = ms_idleReap s"
  "ms_bindings (PutAPNSToken tok s) = ms_bindings s"
  "ms_pairings (PutAPNSToken tok s) = ms_pairings s"
  "ms_byChannel (PutAPNSToken tok s) = ms_byChannel s"
  "ms_windows (PutAPNSToken tok s) = ms_windows s"
  "ms_winByHost (PutAPNSToken tok s) = ms_winByHost s"
  "ms_mailboxes (PutAPNSToken tok s) = ms_mailboxes s"
  "ms_hostPres (PutAPNSToken tok s) = ms_hostPres s"
  "ms_devPres (PutAPNSToken tok s) = ms_devPres s"
  by (simp_all add: PutAPNSToken_def Let_def split: option.splits prod.splits)

lemma DeleteAPNSToken_frame [simp]:
  "ms_idleReap (DeleteAPNSToken d s) = ms_idleReap s"
  "ms_bindings (DeleteAPNSToken d s) = ms_bindings s"
  "ms_pairings (DeleteAPNSToken d s) = ms_pairings s"
  "ms_byChannel (DeleteAPNSToken d s) = ms_byChannel s"
  "ms_windows (DeleteAPNSToken d s) = ms_windows s"
  "ms_winByHost (DeleteAPNSToken d s) = ms_winByHost s"
  "ms_mailboxes (DeleteAPNSToken d s) = ms_mailboxes s"
  "ms_hostPres (DeleteAPNSToken d s) = ms_hostPres s"
  "ms_devPres (DeleteAPNSToken d s) = ms_devPres s"
  by (simp_all add: DeleteAPNSToken_def Let_def split: option.splits prod.splits)

lemma PutHostPresence_frame [simp]:
  "ms_idleReap (PutHostPresence hp s) = ms_idleReap s"
  "ms_bindings (PutHostPresence hp s) = ms_bindings s"
  "ms_pairings (PutHostPresence hp s) = ms_pairings s"
  "ms_byChannel (PutHostPresence hp s) = ms_byChannel s"
  "ms_windows (PutHostPresence hp s) = ms_windows s"
  "ms_winByHost (PutHostPresence hp s) = ms_winByHost s"
  "ms_mailboxes (PutHostPresence hp s) = ms_mailboxes s"
  "ms_apns (PutHostPresence hp s) = ms_apns s" "ms_devPres (PutHostPresence hp s) = ms_devPres s"
  by (simp_all add: PutHostPresence_def Let_def split: option.splits prod.splits)

lemma PutDevicePresence_frame [simp]:
  "ms_idleReap (PutDevicePresence dp s) = ms_idleReap s"
  "ms_bindings (PutDevicePresence dp s) = ms_bindings s"
  "ms_pairings (PutDevicePresence dp s) = ms_pairings s"
  "ms_byChannel (PutDevicePresence dp s) = ms_byChannel s"
  "ms_windows (PutDevicePresence dp s) = ms_windows s"
  "ms_winByHost (PutDevicePresence dp s) = ms_winByHost s"
  "ms_mailboxes (PutDevicePresence dp s) = ms_mailboxes s"
  "ms_apns (PutDevicePresence dp s) = ms_apns s"
  "ms_hostPres (PutDevicePresence dp s) = ms_hostPres s"
  by (simp_all add: PutDevicePresence_def Let_def split: option.splits prod.splits)

section \<open>The store invariant\<close>

definition pairings_inv :: "MemStore \<Rightarrow> bool" where
  "pairings_inv s \<longleftrightarrow> mwf (ms_pairings s)
     \<and> (\<forall>i p. mget (ms_pairings s) i = Some p \<longrightarrow> pr_PairingID p = i)
     \<and> indexes (ms_byChannel s) (ms_pairings s) pr_ChannelID"

definition windows_inv :: "MemStore \<Rightarrow> bool" where
  "windows_inv s \<longleftrightarrow>
     (\<forall>i w. mget (ms_windows s) i = Some w \<longrightarrow> wd_WindowID w = i)
     \<and> indexes (ms_winByHost s) (ms_windows s) wd_HostID"

definition boxes_inv :: "MemStore \<Rightarrow> bool" where
  "boxes_inv s \<longleftrightarrow> (\<forall>c mb. mget (ms_mailboxes s) c = Some mb \<longrightarrow> mb_inv mb)"

definition keys_inv :: "MemStore \<Rightarrow> bool" where
  "keys_inv s \<longleftrightarrow> 0 < ms_idleReap s
     \<and> (\<forall>h b. mget (ms_bindings s) h = Some b \<longrightarrow> bd_HostID b = h)
     \<and> (\<forall>d t. mget (ms_apns s) d = Some t \<longrightarrow> at_DeviceID t = d)
     \<and> (\<forall>h p. mget (ms_hostPres s) h = Some p \<longrightarrow> hp_HostID p = h)
     \<and> (\<forall>c p. mget (ms_devPres s) c = Some p \<longrightarrow> dp_ChannelID p = c)"

definition store_inv :: "MemStore \<Rightarrow> bool" where
  "store_inv s \<longleftrightarrow> pairings_inv s \<and> windows_inv s \<and> boxes_inv s \<and> keys_inv s"

lemma store_invI: "pairings_inv s \<Longrightarrow> windows_inv s \<Longrightarrow> boxes_inv s \<Longrightarrow> keys_inv s \<Longrightarrow> store_inv s"
  by (simp add: store_inv_def)

lemma store_invD:
  assumes "store_inv s" shows "pairings_inv s" "windows_inv s" "boxes_inv s" "keys_inv s"
  using assms by (simp_all add: store_inv_def)

text \<open>Each part depends only on its own tables.\<close>

lemma inv_frame:
  "pairings_inv s \<Longrightarrow> ms_pairings s' = ms_pairings s \<Longrightarrow> ms_byChannel s' = ms_byChannel s \<Longrightarrow>
     pairings_inv s'"
  "windows_inv s \<Longrightarrow> ms_windows s' = ms_windows s \<Longrightarrow> ms_winByHost s' = ms_winByHost s \<Longrightarrow>
     windows_inv s'"
  "boxes_inv s \<Longrightarrow> ms_mailboxes s' = ms_mailboxes s \<Longrightarrow> boxes_inv s'"
  "keys_inv s \<Longrightarrow> ms_idleReap s' = ms_idleReap s \<Longrightarrow> ms_bindings s' = ms_bindings s \<Longrightarrow>
     ms_apns s' = ms_apns s \<Longrightarrow> ms_hostPres s' = ms_hostPres s \<Longrightarrow> ms_devPres s' = ms_devPres s \<Longrightarrow>
     keys_inv s'"
  by (simp_all add: pairings_inv_def windows_inv_def boxes_inv_def keys_inv_def)

lemma store_inv_New [simp]: "store_inv (NewMemStore d)"
  by (simp add: store_inv_def pairings_inv_def windows_inv_def boxes_inv_def keys_inv_def
      NewMemStore_def DefaultBindingIdleReap_def)

lemma pairings_invD:
  assumes "pairings_inv s"
  shows "mwf (ms_pairings s)" "mget (ms_pairings s) i = Some p \<Longrightarrow> pr_PairingID p = i"
    "indexes (ms_byChannel s) (ms_pairings s) pr_ChannelID"
  using assms by (simp_all add: pairings_inv_def)

lemma windows_invD:
  assumes "windows_inv s"
  shows "mget (ms_windows s) i = Some w \<Longrightarrow> wd_WindowID w = i"
    "indexes (ms_winByHost s) (ms_windows s) wd_HostID"
  using assms by (simp_all add: windows_inv_def)

lemma list_ex_mvals: "mwf m \<Longrightarrow> list_ex P (mvals m) \<longleftrightarrow> (\<exists>k v. mget m k = Some v \<and> P v)"
  by (simp add: list_ex_iff Bex_def mvals_iff) blast

lemma hasPairings_iff:
  "pairings_inv s \<Longrightarrow> hostHasPairingsLocked h s
    \<longleftrightarrow> (\<exists>i p. mget (ms_pairings s) i = Some p \<and> pr_HostID p = h)"
  by (simp add: hostHasPairingsLocked_def list_ex_mvals pairings_invD)

lemma PairingByChannel_iff:
  assumes "pairings_inv s"
  shows "PairingByChannel c s = Some p
    \<longleftrightarrow> mget (ms_pairings s) (pr_PairingID p) = Some p \<and> pr_ChannelID p = c"
proof
  assume "PairingByChannel c s = Some p"
  then obtain i where i: "mget (ms_byChannel s) c = Some i" "mget (ms_pairings s) i = Some p"
    by (auto simp: PairingByChannel_def split: option.splits)
  moreover have "pr_PairingID p = i" using i(2) by (rule pairings_invD(2) [OF assms])
  moreover have "pr_ChannelID p = c" using i by (rule indexes_key [OF pairings_invD(3) [OF assms]])
  ultimately show "mget (ms_pairings s) (pr_PairingID p) = Some p \<and> pr_ChannelID p = c" by simp
next
  assume a: "mget (ms_pairings s) (pr_PairingID p) = Some p \<and> pr_ChannelID p = c"
  with pairings_invD(3) [OF assms] have "mget (ms_byChannel s) c = Some (pr_PairingID p)"
    by (metis indexesD)
  with a show "PairingByChannel c s = Some p" by (simp add: PairingByChannel_def)
qed

lemma PairingByChannel_None:
  "pairings_inv s \<Longrightarrow> PairingByChannel c s = None \<longleftrightarrow> mget (ms_byChannel s) c = None"
  by (auto simp: PairingByChannel_def dest!: pairings_invD(3) elim: indexesE split: option.splits)

section \<open>Every method keeps the invariant\<close>

lemma keys_inv_bindingLocked [simp]: "keys_inv s \<Longrightarrow> keys_inv (snd (bindingLocked h t s))"
  by (auto simp: bindingLocked_def keys_inv_def split: option.splits)

lemma keys_inv_BindHost [simp]: "keys_inv s \<Longrightarrow> keys_inv (snd (BindHost h sub t s))"
  by (auto simp: BindHost_def bindingLocked_def keys_inv_def Let_def split: option.splits)

lemma keys_inv_TouchBinding [simp]: "keys_inv s \<Longrightarrow> keys_inv (TouchBinding h t s)"
  by (auto simp: TouchBinding_def keys_inv_def split: option.splits)

lemma keys_inv_DeletePairing [simp]: "keys_inv s \<Longrightarrow> keys_inv (snd (DeletePairing i s))"
  by (auto simp: DeletePairing_def keys_inv_def Let_def split: option.splits)

lemma keys_inv_puts [simp]:
  "keys_inv s \<Longrightarrow> keys_inv (PutAPNSToken tok s)" "keys_inv s \<Longrightarrow> keys_inv (DeleteAPNSToken d s)"
  "keys_inv s \<Longrightarrow> keys_inv (PutHostPresence hp s)" "keys_inv s \<Longrightarrow> keys_inv (PutDevicePresence dp s)"
  by (auto simp: PutAPNSToken_def DeleteAPNSToken_def PutHostPresence_def PutDevicePresence_def
      keys_inv_def)

lemma pairings_inv_CreatePairing:
  assumes "pairings_inv s" and "mget (ms_pairings s) (pr_PairingID p) = None"
  shows "pairings_inv (snd (CreatePairing p s))"
  using assms indexes_insert [OF pairings_invD(3) [OF assms(1)] assms(2)]
  by (auto simp: CreatePairing_def pairings_inv_def split: option.splits)

lemma pairings_inv_SetHostLabel [simp]: "pairings_inv s \<Longrightarrow> pairings_inv (SetHostLabel i l s)"
  by (auto simp: SetHostLabel_def pairings_inv_def intro: indexes_update split: option.splits)

lemma pairings_inv_DeletePairing [simp]:
  "pairings_inv s \<Longrightarrow> pairings_inv (snd (DeletePairing i s))"
  by (auto simp: DeletePairing_def pairings_inv_def Let_def intro: indexes_delete split: option.splits)

lemma boxes_inv_DeletePairing [simp]: "boxes_inv s \<Longrightarrow> boxes_inv (snd (DeletePairing i s))"
  by (auto simp: DeletePairing_def boxes_inv_def Let_def split: option.splits)

lemma boxes_inv_Append [simp]: "boxes_inv s \<Longrightarrow> boxes_inv (AppendMailbox c it pol s)"
  by (auto simp: AppendMailbox_def boxes_inv_def empty_mailbox_def mb_inv_def Let_def
      intro!: mailbox_append_inv [unfolded mb_inv_def] split: option.splits)

lemma boxes_inv_Fetch [simp]: "boxes_inv s \<Longrightarrow> boxes_inv (snd (FetchMailbox c a l t ttl s))"
  by (auto simp: FetchMailbox_def boxes_inv_def split_beta mailbox_fetch_inv split: option.splits)

lemma boxes_inv_Drop [simp]: "boxes_inv s \<Longrightarrow> boxes_inv (DropMailbox c s)"
  by (auto simp: DropMailbox_def boxes_inv_def)

lemma windows_inv_delete:
  assumes "windows_inv s" and "mget (ms_windows s) i = Some w"
  shows "windows_inv (s\<lparr>ms_windows := mdel i (ms_windows s),
                        ms_winByHost := mdel (wd_HostID w) (ms_winByHost s)\<rparr>)"
  using assms indexes_delete [OF windows_invD(2) [OF assms(1)] assms(2)]
  by (simp add: windows_inv_def)

lemma windows_inv_WindowForHost [simp]:
  assumes "windows_inv s" shows "windows_inv (snd (WindowForHost h t s))"
proof -
  have "wd_HostID w = h" if "mget (ms_winByHost s) h = Some i" "mget (ms_windows s) i = Some w" for i w
    using that by (rule indexes_key [OF windows_invD(2) [OF assms]])
  with assms show ?thesis
    using windows_inv_delete by (fastforce simp: WindowForHost_def split: option.splits)
qed

lemma windows_inv_DeleteWindow [simp]:
  assumes "windows_inv s" shows "windows_inv (snd (DeleteWindow i s))"
proof (cases "mget (ms_windows s) i")
  case (Some w)
  with assms have "mget (ms_winByHost s) (wd_HostID w) = Some i"
    by (metis indexesD windows_invD(2))
  with windows_inv_delete [OF assms Some] Some show ?thesis
    by (simp add: DeleteWindow_def)
qed (use assms in \<open>simp add: DeleteWindow_def\<close>)

lemma windows_inv_Count [simp]: "windows_inv s \<Longrightarrow> windows_inv (snd (CountWindowAttach i mx s))"
  by (auto simp: CountWindowAttach_def windows_inv_def intro: indexes_update split: option.splits)

text \<open>Opening a window first removes the host's old one, from both tables.\<close>

definition drop_host_window :: "string \<Rightarrow> MemStore \<Rightarrow> MemStore" where
  "drop_host_window h s =
     (case mget (ms_winByHost s) h of
        None \<Rightarrow> s
      | Some i \<Rightarrow> s\<lparr>ms_windows := mdel i (ms_windows s), ms_winByHost := mdel h (ms_winByHost s)\<rparr>)"

lemma OpenWindow_eq:
  assumes "windows_inv s"
  shows "OpenWindow w s =
    (let s' = drop_host_window (wd_HostID w) s
     in (Option.bind (mget (ms_winByHost s) (wd_HostID w)) (mget (ms_windows s)),
         s'\<lparr>ms_windows := mput (wd_WindowID w) w (ms_windows s'),
            ms_winByHost := mput (wd_HostID w) (wd_WindowID w) (ms_winByHost s')\<rparr>))"
proof (cases "mget (ms_winByHost s) (wd_HostID w)")
  case (Some i)
  with assms obtain v where "mget (ms_windows s) i = Some v"
    by (metis indexesE windows_invD(2))
  with Some show ?thesis by (simp add: OpenWindow_def drop_host_window_def)
qed (simp add: OpenWindow_def drop_host_window_def)

lemma windows_inv_drop_host:
  assumes "windows_inv s" shows "windows_inv (drop_host_window h s)"
proof (cases "mget (ms_winByHost s) h")
  case (Some i)
  with assms obtain v where "mget (ms_windows s) i = Some v" "wd_HostID v = h"
    by (metis indexesE windows_invD(2))
  with windows_inv_delete [OF assms] Some show ?thesis by (fastforce simp: drop_host_window_def)
qed (use assms in \<open>simp add: drop_host_window_def\<close>)

lemma drop_host_window_host [simp]: "mget (ms_winByHost (drop_host_window h s)) h = None"
  by (simp add: drop_host_window_def split: option.splits)

lemma drop_host_window_None:
  "mget (ms_windows s) i = None \<Longrightarrow> mget (ms_windows (drop_host_window h s)) i = None"
  by (simp add: drop_host_window_def split: option.splits)

lemma windows_inv_OpenWindow:
  assumes "windows_inv s" and "mget (ms_windows s) (wd_WindowID w) = None"
  shows "windows_inv (snd (OpenWindow w s))"
proof -
  let ?s = "drop_host_window (wd_HostID w) s"
  have inv: "windows_inv ?s" using assms(1) by (rule windows_inv_drop_host)
  have "mget (ms_windows ?s) (wd_WindowID w) = None" using assms(2) by (rule drop_host_window_None)
  then have "indexes (mput (wd_HostID w) (wd_WindowID w) (ms_winByHost ?s))
      (mput (wd_WindowID w) w (ms_windows ?s)) wd_HostID"
    by (intro indexes_insert windows_invD(2) [OF inv]) simp_all
  with inv assms show ?thesis by (auto simp: OpenWindow_eq windows_inv_def Let_def)
qed


lemma store_inv_methods [simp]:
  assumes "store_inv s"
  shows "store_inv (snd (bindingLocked h t s))" "store_inv (snd (BindHost h sub t s))"
    "store_inv (snd (LookupBinding h t s))" "store_inv (TouchBinding h t s)"
    "store_inv (SetHostLabel i l s)" "store_inv (snd (DeletePairing i s))"
    "store_inv (snd (WindowForHost h t s))" "store_inv (snd (CountWindowAttach i mx s))"
    "store_inv (snd (DeleteWindow i s))" "store_inv (AppendMailbox c it pol s)"
    "store_inv (snd (FetchMailbox c a n t ttl s))" "store_inv (DropMailbox c s)"
    "store_inv (PutAPNSToken tok s)" "store_inv (DeleteAPNSToken d s)"
    "store_inv (PutHostPresence hp s)" "store_inv (PutDevicePresence dp s)"
  unfolding LookupBinding_def
  by (rule store_invI; ((rule inv_frame(1) [OF store_invD(1) [OF assms]]; simp)
      | (rule inv_frame(2) [OF store_invD(2) [OF assms]]; simp)
      | (rule inv_frame(3) [OF store_invD(3) [OF assms]]; simp)
      | (rule inv_frame(4) [OF store_invD(4) [OF assms]]; simp)
      | simp add: store_invD [OF assms]))+

lemma store_inv_CreatePairing:
  assumes "store_inv s" and "mget (ms_pairings s) (pr_PairingID p) = None"
  shows "store_inv (snd (CreatePairing p s))"
  using assms store_invD [OF assms(1)] pairings_inv_CreatePairing [OF _ assms(2)]
  by (auto intro!: store_invI intro: inv_frame)

lemma store_inv_OpenWindow:
  assumes "store_inv s" and "mget (ms_windows s) (wd_WindowID w) = None"
  shows "store_inv (snd (OpenWindow w s))"
  using assms store_invD [OF assms(1)] windows_inv_OpenWindow [OF _ assms(2)]
  by (auto intro!: store_invI intro: inv_frame)


section \<open>Interface: a registry of channels\<close>

text \<open>
  What the router and the authorisation checks rely on: registration is refused for a channel
  that is taken and only then, it answers lookups of its own channel and disturbs no other,
  and deletion removes exactly the registration it names.
\<close>

locale channel_registry =
  fixes inv :: "'s \<Rightarrow> bool" and lookup :: "string \<Rightarrow> 's \<Rightarrow> 'p option"
    and create :: "'p \<Rightarrow> 's \<Rightarrow> 'e option \<times> 's" and delete :: "string \<Rightarrow> 's \<Rightarrow> 'p option \<times> 's"
    and chan :: "'p \<Rightarrow> string" and pid :: "'p \<Rightarrow> string" and fresh :: "'p \<Rightarrow> 's \<Rightarrow> bool"
  assumes create_taken: "inv s \<Longrightarrow> lookup (chan p) s = Some q \<Longrightarrow> \<exists>e. create p s = (Some e, s)"
    and create_free: "inv s \<Longrightarrow> lookup (chan p) s = None \<Longrightarrow> fst (create p s) = None"
    and create_lookup: "inv s \<Longrightarrow> lookup (chan p) s = None \<Longrightarrow> fresh p s \<Longrightarrow>
      lookup c (snd (create p s)) = (if c = chan p then Some p else lookup c s)"
    and create_inv: "inv s \<Longrightarrow> fresh p s \<Longrightarrow> inv (snd (create p s))"
    and delete_lookup: "inv s \<Longrightarrow> lookup c (snd (delete i s)) =
      (case lookup c s of None \<Rightarrow> None | Some q \<Rightarrow> if pid q = i then None else Some q)"
    and delete_inv: "inv s \<Longrightarrow> inv (snd (delete i s))"
begin

lemma create_conflict_iff: "inv s \<Longrightarrow> fst (create p s) \<noteq> None \<longleftrightarrow> lookup (chan p) s \<noteq> None"
  by (cases "lookup (chan p) s") (auto dest: create_taken [of s p] create_free)

text \<open>A registered channel is never taken over: whatever is registered next, it keeps its owner.\<close>

lemma owner_kept:
  assumes "inv s" "fresh p s" "lookup c s = Some q"
  shows "lookup c (snd (create p s)) = Some q"
proof (cases "lookup (chan p) s")
  case None
  with assms show ?thesis by (auto simp: create_lookup)
next
  case (Some r)
  with create_taken [OF assms(1) Some] assms(3) show ?thesis by auto
qed

text \<open>A channel whose registration was deleted can be registered again.\<close>

lemma delete_then_create:
  assumes "inv s" "lookup (chan p) s = Some q" "fresh p (snd (delete (pid q) s))"
  shows "fst (create p (snd (delete (pid q) s))) = None
    \<and> lookup (chan p) (snd (create p (snd (delete (pid q) s)))) = Some p"
proof -
  have "lookup (chan p) (snd (delete (pid q) s)) = None"
    using assms(1,2) by (simp add: delete_lookup)
  with assms delete_inv [OF assms(1)] show ?thesis by (simp add: create_free create_lookup)
qed

end

definition fresh_pairing :: "Pairing \<Rightarrow> MemStore \<Rightarrow> bool" where
  "fresh_pairing p s \<longleftrightarrow> mget (ms_pairings s) (pr_PairingID p) = None"

lemma PairingByChannel_create:
  assumes "store_inv s" "PairingByChannel (pr_ChannelID p) s = None" "fresh_pairing p s"
  shows "PairingByChannel c (snd (CreatePairing p s))
    = (if c = pr_ChannelID p then Some p else PairingByChannel c s)"
proof -
  have free: "mget (ms_byChannel s) (pr_ChannelID p) = None"
    using assms store_invD(1) by (simp add: PairingByChannel_None)
  have "mget (ms_byChannel s) c = Some i \<Longrightarrow> i \<noteq> pr_PairingID p" for i
    using assms(3) store_invD(1) [OF assms(1)]
    by (auto simp: fresh_pairing_def dest!: pairings_invD(3) elim: indexesE)
  with free show ?thesis by (auto simp: CreatePairing_def PairingByChannel_def split: option.splits)
qed

lemma DeletePairing_pairings: "ms_pairings (snd (DeletePairing i s)) =
    (if mget (ms_pairings s) i = None then ms_pairings s else mdel i (ms_pairings s))"
  by (simp add: DeletePairing_def Let_def split: option.splits)

lemma PairingByChannel_delete:
  assumes "store_inv s"
  shows "PairingByChannel c (snd (DeletePairing i s))
    = (case PairingByChannel c s of None \<Rightarrow> None | Some q \<Rightarrow> if pr_PairingID q = i then None else Some q)"
proof -
  have "pairings_inv s" "pairings_inv (snd (DeletePairing i s))"
    using assms by (simp_all add: store_invD(1))
  then have eq: "PairingByChannel c (snd (DeletePairing i s)) = Some q
      \<longleftrightarrow> PairingByChannel c s = Some q \<and> pr_PairingID q \<noteq> i" for q
    by (auto simp: PairingByChannel_iff DeletePairing_pairings)
  show ?thesis
  proof (cases "PairingByChannel c s")
    case None
    then show ?thesis using eq by (metis option.exhaust option.simps(3,4))
  next
    case (Some q)
    show ?thesis
    proof (cases "pr_PairingID q = i")
      case True
      have "\<forall>r. PairingByChannel c (snd (DeletePairing i s)) \<noteq> Some r" using eq Some True by auto
      then have "PairingByChannel c (snd (DeletePairing i s)) = None" by simp
      with Some True show ?thesis by simp
    next
      case False
      with Some eq [of q] show ?thesis by simp
    qed
  qed
qed

interpretation reg: channel_registry store_inv PairingByChannel CreatePairing DeletePairing
  pr_ChannelID pr_PairingID fresh_pairing
proof (unfold_locales, goal_cases)
  case (1 s p q)
  then show ?case by (auto simp: CreatePairing_def PairingByChannel_def split: option.splits)
next
  case (2 s p)
  then have "mget (ms_byChannel s) (pr_ChannelID p) = None"
    by (simp add: PairingByChannel_None store_invD)
  then show ?case by (simp add: CreatePairing_def)
next
  case 3 then show ?case by (rule PairingByChannel_create)
next
  case 4 then show ?case by (simp add: store_inv_CreatePairing fresh_pairing_def)
next
  case 5 then show ?case by (rule PairingByChannel_delete)
next
  case 6 then show ?case by simp
qed

section \<open>Interface: trust-on-first-use bindings\<close>

text \<open>
  \<open>account h t s\<close> is the account a host id is bound to at time \<open>t\<close>, if any. The first account to
  bind a free host id owns it; another account is refused and changes nothing; and the owner
  keeps it at least until the idle horizon has passed.
\<close>

locale tofu_bindings =
  fixes inv :: "'s \<Rightarrow> bool" and account :: "string \<Rightarrow> gotime \<Rightarrow> 's \<Rightarrow> string option"
    and bind :: "string \<Rightarrow> string \<Rightarrow> gotime \<Rightarrow> 's \<Rightarrow> bool \<times> 's" and horizon :: "'s \<Rightarrow> duration"
  assumes bind_free: "inv s \<Longrightarrow> account h t s = None \<Longrightarrow> fst (bind h a t s)"
    and bind_owner: "inv s \<Longrightarrow> account h t s = Some a \<Longrightarrow> fst (bind h a t s)"
    and bind_other: "inv s \<Longrightarrow> account h t s = Some b \<Longrightarrow> a \<noteq> b \<Longrightarrow>
      \<not> fst (bind h a t s) \<and> account h t' (snd (bind h a t s)) = account h t' s"
    and bind_held: "inv s \<Longrightarrow> fst (bind h a t s) \<Longrightarrow> t \<le> t' \<Longrightarrow> t' - t < horizon s \<Longrightarrow>
      account h t' (snd (bind h a t s)) = Some a"
    and bind_inv: "inv s \<Longrightarrow> inv (snd (bind h a t s))"
begin

text \<open>Two successful attaches of one host id within the horizon are by the same account.\<close>

lemma bind_exclusive:
  assumes "inv s" "fst (bind h a t s)" "t \<le> t'" "t' - t < horizon s"
    and "fst (bind h b t' (snd (bind h a t s)))"
  shows "a = b"
proof (rule ccontr)
  assume "a \<noteq> b"
  then have "\<not> fst (bind h b t' (snd (bind h a t s)))"
    using bind_other [OF bind_inv [OF assms(1)] bind_held [OF assms(1-4)]] by simp
  with assms(5) show False by simp
qed

end

definition live_account :: "string \<Rightarrow> gotime \<Rightarrow> MemStore \<Rightarrow> string option" where
  "live_account h t s = map_option bd_AccountSub (fst (bindingLocked h t s))"

lemma bindingLocked_iff:
  "fst (bindingLocked h t s) = Some b \<longleftrightarrow> mget (ms_bindings s) h = Some b
    \<and> (hostHasPairingsLocked h s \<or> time_sub t (bd_LastAttachAt b) < ms_idleReap s)"
  by (auto simp: bindingLocked_def split: option.splits)

lemma hostHasPairings_frame: "ms_pairings s' = ms_pairings s \<Longrightarrow>
    hostHasPairingsLocked h s' = hostHasPairingsLocked h s"
  by (simp add: hostHasPairingsLocked_def)

lemma BindHost_refused:
  assumes "live_account h t s = Some b" and "a \<noteq> b"
  shows "BindHost h a t s = (Inl ErrBoundToOtherAccount, s)"
  using assms by (auto simp: BindHost_def live_account_def bindingLocked_def split: option.splits if_splits)

lemma BindHost_success:
  assumes "live_account h t s = None \<or> live_account h t s = Some a"
  shows "\<exists>b. BindHost h a t s = (Inr b, snd (BindHost h a t s)) \<and> bd_AccountSub b = a
    \<and> bd_LastAttachAt b = t \<and> mget (ms_bindings (snd (BindHost h a t s))) h = Some b"
  using assms
  by (auto simp: BindHost_def live_account_def bindingLocked_def Let_def split: option.splits if_splits)

lemma BindHost_ok_iff:
  "isl (fst (BindHost h a t s)) \<longleftrightarrow> (\<exists>b. live_account h t s = Some b \<and> a \<noteq> b)"
  using BindHost_refused BindHost_success
  by (metis fst_conv not_None_eq sum.disc(1) sum.disc(2))

lemma time_sub_less_idle: "t \<le> t' \<Longrightarrow> t' - t < d \<Longrightarrow> 0 < d \<Longrightarrow> time_sub t' t < d"
  by (auto simp: time_sub_def min_duration_def max_duration_def)

lemma BindHost_held:
  assumes "keys_inv s" "\<not> isl (fst (BindHost h a t s))" "t \<le> t'" "t' - t < ms_idleReap s"
  shows "live_account h t' (snd (BindHost h a t s)) = Some a"
proof -
  obtain b where b: "bd_AccountSub b = a" "bd_LastAttachAt b = t"
    "mget (ms_bindings (snd (BindHost h a t s))) h = Some b"
  proof -
    have "live_account h t s = None \<or> live_account h t s = Some a"
      using assms(2) by (cases "live_account h t s") (auto simp: BindHost_ok_iff)
    then show ?thesis using BindHost_success [of h t s a] that by blast
  qed
  have "time_sub t' t < ms_idleReap s"
    using assms by (intro time_sub_less_idle) (auto simp: keys_inv_def)
  with b have "fst (bindingLocked h t' (snd (BindHost h a t s))) = Some b"
    by (simp add: bindingLocked_iff)
  with b show ?thesis by (simp add: live_account_def)
qed

interpretation tofu: tofu_bindings store_inv live_account
  "\<lambda>h a t s. map_prod (\<lambda>r. \<not> isl r) id (BindHost h a t s)" ms_idleReap
proof (unfold_locales, goal_cases)
  case 1 then show ?case by (simp add: BindHost_ok_iff)
next
  case 2 then show ?case by (simp add: BindHost_ok_iff)
next
  case 3 then show ?case by (simp add: BindHost_refused)
next
  case 4 then show ?case by (simp add: BindHost_held store_invD)
next
  case 5 then show ?case by simp
qed

end
