(* ===== verification/Base64.thy ===== *)
theory Base64
  imports Prelude
begin

text \<open>
  The one binary-to-text encoding of the wire: Go's \<open>base64.RawURLEncoding\<close> (unpadded,
  URL-safe alphabet), with and without \<open>Strict()\<close>, and the identifier checks built on it:
  \<open>validID\<close> of \<open>internal/relay/frames.go\<close>, \<open>EncodeBin\<close>/\<open>DecodeBin\<close> and the channel id codec of
  \<open>e2ekit/ad.go\<close>. Go's decoder skips carriage returns and line feeds anywhere in its input,
  strict or not; the model does too, and the width checks around the decoder are what makes
  the accepted strings canonical.
\<close>

section \<open>The alphabet\<close>

definition enc6 :: "nat \<Rightarrow> char" where
  "enc6 n = (if n < 26 then char_of (65 + n)
             else if n < 52 then char_of (71 + n)
             else if n < 62 then char_of (n - 4)
             else if n = 62 then CHR ''-'' else CHR ''_'')"

definition dec6 :: "char \<Rightarrow> nat option" where
  "dec6 c = (let n = of_char c :: nat in
     if 65 \<le> n \<and> n \<le> 90 then Some (n - 65)
     else if 97 \<le> n \<and> n \<le> 122 then Some (n - 71)
     else if 48 \<le> n \<and> n \<le> 57 then Some (n + 4)
     else if c = CHR ''-'' then Some 62
     else if c = CHR ''_'' then Some 63 else None)"

definition is_newline :: "char \<Rightarrow> bool" where
  "is_newline c \<longleftrightarrow> c = CHR 0x0A \<or> c = CHR 0x0D"

definition is_b64_char :: "char \<Rightarrow> bool" where
  "is_b64_char c \<longleftrightarrow> dec6 c \<noteq> None"

section \<open>Encoding and decoding\<close>

text \<open>The four sextets of a three-byte quantum, and the three bytes of four sextets.\<close>

definition s1 :: "byte \<Rightarrow> nat" where "s1 a = unat a div 4"
definition s2 :: "byte \<Rightarrow> byte \<Rightarrow> nat" where "s2 a b = unat a mod 4 * 16 + unat b div 16"
definition s3 :: "byte \<Rightarrow> byte \<Rightarrow> nat" where "s3 b c = unat b mod 16 * 4 + unat c div 64"
definition s4 :: "byte \<Rightarrow> nat" where "s4 c = unat c mod 64"

definition j1 :: "nat \<Rightarrow> nat \<Rightarrow> byte" where "j1 x y = byte_of (x * 4 + y div 16)"
definition j2 :: "nat \<Rightarrow> nat \<Rightarrow> byte" where "j2 y z = byte_of (y mod 16 * 16 + z div 4)"
definition j3 :: "nat \<Rightarrow> nat \<Rightarrow> byte" where "j3 z w = byte_of (z mod 4 * 64 + w)"

fun b64_encode :: "bytes \<Rightarrow> string" where
  "b64_encode [] = []"
| "b64_encode [a] = [enc6 (s1 a), enc6 (s2 a 0)]"
| "b64_encode [a, b] = [enc6 (s1 a), enc6 (s2 a b), enc6 (s3 b 0)]"
| "b64_encode (a # b # c # xs) =
     enc6 (s1 a) # enc6 (s2 a b) # enc6 (s3 b c) # enc6 (s4 c) # b64_encode xs"

text \<open>The flag is \<open>Strict()\<close>: the unused low bits of the last sextet must be zero.\<close>

fun b64_quads :: "bool \<Rightarrow> nat list \<Rightarrow> bytes option" where
  "b64_quads strict [] = Some []"
| "b64_quads strict [x] = None"
| "b64_quads strict [x, y] = (if strict \<and> y mod 16 \<noteq> 0 then None else Some [j1 x y])"
| "b64_quads strict [x, y, z] =
     (if strict \<and> z mod 4 \<noteq> 0 then None else Some [j1 x y, j2 y z])"
| "b64_quads strict (x # y # z # w # vs) =
     (case b64_quads strict vs of None \<Rightarrow> None
      | Some bs \<Rightarrow> Some (j1 x y # j2 y z # j3 z w # bs))"

definition b64_decode :: "bool \<Rightarrow> string \<Rightarrow> bytes option" where
  "b64_decode strict s =
     (case those (map dec6 (filter (\<lambda>c. \<not> is_newline c) s)) of
        None \<Rightarrow> None | Some vs \<Rightarrow> b64_quads strict vs)"

text \<open>\<open>Encoding.EncodedLen\<close> without padding.\<close>

definition encoded_len :: "nat \<Rightarrow> nat" where
  "encoded_len n = n div 3 * 4 + (n mod 3 * 8 + 5) div 6"

section \<open>Identifier checks of the sources\<close>

text \<open>\<open>validID\<close>: 22 characters that decode, strictly, to 16 bytes.\<close>

definition validID :: "string \<Rightarrow> bool" where
  "validID s \<longleftrightarrow> (if length s \<noteq> 22 then False
                 else case b64_decode True s of None \<Rightarrow> False | Some raw \<Rightarrow> length raw = 16)"

definition EncodeBin :: "bytes \<Rightarrow> string" where
  "EncodeBin raw = b64_encode raw"

datatype bin_error = BinWidth | BinNonCanonical | BinLength

definition DecodeBin :: "string \<Rightarrow> nat \<Rightarrow> bin_error + bytes" where
  "DecodeBin s n =
     (if length s \<noteq> encoded_len n then Inl BinWidth
      else case b64_decode True s of
             None \<Rightarrow> Inl BinNonCanonical
           | Some raw \<Rightarrow> if length raw \<noteq> n then Inl BinLength else Inr raw)"

definition EncodeChannelID :: "bytes \<Rightarrow> string" where
  "EncodeChannelID cid = b64_encode cid"

definition DecodeChannelID :: "string \<Rightarrow> bin_error + bytes" where
  "DecodeChannelID s = (case DecodeBin s 16 of Inl e \<Rightarrow> Inl e | Inr raw \<Rightarrow> Inr raw)"

section \<open>Lemmas\<close>

lemma of_char_alphabet [simp]:
  "of_char (CHR ''-'') = (45 :: nat)" "of_char (CHR ''_'') = (95 :: nat)"
  "of_char (CHR 0x0A) = (10 :: nat)" "of_char (CHR 0x0D) = (13 :: nat)"
  by simp_all

lemma of_char_eqI: "(of_char c :: nat) = of_char d \<Longrightarrow> c = d"
  by (metis char_of_char)

lemma dec6_enc6 [simp]: "n < 64 \<Longrightarrow> dec6 (enc6 n) = Some n"
  by (auto simp: dec6_def enc6_def Let_def of_char_of)

lemma dec6_newline: "is_newline c \<Longrightarrow> dec6 c = None"
  by (auto simp: is_newline_def dec6_def)

lemma not_newline_enc6 [simp]: "n < 64 \<Longrightarrow> \<not> is_newline (enc6 n)"
  using dec6_newline [of "enc6 n"] by auto

lemma dec6_less: "dec6 c = Some n \<Longrightarrow> n < 64"
  by (auto simp: dec6_def Let_def split: if_splits)

lemma enc6_dec6: "dec6 c = Some n \<Longrightarrow> enc6 n = c"
  by (auto simp: dec6_def enc6_def Let_def split: if_splits)

lemma length_b64_encode: "length (b64_encode bs) = encoded_len (length bs)"
  by (induction bs rule: b64_encode.induct) (auto simp: encoded_len_def)

lemma unat_div_less: "unat (a :: byte) div 4 < 64" "unat a div 16 < 16" "unat a div 64 < 4"
  using less_mult_imp_div_less [of "unat a" 64 4] less_mult_imp_div_less [of "unat a" 16 16]
    less_mult_imp_div_less [of "unat a" 4 64] by simp_all

lemma mix_less: "(x::nat) < m \<Longrightarrow> y < k \<Longrightarrow> x * k + y < m * k"
proof -
  assume "x < m" "y < k"
  then have "x * k + y < Suc x * k" by simp
  also have "Suc x * k \<le> m * k" using \<open>x < m\<close> by (intro mult_le_mono1) simp
  finally show ?thesis .
qed

lemma sextet_less [simp]: "s1 a < 64" "s2 a b < 64" "s3 a b < 64" "s4 a < 64"
  using mix_less [of "unat a mod 4" 4 "unat b div 16" 16]
    mix_less [of "unat a mod 16" 16 "unat b div 64" 4]
  by (simp_all add: s1_def s2_def s3_def s4_def unat_div_less)


lemma set_b64_encode: "ch \<in> set (b64_encode bs) \<Longrightarrow> \<exists>n<64. ch = enc6 n"
  by (induction bs rule: b64_encode.induct) (auto intro: exI [where x = "s1 _"]
      exI [where x = "s2 _ _"] exI [where x = "s3 _ _"] exI [where x = "s4 _"])

lemma b64_encode_filter [simp]: "filter (\<lambda>c. \<not> is_newline c) (b64_encode bs) = b64_encode bs"
  by (rule filter_True) (auto dest: set_b64_encode)

text \<open>Splitting bytes into sextets and joining them again is the identity, both ways.\<close>

lemma mix_div: "(y::nat) < k \<Longrightarrow> (x * k + y) div k = x"
  by (simp add: div_add1_eq)

lemma mix_mod: "(y::nat) < k \<Longrightarrow> (x * k + y) mod k = y"
  by simp

lemma join_split [simp]:
  "j1 (s1 a) (s2 a b) = a" "j2 (s2 a b) (s3 b c) = b" "j3 (s3 b c) (s4 c) = c"
  "s2 a 0 mod 16 = 0" "s3 b 0 mod 4 = 0"
proof -
  show "j1 (s1 a) (s2 a b) = a"
    unfolding j1_def s1_def s2_def mix_div [OF unat_div_less(2)] by simp
  show "j2 (s2 a b) (s3 b c) = b"
    unfolding j2_def s2_def s3_def mix_div [OF unat_div_less(3)] mix_mod [OF unat_div_less(2)]
    by simp
  show "j3 (s3 b c) (s4 c) = c"
    unfolding j3_def s3_def s4_def mix_mod [OF unat_div_less(3)] by simp
  show "s2 a 0 mod 16 = 0" "s3 b 0 mod 4 = 0" by (simp_all add: s2_def s3_def)
qed

lemma split_join:
  assumes "x < 64" "y < 64" "z < 64" "w < 64"
  shows "s1 (j1 x y) = x" "s2 (j1 x y) (j2 y z) = y" "s3 (j2 y z) (j3 z w) = z"
    "s4 (j3 z w) = w" "y mod 16 = 0 \<Longrightarrow> s2 (j1 x y) 0 = y" "z mod 4 = 0 \<Longrightarrow> s3 (j2 y z) 0 = z"
proof -
  have lt: "x * 4 + y div 16 < 256" "y mod 16 * 16 + z div 4 < 256" "z mod 4 * 64 + w < 256"
    using assms by auto
  have d: "y div 16 < 4" "z div 4 < 16" using assms by auto
  note u = unat_byte_of [OF lt(1)] unat_byte_of [OF lt(2)] unat_byte_of [OF lt(3)]
  note m = mix_div [OF d(1)] mix_div [OF d(2)] mix_mod [OF d(1)] mix_mod [OF d(2)]
    mix_div [OF assms(4)] mix_mod [OF assms(4)]
  show "s1 (j1 x y) = x" unfolding s1_def j1_def u m ..
  show "s2 (j1 x y) (j2 y z) = y" unfolding s2_def j1_def j2_def u m by simp
  show "s3 (j2 y z) (j3 z w) = z" unfolding s3_def j2_def j3_def u m by simp
  show "s4 (j3 z w) = w" unfolding s4_def j3_def u m by simp
  show "y mod 16 = 0 \<Longrightarrow> s2 (j1 x y) 0 = y" unfolding s2_def j1_def u m by auto
  show "z mod 4 = 0 \<Longrightarrow> s3 (j2 y z) 0 = z" unfolding s3_def j2_def u m by auto
qed

lemma b64_quads_encode:
  "\<exists>vs. those (map dec6 (b64_encode bs)) = Some vs \<and> b64_quads strict vs = Some bs"
  by (induction bs rule: b64_encode.induct) auto

lemma b64_decode_encode [simp]: "b64_decode strict (b64_encode bs) = Some bs"
  using b64_quads_encode [of bs strict] by (auto simp: b64_decode_def)

text \<open>Strict decoding is injective on the sextets: what decodes was encoded.\<close>

lemma b64_quads_strict:
  "b64_quads strict vs = Some bs \<Longrightarrow> strict \<Longrightarrow> \<forall>v \<in> set vs. v < 64 \<Longrightarrow> b64_encode bs = map enc6 vs"
  by (induction strict vs arbitrary: bs rule: b64_quads.induct)
    (auto simp: split_join split: if_splits option.splits)

lemma b64_decode_strict_filter:
  assumes "b64_decode True s = Some bs"
  shows "filter (\<lambda>c. \<not> is_newline c) s = b64_encode bs"
proof -
  let ?t = "filter (\<lambda>c. \<not> is_newline c) s"
  obtain vs where vs: "those (map dec6 ?t) = Some vs" and q: "b64_quads True vs = Some bs"
    using assms by (auto simp: b64_decode_def split: option.splits)
  have m: "map dec6 ?t = map Some vs" using those_SomeD [OF vs] .
  have lt: "\<forall>v \<in> set vs. v < 64"
  proof
    fix v assume "v \<in> set vs"
    then have "Some v \<in> set (map dec6 ?t)" by (simp add: m)
    then show "v < 64" by (metis dec6_less imageE image_set)
  qed
  have "map enc6 vs = ?t"
  proof (rule nth_equalityI)
    show len: "length (map enc6 vs) = length ?t" using m by (metis length_map)
    fix i assume i: "i < length (map enc6 vs)"
    with m len have "dec6 (?t ! i) = Some (vs ! i)" by (metis length_map nth_map)
    with i show "map enc6 vs ! i = ?t ! i" by (simp add: enc6_dec6)
  qed
  with b64_quads_strict [OF q TrueI lt] show ?thesis by simp
qed

lemma DecodeBin_iff: "DecodeBin s n = Inr raw \<longleftrightarrow> s = b64_encode raw \<and> length raw = n"
proof
  assume a: "DecodeBin s n = Inr raw"
  then have len: "length s = encoded_len n" and d: "b64_decode True s = Some raw" and
    n: "length raw = n"
    by (auto simp: DecodeBin_def split: if_splits option.splits)
  have f: "filter (\<lambda>c. \<not> is_newline c) s = b64_encode raw"
    using d by (rule b64_decode_strict_filter)
  then have "length (filter (\<lambda>c. \<not> is_newline c) s) = length s"
    by (simp add: length_b64_encode len n)
  then have "filter (\<lambda>c. \<not> is_newline c) s = s"
    by (metis filter_True length_filter_less less_irrefl)
  with f n show "s = b64_encode raw \<and> length raw = n" by simp
next
  assume "s = b64_encode raw \<and> length raw = n"
  then show "DecodeBin s n = Inr raw" by (simp add: DecodeBin_def length_b64_encode)
qed

lemma validID_DecodeBin: "validID s \<longleftrightarrow> (\<exists>raw. DecodeBin s 16 = Inr raw)"
  by (auto simp: validID_def DecodeBin_def encoded_len_def split: option.splits if_splits)

lemma DecodeChannelID_DecodeBin: "DecodeChannelID s = DecodeBin s 16"
  by (simp add: DecodeChannelID_def split: sum.splits)

lemma validID_iff: "validID s \<longleftrightarrow> (\<exists>raw. length raw = 16 \<and> s = EncodeBin raw)"
  by (auto simp: validID_DecodeBin DecodeBin_iff EncodeBin_def)

lemma validID_encode [simp]: "length raw = 16 \<Longrightarrow> validID (b64_encode raw)"
  by (auto simp: validID_DecodeBin DecodeBin_iff)

lemma validID_chars: "validID s \<Longrightarrow> c \<in> set s \<Longrightarrow> \<exists>n<64. c = enc6 n"
  by (auto simp: validID_iff EncodeBin_def dest: set_b64_encode)

lemma validID_length: "validID s \<Longrightarrow> length s = 22"
  by (simp add: validID_def split: if_splits)

text \<open>An identifier passes \<open>validID\<close> exactly when it is the canonical encoding of sixteen
  bytes, and two byte strings never share a spelling: no padding, no stray trailing bits, no
  embedded newlines, one spelling per identifier, which the endpoints' decoder reads back.\<close>

theorem validID_canonical:
  "(validID s \<longleftrightarrow> (\<exists>raw. length raw = 16 \<and> s = EncodeBin raw))
   \<and> (validID s \<longleftrightarrow> \<not> isl (DecodeChannelID s))
   \<and> (DecodeChannelID s = Inr raw \<longleftrightarrow> length raw = 16 \<and> s = EncodeChannelID raw)"
proof -
  have "validID s \<longleftrightarrow> \<not> isl (DecodeChannelID s)"
    unfolding validID_DecodeBin DecodeChannelID_DecodeBin
    by (metis sum.disc(1) sum.disc(2) sum.exhaust)
  then show ?thesis
    by (auto simp: validID_iff EncodeBin_def EncodeChannelID_def DecodeChannelID_DecodeBin DecodeBin_iff)
qed

end
