(* ===== verification/AD.thy ===== *)
theory AD
  imports Base64
begin

text \<open>
  The canonical associated data of a frame (\<open>e2ekit/ad.go\<close>): the push-class enumeration, the
  25-byte layout \<open>channel_id(16), seq(8, big endian), push_class(1)\<close>, and that the layout
  determines its parts. Go's fixed-size byte arrays are byte lists whose length is a hypothesis
  of the facts that need it.
\<close>

section \<open>Big-endian integers (encoding/binary)\<close>

primrec be_put :: "nat \<Rightarrow> nat \<Rightarrow> bytes" where
  "be_put 0 v = []"
| "be_put (Suc k) v = byte_of (v div 256 ^ k) # be_put k v"

definition be_get :: "bytes \<Rightarrow> nat" where
  "be_get bs = foldl (\<lambda>a b. 256 * a + unat b) 0 bs"

lemma length_be_put [simp]: "length (be_put k v) = k"
  by (induction k) auto

lemma foldl_be: "foldl (\<lambda>a b. 256 * a + unat b) v (bs :: bytes) = v * 256 ^ length bs + be_get bs"
proof (induction bs arbitrary: v)
  case (Cons b bs)
  have "be_get (b # bs) = unat b * 256 ^ length bs + be_get bs"
    using Cons [of "unat b"] by (simp add: be_get_def)
  with Cons [of "256 * v + unat b"] show ?case by (simp add: algebra_simps)
qed (simp add: be_get_def)

lemma be_get_simps [simp]: "be_get [] = 0" "be_get (b # bs) = unat b * 256 ^ length bs + be_get bs"
proof -
  show "be_get (b # bs) = unat b * 256 ^ length bs + be_get bs"
    using foldl_be [of "unat b" bs] by (simp add: be_get_def)
qed (simp add: be_get_def)

lemma unat_byte_of_mod: "unat (byte_of n) = n mod 256"
  by (simp add: byte_of_def unat_of_nat take_bit_nat_def)

lemma be_get_put: "be_get (be_put k v) = v mod 256 ^ k"
proof (induction k)
  case (Suc k)
  have "v mod 256 ^ Suc k = 256 ^ k * (v div 256 ^ k mod 256) + v mod 256 ^ k"
    using mod_mult2_eq [of v "256 ^ k" 256] by (simp add: mult.commute)
  with Suc show ?case by (simp add: unat_byte_of_mod)
qed simp

lemma be_get_less: "be_get bs < 256 ^ length bs"
proof (induction bs)
  case (Cons b bs)
  have "unat b * 256 ^ length bs + be_get bs < 256 * 256 ^ length bs"
    using mix_less [of "unat b" 256 "be_get bs" "256 ^ length bs"] Cons by simp
  then show ?case by simp
qed simp

lemma byte_of_add_256 [simp]: "byte_of (n + m * 256) = byte_of n"
  by (simp add: word_unat_eq_iff unat_byte_of_mod)

lemma be_put_high: "be_put k (v + m * 256 ^ k) = be_put k v"
proof (induction k arbitrary: m)
  case (Suc k)
  have "(v + m * 256 ^ Suc k) div 256 ^ k = v div 256 ^ k + m * 256"
    using div_mult_self3 [of "256 ^ k" "m * 256" v] by (simp add: ac_simps)
  moreover have "be_put k (v + m * 256 ^ Suc k) = be_put k v"
    using Suc [of "m * 256"] by (simp add: ac_simps)
  ultimately show ?case by simp
qed simp

lemma be_put_get: "be_put (length bs) (be_get bs) = bs"
proof (induction bs)
  case (Cons b bs)
  have "(unat b * 256 ^ length bs + be_get bs) div 256 ^ length bs = unat b"
    by (rule mix_div [OF be_get_less])
  then show ?case
    using Cons be_put_high [of "length bs" "be_get bs" "unat b"] by (simp add: add.commute)
qed simp

definition PutUint64 :: "uint64 \<Rightarrow> bytes" where
  "PutUint64 w = be_put 8 (unat w)"

lemma PutUint64_inj: "PutUint64 v = PutUint64 w \<longleftrightarrow> v = w"
proof
  assume "PutUint64 v = PutUint64 w"
  then have "unat v mod 256 ^ 8 = unat w mod 256 ^ 8"
    unfolding PutUint64_def by (metis be_get_put)
  moreover have "unat v < 256 ^ 8" "unat w < 256 ^ 8"
    using unsigned_less [of v] unsigned_less [of w] by simp_all
  ultimately show "v = w" by (simp add: word_unat_eq_iff)
qed simp

lemma length_PutUint64 [simp]: "length (PutUint64 w) = 8"
  by (simp add: PutUint64_def)

section \<open>Push classes and associated data\<close>

definition PushClassNone :: byte where "PushClassNone = 0"
definition PushClassWake :: byte where "PushClassWake = 1"
definition PushClassAttention :: byte where "PushClassAttention = 2"

definition ADLen :: nat where "ADLen = 25"

text \<open>None is Go's \<open>unknown push_class\<close> error.\<close>

definition ParsePushClass :: "string \<Rightarrow> byte option" where
  "ParsePushClass s = (if s = ''none'' then Some PushClassNone
     else if s = ''wake'' then Some PushClassWake
     else if s = ''attention'' then Some PushClassAttention else None)"

definition PushClassString :: "byte \<Rightarrow> string" where
  "PushClassString b = (if b = PushClassNone then ''none''
     else if b = PushClassWake then ''wake''
     else if b = PushClassAttention then ''attention'' else ''none'')"

definition BuildAD :: "bytes \<Rightarrow> uint64 \<Rightarrow> byte \<Rightarrow> bytes" where
  "BuildAD channelID seq pushClass = channelID @ PutUint64 seq @ [pushClass]"

lemmas push_class_defs = PushClassNone_def PushClassWake_def PushClassAttention_def

lemma ParsePushClass_inverse: "ParsePushClass s = Some b \<Longrightarrow> PushClassString b = s"
  by (auto simp: ParsePushClass_def PushClassString_def push_class_defs split: if_splits)

lemma ParsePushClass_String: "b \<in> {0, 1, 2} \<Longrightarrow> ParsePushClass (PushClassString b) = Some b"
  by (auto simp: ParsePushClass_def PushClassString_def push_class_defs)

lemma ParsePushClass_inj: "ParsePushClass s = Some b \<Longrightarrow> ParsePushClass t = Some b \<Longrightarrow> s = t"
  by (metis ParsePushClass_inverse)

lemma length_BuildAD: "length c = 16 \<Longrightarrow> length (BuildAD c q p) = ADLen"
  by (simp add: BuildAD_def ADLen_def)

lemma BuildAD_eq_iff:
  assumes "length c = 16" "length c' = 16"
  shows "BuildAD c q p = BuildAD c' q' p' \<longleftrightarrow> c = c' \<and> q = q' \<and> p = p'"
  using assms by (auto simp: BuildAD_def PutUint64_inj)

end
