(* ===== verification/Json.thy ===== *)
theory Json
  imports Prelude
begin

text \<open>
  The part of Go's \<open>encoding/json\<close> and \<open>strconv\<close> the relay uses: decimal conversion, UTF-8,
  string literals with their escapes, the value grammar, \<open>Decoder.Decode\<close> of the first value of
  an input and \<open>Decoder.More\<close>, the field matching of struct decoding (exact, then case folded),
  and \<open>Marshal\<close>. The value parser takes fuel; one unit more than twice the length of the input is
  always enough (\<open>pvalue_fuel\<close>). Go's nesting limit of 10000 is not modelled: every input the
  relay parses is at most 8192 bytes long and cannot reach it. The main result is that parsing
  a printed value gives the value back (\<open>pvalue_print\<close>).
\<close>

datatype json = JNull | JBool bool | JNum string | JStr string
  | JArr "json list" | JObj "(string \<times> json) list"

section \<open>Decimal numbers (strconv)\<close>

definition digit :: "nat \<Rightarrow> char" where
  "digit n = char_of (48 + n)"

definition is_digit :: "char \<Rightarrow> bool" where
  "is_digit c \<longleftrightarrow> 48 \<le> (of_char c :: nat) \<and> (of_char c :: nat) \<le> 57"

definition digit_val :: "char \<Rightarrow> nat" where
  "digit_val c = of_char c - 48"

fun nat_str :: "nat \<Rightarrow> string" where
  "nat_str n = (if n < 10 then [digit n] else nat_str (n div 10) @ [digit (n mod 10)])"

declare nat_str.simps [simp del]

definition digits_val :: "string \<Rightarrow> nat" where
  "digits_val s = foldl (\<lambda>v c. 10 * v + digit_val c) 0 s"

definition ParseUint :: "string \<Rightarrow> uint64 option" where
  "ParseUint s = (if s = [] \<or> \<not> list_all is_digit s \<or> 2 ^ 64 \<le> digits_val s then None
                  else Some (word_of_nat (digits_val s)))"

text \<open>\<open>strconv.Atoi\<close> and \<open>ParseInt\<close> in base 10, 64 bits: an optional sign and digits, in range.\<close>

definition ParseInt :: "string \<Rightarrow> int option" where
  "ParseInt s =
     (let neg = (case s of [] \<Rightarrow> False | c # _ \<Rightarrow> c = CHR ''-'');
          ds = (case s of [] \<Rightarrow> [] | c # cs \<Rightarrow> if c = CHR ''-'' \<or> c = CHR ''+'' then cs else s);
          v = int (digits_val ds)
      in if ds = [] \<or> \<not> list_all is_digit ds then None
         else if neg then (if v \<le> 2 ^ 63 then Some (- v) else None)
         else (if v < 2 ^ 63 then Some v else None))"

definition uint_str :: "uint64 \<Rightarrow> string" where
  "uint_str w = nat_str (unat w)"

definition int_str :: "int \<Rightarrow> string" where
  "int_str i = (if i < 0 then CHR ''-'' # nat_str (nat (- i)) else nat_str (nat i))"

section \<open>UTF-8\<close>

text \<open>\<open>utf8.DecodeRune\<close>: the rune and how many bytes it takes; an invalid byte is U+FFFD, one byte.\<close>

abbreviation (input) rune_error :: nat where "rune_error \<equiv> 0xFFFD"

definition cont :: "nat \<Rightarrow> nat \<Rightarrow> string \<Rightarrow> nat \<Rightarrow> bool" where
  "cont lo hi s i \<longleftrightarrow> i < length s \<and> lo \<le> (of_char (s ! i) :: nat) \<and> (of_char (s ! i) :: nat) \<le> hi"

definition low6 :: "string \<Rightarrow> nat \<Rightarrow> nat" where
  "low6 s i = (of_char (s ! i) :: nat) mod 64"

definition dec_rune :: "string \<Rightarrow> nat \<times> nat" where
  "dec_rune s = (case s of [] \<Rightarrow> (rune_error, 0) | c # _ \<Rightarrow>
     (let b = (of_char c :: nat) in
      if b < 0x80 then (b, 1)
      else if 0xC2 \<le> b \<and> b \<le> 0xDF \<and> cont 0x80 0xBF s 1
      then (b mod 32 * 64 + low6 s 1, 2)
      else if 0xE0 \<le> b \<and> b \<le> 0xEF \<and> cont (if b = 0xE0 then 0xA0 else 0x80) (if b = 0xED then 0x9F else 0xBF) s 1
              \<and> cont 0x80 0xBF s 2
      then ((b mod 16 * 64 + low6 s 1) * 64 + low6 s 2, 3)
      else if 0xF0 \<le> b \<and> b \<le> 0xF4 \<and> cont (if b = 0xF0 then 0x90 else 0x80) (if b = 0xF4 then 0x8F else 0xBF) s 1
              \<and> cont 0x80 0xBF s 2 \<and> cont 0x80 0xBF s 3
      then (((b mod 8 * 64 + low6 s 1) * 64 + low6 s 2) * 64 + low6 s 3, 4)
      else (rune_error, 1)))"

text \<open>\<open>utf8.EncodeRune\<close>; surrogates and out-of-range values become U+FFFD.\<close>

definition enc_rune :: "nat \<Rightarrow> string" where
  "enc_rune r0 =
     (let r = (if 0xD800 \<le> r0 \<and> r0 \<le> 0xDFFF \<or> 0x10FFFF < r0 then rune_error else r0) in
      if r < 0x80 then [char_of r]
      else if r < 0x800 then [char_of (0xC0 + r div 64), char_of (0x80 + r mod 64)]
      else if r < 0x10000
      then [char_of (0xE0 + r div 4096), char_of (0x80 + r div 64 mod 64), char_of (0x80 + r mod 64)]
      else [char_of (0xF0 + r div 262144), char_of (0x80 + r div 4096 mod 64),
            char_of (0x80 + r div 64 mod 64), char_of (0x80 + r mod 64)])"

section \<open>String literals\<close>

definition hex_val :: "char \<Rightarrow> nat option" where
  "hex_val c = (let n = of_char c :: nat in
     if 48 \<le> n \<and> n \<le> 57 then Some (n - 48)
     else if 97 \<le> n \<and> n \<le> 102 then Some (n - 87)
     else if 65 \<le> n \<and> n \<le> 70 then Some (n - 55) else None)"

text \<open>The scanner: the raw text of a literal after its opening quote, and what follows its
  closing quote.\<close>

fun lex_str :: "string \<Rightarrow> (string \<times> string) option" where
  "lex_str [] = None"
| "lex_str (c # cs) =
     (if c = CHR 0x22 then Some ([], cs)
      else if c = CHR 0x5C then
        (case cs of
           [] \<Rightarrow> None
         | e # ds \<Rightarrow>
             if e \<in> set [CHR 0x22, CHR 0x5C, CHR ''/'', CHR ''b'', CHR ''f'', CHR ''n'', CHR ''r'', CHR ''t'']
             then map_option (\<lambda>(s, r). (c # e # s, r)) (lex_str ds)
             else if e = CHR ''u'' then
               (case ds of
                  h1 # h2 # h3 # h4 # es \<Rightarrow>
                    if list_all (\<lambda>h. hex_val h \<noteq> None) [h1, h2, h3, h4]
                    then map_option (\<lambda>(s, r). (c # e # h1 # h2 # h3 # h4 # s, r)) (lex_str es)
                    else None
                | _ \<Rightarrow> None)
             else None)
      else if (of_char c :: nat) < 0x20 then None
      else map_option (\<lambda>(s, r). (c # s, r)) (lex_str cs))"

text \<open>\<open>getu4\<close>: the code unit of an escape of the form backslash, \<open>u\<close>, four hexadecimal digits.\<close>

definition getu4 :: "string \<Rightarrow> nat option" where
  "getu4 s = (if length s < 6 \<or> s ! 0 \<noteq> CHR 0x5C \<or> s ! 1 \<noteq> CHR ''u'' then None
     else case those (map hex_val (take 4 (drop 2 s))) of
            None \<Rightarrow> None | Some hs \<Rightarrow> Some (foldl (\<lambda>v h. 16 * v + h) 0 hs))"

definition surrogate :: "nat \<Rightarrow> bool" where
  "surrogate r \<longleftrightarrow> 0xD800 \<le> r \<and> r < 0xE000"

definition pair_rune :: "nat \<Rightarrow> nat \<Rightarrow> nat option" where
  "pair_rune a b = (if 0xD800 \<le> a \<and> a < 0xDC00 \<and> 0xDC00 \<le> b \<and> b < 0xE000
     then Some ((a - 0xD800) * 1024 + (b - 0xDC00) + 0x10000) else None)"

definition unescape :: "char \<Rightarrow> char" where
  "unescape e = (if e = CHR ''b'' then CHR 0x08 else if e = CHR ''f'' then CHR 0x0C
     else if e = CHR ''n'' then CHR 0x0A else if e = CHR ''r'' then CHR 0x0D
     else if e = CHR ''t'' then CHR 0x09 else e)"

text \<open>\<open>unquoteBytes\<close> on the raw text of a scanned literal. The first result is what the escape
  or rune at the front stands for, the second how many bytes of the text it takes.\<close>

definition unq1 :: "string \<Rightarrow> string \<times> nat" where
  "unq1 s = (case s of [] \<Rightarrow> ([], 1) | c # cs \<Rightarrow>
     if c = CHR 0x5C then
       (case cs of
          [] \<Rightarrow> ([], 1)
        | e # ds \<Rightarrow>
            if e = CHR ''u'' then
              (case getu4 s of
                 None \<Rightarrow> ([], 2)
               | Some r \<Rightarrow>
                   if surrogate r then
                     (case Option.bind (getu4 (drop 6 s)) (pair_rune r) of
                        Some r2 \<Rightarrow> (enc_rune r2, 12)
                      | None \<Rightarrow> (enc_rune rune_error, 6))
                   else (enc_rune r, 6))
            else ([unescape e], 2))
     else if (of_char c :: nat) < 0x80 then ([c], 1)
     else (let (r, n) = dec_rune s in (enc_rune r, max 1 n)))"

lemma unq1_pos: "0 < snd (unq1 s)"
  by (auto simp: unq1_def Let_def split: list.splits option.splits prod.splits)

function unquote :: "string \<Rightarrow> string" where
  "unquote s = (if s = [] then [] else fst (unq1 s) @ unquote (drop (snd (unq1 s)) s))"
  by pat_completeness auto
termination by (relation "measure length") (auto simp: unq1_pos)

declare unquote.simps [simp del]

text \<open>\<open>appendString\<close> with HTML escaping, as \<open>Marshal\<close> and \<open>Encoder\<close> use it.\<close>

definition hexd :: "nat \<Rightarrow> char" where
  "hexd n = (if n < 10 then char_of (48 + n) else char_of (87 + n))"

definition u_escape :: "nat \<Rightarrow> string" where
  "u_escape r = [CHR 0x5C, CHR ''u'', hexd (r div 4096), hexd (r div 256 mod 16),
                 hexd (r div 16 mod 16), hexd (r mod 16)]"

definition quote1 :: "string \<Rightarrow> string \<times> nat" where
  "quote1 s = (case s of [] \<Rightarrow> ([], 1) | c # cs \<Rightarrow>
     (let b = (of_char c :: nat) in
      if b < 0x80 then
        (if c = CHR 0x22 \<or> c = CHR 0x5C then ([CHR 0x5C, c], 1)
         else if b = 0x08 then ([CHR 0x5C, CHR ''b''], 1)
         else if b = 0x0C then ([CHR 0x5C, CHR ''f''], 1)
         else if b = 0x0A then ([CHR 0x5C, CHR ''n''], 1)
         else if b = 0x0D then ([CHR 0x5C, CHR ''r''], 1)
         else if b = 0x09 then ([CHR 0x5C, CHR ''t''], 1)
         else if b < 0x20 \<or> c = CHR ''<'' \<or> c = CHR ''>'' \<or> c = CHR ''&'' then (u_escape b, 1)
         else ([c], 1))
      else (let (r, n) = dec_rune s in
            if r = rune_error \<and> n = 1 then (u_escape rune_error, 1)
            else if r = 0x2028 \<or> r = 0x2029 then (u_escape r, n)
            else (take n s, max 1 n))))"

lemma quote1_pos: "s \<noteq> [] \<Longrightarrow> 0 < snd (quote1 s)"
  by (auto simp: quote1_def dec_rune_def Let_def split: list.splits prod.splits if_splits)

function quote_body :: "string \<Rightarrow> string" where
  "quote_body s = (if s = [] then [] else fst (quote1 s) @ quote_body (drop (snd (quote1 s)) s))"
  by pat_completeness auto
termination by (relation "measure length") (auto simp: quote1_pos)

declare quote_body.simps [simp del]

definition quote :: "string \<Rightarrow> string" where
  "quote s = CHR 0x22 # quote_body s @ [CHR 0x22]"

section \<open>The value grammar\<close>

definition is_ws :: "char \<Rightarrow> bool" where
  "is_ws c \<longleftrightarrow> c = CHR '' '' \<or> c = CHR 0x09 \<or> c = CHR 0x0D \<or> c = CHR 0x0A"

abbreviation skip_ws :: "string \<Rightarrow> string" where
  "skip_ws \<equiv> dropWhile is_ws"

definition lex_digits :: "string \<Rightarrow> (string \<times> string) option" where
  "lex_digits s = (let ds = takeWhile is_digit s in if ds = [] then None else Some (ds, dropWhile is_digit s))"

definition lex_int :: "string \<Rightarrow> (string \<times> string) option" where
  "lex_int s = (case s of [] \<Rightarrow> None | c # cs \<Rightarrow> if c = CHR ''0'' then Some ([c], cs) else lex_digits s)"

definition lex_frac :: "string \<Rightarrow> (string \<times> string) option" where
  "lex_frac s = (case s of
      c # cs \<Rightarrow> if c = CHR ''.'' then map_option (\<lambda>(d, r). (c # d, r)) (lex_digits cs) else Some ([], s)
    | [] \<Rightarrow> Some ([], s))"

definition lex_exp :: "string \<Rightarrow> (string \<times> string) option" where
  "lex_exp s = (case s of
      c # cs \<Rightarrow>
        if c = CHR ''e'' \<or> c = CHR ''E'' then
          (case cs of
             g # gs \<Rightarrow> if g = CHR ''+'' \<or> g = CHR ''-''
                       then map_option (\<lambda>(d, r). (c # g # d, r)) (lex_digits gs)
                       else map_option (\<lambda>(d, r). (c # d, r)) (lex_digits cs)
           | [] \<Rightarrow> None)
        else Some ([], s)
    | [] \<Rightarrow> Some ([], s))"

definition lex_num :: "string \<Rightarrow> (string \<times> string) option" where
  "lex_num s =
     (let (sgn, s1) = (case s of c # cs \<Rightarrow> if c = CHR ''-'' then ([c], cs) else ([], s) | [] \<Rightarrow> ([], s))
      in case lex_int s1 of None \<Rightarrow> None | Some (i, s2) \<Rightarrow>
         case lex_frac s2 of None \<Rightarrow> None | Some (f, s3) \<Rightarrow>
         case lex_exp s3 of None \<Rightarrow> None | Some (e, s4) \<Rightarrow> Some (sgn @ i @ f @ e, s4))"

definition strip :: "string \<Rightarrow> string \<Rightarrow> string option" where
  "strip p s = (if take (length p) s = p then Some (drop (length p) s) else None)"

definition pscalar :: "string \<Rightarrow> (json \<times> string) option" where
  "pscalar s = (case strip ''null'' s of Some r \<Rightarrow> Some (JNull, r) | None \<Rightarrow>
     case strip ''true'' s of Some r \<Rightarrow> Some (JBool True, r) | None \<Rightarrow>
     case strip ''false'' s of Some r \<Rightarrow> Some (JBool False, r) | None \<Rightarrow>
     map_option (\<lambda>(l, r). (JNum l, r)) (lex_num s))"

definition expect :: "char \<Rightarrow> string \<Rightarrow> string option" where
  "expect c s = (case skip_ws s of [] \<Rightarrow> None | d # r \<Rightarrow> if d = c then Some r else None)"

definition pkey :: "string \<Rightarrow> (string \<times> string) option" where
  "pkey s = (case expect (CHR 0x22) s of None \<Rightarrow> None | Some r \<Rightarrow>
     case lex_str r of None \<Rightarrow> None | Some (k, r1) \<Rightarrow>
     case expect (CHR '':'') r1 of None \<Rightarrow> None | Some r2 \<Rightarrow> Some (unquote k, r2))"

fun pvalue :: "nat \<Rightarrow> string \<Rightarrow> (json \<times> string) option"
and pmembers :: "nat \<Rightarrow> string \<Rightarrow> ((string \<times> json) list \<times> string) option"
and pelems :: "nat \<Rightarrow> string \<Rightarrow> (json list \<times> string) option" where
  "pvalue 0 s = None"
| "pvalue (Suc n) s =
     (case skip_ws s of
        [] \<Rightarrow> None
      | c # cs \<Rightarrow>
          if c = CHR ''{'' then
            (case expect (CHR ''}'') cs of
               Some r \<Rightarrow> Some (JObj [], r)
             | None \<Rightarrow> map_option (\<lambda>(ms, r). (JObj ms, r)) (pmembers n cs))
          else if c = CHR ''['' then
            (case expect (CHR '']'') cs of
               Some r \<Rightarrow> Some (JArr [], r)
             | None \<Rightarrow> map_option (\<lambda>(vs, r). (JArr vs, r)) (pelems n cs))
          else if c = CHR 0x22 then map_option (\<lambda>(k, r). (JStr (unquote k), r)) (lex_str cs)
          else pscalar (c # cs))"
| "pmembers 0 s = None"
| "pmembers (Suc n) s =
     (case pkey s of None \<Rightarrow> None | Some (k, r) \<Rightarrow>
      case pvalue n r of None \<Rightarrow> None | Some (v, r1) \<Rightarrow>
      case expect (CHR ''}'') r1 of Some r2 \<Rightarrow> Some ([(k, v)], r2) | None \<Rightarrow>
      case expect (CHR '','') r1 of None \<Rightarrow> None | Some r2 \<Rightarrow>
        map_option (\<lambda>(ms, r3). ((k, v) # ms, r3)) (pmembers n r2))"
| "pelems 0 s = None"
| "pelems (Suc n) s =
     (case pvalue n s of None \<Rightarrow> None | Some (v, r1) \<Rightarrow>
      case expect (CHR '']'') r1 of Some r2 \<Rightarrow> Some ([v], r2) | None \<Rightarrow>
      case expect (CHR '','') r1 of None \<Rightarrow> None | Some r2 \<Rightarrow>
        map_option (\<lambda>(vs, r3). (v # vs, r3)) (pelems n r2))"

text \<open>\<open>Decoder.Decode\<close> reads the first value and leaves the rest; \<open>Decoder.More\<close> looks for
  another element, so a closing bracket or brace is not more. \<open>json.Unmarshal\<close> wants the
  value to be all there is.\<close>

definition decode_first :: "string \<Rightarrow> (json \<times> string) option" where
  "decode_first s = pvalue (2 * length s + 1) s"

definition dec_more :: "string \<Rightarrow> bool" where
  "dec_more rest \<longleftrightarrow> (case skip_ws rest of [] \<Rightarrow> False | c # _ \<Rightarrow> c \<noteq> CHR '']'' \<and> c \<noteq> CHR ''}'')"

definition unmarshal :: "string \<Rightarrow> json option" where
  "unmarshal s = (case decode_first s of None \<Rightarrow> None
     | Some (v, r) \<Rightarrow> if skip_ws r = [] then Some v else None)"

section \<open>Struct decoding\<close>

text \<open>
  \<open>foldName\<close>: ASCII letters in upper case. The only runes outside ASCII that fold onto ASCII
  letters are U+017F (long s) and U+212A (Kelvin sign); every other rune keeps a key apart
  from the ASCII field names of the relay.
\<close>

fun fold_key :: "string \<Rightarrow> string" where
  "fold_key [] = []"
| "fold_key (a # s) =
     (if of_char a = (0xC5::nat) \<and> take 1 s = [CHR 0xBF] then CHR ''S'' # fold_key (drop 1 s)
      else if of_char a = (0xE2::nat) \<and> take 2 s = [CHR 0x84, CHR 0xAA] then CHR ''K'' # fold_key (drop 2 s)
      else if 97 \<le> (of_char a :: nat) \<and> (of_char a :: nat) \<le> 122 then char_of (of_char a - 32 :: nat) # fold_key s
      else a # fold_key s)"

definition field_of :: "string list \<Rightarrow> string \<Rightarrow> string option" where
  "field_of names k = (if k \<in> set names then Some k else find (\<lambda>n. fold_key n = fold_key k) names)"

text \<open>Decoding into a string, a \<open>uint64\<close> and a \<open>*string\<close> that holds \<open>old\<close>; None is a type error.\<close>

definition into_string :: "json \<Rightarrow> string \<Rightarrow> string option" where
  "into_string v old = (case v of JNull \<Rightarrow> Some old | JStr s \<Rightarrow> Some s | _ \<Rightarrow> None)"

definition into_uint64 :: "json \<Rightarrow> uint64 \<Rightarrow> uint64 option" where
  "into_uint64 v old = (case v of JNull \<Rightarrow> Some old | JNum l \<Rightarrow> ParseUint l | _ \<Rightarrow> None)"

definition into_string_ptr :: "json \<Rightarrow> string option option" where
  "into_string_ptr v = (case v of JNull \<Rightarrow> Some None | JStr s \<Rightarrow> Some (Some s) | _ \<Rightarrow> None)"

text \<open>
  Members are decoded in order, so the last of two duplicates wins. \<open>set_field\<close> gets the field
  the key selects, None when no field does (an error under \<open>DisallowUnknownFields\<close>).
\<close>

fun into_fields :: "string list \<Rightarrow> (string option \<Rightarrow> json \<Rightarrow> 'a \<Rightarrow> 'a option) \<Rightarrow> (string \<times> json) list \<Rightarrow> 'a \<Rightarrow> 'a option" where
  "into_fields names set_field [] x = Some x"
| "into_fields names set_field ((k, v) # ms) x =
     (case set_field (field_of names k) v x of None \<Rightarrow> None | Some x \<Rightarrow> into_fields names set_field ms x)"

definition into_struct :: "string list \<Rightarrow> (string option \<Rightarrow> json \<Rightarrow> 'a \<Rightarrow> 'a option) \<Rightarrow> json \<Rightarrow> 'a \<Rightarrow> 'a option" where
  "into_struct names set_field v x =
     (case v of JNull \<Rightarrow> Some x | JObj ms \<Rightarrow> into_fields names set_field ms x | _ \<Rightarrow> None)"

section \<open>Marshal\<close>

definition commas :: "string list \<Rightarrow> string" where
  "commas xs = (case xs of [] \<Rightarrow> [] | y # ys \<Rightarrow> y @ concat (map (\<lambda>z. CHR '','' # z) ys))"

fun print_json :: "json \<Rightarrow> string" where
  "print_json JNull = ''null''"
| "print_json (JBool b) = (if b then ''true'' else ''false'')"
| "print_json (JNum l) = l"
| "print_json (JStr s) = quote s"
| "print_json (JArr vs) = ''['' @ commas (map print_json vs) @ '']''"
| "print_json (JObj ms) = ''{'' @ commas (map (\<lambda>(k, v). quote k @ '':'' @ print_json v) ms) @ ''}''"

definition marshal :: "json \<Rightarrow> bytes" where
  "marshal v = str_bytes (print_json v)"

section \<open>Fuel\<close>

lemma length_skip_ws: "length (skip_ws s) \<le> length s"
  by (rule length_dropWhile_le)

lemma skip_ws_Cons: "skip_ws s = c # cs \<Longrightarrow> length cs < length s"
  using length_skip_ws [of s] by simp

lemma expect_shorter: "expect c s = Some r \<Longrightarrow> length r < length s"
  by (auto simp: expect_def split: list.splits if_splits dest: skip_ws_Cons)

lemma lex_str_shorter: "lex_str s = Some (k, r) \<Longrightarrow> length r < length s"
proof (induction "length s" arbitrary: s k r rule: less_induct)
  case less
  have IH: "length r < length t" if "lex_str t = Some (k', r)" "length t < length s" for t k'
    using less.hyps that by blast
  obtain c cs where s: "s = c # cs" using less.prems by (cases s) auto
  consider "c = CHR 0x22" | "c = CHR 0x5C" | "c \<noteq> CHR 0x22" "c \<noteq> CHR 0x5C" by blast
  then show ?case
  proof cases
    case 2
    then obtain e ds where cs: "cs = e # ds" using less.prems s by (cases cs) auto
    show ?thesis
    proof (cases "e = CHR ''u''")
      case True
      then obtain h1 h2 h3 h4 es where "ds = h1 # h2 # h3 # h4 # es"
        using less.prems s cs 2 by (auto split: list.splits)
      with less.prems s cs 2 True IH [of es] show ?thesis by (auto split: if_splits)
    next
      case False
      with less.prems s cs 2 IH [of ds] show ?thesis by (auto split: if_splits)
    qed
  next
    case 3
    with less.prems s IH [of cs] show ?thesis by (auto split: if_splits)
  qed (use less.prems s in auto)
qed

lemma pkey_shorter: "pkey s = Some (k, r) \<Longrightarrow> length r < length s"
  by (auto simp: pkey_def split: option.splits dest!: expect_shorter lex_str_shorter)

lemma lex_digits_shorter:
  assumes "lex_digits s = Some (d, r)" shows "length r < length s"
proof -
  have "takeWhile is_digit s @ dropWhile is_digit s = s" by simp
  then have "length (takeWhile is_digit s) + length (dropWhile is_digit s) = length s"
    by (metis length_append)
  moreover have "takeWhile is_digit s \<noteq> []" "r = dropWhile is_digit s"
    using assms by (auto simp: lex_digits_def Let_def split: if_splits)
  then have "0 < length (takeWhile is_digit s)" by blast
  ultimately show ?thesis unfolding \<open>r = dropWhile is_digit s\<close> by linarith
qed

lemma lex_num_shorter: "lex_num s = Some (d, r) \<Longrightarrow> length r < length s"
proof -
  have i: "lex_int s = Some (d, r) \<Longrightarrow> length r < length s" for s d r
    by (auto simp: lex_int_def split: list.splits if_splits dest: lex_digits_shorter)
  have f: "lex_frac s = Some (d, r) \<Longrightarrow> length r \<le> length s" for s d r
    by (auto simp: lex_frac_def split: list.splits if_splits dest!: lex_digits_shorter)
  have e: "lex_exp s = Some (d, r) \<Longrightarrow> length r \<le> length s" for s d r
    by (auto simp: lex_exp_def split: list.splits if_splits dest!: lex_digits_shorter)
  assume "lex_num s = Some (d, r)"
  then show ?thesis
    by (auto simp: lex_num_def Let_def split: list.splits option.splits if_splits
        dest!: i f e)
qed

lemma strip_iff: "strip p s = Some r \<longleftrightarrow> s = p @ r"
proof
  assume "strip p s = Some r"
  then have "take (length p) s = p" "r = drop (length p) s" by (auto simp: strip_def split: if_splits)
  then show "s = p @ r" by (metis append_take_drop_id)
qed (simp add: strip_def)

lemma strip_shorter:
  assumes "strip p s = Some r" "p \<noteq> []" shows "length r < length s"
  using assms by (simp add: strip_iff)

lemma pscalar_shorter: "pscalar s = Some (v, r) \<Longrightarrow> length r < length s"
  by (auto simp: pscalar_def split: option.splits dest: lex_num_shorter strip_shorter)

lemma pvalue_shorter:
  "pvalue n s = Some (v, r) \<Longrightarrow> length r < length s"
  "pmembers n s = Some (ms, r) \<Longrightarrow> length r < length s"
  "pelems n s = Some (vs, r) \<Longrightarrow> length r < length s"
proof (induction n s and n s and n s arbitrary: v r and ms r and vs r rule: pvalue_pmembers_pelems.induct)
  case (2 n s)
  obtain c cs where s: "skip_ws s = c # cs" using "2.prems" by (cases "skip_ws s") auto
  have "length r < length (c # cs)"
  proof (cases "c = CHR ''{'' \<or> c = CHR ''[''")
    case True
    then show ?thesis
    proof
      assume c: "c = CHR ''{''"
      show ?thesis
      proof (cases "expect (CHR ''}'') cs")
        case None
        with "2.prems" s c obtain ms where "pmembers n cs = Some (ms, r)" by auto
        from "2.IH"(1) [OF s c None this] show ?thesis by simp
      qed (use "2.prems" s c in \<open>auto dest: expect_shorter\<close>)
    next
      assume c: "c = CHR ''[''"
      then have nc: "c \<noteq> CHR ''{''" by simp
      show ?thesis
      proof (cases "expect (CHR '']'') cs")
        case None
        with "2.prems" s c obtain vs where "pelems n cs = Some (vs, r)" by auto
        from "2.IH"(2) [OF s nc c None this] show ?thesis by simp
      qed (use "2.prems" s c in \<open>auto dest: expect_shorter\<close>)
    qed
  next
    case False
    with "2.prems" s show ?thesis
      by (auto split: if_splits dest: lex_str_shorter pscalar_shorter)
  qed
  with s length_skip_ws [of s] show ?case by simp
next
  case (4 n s)
  obtain k r0 where k: "pkey s = Some (k, r0)" using "4.prems" by (auto split: option.splits)
  obtain v r1 where v: "pvalue n r0 = Some (v, r1)" using "4.prems" k by (auto split: option.splits)
  have l: "length r1 < length s" using "4.IH"(1) [OF k refl v] pkey_shorter [OF k] by simp
  show ?case
  proof (cases "expect (CHR ''}'') r1")
    case None
    then obtain r2 where r2: "expect (CHR '','') r1 = Some r2"
      using "4.prems" k v by (auto split: option.splits)
    with "4.prems" k v None obtain ms' where "pmembers n r2 = Some (ms', r)" by auto
    from "4.IH"(2) [OF k refl v refl None r2 this] expect_shorter [OF r2] l show ?thesis by simp
  qed (use "4.prems" k v l in \<open>auto dest: expect_shorter\<close>)
next
  case (6 n s)
  obtain v r1 where v: "pvalue n s = Some (v, r1)" using "6.prems" by (auto split: option.splits)
  have l: "length r1 < length s" by (rule "6.IH"(1) [OF v])
  show ?case
  proof (cases "expect (CHR '']'') r1")
    case None
    then obtain r2 where r2: "expect (CHR '','') r1 = Some r2"
      using "6.prems" v by (auto split: option.splits)
    with "6.prems" v None obtain vs' where "pelems n r2 = Some (vs', r)" by auto
    from "6.IH"(2) [OF v refl None r2 this] expect_shorter [OF r2] l show ?thesis by simp
  qed (use "6.prems" v l in \<open>auto dest: expect_shorter\<close>)
qed auto

lemma pvalue_fuel_aux:
  "(\<forall>s m. 2 * length s + 1 \<le> n \<longrightarrow> 2 * length s + 1 \<le> m \<longrightarrow> pvalue n s = pvalue m s)
   \<and> (\<forall>s m. 2 * length s + 2 \<le> n \<longrightarrow> 2 * length s + 2 \<le> m \<longrightarrow> pmembers n s = pmembers m s)
   \<and> (\<forall>s m. 2 * length s + 2 \<le> n \<longrightarrow> 2 * length s + 2 \<le> m \<longrightarrow> pelems n s = pelems m s)"
proof (induction n)
  case (Suc n)
  have v: "pvalue n t = pvalue k t" if "2 * length t + 1 \<le> n" "2 * length t + 1 \<le> k" for t k
    using Suc.IH that by blast
  have m: "pmembers n t = pmembers k t" if "2 * length t + 2 \<le> n" "2 * length t + 2 \<le> k" for t k
    using Suc.IH that by blast
  have e: "pelems n t = pelems k t" if "2 * length t + 2 \<le> n" "2 * length t + 2 \<le> k" for t k
    using Suc.IH that by blast
  have "pvalue (Suc n) s = pvalue (Suc k) s"
    if b: "2 * length s + 1 \<le> Suc n" "2 * length s + 1 \<le> Suc k" for s k
  proof (cases "skip_ws s")
    case (Cons c cs)
    then have "length cs < length s" by (rule skip_ws_Cons)
    then have eq: "pmembers n cs = pmembers k cs" "pelems n cs = pelems k cs"
      using b m [of cs k] e [of cs k] by auto
    show ?thesis by (simp only: pvalue.simps Cons list.case eq)
  next
    case Nil
    show ?thesis by (simp only: pvalue.simps Nil list.case)
  qed
  moreover have "pmembers (Suc n) s = pmembers (Suc k) s"
    if b: "2 * length s + 2 \<le> Suc n" "2 * length s + 2 \<le> Suc k" for s k
  proof (cases "pkey s")
    case (Some kr)
    obtain key r where kr: "kr = (key, r)" by (cases kr)
    then have r: "length r < length s" using pkey_shorter Some by blast
    then have pv: "pvalue n r = pvalue k r" using b by (intro v) auto
    have pm: "pmembers n r2 = pmembers k r2" if "pvalue k r = Some (u, r1)" "expect ch r1 = Some r2"
      for u r1 r2 ch
      using pvalue_shorter(1) [OF that(1)] expect_shorter [OF that(2)] r b by (intro m) auto
    show ?thesis by (simp add: Some kr pv split: option.splits prod.splits) (auto simp: pm)
  qed simp
  moreover have "pelems (Suc n) s = pelems (Suc k) s"
    if b: "2 * length s + 2 \<le> Suc n" "2 * length s + 2 \<le> Suc k" for s k
  proof -
    have pv: "pvalue n s = pvalue k s" using b by (intro v) auto
    have pe: "pelems n r2 = pelems k r2" if "pvalue k s = Some (u, r1)" "expect ch r1 = Some r2"
      for u r1 r2 ch
      using pvalue_shorter(1) [OF that(1)] expect_shorter [OF that(2)] b by (intro e) auto
    show ?thesis by (simp add: pv split: option.splits prod.splits) (auto simp: pe)
  qed
  ultimately show ?case by (metis Suc_le_D add_2_eq_Suc' add.commute plus_1_eq_Suc)
qed simp

lemma pvalue_fuel: "2 * length s + 1 \<le> n \<Longrightarrow> pvalue n s = decode_first s"
  unfolding decode_first_def using pvalue_fuel_aux by blast

section \<open>Printing and parsing\<close>

subsection \<open>Decimal\<close>

lemma of_char_digit [simp]: "n < 10 \<Longrightarrow> of_char (digit n) = (48 + n :: nat)"
  by (simp add: digit_def of_char_of)

lemma is_digit_digit [simp]: "n < 10 \<Longrightarrow> is_digit (digit n)"
  by (simp add: is_digit_def)

lemma digit_val_digit [simp]: "n < 10 \<Longrightarrow> digit_val (digit n) = n"
  by (simp add: digit_val_def)

lemma nat_str_digits [simp]: "list_all is_digit (nat_str n)"
  by (induction n rule: nat_str.induct) (subst nat_str.simps, simp)

lemma nat_str_nonempty [simp]: "nat_str n \<noteq> []"
  by (subst nat_str.simps) simp

lemma digits_val_snoc: "digits_val (s @ [c]) = 10 * digits_val s + digit_val c"
  by (simp add: digits_val_def)

lemma digits_val_nat_str [simp]: "digits_val (nat_str n) = n"
proof (induction n rule: nat_str.induct)
  case (1 n)
  show ?case
  proof (cases "n < 10")
    case True
    then show ?thesis by (subst nat_str.simps) (simp add: digits_val_def)
  next
    case False
    with 1 show ?thesis by (subst nat_str.simps) (simp add: digits_val_snoc)
  qed
qed

lemma ParseUint_uint_str [simp]: "ParseUint (uint_str w) = Some w"
proof -
  have "unat w < 2 ^ 64" using unsigned_less [of w] by simp
  then show ?thesis by (simp add: ParseUint_def uint_str_def)
qed

lemma ParseInt_nat_str: "i < 2 ^ 63 \<Longrightarrow> ParseInt (nat_str i) = Some (int i)"
proof -
  assume "i < 2 ^ 63"
  moreover have "hd (nat_str i) \<noteq> CHR ''-'' \<and> hd (nat_str i) \<noteq> CHR ''+''"
    using nat_str_digits [of i] nat_str_nonempty [of i]
    by (cases "nat_str i") (auto simp: is_digit_def)
  ultimately show ?thesis
    using nat_str_digits [of i] digits_val_nat_str [of i] nat_str_nonempty [of i]
    by (cases "nat_str i") (auto simp: ParseInt_def)
qed

lemma ParseInt_int_str [simp]: "0 \<le> i \<Longrightarrow> i < 2 ^ 63 \<Longrightarrow> ParseInt (int_str i) = Some i"
  using ParseInt_nat_str [of "nat i"] by (simp add: int_str_def nat_less_iff)

lemma nat_str_leading: "hd (nat_str n) = CHR ''0'' \<Longrightarrow> nat_str n = [CHR ''0'']"
proof (induction n rule: nat_str.induct)
  case (1 n)
  show ?case
  proof (cases "n < 10")
    case True
    then have "nat_str n = [digit n]" by (subst nat_str.simps) simp
    with "1.prems" show ?thesis by simp
  next
    case False
    then have e: "nat_str n = nat_str (n div 10) @ [digit (n mod 10)]" by (subst nat_str.simps) simp
    with "1.prems" have "hd (nat_str (n div 10)) = CHR ''0''" by simp
    with "1.IH" [OF False] have "nat_str (n div 10) = [CHR ''0'']" by simp
    then have "digits_val (nat_str (n div 10)) = 0" by (simp add: digits_val_def digit_val_def)
    with False show ?thesis by simp
  qed
qed

subsection \<open>Strings that need no escape\<close>

definition plain_char :: "char \<Rightarrow> bool" where
  "plain_char c \<longleftrightarrow> 0x20 \<le> (of_char c :: nat) \<and> (of_char c :: nat) < 0x80
     \<and> c \<notin> set [CHR 0x22, CHR 0x5C, CHR ''<'', CHR ''>'', CHR ''&'']"

definition plain :: "string \<Rightarrow> bool" where
  "plain s \<longleftrightarrow> list_all plain_char s"

lemma plain_simps [simp]: "plain []" "plain (c # s) \<longleftrightarrow> plain_char c \<and> plain s"
  by (simp_all add: plain_def)

lemma quote_body_plain [simp]: "plain s \<Longrightarrow> quote_body s = s"
  by (induction s) (subst quote_body.simps, simp add: quote1_def plain_char_def Let_def)+

lemma unquote_plain [simp]: "plain s \<Longrightarrow> unquote s = s"
  by (induction s) (subst unquote.simps, simp add: unq1_def plain_char_def)+

lemma lex_str_plain [simp]: "plain s \<Longrightarrow> lex_str (s @ CHR 0x22 # r) = Some (s, r)"
  by (induction s) (auto simp: plain_char_def)

lemma quote_plain: "plain s \<Longrightarrow> quote s = CHR 0x22 # s @ [CHR 0x22]"
  by (simp add: quote_def)

subsection \<open>Strings of UTF-8\<close>

text \<open>\<open>utf8.Valid\<close>: what survives a round trip through a JSON text; other bytes become U+FFFD.\<close>

lemma dec_rune_pos: "s \<noteq> [] \<Longrightarrow> 0 < snd (dec_rune s)"
  by (cases s) (auto simp: dec_rune_def Let_def)

function utf8 :: "string \<Rightarrow> bool" where
  "utf8 s = (if s = [] then True else if dec_rune s = (rune_error, 1) then False else utf8 (drop (snd (dec_rune s)) s))"
  by pat_completeness auto
termination by (relation "measure length") (auto simp: dec_rune_pos)

declare utf8.simps [simp del]

lemma plain_utf8 [simp]: "plain s \<Longrightarrow> utf8 s"
  by (induction s) (subst utf8.simps, simp add: dec_rune_def plain_char_def Let_def)+

abbreviation (input) byte_in :: "char \<Rightarrow> nat \<Rightarrow> nat \<Rightarrow> bool" where
  "byte_in c lo hi \<equiv> lo \<le> (of_char c :: nat) \<and> (of_char c :: nat) \<le> hi"

text \<open>The bytes of a valid rune.\<close>

lemma dec_rune_cases:
  assumes "s \<noteq> []" "dec_rune s = (r, n)" "(r, n) \<noteq> (rune_error, 1)"
  obtains (one) c t where "s = c # t" "(of_char c :: nat) < 0x80" "n = 1" "r = of_char c"
  | (two) c d t where "s = c # d # t" "byte_in c 0xC2 0xDF" "byte_in d 0x80 0xBF" "n = 2"
      "r = of_char c mod 32 * 64 + of_char d mod 64"
  | (three) c d f t where "s = c # d # f # t" "byte_in c 0xE0 0xEF"
      "byte_in d (if of_char c = (0xE0::nat) then 0xA0 else 0x80) (if of_char c = (0xED::nat) then 0x9F else 0xBF)"
      "byte_in f 0x80 0xBF" "n = 3" "r = (of_char c mod 16 * 64 + of_char d mod 64) * 64 + of_char f mod 64"
  | (four) c d f g t where "s = c # d # f # g # t" "byte_in c 0xF0 0xF4"
      "byte_in d (if of_char c = (0xF0::nat) then 0x90 else 0x80) (if of_char c = (0xF4::nat) then 0x8F else 0xBF)"
      "byte_in f 0x80 0xBF" "byte_in g 0x80 0xBF" "n = 4"
      "r = ((of_char c mod 8 * 64 + of_char d mod 64) * 64 + of_char f mod 64) * 64 + of_char g mod 64"
proof -
  obtain c t where s: "s = c # t" using assms(1) by (cases s) auto
  let ?b = "of_char c :: nat"
  define P2 where "P2 \<longleftrightarrow> byte_in c 0xC2 0xDF \<and> cont 0x80 0xBF s 1"
  define P3 where "P3 \<longleftrightarrow> byte_in c 0xE0 0xEF \<and> cont (if ?b = 0xE0 then 0xA0 else 0x80) (if ?b = 0xED then 0x9F else 0xBF) s 1 \<and> cont 0x80 0xBF s 2"
  define P4 where "P4 \<longleftrightarrow> byte_in c 0xF0 0xF4 \<and> cont (if ?b = 0xF0 then 0x90 else 0x80) (if ?b = 0xF4 then 0x8F else 0xBF) s 1 \<and> cont 0x80 0xBF s 2 \<and> cont 0x80 0xBF s 3"
  have "dec_rune s = (rune_error, 1)" if "\<not> ?b < 0x80" "\<not> P2" "\<not> P3" "\<not> P4"
    using that unfolding dec_rune_def list.case Let_def s P2_def P3_def P4_def by (simp only: conj_assoc if_False not_False_eq_True)
  with assms(2,3) have "?b < 0x80 \<or> P2 \<or> P3 \<or> P4" by metis
  then consider "?b < 0x80" | "byte_in c 0xC2 0xDF" "cont 0x80 0xBF s 1"
    | "byte_in c 0xE0 0xEF" "cont (if ?b = 0xE0 then 0xA0 else 0x80) (if ?b = 0xED then 0x9F else 0xBF) s 1" "cont 0x80 0xBF s 2"
    | "byte_in c 0xF0 0xF4" "cont (if ?b = 0xF0 then 0x90 else 0x80) (if ?b = 0xF4 then 0x8F else 0xBF) s 1" "cont 0x80 0xBF s 2" "cont 0x80 0xBF s 3"
    unfolding P2_def P3_def P4_def by blast
  then show thesis
  proof cases
    case 1
    then show thesis using assms(2) by (intro one [OF s]) (simp_all add: s dec_rune_def Let_def)
  next
    case 2
    then obtain d t' where t: "t = d # t'" by (cases t) (auto simp: s cont_def)
    with 2 show thesis using assms(2) by (intro two [of c d t']) (auto simp: s dec_rune_def Let_def cont_def low6_def)
  next
    case 3
    then obtain d f t' where t: "t = d # f # t'" by (cases t rule: remdups_adj.cases) (auto simp: s cont_def)
    with 3 show thesis using assms(2)
      by (intro three [of c d f t']) (auto simp: s dec_rune_def Let_def cont_def low6_def split: if_splits)
  next
    case 4
    then have "3 \<le> length t" by (auto simp: s cont_def)
    then obtain d f g t' where t: "t = d # f # g # t'" by (cases t; cases "tl t"; cases "tl (tl t)") auto
    with 4 show thesis using assms(2)
      by (intro four [of c d f g t']) (auto simp: s dec_rune_def Let_def cont_def low6_def split: if_splits)
  qed
qed


lemma offset_mod:
  assumes "m dvd b" "b \<le> n" "n < b + m" shows "(n :: nat) = b + n mod m"
proof -
  from assms(2) obtain k where n: "n = b + k" using le_Suc_ex by blast
  with assms(3) have "k < m" by simp
  then show ?thesis using assms(1) unfolding n by (auto elim!: dvdE)
qed

lemma offsets:
  "192 \<le> n \<Longrightarrow> n < 224 \<Longrightarrow> n = 192 + n mod 32" "224 \<le> n \<Longrightarrow> n < 240 \<Longrightarrow> n = 224 + n mod 16"
  "240 \<le> n \<Longrightarrow> n < 248 \<Longrightarrow> n = 240 + n mod 8" "128 \<le> n \<Longrightarrow> n < 192 \<Longrightarrow> (n :: nat) = 128 + n mod 64"
  by (rule offset_mod; simp)+

lemma digits64:
  assumes "(y :: nat) < 64" shows "(x * 64 + y) div 64 = x" "(x * 64 + y) mod 64 = y"
  using assms by simp_all

lemma enc_rune_bytes:
  assumes y: "y < 64" and z: "z < 64" and w: "w < 64"
  shows "128 \<le> x * 64 + y \<Longrightarrow> x < 32 \<Longrightarrow> enc_rune (x * 64 + y) = [char_of (192 + x), char_of (128 + y)]"
    and "2048 \<le> (x * 64 + y) * 64 + z \<Longrightarrow> x < 16 \<Longrightarrow> \<not> (x = 13 \<and> 32 \<le> y)
      \<Longrightarrow> enc_rune ((x * 64 + y) * 64 + z) = [char_of (224 + x), char_of (128 + y), char_of (128 + z)]"
    and "65536 \<le> ((x * 64 + y) * 64 + z) * 64 + w \<Longrightarrow> ((x * 64 + y) * 64 + z) * 64 + w \<le> 0x10FFFF
      \<Longrightarrow> enc_rune (((x * 64 + y) * 64 + z) * 64 + w) = [char_of (240 + x), char_of (128 + y), char_of (128 + z), char_of (128 + w)]"
proof -
  have d: "r div 4096 = r div 64 div 64" "r div 262144 = r div 64 div 64 div 64" for r :: nat
    by (simp_all add: div_mult2_eq [symmetric])
  show "enc_rune (x * 64 + y) = [char_of (192 + x), char_of (128 + y)]" if "128 \<le> x * 64 + y" "x < 32"
  proof -
    define r where "r = x * 64 + y"
    have "128 \<le> r" "r < 2048" using that y unfolding r_def by linarith+
    then have "enc_rune r = [char_of (192 + r div 64), char_of (128 + r mod 64)]" by (auto simp: enc_rune_def Let_def)
    then show ?thesis by (simp only: r_def digits64 [OF y])
  qed
  show "enc_rune ((x * 64 + y) * 64 + z) = [char_of (224 + x), char_of (128 + y), char_of (128 + z)]"
    if "2048 \<le> (x * 64 + y) * 64 + z" "x < 16" "\<not> (x = 13 \<and> 32 \<le> y)"
  proof -
    define r where "r = (x * 64 + y) * 64 + z"
    have "x \<le> 15" "y \<le> 63" "z \<le> 63" using that(2) y z by auto
    moreover have r: "r = x * 4096 + y * 64 + z" by (simp add: r_def algebra_simps)
    ultimately have "r < 65536" by linarith
    moreover have "2048 \<le> r" using that(1) by (simp add: r_def)
    moreover have "\<not> (55296 \<le> r \<and> r \<le> 57343)"
    proof
      assume "55296 \<le> r \<and> r \<le> 57343"
      then have "12 < x" "x < 14" using y z unfolding r by linarith+
      then have "x = 13" by simp
      moreover from this have "32 \<le> y" using \<open>55296 \<le> r \<and> r \<le> 57343\<close> z unfolding r by linarith
      ultimately show False using that(3) by simp
    qed
    ultimately have "enc_rune r = [char_of (224 + r div 4096), char_of (128 + r div 64 mod 64), char_of (128 + r mod 64)]"
      by (auto simp: enc_rune_def Let_def)
    then show ?thesis by (simp only: d r_def digits64 [OF y] digits64 [OF z])
  qed
  show "enc_rune (((x * 64 + y) * 64 + z) * 64 + w) = [char_of (240 + x), char_of (128 + y), char_of (128 + z), char_of (128 + w)]"
    if "65536 \<le> ((x * 64 + y) * 64 + z) * 64 + w" "((x * 64 + y) * 64 + z) * 64 + w \<le> 0x10FFFF"
  proof -
    define r where "r = ((x * 64 + y) * 64 + z) * 64 + w"
    have "65536 \<le> r" "r \<le> 0x10FFFF" using that unfolding r_def by linarith+
    then have "enc_rune r = [char_of (240 + r div 262144), char_of (128 + r div 4096 mod 64), char_of (128 + r div 64 mod 64), char_of (128 + r mod 64)]"
      by (auto simp: enc_rune_def Let_def)
    then show ?thesis by (simp only: d r_def digits64 [OF y] digits64 [OF z] digits64 [OF w])
  qed
qed

lemma enc_dec_rune:
  assumes "s \<noteq> []" "dec_rune s = (r, n)" "(r, n) \<noteq> (rune_error, 1)"
  shows "enc_rune r = take n s"
  using assms
proof (cases rule: dec_rune_cases)
  case one
  then show ?thesis by (simp add: enc_rune_def)
next
  case (two c d t)
  define x y where "x = (of_char c mod 32 :: nat)" and "y = (of_char d mod 64 :: nat)"
  have n: "of_char c = 192 + x" "of_char d = 128 + y" using two(2,3) offsets unfolding x_def y_def by simp_all
  then have c: "char_of (192 + x) = c" "char_of (128 + y) = d" by (metis char_of_char)+
  have l: "y < 64" "x < 32" by (simp_all add: x_def y_def)
  have "128 \<le> x * 64 + y" using two(2) by (auto simp: n)
  with enc_rune_bytes(1) [OF l(1), of 0 0 x] l(2) c two(1,4,5) show ?thesis
    by (simp add: x_def [symmetric] y_def [symmetric])
next
  case (three c d f t)
  define x y z where "x = (of_char c mod 16 :: nat)" and "y = (of_char d mod 64 :: nat)" and "z = (of_char f mod 64 :: nat)"
  have n: "of_char c = 224 + x" "of_char d = 128 + y" "of_char f = 128 + z"
    using three(2-4) offsets unfolding x_def y_def z_def by (simp_all split: if_splits)
  then have c: "char_of (224 + x) = c" "char_of (128 + y) = d" "char_of (128 + z) = f" by (metis char_of_char)+
  have l: "y < 64" "z < 64" "x < 16" by (simp_all add: x_def y_def z_def)
  have "2048 \<le> (x * 64 + y) * 64 + z" "\<not> (x = 13 \<and> 32 \<le> y)" using three(3) l by (auto simp: n split: if_splits)
  with enc_rune_bytes(2) [OF l(1,2), of 0 x] l(3) c three(1,5,6) show ?thesis
    by (simp add: x_def [symmetric] y_def [symmetric] z_def [symmetric])
next
  case (four c d f g t)
  define x y z w where "x = (of_char c mod 8 :: nat)" and "y = (of_char d mod 64 :: nat)" and "z = (of_char f mod 64 :: nat)"
    and "w = (of_char g mod 64 :: nat)"
  have n: "of_char c = 240 + x" "of_char d = 128 + y" "of_char f = 128 + z" "of_char g = 128 + w"
    using four(2-5) offsets unfolding x_def y_def z_def w_def by (simp_all split: if_splits)
  then have c: "char_of (240 + x) = c" "char_of (128 + y) = d" "char_of (128 + z) = f" "char_of (128 + w) = g" by (metis char_of_char)+
  have l: "y < 64" "z < 64" "w < 64" by (simp_all add: y_def z_def w_def)
  have "65536 \<le> ((x * 64 + y) * 64 + z) * 64 + w" "((x * 64 + y) * 64 + z) * 64 + w \<le> 0x10FFFF"
    using four(2,3) l by (auto simp: n split: if_splits)
  with enc_rune_bytes(3) [OF l, of x] c four(1,6,7) show ?thesis
    by (simp add: x_def [symmetric] y_def [symmetric] z_def [symmetric] w_def [symmetric])
qed

lemma dec_rune_take:
  assumes "s \<noteq> []" "dec_rune s = (r, n)" "(r, n) \<noteq> (rune_error, 1)"
  shows "dec_rune (take n s @ t) = (r, n)"
  using assms
proof (cases rule: dec_rune_cases)
  case (three c d f t)
  then show ?thesis by (auto simp: dec_rune_def Let_def cont_def low6_def)
next
  case (four c d f g t)
  then show ?thesis by (auto simp: dec_rune_def Let_def cont_def low6_def)
qed (auto simp: dec_rune_def Let_def cont_def low6_def)


text \<open>What \<open>quote1\<close> emits for a rune is scanned whole and unquoted to that rune.\<close>

definition quotes :: "string \<Rightarrow> string \<Rightarrow> bool" where
  "quotes q x \<longleftrightarrow> q \<noteq> [] \<and> (\<forall>t. lex_str (q @ t) = map_option (\<lambda>(u, r). (q @ u, r)) (lex_str t) \<and> unq1 (q @ t) = (x, length q))"

lemma hex_val_hexd [simp]: "n < 16 \<Longrightarrow> hex_val (hexd n) = Some n"
  by (auto simp: hex_val_def hexd_def Let_def of_char_of)

lemma getu4_escape: "n < 65536 \<Longrightarrow> getu4 (u_escape n @ t) = Some n"
proof -
  assume n: "n < 65536"
  have h: "n div 4096 < 16" using n by (simp add: less_mult_imp_div_less)
  have "16 * (16 * (16 * (n div 4096) + n div 256 mod 16) + n div 16 mod 16) + n mod 16 = n"
  proof -
    have "16 * (n div 16 div 16 div 16) + n div 16 div 16 mod 16 = n div 16 div 16"
      "16 * (n div 16 div 16) + n div 16 mod 16 = n div 16" "16 * (n div 16) + n mod 16 = n"
      by simp_all
    then show ?thesis by (simp add: div_mult2_eq [symmetric])
  qed
  then show ?thesis using h by (simp add: getu4_def u_escape_def)
qed

lemma quotes_escape: "n < 65536 \<Longrightarrow> \<not> surrogate n \<Longrightarrow> quotes (u_escape n) (enc_rune n)"
proof -
  assume n: "n < 65536" "\<not> surrogate n"
  have h: "n div 4096 < 16" using n by (simp add: less_mult_imp_div_less)
  have "unq1 (u_escape n @ t) = (enc_rune n, length (u_escape n))" for t
    using getu4_escape [OF n(1), of t] n(2) by (simp add: unq1_def u_escape_def)
  then show ?thesis using h by (auto simp: quotes_def u_escape_def split: option.splits)
qed

lemma quotes_short: "c \<in> set [CHR 0x22, CHR 0x5C, CHR ''b'', CHR ''f'', CHR ''n'', CHR ''r'', CHR ''t''] \<Longrightarrow> quotes [CHR 0x5C, c] [unescape c]"
  by (auto simp: quotes_def unq1_def)

lemma quotes_self: "0x20 \<le> (of_char c :: nat) \<Longrightarrow> (of_char c :: nat) < 0x80 \<Longrightarrow> c \<noteq> CHR 0x22 \<Longrightarrow> c \<noteq> CHR 0x5C \<Longrightarrow> quotes [c] [c]"
  by (auto simp: quotes_def unq1_def)

lemma lex_str_high: "\<forall>c \<in> set q. 0x80 \<le> (of_char c :: nat) \<Longrightarrow> lex_str (q @ t) = map_option (\<lambda>(u, r). (q @ u, r)) (lex_str t)"
proof (induction q)
  case (Cons c q)
  then have "c \<noteq> CHR 0x22" "c \<noteq> CHR 0x5C" "\<not> (of_char c :: nat) < 0x20" by auto
  with Cons show ?case by (simp add: option.map_comp o_def split_def)
qed (simp add: option.map_id)

lemma char_of_codes: "char_of (8 :: nat) = CHR 0x08" "char_of (12 :: nat) = CHR 0x0C" "char_of (10 :: nat) = CHR 0x0A"
  "char_of (13 :: nat) = CHR 0x0D" "char_of (9 :: nat) = CHR 0x09"
  by (simp_all add: char_of_def bit_Suc_0_iff)

lemma quote1_ascii:
  assumes "(of_char c :: nat) < 0x80"
  shows "quotes (fst (quote1 (c # s))) [c] \<and> snd (quote1 (c # s)) = 1"
proof -
  have e: "enc_rune (of_char c) = [c]" "\<not> surrogate (of_char c)" using assms by (simp_all add: enc_rune_def surrogate_def)
  consider "c = CHR 0x22 \<or> c = CHR 0x5C" | "of_char c \<in> {8 :: nat, 12, 10, 13, 9}"
    | "of_char c < (0x20 :: nat) \<or> c = CHR ''<'' \<or> c = CHR ''>'' \<or> c = CHR ''&''" "of_char c \<notin> {8 :: nat, 12, 10, 13, 9}"
    | "0x20 \<le> (of_char c :: nat)" "c \<noteq> CHR 0x22" "c \<noteq> CHR 0x5C" "c \<noteq> CHR ''<''" "c \<noteq> CHR ''>''" "c \<noteq> CHR ''&''"
    by (metis linorder_not_less)
  then show ?thesis
  proof cases
    case 1
    then show ?thesis using quotes_short [of c] by (auto simp: quote1_def unescape_def)
  next
    case 2
    then have "c = CHR 0x08 \<or> c = CHR 0x0C \<or> c = CHR 0x0A \<or> c = CHR 0x0D \<or> c = CHR 0x09"
      by (metis char_of_char char_of_codes insertE empty_iff)
    then show ?thesis
      using quotes_short [of "CHR ''b''"] quotes_short [of "CHR ''f''"] quotes_short [of "CHR ''n''"] quotes_short [of "CHR ''r''"]
        quotes_short [of "CHR ''t''"]
      by (auto simp: quote1_def unescape_def)
  next
    case 3
    then have "quote1 (c # s) = (u_escape (of_char c), 1)" using assms by (auto simp: quote1_def Let_def)
    then show ?thesis using quotes_escape [of "of_char c"] e assms by simp
  next
    case 4
    then have "quote1 (c # s) = ([c], 1)" using assms by (auto simp: quote1_def Let_def)
    then show ?thesis using quotes_self [of c] 4 assms by simp
  qed
qed


lemma quotes_high:
  assumes "s \<noteq> []" "dec_rune s = (r, n)" "(r, n) \<noteq> (rune_error, 1)" "0x80 \<le> (of_char (hd s) :: nat)"
  shows "quotes (take n s) (take n s)" "1 < n"
proof -
  have "1 < n \<and> length (take n s) = n \<and> (\<forall>c \<in> set (take n s). 0x80 \<le> (of_char c :: nat))"
    using assms(1-3)
  proof (cases rule: dec_rune_cases)
    case one
    with assms(4) show ?thesis by simp
  qed (use assms(4) in \<open>auto split: if_splits\<close>)
  then have n: "1 < n" "length (take n s) = n" "\<forall>c \<in> set (take n s). 0x80 \<le> (of_char c :: nat)" by blast+
  then obtain c q where q: "take n s = c # q" by (cases "take n s") auto
  then have c: "\<not> (of_char c :: nat) < 0x80" "c \<noteq> CHR 0x5C" using n(3) by auto
  have "unq1 (take n s @ t) = (take n s, n)" for t
    using c n(1) dec_rune_take [OF assms(1-3), of t] enc_dec_rune [OF assms(1-3)] unfolding q by (simp add: unq1_def max_def)
  with lex_str_high [OF n(3)] q n show "quotes (take n s) (take n s)" "1 < n" by (auto simp: quotes_def)
qed

lemma quote1_rune:
  assumes "s \<noteq> []" "dec_rune s = (r, n)" "(r, n) \<noteq> (rune_error, 1)"
  shows "quotes (fst (quote1 s)) (take n s) \<and> snd (quote1 s) = n"
proof (cases "(of_char (hd s) :: nat) < 0x80")
  case True
  with assms obtain c t where "s = c # t" "n = 1" "(of_char c :: nat) < 0x80" by (cases s) (auto simp: dec_rune_def)
  with quote1_ascii [of c t] show ?thesis by simp
next
  case False
  then have h: "quotes (take n s) (take n s)" "1 < n" using quotes_high [OF assms] by simp_all
  have q: "quote1 s = (if r = 0x2028 \<or> r = 0x2029 then (u_escape r, n) else (take n s, n))"
    using assms False h(2) by (cases s) (auto simp: quote1_def Let_def max_def)
  show ?thesis using h quotes_escape [of r] enc_dec_rune [OF assms] by (auto simp: q surrogate_def)
qed

lemma quote_utf8:
  "utf8 s \<Longrightarrow> lex_str (quote_body s @ CHR 0x22 # t) = Some (quote_body s, t) \<and> unquote (quote_body s) = s"
proof (induction s rule: utf8.induct)
  case (1 s)
  show ?case
  proof (cases "s = []")
    case True
    then show ?thesis by (simp add: quote_body.simps unquote.simps)
  next
    case False
    obtain r n where d: "dec_rune s = (r, n)" by fastforce
    have ok: "(r, n) \<noteq> (rune_error, 1)" "utf8 (drop n s)" using "1.prems" False d by (auto simp: utf8.simps [of s] split: if_splits)
    define q where "q = fst (quote1 s)"
    have q: "quotes q (take n s)" "snd (quote1 s) = n" using quote1_rune [OF False d ok(1)] by (simp_all add: q_def)
    have b: "quote_body s = q @ quote_body (drop n s)" using False q(2) by (subst quote_body.simps) (simp add: q_def)
    have IH: "lex_str (quote_body (drop n s) @ CHR 0x22 # t) = Some (quote_body (drop n s), t)" "unquote (quote_body (drop n s)) = drop n s"
      using "1.IH" [OF False] ok d by auto
    have "unquote (quote_body s) = take n s @ unquote (quote_body (drop n s))"
      unfolding b using q(1) by (subst unquote.simps) (simp add: quotes_def)
    then show ?thesis using IH q(1) by (simp add: b quotes_def)
  qed
qed

subsection \<open>Values\<close>

definition num_lit :: "string \<Rightarrow> bool" where
  "num_lit l \<longleftrightarrow> lex_num l = Some (l, [])"

fun wf_json :: "json \<Rightarrow> bool" where
  "wf_json JNull = True"
| "wf_json (JBool b) = True"
| "wf_json (JNum l) = num_lit l"
| "wf_json (JStr s) = utf8 s"
| "wf_json (JArr vs) = (\<forall>v \<in> set vs. wf_json v)"
| "wf_json (JObj ms) = (\<forall>(k, v) \<in> set ms. utf8 k \<and> wf_json v)"

definition delim :: "string \<Rightarrow> bool" where
  "delim r \<longleftrightarrow> r = [] \<or> hd r = CHR '','' \<or> hd r = CHR '']'' \<or> hd r = CHR ''}'' \<or> hd r = CHR 0x0A"

lemma delim_simps [simp]: "delim []" "delim (CHR '','' # r)" "delim (CHR '']'' # r)" "delim (CHR ''}'' # r)"
  "delim (CHR 0x0A # r)"
  by (simp_all add: delim_def)

lemma delim_not_digit:
  assumes "delim r" shows "takeWhile is_digit r = []" "dropWhile is_digit r = r"
    "lex_frac r = Some ([], r)" "lex_exp r = Some ([], r)"
  using assms by (cases r; auto simp: delim_def lex_frac_def lex_exp_def is_digit_def)+

lemma lex_int_nat_str:
  assumes "delim r" shows "lex_int (nat_str n @ r) = Some (nat_str n, r)"
proof -
  obtain c cs where c: "nat_str n = c # cs" by (cases "nat_str n") auto
  have "list_all is_digit (c # cs)" using nat_str_digits [of n] c by simp
  then have ds: "\<forall>x \<in> set (c # cs). is_digit x" by (simp add: list_all_iff)
  have tw: "takeWhile is_digit ((c # cs) @ r) = c # cs" "dropWhile is_digit ((c # cs) @ r) = r"
    using ds by (simp_all only: takeWhile_append2 dropWhile_append2 delim_not_digit [OF assms]) simp_all
  show ?thesis
  proof (cases "c = CHR ''0''")
    case True
    with nat_str_leading [of n] c show ?thesis by (simp add: lex_int_def)
  next
    case False
    with tw show ?thesis by (simp add: c lex_int_def lex_digits_def)
  qed
qed


lemma lex_num_nat_str:
  assumes "delim r" shows "lex_num (nat_str n @ r) = Some (nat_str n, r)"
proof -
  obtain c cs where c: "nat_str n = c # cs" "is_digit c" using nat_str_digits [of n] by (cases "nat_str n") auto
  then have "c \<noteq> CHR ''-''" by (auto simp: is_digit_def)
  with c lex_int_nat_str [OF assms, of n] delim_not_digit [OF assms] show ?thesis by (simp add: lex_num_def)
qed

lemma lex_digits_append:
  assumes "delim r" "lex_digits s = Some (d, t)" shows "lex_digits (s @ r) = Some (d, t @ r)"
proof (cases "list_all is_digit s")
  case True
  then have "\<forall>c \<in> set s. is_digit c" by (simp add: list_all_iff)
  then have "takeWhile is_digit s = s" "dropWhile is_digit s = []" by (simp_all add: takeWhile_eq_all_conv dropWhile_eq_Nil_conv)
  with assms \<open>\<forall>c \<in> set s. is_digit c\<close> show ?thesis
    by (auto simp: lex_digits_def Let_def delim_not_digit split: if_splits)
next
  case False
  then obtain c where "c \<in> set s" "\<not> is_digit c" by (auto simp: list_all_iff)
  then have "takeWhile is_digit (s @ r) = takeWhile is_digit s" "dropWhile is_digit (s @ r) = dropWhile is_digit s @ r"
    by (simp_all add: takeWhile_append1 dropWhile_append1)
  with assms(2) show ?thesis by (auto simp: lex_digits_def Let_def split: if_splits)
qed

lemma lex_part_append:
  assumes "delim r"
  shows "lex_int s = Some (d, t) \<Longrightarrow> lex_int (s @ r) = Some (d, t @ r)"
    and "lex_frac s = Some (d, t) \<Longrightarrow> lex_frac (s @ r) = Some (d, t @ r)"
    and "lex_exp s = Some (d, t) \<Longrightarrow> lex_exp (s @ r) = Some (d, t @ r)"
  using lex_digits_append [OF assms] lex_digits_append [OF assms, of "_ # _"] delim_not_digit(3,4) [OF assms]
  by (auto simp: lex_int_def lex_frac_def lex_exp_def split: list.splits if_splits)

lemma lex_num_append:
  assumes "delim r" "lex_num s = Some (d, t)" shows "lex_num (s @ r) = Some (d, t @ r)"
proof -
  obtain sgn s1 where s: "(case s of c # cs \<Rightarrow> if c = CHR ''-'' then ([c], cs) else ([], s) | [] \<Rightarrow> ([], s)) = (sgn, s1)" by fastforce
  with assms(2) obtain i s2 f s3 ex where p: "lex_int s1 = Some (i, s2)" "lex_frac s2 = Some (f, s3)" "lex_exp s3 = Some (ex, t)"
    "d = sgn @ i @ f @ ex"
    by (auto simp: lex_num_def split: option.splits)
  then have "s1 \<noteq> []" by (auto simp: lex_int_def)
  with s have "(case s @ r of c # cs \<Rightarrow> if c = CHR ''-'' then ([c], cs) else ([], s @ r) | [] \<Rightarrow> ([], s @ r)) = (sgn, s1 @ r)"
    by (auto split: list.splits if_splits)
  with p lex_part_append [OF assms(1)] show ?thesis by (simp add: lex_num_def)
qed

lemma num_lit_append: "delim r \<Longrightarrow> num_lit l \<Longrightarrow> lex_num (l @ r) = Some (l, r)"
  using lex_num_append [of r l l "[]"] by (simp add: num_lit_def)

lemma num_lit_head:
  assumes "num_lit l" obtains c cs where "l = c # cs" "c = CHR ''-'' \<or> is_digit c"
proof -
  from assms have "l \<noteq> []" by (auto simp: num_lit_def lex_num_def lex_int_def)
  then obtain c cs where l: "l = c # cs" by (cases l) auto
  moreover have "c = CHR ''-'' \<or> is_digit c"
    using assms by (auto simp: l num_lit_def lex_num_def lex_int_def lex_digits_def Let_def is_digit_def split: if_splits option.splits)
  ultimately show thesis using that by blast
qed

lemma num_lit_nat_str [simp]: "num_lit (nat_str n)"
  using lex_num_nat_str [of "[]" n] by (simp add: num_lit_def)

lemma num_lit_int_str [simp]: "num_lit (int_str i)"
proof (cases "i < 0")
  case True
  have "lex_int (nat_str (nat (- i))) = Some (nat_str (nat (- i)), [])" using lex_int_nat_str [of "[]"] by simp
  then show ?thesis using True by (simp add: num_lit_def int_str_def lex_num_def lex_frac_def lex_exp_def)
qed (simp add: int_str_def)

lemma expect_hit [simp]: "\<not> is_ws c \<Longrightarrow> expect c (c # r) = Some r"
  by (simp add: expect_def)

lemma expect_miss: "\<not> is_ws d \<Longrightarrow> c \<noteq> d \<Longrightarrow> expect c (d # r) = None"
  by (simp add: expect_def)

definition starter :: "string \<Rightarrow> bool" where
  "starter s \<longleftrightarrow> s \<noteq> [] \<and> \<not> is_ws (hd s) \<and> hd s \<noteq> CHR '']'' \<and> hd s \<noteq> CHR ''}''"

lemma starter_print: "wf_json v \<Longrightarrow> starter (print_json v @ r)"
proof (cases v)
  case (JNum l)
  assume "wf_json v"
  with JNum obtain c cs where "l = c # cs" "c = CHR ''-'' \<or> is_digit c" using num_lit_head by auto
  then show ?thesis by (auto simp: starter_def JNum is_ws_def is_digit_def)
qed (simp_all add: starter_def is_ws_def quote_def)

lemma starter_expect: "starter s \<Longrightarrow> expect (CHR '']'') s = None" "starter s \<Longrightarrow> expect (CHR ''}'') s = None"
  by (cases s; simp add: starter_def expect_def)+

lemma commas_simps [simp]:
  "commas [] = []" "commas [x] = x" "commas (x # y # ys) = x @ CHR '','' # commas (y # ys)"
  by (simp_all add: commas_def)

lemma not_ws_punct [simp]:
  "\<not> is_ws (CHR 0x22)" "\<not> is_ws (CHR '','')" "\<not> is_ws (CHR '':'')" "\<not> is_ws (CHR '']'')"
  "\<not> is_ws (CHR ''}'')" "\<not> is_ws (CHR ''['')" "\<not> is_ws (CHR ''{'')"
  by (simp_all add: is_ws_def)

lemma pelems_print:
  assumes "\<And>v r n. v \<in> set vs \<Longrightarrow> delim r \<Longrightarrow> 2 * length (print_json v @ r) + 1 \<le> n \<Longrightarrow>
      pvalue n (print_json v @ r) = Some (v, r)"
    and "vs \<noteq> []" and "2 * length (commas (map print_json vs) @ CHR '']'' # r) + 2 \<le> n"
  shows "pelems n (commas (map print_json vs) @ CHR '']'' # r) = Some (vs, r)"
  using assms
proof (induction vs arbitrary: n)
  case (Cons v vs)
  obtain k where n: "n = Suc k" using Cons.prems(3) by (cases n) auto
  show ?case
  proof (cases vs)
    case Nil
    have "pvalue k (print_json v @ CHR '']'' # r) = Some (v, CHR '']'' # r)"
      using Cons.prems(3) n Nil by (intro Cons.prems(1)) auto
    with n Nil show ?thesis by simp
  next
    case (Cons w ws)
    let ?t = "commas (map print_json vs) @ CHR '']'' # r"
    have "pvalue k (print_json v @ CHR '','' # ?t) = Some (v, CHR '','' # ?t)"
      using Cons.prems(3) n Cons by (intro Cons.prems(1)) auto
    moreover have "pelems k ?t = Some (vs, r)"
      using Cons.prems n Cons by (intro Cons.IH) auto
    ultimately show ?thesis using n Cons by (simp add: expect_miss)
  qed
qed simp

definition print_member :: "string \<times> json \<Rightarrow> string" where
  "print_member kv = quote (fst kv) @ '':'' @ print_json (snd kv)"

lemma length_print_member [simp]:
  "length (print_member (k, v)) = length (quote k) + Suc (length (print_json v))"
  by (simp add: print_member_def)

lemma print_JObj: "print_json (JObj ms) = ''{'' @ commas (map print_member ms) @ ''}''"
  by (simp add: print_member_def case_prod_beta' cong: map_cong)

lemma pkey_print: "utf8 k \<Longrightarrow> pkey (quote k @ CHR '':'' # r) = Some (k, r)"
  using quote_utf8 [of k] by (simp add: pkey_def quote_def)

lemma pmembers_print:
  assumes "\<And>k v r n. (k, v) \<in> set ms \<Longrightarrow> delim r \<Longrightarrow> 2 * length (print_json v @ r) + 1 \<le> n \<Longrightarrow>
      pvalue n (print_json v @ r) = Some (v, r)"
    and "\<forall>kv \<in> set ms. utf8 (fst kv)"
    and "ms \<noteq> []" and "2 * length (commas (map print_member ms) @ CHR ''}'' # r) + 2 \<le> n"
  shows "pmembers n (commas (map print_member ms) @ CHR ''}'' # r) = Some (ms, r)"
  using assms
proof (induction ms arbitrary: n)
  case (Cons kv ms)
  obtain key v where kv: "kv = (key, v)" by (cases kv)
  have pl: "utf8 key" using Cons.prems(2) kv by auto
  obtain k where n: "n = Suc k" using Cons.prems(4) by (cases n) auto
  show ?case
  proof (cases ms)
    case Nil
    have "pvalue k (print_json v @ CHR ''}'' # r) = Some (v, CHR ''}'' # r)"
      using Cons.prems(4) n Nil kv by (intro Cons.prems(1)) (auto simp: print_member_def)
    with n Nil kv pl show ?thesis by (simp add: print_member_def pkey_print)
  next
    case (Cons w ws)
    let ?t = "commas (map print_member ms) @ CHR ''}'' # r"
    have "pvalue k (print_json v @ CHR '','' # ?t) = Some (v, CHR '','' # ?t)"
      using Cons.prems(4) n Cons kv by (intro Cons.prems(1)) auto
    moreover have "pmembers k ?t = Some (ms, r)"
      using Cons.prems n Cons by (intro Cons.IH) auto
    moreover have "commas (map print_member (kv # ms)) @ CHR ''}'' # r
        = quote key @ CHR '':'' # print_json v @ CHR '','' # ?t"
      using Cons kv by (simp add: print_member_def)
    ultimately show ?thesis using n kv pl by (simp add: expect_miss pkey_print)
  qed
qed simp

lemma pscalar_num: "delim r \<Longrightarrow> num_lit l \<Longrightarrow> pscalar (l @ r) = Some (JNum l, r)"
proof -
  assume a: "delim r" "num_lit l"
  obtain c cs where c: "l = c # cs" "c = CHR ''-'' \<or> is_digit c" using num_lit_head [OF a(2)] by blast
  then have "c \<noteq> CHR ''n''" "c \<noteq> CHR ''t''" "c \<noteq> CHR ''f''" by (auto simp: is_digit_def)
  then show ?thesis using num_lit_append [OF a] c(1) by (simp add: pscalar_def strip_def)
qed

lemma pvalue_starter:
  "starter (c # cs) \<Longrightarrow> pvalue (Suc n) (c # cs) =
     (if c = CHR ''{'' then
        (case expect (CHR ''}'') cs of
           Some r \<Rightarrow> Some (JObj [], r)
         | None \<Rightarrow> map_option (\<lambda>(ms, r). (JObj ms, r)) (pmembers n cs))
      else if c = CHR ''['' then
        (case expect (CHR '']'') cs of
           Some r \<Rightarrow> Some (JArr [], r)
         | None \<Rightarrow> map_option (\<lambda>(vs, r). (JArr vs, r)) (pelems n cs))
      else if c = CHR 0x22 then map_option (\<lambda>(k, r). (JStr (unquote k), r)) (lex_str cs)
      else pscalar (c # cs))"
  by (simp add: starter_def)

lemma pvalue_print_fuel:
  "wf_json v \<Longrightarrow> delim r \<Longrightarrow> 2 * length (print_json v @ r) + 1 \<le> n \<Longrightarrow>
   pvalue n (print_json v @ r) = Some (v, r)"
proof (induction v arbitrary: r n)
  case JNull
  then show ?case by (cases n) (simp_all add: pscalar_def strip_def is_ws_def)
next
  case (JBool b)
  then show ?case by (cases n) (simp_all add: pscalar_def strip_def is_ws_def)
next
  case (JNum l)
  then have l: "num_lit l" by simp
  obtain c cs where c: "l = c # cs" "c = CHR ''-'' \<or> is_digit c" using num_lit_head [OF l] by blast
  then have "c \<noteq> CHR ''{''" "c \<noteq> CHR ''[''" "c \<noteq> CHR 0x22" by (auto simp: is_digit_def)
  moreover have "starter (c # cs @ r)" using starter_print [OF JNum(1), of r] c by simp
  ultimately show ?case
    using pscalar_num [OF JNum(2) l] JNum(3) c(1)
    by (cases n) (simp_all add: pvalue_starter del: pvalue.simps)
next
  case (JStr s)
  then show ?case using quote_utf8 [of s] by (cases n) (simp_all add: quote_def)
next
  case (JArr vs)
  obtain k where n: "n = Suc k" using JArr.prems(3) by (cases n) auto
  show ?case
  proof (cases "vs = []")
    case True
    with n show ?thesis by simp
  next
    case False
    then have "starter (commas (map print_json vs) @ CHR '']'' # r)"
      using starter_print JArr.prems(1) by (cases vs rule: remdups_adj.cases) auto
    moreover have "pelems k (commas (map print_json vs) @ CHR '']'' # r) = Some (vs, r)"
      using JArr False n by (intro pelems_print) auto
    ultimately show ?thesis using n by (simp add: starter_expect)
  qed
next
  case (JObj ms)
  obtain k where n: "n = Suc k" using JObj.prems(3) by (cases n) auto
  have IH: "pvalue m (print_json v @ t) = Some (v, t)"
    if "(key, v) \<in> set ms" "delim t" "2 * length (print_json v @ t) + 1 \<le> m" for key v t m
    using JObj.IH [OF that(1), of v] that JObj.prems(1) by auto
  show ?case
  proof (cases "ms = []")
    case True
    with n show ?thesis by simp
  next
    case False
    have "starter (commas (map print_member ms) @ CHR ''}'' # r)"
      using False by (cases ms rule: remdups_adj.cases)
        (auto simp: starter_def print_member_def quote_def)
    moreover have "pmembers k (commas (map print_member ms) @ CHR ''}'' # r) = Some (ms, r)"
      using JObj.prems False n by (intro pmembers_print IH) (auto simp: print_JObj simp del: print_json.simps)
    ultimately show ?thesis using n unfolding print_JObj by (simp add: starter_expect)
  qed
qed

lemma pvalue_print: "wf_json v \<Longrightarrow> delim r \<Longrightarrow> decode_first (print_json v @ r) = Some (v, r)"
  unfolding decode_first_def by (rule pvalue_print_fuel) auto

lemma unmarshal_print: "wf_json v \<Longrightarrow> unmarshal (print_json v) = Some v"
  using pvalue_print [of v "[]"] by (simp add: unmarshal_def)

end
