(* ===== verification/Frames.thy ===== *)
theory Frames
  imports AD Json
begin

text \<open>
  The wire frame: the relay's codec (\<open>internal/relay/frames.go\<close>) and the endpoints' own copy of
  it (\<open>wire/frame.go\<close>). A frame is a two-byte length, a JSON header of three fields and an opaque
  body. The lemmas give the shape of what the decoder accepts, the round trip with the encoder,
  the agreement of the two copies, and that the header never depends on the body.
\<close>

section \<open>Header\<close>

record Header =
  hd_Channel :: string
  hd_Seq :: uint64
  hd_PushClass :: string

definition PushNone :: string where "PushNone = ''none''"
definition PushWake :: string where "PushWake = ''wake''"
definition PushAttention :: string where "PushAttention = ''attention''"

lemmas push_defs = PushNone_def PushWake_def PushAttention_def

definition validPushClass :: "string \<Rightarrow> bool" where
  "validPushClass pc \<longleftrightarrow> pc = PushNone \<or> pc = PushWake \<or> pc = PushAttention"

datatype frame_error = errFraming | errHeaderLen | errHeader

definition DefaultMaxHeaderLen :: int where "DefaultMaxHeaderLen = 512"

definition zero_Header :: Header where
  "zero_Header = \<lparr>hd_Channel = [], hd_Seq = 0, hd_PushClass = []\<rparr>"

definition header_names :: "string list" where
  "header_names = [''channel'', ''seq'', ''push_class'']"

text \<open>Decoding one member into the header, with \<open>DisallowUnknownFields\<close>.\<close>

definition header_field :: "string option \<Rightarrow> json \<Rightarrow> Header \<Rightarrow> Header option" where
  "header_field f v h =
     (if f = Some ''channel'' then map_option (\<lambda>x. h\<lparr>hd_Channel := x\<rparr>) (into_string v (hd_Channel h))
      else if f = Some ''seq'' then map_option (\<lambda>x. h\<lparr>hd_Seq := x\<rparr>) (into_uint64 v (hd_Seq h))
      else if f = Some ''push_class'' then map_option (\<lambda>x. h\<lparr>hd_PushClass := x\<rparr>) (into_string v (hd_PushClass h))
      else None)"

definition decode_header :: "string \<Rightarrow> Header option" where
  "decode_header s =
     (case decode_first s of None \<Rightarrow> None | Some (v, rest) \<Rightarrow>
      case into_struct header_names header_field v zero_Header of None \<Rightarrow> None | Some h \<Rightarrow>
      if dec_more rest then None else Some h)"

section \<open>The relay's codec\<close>

definition DecodeFrame :: "bytes \<Rightarrow> int \<Rightarrow> frame_error + Header \<times> bytes" where
  "DecodeFrame msg maxHeader =
     (if length msg < 2 then Inl errFraming
      else let hl = be_get (take 2 msg) in
        if maxHeader < int hl then Inl errHeaderLen
        else if length msg < 2 + hl then Inl errFraming
        else case decode_header (bytes_str (take hl (drop 2 msg))) of
               None \<Rightarrow> Inl errHeader
             | Some h \<Rightarrow> if \<not> validID (hd_Channel h) \<or> \<not> validPushClass (hd_PushClass h)
                         then Inl errHeader else Inr (h, drop (2 + hl) msg))"

definition header_json :: "Header \<Rightarrow> json" where
  "header_json h = JObj [(''channel'', JStr (hd_Channel h)), (''seq'', JNum (uint_str (hd_Seq h))),
                         (''push_class'', JStr (hd_PushClass h))]"

text \<open>None is the error for a header above the cap.\<close>

definition EncodeFrame :: "Header \<Rightarrow> bytes \<Rightarrow> bytes option" where
  "EncodeFrame h body =
     (let hdr = marshal (header_json h) in
      if DefaultMaxHeaderLen < int (length hdr) then None
      else Some (be_put 2 (length hdr) @ hdr @ body))"

text \<open>An identifier drawn by \<open>NewID\<close>: the encoding of the two 64-bit words the generator gave.\<close>

definition NewID :: "uint64 \<Rightarrow> uint64 \<Rightarrow> string" where
  "NewID hi lo = b64_encode (PutUint64 hi @ PutUint64 lo)"

section \<open>The endpoints' codec\<close>

datatype wire_error = ErrFraming | ErrHeader | ErrChannel bin_error | ErrPushClass

definition MaxHeaderLen :: nat where "MaxHeaderLen = 512"

definition ChannelID :: "Header \<Rightarrow> wire_error + bytes" where
  "ChannelID h = (case DecodeChannelID (hd_Channel h) of Inl e \<Rightarrow> Inl (ErrChannel e) | Inr raw \<Rightarrow> Inr raw)"

definition header_AD :: "Header \<Rightarrow> wire_error + bytes" where
  "header_AD h = (case ChannelID h of Inl e \<Rightarrow> Inl e | Inr raw \<Rightarrow>
     case ParsePushClass (hd_PushClass h) of None \<Rightarrow> Inl ErrPushClass
     | Some pc \<Rightarrow> Inr (BuildAD raw (hd_Seq h) pc))"

definition wire_EncodeFrame :: "Header \<Rightarrow> bytes \<Rightarrow> bytes option" where
  "wire_EncodeFrame h body =
     (let hdr = marshal (header_json h) in
      if MaxHeaderLen < length hdr then None
      else Some (be_put 2 (length hdr) @ hdr @ body))"

definition wire_DecodeFrame :: "bytes \<Rightarrow> wire_error + Header \<times> bytes" where
  "wire_DecodeFrame msg =
     (if length msg < 2 then Inl ErrFraming
      else let hl = be_get (take 2 msg) in
        if MaxHeaderLen < hl \<or> length msg < 2 + hl then Inl ErrFraming
        else case decode_header (bytes_str (take hl (drop 2 msg))) of
               None \<Rightarrow> Inl ErrHeader
             | Some h \<Rightarrow> if isl (ChannelID h) then Inl ErrHeader
                         else if ParsePushClass (hd_PushClass h) = None then Inl ErrHeader
                         else Inr (h, drop (2 + hl) msg))"

section \<open>Lemmas\<close>

text \<open>The shape of an accepted frame.\<close>

lemma DecodeFrame_iff:
  "DecodeFrame msg mx = Inr (h, body) \<longleftrightarrow>
     (\<exists>hdr. msg = be_put 2 (length hdr) @ hdr @ body \<and> length hdr < 65536 \<and> int (length hdr) \<le> mx
        \<and> decode_header (bytes_str hdr) = Some h
        \<and> validID (hd_Channel h) \<and> validPushClass (hd_PushClass h))"
    (is "?l \<longleftrightarrow> ?r")
proof
  assume l: ?l
  let ?hl = "be_get (take 2 msg)" let ?hdr = "take ?hl (drop 2 msg)"
  have len: "2 \<le> length msg" "int ?hl \<le> mx" "2 + ?hl \<le> length msg"
    and dec: "decode_header (bytes_str ?hdr) = Some h" "validID (hd_Channel h)"
      "validPushClass (hd_PushClass h)" "body = drop (2 + ?hl) msg"
    using l by (auto simp: DecodeFrame_def Let_def split: if_splits option.splits)
  have lh: "length ?hdr = ?hl" using len by simp
  have l2: "length (take 2 msg) = 2" using len(1) by simp
  then have two: "take 2 msg = be_put 2 ?hl" using be_put_get [of "take 2 msg"] by simp
  have "body = drop ?hl (drop 2 msg)" unfolding dec(4) drop_drop by (simp only: add.commute)
  then have "msg = take 2 msg @ ?hdr @ body" by (simp only: append_take_drop_id)
  moreover have "?hl < 65536" using be_get_less [of "take 2 msg"] l2 by simp
  ultimately show ?r using two lh dec len(2) by (intro exI [of _ ?hdr]) auto
next
  assume ?r
  then obtain hdr where h: "msg = be_put 2 (length hdr) @ hdr @ body" "length hdr < 65536"
    "int (length hdr) \<le> mx" "decode_header (bytes_str hdr) = Some h"
    "validID (hd_Channel h)" "validPushClass (hd_PushClass h)" by blast
  have "take 2 msg = be_put 2 (length hdr)" by (simp add: h(1))
  then have "be_get (take 2 msg) = length hdr" using h(2) by (simp add: be_get_put)
  with h show ?l by (simp add: DecodeFrame_def)
qed

text \<open>What the relay accepts as a frame: a two-byte length, a header of that length within the
  cap, and the rest of the message as the body, where the header is JSON of the three fields
  with a canonical channel id and a push class of the closed enumeration.\<close>

theorem DecodeFrame_shape:
  assumes "DecodeFrame msg mx = Inr (h, body)"
  shows "\<exists>hdr. msg = be_put 2 (length hdr) @ hdr @ body \<and> int (length hdr) \<le> mx
    \<and> decode_header (bytes_str hdr) = Some h
    \<and> (\<exists>raw. length raw = 16 \<and> hd_Channel h = EncodeChannelID raw)
    \<and> hd_PushClass h \<in> {''none'', ''wake'', ''attention''}"
  using assms unfolding DecodeFrame_iff
  by (auto simp: validID_iff EncodeChannelID_def EncodeBin_def validPushClass_def push_defs)

lemma DecodeFrame_body:
  assumes "DecodeFrame (pre @ body) mx = Inr (h, body)"
  shows "DecodeFrame (pre @ body') mx = Inr (h, body')"
proof -
  obtain hdr where "pre @ body = be_put 2 (length hdr) @ hdr @ body" "length hdr < 65536"
    "int (length hdr) \<le> mx" "decode_header (bytes_str hdr) = Some h"
    "validID (hd_Channel h)" "validPushClass (hd_PushClass h)"
    using assms unfolding DecodeFrame_iff by blast
  moreover from this(1) have "pre = be_put 2 (length hdr) @ hdr" by simp
  ultimately show ?thesis unfolding DecodeFrame_iff by (intro exI [of _ hdr]) simp
qed

text \<open>The header of a frame never depends on its body: replacing the body of an accepted
  frame gives a frame that is accepted with the same header and carries the new body whole.\<close>

theorem DecodeFrame_body_opaque:
  assumes "DecodeFrame (pre @ body) mx = Inr (h, body)"
  shows "DecodeFrame (pre @ body') mx = Inr (h, body')"
  using assms by (rule DecodeFrame_body)

subsection \<open>Round trip\<close>

lemma length_nat_str: "n < 10 ^ Suc k \<Longrightarrow> length (nat_str n) \<le> Suc k"
proof (induction n arbitrary: k rule: nat_str.induct)
  case (1 n)
  show ?case
  proof (cases "n < 10")
    case True
    then show ?thesis by (subst nat_str.simps) simp
  next
    case False
    with "1.prems" obtain j where k: "k = Suc j" by (cases k) auto
    with "1.prems" have "n div 10 < 10 ^ Suc j" by (simp add: less_mult_imp_div_less)
    from "1.IH" [OF False this] False k show ?thesis by (subst nat_str.simps) simp
  qed
qed

lemma length_uint_str: "length (uint_str w) \<le> 20"
proof -
  have "unat w < 2 ^ 64" using unsigned_less [of w] by simp
  then have "unat w < 10 ^ Suc 19" by simp
  from length_nat_str [OF this] show ?thesis by (simp add: uint_str_def)
qed

lemma of_char_enc6: "n < 64 \<Longrightarrow> of_char (enc6 n) =
    (if n < 26 then 65 + n else if n < 52 then 71 + n else if n < 62 then n - 4 else if n = 62 then 45 else 95 :: nat)"
  by (auto simp: enc6_def of_char_of)

lemma enc6_plain:
  assumes "n < 64" shows "plain_char (enc6 n)"
proof -
  have "(of_char (enc6 n) :: nat) \<notin> {34, 92, 60, 62, 38}" "32 \<le> (of_char (enc6 n) :: nat)"
    "(of_char (enc6 n) :: nat) < 128"
    using assms by (auto simp: of_char_enc6)
  then show ?thesis by (auto simp: plain_char_def)
qed

lemma validID_plain: "validID s \<Longrightarrow> plain s"
  unfolding plain_def list_all_iff using validID_chars enc6_plain by fastforce

lemma validPushClass_plain: "validPushClass s \<Longrightarrow> plain s"
  by (auto simp: validPushClass_def push_defs plain_char_def)

lemma field_of_exact: "k \<in> set names \<Longrightarrow> field_of names k = Some k"
  by (simp add: field_of_def)

lemma decode_header_json:
  assumes "validID (hd_Channel h)" "validPushClass (hd_PushClass h)" "delim r"
  shows "decode_header (print_json (header_json h) @ r) = (if dec_more r then None else Some h)"
proof -
  have "wf_json (header_json h)"
    using assms by (auto simp: header_json_def validID_plain validPushClass_plain uint_str_def plain_char_def)
  from pvalue_print [OF this assms(3)] show ?thesis
    by (simp add: decode_header_def header_json_def into_struct_def header_names_def field_of_def
        header_field_def into_string_def into_uint64_def zero_Header_def del: print_json.simps)
qed

lemma length_header_json:
  assumes "validID (hd_Channel h)" "validPushClass (hd_PushClass h)"
  shows "length (print_json (header_json h)) \<le> 100"
proof -
  have "length (hd_PushClass h) \<le> 9" using assms(2) by (auto simp: validPushClass_def push_defs)
  then show ?thesis
    using assms validID_length length_uint_str [of "hd_Seq h"]
    by (simp add: header_json_def quote_plain validID_plain validPushClass_plain plain_char_def)
qed

lemma EncodeFrame_Decode:
  assumes "validID (hd_Channel h)" "validPushClass (hd_PushClass h)"
  shows "\<exists>msg. EncodeFrame h body = Some msg \<and> DecodeFrame msg DefaultMaxHeaderLen = Inr (h, body)"
proof -
  let ?hdr = "marshal (header_json h)"
  have len: "length ?hdr \<le> 100" using length_header_json [OF assms] by (simp add: marshal_def)
  then have enc: "EncodeFrame h body = Some (be_put 2 (length ?hdr) @ ?hdr @ body)"
    by (simp add: EncodeFrame_def DefaultMaxHeaderLen_def Let_def)
  have "decode_header (bytes_str ?hdr) = Some h"
    using decode_header_json [OF assms, of "[]"] by (simp add: marshal_def dec_more_def)
  with len assms have "DecodeFrame (be_put 2 (length ?hdr) @ ?hdr @ body) DefaultMaxHeaderLen = Inr (h, body)"
    unfolding DecodeFrame_iff by (auto simp: DefaultMaxHeaderLen_def)
  with enc show ?thesis by blast
qed

text \<open>C34. Encoding a header with a canonical channel id and a known push class never fails, and
  decoding the frame gives the header and the body back, at the relay's header cap.\<close>

theorem EncodeFrame_DecodeFrame:
  assumes "validID (hd_Channel h)" "validPushClass (hd_PushClass h)"
  shows "\<exists>msg. EncodeFrame h body = Some msg \<and> DecodeFrame msg DefaultMaxHeaderLen = Inr (h, body)"
  using assms by (rule EncodeFrame_Decode)

definition ex_header :: Header where
  "ex_header = \<lparr>hd_Channel = b64_encode (replicate 16 7), hd_Seq = 42, hd_PushClass = ''wake''\<rparr>"

definition ex_frame :: bytes where
  "ex_frame = the (EncodeFrame ex_header [1, 2, 3])"

lemma ex_header_valid [simp]: "validID (hd_Channel ex_header)" "validPushClass (hd_PushClass ex_header)"
  by (simp_all add: ex_header_def validPushClass_def push_defs)

lemma ex_frame_decodes [simp]: "DecodeFrame ex_frame 512 = Inr (ex_header, [1, 2, 3])"
  using EncodeFrame_Decode [OF ex_header_valid, of "[1, 2, 3]"]
  by (auto simp: ex_frame_def DefaultMaxHeaderLen_def)

theorem EncodeFrame_DecodeFrame_witness:
  "validID (hd_Channel ex_header) \<and> validPushClass (hd_PushClass ex_header)
   \<and> (\<exists>msg. EncodeFrame ex_header [1, 2, 3] = Some msg \<and> DecodeFrame msg DefaultMaxHeaderLen = Inr (ex_header, [1, 2, 3]))"
  using EncodeFrame_DecodeFrame [OF ex_header_valid, of "[1, 2, 3]"] by simp

theorem DecodeFrame_shape_witness:
  "DecodeFrame ex_frame 512 = Inr (ex_header, [1, 2, 3])
   \<and> (\<exists>hdr. ex_frame = be_put 2 (length hdr) @ hdr @ [1, 2, 3] \<and> decode_header (bytes_str hdr) = Some ex_header)"
  using DecodeFrame_shape [OF ex_frame_decodes] by auto

lemma ex_frame_split: "ex_frame = (be_put 2 (length (marshal (header_json ex_header))) @ marshal (header_json ex_header)) @ [1, 2, 3]"
  using length_header_json [OF ex_header_valid]
  by (simp add: ex_frame_def EncodeFrame_def marshal_def DefaultMaxHeaderLen_def Let_def)

theorem DecodeFrame_body_opaque_witness:
  "\<exists>pre. DecodeFrame (pre @ [1, 2, 3]) 512 = Inr (ex_header, [1, 2, 3])
     \<and> DecodeFrame (pre @ [9, 9]) 512 = Inr (ex_header, [9, 9])"
  using DecodeFrame_body_opaque [OF ex_frame_decodes [unfolded ex_frame_split], of "[9, 9]"]
    ex_frame_decodes [unfolded ex_frame_split] by blast

subsection \<open>The two copies of the codec\<close>

lemma ChannelID_validID: "isl (ChannelID h) \<longleftrightarrow> \<not> validID (hd_Channel h)"
  by (auto simp: ChannelID_def validID_DecodeBin DecodeChannelID_DecodeBin split: sum.splits)

lemma ParsePushClass_valid: "ParsePushClass s = None \<longleftrightarrow> \<not> validPushClass s"
  by (auto simp: ParsePushClass_def validPushClass_def push_defs split: if_splits)

lemma wire_codec: "DecodeFrame msg DefaultMaxHeaderLen = Inr x \<longleftrightarrow> wire_DecodeFrame msg = Inr x"
  by (auto simp: DecodeFrame_def wire_DecodeFrame_def Let_def DefaultMaxHeaderLen_def MaxHeaderLen_def
      ChannelID_validID ParsePushClass_valid split: option.splits if_splits)

lemma wire_codec_encode: "wire_EncodeFrame h body = EncodeFrame h body"
  by (simp add: wire_EncodeFrame_def EncodeFrame_def Let_def DefaultMaxHeaderLen_def MaxHeaderLen_def)

text \<open>The relay and the endpoints agree on what a frame is: at the relay's hard header cap the
  two decoders accept the same messages with the same header and body, and the two encoders
  emit the same bytes.\<close>

theorem wire_codec_agrees:
  "(DecodeFrame msg DefaultMaxHeaderLen = Inr x \<longleftrightarrow> wire_DecodeFrame msg = Inr x)
   \<and> wire_EncodeFrame h body = EncodeFrame h body"
  using wire_codec wire_codec_encode by blast

lemma header_AD_iff:
  "header_AD h = Inr ad \<longleftrightarrow> (\<exists>raw pc. length raw = 16 \<and> hd_Channel h = b64_encode raw
     \<and> ParsePushClass (hd_PushClass h) = Some pc \<and> ad = BuildAD raw (hd_Seq h) pc)"
proof -
  have "header_AD h = Inr ad \<longleftrightarrow> (\<exists>raw pc. DecodeBin (hd_Channel h) 16 = Inr raw
      \<and> ParsePushClass (hd_PushClass h) = Some pc \<and> ad = BuildAD raw (hd_Seq h) pc)"
    by (auto simp: header_AD_def ChannelID_def DecodeChannelID_DecodeBin split: sum.splits option.splits)
  then show ?thesis by (simp add: DecodeBin_iff) blast
qed

text \<open>The associated data of a frame determines its header: every header the relay accepts has
  25 bytes of associated data, and two headers with the same associated data are the same
  header, so a header altered in transit never authenticates under the sender's data.\<close>

theorem header_AD_injective:
  "(validID (hd_Channel h) \<and> validPushClass (hd_PushClass h) \<longleftrightarrow> (\<exists>ad. header_AD h = Inr ad))
   \<and> (header_AD h = Inr ad \<longrightarrow> length ad = ADLen)
   \<and> (header_AD h = Inr ad \<longrightarrow> header_AD h' = Inr ad \<longrightarrow> h = h')"
proof (intro conjI impI)
  show "validID (hd_Channel h) \<and> validPushClass (hd_PushClass h) \<longleftrightarrow> (\<exists>ad. header_AD h = Inr ad)"
    using ParsePushClass_valid [of "hd_PushClass h"] by (auto simp: header_AD_iff validID_iff EncodeBin_def)
next
  assume "header_AD h = Inr ad" then show "length ad = ADLen"
    by (auto simp: header_AD_iff length_BuildAD)
next
  assume "header_AD h = Inr ad" "header_AD h' = Inr ad"
  then show "h = h'"
    unfolding header_AD_iff by (intro Header.equality) (auto simp: BuildAD_eq_iff dest: ParsePushClass_inj)
qed

theorem header_AD_injective_witness:
  "\<exists>ad. header_AD ex_header = Inr ad \<and> length ad = ADLen"
proof -
  obtain ad where ad: "header_AD ex_header = Inr ad"
    using header_AD_injective [of ex_header] ex_header_valid by blast
  then show ?thesis using header_AD_injective [of ex_header ad ex_header] by simp
qed

subsection \<open>Trailing bytes\<close>

text \<open>The decoder does not hold a header to exactly one JSON value: anything that starts with
  a closing brace may follow the value inside the header, because \<open>Decoder.More\<close> reports no
  further element there. The frame is accepted and forwarded with the trailing bytes.\<close>

theorem DecodeFrame_accepts_trailing_brace:
  assumes "validID (hd_Channel h)" "validPushClass (hd_PushClass h)" "length junk \<le> 400"
  shows "let hdr = marshal (header_json h) @ str_bytes (CHR ''}'' # junk)
         in DecodeFrame (be_put 2 (length hdr) @ hdr @ body) DefaultMaxHeaderLen = Inr (h, body)"
proof -
  let ?hdr = "marshal (header_json h) @ str_bytes (CHR ''}'' # junk)"
  have "decode_header (bytes_str ?hdr) = Some h"
    using decode_header_json [OF assms(1,2), of "CHR ''}'' # junk"]
    by (simp add: marshal_def dec_more_def is_ws_def del: str_bytes_append flip: str_bytes_append)
  moreover have "length ?hdr \<le> 512"
    using length_header_json [OF assms(1,2)] assms(3) by (simp add: marshal_def)
  ultimately show ?thesis
    unfolding Let_def DecodeFrame_iff using assms
    by (intro exI [of _ ?hdr]) (simp add: DefaultMaxHeaderLen_def)
qed

theorem DecodeFrame_accepts_trailing_brace_witness:
  "validID (hd_Channel ex_header) \<and> validPushClass (hd_PushClass ex_header) \<and> length ''} garbage'' \<le> 400
   \<and> (let hdr = marshal (header_json ex_header) @ str_bytes (CHR ''}'' # ''} garbage'')
      in DecodeFrame (be_put 2 (length hdr) @ hdr @ [1]) DefaultMaxHeaderLen = Inr (ex_header, [1]))"
  using DecodeFrame_accepts_trailing_brace [OF ex_header_valid, of "''} garbage''" "[1]"]
  by (simp only: ex_header_valid) simp


end
