(* ===== verification/Errors.thy ===== *)
theory Errors
  imports Frames
begin

text \<open>
  The closed error set of the relay (\<open>internal/relay/errors.go\<close>): its codes, their HTTP statuses
  and WebSocket close codes, the error response and the routing-error control message. An HTTP
  response is its status, the two headers the relay sets and the body.
\<close>

datatype ErrCode = CodeUnauthenticated | CodeForbidden | CodeAuthUnavailable | CodeNotFound
  | CodeConflict | CodeFrameTooLarge | CodeProtocolViolation | CodeRateLimited
  | CodeWindowClosed | CodeInternal | CodePeerUnavailable

fun code_str :: "ErrCode \<Rightarrow> string" where
  "code_str CodeUnauthenticated = ''unauthenticated''"
| "code_str CodeForbidden = ''forbidden''"
| "code_str CodeAuthUnavailable = ''auth_unavailable''"
| "code_str CodeNotFound = ''not_found''"
| "code_str CodeConflict = ''conflict''"
| "code_str CodeFrameTooLarge = ''frame_too_large''"
| "code_str CodeProtocolViolation = ''protocol_violation''"
| "code_str CodeRateLimited = ''rate_limited''"
| "code_str CodeWindowClosed = ''window_closed''"
| "code_str CodeInternal = ''internal''"
| "code_str CodePeerUnavailable = ''peer_unavailable''"

text \<open>The two Go maps; a key that is absent is None.\<close>

fun httpStatus :: "ErrCode \<Rightarrow> int option" where
  "httpStatus CodeUnauthenticated = Some 401"
| "httpStatus CodeForbidden = Some 403"
| "httpStatus CodeAuthUnavailable = Some 503"
| "httpStatus CodeNotFound = Some 404"
| "httpStatus CodeConflict = Some 409"
| "httpStatus CodeFrameTooLarge = Some 413"
| "httpStatus CodeProtocolViolation = Some 400"
| "httpStatus CodeRateLimited = Some 429"
| "httpStatus CodeWindowClosed = Some 410"
| "httpStatus CodeInternal = Some 500"
| "httpStatus CodePeerUnavailable = None"

fun wssClose :: "ErrCode \<Rightarrow> int option" where
  "wssClose CodeUnauthenticated = Some 4401"
| "wssClose CodeForbidden = Some 4403"
| "wssClose CodeAuthUnavailable = Some 4503"
| "wssClose CodeFrameTooLarge = Some 4413"
| "wssClose CodeProtocolViolation = Some 4400"
| "wssClose CodeRateLimited = Some 4429"
| "wssClose CodeWindowClosed = Some 4410"
| "wssClose CodeInternal = Some 4500"
| "wssClose _ = None"

text \<open>Indexing a Go map with an absent key gives the zero value.\<close>

definition close_code :: "ErrCode \<Rightarrow> int" where
  "close_code c = (case wssClose c of None \<Rightarrow> 0 | Some n \<Rightarrow> n)"

record Response =
  rp_Status :: int
  rp_ContentType :: "string option"
  rp_RetryAfter :: "string option"
  rp_Body :: bytes

text \<open>\<open>Encoder.Encode\<close> ends the value with a newline; maps are written in key order.\<close>

definition encode_body :: "json \<Rightarrow> bytes" where
  "encode_body v = marshal v @ [10]"

definition error_json :: "ErrCode \<Rightarrow> string \<Rightarrow> json" where
  "error_json code msg = JObj [(''code'', JStr (code_str code)), (''message'', JStr msg)]"

definition writeErrorRetry :: "ErrCode \<Rightarrow> string \<Rightarrow> int \<Rightarrow> Response" where
  "writeErrorRetry code msg retryAfterSecs =
     \<lparr>rp_Status = (case httpStatus code of None \<Rightarrow> 500 | Some st \<Rightarrow> st),
      rp_ContentType = Some ''application/json'',
      rp_RetryAfter = (if code = CodeRateLimited
        then Some (int_str (if retryAfterSecs \<le> 0 then 1 else retryAfterSecs)) else None),
      rp_Body = encode_body (error_json code msg)\<rparr>"

definition writeError :: "ErrCode \<Rightarrow> string \<Rightarrow> Response" where
  "writeError code msg = writeErrorRetry code msg 0"

definition controlError :: "ErrCode \<Rightarrow> string \<Rightarrow> bytes" where
  "controlError code channel = marshal (JObj [(''channel'', JStr channel), (''error'', JStr (code_str code))])"

section \<open>Lemmas\<close>

lemma code_str_inj: "code_str a = code_str b \<longleftrightarrow> a = b"
  by (cases a; cases b) simp_all

lemma writeError_status [simp]:
  "rp_Status (writeErrorRetry c m n) = (case httpStatus c of None \<Rightarrow> 500 | Some st \<Rightarrow> st)"
  "rp_Status (writeError c m) = (case httpStatus c of None \<Rightarrow> 500 | Some st \<Rightarrow> st)"
  by (simp_all add: writeError_def writeErrorRetry_def)

text \<open>Apart from the text-only code, a status identifies its code.\<close>

lemma httpStatus_inj: "httpStatus a = Some st \<Longrightarrow> httpStatus b = Some st \<Longrightarrow> a = b"
  by (cases a; cases b) simp_all

lemma wssClose_inj: "wssClose a = Some st \<Longrightarrow> wssClose b = Some st \<Longrightarrow> a = b"
  by (cases a; cases b) simp_all

lemma code_plain: "plain (code_str c)"
  by (cases c) (simp_all add: plain_char_def)

text \<open>A control error reads back as the channel and the code it names.\<close>

lemma controlError_parses:
  assumes "validID ch"
  shows "unmarshal (bytes_str (controlError c ch))
    = Some (JObj [(''channel'', JStr ch), (''error'', JStr (code_str c))])"
proof -
  let ?v = "JObj [(''channel'', JStr ch), (''error'', JStr (code_str c))]"
  have "wf_json ?v" using assms by (simp add: validID_plain code_plain plain_char_def)
  from pvalue_print [OF this, of "[]"] show ?thesis
    by (simp add: controlError_def marshal_def unmarshal_def del: print_json.simps)
qed

end
