(* ===== verification/Config.thy ===== *)
theory Config
  imports Limiter Store Errors
begin

text \<open>
  Configuration: defaults, the contract ceilings \<open>Validate\<close> enforces at boot
  (\<open>internal/relay/config.go\<close>) and the environment loader (\<open>internal/relay/env.go\<close>). A Go
  interface value is the name of its implementation, None for nil. The environment, and the
  two parsers \<open>time.ParseDuration\<close> and \<open>strconv.ParseFloat\<close>, are arguments: nothing that is
  proved depends on how a duration or a float is spelled.
\<close>

section \<open>Limits\<close>

record Limits =
  lt_DeviceFramesPerSec :: f64
  lt_DeviceFramesBurst :: f64
  lt_HostFramesPerSec :: f64
  lt_HostFramesBurst :: f64
  lt_MailboxGetPerMin :: int
  lt_PairingsPerHour :: int
  lt_PairingWindowsPerHour :: int
  lt_PairingAttachesPerWindow :: int
  lt_APNSRegsPerHour :: int
  lt_DeviceAttachPerChannel :: int

text \<open>The two closures \<open>def\<close> and \<open>defi\<close>: zero takes the default, a negative value becomes zero,
  which the limiter reads as unlimited. A NaN is neither, and stays.\<close>

definition float_default :: "f64 \<Rightarrow> f64 \<Rightarrow> f64" where
  "float_default v d = (if f64_eq v (Fin 0) then d else if f64_less v (Fin 0) then Fin 0 else v)"

definition limit_default :: "int \<Rightarrow> int \<Rightarrow> int" where
  "limit_default v d = (if v = 0 then d else if v < 0 then 0 else v)"

definition Limits_applyDefaults :: "Limits \<Rightarrow> Limits" where
  "Limits_applyDefaults l =
     \<lparr>lt_DeviceFramesPerSec = float_default (lt_DeviceFramesPerSec l) (Fin 60),
      lt_DeviceFramesBurst = float_default (lt_DeviceFramesBurst l) (Fin 120),
      lt_HostFramesPerSec = float_default (lt_HostFramesPerSec l) (Fin 200),
      lt_HostFramesBurst = float_default (lt_HostFramesBurst l) (Fin 400),
      lt_MailboxGetPerMin = limit_default (lt_MailboxGetPerMin l) 30,
      lt_PairingsPerHour = limit_default (lt_PairingsPerHour l) 10,
      lt_PairingWindowsPerHour = limit_default (lt_PairingWindowsPerHour l) 20,
      lt_PairingAttachesPerWindow = limit_default (lt_PairingAttachesPerWindow l) 10,
      lt_APNSRegsPerHour = limit_default (lt_APNSRegsPerHour l) 10,
      lt_DeviceAttachPerChannel = limit_default (lt_DeviceAttachPerChannel l) 4\<rparr>"

section \<open>Config\<close>

type_synonym iface = "string option"

record Config =
  cf_Store :: iface
  cf_Validator :: iface
  cf_Clock :: iface
  cf_Logger :: iface
  cf_Pusher :: iface
  cf_Ready :: iface
  cf_MailboxTTL :: duration
  cf_MailboxMaxFrames :: int
  cf_MailboxMaxBytes :: int
  cf_WindowTTL :: duration
  cf_OfflineAfter :: duration
  cf_HeartbeatInterval :: duration
  cf_MaxFrameSize :: int
  cf_MaxHeaderLen :: int
  cf_BindingIdleReap :: duration
  cf_Limits :: Limits

definition DefaultMailboxTTL :: duration where "DefaultMailboxTTL = 15 * minute"
definition DefaultMailboxMaxFrames :: int where "DefaultMailboxMaxFrames = 128"
definition DefaultMailboxMaxBytes :: int where "DefaultMailboxMaxBytes = 4 * 2 ^ 20"
definition DefaultWindowTTL :: duration where "DefaultWindowTTL = 5 * minute"
definition DefaultOfflineAfter :: duration where "DefaultOfflineAfter = 30 * second"
definition DefaultHeartbeatInterval :: duration where "DefaultHeartbeatInterval = 15 * second"
definition DefaultMaxFrameSize :: int where "DefaultMaxFrameSize = 128 * 2 ^ 10"

lemmas config_defaults = DefaultMailboxTTL_def DefaultMailboxMaxFrames_def DefaultMailboxMaxBytes_def
  DefaultWindowTTL_def DefaultOfflineAfter_def DefaultHeartbeatInterval_def DefaultMaxFrameSize_def
  DefaultMaxHeaderLen_def DefaultBindingIdleReap_def

definition or_default :: "int \<Rightarrow> int \<Rightarrow> int" where
  "or_default v d = (if v = 0 then d else v)"

definition or_iface :: "iface \<Rightarrow> string \<Rightarrow> iface" where
  "or_iface v d = (case v of None \<Rightarrow> Some d | Some _ \<Rightarrow> v)"

definition Config_applyDefaults :: "Config \<Rightarrow> Config" where
  "Config_applyDefaults c =
     c\<lparr>cf_Clock := or_iface (cf_Clock c) ''SystemClock'',
       cf_Logger := or_iface (cf_Logger c) ''DiscardHandler'',
       cf_Pusher := or_iface (cf_Pusher c) ''NopPusher'',
       cf_MailboxTTL := or_default (cf_MailboxTTL c) DefaultMailboxTTL,
       cf_MailboxMaxFrames := or_default (cf_MailboxMaxFrames c) DefaultMailboxMaxFrames,
       cf_MailboxMaxBytes := or_default (cf_MailboxMaxBytes c) DefaultMailboxMaxBytes,
       cf_WindowTTL := or_default (cf_WindowTTL c) DefaultWindowTTL,
       cf_OfflineAfter := or_default (cf_OfflineAfter c) DefaultOfflineAfter,
       cf_HeartbeatInterval := or_default (cf_HeartbeatInterval c) DefaultHeartbeatInterval,
       cf_MaxFrameSize := or_default (cf_MaxFrameSize c) DefaultMaxFrameSize,
       cf_MaxHeaderLen := or_default (cf_MaxHeaderLen c) DefaultMaxHeaderLen,
       cf_BindingIdleReap := or_default (cf_BindingIdleReap c) DefaultBindingIdleReap,
       cf_Limits := Limits_applyDefaults (cf_Limits c)\<rparr>"

datatype config_error = ErrNoStore | ErrNoValidator | ErrNotPositive string | ErrAboveCeiling string
  | ErrHeartbeat | ErrMailboxFrames | ErrMailboxBytes | ErrFrameSize | ErrHeaderCap | ErrIdleReap

definition dur_ceiling :: "string \<Rightarrow> duration \<Rightarrow> duration \<Rightarrow> config_error option" where
  "dur_ceiling name got mx = (if got \<le> 0 then Some (ErrNotPositive name)
     else if mx < got then Some (ErrAboveCeiling name) else None)"

definition Validate :: "Config \<Rightarrow> config_error option" where
  "Validate c =
     (if cf_Store c = None then Some ErrNoStore
      else if cf_Validator c = None then Some ErrNoValidator
      else case dur_ceiling ''mailbox TTL'' (cf_MailboxTTL c) DefaultMailboxTTL of Some e \<Rightarrow> Some e | None \<Rightarrow>
      case dur_ceiling ''pairing window TTL'' (cf_WindowTTL c) DefaultWindowTTL of Some e \<Rightarrow> Some e | None \<Rightarrow>
      case dur_ceiling ''presence offline-after'' (cf_OfflineAfter c) DefaultOfflineAfter of Some e \<Rightarrow> Some e | None \<Rightarrow>
      if cf_HeartbeatInterval c \<le> 0 \<or> cf_OfflineAfter c \<le> cf_HeartbeatInterval c then Some ErrHeartbeat
      else if cf_MailboxMaxFrames c \<le> 0 \<or> DefaultMailboxMaxFrames < cf_MailboxMaxFrames c then Some ErrMailboxFrames
      else if cf_MailboxMaxBytes c \<le> 0 \<or> DefaultMailboxMaxBytes < cf_MailboxMaxBytes c then Some ErrMailboxBytes
      else if cf_MaxFrameSize c \<noteq> DefaultMaxFrameSize then Some ErrFrameSize
      else if cf_MaxHeaderLen c \<noteq> DefaultMaxHeaderLen then Some ErrHeaderCap
      else if cf_BindingIdleReap c \<le> 0 then Some ErrIdleReap
      else None)"

definition mailboxPolicy :: "Config \<Rightarrow> MailboxPolicy" where
  "mailboxPolicy c = \<lparr>mp_TTL = cf_MailboxTTL c, mp_MaxFrames = cf_MailboxMaxFrames c, mp_MaxBytes = cf_MailboxMaxBytes c\<rparr>"

section \<open>What a valid configuration guarantees\<close>

definition config_ok :: "Config \<Rightarrow> bool" where
  "config_ok c \<longleftrightarrow> cf_Store c \<noteq> None \<and> cf_Validator c \<noteq> None
     \<and> 0 < cf_MailboxTTL c \<and> cf_MailboxTTL c \<le> 15 * minute
     \<and> 0 < cf_WindowTTL c \<and> cf_WindowTTL c \<le> 5 * minute
     \<and> 0 < cf_HeartbeatInterval c \<and> cf_HeartbeatInterval c < cf_OfflineAfter c \<and> cf_OfflineAfter c \<le> 30 * second
     \<and> 0 < cf_MailboxMaxFrames c \<and> cf_MailboxMaxFrames c \<le> 128
     \<and> 0 < cf_MailboxMaxBytes c \<and> cf_MailboxMaxBytes c \<le> 4194304
     \<and> cf_MaxFrameSize c = 131072 \<and> cf_MaxHeaderLen c = 512 \<and> 0 < cf_BindingIdleReap c"

lemma Validate_iff: "Validate c = None \<longleftrightarrow> config_ok c"
  by (auto simp: Validate_def config_ok_def dur_ceiling_def config_defaults split: option.splits if_splits)

lemma config_ok_pol: "config_ok c \<Longrightarrow> pol_ok (mailboxPolicy c)"
  by (simp add: config_ok_def pol_ok_def mailboxPolicy_def)

lemma limit_default_nonneg: "0 \<le> d \<Longrightarrow> 0 \<le> limit_default v d"
  by (auto simp: limit_default_def)

text \<open>Defaults are applied twice on the way to a running relay, by the loader and by \<open>New\<close>.\<close>

lemma limit_default_twice: "0 < d \<Longrightarrow> limit_default (limit_default v d) d = (if v \<le> 0 then d else v)"
  by (auto simp: limit_default_def)

lemma float_default_twice: "0 < d \<Longrightarrow>
    float_default (float_default v (Fin d)) (Fin d) = (if f64_le v (Fin 0) then Fin d else v)"
  by (cases v) (auto simp: float_default_def)

lemma or_default_idem [simp]: "or_default (or_default v d) d = or_default v d"
  by (simp add: or_default_def)

lemma or_iface_idem [simp]: "or_iface (or_iface v d) d = or_iface v d"
  by (simp add: or_iface_def split: option.splits)

end
