(* ===== verification/Apns.thy ===== *)
theory Apns
  imports Store Frames
begin

text \<open>
  The push payloads of \<open>internal/relay/apns.go\<close>: the closed alert and wake shapes, built only from
  the operator-authored host label, the channel and the sequence number. A payload is a JSON
  value; Go's maps have no order, and an object here lists its keys in the order they are written.
\<close>

record Push =
  pu_DeviceID :: string
  pu_Token :: string
  pu_Env :: string
  pu_Payload :: json

definition LocKeyGeneric :: string where
  "LocKeyGeneric = ''KENAZ_NOTIF_GENERIC''"

definition attentionPayload :: "string option \<Rightarrow> string \<Rightarrow> uint64 \<Rightarrow> json" where
  "attentionPayload hostLabel channel seq =
     (let alert = [(''loc-key'', JStr LocKeyGeneric)]
                  @ (case hostLabel of None \<Rightarrow> [] | Some l \<Rightarrow> [(''loc-args'', JArr [JStr l])])
      in JObj [(''aps'', JObj [(''alert'', JObj alert), (''mutable-content'', JNum ''1''),
                               (''sound'', JStr ''default''), (''thread-id'', JStr channel)]),
               (''ch'', JStr channel), (''sq'', JNum (uint_str seq))])"

definition wakePayload :: "string \<Rightarrow> uint64 \<Rightarrow> json" where
  "wakePayload channel seq =
     JObj [(''aps'', JObj [(''content-available'', JNum ''1'')]),
           (''ch'', JStr channel), (''sq'', JNum (uint_str seq))]"

text \<open>All keys of a value, at every depth, and all its strings.\<close>

fun json_keys :: "json \<Rightarrow> string list" where
  "json_keys (JArr vs) = concat (map json_keys vs)"
| "json_keys (JObj ms) = concat (map (\<lambda>(k, v). k # json_keys v) ms)"
| "json_keys _ = []"

fun json_strings :: "json \<Rightarrow> string list" where
  "json_strings (JStr s) = [s]"
| "json_strings (JArr vs) = concat (map json_strings vs)"
| "json_strings (JObj ms) = concat (map (\<lambda>(k, v). json_strings v) ms)"
| "json_strings _ = []"

definition closed_keys :: "string set" where
  "closed_keys = {''aps'', ''alert'', ''loc-key'', ''loc-args'', ''mutable-content'', ''sound'', ''thread-id'',
                  ''content-available'', ''ch'', ''sq''}"

lemma payload_keys:
  "set (json_keys (attentionPayload l ch q)) \<subseteq> closed_keys" "set (json_keys (wakePayload ch q)) \<subseteq> closed_keys"
  by (cases l; simp add: attentionPayload_def wakePayload_def closed_keys_def)+

lemma payload_strings:
  "set (json_strings (attentionPayload l ch q)) = {LocKeyGeneric, ''default'', ch} \<union> set_option l"
  "set (json_strings (wakePayload ch q)) = {ch}"
  by (cases l; auto simp: attentionPayload_def wakePayload_def)+

end
