(* ===== verification/GoTime.thy ===== *)
theory GoTime
  imports Json
begin

text \<open>
  Formatting of times: \<open>rfc3339\<close> of \<open>internal/relay/presence.go\<close>, with the calendar computation of
  Go's \<open>Time.UTC().Format(time.RFC3339)\<close>. Times count nanoseconds from Go's zero time,
  1 January of year 1, 00:00:00 UTC.
\<close>

definition leap_year :: "int \<Rightarrow> bool" where
  "leap_year y \<longleftrightarrow> y mod 4 = 0 \<and> (y mod 100 \<noteq> 0 \<or> y mod 400 = 0)"

definition month_lengths :: "int \<Rightarrow> int list" where
  "month_lengths y = [31, if leap_year y then 29 else 28, 31, 30, 31, 30, 31, 31, 30, 31, 30, 31]"

text \<open>The month (from 1) and the day in it of a day of the year (from 0).\<close>

fun month_day :: "int list \<Rightarrow> int \<Rightarrow> int \<Rightarrow> int \<times> int" where
  "month_day [] m d = (m, d + 1)"
| "month_day (n # ns) m d = (if d < n then (m, d + 1) else month_day ns (m + 1) (d - n))"

definition civil :: "int \<Rightarrow> int \<times> int \<times> int" where
  "civil days =
     (let n400 = days div 146097; d400 = days mod 146097;
          n100 = min 3 (d400 div 36524); d100 = d400 - n100 * 36524;
          n4 = d100 div 1461; d4 = d100 mod 1461;
          n1 = min 3 (d4 div 365); yday = d4 - n1 * 365;
          year = n400 * 400 + n100 * 100 + n4 * 4 + n1 + 1
      in (year, month_day (month_lengths year) 1 yday))"

text \<open>\<open>appendInt\<close>: zero padded to a width, the sign in front.\<close>

definition pad_int :: "nat \<Rightarrow> int \<Rightarrow> string" where
  "pad_int w i = (let ds = nat_str (nat \<bar>i\<bar>)
     in (if i < 0 then ''-'' else []) @ replicate (w - length ds) (CHR ''0'') @ ds)"

definition format_rfc3339 :: "gotime \<Rightarrow> string" where
  "format_rfc3339 t =
     (let secs = t div 1000000000; (y, m, d) = civil (secs div 86400); s = secs mod 86400
      in pad_int 4 y @ ''-'' @ pad_int 2 m @ ''-'' @ pad_int 2 d @ ''T''
         @ pad_int 2 (s div 3600) @ '':'' @ pad_int 2 (s div 60 mod 60) @ '':'' @ pad_int 2 (s mod 60) @ ''Z'')"

definition rfc3339 :: "gotime \<Rightarrow> string" where
  "rfc3339 t = (if t = 0 then [] else format_rfc3339 t)"

lemma plain_append [simp]: "plain (s @ t) \<longleftrightarrow> plain s \<and> plain t"
  by (simp add: plain_def)

lemma plain_replicate: "plain_char c \<Longrightarrow> plain (replicate n c)"
  by (simp add: plain_def list_all_iff)

lemma nat_str_plain: "plain (nat_str n)"
proof -
  have "plain_char c" if "is_digit c" for c
  proof -
    have "of_char c \<noteq> (34::nat)" "of_char c \<noteq> (92::nat)" "of_char c \<noteq> (60::nat)"
      "of_char c \<noteq> (62::nat)" "of_char c \<noteq> (38::nat)" "32 \<le> (of_char c :: nat)" "(of_char c :: nat) < 128"
      using that by (auto simp: is_digit_def)
    then show ?thesis by (auto simp: plain_char_def)
  qed
  then show ?thesis using nat_str_digits [of n] by (simp add: plain_def list_all_iff)
qed

lemma punct_plain: "plain_char (CHR ''-'')" "plain_char (CHR '':'')" "plain_char (CHR ''T'')"
  "plain_char (CHR ''Z'')" "plain_char (CHR ''0'')"
  by (simp_all add: plain_char_def)

lemma pad_int_plain: "plain (pad_int w i)"
  by (simp add: pad_int_def Let_def nat_str_plain plain_replicate punct_plain)

lemma rfc3339_plain [simp]: "plain (rfc3339 t)"
  by (simp add: rfc3339_def format_rfc3339_def Let_def pad_int_plain punct_plain split: prod.splits)

end
