(* ===== verification/RelayState.thy ===== *)
theory RelayState
  imports Config Apns GoTime
begin

text \<open>
  The live state of a relay (\<open>internal/relay/relay.go\<close>), its WebSocket connections
  (\<open>wsConn\<close> of \<open>internal/relay/ws.go\<close>) and its timers (\<open>internal/relay/clock.go\<close>).

  \<^item> \<open>*wsConn\<close> is a number; \<open>rl_conns\<close> is the heap of connection objects, and the three tables
    \<open>hostConns\<close>, \<open>devConns\<close>, \<open>pairConns\<close> map a key to the list of its connections (Go's
    \<open>map[*wsConn]bool\<close>, a set).
  \<^item> A connection's send channel is the list of messages not yet written, its \<open>closed\<close> channel and
    \<open>closeOnce\<close> the code and reason of the first close.
  \<^item> A timer is a deadline and whether it is armed. A timer that fires leaves its callback in
    \<open>rl_fired\<close>, from where it runs later: the race of a callback with other handlers is in the model.
  \<^item> \<open>rl_now\<close> is what the clock reads, \<open>rl_pushes\<close> what was handed to the pusher, oldest first.
\<close>

section \<open>Connections\<close>

datatype MessageType = MessageText | MessageBinary

record outMsg =
  om_typ :: MessageType
  om_data :: bytes

definition sendQueueDepth :: nat where "sendQueueDepth = 256"

record wsConn =
  wc_role :: string
  wc_sub :: string
  wc_hostID :: string
  wc_channel :: string
  wc_winID :: string
  wc_send :: "outMsg list"
  wc_closed :: "(int \<times> string) option"
  wc_written :: "outMsg list"

definition newWSConn :: wsConn where
  "newWSConn = \<lparr>wc_role = [], wc_sub = [], wc_hostID = [], wc_channel = [], wc_winID = [],
     wc_send = [], wc_closed = None, wc_written = []\<rparr>"

text \<open>
  \<open>enqueue\<close>: a full queue drops the message. On a closed connection Go's \<open>select\<close> may take either
  branch; nothing is written to a closed socket any more, so the model drops the message there.
\<close>

definition enqueue :: "outMsg \<Rightarrow> wsConn \<Rightarrow> wsConn" where
  "enqueue m w = (if wc_closed w \<noteq> None then w
     else if length (wc_send w) < sendQueueDepth then w\<lparr>wc_send := wc_send w @ [m]\<rparr> else w)"

definition sendText :: "bytes \<Rightarrow> wsConn \<Rightarrow> wsConn" where
  "sendText data w = enqueue \<lparr>om_typ = MessageText, om_data = data\<rparr> w"

definition sendBinary :: "bytes \<Rightarrow> wsConn \<Rightarrow> wsConn" where
  "sendBinary data w = enqueue \<lparr>om_typ = MessageBinary, om_data = data\<rparr> w"

definition conn_close :: "int \<Rightarrow> string \<Rightarrow> wsConn \<Rightarrow> wsConn" where
  "conn_close code reason w = (if wc_closed w = None then w\<lparr>wc_closed := Some (code, reason)\<rparr> else w)"

text \<open>One turn of the \<open>writer\<close> goroutine: the oldest queued message goes to the socket.\<close>

definition writer_step :: "wsConn \<Rightarrow> wsConn" where
  "writer_step w = (if wc_closed w \<noteq> None then w else case wc_send w of
     [] \<Rightarrow> w | m # ms \<Rightarrow> w\<lparr>wc_send := ms, wc_written := wc_written w @ [m]\<rparr>)"

section \<open>Timers\<close>

record timer =
  tm_deadline :: gotime
  tm_active :: bool

definition AfterFunc :: "duration \<Rightarrow> gotime \<Rightarrow> timer" where
  "AfterFunc d now = \<lparr>tm_deadline = now + d, tm_active = True\<rparr>"

definition timer_Stop :: "timer \<Rightarrow> timer" where
  "timer_Stop t = t\<lparr>tm_active := False\<rparr>"

definition timer_Reset :: "duration \<Rightarrow> gotime \<Rightarrow> timer \<Rightarrow> timer" where
  "timer_Reset d now t = t\<lparr>tm_deadline := now + d, tm_active := True\<rparr>"

section \<open>The relay\<close>

datatype callback = PresenceDeadline string | ExpireWindow string

record Relay =
  rl_cfg :: Config
  rl_limiter :: limiter
  rl_store :: MemStore
  rl_hostConns :: "(string, nat list) gomap"
  rl_devConns :: "(string, nat list) gomap"
  rl_pairConns :: "(string, nat list) gomap"
  rl_presTimer :: "(string, timer) gomap"
  rl_winTimer :: "(string, timer) gomap"
  rl_closed :: bool
  rl_now :: gotime
  rl_conns :: "(nat, wsConn) gomap"
  rl_next :: nat
  rl_fired :: "callback list"
  rl_pushes :: "Push list"

definition New :: "Config \<Rightarrow> MemStore \<Rightarrow> gotime \<Rightarrow> config_error + Relay" where
  "New cfg store now =
     (let cfg = Config_applyDefaults cfg in
      case Validate cfg of
        Some e \<Rightarrow> Inl e
      | None \<Rightarrow> Inr \<lparr>rl_cfg = cfg, rl_limiter = newLimiter, rl_store = store, rl_hostConns = [],
          rl_devConns = [], rl_pairConns = [], rl_presTimer = [], rl_winTimer = [], rl_closed = False,
          rl_now = now, rl_conns = [], rl_next = 0, rl_fired = [], rl_pushes = []\<rparr>)"

text \<open>\<open>Close\<close> stops and forgets every timer; sockets stay open.\<close>

definition Close :: "Relay \<Rightarrow> Relay" where
  "Close r = (if rl_closed r then r
     else r\<lparr>rl_closed := True, rl_presTimer := [], rl_winTimer := []\<rparr>)"

definition HostOnline :: "string \<Rightarrow> Relay \<Rightarrow> bool" where
  "HostOnline hostID r = (case LookupHostPresence hostID (rl_store r) of None \<Rightarrow> False | Some p \<Rightarrow> hp_Online p)"

section \<open>Access to the tables\<close>

definition conns_of :: "(string, nat list) gomap \<Rightarrow> string \<Rightarrow> nat list" where
  "conns_of t k = (case mget t k of None \<Rightarrow> [] | Some xs \<Rightarrow> xs)"

definition conns_add :: "string \<Rightarrow> nat \<Rightarrow> (string, nat list) gomap \<Rightarrow> (string, nat list) gomap" where
  "conns_add k i t = mput k (if i \<in> set (conns_of t k) then conns_of t k else conns_of t k @ [i]) t"

text \<open>Removing a connection drops a key whose set becomes empty.\<close>

definition conns_del :: "string \<Rightarrow> nat \<Rightarrow> (string, nat list) gomap \<Rightarrow> (string, nat list) gomap" where
  "conns_del k i t = (case mget t k of None \<Rightarrow> t | Some xs \<Rightarrow>
     if removeAll i xs = [] then mdel k t else mput k (removeAll i xs) t)"

definition upd_conn :: "(wsConn \<Rightarrow> wsConn) \<Rightarrow> nat \<Rightarrow> Relay \<Rightarrow> Relay" where
  "upd_conn f i r = (case mget (rl_conns r) i of None \<Rightarrow> r | Some w \<Rightarrow> r\<lparr>rl_conns := mput i (f w) (rl_conns r)\<rparr>)"

definition upd_conns :: "(wsConn \<Rightarrow> wsConn) \<Rightarrow> nat list \<Rightarrow> Relay \<Rightarrow> Relay" where
  "upd_conns f is r = fold (upd_conn f) is r"

definition upd_store :: "(MemStore \<Rightarrow> MemStore) \<Rightarrow> Relay \<Rightarrow> Relay" where
  "upd_store f r = r\<lparr>rl_store := f (rl_store r)\<rparr>"

text \<open>The limiter call of the handlers, at the relay's clock.\<close>

definition rl_allow :: "string \<Rightarrow> f64 \<Rightarrow> f64 \<Rightarrow> Relay \<Rightarrow> bool \<times> Relay" where
  "rl_allow key rate burst r =
     (let (ok, l) = allow key rate burst (rl_now r) (rl_limiter r) in (ok, r\<lparr>rl_limiter := l\<rparr>))"

end
