(* ===== verification/Presence.thy ===== *)
theory Presence
  imports RelayState
begin

text \<open>
  Presence (\<open>internal/relay/presence.go\<close>): the two control messages, host liveness with its offline
  deadline, and device attachment transitions.
\<close>

section \<open>Messages\<close>

record presenceMsg =
  pm_HostID :: string
  pm_Online :: bool
  pm_LastSeen :: string

record devPresenceMsg =
  dm_Presence :: string
  dm_Channel :: string
  dm_Attached :: bool
  dm_LastSeen :: string

definition hostPresenceJSON :: "HostPresence \<Rightarrow> bytes" where
  "hostPresenceJSON p =
     (let m = \<lparr>pm_HostID = hp_HostID p, pm_Online = hp_Online p, pm_LastSeen = rfc3339 (hp_LastSeen p)\<rparr>
      in marshal (JObj [(''host_id'', JStr (pm_HostID m)), (''online'', JBool (pm_Online m)),
                        (''last_seen'', JStr (pm_LastSeen m))]))"

definition devPresenceJSON :: "DevicePresence \<Rightarrow> bytes" where
  "devPresenceJSON p =
     (let m = \<lparr>dm_Presence = ''device'', dm_Channel = dp_ChannelID p, dm_Attached = dp_Attached p,
               dm_LastSeen = rfc3339 (dp_LastSeen p)\<rparr>
      in marshal (JObj [(''presence'', JStr (dm_Presence m)), (''channel'', JStr (dm_Channel m)),
                        (''attached'', JBool (dm_Attached m)), (''last_seen'', JStr (dm_LastSeen m))]))"

section \<open>Operations\<close>

definition host_devices :: "string \<Rightarrow> Relay \<Rightarrow> nat list" where
  "host_devices h r = concat (map (\<lambda>pr. conns_of (rl_devConns r) (pr_ChannelID pr)) (PairingsForHost h (rl_store r)))"

definition broadcastHostPresence :: "HostPresence \<Rightarrow> Relay \<Rightarrow> Relay" where
  "broadcastHostPresence p r = upd_conns (sendText (hostPresenceJSON p)) (host_devices (hp_HostID p) r) r"

definition touchHost :: "string \<Rightarrow> Relay \<Rightarrow> Relay" where
  "touchHost hostID r =
     (let now = rl_now r;
          p = (case LookupHostPresence hostID (rl_store r) of
                 None \<Rightarrow> \<lparr>hp_HostID = hostID, hp_Online = False, hp_LastSeen = 0\<rparr> | Some p \<Rightarrow> p);
          flipped = (\<not> hp_Online p);
          p = p\<lparr>hp_LastSeen := now, hp_Online := True\<rparr>;
          r = upd_store (PutHostPresence p) r;
          r = (if flipped then broadcastHostPresence p r else r)
      in if rl_closed r then r
         else case mget (rl_presTimer r) hostID of
                Some t \<Rightarrow> r\<lparr>rl_presTimer := mput hostID (timer_Reset (cf_OfflineAfter (rl_cfg r)) now t) (rl_presTimer r)\<rparr>
              | None \<Rightarrow> r\<lparr>rl_presTimer := mput hostID (AfterFunc (cf_OfflineAfter (rl_cfg r)) now) (rl_presTimer r)\<rparr>)"

definition presenceDeadline :: "string \<Rightarrow> Relay \<Rightarrow> Relay" where
  "presenceDeadline hostID r =
     (case LookupHostPresence hostID (rl_store r) of
        None \<Rightarrow> r
      | Some p \<Rightarrow>
          let silent = time_sub (rl_now r) (hp_LastSeen p) in
          if silent < cf_OfflineAfter (rl_cfg r) then
            (case mget (rl_presTimer r) hostID of
               Some t \<Rightarrow> if \<not> rl_closed r
                 then r\<lparr>rl_presTimer := mput hostID (timer_Reset (cf_OfflineAfter (rl_cfg r) - silent) (rl_now r) t)
                          (rl_presTimer r)\<rparr>
                 else r
             | None \<Rightarrow> r)
          else if \<not> hp_Online p then r
          else let p = p\<lparr>hp_Online := False\<rparr> in
               broadcastHostPresence p (upd_store (PutHostPresence p) r))"

definition setDeviceAttached :: "string \<Rightarrow> bool \<Rightarrow> Relay \<Rightarrow> Relay" where
  "setDeviceAttached channelID attached r =
     (let p = (case LookupDevicePresence channelID (rl_store r) of
                 None \<Rightarrow> \<lparr>dp_ChannelID = channelID, dp_Attached = False, dp_LastSeen = 0\<rparr> | Some p \<Rightarrow> p);
          changed = (dp_Attached p \<noteq> attached);
          p = p\<lparr>dp_Attached := attached, dp_LastSeen := rl_now r\<rparr>;
          r = upd_store (PutDevicePresence p) r
      in if \<not> changed then r
         else case PairingByChannel channelID (rl_store r) of
                None \<Rightarrow> r
              | Some pr \<Rightarrow> upd_conns (sendText (devPresenceJSON p)) (conns_of (rl_hostConns r) (pr_HostID pr)) r)"

definition deviceAttachedNow :: "string \<Rightarrow> Relay \<Rightarrow> bool" where
  "deviceAttachedNow channelID r \<longleftrightarrow> 0 < length (conns_of (rl_devConns r) channelID)"

section \<open>Frame lemmas\<close>

text \<open>Updating connections touches the connection heap and nothing else.\<close>

lemma upd_conn_frame [simp]:
  "rl_cfg (upd_conn f i r) = rl_cfg r" "rl_limiter (upd_conn f i r) = rl_limiter r"
  "rl_store (upd_conn f i r) = rl_store r" "rl_hostConns (upd_conn f i r) = rl_hostConns r"
  "rl_devConns (upd_conn f i r) = rl_devConns r" "rl_pairConns (upd_conn f i r) = rl_pairConns r"
  "rl_presTimer (upd_conn f i r) = rl_presTimer r" "rl_winTimer (upd_conn f i r) = rl_winTimer r"
  "rl_closed (upd_conn f i r) = rl_closed r" "rl_now (upd_conn f i r) = rl_now r"
  "rl_next (upd_conn f i r) = rl_next r" "rl_fired (upd_conn f i r) = rl_fired r"
  "rl_pushes (upd_conn f i r) = rl_pushes r"
  by (simp_all add: upd_conn_def split: option.splits)

lemma upd_conns_frame [simp]:
  "rl_cfg (upd_conns f is r) = rl_cfg r" "rl_limiter (upd_conns f is r) = rl_limiter r"
  "rl_store (upd_conns f is r) = rl_store r" "rl_hostConns (upd_conns f is r) = rl_hostConns r"
  "rl_devConns (upd_conns f is r) = rl_devConns r" "rl_pairConns (upd_conns f is r) = rl_pairConns r"
  "rl_presTimer (upd_conns f is r) = rl_presTimer r" "rl_winTimer (upd_conns f is r) = rl_winTimer r"
  "rl_closed (upd_conns f is r) = rl_closed r" "rl_now (upd_conns f is r) = rl_now r"
  "rl_next (upd_conns f is r) = rl_next r" "rl_fired (upd_conns f is r) = rl_fired r"
  "rl_pushes (upd_conns f is r) = rl_pushes r"
  by (induction "is" arbitrary: r; simp add: upd_conns_def)+

lemma upd_conn_get [simp]:
  "mget (rl_conns (upd_conn f i r)) j = (if j = i then map_option f (mget (rl_conns r) i) else mget (rl_conns r) j)"
  by (simp add: upd_conn_def split: option.splits)

lemma upd_conns_get:
  "distinct is \<Longrightarrow> mget (rl_conns (upd_conns f is r)) j =
     (if j \<in> set is then map_option f (mget (rl_conns r) j) else mget (rl_conns r) j)"
  by (induction "is" arbitrary: r) (auto simp: upd_conns_def)

text \<open>Whatever the list, an update that keeps a property of a connection keeps it.\<close>

lemma upd_conns_get_Some:
  assumes "mget (rl_conns r) j = Some w"
  shows "\<exists>n. mget (rl_conns (upd_conns f is r)) j = Some ((f ^^ n) w) \<and> (n = 0 \<longleftrightarrow> j \<notin> set is)"
  using assms
proof (induction "is" arbitrary: r w)
  case Nil
  then show ?case by (auto simp: upd_conns_def intro!: exI [of _ 0])
next
  case (Cons i "is")
  show ?case
  proof (cases "j = i")
    case True
    then have "mget (rl_conns (upd_conn f i r)) j = Some (f w)" using Cons.prems by simp
    from Cons.IH [OF this] obtain n where
      "mget (rl_conns (upd_conns f is (upd_conn f i r))) j = Some ((f ^^ n) (f w))" by blast
    then show ?thesis using True
      by (intro exI [of _ "Suc n"]) (simp add: upd_conns_def funpow_swap1)
  next
    case False
    then have "mget (rl_conns (upd_conn f i r)) j = Some w" using Cons.prems by simp
    from Cons.IH [OF this] False show ?thesis by (auto simp: upd_conns_def)
  qed
qed

lemma upd_store_frame [simp]:
  "rl_cfg (upd_store g r) = rl_cfg r" "rl_limiter (upd_store g r) = rl_limiter r"
  "rl_store (upd_store g r) = g (rl_store r)" "rl_hostConns (upd_store g r) = rl_hostConns r"
  "rl_devConns (upd_store g r) = rl_devConns r" "rl_pairConns (upd_store g r) = rl_pairConns r"
  "rl_presTimer (upd_store g r) = rl_presTimer r" "rl_winTimer (upd_store g r) = rl_winTimer r"
  "rl_closed (upd_store g r) = rl_closed r" "rl_now (upd_store g r) = rl_now r"
  "rl_conns (upd_store g r) = rl_conns r" "rl_next (upd_store g r) = rl_next r"
  "rl_fired (upd_store g r) = rl_fired r" "rl_pushes (upd_store g r) = rl_pushes r"
  by (simp_all add: upd_store_def)

lemma broadcast_frame [simp]:
  "rl_cfg (broadcastHostPresence p r) = rl_cfg r" "rl_limiter (broadcastHostPresence p r) = rl_limiter r"
  "rl_store (broadcastHostPresence p r) = rl_store r" "rl_hostConns (broadcastHostPresence p r) = rl_hostConns r"
  "rl_devConns (broadcastHostPresence p r) = rl_devConns r" "rl_pairConns (broadcastHostPresence p r) = rl_pairConns r"
  "rl_presTimer (broadcastHostPresence p r) = rl_presTimer r" "rl_winTimer (broadcastHostPresence p r) = rl_winTimer r"
  "rl_closed (broadcastHostPresence p r) = rl_closed r" "rl_now (broadcastHostPresence p r) = rl_now r"
  "rl_next (broadcastHostPresence p r) = rl_next r" "rl_fired (broadcastHostPresence p r) = rl_fired r"
  "rl_pushes (broadcastHostPresence p r) = rl_pushes r"
  by (simp_all add: broadcastHostPresence_def)

lemma touchHost_frame [simp]:
  "rl_cfg (touchHost h r) = rl_cfg r" "rl_limiter (touchHost h r) = rl_limiter r"
  "rl_hostConns (touchHost h r) = rl_hostConns r" "rl_devConns (touchHost h r) = rl_devConns r"
  "rl_pairConns (touchHost h r) = rl_pairConns r" "rl_winTimer (touchHost h r) = rl_winTimer r"
  "rl_closed (touchHost h r) = rl_closed r" "rl_now (touchHost h r) = rl_now r"
  "rl_next (touchHost h r) = rl_next r" "rl_fired (touchHost h r) = rl_fired r"
  "rl_pushes (touchHost h r) = rl_pushes r"
  by (simp_all add: touchHost_def Let_def split: option.splits)

lemma presenceDeadline_frame [simp]:
  "rl_cfg (presenceDeadline h r) = rl_cfg r" "rl_limiter (presenceDeadline h r) = rl_limiter r"
  "rl_hostConns (presenceDeadline h r) = rl_hostConns r" "rl_devConns (presenceDeadline h r) = rl_devConns r"
  "rl_pairConns (presenceDeadline h r) = rl_pairConns r" "rl_winTimer (presenceDeadline h r) = rl_winTimer r"
  "rl_closed (presenceDeadline h r) = rl_closed r" "rl_now (presenceDeadline h r) = rl_now r"
  "rl_next (presenceDeadline h r) = rl_next r" "rl_fired (presenceDeadline h r) = rl_fired r"
  "rl_pushes (presenceDeadline h r) = rl_pushes r"
  by (simp_all add: presenceDeadline_def Let_def split: option.splits)

lemma setDeviceAttached_frame [simp]:
  "rl_cfg (setDeviceAttached c a r) = rl_cfg r" "rl_limiter (setDeviceAttached c a r) = rl_limiter r"
  "rl_hostConns (setDeviceAttached c a r) = rl_hostConns r" "rl_devConns (setDeviceAttached c a r) = rl_devConns r"
  "rl_pairConns (setDeviceAttached c a r) = rl_pairConns r" "rl_presTimer (setDeviceAttached c a r) = rl_presTimer r"
  "rl_winTimer (setDeviceAttached c a r) = rl_winTimer r"
  "rl_closed (setDeviceAttached c a r) = rl_closed r" "rl_now (setDeviceAttached c a r) = rl_now r"
  "rl_next (setDeviceAttached c a r) = rl_next r" "rl_fired (setDeviceAttached c a r) = rl_fired r"
  "rl_pushes (setDeviceAttached c a r) = rl_pushes r"
  by (simp_all add: setDeviceAttached_def Let_def split: option.splits)

section \<open>What the operations do to the store\<close>

definition host_presence :: "string \<Rightarrow> Relay \<Rightarrow> HostPresence" where
  "host_presence h r = (case LookupHostPresence h (rl_store r) of
     None \<Rightarrow> \<lparr>hp_HostID = h, hp_Online = False, hp_LastSeen = 0\<rparr> | Some p \<Rightarrow> p)"

lemma touchHost_store: "rl_store (touchHost h r) =
    PutHostPresence ((host_presence h r)\<lparr>hp_LastSeen := rl_now r, hp_Online := True\<rparr>) (rl_store r)"
  by (simp add: touchHost_def host_presence_def Let_def split: option.splits)

lemma touchHost_timer: "\<not> rl_closed r \<Longrightarrow> mget (rl_presTimer (touchHost h r)) h =
    Some \<lparr>tm_deadline = rl_now r + cf_OfflineAfter (rl_cfg r), tm_active = True\<rparr>"
  by (simp add: touchHost_def Let_def AfterFunc_def timer_Reset_def split: option.splits)

lemma touchHost_timer_other: "h' \<noteq> h \<Longrightarrow> mget (rl_presTimer (touchHost h r)) h' = mget (rl_presTimer r) h'"
  by (simp add: touchHost_def Let_def split: option.splits)

lemma store_inv_touchHost [simp]: "store_inv (rl_store r) \<Longrightarrow> store_inv (rl_store (touchHost h r))"
  by (simp add: touchHost_store)

lemma store_inv_presenceDeadline [simp]: "store_inv (rl_store r) \<Longrightarrow> store_inv (rl_store (presenceDeadline h r))"
  by (simp add: presenceDeadline_def Let_def split: option.splits)

lemma store_inv_setDeviceAttached [simp]: "store_inv (rl_store r) \<Longrightarrow> store_inv (rl_store (setDeviceAttached c a r))"
  by (simp add: setDeviceAttached_def Let_def split: option.splits)

end
