(* ===== verification/Auth.thy ===== *)
theory Auth
  imports RelayState
begin

text \<open>
  Authentication and authorisation of requests (\<open>internal/relay/authz.go\<close>). A request is what the
  handlers read of it: the parsed query (\<open>url.Values\<close>, in order), the Authorization header, the
  path value and the body. The token validator is an argument: it answers with a subject, or with
  one of the two kinds of refusal the seam distinguishes.
\<close>

record Request =
  rq_query :: "(string \<times> string) list"
  rq_auth :: string
  rq_pathID :: string
  rq_body :: bytes

definition q_Has :: "Request \<Rightarrow> string \<Rightarrow> bool" where
  "q_Has req k \<longleftrightarrow> k \<in> set (map fst (rq_query req))"

definition q_Get :: "Request \<Rightarrow> string \<Rightarrow> string" where
  "q_Get req k = (case map_of (rq_query req) k of None \<Rightarrow> [] | Some v \<Rightarrow> v)"

datatype token_error = ErrTokenUnavailable | TokenNotAccepted

type_synonym validator = "string \<Rightarrow> token_error + string"

text \<open>The validator of the test harnesses.\<close>

definition TestOnlySubjectValidator :: "string \<Rightarrow> validator" where
  "TestOnlySubjectValidator pre token =
     (let prefix = (if pre = [] then ''fake-'' else pre) in
      case strip prefix token of
        None \<Rightarrow> Inl TokenNotAccepted
      | Some sub \<Rightarrow> if sub = [] then Inl TokenNotAccepted else Inr sub)"

definition tokenQueryParams :: "string list" where
  "tokenQueryParams = [''token'', ''access_token'', ''authorization'', ''bearer'', ''jwt'', ''id_token'']"

definition bearerSub :: "validator \<Rightarrow> Request \<Rightarrow> ErrCode + string" where
  "bearerSub va req =
     (if list_ex (q_Has req) tokenQueryParams then Inl CodeUnauthenticated
      else case strip ''Bearer '' (rq_auth req) of
             None \<Rightarrow> Inl CodeUnauthenticated
           | Some tok \<Rightarrow>
               if tok = [] then Inl CodeUnauthenticated
               else case va tok of
                      Inl ErrTokenUnavailable \<Rightarrow> Inl CodeAuthUnavailable
                    | Inl TokenNotAccepted \<Rightarrow> Inl CodeUnauthenticated
                    | Inr sub \<Rightarrow> Inr sub)"

definition authorizeChannel :: "string \<Rightarrow> string \<Rightarrow> Relay \<Rightarrow> ErrCode + Pairing" where
  "authorizeChannel channelID sub r =
     (case PairingByChannel channelID (rl_store r) of
        None \<Rightarrow> Inl CodeNotFound
      | Some pr \<Rightarrow> if pr_AccountSub pr \<noteq> sub then Inl CodeForbidden else Inr pr)"

text \<open>Reading a binding may reap it, so the check returns the relay too; None is success.\<close>

definition authorizeHostID :: "string \<Rightarrow> string \<Rightarrow> Relay \<Rightarrow> ErrCode option \<times> Relay" where
  "authorizeHostID hostID sub r =
     (let (b, s) = LookupBinding hostID (rl_now r) (rl_store r); r = r\<lparr>rl_store := s\<rparr> in
      case b of
        None \<Rightarrow> (Some CodeForbidden, r)
      | Some b \<Rightarrow> if bd_AccountSub b \<noteq> sub then (Some CodeForbidden, r) else (None, r))"

section \<open>Lemmas\<close>

lemma bearerSub_iff:
  "bearerSub va req = Inr sub \<longleftrightarrow>
     (\<forall>p \<in> set tokenQueryParams. \<not> q_Has req p)
     \<and> (\<exists>tok. rq_auth req = ''Bearer '' @ tok \<and> tok \<noteq> [] \<and> va tok = Inr sub)"
proof -
  have st: "(\<exists>tok. rq_auth req = ''Bearer '' @ tok \<and> P tok) \<longleftrightarrow>
      (case strip ''Bearer '' (rq_auth req) of None \<Rightarrow> False | Some tok \<Rightarrow> P tok)" for P
    unfolding strip_iff [symmetric] by (simp split: option.splits)
  show ?thesis
    unfolding st bearerSub_def list_ex_iff
    by (simp split: option.splits sum.splits token_error.splits)
qed

text \<open>A request is authenticated only by a non-empty bearer token in the Authorization header
  that the validator accepts, and never when any of the token query parameters is present, not
  even beside a valid header. A validator that cannot reach its keys is answered with
  \<open>auth_unavailable\<close>, never with an identity.\<close>

theorem bearerSub_sound:
  "(bearerSub va req = Inr sub \<longleftrightarrow>
     (\<forall>p \<in> set tokenQueryParams. \<not> q_Has req p)
     \<and> (\<exists>tok. rq_auth req = ''Bearer '' @ tok \<and> tok \<noteq> [] \<and> va tok = Inr sub))
   \<and> (bearerSub va req = Inl CodeAuthUnavailable \<longrightarrow>
       (\<exists>tok. rq_auth req = ''Bearer '' @ tok \<and> va tok = Inl ErrTokenUnavailable))"
proof
  show "bearerSub va req = Inl CodeAuthUnavailable \<longrightarrow>
       (\<exists>tok. rq_auth req = ''Bearer '' @ tok \<and> va tok = Inl ErrTokenUnavailable)"
    by (auto simp: bearerSub_def strip_iff split: option.splits sum.splits token_error.splits if_splits)
qed (rule bearerSub_iff)

definition ex_request :: Request where
  "ex_request = \<lparr>rq_query = [(''host_id'', b64_encode (replicate 16 1))], rq_auth = ''Bearer fake-alice'',
     rq_pathID = [], rq_body = []\<rparr>"

lemma ex_request_sub: "bearerSub (TestOnlySubjectValidator []) ex_request = Inr ''alice''"
  by (simp add: bearerSub_def ex_request_def tokenQueryParams_def q_Has_def strip_def TestOnlySubjectValidator_def)

theorem bearerSub_sound_witness:
  "bearerSub (TestOnlySubjectValidator []) ex_request = Inr ''alice''
   \<and> \<not> q_Has ex_request ''token''
   \<and> bearerSub (TestOnlySubjectValidator []) (ex_request\<lparr>rq_query := [(''token'', [])]\<rparr>) \<noteq> Inr ''alice''"
proof (intro conjI)
  show "\<not> q_Has ex_request ''token''"
    using bearerSub_sound [of "TestOnlySubjectValidator []" ex_request "''alice''"] ex_request_sub
    by (simp add: tokenQueryParams_def)
  have "q_Has (ex_request\<lparr>rq_query := [(''token'', [])]\<rparr>) ''token''" by (simp add: q_Has_def)
  then show "bearerSub (TestOnlySubjectValidator []) (ex_request\<lparr>rq_query := [(''token'', [])]\<rparr>) \<noteq> Inr ''alice''"
    using bearerSub_sound [of "TestOnlySubjectValidator []" "ex_request\<lparr>rq_query := [(''token'', [])]\<rparr>" "''alice''"]
    by (auto simp: tokenQueryParams_def)
qed (rule ex_request_sub)

lemma authorizeChannel_iff: "authorizeChannel c sub r = Inr pr \<longleftrightarrow>
    PairingByChannel c (rl_store r) = Some pr \<and> pr_AccountSub pr = sub"
  by (auto simp: authorizeChannel_def split: option.splits)

lemma authorizeHostID_iff: "fst (authorizeHostID h sub r) = None \<longleftrightarrow> live_account h (rl_now r) (rl_store r) = Some sub"
  by (auto simp: authorizeHostID_def LookupBinding_def live_account_def Let_def split: option.splits prod.splits)

lemma authorizeHostID_frame [simp]:
  "rl_cfg (snd (authorizeHostID h sub r)) = rl_cfg r" "rl_limiter (snd (authorizeHostID h sub r)) = rl_limiter r"
  "rl_store (snd (authorizeHostID h sub r)) = snd (LookupBinding h (rl_now r) (rl_store r))"
  "rl_hostConns (snd (authorizeHostID h sub r)) = rl_hostConns r"
  "rl_devConns (snd (authorizeHostID h sub r)) = rl_devConns r"
  "rl_pairConns (snd (authorizeHostID h sub r)) = rl_pairConns r"
  "rl_presTimer (snd (authorizeHostID h sub r)) = rl_presTimer r"
  "rl_winTimer (snd (authorizeHostID h sub r)) = rl_winTimer r"
  "rl_closed (snd (authorizeHostID h sub r)) = rl_closed r" "rl_now (snd (authorizeHostID h sub r)) = rl_now r"
  "rl_conns (snd (authorizeHostID h sub r)) = rl_conns r" "rl_next (snd (authorizeHostID h sub r)) = rl_next r"
  "rl_fired (snd (authorizeHostID h sub r)) = rl_fired r" "rl_pushes (snd (authorizeHostID h sub r)) = rl_pushes r"
  by (simp_all add: authorizeHostID_def Let_def split: option.splits prod.splits)

lemma rl_allow_frame [simp]:
  "rl_cfg (snd (rl_allow k ra b r)) = rl_cfg r" "rl_store (snd (rl_allow k ra b r)) = rl_store r"
  "rl_hostConns (snd (rl_allow k ra b r)) = rl_hostConns r" "rl_devConns (snd (rl_allow k ra b r)) = rl_devConns r"
  "rl_pairConns (snd (rl_allow k ra b r)) = rl_pairConns r" "rl_presTimer (snd (rl_allow k ra b r)) = rl_presTimer r"
  "rl_winTimer (snd (rl_allow k ra b r)) = rl_winTimer r" "rl_closed (snd (rl_allow k ra b r)) = rl_closed r"
  "rl_now (snd (rl_allow k ra b r)) = rl_now r" "rl_conns (snd (rl_allow k ra b r)) = rl_conns r"
  "rl_next (snd (rl_allow k ra b r)) = rl_next r" "rl_fired (snd (rl_allow k ra b r)) = rl_fired r"
  "rl_pushes (snd (rl_allow k ra b r)) = rl_pushes r"
  by (simp_all add: rl_allow_def split: prod.splits)

lemma rl_allow_result:
  assumes "rl_allow k ra b r = (ok, r1)"
  shows "rl_cfg r1 = rl_cfg r" "rl_store r1 = rl_store r" "rl_hostConns r1 = rl_hostConns r"
    "rl_devConns r1 = rl_devConns r" "rl_pairConns r1 = rl_pairConns r" "rl_presTimer r1 = rl_presTimer r"
    "rl_winTimer r1 = rl_winTimer r" "rl_closed r1 = rl_closed r" "rl_now r1 = rl_now r"
    "rl_conns r1 = rl_conns r" "rl_next r1 = rl_next r" "rl_fired r1 = rl_fired r" "rl_pushes r1 = rl_pushes r"
  using rl_allow_frame [of k ra b r] unfolding assms snd_conv .

end
