(* ===== verification/Handlers.thy ===== *)
theory Handlers
  imports Presence Auth
begin

text \<open>
  The REST surface (\<open>internal/relay/handler.go\<close>). Each handler is one definition from the request
  and the relay to the response and the relay, its early returns in the order of the code. The
  identifiers \<open>NewID\<close> draws are arguments, in the order they are drawn. The branches for store
  errors other than the two sentinels are absent: \<open>MemStore\<close> never returns one.
\<close>

section \<open>Request bodies\<close>

definition maxRequestBody :: nat where "maxRequestBody = 8192"

definition decodeJSON :: "Request \<Rightarrow> (json \<Rightarrow> 'a option) \<Rightarrow> 'a option" where
  "decodeJSON req dst =
     (case decode_first (bytes_str (take maxRequestBody (rq_body req))) of
        None \<Rightarrow> None
      | Some (v, rest) \<Rightarrow>
          (case dst v of None \<Rightarrow> None | Some x \<Rightarrow> if dec_more rest then None else Some x))"

text \<open>The anonymous body structs of the handlers.\<close>

definition window_field :: "string option \<Rightarrow> json \<Rightarrow> string \<Rightarrow> string option" where
  "window_field f v h = (if f = Some ''host_id'' then into_string v h else None)"

definition window_body :: "json \<Rightarrow> string option" where
  "window_body v = into_struct [''host_id''] window_field v []"

record pairing_req =
  pq_ChannelID :: string
  pq_HostID :: string
  pq_DeviceID :: string
  pq_HostLabel :: "string option"

definition pairing_field :: "string option \<Rightarrow> json \<Rightarrow> pairing_req \<Rightarrow> pairing_req option" where
  "pairing_field f v b =
     (if f = Some ''channel_id'' then map_option (\<lambda>x. b\<lparr>pq_ChannelID := x\<rparr>) (into_string v (pq_ChannelID b))
      else if f = Some ''host_id'' then map_option (\<lambda>x. b\<lparr>pq_HostID := x\<rparr>) (into_string v (pq_HostID b))
      else if f = Some ''device_id'' then map_option (\<lambda>x. b\<lparr>pq_DeviceID := x\<rparr>) (into_string v (pq_DeviceID b))
      else if f = Some ''host_label'' then map_option (\<lambda>x. b\<lparr>pq_HostLabel := x\<rparr>) (into_string_ptr v)
      else None)"

definition pairing_body :: "json \<Rightarrow> pairing_req option" where
  "pairing_body v = into_struct [''channel_id'', ''host_id'', ''device_id'', ''host_label''] pairing_field v
     \<lparr>pq_ChannelID = [], pq_HostID = [], pq_DeviceID = [], pq_HostLabel = None\<rparr>"

definition apns_field :: "string option \<Rightarrow> json \<Rightarrow> string \<times> string \<Rightarrow> (string \<times> string) option" where
  "apns_field f v b =
     (if f = Some ''token'' then map_option (\<lambda>x. (x, snd b)) (into_string v (fst b))
      else if f = Some ''env'' then map_option (\<lambda>x. (fst b, x)) (into_string v (snd b))
      else None)"

definition apns_body :: "json \<Rightarrow> (string \<times> string) option" where
  "apns_body v = into_struct [''token'', ''env''] apns_field v ([], [])"

text \<open>\<open>map[string]json.RawMessage\<close>: keys as they are, the last of two duplicates.\<close>

definition raw_body :: "json \<Rightarrow> (string, json) gomap option" where
  "raw_body v = (case v of JNull \<Rightarrow> Some [] | JObj ms \<Rightarrow> Some (fold (\<lambda>(k, x) m. mput k x m) ms []) | _ \<Rightarrow> None)"

definition bearer_msg :: string where "bearer_msg = ''invalid or missing bearer token''"

definition window_msg :: string where
  "window_msg = ''body must be {'' @ [CHR 0x22] @ ''host_id'' @ [CHR 0x22, CHR '':'', CHR 0x22]
     @ ''<22ch base64url>'' @ [CHR 0x22] @ ''}''"

definition no_content :: Response where
  "no_content = \<lparr>rp_Status = 204, rp_ContentType = None, rp_RetryAfter = None, rp_Body = []\<rparr>"

definition json_response :: "int \<Rightarrow> json \<Rightarrow> Response" where
  "json_response st v = \<lparr>rp_Status = st, rp_ContentType = Some ''application/json'', rp_RetryAfter = None,
     rp_Body = encode_body v\<rparr>"

definition text_response :: "int \<Rightarrow> string \<Rightarrow> Response" where
  "text_response st s = \<lparr>rp_Status = st, rp_ContentType = Some ''text/plain; charset=utf-8'', rp_RetryAfter = None,
     rp_Body = str_bytes s\<rparr>"

section \<open>Health\<close>

text \<open>The argument is what the optional readiness dependency answered, None when there is none.\<close>

definition handleReadyz :: "bool option \<Rightarrow> Response" where
  "handleReadyz ready = (case ready of Some False \<Rightarrow> text_response 503 ''not ready'' | _ \<Rightarrow> text_response 200 ''ok'')"

section \<open>Pairing windows\<close>

definition tearDownWindow :: "string \<Rightarrow> Relay \<Rightarrow> Relay" where
  "tearDownWindow wid r =
     (let conns = conns_of (rl_pairConns r) wid;
          r = r\<lparr>rl_winTimer := mdel wid (rl_winTimer r), rl_pairConns := mdel wid (rl_pairConns r)\<rparr>
      in upd_conns (conn_close (close_code CodeWindowClosed) (code_str CodeWindowClosed)) conns r)"

definition expireWindow :: "string \<Rightarrow> Relay \<Rightarrow> Relay" where
  "expireWindow wid r =
     (case DeleteWindow wid (rl_store r) of
        (None, s) \<Rightarrow> r\<lparr>rl_store := s\<rparr>
      | (Some _, s) \<Rightarrow> tearDownWindow wid (r\<lparr>rl_store := s\<rparr>))"

definition handleOpenWindow :: "validator \<Rightarrow> Request \<Rightarrow> string \<Rightarrow> string \<Rightarrow> Relay \<Rightarrow> Response \<times> Relay" where
  "handleOpenWindow va req id1 id2 r =
     (case bearerSub va req of
        Inl ec \<Rightarrow> (writeError ec bearer_msg, r)
      | Inr sub \<Rightarrow>
     (case decodeJSON req window_body of
        None \<Rightarrow> (writeError CodeProtocolViolation window_msg, r)
      | Some hostID \<Rightarrow>
      if \<not> validID hostID
      then (writeError CodeProtocolViolation window_msg, r)
      else
        let (rate, burst) = perHour (lt_PairingWindowsPerHour (cf_Limits (rl_cfg r)));
            (ok, r) = rl_allow (''windows:'' @ hostID) rate burst r
        in if \<not> ok then (writeErrorRetry CodeRateLimited ''pairing-window limit'' 3600, r)
           else case authorizeHostID hostID sub r of
             (Some ec, r) \<Rightarrow> (writeError ec ''host_id is not bound to this account'', r)
           | (None, r) \<Rightarrow>
               let win = \<lparr>wd_WindowID = id1, wd_HostID = hostID, wd_ProvisionalChannel = id2,
                          wd_ExpiresAt = rl_now r + cf_WindowTTL (rl_cfg r), wd_Attaches = 0\<rparr>;
                   (displaced, s) = OpenWindow win (rl_store r);
                   r = r\<lparr>rl_store := s\<rparr>;
                   r = (case displaced of None \<Rightarrow> r | Some w \<Rightarrow> tearDownWindow (wd_WindowID w) r);
                   r = (if rl_closed r then r
                        else r\<lparr>rl_winTimer := mput id1 (AfterFunc (cf_WindowTTL (rl_cfg r)) (rl_now r)) (rl_winTimer r)\<rparr>)
               in (json_response 201 (JObj [(''expires_at'', JStr (format_rfc3339 (wd_ExpiresAt win))),
                      (''provisional_channel'', JStr (wd_ProvisionalChannel win)),
                      (''window_id'', JStr (wd_WindowID win))]), r)))"

definition handleCloseWindow :: "validator \<Rightarrow> Request \<Rightarrow> Relay \<Rightarrow> Response \<times> Relay" where
  "handleCloseWindow va req r =
     (case bearerSub va req of
        Inl ec \<Rightarrow> (writeError ec bearer_msg, r)
      | Inr sub \<Rightarrow>
     (case LookupWindow (rq_pathID req) (rl_store r) of
        None \<Rightarrow> (writeError CodeNotFound ''unknown pairing window'', r)
      | Some win \<Rightarrow>
     (case authorizeHostID (wd_HostID win) sub r of
        (Some ec, r) \<Rightarrow> (writeError ec ''window belongs to a different account'', r)
      | (None, r) \<Rightarrow> (no_content, expireWindow (rq_pathID req) r))))"

section \<open>Durable pairings\<close>

definition handleCreatePairing :: "validator \<Rightarrow> Request \<Rightarrow> string \<Rightarrow> Relay \<Rightarrow> Response \<times> Relay" where
  "handleCreatePairing va req id1 r =
     (case bearerSub va req of
        Inl ec \<Rightarrow> (writeError ec bearer_msg, r)
      | Inr sub \<Rightarrow>
      let (rate, burst) = perHour (lt_PairingsPerHour (cf_Limits (rl_cfg r)));
          (ok, r) = rl_allow (''pairings:'' @ sub) rate burst r
      in if \<not> ok then (writeErrorRetry CodeRateLimited ''pairing registration limit'' 3600, r)
         else case decodeJSON req pairing_body of
           None \<Rightarrow> (writeError CodeProtocolViolation ''channel_id, host_id, device_id must be 22-char canonical base64url'', r)
         | Some b \<Rightarrow>
         if \<not> validID (pq_ChannelID b) \<or> \<not> validID (pq_HostID b) \<or> \<not> validID (pq_DeviceID b)
         then (writeError CodeProtocolViolation ''channel_id, host_id, device_id must be 22-char canonical base64url'', r)
         else if (case pq_HostLabel b of None \<Rightarrow> False | Some l \<Rightarrow> 64 < length l)
         then (writeError CodeProtocolViolation ''host_label exceeds 64 UTF-8 bytes'', r)
         else case authorizeHostID (pq_HostID b) sub r of
           (Some ec, r) \<Rightarrow> (writeError ec ''host_id is not bound to this account'', r)
         | (None, r) \<Rightarrow>
             let pr = \<lparr>pr_PairingID = id1, pr_ChannelID = pq_ChannelID b, pr_HostID = pq_HostID b,
                       pr_DeviceID = pq_DeviceID b, pr_AccountSub = sub, pr_HostLabel = pq_HostLabel b,
                       pr_CreatedAt = rl_now r\<rparr>
             in case CreatePairing pr (rl_store r) of
                  (Some _, s) \<Rightarrow> (writeError CodeConflict ''channel_id already registered'', r\<lparr>rl_store := s\<rparr>)
                | (None, s) \<Rightarrow> (json_response 201 (JObj [(''pairing_id'', JStr (pr_PairingID pr))]), r\<lparr>rl_store := s\<rparr>))"

datatype label_req = BadLabel | LabelMissing | LabelOk "string option"

definition patch_label :: "(string, json) gomap \<Rightarrow> label_req" where
  "patch_label raw =
     (case mget raw ''host_label'' of
        None \<Rightarrow> LabelMissing
      | Some v \<Rightarrow> if length raw \<noteq> 1 then LabelMissing
                  else (case v of JNull \<Rightarrow> LabelOk None
                        | JStr s \<Rightarrow> if 64 < length s then BadLabel else LabelOk (Some s)
                        | _ \<Rightarrow> BadLabel))"

definition handlePatchPairing :: "validator \<Rightarrow> Request \<Rightarrow> Relay \<Rightarrow> Response \<times> Relay" where
  "handlePatchPairing va req r =
     (case bearerSub va req of
        Inl ec \<Rightarrow> (writeError ec bearer_msg, r)
      | Inr sub \<Rightarrow>
     (case decodeJSON req raw_body of
        None \<Rightarrow> (writeError CodeProtocolViolation ''malformed body'', r)
      | Some raw \<Rightarrow>
     (case patch_label raw of
        LabelMissing \<Rightarrow> (writeError CodeProtocolViolation ''body must carry exactly host_label (string or null)'', r)
      | BadLabel \<Rightarrow> (writeError CodeProtocolViolation ''host_label must be a string of at most 64 UTF-8 bytes, or null'', r)
      | LabelOk label \<Rightarrow>
     (case LookupPairing (rq_pathID req) (rl_store r) of
        None \<Rightarrow> (writeError CodeNotFound ''unknown pairing'', r)
      | Some pr \<Rightarrow>
          if pr_AccountSub pr \<noteq> sub then (writeError CodeForbidden ''pairing belongs to a different account'', r)
          else (no_content, upd_store (SetHostLabel (pr_PairingID pr) label) r)))))"

definition handleDeletePairing :: "validator \<Rightarrow> Request \<Rightarrow> Relay \<Rightarrow> Response \<times> Relay" where
  "handleDeletePairing va req r =
     (case bearerSub va req of
        Inl ec \<Rightarrow> (writeError ec bearer_msg, r)
      | Inr sub \<Rightarrow>
     (case LookupPairing (rq_pathID req) (rl_store r) of
        None \<Rightarrow> (writeError CodeNotFound ''unknown pairing'', r)
      | Some pr \<Rightarrow>
          if pr_AccountSub pr \<noteq> sub then (writeError CodeForbidden ''pairing belongs to a different account'', r)
          else
            let r = upd_store (\<lambda>s. snd (DeletePairing (pr_PairingID pr) s)) r;
                conns = conns_of (rl_devConns r) (pr_ChannelID pr);
                r = r\<lparr>rl_devConns := mdel (pr_ChannelID pr) (rl_devConns r)\<rparr>
            in (no_content, upd_conns (conn_close (close_code CodeForbidden) ''pairing deleted'') conns r)))"

section \<open>Mailbox\<close>

definition frameOut_json :: "MailboxItem \<Rightarrow> json" where
  "frameOut_json it = JObj [(''seq'', JNum (uint_str (mi_Seq it))), (''push_class'', JStr (mi_PushClass it)),
     (''body'', JStr (b64_encode (mi_Body it)))]"

definition mailbox_json :: "MailboxItem list \<Rightarrow> uint64 \<Rightarrow> bool \<Rightarrow> json" where
  "mailbox_json items nextAfter truncated =
     JObj [(''frames'', JArr (map frameOut_json items)), (''next_after'', JNum (uint_str nextAfter)),
           (''truncated'', JBool truncated)]"

definition handleMailboxGet :: "validator \<Rightarrow> Request \<Rightarrow> Relay \<Rightarrow> Response \<times> Relay" where
  "handleMailboxGet va req r =
     (case bearerSub va req of
        Inl ec \<Rightarrow> (writeError ec bearer_msg, r)
      | Inr sub \<Rightarrow>
     (case authorizeChannel (rq_pathID req) sub r of
        Inl ec \<Rightarrow> (writeError ec ''channel is not available to this account'', r)
      | Inr pr \<Rightarrow>
      let (rate, burst) = perMinute (lt_MailboxGetPerMin (cf_Limits (rl_cfg r)));
          (ok, r) = rl_allow (''mbxget:'' @ pr_DeviceID pr) rate burst r
      in if \<not> ok then (writeErrorRetry CodeRateLimited ''mailbox fetch limit'' 60, r)
         else case (if q_Get req ''after'' = [] then Some 0 else ParseUint (q_Get req ''after'')) of
           None \<Rightarrow> (writeError CodeProtocolViolation ''after must be a uint64'', r)
         | Some after \<Rightarrow>
         (case (if q_Get req ''limit'' = [] then Some 64
               else case ParseInt (q_Get req ''limit'') of
                      None \<Rightarrow> None | Some v \<Rightarrow> if v < 1 then None else Some (min v 256)) of
           None \<Rightarrow> (writeError CodeProtocolViolation ''limit must be a positive integer'', r)
         | Some limit \<Rightarrow>
             let ((items, nextAfter, truncated), s) =
                   FetchMailbox (rq_pathID req) after limit (rl_now r) (cf_MailboxTTL (rl_cfg r)) (rl_store r)
             in (json_response 200 (mailbox_json items nextAfter truncated), r\<lparr>rl_store := s\<rparr>))))"

section \<open>APNs registration\<close>

definition handleAPNSRegister :: "validator \<Rightarrow> Request \<Rightarrow> Relay \<Rightarrow> Response \<times> Relay" where
  "handleAPNSRegister va req r =
     (case bearerSub va req of
        Inl ec \<Rightarrow> (writeError ec bearer_msg, r)
      | Inr sub \<Rightarrow>
      let deviceID = rq_pathID req;
          (rate, burst) = perHour (lt_APNSRegsPerHour (cf_Limits (rl_cfg r)));
          (ok, r) = rl_allow (''apns:'' @ deviceID) rate burst r
      in if \<not> ok then (writeErrorRetry CodeRateLimited ''APNs registration limit'' 3600, r)
         else case decodeJSON req apns_body of
           None \<Rightarrow> (writeError CodeProtocolViolation ''body must be exactly {token, env: sandbox|production}'', r)
         | Some (token, env) \<Rightarrow>
         if token = [] \<or> env \<noteq> ''sandbox'' \<and> env \<noteq> ''production''
         then (writeError CodeProtocolViolation ''body must be exactly {token, env: sandbox|production}'', r)
         else
           let pairings = PairingsForDevice deviceID (rl_store r) in
           if pairings = [] then (writeError CodeNotFound ''unknown device'', r)
           else if \<not> list_ex (\<lambda>p. pr_AccountSub p = sub) pairings
           then (writeError CodeForbidden ''device is paired to a different account'', r)
           else (no_content, upd_store (PutAPNSToken \<lparr>at_DeviceID = deviceID, at_Token = token, at_Env = env\<rparr>) r))"

end
