(* ===== verification/Ws.thy ===== *)
theory Ws
  imports Handlers
begin

text \<open>
  The WebSocket surface and the router (\<open>internal/relay/ws.go\<close>). A WebSocket handler runs in
  stages between which other handlers run: what it does before the upgrade (\<open>_admit\<close>), what it does
  once the socket is open (\<open>_join\<close>), one message it reads (\<open>_message\<close>), and its deferred clean-up
  (\<open>_cleanup\<close>). The upgrade itself and the socket's reads are the WebSocket library's. A stage
  that returns a boolean returns False when the read loop ends.
\<close>

section \<open>Host attach\<close>

definition handleHostWS_admit :: "validator \<Rightarrow> Request \<Rightarrow> Relay \<Rightarrow> (Response + string \<times> string) \<times> Relay" where
  "handleHostWS_admit va req r =
     (case bearerSub va req of
        Inl ec \<Rightarrow> (Inl (writeError ec bearer_msg), r)
      | Inr sub \<Rightarrow>
      if q_Has req ''channel''
      then (Inl (writeError CodeProtocolViolation ''channel is not a host attach parameter''), r)
      else if \<not> validID (q_Get req ''host_id'')
      then (Inl (writeError CodeProtocolViolation ''host_id must be 22-char canonical base64url''), r)
      else case BindHost (q_Get req ''host_id'') sub (rl_now r) (rl_store r) of
             (Inl _, s) \<Rightarrow> (Inl (writeError CodeForbidden ''host_id is registered to a different account''), r\<lparr>rl_store := s\<rparr>)
           | (Inr _, s) \<Rightarrow> (Inr (sub, q_Get req ''host_id''), r\<lparr>rl_store := s\<rparr>))"

text \<open>A fresh connection object enters the heap.\<close>

definition add_conn :: "wsConn \<Rightarrow> Relay \<Rightarrow> nat \<times> Relay" where
  "add_conn w r = (rl_next r, r\<lparr>rl_conns := mput (rl_next r) w (rl_conns r), rl_next := rl_next r + 1\<rparr>)"

definition channel_presence :: "string \<Rightarrow> Relay \<Rightarrow> DevicePresence" where
  "channel_presence ch r = (case LookupDevicePresence ch (rl_store r) of
     None \<Rightarrow> \<lparr>dp_ChannelID = ch, dp_Attached = False, dp_LastSeen = 0\<rparr> | Some p \<Rightarrow> p)"

definition handleHostWS_join :: "string \<Rightarrow> string \<Rightarrow> Relay \<Rightarrow> nat \<times> Relay" where
  "handleHostWS_join sub hostID r =
     (let (i, r) = add_conn (newWSConn\<lparr>wc_role := ''host'', wc_sub := sub, wc_hostID := hostID\<rparr>) r;
          r = r\<lparr>rl_hostConns := conns_add hostID i (rl_hostConns r)\<rparr>;
          r = touchHost hostID r;
          r = fold (\<lambda>pr r. upd_conn (sendText (devPresenceJSON (channel_presence (pr_ChannelID pr) r))) i r)
                (PairingsForHost hostID (rl_store r)) r
      in (i, r))"

definition handleHostWS_cleanup :: "nat \<Rightarrow> string \<Rightarrow> Relay \<Rightarrow> Relay" where
  "handleHostWS_cleanup i hostID r =
     (let r = r\<lparr>rl_hostConns := conns_del hostID i (rl_hostConns r)\<rparr>;
          r = upd_store (TouchBinding hostID (rl_now r)) r
      in upd_conn (conn_close 1000 []) i r)"

section \<open>Host frames\<close>

definition maybePush :: "Pairing \<Rightarrow> Header \<Rightarrow> Relay \<Rightarrow> Relay" where
  "maybePush pr h r =
     (if hd_PushClass h = PushNone then r
      else case LookupAPNSToken (pr_DeviceID pr) (rl_store r) of
             None \<Rightarrow> r
           | Some tok \<Rightarrow>
               let push = (\<lambda>payload. r\<lparr>rl_pushes := rl_pushes r @ [\<lparr>pu_DeviceID = pr_DeviceID pr,
                     pu_Token = at_Token tok, pu_Env = at_Env tok, pu_Payload = payload\<rparr>]\<rparr>) in
               if hd_PushClass h = PushWake then push (wakePayload (hd_Channel h) (hd_Seq h))
               else if hd_PushClass h = PushAttention
               then push (attentionPayload (pr_HostLabel pr) (hd_Channel h) (hd_Seq h))
               else r)"

definition conn_hostID :: "nat \<Rightarrow> Relay \<Rightarrow> string" where
  "conn_hostID i r = (case mget (rl_conns r) i of None \<Rightarrow> [] | Some w \<Rightarrow> wc_hostID w)"

text \<open>Closing the sender's own connection with an error code ends its read loop.\<close>

definition close_with :: "ErrCode \<Rightarrow> string \<Rightarrow> nat \<Rightarrow> Relay \<Rightarrow> bool \<times> Relay" where
  "close_with code reason i r = (False, upd_conn (conn_close (close_code code) reason) i r)"

definition routeHostFrame :: "nat \<Rightarrow> bytes \<Rightarrow> Relay \<Rightarrow> bool \<times> Relay" where
  "routeHostFrame i raw r =
     (let hostID = conn_hostID i r; cfg = rl_cfg r in
      if cf_MaxFrameSize cfg < int (length raw) then close_with CodeFrameTooLarge (code_str CodeFrameTooLarge) i r
      else case DecodeFrame raw (cf_MaxHeaderLen cfg) of
        Inl _ \<Rightarrow> close_with CodeProtocolViolation (code_str CodeProtocolViolation) i r
      | Inr (h, body) \<Rightarrow>
      let (ok, r) = rl_allow (''hostframes:'' @ hostID) (lt_HostFramesPerSec (cf_Limits cfg))
                      (lt_HostFramesBurst (cf_Limits cfg)) r
      in if \<not> ok then close_with CodeRateLimited (code_str CodeRateLimited) i r
      else
      let (win, s) = WindowForHost hostID (rl_now r) (rl_store r); r = r\<lparr>rl_store := s\<rparr> in
      if (case win of None \<Rightarrow> False | Some w \<Rightarrow> wd_ProvisionalChannel w = hd_Channel h)
      then (True, upd_conns (sendBinary raw) (conns_of (rl_pairConns r) (wd_WindowID (the win))) r)
      else
      if (case PairingByChannel (hd_Channel h) (rl_store r) of None \<Rightarrow> True | Some pr \<Rightarrow> pr_HostID pr \<noteq> hostID)
      then (True, upd_conn (sendText (controlError CodeNotFound (hd_Channel h))) i r)
      else
      if deviceAttachedNow (hd_Channel h) r
      then (True, upd_conns (sendBinary raw) (conns_of (rl_devConns r) (hd_Channel h)) r)
      else
      let it = \<lparr>mi_Seq = hd_Seq h, mi_PushClass = hd_PushClass h, mi_Body = body, mi_StoredAt = rl_now r\<rparr>;
          pr = the (PairingByChannel (hd_Channel h) (rl_store r));
          r = upd_store (AppendMailbox (hd_Channel h) it (mailboxPolicy cfg)) r
      in (True, maybePush pr h r))"

text \<open>One message from a host: any message is liveness, a text message is only a heartbeat.\<close>

definition handleHostWS_message :: "nat \<Rightarrow> string \<Rightarrow> MessageType \<Rightarrow> bytes \<Rightarrow> Relay \<Rightarrow> bool \<times> Relay" where
  "handleHostWS_message i hostID typ data r =
     (let r = touchHost hostID r in
      if typ \<noteq> MessageBinary then (True, r) else routeHostFrame i data r)"

section \<open>Device attach\<close>

datatype ticket = PairingTicket string Window | ChannelTicket string string Pairing

definition pairing_refusal :: Response where
  "pairing_refusal = writeError CodeWindowClosed ''no open pairing window''"

definition devicePairingAttach_admit :: "string \<Rightarrow> string \<Rightarrow> Relay \<Rightarrow> (Response + ticket) \<times> Relay" where
  "devicePairingAttach_admit sub hostWire r =
     (if \<not> validID hostWire then (Inl pairing_refusal, r)
      else
      let (b, s) = LookupBinding hostWire (rl_now r) (rl_store r); r = r\<lparr>rl_store := s\<rparr> in
      if (case b of None \<Rightarrow> True | Some b \<Rightarrow> bd_AccountSub b \<noteq> sub) then (Inl pairing_refusal, r)
      else
      let (win, s) = WindowForHost hostWire (rl_now r) (rl_store r); r = r\<lparr>rl_store := s\<rparr> in
      case win of None \<Rightarrow> (Inl pairing_refusal, r) | Some win \<Rightarrow>
      let (ok, s) = CountWindowAttach (wd_WindowID win) (lt_PairingAttachesPerWindow (cf_Limits (rl_cfg r))) (rl_store r);
          r = r\<lparr>rl_store := s\<rparr>
      in if \<not> ok then (Inl pairing_refusal, r) else (Inr (PairingTicket sub win), r))"

definition deviceChannelAttach_admit :: "Request \<Rightarrow> string \<Rightarrow> Relay \<Rightarrow> (Response + ticket) \<times> Relay" where
  "deviceChannelAttach_admit req sub r =
     (let channel = q_Get req ''channel''; cap = lt_DeviceAttachPerChannel (cf_Limits (rl_cfg r)) in
      if \<not> validID channel
      then (Inl (writeError CodeProtocolViolation ''channel must be 22-char canonical base64url''), r)
      else case authorizeChannel channel sub r of
        Inl ec \<Rightarrow> (Inl (writeError ec ''channel is not available to this account''), r)
      | Inr pr \<Rightarrow>
          if 0 < cap \<and> cap \<le> int (length (conns_of (rl_devConns r) channel))
          then (Inl (writeErrorRetry CodeRateLimited ''concurrent attachment limit for this channel'' 60), r)
          else (Inr (ChannelTicket sub channel pr), r))"

definition handleDeviceWS_admit :: "validator \<Rightarrow> Request \<Rightarrow> Relay \<Rightarrow> (Response + ticket) \<times> Relay" where
  "handleDeviceWS_admit va req r =
     (case bearerSub va req of
        Inl ec \<Rightarrow> (Inl (writeError ec bearer_msg), r)
      | Inr sub \<Rightarrow>
          if q_Get req ''host'' \<noteq> [] then devicePairingAttach_admit sub (q_Get req ''host'') r
          else deviceChannelAttach_admit req sub r)"

definition devicePairingAttach_join :: "string \<Rightarrow> Window \<Rightarrow> Relay \<Rightarrow> nat \<times> Relay" where
  "devicePairingAttach_join sub win r =
     (let w = newWSConn\<lparr>wc_role := ''pairing-device'', wc_sub := sub, wc_winID := wd_WindowID win\<rparr>;
          first = marshal (JObj [(''provisional_channel'', JStr (wd_ProvisionalChannel win))]);
          (i, r) = add_conn (sendText first w) r
      in (i, r\<lparr>rl_pairConns := conns_add (wd_WindowID win) i (rl_pairConns r)\<rparr>))"

text \<open>A durable attach enters the table under the lock; whether it was the first of its channel decides if
  \<open>setDeviceAttached\<close> is called, which happens after the lock is released.\<close>

definition deviceChannelAttach_join :: "string \<Rightarrow> string \<Rightarrow> Pairing \<Rightarrow> Relay \<Rightarrow> nat \<times> bool \<times> Relay" where
  "deviceChannelAttach_join sub channel pr r =
     (let (i, r) = add_conn (newWSConn\<lparr>wc_role := ''device'', wc_sub := sub, wc_channel := channel\<rparr>) r;
          r = r\<lparr>rl_devConns := conns_add channel i (rl_devConns r)\<rparr>;
          first = (length (conns_of (rl_devConns r) channel) = 1);
          hp = (case LookupHostPresence (pr_HostID pr) (rl_store r) of
                  None \<Rightarrow> \<lparr>hp_HostID = pr_HostID pr, hp_Online = False, hp_LastSeen = 0\<rparr> | Some p \<Rightarrow> p)
      in (i, first, upd_conn (sendText (hostPresenceJSON hp)) i r))"

text \<open>The clean-up closures, then the deferred close of \<open>deviceReadLoop\<close>.\<close>

definition devicePairingAttach_cleanup :: "nat \<Rightarrow> string \<Rightarrow> Relay \<Rightarrow> Relay" where
  "devicePairingAttach_cleanup i winID r =
     upd_conn (conn_close 1000 []) i (r\<lparr>rl_pairConns := conns_del winID i (rl_pairConns r)\<rparr>)"

text \<open>The clean-up of a durable attach says whether the row became empty, and with it whether
  \<open>setDeviceAttached\<close> follows; the deferred close comes last.\<close>

definition deviceChannelAttach_cleanup :: "nat \<Rightarrow> string \<Rightarrow> Relay \<Rightarrow> bool \<times> Relay" where
  "deviceChannelAttach_cleanup i channel r =
     (let empty = (case mget (rl_devConns r) channel of None \<Rightarrow> False | Some xs \<Rightarrow> removeAll i xs = [])
      in (empty, r\<lparr>rl_devConns := conns_del channel i (rl_devConns r)\<rparr>))"

text \<open>What a connection does about the attached flag, at a later moment than its table update: a
  first join publishes, then reads; a last leave publishes, then closes.\<close>

definition deviceChannelAttach_publish :: "nat \<Rightarrow> string \<Rightarrow> bool \<Rightarrow> Relay \<Rightarrow> Relay" where
  "deviceChannelAttach_publish i channel attached r =
     (let r = setDeviceAttached channel attached r in if attached then r else upd_conn (conn_close 1000 []) i r)"

section \<open>Device frames\<close>

text \<open>The host a device connection's frames go to, or the code its connection is closed with.\<close>

definition device_host :: "wsConn \<Rightarrow> string \<Rightarrow> MemStore \<Rightarrow> ErrCode + string" where
  "device_host w boundChannel s =
     (if wc_role w = ''pairing-device''
      then case LookupWindow (wc_winID w) s of None \<Rightarrow> Inl CodeWindowClosed | Some win \<Rightarrow> Inr (wd_HostID win)
      else case PairingByChannel boundChannel s of None \<Rightarrow> Inl CodeForbidden | Some pr \<Rightarrow> Inr (pr_HostID pr))"

definition conn_at :: "nat \<Rightarrow> Relay \<Rightarrow> wsConn" where
  "conn_at i r = (case mget (rl_conns r) i of None \<Rightarrow> newWSConn | Some w \<Rightarrow> w)"

definition routeDeviceFrame :: "nat \<Rightarrow> string \<Rightarrow> bytes \<Rightarrow> Relay \<Rightarrow> bool \<times> Relay" where
  "routeDeviceFrame i boundChannel raw r =
     (let w = conn_at i r; cfg = rl_cfg r in
      if cf_MaxFrameSize cfg < int (length raw) then close_with CodeFrameTooLarge (code_str CodeFrameTooLarge) i r
      else case DecodeFrame raw (cf_MaxHeaderLen cfg) of
        Inl _ \<Rightarrow> close_with CodeProtocolViolation (code_str CodeProtocolViolation) i r
      | Inr (h, _) \<Rightarrow>
      if hd_PushClass h \<noteq> PushNone then close_with CodeProtocolViolation ''device-set push_class'' i r
      else if hd_Channel h \<noteq> boundChannel
      then close_with CodeForbidden ''frame channel does not match attachment'' i r
      else
      let (ok, r) = rl_allow (''devframes:'' @ wc_sub w @ '':'' @ boundChannel)
                      (lt_DeviceFramesPerSec (cf_Limits cfg)) (lt_DeviceFramesBurst (cf_Limits cfg)) r
      in if \<not> ok then close_with CodeRateLimited (code_str CodeRateLimited) i r
      else case device_host w boundChannel (rl_store r) of
        Inl code \<Rightarrow> close_with code (code_str code) i r
      | Inr hostID \<Rightarrow>
          let conns = conns_of (rl_hostConns r) hostID in
          if conns = [] then (True, upd_conn (sendText (controlError CodePeerUnavailable (hd_Channel h))) i r)
          else (True, upd_conns (sendBinary raw) conns r))"

definition deviceReadLoop_message :: "nat \<Rightarrow> string \<Rightarrow> MessageType \<Rightarrow> bytes \<Rightarrow> Relay \<Rightarrow> bool \<times> Relay" where
  "deviceReadLoop_message i boundChannel typ data r =
     (if typ \<noteq> MessageBinary then (True, r) else routeDeviceFrame i boundChannel data r)"

end
