(* ===== verification/Sample.thy ===== *)
theory Sample
  imports Ws
begin

text \<open>
  One concrete relay, on which the theories that follow apply their theorems: a host of account
  \<open>alice\<close> with one pairing, a device attached to its channel, and an open pairing window with one
  pairing device. Rate limits are off, as a negative limit in the configuration sets them.
\<close>

section \<open>Identifiers\<close>

definition ex_id :: "byte \<Rightarrow> string" where
  "ex_id n = b64_encode (replicate 16 n)"

lemma ex_id_eq [simp]: "ex_id m = ex_id n \<longleftrightarrow> m = n"
proof
  assume "ex_id m = ex_id n"
  then have "b64_decode True (ex_id m) = b64_decode True (ex_id n)" by simp
  then show "m = n" by (simp add: ex_id_def)
qed simp

lemma ex_id_valid [simp]: "validID (ex_id n)"
  by (simp add: ex_id_def)

lemma ex_id_nonempty [simp]: "ex_id n \<noteq> []"
  using validID_length [OF ex_id_valid, of n] by auto

section \<open>Configuration\<close>

definition ex_config :: Config where
  "ex_config = \<lparr>cf_Store = Some ''MemStore'', cf_Validator = Some ''TestOnlySubjectValidator'', cf_Clock = None,
     cf_Logger = None, cf_Pusher = None, cf_Ready = None, cf_MailboxTTL = 0, cf_MailboxMaxFrames = 0,
     cf_MailboxMaxBytes = 0, cf_WindowTTL = 0, cf_OfflineAfter = 0, cf_HeartbeatInterval = 0, cf_MaxFrameSize = 0,
     cf_MaxHeaderLen = 0, cf_BindingIdleReap = 0,
     cf_Limits = \<lparr>lt_DeviceFramesPerSec = Fin (- 1), lt_DeviceFramesBurst = Fin (- 1), lt_HostFramesPerSec = Fin (- 1),
       lt_HostFramesBurst = Fin (- 1), lt_MailboxGetPerMin = - 1, lt_PairingsPerHour = - 1, lt_PairingWindowsPerHour = - 1,
       lt_PairingAttachesPerWindow = - 1, lt_APNSRegsPerHour = - 1, lt_DeviceAttachPerChannel = - 1\<rparr>\<rparr>"

definition ex_cfg :: Config where
  "ex_cfg = Config_applyDefaults ex_config"

lemma ex_cfg_fields [simp]:
  "cf_MailboxTTL ex_cfg = 15 * minute" "cf_WindowTTL ex_cfg = 5 * minute" "cf_OfflineAfter ex_cfg = 30 * second"
  "cf_MaxFrameSize ex_cfg = 131072" "cf_MaxHeaderLen ex_cfg = 512" "cf_MailboxMaxFrames ex_cfg = 128"
  "cf_MailboxMaxBytes ex_cfg = 4194304"
  "cf_Limits ex_cfg = \<lparr>lt_DeviceFramesPerSec = Fin 0, lt_DeviceFramesBurst = Fin 0, lt_HostFramesPerSec = Fin 0,
       lt_HostFramesBurst = Fin 0, lt_MailboxGetPerMin = 0, lt_PairingsPerHour = 0, lt_PairingWindowsPerHour = 0,
       lt_PairingAttachesPerWindow = 0, lt_APNSRegsPerHour = 0, lt_DeviceAttachPerChannel = 0\<rparr>"
  by (simp_all add: ex_cfg_def ex_config_def Config_applyDefaults_def Limits_applyDefaults_def limit_default_def float_default_def
      or_default_def config_defaults)

lemma ex_config_ok: "config_ok ex_cfg"
  by (simp add: config_ok_def)
    (simp add: ex_cfg_def ex_config_def Config_applyDefaults_def or_default_def config_defaults)

text \<open>With limits off the limiter admits everything and keeps no bucket.\<close>

lemma ex_allow [simp]: "rl_allow k (Fin 0) b r = (True, r)"
  by (simp add: rl_allow_def allow_disabled)

lemma per_zero [simp]: "perHour 0 = (Fin 0, Fin 0)" "perMinute 0 = (Fin 0, Fin 0)"
  by (simp_all add: perHour_def perMinute_def)

section \<open>State\<close>

definition ex_pairing :: Pairing where
  "ex_pairing = \<lparr>pr_PairingID = ex_id 10, pr_ChannelID = ex_id 7, pr_HostID = ex_id 1, pr_DeviceID = ex_id 3,
     pr_AccountSub = ''alice'', pr_HostLabel = Some ''studio'', pr_CreatedAt = 0\<rparr>"

definition ex_window :: Window where
  "ex_window = \<lparr>wd_WindowID = ex_id 4, wd_HostID = ex_id 1, wd_ProvisionalChannel = ex_id 5,
     wd_ExpiresAt = 5 * minute, wd_Attaches = 1\<rparr>"

lemma ex_record_fields [simp]:
  "pr_PairingID ex_pairing = ex_id 10" "pr_ChannelID ex_pairing = ex_id 7" "pr_HostID ex_pairing = ex_id 1"
  "pr_DeviceID ex_pairing = ex_id 3" "pr_AccountSub ex_pairing = ''alice''" "wd_WindowID ex_window = ex_id 4"
  "wd_HostID ex_window = ex_id 1" "wd_ProvisionalChannel ex_window = ex_id 5" "wd_ExpiresAt ex_window = 5 * minute"
  by (simp_all add: ex_pairing_def ex_window_def)

definition ex_store :: MemStore where
  "ex_store = \<lparr>ms_idleReap = DefaultBindingIdleReap,
     ms_bindings = [(ex_id 1, \<lparr>bd_HostID = ex_id 1, bd_AccountSub = ''alice'', bd_BoundAt = 0, bd_LastAttachAt = 0\<rparr>)],
     ms_pairings = [(ex_id 10, ex_pairing)], ms_byChannel = [(ex_id 7, ex_id 10)],
     ms_windows = [(ex_id 4, ex_window)], ms_winByHost = [(ex_id 1, ex_id 4)], ms_mailboxes = [],
     ms_apns = [(ex_id 3, \<lparr>at_DeviceID = ex_id 3, at_Token = ''token'', at_Env = ''sandbox''\<rparr>)],
     ms_hostPres = [], ms_devPres = []\<rparr>"

lemma ex_store_inv: "store_inv ex_store"
  by (simp add: store_inv_def pairings_inv_def windows_inv_def boxes_inv_def keys_inv_def indexes_def mwf_def mget_def
      ex_store_def ex_pairing_def ex_window_def DefaultBindingIdleReap_def)

definition ex_host :: wsConn where
  "ex_host = newWSConn\<lparr>wc_role := ''host'', wc_sub := ''alice'', wc_hostID := ex_id 1\<rparr>"

definition ex_device :: wsConn where
  "ex_device = newWSConn\<lparr>wc_role := ''device'', wc_sub := ''alice'', wc_channel := ex_id 7\<rparr>"

definition ex_pairer :: wsConn where
  "ex_pairer = newWSConn\<lparr>wc_role := ''pairing-device'', wc_sub := ''alice'', wc_winID := ex_id 4\<rparr>"

text \<open>The argument lists the attached devices of the pairing's channel.\<close>

definition ex_relay :: "nat list \<Rightarrow> Relay" where
  "ex_relay ds = \<lparr>rl_cfg = ex_cfg, rl_limiter = newLimiter, rl_store = ex_store, rl_hostConns = [(ex_id 1, [0])],
     rl_devConns = [(ex_id 7, ds)], rl_pairConns = [(ex_id 4, [2])], rl_presTimer = [], rl_winTimer = [],
     rl_closed = False, rl_now = 0, rl_conns = [(0, ex_host), (1, ex_device), (2, ex_pairer)], rl_next = 3,
     rl_fired = [], rl_pushes = []\<rparr>"

lemma ex_relay_fields [simp]:
  "rl_cfg (ex_relay ds) = ex_cfg" "rl_store (ex_relay ds) = ex_store" "rl_now (ex_relay ds) = 0"
  "rl_hostConns (ex_relay ds) = [(ex_id 1, [0])]" "rl_devConns (ex_relay ds) = [(ex_id 7, ds)]"
  "rl_pairConns (ex_relay ds) = [(ex_id 4, [2])]" "rl_pushes (ex_relay ds) = []"
  "conn_hostID 0 (ex_relay ds) = ex_id 1" "conn_at (Suc 0) (ex_relay ds) = ex_device" "conn_at 2 (ex_relay ds) = ex_pairer"
  "mget (rl_conns (ex_relay ds)) 0 = Some ex_host" "mget (rl_conns (ex_relay ds)) (Suc 0) = Some ex_device"
  "mget (rl_conns (ex_relay ds)) 2 = Some ex_pairer"
  by (simp_all add: ex_relay_def conn_hostID_def conn_at_def mget_def ex_host_def)

lemma ex_conns [simp]: "conns_of [(k, xs)] k' = (if k' = k then xs else [])"
  by (simp add: conns_of_def mget_def)

lemma ex_store_lookups [simp]:
  "PairingByChannel (ex_id n) ex_store = (if n = 7 then Some ex_pairing else None)"
  "LookupPairing (ex_id n) ex_store = (if n = 10 then Some ex_pairing else None)"
  "LookupWindow (ex_id n) ex_store = (if n = 4 then Some ex_window else None)"
  "WindowForHost (ex_id n) 0 ex_store = (if n = 1 then Some ex_window else None, ex_store)"
  "LookupAPNSToken (ex_id n) ex_store
    = (if n = 3 then Some \<lparr>at_DeviceID = ex_id 3, at_Token = ''token'', at_Env = ''sandbox''\<rparr> else None)"
  by (simp_all add: PairingByChannel_def LookupPairing_def LookupWindow_def WindowForHost_def LookupAPNSToken_def
      mget_def ex_store_def ex_window_def)

lemma ex_live_account [simp]: "live_account (ex_id n) 0 ex_store = (if n = 1 then Some ''alice'' else None)"
  by (simp add: live_account_def bindingLocked_def hostHasPairingsLocked_def mget_def mvals_def ex_store_def ex_pairing_def)

section \<open>Frames and requests\<close>

text \<open>The frame a header and a body encode to.\<close>

definition ex_msg :: "byte \<Rightarrow> string \<Rightarrow> bytes \<Rightarrow> bytes" where
  "ex_msg ch pc body = the (EncodeFrame \<lparr>hd_Channel = ex_id ch, hd_Seq = 42, hd_PushClass = pc\<rparr> body)"

lemma ex_msg_decodes [simp]:
  assumes "validPushClass pc"
  shows "DecodeFrame (ex_msg ch pc body) 512 = Inr (\<lparr>hd_Channel = ex_id ch, hd_Seq = 42, hd_PushClass = pc\<rparr>, body)"
  using EncodeFrame_Decode [of "\<lparr>hd_Channel = ex_id ch, hd_Seq = 42, hd_PushClass = pc\<rparr>" body] assms
  by (auto simp: ex_msg_def DefaultMaxHeaderLen_def)

lemma ex_msg_short [simp]:
  assumes "validPushClass pc" "length body \<le> 65536"
  shows "length (ex_msg ch pc body) \<le> 131072"
proof -
  let ?h = "\<lparr>hd_Channel = ex_id ch, hd_Seq = 42, hd_PushClass = pc\<rparr>"
  have "length (print_json (header_json ?h)) \<le> 512" using assms(1) length_header_json [of ?h] by simp
  then show ?thesis
    using assms(2) by (simp add: ex_msg_def EncodeFrame_def marshal_def DefaultMaxHeaderLen_def Let_def)
qed

lemma push_classes [simp]: "validPushClass ''none''" "validPushClass ''wake''" "validPushClass ''attention''"
  by (simp_all add: validPushClass_def push_defs)

text \<open>A request of \<open>alice\<close> with a path value and a JSON body.\<close>

definition ex_req :: "string \<Rightarrow> json \<Rightarrow> Request" where
  "ex_req pathID v = \<lparr>rq_query = [(''host_id'', ex_id 1)], rq_auth = ''Bearer fake-alice'', rq_pathID = pathID,
     rq_body = marshal v\<rparr>"

abbreviation ex_va :: validator where
  "ex_va \<equiv> TestOnlySubjectValidator []"

lemma ex_req_sub [simp]: "bearerSub ex_va (ex_req i v) = Inr ''alice''"
  by (simp add: bearerSub_def ex_req_def tokenQueryParams_def q_Has_def strip_def TestOnlySubjectValidator_def)

lemma ex_req_path [simp]: "rq_pathID (ex_req i v) = i"
  by (simp add: ex_req_def)

lemma ex_req_decodes:
  assumes "wf_json v" "length (marshal v) \<le> maxRequestBody"
  shows "decodeJSON (ex_req i v) dst = dst v"
  using pvalue_print [OF assms(1), of "[]"] assms(2)
  by (simp add: decodeJSON_def ex_req_def marshal_def dec_more_def split: option.split)

end
