(* ===== verification/Admission.thy ===== *)
theory Admission
  imports Sample
begin

text \<open>
  Who gets in, and what the REST surface changes: attaches of hosts and devices, pairing windows,
  registration and revocation of pairings, the mailbox read. The lemmas state when each handler
  succeeds and its whole effect then; a refusal leaves the relay as it was, apart from the
  rate-limit token the code spends first and from what a lookup reaps.
\<close>

section \<open>Windows of a host\<close>

definition open_window :: "string \<Rightarrow> gotime \<Rightarrow> MemStore \<Rightarrow> Window option" where
  "open_window h now s = fst (WindowForHost h now s)"

lemma open_window_iff:
  "windows_inv s \<Longrightarrow> open_window h now s = Some w \<longleftrightarrow>
     mget (ms_windows s) (wd_WindowID w) = Some w \<and> wd_HostID w = h \<and> now < wd_ExpiresAt w"
proof -
  assume inv: "windows_inv s"
  have k: "wd_HostID w = h \<and> wd_WindowID w = i" if "mget (ms_winByHost s) h = Some i" "mget (ms_windows s) i = Some w" for i w
    using that indexes_key [OF windows_invD(2) [OF inv]] windows_invD(1) [OF inv] by blast
  show ?thesis
  proof
    assume "open_window h now s = Some w"
    then show "mget (ms_windows s) (wd_WindowID w) = Some w \<and> wd_HostID w = h \<and> now < wd_ExpiresAt w"
      using k by (auto simp: open_window_def WindowForHost_def split: option.splits if_splits)
  next
    assume a: "mget (ms_windows s) (wd_WindowID w) = Some w \<and> wd_HostID w = h \<and> now < wd_ExpiresAt w"
    then have "mget (ms_winByHost s) h = Some (wd_WindowID w)"
      using indexesD [OF windows_invD(2) [OF inv]] by blast
    with a show "open_window h now s = Some w" by (simp add: open_window_def WindowForHost_def)
  qed
qed

lemma WindowForHost_open: "fst (WindowForHost h now s) = Some w \<Longrightarrow> snd (WindowForHost h now s) = s"
  by (auto simp: WindowForHost_def split: option.splits if_splits)

lemma open_window_frame: "ms_windows s' = ms_windows s \<Longrightarrow> ms_winByHost s' = ms_winByHost s \<Longrightarrow>
    open_window h now s' = open_window h now s"
  by (simp add: open_window_def WindowForHost_def split: option.splits)

definition attach_room :: "int \<Rightarrow> Window \<Rightarrow> bool" where
  "attach_room cap w \<longleftrightarrow> cap \<le> 0 \<or> wd_Attaches w < cap"

lemma CountWindowAttach_ok:
  "mget (ms_windows s) i = Some w \<Longrightarrow> fst (CountWindowAttach i cap s) \<longleftrightarrow> attach_room cap w"
  by (auto simp: CountWindowAttach_def attach_room_def)

section \<open>Pairing attach\<close>

definition may_pair :: "string \<Rightarrow> string \<Rightarrow> Relay \<Rightarrow> Window \<Rightarrow> bool" where
  "may_pair sub h r w \<longleftrightarrow> validID h \<and> live_account h (rl_now r) (rl_store r) = Some sub
     \<and> open_window h (rl_now r) (rl_store r) = Some w
     \<and> attach_room (lt_PairingAttachesPerWindow (cf_Limits (rl_cfg r))) w"

lemma LookupBinding_windows:
  "open_window h now (snd (LookupBinding h' t s)) = open_window h now s"
  by (rule open_window_frame) simp_all

lemma LookupBinding_bindings:
  "mget (ms_bindings (snd (LookupBinding h t s))) h' = Some b \<Longrightarrow> mget (ms_bindings s) h' = Some b"
  by (auto simp: LookupBinding_def bindingLocked_def split: option.splits if_splits)

lemma devicePairingAttach_eq:
  "devicePairingAttach_admit sub h r =
     (let s1 = snd (LookupBinding h (rl_now r) (rl_store r)); s2 = snd (WindowForHost h (rl_now r) s1);
          cap = lt_PairingAttachesPerWindow (cf_Limits (rl_cfg r)) in
      if \<not> validID h then (Inl pairing_refusal, r)
      else if live_account h (rl_now r) (rl_store r) \<noteq> Some sub then (Inl pairing_refusal, r\<lparr>rl_store := s1\<rparr>)
      else case open_window h (rl_now r) (rl_store r) of
        None \<Rightarrow> (Inl pairing_refusal, r\<lparr>rl_store := s2\<rparr>)
      | Some w \<Rightarrow>
          (if fst (CountWindowAttach (wd_WindowID w) cap s2) then Inr (PairingTicket sub w) else Inl pairing_refusal,
           r\<lparr>rl_store := snd (CountWindowAttach (wd_WindowID w) cap s2)\<rparr>))"
proof -
  have acc: "(case fst (LookupBinding h (rl_now r) (rl_store r)) of None \<Rightarrow> True | Some b \<Rightarrow> bd_AccountSub b \<noteq> sub)
      \<longleftrightarrow> live_account h (rl_now r) (rl_store r) \<noteq> Some sub"
    by (auto simp: live_account_def LookupBinding_def split: option.splits)
  have ow: "fst (WindowForHost h (rl_now r) (snd (LookupBinding h (rl_now r) (rl_store r))))
      = open_window h (rl_now r) (rl_store r)"
    using LookupBinding_windows [of h "rl_now r" h "rl_now r" "rl_store r"] by (simp add: open_window_def)
  show ?thesis
    unfolding devicePairingAttach_admit_def Let_def split_beta acc
    by (simp add: ow split: option.splits)
qed

lemma devicePairingAttach_cases:
  assumes "store_inv (rl_store r)"
  shows "fst (devicePairingAttach_admit sub h r) =
    (case open_window h (rl_now r) (rl_store r) of
       None \<Rightarrow> Inl pairing_refusal
     | Some w \<Rightarrow> if may_pair sub h r w then Inr (PairingTicket sub w) else Inl pairing_refusal)"
proof (cases "open_window h (rl_now r) (rl_store r)")
  case (Some w)
  let ?s1 = "snd (LookupBinding h (rl_now r) (rl_store r))"
  have ow: "open_window h (rl_now r) ?s1 = Some w" using Some by (simp add: LookupBinding_windows)
  have "windows_inv ?s1" using store_inv_methods(3) [OF assms] by (simp add: store_invD(2))
  then have "mget (ms_windows ?s1) (wd_WindowID w) = Some w" using ow by (simp add: open_window_iff)
  moreover have "snd (WindowForHost h (rl_now r) ?s1) = ?s1"
    using ow by (intro WindowForHost_open) (simp add: open_window_def)
  ultimately show ?thesis
    using Some by (simp add: devicePairingAttach_eq Let_def may_pair_def CountWindowAttach_ok)
qed (simp add: devicePairingAttach_eq Let_def)

lemma devicePairingAttach_effect:
  "ms_pairings (rl_store (snd (devicePairingAttach_admit sub h r))) = ms_pairings (rl_store r)"
  "ms_mailboxes (rl_store (snd (devicePairingAttach_admit sub h r))) = ms_mailboxes (rl_store r)"
  "mget (ms_bindings (rl_store (snd (devicePairingAttach_admit sub h r)))) h' = Some b \<Longrightarrow>
     mget (ms_bindings (rl_store r)) h' = Some b"
proof -
  have eq: "\<exists>s'. rl_store (snd (devicePairingAttach_admit sub h r)) = s' \<and> (s' = rl_store r
      \<or> (\<exists>s1. s1 = snd (LookupBinding h (rl_now r) (rl_store r)) \<and> (s' = s1 \<or> s' = snd (WindowForHost h (rl_now r) s1)
          \<or> (\<exists>i c. s' = snd (CountWindowAttach i c (snd (WindowForHost h (rl_now r) s1)))))))"
    unfolding devicePairingAttach_eq Let_def by (simp split: option.split) blast
  show "ms_pairings (rl_store (snd (devicePairingAttach_admit sub h r))) = ms_pairings (rl_store r)"
    "ms_mailboxes (rl_store (snd (devicePairingAttach_admit sub h r))) = ms_mailboxes (rl_store r)"
    using eq by auto
  have "ms_bindings (rl_store (snd (devicePairingAttach_admit sub h r))) = ms_bindings (rl_store r)
    \<or> ms_bindings (rl_store (snd (devicePairingAttach_admit sub h r)))
        = ms_bindings (snd (LookupBinding h (rl_now r) (rl_store r)))"
    using eq by auto
  then show "mget (ms_bindings (rl_store r)) h' = Some b"
    if "mget (ms_bindings (rl_store (snd (devicePairingAttach_admit sub h r)))) h' = Some b"
  proof
    assume e: "ms_bindings (rl_store (snd (devicePairingAttach_admit sub h r))) = ms_bindings (rl_store r)"
    show ?thesis using that unfolding e .
  next
    assume e: "ms_bindings (rl_store (snd (devicePairingAttach_admit sub h r)))
      = ms_bindings (snd (LookupBinding h (rl_now r) (rl_store r)))"
    show ?thesis using that unfolding e by (rule LookupBinding_bindings)
  qed
qed

text \<open>C28. A pairing attach has two outcomes: a ticket for the host's open window, or one fixed refusal.
  It succeeds exactly when the host id is well formed and bound to the caller's account, the host
  has an unexpired window, and the window's attach cap is not used up; every other cause gets the
  identical response. The path never creates or changes a binding, and touches no registration
  or mailbox.\<close>

theorem devicePairingAttach_two_outcomes:
  assumes "store_inv (rl_store r)"
  shows "let (res, r') = devicePairingAttach_admit sub h r in
    (if \<exists>w. may_pair sub h r w then \<exists>w. may_pair sub h r w \<and> res = Inr (PairingTicket sub w)
     else res = Inl pairing_refusal)
    \<and> (\<forall>h' b. mget (ms_bindings (rl_store r')) h' = Some b \<longrightarrow> mget (ms_bindings (rl_store r)) h' = Some b)
    \<and> ms_pairings (rl_store r') = ms_pairings (rl_store r) \<and> ms_mailboxes (rl_store r') = ms_mailboxes (rl_store r)"
proof -
  have "if \<exists>w. may_pair sub h r w
      then \<exists>w. may_pair sub h r w \<and> fst (devicePairingAttach_admit sub h r) = Inr (PairingTicket sub w)
      else fst (devicePairingAttach_admit sub h r) = Inl pairing_refusal"
  proof (cases "open_window h (rl_now r) (rl_store r)")
    case None
    then have "\<not> (\<exists>w. may_pair sub h r w)" by (simp add: may_pair_def)
    with None show ?thesis by (simp add: devicePairingAttach_cases [OF assms])
  next
    case (Some w)
    then have "(\<exists>w. may_pair sub h r w) \<longleftrightarrow> may_pair sub h r w" by (auto simp: may_pair_def)
    with Some show ?thesis by (simp add: devicePairingAttach_cases [OF assms])
  qed
  then show ?thesis unfolding Let_def split_beta using devicePairingAttach_effect by blast
qed

theorem devicePairingAttach_two_outcomes_witness:
  "fst (devicePairingAttach_admit ''alice'' (ex_id 1) (ex_relay [])) = Inr (PairingTicket ''alice'' ex_window)
   \<and> fst (devicePairingAttach_admit ''mallory'' (ex_id 1) (ex_relay [])) = Inl pairing_refusal
   \<and> fst (devicePairingAttach_admit ''alice'' (ex_id 9) (ex_relay [])) = Inl pairing_refusal"
proof -
  have m: "may_pair sub (ex_id n) (ex_relay []) w \<longleftrightarrow> sub = ''alice'' \<and> n = 1 \<and> w = ex_window" for sub n w
    by (auto simp: may_pair_def open_window_def attach_room_def)
  show ?thesis
    using devicePairingAttach_two_outcomes [of "ex_relay []" "''alice''" "ex_id 1"]
      devicePairingAttach_two_outcomes [of "ex_relay []" "''mallory''" "ex_id 1"]
      devicePairingAttach_two_outcomes [of "ex_relay []" "''alice''" "ex_id 9"]
    by (simp add: m ex_store_inv split_beta)
qed

section \<open>Host attach\<close>

text \<open>C27. A host attach is admitted exactly for an authenticated account that names a well-formed
  host id, passes no channel, and finds the host id free or already its own; from then on, and at
  least until the idle horizon, the host id belongs to that account and no other account can
  attach with it. Every refusal leaves the store unchanged.\<close>

theorem handleHostWS_binds:
  assumes "store_inv (rl_store r)"
  shows "let (res, r') = handleHostWS_admit va req r; h = q_Get req ''host_id'' in
    ((\<exists>t. res = Inr t) \<longleftrightarrow> (\<exists>sub. bearerSub va req = Inr sub \<and> \<not> q_Has req ''channel'' \<and> validID h
        \<and> live_account h (rl_now r) (rl_store r) \<in> {None, Some sub}))
    \<and> (\<forall>sub h'. res = Inr (sub, h') \<longrightarrow> bearerSub va req = Inr sub \<and> h' = h
        \<and> (\<forall>t. rl_now r \<le> t \<and> t - rl_now r < ms_idleReap (rl_store r) \<longrightarrow>
             live_account h t (rl_store r') = Some sub
             \<and> (\<forall>other. other \<noteq> sub \<longrightarrow> BindHost h other t (rl_store r') = (Inl ErrBoundToOtherAccount, rl_store r'))))
    \<and> ((\<exists>resp. res = Inl resp) \<longrightarrow> r' = r)"
proof (cases "\<exists>sub. bearerSub va req = Inr sub \<and> \<not> q_Has req ''channel'' \<and> validID (q_Get req ''host_id'')")
  case False
  then have "\<exists>resp. handleHostWS_admit va req r = (Inl resp, r)"
    by (auto simp: handleHostWS_admit_def split: sum.splits)
  with False show ?thesis by (auto simp: Let_def)
next
  case True
  then obtain sub where sub: "bearerSub va req = Inr sub" "\<not> q_Has req ''channel''" "validID (q_Get req ''host_id'')"
    by blast
  let ?h = "q_Get req ''host_id''" and ?s = "rl_store r" and ?now = "rl_now r"
  show ?thesis
  proof (cases "\<exists>a. live_account ?h ?now ?s = Some a \<and> sub \<noteq> a")
    case True
    then have "BindHost ?h sub ?now ?s = (Inl ErrBoundToOtherAccount, ?s)" using BindHost_refused by blast
    with True sub show ?thesis by (auto simp: handleHostWS_admit_def Let_def)
  next
    case False
    then have ok: "\<not> isl (fst (BindHost ?h sub ?now ?s))" by (simp add: BindHost_ok_iff)
    then obtain b s' where B: "BindHost ?h sub ?now ?s = (Inr b, s')"
      by (cases "BindHost ?h sub ?now ?s"; cases "fst (BindHost ?h sub ?now ?s)") auto
    then have ad: "handleHostWS_admit va req r = (Inr (sub, ?h), r\<lparr>rl_store := snd (BindHost ?h sub ?now ?s)\<rparr>)"
      using sub by (simp add: handleHostWS_admit_def)
    have held: "live_account ?h t (snd (BindHost ?h sub ?now ?s)) = Some sub"
      if "?now \<le> t" "t - ?now < ms_idleReap ?s" for t
      using BindHost_held [OF store_invD(4) [OF assms] ok] that by simp
    have "live_account ?h ?now ?s \<in> {None, Some sub}" using False by (cases "live_account ?h ?now ?s") auto
    with sub ad held show ?thesis by (simp add: Let_def BindHost_refused)
  qed
qed

theorem handleHostWS_binds_witness:
  "\<exists>r'. handleHostWS_admit ex_va (ex_req [] JNull) (ex_relay []) = (Inr (''alice'', ex_id 1), r')
     \<and> BindHost (ex_id 1) ''mallory'' 0 (rl_store r') = (Inl ErrBoundToOtherAccount, rl_store r')"
proof -
  have q: "\<not> q_Has (ex_req [] JNull) ''channel''" "q_Get (ex_req [] JNull) ''host_id'' = ex_id 1"
    by (simp_all add: ex_req_def q_Has_def q_Get_def)
  obtain res r' where a: "handleHostWS_admit ex_va (ex_req [] JNull) (ex_relay []) = (res, r')" by fastforce
  note T = handleHostWS_binds [of "ex_relay []" ex_va "ex_req [] JNull", unfolded a Let_def prod.case]
  from T obtain t where t: "res = Inr t" using q by (auto simp: ex_store_inv)
  obtain sub h where th: "t = (sub, h)" by (cases t)
  have "0 < ms_idleReap ex_store" by (simp add: ex_store_def DefaultBindingIdleReap_def)
  with T t th q a show ?thesis by (auto simp: ex_store_inv)
qed

section \<open>Durable device attach\<close>

text \<open>A durable attach is admitted exactly when the channel id is well formed, registered by the
  caller's account, and below the attachment cap; the checks change nothing.\<close>

theorem deviceChannelAttach_admits:
  "let (res, r') = deviceChannelAttach_admit req sub r;
       ch = q_Get req ''channel''; cap = lt_DeviceAttachPerChannel (cf_Limits (rl_cfg r)) in
   r' = r \<and> ((\<exists>t. res = Inr t) \<longleftrightarrow> validID ch
     \<and> (\<exists>pr. PairingByChannel ch (rl_store r) = Some pr \<and> pr_AccountSub pr = sub)
     \<and> (cap \<le> 0 \<or> int (length (conns_of (rl_devConns r) ch)) < cap))"
  by (auto simp: deviceChannelAttach_admit_def authorizeChannel_def Let_def split: option.splits)


end
