(* ===== verification/Rest.thy ===== *)
theory Rest
  imports Admission
begin

text \<open>
  What the REST handlers change when they succeed: revocation of a pairing, opening a window and
  meeting in it, reading a mailbox, clearing a label.
\<close>

section \<open>Common to all handlers\<close>

text \<open>The live tables, timers, clock and configuration are untouched.\<close>

definition same_live :: "Relay \<Rightarrow> Relay \<Rightarrow> bool" where
  "same_live r r' \<longleftrightarrow> rl_cfg r' = rl_cfg r \<and> rl_hostConns r' = rl_hostConns r \<and> rl_devConns r' = rl_devConns r
     \<and> rl_pairConns r' = rl_pairConns r \<and> rl_presTimer r' = rl_presTimer r \<and> rl_winTimer r' = rl_winTimer r
     \<and> rl_closed r' = rl_closed r \<and> rl_now r' = rl_now r \<and> rl_next r' = rl_next r \<and> rl_fired r' = rl_fired r
     \<and> rl_pushes r' = rl_pushes r"

lemma same_live_refl [simp]: "same_live r r"
  by (simp add: same_live_def)

lemma same_live_allow: "rl_allow k ra b r = (ok, r1) \<Longrightarrow> same_live r r1"
  by (simp add: same_live_def rl_allow_result)

lemma same_live_store [simp]: "same_live r (r1\<lparr>rl_store := s\<rparr>) = same_live r r1"
  by (simp add: same_live_def)

lemma status_not_2xx [simp]:
  "(case httpStatus c of None \<Rightarrow> 500 | Some st \<Rightarrow> st) \<noteq> 201" "(case httpStatus c of None \<Rightarrow> 500 | Some st \<Rightarrow> st) \<noteq> 200"
  "(case httpStatus c of None \<Rightarrow> 500 | Some st \<Rightarrow> st) \<noteq> 204"
  by (cases c; simp)+

section \<open>Revocation\<close>

lemma PairingByChannel_deleted:
  assumes "store_inv s" "mget (ms_pairings s) i = Some pr"
  shows "PairingByChannel ch (snd (DeletePairing i s)) = (if ch = pr_ChannelID pr then None else PairingByChannel ch s)"
proof -
  have p: "pairings_inv s" using assms(1) by (rule store_invD)
  have "pr_PairingID pr = i" using pairings_invD(2) [OF p] assms(2) by blast
  then have own: "PairingByChannel (pr_ChannelID pr) s = Some pr" using p assms(2) by (simp add: PairingByChannel_iff)
  have "pr_PairingID q \<noteq> i" if "PairingByChannel ch s = Some q" "ch \<noteq> pr_ChannelID pr" for q
    using that p assms(2) by (auto simp: PairingByChannel_iff)
  with own \<open>pr_PairingID pr = i\<close> show ?thesis
    by (auto simp: PairingByChannel_delete [OF assms(1)] split: option.splits)
qed

lemma DeletePairing_mailbox: "mget (ms_pairings s) i = Some pr \<Longrightarrow>
    mget (ms_mailboxes (snd (DeletePairing i s))) ch = (if ch = pr_ChannelID pr then None else mget (ms_mailboxes s) ch)"
  by (simp add: DeletePairing_def Let_def)

lemma DeletePairing_token:
  assumes "store_inv s" "mget (ms_pairings s) i = Some pr"
    and "mget (ms_apns (snd (DeletePairing i s))) (pr_DeviceID pr) = Some tok"
  shows "\<exists>j q. mget (ms_pairings (snd (DeletePairing i s))) j = Some q \<and> pr_DeviceID q = pr_DeviceID pr"
proof -
  have "mwf (mdel i (ms_pairings s))" using pairings_invD(1) [OF store_invD(1) [OF assms(1)]] by simp
  moreover have "list_ex (\<lambda>q. pr_DeviceID q = pr_DeviceID pr) (mvals (mdel i (ms_pairings s)))"
    using assms(2,3) by (auto simp: DeletePairing_def Let_def split: if_splits)
  ultimately show ?thesis
    using assms(2) by (simp add: list_ex_mvals DeletePairing_pairings)
qed

definition owns_pairing :: "validator \<Rightarrow> Request \<Rightarrow> Relay \<Rightarrow> Pairing \<Rightarrow> bool" where
  "owns_pairing va req r pr \<longleftrightarrow> (\<exists>sub. bearerSub va req = Inr sub
     \<and> LookupPairing (rq_pathID req) (rl_store r) = Some pr \<and> pr_AccountSub pr = sub)"

lemma handleDeletePairing_refused:
  assumes "\<nexists>pr. owns_pairing va req r pr"
  shows "snd (handleDeletePairing va req r) = r" "rp_Status (fst (handleDeletePairing va req r)) \<noteq> 204"
proof -
  show "snd (handleDeletePairing va req r) = r"
    using assms by (auto simp: handleDeletePairing_def owns_pairing_def split: sum.splits option.splits)
  show "rp_Status (fst (handleDeletePairing va req r)) \<noteq> 204"
    using assms by (auto simp: handleDeletePairing_def owns_pairing_def split: sum.splits option.splits)
qed

lemma handleDeletePairing_ok:
  assumes "owns_pairing va req r pr" "store_inv (rl_store r)"
  shows "handleDeletePairing va req r = (no_content,
    upd_conns (conn_close 4403 ''pairing deleted'') (conns_of (rl_devConns r) (pr_ChannelID pr))
      (r\<lparr>rl_store := snd (DeletePairing (rq_pathID req) (rl_store r)),
         rl_devConns := mdel (pr_ChannelID pr) (rl_devConns r)\<rparr>))"
proof -
  have "pr_PairingID pr = rq_pathID req"
    using assms pairings_invD(2) [OF store_invD(1) [OF assms(2)]] by (auto simp: owns_pairing_def LookupPairing_def)
  with assms(1) show ?thesis
    by (auto simp: handleDeletePairing_def owns_pairing_def Let_def upd_store_def close_code_def)
qed

text \<open>C30. Deleting a pairing takes effect for its owner and nobody else. Afterwards the channel is
  unregistered while every other registration stands, its mailbox is gone, no device is attached
  to it and each one that was has been closed with 4403, and the device's push token survives
  only if another pairing of that device does.\<close>

theorem handleDeletePairing_revokes:
  assumes inv: "store_inv (rl_store r)" and dist: "\<And>ch. distinct (conns_of (rl_devConns r) ch)"
  shows "let (resp, r') = handleDeletePairing va req r; s = rl_store r; s' = rl_store r' in
    (rp_Status resp = 204 \<longleftrightarrow> (\<exists>pr. owns_pairing va req r pr))
    \<and> (rp_Status resp \<noteq> 204 \<longrightarrow> r' = r)
    \<and> (\<forall>pr. owns_pairing va req r pr \<longrightarrow>
        (\<forall>ch. PairingByChannel ch s' = (if ch = pr_ChannelID pr then None else PairingByChannel ch s))
        \<and> mget (ms_mailboxes s') (pr_ChannelID pr) = None
        \<and> conns_of (rl_devConns r') (pr_ChannelID pr) = []
        \<and> (\<forall>j w. j \<in> set (conns_of (rl_devConns r) (pr_ChannelID pr)) \<and> mget (rl_conns r) j = Some w \<longrightarrow>
             mget (rl_conns r') j = Some (conn_close 4403 ''pairing deleted'' w))
        \<and> (mget (ms_apns s') (pr_DeviceID pr) \<noteq> None \<longrightarrow>
             (\<exists>j q. mget (ms_pairings s') j = Some q \<and> pr_DeviceID q = pr_DeviceID pr)))"
proof (cases "\<exists>pr. owns_pairing va req r pr")
  case False
  with handleDeletePairing_refused [OF False] show ?thesis by (simp add: Let_def split_beta)
next
  case True
  then obtain pr where pr: "owns_pairing va req r pr" by blast
  have uniq: "owns_pairing va req r q \<longleftrightarrow> q = pr" for q using pr by (auto simp: owns_pairing_def)
  let ?s = "rl_store r" and ?i = "rq_pathID req"
  have p: "mget (ms_pairings ?s) ?i = Some pr" using pr by (auto simp: owns_pairing_def LookupPairing_def)
  have "conns_of (mdel (pr_ChannelID pr) (rl_devConns r)) (pr_ChannelID pr) = []" by (simp add: conns_of_def)
  moreover have "mget (ms_apns (snd (DeletePairing ?i ?s))) (pr_DeviceID pr) \<noteq> None \<longrightarrow>
      (\<exists>j q. mget (ms_pairings (snd (DeletePairing ?i ?s))) j = Some q \<and> pr_DeviceID q = pr_DeviceID pr)"
    using DeletePairing_token [OF inv p] by blast
  ultimately show ?thesis
    using PairingByChannel_deleted [OF inv p] DeletePairing_mailbox [OF p]
    unfolding handleDeletePairing_ok [OF pr inv] uniq
    by (simp add: no_content_def upd_conns_get [OF dist])
qed

theorem handleDeletePairing_revokes_witness:
  "let (resp, r') = handleDeletePairing ex_va (ex_req (ex_id 10) JNull) (ex_relay [1]) in
   rp_Status resp = 204 \<and> PairingByChannel (ex_id 7) (rl_store r') = None
   \<and> mget (rl_conns r') 1 = Some (conn_close 4403 ''pairing deleted'' ex_device)
   \<and> snd (handleDeletePairing ex_va (ex_req (ex_id 11) JNull) (ex_relay [1])) = ex_relay [1]"
proof -
  have own: "owns_pairing ex_va (ex_req (ex_id i) JNull) (ex_relay ds) pr \<longleftrightarrow> i = 10 \<and> pr = ex_pairing" for i ds pr
    by (auto simp: owns_pairing_def)
  show ?thesis
    using handleDeletePairing_revokes [of "ex_relay [1]" ex_va "ex_req (ex_id 10) JNull"]
      handleDeletePairing_revokes [of "ex_relay [1]" ex_va "ex_req (ex_id 11) JNull"]
    by (auto simp: own ex_store_inv split_beta Let_def)
qed

section \<open>Mailbox reads\<close>

text \<open>The two ways a mailbox request ends: refused, or answered with a page.\<close>

lemma handleMailboxGet_answer:
  obtains (refused) resp r' where "handleMailboxGet va req r = (resp, r')" "rp_Status resp \<noteq> 200" "rl_store r' = rl_store r"
  | (page) sub pr after limit items nxt trunc s' r' where
      "bearerSub va req = Inr sub" "authorizeChannel (rq_pathID req) sub r = Inr pr"
      "(if q_Get req ''after'' = [] then Some 0 else ParseUint (q_Get req ''after'')) = Some after" "1 \<le> limit" "limit \<le> 256"
      "FetchMailbox (rq_pathID req) after limit (rl_now r) (cf_MailboxTTL (rl_cfg r)) (rl_store r) = ((items, nxt, trunc), s')"
      "handleMailboxGet va req r = (json_response 200 (mailbox_json items nxt trunc), r')" "rl_store r' = s'"
proof (cases "\<exists>sub pr. bearerSub va req = Inr sub \<and> authorizeChannel (rq_pathID req) sub r = Inr pr")
  case False
  obtain resp r' where h: "handleMailboxGet va req r = (resp, r')" by fastforce
  with False have "rp_Status resp \<noteq> 200 \<and> r' = r" by (auto simp: handleMailboxGet_def split: sum.splits)
  then show thesis by (intro refused [OF h]) simp_all
next
  case True
  then obtain sub pr where sub: "bearerSub va req = Inr sub" and pr: "authorizeChannel (rq_pathID req) sub r = Inr pr"
    by blast
  obtain rate burst where pm: "perMinute (lt_MailboxGetPerMin (cf_Limits (rl_cfg r))) = (rate, burst)" by fastforce
  obtain ok r1 where l: "rl_allow (''mbxget:'' @ pr_DeviceID pr) rate burst r = (ok, r1)" by fastforce
  have r1: "rl_store r1 = rl_store r" "rl_now r1 = rl_now r" "rl_cfg r1 = rl_cfg r"
    using rl_allow_result [OF l] by simp_all
  let ?after = "if q_Get req ''after'' = [] then Some 0 else ParseUint (q_Get req ''after'')"
  let ?limit = "if q_Get req ''limit'' = [] then Some 64 else case ParseInt (q_Get req ''limit'') of
      None \<Rightarrow> None | Some v \<Rightarrow> if v < 1 then None else Some (min v 256)"
  have H: "handleMailboxGet va req r =
    (if \<not> ok then (writeErrorRetry CodeRateLimited ''mailbox fetch limit'' 60, r1)
     else case ?after of
       None \<Rightarrow> (writeError CodeProtocolViolation ''after must be a uint64'', r1)
     | Some after \<Rightarrow> (case ?limit of
         None \<Rightarrow> (writeError CodeProtocolViolation ''limit must be a positive integer'', r1)
       | Some limit \<Rightarrow>
           case FetchMailbox (rq_pathID req) after limit (rl_now r1) (cf_MailboxTTL (rl_cfg r1)) (rl_store r1) of
             ((items, nextAfter, truncated), s) \<Rightarrow>
               (json_response 200 (mailbox_json items nextAfter truncated), r1\<lparr>rl_store := s\<rparr>)))"
    unfolding handleMailboxGet_def sub pr sum.case pm prod.case l Let_def by (simp only: split_def)
  show thesis
  proof (cases "ok \<and> ?after \<noteq> None \<and> ?limit \<noteq> None")
    case False
    then have "\<exists>resp. handleMailboxGet va req r = (resp, r1) \<and> rp_Status resp \<noteq> 200"
      unfolding H by (auto split: option.split)
    then show thesis using r1 refused by auto
  next
    case True
    then obtain after limit where al: "?after = Some after" "?limit = Some limit" "ok" by blast
    have lim: "1 \<le> limit" "limit \<le> 256" using al(2) by (auto split: if_splits option.splits)
    obtain page s' where f: "FetchMailbox (rq_pathID req) after limit (rl_now r) (cf_MailboxTTL (rl_cfg r)) (rl_store r) = (page, s')"
      by fastforce
    obtain items nxt trunc where pg: "page = (items, nxt, trunc)" by (cases page)
    have "handleMailboxGet va req r = (json_response 200 (mailbox_json items nxt trunc), r1\<lparr>rl_store := s'\<rparr>)"
      unfolding H al(1,2) using al(3) f pg r1 by simp
    then show thesis using page [OF sub pr al(1) lim] f pg by simp
  qed
qed

text \<open>Only the account that registered a channel reads its mailbox: a mailbox request answers 200
  only to it, and the answer lists the stored frames of the page with their sequence numbers, push
  classes and bodies as they were stored. A refused request changes no stored record.\<close>

theorem handleMailboxGet_owner_only:
  "let (resp, r') = handleMailboxGet va req r in
   (rp_Status resp = 200 \<longrightarrow> (\<exists>sub pr after limit page.
      bearerSub va req = Inr sub \<and> PairingByChannel (rq_pathID req) (rl_store r) = Some pr \<and> pr_AccountSub pr = sub
      \<and> 1 \<le> limit \<and> limit \<le> 256
      \<and> FetchMailbox (rq_pathID req) after limit (rl_now r) (cf_MailboxTTL (rl_cfg r)) (rl_store r) = (page, rl_store r')
      \<and> resp = json_response 200 (mailbox_json (fst page) (fst (snd page)) (snd (snd page)))))
   \<and> (rp_Status resp \<noteq> 200 \<longrightarrow> rl_store r' = rl_store r)"
proof (cases rule: handleMailboxGet_answer [of va req r])
  case (refused resp r')
  then show ?thesis by simp
next
  case (page sub pr after limit items nxt trunc s' r')
  then show ?thesis
    by (auto simp: authorizeChannel_iff json_response_def intro!: exI [of _ after] exI [of _ limit])
qed

theorem handleMailboxGet_owner_only_witness:
  "rp_Status (fst (handleMailboxGet ex_va (ex_req (ex_id 7) JNull) (ex_relay []))) = 200
   \<and> (\<exists>sub pr. bearerSub ex_va (ex_req (ex_id 7) JNull) = Inr sub
        \<and> PairingByChannel (ex_id 7) (rl_store (ex_relay [])) = Some pr \<and> pr_AccountSub pr = sub)"
proof -
  have q: "q_Get (ex_req (ex_id 7) JNull) ''after'' = []" "q_Get (ex_req (ex_id 7) JNull) ''limit'' = []"
    by (simp_all add: ex_req_def q_Get_def)
  have a: "authorizeChannel (ex_id 7) ''alice'' (ex_relay []) = Inr ex_pairing" by (simp add: authorizeChannel_def)
  have "rp_Status (fst (handleMailboxGet ex_va (ex_req (ex_id 7) JNull) (ex_relay []))) = 200"
    unfolding handleMailboxGet_def ex_req_sub ex_req_path sum.case a q by (simp add: split_beta json_response_def)
  then show ?thesis
    using handleMailboxGet_owner_only [of ex_va "ex_req (ex_id 7) JNull" "ex_relay []"] by (simp add: split_beta)
qed

section \<open>Meeting in a pairing window\<close>

lemma tearDownWindow_frame [simp]:
  "rl_cfg (tearDownWindow i r) = rl_cfg r" "rl_limiter (tearDownWindow i r) = rl_limiter r"
  "rl_store (tearDownWindow i r) = rl_store r" "rl_hostConns (tearDownWindow i r) = rl_hostConns r"
  "rl_devConns (tearDownWindow i r) = rl_devConns r" "rl_presTimer (tearDownWindow i r) = rl_presTimer r"
  "rl_closed (tearDownWindow i r) = rl_closed r" "rl_now (tearDownWindow i r) = rl_now r"
  "rl_next (tearDownWindow i r) = rl_next r" "rl_fired (tearDownWindow i r) = rl_fired r"
  "rl_pushes (tearDownWindow i r) = rl_pushes r"
  "rl_winTimer (tearDownWindow i r) = mdel i (rl_winTimer r)" "rl_pairConns (tearDownWindow i r) = mdel i (rl_pairConns r)"
  by (simp_all add: tearDownWindow_def Let_def)

definition new_window :: "string \<Rightarrow> string \<Rightarrow> string \<Rightarrow> Relay \<Rightarrow> Window" where
  "new_window h id1 id2 r = \<lparr>wd_WindowID = id1, wd_HostID = h, wd_ProvisionalChannel = id2,
     wd_ExpiresAt = rl_now r + cf_WindowTTL (rl_cfg r), wd_Attaches = 0\<rparr>"

text \<open>The part of \<open>handleOpenWindow\<close> after its guards.\<close>

definition install_window :: "string \<Rightarrow> string \<Rightarrow> string \<Rightarrow> Relay \<Rightarrow> Relay" where
  "install_window h id1 id2 r =
     (let (displaced, s) = OpenWindow (new_window h id1 id2 r) (rl_store r);
          r1 = r\<lparr>rl_store := s\<rparr>;
          r2 = (case displaced of None \<Rightarrow> r1 | Some w \<Rightarrow> tearDownWindow (wd_WindowID w) r1)
      in if rl_closed r2 then r2
         else r2\<lparr>rl_winTimer := mput id1 (AfterFunc (cf_WindowTTL (rl_cfg r2)) (rl_now r2)) (rl_winTimer r2)\<rparr>)"

lemma install_window_frame [simp]:
  "rl_cfg (install_window h i c r) = rl_cfg r" "rl_now (install_window h i c r) = rl_now r"
  "rl_store (install_window h i c r) = snd (OpenWindow (new_window h i c r) (rl_store r))"
  "rl_hostConns (install_window h i c r) = rl_hostConns r" "rl_devConns (install_window h i c r) = rl_devConns r"
  "rl_presTimer (install_window h i c r) = rl_presTimer r" "rl_closed (install_window h i c r) = rl_closed r"
  "rl_next (install_window h i c r) = rl_next r" "rl_fired (install_window h i c r) = rl_fired r"
  "rl_pushes (install_window h i c r) = rl_pushes r"
  by (simp_all add: install_window_def Let_def split_beta split: option.split)

lemma handleOpenWindow_cases:
  obtains (refused) "rp_Status (fst (handleOpenWindow va req id1 id2 r)) \<noteq> 201"
      "rl_store (snd (handleOpenWindow va req id1 id2 r)) = rl_store r
       \<or> (\<exists>h. rl_store (snd (handleOpenWindow va req id1 id2 r)) = snd (LookupBinding h (rl_now r) (rl_store r)))"
      "rl_conns (snd (handleOpenWindow va req id1 id2 r)) = rl_conns r"
      "same_live r (snd (handleOpenWindow va req id1 id2 r))"
  | (opened) sub h r1 where "bearerSub va req = Inr sub" "decodeJSON req window_body = Some h" "validID h"
      "live_account h (rl_now r) (rl_store r) = Some sub"
      "rl_store r1 = snd (LookupBinding h (rl_now r) (rl_store r))" "rl_conns r1 = rl_conns r" "same_live r r1"
      "handleOpenWindow va req id1 id2 r = (json_response 201 (JObj [(''expires_at'', JStr (format_rfc3339 (wd_ExpiresAt (new_window h id1 id2 r1)))),
          (''provisional_channel'', JStr id2), (''window_id'', JStr id1)]), install_window h id1 id2 r1)"
proof (cases "\<exists>sub h. bearerSub va req = Inr sub \<and> decodeJSON req window_body = Some h \<and> validID h")
  case False
  then have "\<exists>c m. handleOpenWindow va req id1 id2 r = (writeError c m, r)"
    by (auto simp: handleOpenWindow_def split: sum.splits option.splits)
  then show ?thesis by (intro refused) auto
next
  case True
  then obtain sub h where sub: "bearerSub va req = Inr sub" and h: "decodeJSON req window_body = Some h" and v: "validID h"
    by blast
  then have nv: "(\<not> validID h) = False" by simp
  obtain rate burst where ph: "perHour (lt_PairingWindowsPerHour (cf_Limits (rl_cfg r))) = (rate, burst)" by fastforce
  obtain ok r1 where l: "rl_allow (''windows:'' @ h) rate burst r = (ok, r1)" by fastforce
  obtain e r2 where a: "authorizeHostID h sub r1 = (e, r2)" by fastforce
  have H: "handleOpenWindow va req id1 id2 r =
    (if \<not> ok then (writeErrorRetry CodeRateLimited ''pairing-window limit'' 3600, r1)
     else case e of
       Some ec \<Rightarrow> (writeError ec ''host_id is not bound to this account'', r2)
     | None \<Rightarrow> (json_response 201 (JObj [(''expires_at'', JStr (format_rfc3339 (wd_ExpiresAt (new_window h id1 id2 r2)))),
          (''provisional_channel'', JStr id2), (''window_id'', JStr id1)]), install_window h id1 id2 r2))"
    unfolding handleOpenWindow_def sub h sum.case option.case nv if_False ph prod.case l Let_def a
    by (simp add: install_window_def new_window_def Let_def split_beta split: option.split)
  have r1: "same_live r r1" "rl_store r1 = rl_store r" "rl_conns r1 = rl_conns r"
    using rl_allow_result [OF l] same_live_allow [OF l] by simp_all
  have "rl_now r1 = rl_now r" using r1(1) by (simp add: same_live_def)
  then have r2: "same_live r r2" "rl_store r2 = snd (LookupBinding h (rl_now r) (rl_store r))" "rl_conns r2 = rl_conns r"
    using authorizeHostID_frame [of h sub r1] r1 unfolding a snd_conv by (simp_all add: same_live_def)
  show ?thesis
  proof (cases "ok \<and> e = None")
    case True
    have "live_account h (rl_now r) (rl_store r) = Some sub"
      using authorizeHostID_iff [of h sub r1] True a r1 \<open>rl_now r1 = rl_now r\<close> by simp
    with True show ?thesis by (intro opened [OF sub h v _ r2(2,3,1)]) (simp_all add: H)
  next
    case False
    then show ?thesis using r1 r2 by (intro refused) (auto simp: H split: option.split)
  qed
qed

text \<open>The window just opened is the host's only window.\<close>

lemma OpenWindow_installed:
  assumes "windows_inv s" "mget (ms_windows s) (wd_WindowID w) = None"
  shows "mget (ms_windows (snd (OpenWindow w s))) (wd_WindowID w) = Some w"
    and "mget (ms_windows (snd (OpenWindow w s))) i = Some v \<Longrightarrow> wd_HostID v = wd_HostID w \<Longrightarrow> i = wd_WindowID w"
proof -
  show 1: "mget (ms_windows (snd (OpenWindow w s))) (wd_WindowID w) = Some w"
    by (simp add: OpenWindow_eq [OF assms(1)] Let_def)
  assume v: "mget (ms_windows (snd (OpenWindow w s))) i = Some v" "wd_HostID v = wd_HostID w"
  have ix: "indexes (ms_winByHost (snd (OpenWindow w s))) (ms_windows (snd (OpenWindow w s))) wd_HostID"
    using windows_inv_OpenWindow [OF assms] by (rule windows_invD)
  show "i = wd_WindowID w" using indexesD [OF ix 1] indexesD [OF ix v(1)] v(2) by simp
qed

text \<open>C29. A window is opened only for the account the named host id is bound to. It is the host's only one, and both ends of the ceremony meet in it:
  until it expires, a device of the same account that attaches by host id is admitted to exactly
  this window and is given the provisional channel the host was given. The window id and channel
  are those drawn for it; a window id already in use is excluded by the hypothesis that identifiers
  are drawn fresh.\<close>

theorem pairing_rendezvous:
  assumes inv: "store_inv (rl_store r)" and fresh: "mget (ms_windows (rl_store r)) id1 = None"
    and created: "handleOpenWindow va req id1 id2 r = (resp, r')" "rp_Status resp = 201"
  shows "\<exists>sub h. bearerSub va req = Inr sub \<and> decodeJSON req window_body = Some h \<and> validID h
    \<and> live_account h (rl_now r) (rl_store r) = Some sub
    \<and> resp = json_response 201 (JObj [(''expires_at'', JStr (format_rfc3339 (rl_now r + cf_WindowTTL (rl_cfg r)))),
          (''provisional_channel'', JStr id2), (''window_id'', JStr id1)])
    \<and> (\<forall>i w. mget (ms_windows (rl_store r')) i = Some w \<and> wd_HostID w = h \<longrightarrow> i = id1)
    \<and> (\<forall>t. t < rl_now r + cf_WindowTTL (rl_cfg r) \<and> live_account h t (rl_store r') = Some sub \<longrightarrow>
         (\<exists>w. fst (devicePairingAttach_admit sub h (r'\<lparr>rl_now := t\<rparr>)) = Inr (PairingTicket sub w)
           \<and> wd_WindowID w = id1 \<and> wd_ProvisionalChannel w = id2))"
  using created
proof (cases rule: handleOpenWindow_cases [of va req id1 id2 r])
  case (opened sub h r1)
  let ?s1 = "rl_store r1" and ?w = "new_window h id1 id2 r1"
  have r': "r' = install_window h id1 id2 r1" using opened created by simp
  have now: "rl_now r1 = rl_now r" "rl_cfg r1 = rl_cfg r" using opened(7) by (simp_all add: same_live_def)
  have s1: "store_inv ?s1" using opened(5) inv by simp
  have fr: "mget (ms_windows ?s1) (wd_WindowID ?w) = None" using fresh opened(5) by (simp add: new_window_def)
  have inv': "store_inv (rl_store r')" using store_inv_OpenWindow [OF s1 fr] by (simp add: r')
  have w: "mget (ms_windows (rl_store r')) id1 = Some ?w"
    using OpenWindow_installed(1) [OF store_invD(2) [OF s1] fr] by (simp add: r' new_window_def)
  have only: "i = id1" if "mget (ms_windows (rl_store r')) i = Some v" "wd_HostID v = h" for i v
    using OpenWindow_installed(2) [OF store_invD(2) [OF s1] fr, of i v] that by (simp add: r' new_window_def)
  have "fst (devicePairingAttach_admit sub h (r'\<lparr>rl_now := t\<rparr>)) = Inr (PairingTicket sub ?w)"
    if t: "t < rl_now r + cf_WindowTTL (rl_cfg r)" and acc: "live_account h t (rl_store r') = Some sub" for t
  proof -
    have "open_window h t (rl_store r') = Some ?w"
      using w t now by (simp add: open_window_iff [OF store_invD(2) [OF inv']]) (simp add: new_window_def)
    with acc opened(3) inv' show ?thesis
      by (simp add: devicePairingAttach_cases may_pair_def attach_room_def) (auto simp: new_window_def)
  qed
  then have "\<forall>t. t < rl_now r + cf_WindowTTL (rl_cfg r) \<and> live_account h t (rl_store r') = Some sub \<longrightarrow>
         (\<exists>w. fst (devicePairingAttach_admit sub h (r'\<lparr>rl_now := t\<rparr>)) = Inr (PairingTicket sub w)
           \<and> wd_WindowID w = id1 \<and> wd_ProvisionalChannel w = id2)"
    by (auto simp: new_window_def)
  moreover have "resp = json_response 201 (JObj [(''expires_at'', JStr (format_rfc3339 (rl_now r + cf_WindowTTL (rl_cfg r)))),
          (''provisional_channel'', JStr id2), (''window_id'', JStr id1)])"
    using opened(8) created(1) now by (simp add: new_window_def)
  ultimately show ?thesis using opened(1-4) only by blast
qed simp

lemma ex_window_req: "decodeJSON (ex_req [] (JObj [(''host_id'', JStr (ex_id 1))])) window_body = Some (ex_id 1)"
proof -
  have "plain (ex_id 1)" by (simp add: validID_plain)
  moreover have "length (ex_id 1) = 22" by (simp add: validID_length)
  ultimately show ?thesis
    by (subst ex_req_decodes) (simp_all add: plain_char_def marshal_def maxRequestBody_def quote_plain window_body_def into_struct_def
        field_of_exact window_field_def into_string_def)
qed

theorem pairing_rendezvous_witness:
  "\<exists>r'. rp_Status (fst (handleOpenWindow ex_va (ex_req [] (JObj [(''host_id'', JStr (ex_id 1))])) (ex_id 20) (ex_id 21) (ex_relay []))) = 201
     \<and> r' = snd (handleOpenWindow ex_va (ex_req [] (JObj [(''host_id'', JStr (ex_id 1))])) (ex_id 20) (ex_id 21) (ex_relay []))
     \<and> {i. \<exists>w. mget (ms_windows (rl_store r')) i = Some w \<and> wd_HostID w = ex_id 1} \<subseteq> {ex_id 20}"
proof -
  let ?req = "ex_req [] (JObj [(''host_id'', JStr (ex_id 1))])"
  obtain resp r' where o: "handleOpenWindow ex_va ?req (ex_id 20) (ex_id 21) (ex_relay []) = (resp, r')" by fastforce
  obtain e r2 where a: "authorizeHostID (ex_id 1) ''alice'' (ex_relay []) = (e, r2)" by fastforce
  have "e = None" using authorizeHostID_iff [of "ex_id 1" "''alice''" "ex_relay []"] a by simp
  then have st: "rp_Status resp = 201"
    using o unfolding handleOpenWindow_def ex_req_sub sum.case ex_window_req option.case
    by (auto simp: a json_response_def split_beta Let_def)
  have "mget (ms_windows (rl_store (ex_relay []))) (ex_id 20) = None" by (simp add: ex_store_def mget_def)
  from pairing_rendezvous [OF _ this o st] show ?thesis by (auto simp: ex_store_inv ex_window_req o json_response_def)
qed

section \<open>Labels\<close>

text \<open>Clearing the host label is the owner's reduction control: a request whose body is the label
  set to null leaves the owner's pairing without one, and the alert pushed for a frame on a
  pairing without label carries no operator-authored text at all.\<close>

theorem patch_null_clears_label:
  assumes "bearerSub va req = Inr sub" "decodeJSON req raw_body = Some [(''host_label'', JNull)]"
    and "LookupPairing (rq_pathID req) (rl_store r) = Some pr" "pr_AccountSub pr = sub" "store_inv (rl_store r)"
  shows "let (resp, r') = handlePatchPairing va req r in
    rp_Status resp = 204
    \<and> LookupPairing (rq_pathID req) (rl_store r') = Some (pr\<lparr>pr_HostLabel := None\<rparr>)
    \<and> (\<forall>ch q. set (json_strings (attentionPayload (pr_HostLabel (pr\<lparr>pr_HostLabel := None\<rparr>)) ch q))
          = {LocKeyGeneric, ''default'', ch})"
proof -
  have "pr_PairingID pr = rq_pathID req"
    using assms pairings_invD(2) [OF store_invD(1) [OF assms(5)]] by (auto simp: LookupPairing_def)
  moreover have "mget [(''host_label'', JNull)] ''host_label'' = Some JNull" by (simp add: mget_def)
  ultimately show ?thesis
    using assms by (simp add: handlePatchPairing_def patch_label_def no_content_def upd_store_def
        SetHostLabel_def LookupPairing_def payload_strings)
qed

theorem patch_null_clears_label_witness:
  "let (resp, r') = handlePatchPairing ex_va (ex_req (ex_id 10) (JObj [(''host_label'', JNull)])) (ex_relay []) in
   rp_Status resp = 204 \<and> LookupPairing (ex_id 10) (rl_store r') = Some (ex_pairing\<lparr>pr_HostLabel := None\<rparr>)"
proof -
  have "decodeJSON (ex_req (ex_id 10) (JObj [(''host_label'', JNull)])) raw_body = Some [(''host_label'', JNull)]"
    by (subst ex_req_decodes) (simp_all add: plain_char_def marshal_def maxRequestBody_def quote_plain raw_body_def mput_def)
  then show ?thesis
    using patch_null_clears_label [of ex_va "ex_req (ex_id 10) (JObj [(''host_label'', JNull)])" "''alice''" "ex_relay []" ex_pairing]
    by (auto simp: ex_store_inv)
qed

end
