(* ===== verification/Routing.thy ===== *)
theory Routing
  imports Sample
begin

text \<open>
  Correctness of the router: the three-way split of host frames, verbatim forwarding, what may
  push and what may be buffered, device frames, and the independence of everything the relay
  says from frame bodies.
\<close>

section \<open>Delivery to connections\<close>

lemma enqueue_simps [simp]:
  "wc_role (enqueue m w) = wc_role w" "wc_sub (enqueue m w) = wc_sub w" "wc_hostID (enqueue m w) = wc_hostID w"
  "wc_channel (enqueue m w) = wc_channel w" "wc_winID (enqueue m w) = wc_winID w"
  "wc_closed (enqueue m w) = wc_closed w" "wc_written (enqueue m w) = wc_written w"
  by (simp_all add: enqueue_def)

definition delivered :: "outMsg \<Rightarrow> nat list \<Rightarrow> Relay \<Rightarrow> Relay \<Rightarrow> bool" where
  "delivered m is r r' \<longleftrightarrow>
     (\<forall>j. mget (rl_conns r') j = map_option (\<lambda>w. if j \<in> set is then enqueue m w else w) (mget (rl_conns r) j))"

lemma map_option_if_id: "map_option (\<lambda>w. if b then f w else w) x = (if b then map_option f x else x)"
  by (cases x) auto

lemma upd_conns_delivered:
  assumes "distinct is" shows "delivered m is r (upd_conns (enqueue m) is r)"
  using upd_conns_get [OF assms] by (simp add: delivered_def map_option_if_id)

lemma sendBinary_alt: "sendBinary raw = enqueue \<lparr>om_typ = MessageBinary, om_data = raw\<rparr>"
  by (simp add: fun_eq_iff sendBinary_def)

lemma sendText_alt: "sendText raw = enqueue \<lparr>om_typ = MessageText, om_data = raw\<rparr>"
  by (simp add: fun_eq_iff sendText_def)

lemma upd_conn_delivered: "delivered m [i] r (upd_conn (enqueue m) i r)"
  by (simp add: delivered_def map_option_if_id)

lemma delivered_none: "rl_conns r' = rl_conns r \<Longrightarrow> delivered m [] r r'"
  by (simp add: delivered_def option.map_ident)

text \<open>Only the table of connections changes.\<close>

definition same_tables :: "Relay \<Rightarrow> Relay \<Rightarrow> bool" where
  "same_tables r r' \<longleftrightarrow> rl_cfg r' = rl_cfg r \<and> rl_hostConns r' = rl_hostConns r \<and> rl_devConns r' = rl_devConns r
     \<and> rl_pairConns r' = rl_pairConns r \<and> rl_winTimer r' = rl_winTimer r \<and> rl_presTimer r' = rl_presTimer r
     \<and> rl_closed r' = rl_closed r \<and> rl_now r' = rl_now r \<and> rl_next r' = rl_next r \<and> rl_fired r' = rl_fired r"

section \<open>Host frames past the guards\<close>

definition host_limited :: "nat \<Rightarrow> Relay \<Rightarrow> bool \<times> Relay" where
  "host_limited i r = rl_allow (''hostframes:'' @ conn_hostID i r) (lt_HostFramesPerSec (cf_Limits (rl_cfg r)))
     (lt_HostFramesBurst (cf_Limits (rl_cfg r))) r"

text \<open>A frame that passes the size, framing and rate guards.\<close>

definition host_frame_ok :: "nat \<Rightarrow> bytes \<Rightarrow> Relay \<Rightarrow> Header \<Rightarrow> bytes \<Rightarrow> bool" where
  "host_frame_ok i raw r h body \<longleftrightarrow> int (length raw) \<le> cf_MaxFrameSize (rl_cfg r)
     \<and> DecodeFrame raw (cf_MaxHeaderLen (rl_cfg r)) = Inr (h, body) \<and> fst (host_limited i r)"

text \<open>The host's open window at the frame's time, and the store after that lookup.\<close>

definition host_window :: "nat \<Rightarrow> Relay \<Rightarrow> Window option" where
  "host_window i r = fst (WindowForHost (conn_hostID i r) (rl_now r) (rl_store r))"

definition reaped_store :: "nat \<Rightarrow> Relay \<Rightarrow> MemStore" where
  "reaped_store i r = snd (WindowForHost (conn_hostID i r) (rl_now r) (rl_store r))"

definition guarded :: "nat \<Rightarrow> Relay \<Rightarrow> Relay" where
  "guarded i r = (snd (host_limited i r))\<lparr>rl_store := reaped_store i r\<rparr>"

lemma host_limited_frame [simp]:
  "rl_cfg (snd (host_limited i r)) = rl_cfg r" "rl_store (snd (host_limited i r)) = rl_store r"
  "rl_hostConns (snd (host_limited i r)) = rl_hostConns r" "rl_devConns (snd (host_limited i r)) = rl_devConns r"
  "rl_pairConns (snd (host_limited i r)) = rl_pairConns r" "rl_presTimer (snd (host_limited i r)) = rl_presTimer r"
  "rl_winTimer (snd (host_limited i r)) = rl_winTimer r" "rl_closed (snd (host_limited i r)) = rl_closed r"
  "rl_now (snd (host_limited i r)) = rl_now r" "rl_conns (snd (host_limited i r)) = rl_conns r"
  "rl_next (snd (host_limited i r)) = rl_next r" "rl_fired (snd (host_limited i r)) = rl_fired r"
  "rl_pushes (snd (host_limited i r)) = rl_pushes r"
  by (simp_all add: host_limited_def)

lemma guarded_frame [simp]:
  "rl_cfg (guarded i r) = rl_cfg r" "rl_store (guarded i r) = reaped_store i r"
  "rl_hostConns (guarded i r) = rl_hostConns r" "rl_devConns (guarded i r) = rl_devConns r"
  "rl_pairConns (guarded i r) = rl_pairConns r" "rl_presTimer (guarded i r) = rl_presTimer r"
  "rl_winTimer (guarded i r) = rl_winTimer r" "rl_closed (guarded i r) = rl_closed r"
  "rl_now (guarded i r) = rl_now r" "rl_conns (guarded i r) = rl_conns r"
  "rl_next (guarded i r) = rl_next r" "rl_fired (guarded i r) = rl_fired r" "rl_pushes (guarded i r) = rl_pushes r"
  by (simp_all add: guarded_def)

lemma PairingByChannel_reaped [simp]: "PairingByChannel c (reaped_store i r) = PairingByChannel c (rl_store r)"
  by (simp add: PairingByChannel_def reaped_store_def split: option.splits)

lemma LookupAPNS_reaped [simp]: "LookupAPNSToken d (reaped_store i r) = LookupAPNSToken d (rl_store r)"
  by (simp add: LookupAPNSToken_def reaped_store_def)

lemma mailboxes_reaped [simp]: "ms_mailboxes (reaped_store i r) = ms_mailboxes (rl_store r)"
  by (simp add: reaped_store_def)

text \<open>The part of \<open>routeHostFrame\<close> after its guards.\<close>

lemma routeHostFrame_ok:
  assumes "host_frame_ok i raw r h body"
  shows "routeHostFrame i raw r =
    (if (case host_window i r of None \<Rightarrow> False | Some w \<Rightarrow> wd_ProvisionalChannel w = hd_Channel h)
     then (True, upd_conns (sendBinary raw) (conns_of (rl_pairConns r) (wd_WindowID (the (host_window i r)))) (guarded i r))
     else if (case PairingByChannel (hd_Channel h) (rl_store r) of None \<Rightarrow> True | Some pr \<Rightarrow> pr_HostID pr \<noteq> conn_hostID i r)
     then (True, upd_conn (sendText (controlError CodeNotFound (hd_Channel h))) i (guarded i r))
     else if deviceAttachedNow (hd_Channel h) r
     then (True, upd_conns (sendBinary raw) (conns_of (rl_devConns r) (hd_Channel h)) (guarded i r))
     else (True, maybePush (the (PairingByChannel (hd_Channel h) (rl_store r))) h
            (upd_store (AppendMailbox (hd_Channel h) \<lparr>mi_Seq = hd_Seq h, mi_PushClass = hd_PushClass h,
               mi_Body = body, mi_StoredAt = rl_now r\<rparr> (mailboxPolicy (rl_cfg r))) (guarded i r))))"
proof -
  obtain ok r1 where l: "host_limited i r = (ok, r1)" by (cases "host_limited i r")
  obtain win s where w: "WindowForHost (conn_hostID i r) (rl_now r) (rl_store r) = (win, s)"
    by (cases "WindowForHost (conn_hostID i r) (rl_now r) (rl_store r)")
  have r1: "rl_now r1 = rl_now r" "rl_store r1 = rl_store r" "rl_pairConns r1 = rl_pairConns r"
    "rl_devConns r1 = rl_devConns r"
    using host_limited_frame [of i r] by (simp_all add: l)
  have g: "guarded i r = r1\<lparr>rl_store := s\<rparr>" "host_window i r = win" "reaped_store i r = s"
    by (simp_all add: guarded_def host_window_def reaped_store_def l w)
  have p: "PairingByChannel c s = PairingByChannel c (rl_store r)" for c
    using PairingByChannel_reaped [of c i r] g by simp
  show ?thesis
    using assms l w r1 g p
    by (simp add: routeHostFrame_def host_frame_ok_def host_limited_def Let_def deviceAttachedNow_def
        split: if_splits)
qed

lemma routeHostFrame_not_ok:
  assumes "DecodeFrame raw (cf_MaxHeaderLen (rl_cfg r)) = Inr (h, body)" "\<not> host_frame_ok i raw r h body"
  shows "routeHostFrame i raw r =
    (if cf_MaxFrameSize (rl_cfg r) < int (length raw) then close_with CodeFrameTooLarge (code_str CodeFrameTooLarge) i r
     else close_with CodeRateLimited (code_str CodeRateLimited) i (snd (host_limited i r)))"
proof -
  obtain ok r1 where l: "host_limited i r = (ok, r1)" by (cases "host_limited i r")
  with assms show ?thesis by (simp add: routeHostFrame_def host_frame_ok_def host_limited_def Let_def)
qed

definition provisional :: "nat \<Rightarrow> Relay \<Rightarrow> string \<Rightarrow> bool" where
  "provisional i r ch \<longleftrightarrow> (case host_window i r of None \<Rightarrow> False | Some w \<Rightarrow> wd_ProvisionalChannel w = ch)"

definition owned_channel :: "nat \<Rightarrow> Relay \<Rightarrow> string \<Rightarrow> Pairing \<Rightarrow> bool" where
  "owned_channel i r ch pr \<longleftrightarrow> PairingByChannel ch (rl_store r) = Some pr \<and> pr_HostID pr = conn_hostID i r"

definition binary :: "bytes \<Rightarrow> outMsg" where
  "binary raw = \<lparr>om_typ = MessageBinary, om_data = raw\<rparr>"

definition control :: "bytes \<Rightarrow> outMsg" where
  "control data = \<lparr>om_typ = MessageText, om_data = data\<rparr>"

text \<open>The sample relay's host sends on channel \<open>ch\<close>.\<close>

lemma ex_host_frame [simp]:
  "validPushClass pc \<Longrightarrow> length body \<le> 65536 \<Longrightarrow>
     host_frame_ok 0 (ex_msg ch pc body) (ex_relay ds) \<lparr>hd_Channel = ex_id ch, hd_Seq = 42, hd_PushClass = pc\<rparr> body"
  "host_window 0 (ex_relay ds) = Some ex_window" "reaped_store 0 (ex_relay ds) = ex_store"
  "provisional 0 (ex_relay ds) (ex_id ch) \<longleftrightarrow> ch = 5"
  "owned_channel 0 (ex_relay ds) (ex_id ch) pr \<longleftrightarrow> ch = 7 \<and> pr = ex_pairing"
  "deviceAttachedNow (ex_id 7) (ex_relay ds) \<longleftrightarrow> ds \<noteq> []"
  by (auto simp: host_frame_ok_def host_limited_def host_window_def reaped_store_def provisional_def owned_channel_def
      deviceAttachedNow_def)

text \<open>C2. First arm of the router: a frame on one of the host's registered channels with a device
  attached is forwarded to exactly the attached devices, byte for byte; nothing is buffered and
  nothing is pushed.\<close>

theorem routeHostFrame_forwards:
  assumes "host_frame_ok i raw r h body" "\<not> provisional i r (hd_Channel h)"
    and "owned_channel i r (hd_Channel h) pr" "deviceAttachedNow (hd_Channel h) r"
    and "distinct (conns_of (rl_devConns r) (hd_Channel h))"
  shows "let (more, r') = routeHostFrame i raw r in
    more \<and> delivered (binary raw) (conns_of (rl_devConns r) (hd_Channel h)) r r'
    \<and> rl_store r' = reaped_store i r \<and> rl_pushes r' = rl_pushes r \<and> same_tables r r'"
proof -
  have d: "delivered (binary raw) (conns_of (rl_devConns r) (hd_Channel h)) (guarded i r)
      (upd_conns (sendBinary raw) (conns_of (rl_devConns r) (hd_Channel h)) (guarded i r))"
    unfolding sendBinary_alt binary_def [symmetric] using assms(5) by (rule upd_conns_delivered)
  then have "delivered (binary raw) (conns_of (rl_devConns r) (hd_Channel h)) r
      (upd_conns (sendBinary raw) (conns_of (rl_devConns r) (hd_Channel h)) (guarded i r))"
    by (simp add: delivered_def)
  then show ?thesis
    using assms(2-4) unfolding routeHostFrame_ok [OF assms(1)]
    by (simp add: provisional_def owned_channel_def same_tables_def)
qed

theorem routeHostFrame_forwards_witness:
  "let (more, r') = routeHostFrame 0 (ex_msg 7 ''wake'' [1, 2, 3]) (ex_relay [1]) in
   more \<and> mget (rl_conns r') 1 = Some (enqueue (binary (ex_msg 7 ''wake'' [1, 2, 3])) ex_device)
   \<and> rl_store r' = ex_store \<and> rl_pushes r' = []"
  using routeHostFrame_forwards [of 0 "ex_msg 7 ''wake'' [1, 2, 3]" "ex_relay [1]"
      "\<lparr>hd_Channel = ex_id 7, hd_Seq = 42, hd_PushClass = ''wake''\<rparr>" "[1, 2, 3]" ex_pairing]
  by (auto simp: delivered_def)

lemma maybePush_frame [simp]:
  "rl_cfg (maybePush pr h r) = rl_cfg r" "rl_limiter (maybePush pr h r) = rl_limiter r"
  "rl_store (maybePush pr h r) = rl_store r" "rl_hostConns (maybePush pr h r) = rl_hostConns r"
  "rl_devConns (maybePush pr h r) = rl_devConns r" "rl_pairConns (maybePush pr h r) = rl_pairConns r"
  "rl_presTimer (maybePush pr h r) = rl_presTimer r" "rl_winTimer (maybePush pr h r) = rl_winTimer r"
  "rl_closed (maybePush pr h r) = rl_closed r" "rl_now (maybePush pr h r) = rl_now r"
  "rl_conns (maybePush pr h r) = rl_conns r" "rl_next (maybePush pr h r) = rl_next r"
  "rl_fired (maybePush pr h r) = rl_fired r"
  by (simp_all add: maybePush_def Let_def split: option.splits)

text \<open>The pushes a buffered frame causes.\<close>

definition frame_pushes :: "Pairing \<Rightarrow> Header \<Rightarrow> MemStore \<Rightarrow> Push list" where
  "frame_pushes pr h s =
     (case LookupAPNSToken (pr_DeviceID pr) s of
        None \<Rightarrow> []
      | Some tok \<Rightarrow>
          if hd_PushClass h = PushNone then []
          else [\<lparr>pu_DeviceID = pr_DeviceID pr, pu_Token = at_Token tok, pu_Env = at_Env tok,
                 pu_Payload = (if hd_PushClass h = PushWake then wakePayload (hd_Channel h) (hd_Seq h)
                               else attentionPayload (pr_HostLabel pr) (hd_Channel h) (hd_Seq h))\<rparr>])"

lemma maybePush_pushes:
  assumes "validPushClass (hd_PushClass h)"
  shows "rl_pushes (maybePush pr h r) = rl_pushes r @ frame_pushes pr h (rl_store r)"
  using assms by (auto simp: maybePush_def frame_pushes_def validPushClass_def Let_def push_defs split: option.splits)

lemma host_frame_ok_class: "host_frame_ok i raw r h body \<Longrightarrow> validPushClass (hd_PushClass h) \<and> validID (hd_Channel h)"
  by (auto simp: host_frame_ok_def DecodeFrame_iff)

lemma frame_pushes_append [simp]: "frame_pushes pr h (AppendMailbox c it pol s) = frame_pushes pr h s"
  by (simp add: frame_pushes_def LookupAPNSToken_def)

lemma frame_pushes_reaped [simp]: "frame_pushes pr h (reaped_store i r) = frame_pushes pr h (rl_store r)"
  by (simp add: frame_pushes_def)

text \<open>C3. Second arm: with no device attached the frame is buffered whole, whatever its push class,
  in the mailbox of its channel and under its own sequence number and class; no connection is
  written to; and one push is handed over exactly when the class is not \<open>none\<close> and the paired
  device has a token, with the closed payload of that class.\<close>

theorem routeHostFrame_buffers:
  assumes "host_frame_ok i raw r h body" "\<not> provisional i r (hd_Channel h)"
    and "owned_channel i r (hd_Channel h) pr" "\<not> deviceAttachedNow (hd_Channel h) r"
  shows "let (more, r') = routeHostFrame i raw r in
    more \<and> rl_conns r' = rl_conns r \<and> same_tables r r'
    \<and> rl_store r' = AppendMailbox (hd_Channel h) \<lparr>mi_Seq = hd_Seq h, mi_PushClass = hd_PushClass h,
         mi_Body = body, mi_StoredAt = rl_now r\<rparr> (mailboxPolicy (rl_cfg r)) (reaped_store i r)
    \<and> rl_pushes r' = rl_pushes r @ frame_pushes pr h (rl_store r)"
  using assms(2-4) host_frame_ok_class [OF assms(1)] unfolding routeHostFrame_ok [OF assms(1)]
  by (simp add: provisional_def owned_channel_def same_tables_def maybePush_pushes)

theorem routeHostFrame_buffers_witness:
  "let (more, r') = routeHostFrame 0 (ex_msg 7 ''wake'' [1, 2, 3]) (ex_relay []) in
   more \<and> rl_conns r' = rl_conns (ex_relay [])
   \<and> rl_store r' = AppendMailbox (ex_id 7) \<lparr>mi_Seq = 42, mi_PushClass = ''wake'', mi_Body = [1, 2, 3], mi_StoredAt = 0\<rparr>
        (mailboxPolicy ex_cfg) ex_store
   \<and> rl_pushes r' = [\<lparr>pu_DeviceID = ex_id 3, pu_Token = ''token'', pu_Env = ''sandbox'', pu_Payload = wakePayload (ex_id 7) 42\<rparr>]"
  using routeHostFrame_buffers [of 0 "ex_msg 7 ''wake'' [1, 2, 3]" "ex_relay []"
      "\<lparr>hd_Channel = ex_id 7, hd_Seq = 42, hd_PushClass = ''wake''\<rparr>" "[1, 2, 3]" ex_pairing]
  by (auto simp: frame_pushes_def push_defs)

text \<open>Third arm: a frame on a channel that is not registered, or is registered to another host,
  is dropped, and the sending connection alone is told \<open>not_found\<close>: the same answer for both, and
  nothing is stored, pushed or delivered to anyone else.\<close>

theorem routeHostFrame_not_found:
  assumes "host_frame_ok i raw r h body" "\<not> provisional i r (hd_Channel h)"
    and "\<nexists>pr. owned_channel i r (hd_Channel h) pr"
  shows "let (more, r') = routeHostFrame i raw r in
    more \<and> delivered (control (controlError CodeNotFound (hd_Channel h))) [i] r r'
    \<and> rl_store r' = reaped_store i r \<and> rl_pushes r' = rl_pushes r \<and> same_tables r r'"
proof -
  let ?m = "control (controlError CodeNotFound (hd_Channel h))"
  have "delivered ?m [i] (guarded i r) (upd_conn (enqueue ?m) i (guarded i r))" by (rule upd_conn_delivered)
  then have d: "delivered ?m [i] r (upd_conn (sendText (controlError CodeNotFound (hd_Channel h))) i (guarded i r))"
    unfolding sendText_alt control_def [symmetric] by (simp add: delivered_def)
  have n: "case PairingByChannel (hd_Channel h) (rl_store r) of None \<Rightarrow> True | Some pr \<Rightarrow> pr_HostID pr \<noteq> conn_hostID i r"
    using assms(3) by (simp add: owned_channel_def split: option.splits)
  show ?thesis
    using assms(2) n d unfolding routeHostFrame_ok [OF assms(1)]
    by (simp add: provisional_def same_tables_def)
qed

theorem routeHostFrame_not_found_witness:
  "let (more, r') = routeHostFrame 0 (ex_msg 8 ''none'' []) (ex_relay [1]) in
   more \<and> mget (rl_conns r') 0 = Some (enqueue (control (controlError CodeNotFound (ex_id 8))) ex_host)
   \<and> mget (rl_conns r') 1 = Some ex_device \<and> rl_store r' = ex_store"
  using routeHostFrame_not_found [of 0 "ex_msg 8 ''none'' []" "ex_relay [1]"
      "\<lparr>hd_Channel = ex_id 8, hd_Seq = 42, hd_PushClass = ''none''\<rparr>" "[]"]
  by (auto simp: delivered_def)

text \<open>A frame on the provisional channel of the host's open window goes to that window's pairing
  attaches and nowhere else: it is never buffered and never pushed, even if the same channel id
  is also registered.\<close>

theorem routeHostFrame_provisional:
  assumes "host_frame_ok i raw r h body" "host_window i r = Some win" "wd_ProvisionalChannel win = hd_Channel h"
    and "distinct (conns_of (rl_pairConns r) (wd_WindowID win))"
  shows "let (more, r') = routeHostFrame i raw r in
    more \<and> delivered (binary raw) (conns_of (rl_pairConns r) (wd_WindowID win)) r r'
    \<and> rl_store r' = rl_store r \<and> rl_pushes r' = rl_pushes r \<and> same_tables r r'"
proof -
  let ?is = "conns_of (rl_pairConns r) (wd_WindowID win)"
  have "delivered (binary raw) ?is (guarded i r) (upd_conns (sendBinary raw) ?is (guarded i r))"
    unfolding sendBinary_alt binary_def [symmetric] using assms(4) by (rule upd_conns_delivered)
  then have "delivered (binary raw) ?is r (upd_conns (sendBinary raw) ?is (guarded i r))"
    by (simp add: delivered_def)
  moreover have "reaped_store i r = rl_store r"
    using assms(2) by (auto simp: host_window_def reaped_store_def WindowForHost_def split: option.splits if_splits)
  ultimately show ?thesis
    using assms(2,3) unfolding routeHostFrame_ok [OF assms(1)] by (simp add: same_tables_def)
qed

theorem routeHostFrame_provisional_witness:
  "let (more, r') = routeHostFrame 0 (ex_msg 5 ''wake'' [9]) (ex_relay []) in
   more \<and> mget (rl_conns r') 2 = Some (enqueue (binary (ex_msg 5 ''wake'' [9])) ex_pairer)
   \<and> rl_store r' = ex_store \<and> rl_pushes r' = []"
  using routeHostFrame_provisional [of 0 "ex_msg 5 ''wake'' [9]" "ex_relay []"
      "\<lparr>hd_Channel = ex_id 5, hd_Seq = 42, hd_PushClass = ''wake''\<rparr>" "[9]" ex_window]
  by (auto simp: delivered_def)

section \<open>Device frames\<close>

lemma close_with_frame [simp]:
  "fst (close_with c m i r) = False" "rl_store (snd (close_with c m i r)) = rl_store r"
  "rl_pushes (snd (close_with c m i r)) = rl_pushes r" "rl_limiter (snd (close_with c m i r)) = rl_limiter r"
  "same_tables r0 (snd (close_with c m i r)) = same_tables r0 r"
  by (simp_all add: close_with_def same_tables_def)

lemma same_tables_simps [simp]:
  "same_tables r r" "same_tables r (snd (rl_allow k ra b r))"
  "same_tables r0 (upd_conn f i r) = same_tables r0 r" "same_tables r0 (upd_conns f is r) = same_tables r0 r"
  by (simp_all add: same_tables_def)

definition dev_limited :: "nat \<Rightarrow> string \<Rightarrow> Relay \<Rightarrow> bool \<times> Relay" where
  "dev_limited i ch r = rl_allow (''devframes:'' @ wc_sub (conn_at i r) @ '':'' @ ch)
     (lt_DeviceFramesPerSec (cf_Limits (rl_cfg r))) (lt_DeviceFramesBurst (cf_Limits (rl_cfg r))) r"

text \<open>The code with the limiter call named.\<close>

lemma routeDeviceFrame_eq:
  "routeDeviceFrame i ch raw r =
     (if cf_MaxFrameSize (rl_cfg r) < int (length raw) then close_with CodeFrameTooLarge (code_str CodeFrameTooLarge) i r
      else case DecodeFrame raw (cf_MaxHeaderLen (rl_cfg r)) of
        Inl _ \<Rightarrow> close_with CodeProtocolViolation (code_str CodeProtocolViolation) i r
      | Inr (h, _) \<Rightarrow>
      if hd_PushClass h \<noteq> PushNone then close_with CodeProtocolViolation ''device-set push_class'' i r
      else if hd_Channel h \<noteq> ch then close_with CodeForbidden ''frame channel does not match attachment'' i r
      else let r1 = snd (dev_limited i ch r) in
      if \<not> fst (dev_limited i ch r) then close_with CodeRateLimited (code_str CodeRateLimited) i r1
      else case device_host (conn_at i r) ch (rl_store r) of
        Inl code \<Rightarrow> close_with code (code_str code) i r1
      | Inr hostID \<Rightarrow>
          if conns_of (rl_hostConns r) hostID = []
          then (True, upd_conn (sendText (controlError CodePeerUnavailable (hd_Channel h))) i r1)
          else (True, upd_conns (sendBinary raw) (conns_of (rl_hostConns r) hostID) r1))"
proof -
  obtain ok r1 where l: "dev_limited i ch r = (ok, r1)" by (cases "dev_limited i ch r")
  have "rl_store r1 = rl_store r" "rl_hostConns r1 = rl_hostConns r"
    using rl_allow_frame l unfolding dev_limited_def by (metis snd_conv)+
  with l show ?thesis
    by (simp add: routeDeviceFrame_def dev_limited_def Let_def split: sum.split prod.split)
qed

text \<open>There is no device-to-host queue: whatever a device sends, the store is unchanged, nothing is
  pushed and no table or timer changes; all a device frame can do is use a rate-limit token, put a
  message on connections, or close its own.\<close>

theorem routeDeviceFrame_stores_nothing:
  "let (more, r') = routeDeviceFrame i ch raw r in
   rl_store r' = rl_store r \<and> rl_pushes r' = rl_pushes r \<and> same_tables r r'"
proof -
  obtain ok r1 where l: "dev_limited i ch r = (ok, r1)" by (cases "dev_limited i ch r")
  have "rl_store r1 = rl_store r" "rl_pushes r1 = rl_pushes r" "same_tables r r1"
    using rl_allow_frame same_tables_simps(2) l unfolding dev_limited_def by (metis snd_conv)+
  with l show ?thesis
    by (auto simp: routeDeviceFrame_def dev_limited_def Let_def close_with_def split: sum.splits)
qed

definition dev_frame_ok :: "nat \<Rightarrow> string \<Rightarrow> bytes \<Rightarrow> Relay \<Rightarrow> Header \<Rightarrow> bytes \<Rightarrow> bool" where
  "dev_frame_ok i ch raw r h body \<longleftrightarrow> int (length raw) \<le> cf_MaxFrameSize (rl_cfg r)
     \<and> DecodeFrame raw (cf_MaxHeaderLen (rl_cfg r)) = Inr (h, body)
     \<and> hd_PushClass h = PushNone \<and> hd_Channel h = ch \<and> fst (dev_limited i ch r)"

lemma routeDeviceFrame_ok:
  assumes "dev_frame_ok i ch raw r h body" "device_host (conn_at i r) ch (rl_store r) = Inr H"
  shows "routeDeviceFrame i ch raw r =
    (True, if conns_of (rl_hostConns r) H = []
           then upd_conn (sendText (controlError CodePeerUnavailable ch)) i (snd (dev_limited i ch r))
           else upd_conns (sendBinary raw) (conns_of (rl_hostConns r) H) (snd (dev_limited i ch r)))"
proof -
  obtain ok r1 where l: "dev_limited i ch r = (ok, r1)" by (cases "dev_limited i ch r")
  have "rl_store r1 = rl_store r" "rl_hostConns r1 = rl_hostConns r"
    using rl_allow_frame l unfolding dev_limited_def by (metis snd_conv)+
  with l assms show ?thesis
    by (simp add: routeDeviceFrame_def dev_frame_ok_def dev_limited_def Let_def)
qed

text \<open>C31. A device frame that passes the guards goes, byte for byte, to exactly the attached
  connections of the host its own channel (or its own pairing window) names; with no host attached
  it is dropped and the sender alone is told \<open>peer_unavailable\<close>, its connection staying up.\<close>

theorem routeDeviceFrame_delivers:
  assumes "dev_frame_ok i ch raw r h body" "device_host (conn_at i r) ch (rl_store r) = Inr H"
    and "distinct (conns_of (rl_hostConns r) H)"
  shows "let (more, r') = routeDeviceFrame i ch raw r in
    more \<and> (if conns_of (rl_hostConns r) H = []
            then delivered (control (controlError CodePeerUnavailable ch)) [i] r r'
            else delivered (binary raw) (conns_of (rl_hostConns r) H) r r')"
proof -
  have c: "rl_conns (snd (dev_limited i ch r)) = rl_conns r" by (simp add: dev_limited_def)
  have "delivered (control (controlError CodePeerUnavailable ch)) [i] r
      (upd_conn (sendText (controlError CodePeerUnavailable ch)) i (snd (dev_limited i ch r)))"
    using upd_conn_delivered [of _ i "snd (dev_limited i ch r)"]
    unfolding sendText_alt control_def [symmetric] by (simp add: delivered_def c)
  moreover have "delivered (binary raw) (conns_of (rl_hostConns r) H) r
      (upd_conns (sendBinary raw) (conns_of (rl_hostConns r) H) (snd (dev_limited i ch r)))"
    using upd_conns_delivered [OF assms(3), of _ "snd (dev_limited i ch r)"]
    unfolding sendBinary_alt binary_def [symmetric] by (simp add: delivered_def c)
  ultimately show ?thesis unfolding routeDeviceFrame_ok [OF assms(1,2)] by simp
qed

theorem routeDeviceFrame_delivers_witness:
  "let (more, r') = routeDeviceFrame 1 (ex_id 7) (ex_msg 7 ''none'' [5]) (ex_relay [1]) in
   more \<and> mget (rl_conns r') 0 = Some (enqueue (binary (ex_msg 7 ''none'' [5])) ex_host)"
proof -
  have "dev_frame_ok 1 (ex_id 7) (ex_msg 7 ''none'' [5]) (ex_relay [1])
      \<lparr>hd_Channel = ex_id 7, hd_Seq = 42, hd_PushClass = ''none''\<rparr> [5]"
    by (simp add: dev_frame_ok_def dev_limited_def PushNone_def)
  moreover have "device_host (conn_at 1 (ex_relay [1])) (ex_id 7) (rl_store (ex_relay [1])) = Inr (ex_id 1)"
    by (simp add: device_host_def) (simp add: ex_device_def)
  ultimately show ?thesis using routeDeviceFrame_delivers [of 1 "ex_id 7" "ex_msg 7 ''none'' [5]" "ex_relay [1]" _ "[5]" "ex_id 1"]
    by (auto simp: delivered_def)
qed

text \<open>A device that sets a push class, sends on a channel other than its own, sends an oversize or
  malformed frame, or exceeds its rate is disconnected, and no other connection is touched.\<close>

theorem routeDeviceFrame_refuses:
  assumes "mget (rl_conns r) i = Some w" "wc_closed w = None"
    and bad: "cf_MaxFrameSize (rl_cfg r) < int (length raw)
      \<or> isl (DecodeFrame raw (cf_MaxHeaderLen (rl_cfg r)))
      \<or> (\<exists>h body. DecodeFrame raw (cf_MaxHeaderLen (rl_cfg r)) = Inr (h, body)
           \<and> (hd_PushClass h \<noteq> PushNone \<or> hd_Channel h \<noteq> ch))
      \<or> \<not> fst (dev_limited i ch r)"
  shows "let (more, r') = routeDeviceFrame i ch raw r in
    \<not> more \<and> (\<exists>code reason. code \<in> {4413, 4400, 4403, 4429}
      \<and> mget (rl_conns r') i = Some (w\<lparr>wc_closed := Some (code, reason)\<rparr>))
    \<and> (\<forall>j. j \<noteq> i \<longrightarrow> mget (rl_conns r') j = mget (rl_conns r) j)"
proof -
  have c: "rl_conns (snd (dev_limited i ch r)) = rl_conns r" by (simp add: dev_limited_def)
  have "\<exists>code reason r2. routeDeviceFrame i ch raw r = close_with code reason i r2
      \<and> code \<in> {CodeFrameTooLarge, CodeProtocolViolation, CodeForbidden, CodeRateLimited} \<and> rl_conns r2 = rl_conns r"
  proof (cases "int (length raw) \<le> cf_MaxFrameSize (rl_cfg r)")
    case small: True
    show ?thesis
    proof (cases "DecodeFrame raw (cf_MaxHeaderLen (rl_cfg r))")
      case (Inr hb)
      obtain h body where hb: "hb = (h, body)" by (cases hb)
      show ?thesis
      proof (cases "hd_PushClass h = PushNone \<and> hd_Channel h = ch")
        case True
        then have "\<not> fst (dev_limited i ch r)" using bad small Inr hb by auto
        then have "routeDeviceFrame i ch raw r = close_with CodeRateLimited (code_str CodeRateLimited) i (snd (dev_limited i ch r))"
          using True small Inr hb by (simp add: routeDeviceFrame_eq)
        with c show ?thesis by blast
      next
        case False
        then consider "hd_PushClass h \<noteq> PushNone" | "hd_PushClass h = PushNone" "hd_Channel h \<noteq> ch" by blast
        then show ?thesis
        proof cases
          case 1
          then have "routeDeviceFrame i ch raw r = close_with CodeProtocolViolation ''device-set push_class'' i r"
            using small Inr hb by (simp add: routeDeviceFrame_eq)
          then show ?thesis by blast
        next
          case 2
          then have "routeDeviceFrame i ch raw r = close_with CodeForbidden ''frame channel does not match attachment'' i r"
            using small Inr hb by (simp add: routeDeviceFrame_eq)
          then show ?thesis by blast
        qed
      qed
    next
      case (Inl e)
      then have "routeDeviceFrame i ch raw r = close_with CodeProtocolViolation (code_str CodeProtocolViolation) i r"
        using small by (simp add: routeDeviceFrame_eq)
      then show ?thesis by blast
    qed
  next
    case False
    then have "routeDeviceFrame i ch raw r = close_with CodeFrameTooLarge (code_str CodeFrameTooLarge) i r"
      by (simp add: routeDeviceFrame_eq)
    then show ?thesis by blast
  qed
  then obtain code reason r2 where r2: "routeDeviceFrame i ch raw r = close_with code reason i r2"
      "code \<in> {CodeFrameTooLarge, CodeProtocolViolation, CodeForbidden, CodeRateLimited}" "rl_conns r2 = rl_conns r"
    by blast
  have "close_code code \<in> {4413, 4400, 4403, 4429}" using r2(2) by (auto simp: close_code_def)
  moreover have "mget (rl_conns (upd_conn (conn_close (close_code code) reason) i r2)) i
      = Some (w\<lparr>wc_closed := Some (close_code code, reason)\<rparr>)"
    using assms(1,2) r2(3) by (simp add: conn_close_def)
  ultimately show ?thesis unfolding r2(1) close_with_def Let_def prod.case using r2(3)
    by (intro conjI exI [of _ "close_code code"] exI [of _ reason]) simp_all
qed

theorem routeDeviceFrame_refuses_witness:
  "let (more, r') = routeDeviceFrame 1 (ex_id 7) (ex_msg 7 ''wake'' [5]) (ex_relay [1]) in
   \<not> more \<and> mget (rl_conns r') 0 = Some ex_host \<and> mget (rl_conns r') 1 \<noteq> Some ex_device"
proof -
  have "hd_PushClass \<lparr>hd_Channel = ex_id 7, hd_Seq = 42, hd_PushClass = ''wake''\<rparr> \<noteq> PushNone" by (simp add: PushNone_def)
  then show ?thesis
    using routeDeviceFrame_refuses [of "ex_relay [1]" 1 ex_device "ex_msg 7 ''wake'' [5]" "ex_id 7"]
    by (fastforce simp: ex_device_def newWSConn_def)
qed

end
