(* ===== verification/Effects.thy ===== *)
theory Effects
  imports Rest Routing
begin

text \<open>
  The primitive effects of the relay. Every handler, timer callback and WebSocket stage changes the
  relay only through a sequence of the effects \<open>prim\<close> lists, each with the guard under which the
  code performs it. The invariants of the running relay are stated here and shown once per
  effect; the theory \<open>System\<close> shows that every step of the relay is such a sequence.
\<close>

section \<open>Effects\<close>

text \<open>What the relay may do to a connection object: send, close, write. Its identity never changes,
  the first close is final, the send queue never exceeds its depth, what was written stays written.\<close>

definition conn_effect :: "(wsConn \<Rightarrow> wsConn) \<Rightarrow> bool" where
  "conn_effect f \<longleftrightarrow> (\<forall>w. wc_role (f w) = wc_role w \<and> wc_sub (f w) = wc_sub w \<and> wc_hostID (f w) = wc_hostID w
     \<and> wc_channel (f w) = wc_channel w \<and> wc_winID (f w) = wc_winID w
     \<and> (wc_closed w \<noteq> None \<longrightarrow> wc_closed (f w) = wc_closed w)
     \<and> (length (wc_send w) \<le> sendQueueDepth \<longrightarrow> length (wc_send (f w)) \<le> sendQueueDepth)
     \<and> prefix (wc_written w) (wc_written (f w)))"

lemma conn_effects [simp]:
  "conn_effect (enqueue m)" "conn_effect (sendText d)" "conn_effect (sendBinary d)"
  "conn_effect (conn_close c s)" "conn_effect writer_step"
  by (auto simp: conn_effect_def enqueue_def sendText_def sendBinary_def conn_close_def writer_step_def
      split: list.splits)

definition host_conn :: "string \<Rightarrow> string \<Rightarrow> wsConn" where
  "host_conn sub h = newWSConn\<lparr>wc_role := ''host'', wc_sub := sub, wc_hostID := h\<rparr>"

definition enter_host :: "string \<Rightarrow> string \<Rightarrow> Relay \<Rightarrow> Relay" where
  "enter_host sub h r = (snd (add_conn (host_conn sub h) r))\<lparr>rl_hostConns := conns_add h (rl_next r) (rl_hostConns r)\<rparr>"

definition dev_conn :: "string \<Rightarrow> string \<Rightarrow> wsConn" where
  "dev_conn sub ch = newWSConn\<lparr>wc_role := ''device'', wc_sub := sub, wc_channel := ch\<rparr>"

definition enter_dev :: "string \<Rightarrow> string \<Rightarrow> Relay \<Rightarrow> Relay" where
  "enter_dev sub ch r = (snd (add_conn (dev_conn sub ch) r))\<lparr>rl_devConns := conns_add ch (rl_next r) (rl_devConns r)\<rparr>"

text \<open>The callback a timer runs.\<close>

fun run_callback :: "callback \<Rightarrow> Relay \<Rightarrow> Relay" where
  "run_callback (PresenceDeadline h) r = presenceDeadline h r"
| "run_callback (ExpireWindow w) r = expireWindow w r"

text \<open>A push of one of the two closed payload shapes.\<close>

definition closed_push :: "Push \<Rightarrow> bool" where
  "closed_push p \<longleftrightarrow> (\<exists>ch q. pu_Payload p = wakePayload ch q \<or> (\<exists>label. pu_Payload p = attentionPayload label ch q))"

inductive prim :: "Relay \<Rightarrow> Relay \<Rightarrow> bool" where
  limiter: "prim r (r\<lparr>rl_limiter := l\<rparr>)"
| lookup: "prim r (r\<lparr>rl_store := snd (LookupBinding h (rl_now r) (rl_store r))\<rparr>)"
| bind: "prim r (r\<lparr>rl_store := snd (BindHost h sub (rl_now r) (rl_store r))\<rparr>)"
| touch_binding: "prim r (upd_store (TouchBinding h (rl_now r)) r)"
| create: "fresh_pairing pr (rl_store r) \<Longrightarrow>
    live_account (pr_HostID pr) (rl_now r) (rl_store r) = Some (pr_AccountSub pr) \<Longrightarrow>
    prim r (r\<lparr>rl_store := snd (CreatePairing pr (rl_store r))\<rparr>)"
| label: "prim r (upd_store (SetHostLabel i l) r)"
| delete: "mget (ms_pairings (rl_store r)) i = Some pr \<Longrightarrow>
    prim r (upd_conns (conn_close c m) (conns_of (rl_devConns r) (pr_ChannelID pr))
      (r\<lparr>rl_store := snd (DeletePairing i (rl_store r)), rl_devConns := mdel (pr_ChannelID pr) (rl_devConns r)\<rparr>))"
| install: "mget (ms_windows (rl_store r)) id1 = None \<Longrightarrow> prim r (install_window h id1 id2 r)"
| reap: "prim r (r\<lparr>rl_store := snd (WindowForHost h (rl_now r) (rl_store r))\<rparr>)"
| count: "prim r (r\<lparr>rl_store := snd (CountWindowAttach i cap (rl_store r))\<rparr>)"
| expire: "prim r (expireWindow i r)"
| append: "PairingByChannel ch (rl_store r) \<noteq> None \<Longrightarrow> validPushClass (mi_PushClass it) \<Longrightarrow>
    prim r (upd_store (AppendMailbox ch it (mailboxPolicy (rl_cfg r))) r)"
| fetch: "prim r (r\<lparr>rl_store := snd (FetchMailbox ch after n (rl_now r) ttl (rl_store r))\<rparr>)"
| token: "PairingsForDevice (at_DeviceID tok) (rl_store r) \<noteq> [] \<Longrightarrow> prim r (upd_store (PutAPNSToken tok) r)"
| conn: "conn_effect f \<Longrightarrow> prim r (upd_conn f i r)"
| push: "closed_push p \<Longrightarrow> prim r (r\<lparr>rl_pushes := rl_pushes r @ [p]\<rparr>)"
| touch: "prim r (touchHost h r)"
| host_in: "prim r (enter_host sub h r)"
| pair_in: "prim r (snd (devicePairingAttach_join sub win r))"
| host_out: "prim r (r\<lparr>rl_hostConns := conns_del h i (rl_hostConns r)\<rparr>)"
| pair_out: "prim r (r\<lparr>rl_pairConns := conns_del wid i (rl_pairConns r)\<rparr>)"
| tick: "0 \<le> d \<Longrightarrow> prim r (r\<lparr>rl_now := rl_now r + d\<rparr>)"
| fire_presence: "mget (rl_presTimer r) h = Some t \<Longrightarrow> tm_active t \<Longrightarrow> tm_deadline t \<le> rl_now r \<Longrightarrow>
    prim r (r\<lparr>rl_presTimer := mput h (timer_Stop t) (rl_presTimer r), rl_fired := rl_fired r @ [PresenceDeadline h]\<rparr>)"
| fire_window: "mget (rl_winTimer r) i = Some t \<Longrightarrow> tm_active t \<Longrightarrow> tm_deadline t \<le> rl_now r \<Longrightarrow>
    prim r (r\<lparr>rl_winTimer := mput i (timer_Stop t) (rl_winTimer r), rl_fired := rl_fired r @ [ExpireWindow i]\<rparr>)"
| callback: "cb \<in> set (rl_fired r) \<Longrightarrow> prim r (run_callback cb (r\<lparr>rl_fired := remove1 cb (rl_fired r)\<rparr>))"
| shut: "prim r (Close r)"

text \<open>The effects of a device that comes, goes, or has its coming and going published.\<close>

inductive dev_prim :: "Relay \<Rightarrow> Relay \<Rightarrow> bool" where
  dev_in: "dev_prim r (enter_dev sub ch r)"
| dev_out: "dev_prim r (r\<lparr>rl_devConns := conns_del ch i (rl_devConns r)\<rparr>)"
| attached: "dev_prim r (setDeviceAttached ch a r)"

section \<open>Frame facts of the composite effects\<close>

lemma expireWindow_frame [simp]:
  "rl_cfg (expireWindow i r) = rl_cfg r" "rl_limiter (expireWindow i r) = rl_limiter r"
  "rl_store (expireWindow i r) = snd (DeleteWindow i (rl_store r))" "rl_hostConns (expireWindow i r) = rl_hostConns r"
  "rl_devConns (expireWindow i r) = rl_devConns r" "rl_presTimer (expireWindow i r) = rl_presTimer r"
  "rl_closed (expireWindow i r) = rl_closed r" "rl_now (expireWindow i r) = rl_now r"
  "rl_next (expireWindow i r) = rl_next r" "rl_fired (expireWindow i r) = rl_fired r"
  "rl_pushes (expireWindow i r) = rl_pushes r"
  by (simp_all add: expireWindow_def split: prod.split option.split)

lemma expireWindow_tables:
  "rl_winTimer (expireWindow i r) = (if mget (ms_windows (rl_store r)) i = None then rl_winTimer r else mdel i (rl_winTimer r))"
  "rl_pairConns (expireWindow i r) = (if mget (ms_windows (rl_store r)) i = None then rl_pairConns r else mdel i (rl_pairConns r))"
  by (simp_all add: expireWindow_def DeleteWindow_def Let_def split: option.split)

lemma enter_host_frame [simp]:
  "rl_cfg (enter_host sub h r) = rl_cfg r" "rl_limiter (enter_host sub h r) = rl_limiter r"
  "rl_store (enter_host sub h r) = rl_store r"
  "rl_hostConns (enter_host sub h r) = conns_add h (rl_next r) (rl_hostConns r)"
  "rl_devConns (enter_host sub h r) = rl_devConns r" "rl_pairConns (enter_host sub h r) = rl_pairConns r"
  "rl_presTimer (enter_host sub h r) = rl_presTimer r" "rl_winTimer (enter_host sub h r) = rl_winTimer r"
  "rl_closed (enter_host sub h r) = rl_closed r" "rl_now (enter_host sub h r) = rl_now r"
  "rl_conns (enter_host sub h r) = mput (rl_next r) (host_conn sub h) (rl_conns r)"
  "rl_next (enter_host sub h r) = Suc (rl_next r)" "rl_fired (enter_host sub h r) = rl_fired r"
  "rl_pushes (enter_host sub h r) = rl_pushes r"
  by (simp_all add: enter_host_def add_conn_def)

definition pair_conn :: "string \<Rightarrow> Window \<Rightarrow> wsConn" where
  "pair_conn sub win = sendText (marshal (JObj [(''provisional_channel'', JStr (wd_ProvisionalChannel win))]))
     (newWSConn\<lparr>wc_role := ''pairing-device'', wc_sub := sub, wc_winID := wd_WindowID win\<rparr>)"

lemma pair_in_frame [simp]:
  "rl_cfg (snd (devicePairingAttach_join sub win r)) = rl_cfg r"
  "rl_limiter (snd (devicePairingAttach_join sub win r)) = rl_limiter r"
  "rl_store (snd (devicePairingAttach_join sub win r)) = rl_store r"
  "rl_hostConns (snd (devicePairingAttach_join sub win r)) = rl_hostConns r"
  "rl_devConns (snd (devicePairingAttach_join sub win r)) = rl_devConns r"
  "rl_pairConns (snd (devicePairingAttach_join sub win r)) = conns_add (wd_WindowID win) (rl_next r) (rl_pairConns r)"
  "rl_presTimer (snd (devicePairingAttach_join sub win r)) = rl_presTimer r"
  "rl_winTimer (snd (devicePairingAttach_join sub win r)) = rl_winTimer r"
  "rl_closed (snd (devicePairingAttach_join sub win r)) = rl_closed r"
  "rl_now (snd (devicePairingAttach_join sub win r)) = rl_now r"
  "rl_conns (snd (devicePairingAttach_join sub win r)) = mput (rl_next r) (pair_conn sub win) (rl_conns r)"
  "rl_next (snd (devicePairingAttach_join sub win r)) = Suc (rl_next r)"
  "rl_fired (snd (devicePairingAttach_join sub win r)) = rl_fired r"
  "rl_pushes (snd (devicePairingAttach_join sub win r)) = rl_pushes r"
  by (simp_all add: devicePairingAttach_join_def add_conn_def pair_conn_def Let_def)

lemma dev_in_eq:
  "snd (snd (deviceChannelAttach_join sub ch pr r))
    = upd_conn (sendText (hostPresenceJSON (host_presence (pr_HostID pr) r))) (rl_next r) (enter_dev sub ch r)"
  "fst (snd (deviceChannelAttach_join sub ch pr r)) \<longleftrightarrow> length (conns_of (conns_add ch (rl_next r) (rl_devConns r)) ch) = 1"
  "fst (deviceChannelAttach_join sub ch pr r) = rl_next r"
  by (simp_all add: deviceChannelAttach_join_def enter_dev_def add_conn_def dev_conn_def host_presence_def Let_def)

lemma enter_dev_frame [simp]:
  "rl_cfg (enter_dev sub ch r) = rl_cfg r" "rl_limiter (enter_dev sub ch r) = rl_limiter r"
  "rl_store (enter_dev sub ch r) = rl_store r" "rl_hostConns (enter_dev sub ch r) = rl_hostConns r"
  "rl_devConns (enter_dev sub ch r) = conns_add ch (rl_next r) (rl_devConns r)"
  "rl_pairConns (enter_dev sub ch r) = rl_pairConns r"
  "rl_presTimer (enter_dev sub ch r) = rl_presTimer r" "rl_winTimer (enter_dev sub ch r) = rl_winTimer r"
  "rl_closed (enter_dev sub ch r) = rl_closed r" "rl_now (enter_dev sub ch r) = rl_now r"
  "rl_conns (enter_dev sub ch r) = mput (rl_next r) (dev_conn sub ch) (rl_conns r)"
  "rl_next (enter_dev sub ch r) = Suc (rl_next r)" "rl_fired (enter_dev sub ch r) = rl_fired r"
  "rl_pushes (enter_dev sub ch r) = rl_pushes r"
  by (simp_all add: enter_dev_def add_conn_def)

lemma Close_frame [simp]:
  "rl_cfg (Close r) = rl_cfg r" "rl_limiter (Close r) = rl_limiter r" "rl_store (Close r) = rl_store r"
  "rl_hostConns (Close r) = rl_hostConns r" "rl_devConns (Close r) = rl_devConns r"
  "rl_pairConns (Close r) = rl_pairConns r" "rl_closed (Close r) = True" "rl_now (Close r) = rl_now r"
  "rl_conns (Close r) = rl_conns r" "rl_next (Close r) = rl_next r" "rl_fired (Close r) = rl_fired r"
  "rl_pushes (Close r) = rl_pushes r"
  by (simp_all add: Close_def)

end
