(* ===== verification/Invariants.thy ===== *)
theory Invariants
  imports Effects
begin

text \<open>
  The invariants of the running relay, each stated over the part of the state it is about, and that
  every primitive effect keeps them.
\<close>

section \<open>Accounts, mailboxes, tokens\<close>

text \<open>Every registered pairing belongs to the account its host id is bound to.\<close>

definition accounts_inv :: "MemStore \<Rightarrow> bool" where
  "accounts_inv s \<longleftrightarrow> (\<forall>i pr. mget (ms_pairings s) i = Some pr \<longrightarrow>
     (\<exists>b. mget (ms_bindings s) (pr_HostID pr) = Some b \<and> bd_AccountSub b = pr_AccountSub pr))"

text \<open>Only registered channels have a mailbox, and every mailbox is within the configured caps and holds
  frames of known push classes.\<close>

definition mailboxes_inv :: "MailboxPolicy \<Rightarrow> MemStore \<Rightarrow> bool" where
  "mailboxes_inv pol s \<longleftrightarrow> (\<forall>c mb. mget (ms_mailboxes s) c = Some mb \<longrightarrow>
     PairingByChannel c s \<noteq> None \<and> within_caps pol (mb_items mb) \<and> (\<forall>it \<in> set (mb_items mb). validPushClass (mi_PushClass it)))"

text \<open>A push token is held only for a device that is still paired.\<close>

definition tokens_inv :: "MemStore \<Rightarrow> bool" where
  "tokens_inv s \<longleftrightarrow> (\<forall>d tok. mget (ms_apns s) d = Some tok \<longrightarrow>
     (\<exists>i pr. mget (ms_pairings s) i = Some pr \<and> pr_DeviceID pr = d))"

lemma accounts_inv_frame: "accounts_inv s \<Longrightarrow> ms_pairings s' = ms_pairings s \<Longrightarrow> ms_bindings s' = ms_bindings s
    \<Longrightarrow> accounts_inv s'"
  by (simp add: accounts_inv_def)

lemma accounts_inv_lookup:
  assumes "accounts_inv s" "store_inv s"
  shows "accounts_inv (snd (bindingLocked h t s))"
  unfolding accounts_inv_def
proof (intro allI impI)
  fix i pr assume "mget (ms_pairings (snd (bindingLocked h t s))) i = Some pr"
  then have i: "mget (ms_pairings s) i = Some pr" by simp
  with assms(1) obtain b where b: "mget (ms_bindings s) (pr_HostID pr) = Some b" "bd_AccountSub b = pr_AccountSub pr"
    unfolding accounts_inv_def by blast
  have "hostHasPairingsLocked (pr_HostID pr) s"
    using i hasPairings_iff [OF store_invD(1) [OF assms(2)]] by blast
  with b show "\<exists>b. mget (ms_bindings (snd (bindingLocked h t s))) (pr_HostID pr) = Some b \<and> bd_AccountSub b = pr_AccountSub pr"
    by (auto simp: bindingLocked_def split: option.splits)
qed

lemma BindHost_bindings:
  "fst (BindHost h a t s) = Inl e \<Longrightarrow> ms_bindings (snd (BindHost h a t s)) = ms_bindings (snd (bindingLocked h t s))"
  by (auto simp: BindHost_def Let_def split: prod.splits option.splits if_splits)

lemma accounts_inv_bind:
  assumes "accounts_inv s" "store_inv s"
  shows "accounts_inv (snd (BindHost h a t s))"
proof (cases "live_account h t s = None \<or> live_account h t s = Some a")
  case False
  then obtain b where "live_account h t s = Some b" "a \<noteq> b" by auto
  then show ?thesis using BindHost_refused assms(1) by simp
next
  case True
  from BindHost_success [OF True] obtain b where
    b: "bd_AccountSub b = a" "mget (ms_bindings (snd (BindHost h a t s))) h = Some b" by blast
  have other: "h' \<noteq> h \<Longrightarrow> mget (ms_bindings (snd (BindHost h a t s))) h' = mget (ms_bindings s) h'" for h'
    by (simp add: BindHost_def bindingLocked_def Let_def split: option.splits)
  show ?thesis unfolding accounts_inv_def
  proof (intro allI impI)
    fix i pr assume "mget (ms_pairings (snd (BindHost h a t s))) i = Some pr"
    then have i: "mget (ms_pairings s) i = Some pr" by simp
    with assms(1) obtain c where c: "mget (ms_bindings s) (pr_HostID pr) = Some c" "bd_AccountSub c = pr_AccountSub pr"
      unfolding accounts_inv_def by blast
    have "hostHasPairingsLocked (pr_HostID pr) s"
      using i hasPairings_iff [OF store_invD(1) [OF assms(2)]] by blast
    then have "live_account (pr_HostID pr) t s = Some (pr_AccountSub pr)"
      using c by (simp add: live_account_def bindingLocked_def)
    with True b other c show "\<exists>b. mget (ms_bindings (snd (BindHost h a t s))) (pr_HostID pr) = Some b
        \<and> bd_AccountSub b = pr_AccountSub pr"
      by (cases "pr_HostID pr = h") auto
  qed
qed

lemma live_account_binding: "live_account h t s = Some a \<Longrightarrow> \<exists>b. mget (ms_bindings s) h = Some b \<and> bd_AccountSub b = a"
  by (auto simp: live_account_def bindingLocked_iff)

lemma accounts_inv_create:
  assumes "accounts_inv s" "live_account (pr_HostID pr) t s = Some (pr_AccountSub pr)"
  shows "accounts_inv (snd (CreatePairing pr s))"
  using assms live_account_binding [OF assms(2)]
  by (auto simp: accounts_inv_def CreatePairing_def split: option.splits if_splits)

lemma accounts_inv_misc:
  "accounts_inv s \<Longrightarrow> accounts_inv (TouchBinding h t s)" "accounts_inv s \<Longrightarrow> accounts_inv (SetHostLabel i l s)"
  "accounts_inv s \<Longrightarrow> accounts_inv (snd (DeletePairing i s))"
  by (fastforce simp: accounts_inv_def TouchBinding_def split: option.splits if_splits)
    (auto simp: accounts_inv_def SetHostLabel_def DeletePairing_def Let_def split: option.splits if_splits)

lemma within_caps_suffix: "suffix xs ys \<Longrightarrow> within_caps pol ys \<Longrightarrow> within_caps pol xs"
  using weight_suffix [of xs ys] suffix_length_le [of xs ys] by (auto simp: within_caps_def)

lemma PairingByChannel_frame:
  "ms_pairings s' = ms_pairings s \<Longrightarrow> ms_byChannel s' = ms_byChannel s \<Longrightarrow> PairingByChannel c s' = PairingByChannel c s"
  by (simp add: PairingByChannel_def split: option.split)

lemma mailboxes_inv_frame:
  "mailboxes_inv pol s \<Longrightarrow> ms_mailboxes s' = ms_mailboxes s \<Longrightarrow> ms_pairings s' = ms_pairings s \<Longrightarrow>
     ms_byChannel s' = ms_byChannel s \<Longrightarrow> mailboxes_inv pol s'"
  by (simp add: mailboxes_inv_def PairingByChannel_frame [of s' s])

lemma mailboxes_inv_append:
  assumes "mailboxes_inv pol s" "store_inv s" "pol_ok pol" "PairingByChannel ch s \<noteq> None" "validPushClass (mi_PushClass it)"
  shows "mailboxes_inv pol (AppendMailbox ch it pol s)"
proof -
  have pc: "PairingByChannel c (AppendMailbox ch it pol s) = PairingByChannel c s" for c
    by (rule PairingByChannel_frame) simp_all
  let ?mb = "case mget (ms_mailboxes s) ch of None \<Rightarrow> empty_mailbox | Some mb \<Rightarrow> mb"
  have mb: "mb_inv ?mb"
    using store_invD(3) [OF assms(2)] by (auto simp: boxes_inv_def empty_mailbox_def mb_inv_def split: option.splits)
  have "set (mb_items (mailbox_append it pol ?mb)) \<subseteq> insert it (set (mb_items ?mb))"
    using set_mono_suffix [OF mailbox_append_suffix [OF mb, of it pol]] by auto
  moreover have "\<forall>it \<in> set (mb_items ?mb). validPushClass (mi_PushClass it)"
    using assms(1) by (auto simp: mailboxes_inv_def empty_mailbox_def split: option.splits)
  ultimately show ?thesis
    using mailbox_append_caps [OF mb assms(3)] assms unfolding mailboxes_inv_def pc by (auto simp: AppendMailbox_def Let_def)
qed

lemma mailboxes_inv_fetch:
  assumes "mailboxes_inv pol s"
  shows "mailboxes_inv pol (snd (FetchMailbox ch a n t ttl s))"
proof -
  have pc: "PairingByChannel c (snd (FetchMailbox ch a n t ttl s)) = PairingByChannel c s" for c
    by (rule PairingByChannel_frame) simp_all
  show ?thesis
    unfolding mailboxes_inv_def pc using assms
    by (auto simp: FetchMailbox_def mailboxes_inv_def split_beta split: option.splits
        intro: within_caps_suffix [OF suffix_live] dest!: set_mono_suffix [OF suffix_live, THEN subsetD])
qed

lemma mailboxes_inv_create:
  assumes "mailboxes_inv pol s" "store_inv s" "fresh_pairing pr s"
  shows "mailboxes_inv pol (snd (CreatePairing pr s))"
proof -
  have "PairingByChannel c s \<noteq> None \<Longrightarrow> PairingByChannel c (snd (CreatePairing pr s)) \<noteq> None" for c
    using reg.owner_kept [OF assms(2,3)] by fastforce
  with assms(1) show ?thesis by (simp add: mailboxes_inv_def)
qed

lemma PairingByChannel_label: "PairingByChannel c (SetHostLabel i l s) = None \<longleftrightarrow> PairingByChannel c s = None"
  by (auto simp: SetHostLabel_def PairingByChannel_def split: option.splits)

lemma mailboxes_inv_label: "mailboxes_inv pol s \<Longrightarrow> mailboxes_inv pol (SetHostLabel i l s)"
  by (simp add: mailboxes_inv_def PairingByChannel_label)

lemma mailboxes_inv_delete:
  assumes "mailboxes_inv pol s" "store_inv s" "mget (ms_pairings s) i = Some pr"
  shows "mailboxes_inv pol (snd (DeletePairing i s))"
  unfolding mailboxes_inv_def PairingByChannel_deleted [OF assms(2,3)] DeletePairing_mailbox [OF assms(3)]
  using assms(1) by (simp add: mailboxes_inv_def)

lemma tokens_inv_frame: "tokens_inv s \<Longrightarrow> ms_apns s' = ms_apns s \<Longrightarrow> ms_pairings s' = ms_pairings s \<Longrightarrow> tokens_inv s'"
  by (simp add: tokens_inv_def)

lemma tokens_inv_create:
  assumes "tokens_inv s" "fresh_pairing pr s" shows "tokens_inv (snd (CreatePairing pr s))"
proof -
  have "mget (ms_pairings (snd (CreatePairing pr s))) i = Some q" if "mget (ms_pairings s) i = Some q" for i q
    using that assms(2) by (auto simp: CreatePairing_def fresh_pairing_def split: option.splits)
  moreover have "ms_apns (snd (CreatePairing pr s)) = ms_apns s" by simp
  ultimately show ?thesis using assms(1) unfolding tokens_inv_def by metis
qed

lemma tokens_inv_label:
  assumes "tokens_inv s" shows "tokens_inv (SetHostLabel i l s)"
proof -
  have "\<exists>q'. mget (ms_pairings (SetHostLabel i l s)) j = Some q' \<and> pr_DeviceID q' = pr_DeviceID q"
    if "mget (ms_pairings s) j = Some q" for j q
    using that by (auto simp: SetHostLabel_def split: option.splits)
  moreover have "ms_apns (SetHostLabel i l s) = ms_apns s" by simp
  ultimately show ?thesis using assms unfolding tokens_inv_def by metis
qed

lemma tokens_inv_delete:
  assumes "tokens_inv s" "store_inv s" "mget (ms_pairings s) i = Some pr"
  shows "tokens_inv (snd (DeletePairing i s))"
  unfolding tokens_inv_def
proof (intro allI impI)
  fix d tok assume t: "mget (ms_apns (snd (DeletePairing i s))) d = Some tok"
  show "\<exists>j q. mget (ms_pairings (snd (DeletePairing i s))) j = Some q \<and> pr_DeviceID q = d"
  proof (cases "d = pr_DeviceID pr")
    case True
    with t DeletePairing_token [OF assms(2,3)] show ?thesis by simp
  next
    case False
    then have "mget (ms_apns s) d = Some tok"
      using t assms(3) by (auto simp: DeletePairing_def Let_def split: if_splits)
    with assms(1) obtain j q where j: "mget (ms_pairings s) j = Some q" "pr_DeviceID q = d"
      unfolding tokens_inv_def by blast
    then have "j \<noteq> i" using False assms(3) by auto
    with j show ?thesis by (auto simp: DeletePairing_pairings)
  qed
qed

lemma tokens_inv_put:
  assumes "tokens_inv s" "store_inv s" "PairingsForDevice (at_DeviceID tok) s \<noteq> []"
  shows "tokens_inv (PutAPNSToken tok s)"
proof -
  obtain q where "q \<in> set (mvals (ms_pairings s))" "pr_DeviceID q = at_DeviceID tok"
    using assms(3) by (auto simp: PairingsForDevice_def filter_empty_conv)
  then obtain j where "mget (ms_pairings s) j = Some q"
    using mvals_iff [OF pairings_invD(1) [OF store_invD(1) [OF assms(2)]]] by metis
  then have "\<exists>j q. mget (ms_pairings s) j = Some q \<and> pr_DeviceID q = at_DeviceID tok"
    using \<open>pr_DeviceID q = at_DeviceID tok\<close> by blast
  then show ?thesis
    using assms(1) unfolding tokens_inv_def PutAPNSToken_def by simp
qed

section \<open>The connection heap and the tables\<close>

text \<open>Two connections that differ only in what was sent, written or closed.\<close>

definition same_conn :: "wsConn \<Rightarrow> wsConn \<Rightarrow> bool" where
  "same_conn w w' \<longleftrightarrow> wc_role w' = wc_role w \<and> wc_hostID w' = wc_hostID w \<and> wc_channel w' = wc_channel w
     \<and> wc_winID w' = wc_winID w \<and> (length (wc_send w) \<le> sendQueueDepth \<longrightarrow> length (wc_send w') \<le> sendQueueDepth)"

definition heap_like :: "(nat, wsConn) gomap \<Rightarrow> (nat, wsConn) gomap \<Rightarrow> bool" where
  "heap_like c c' \<longleftrightarrow> (\<forall>i. rel_option same_conn (mget c i) (mget c' i))"

lemma same_conn_refl: "same_conn w w"
  by (simp add: same_conn_def)

lemma heap_like_refl [simp]: "heap_like c c"
  by (simp add: heap_like_def option.rel_refl same_conn_refl)

lemma heap_like_trans: "heap_like a b \<Longrightarrow> heap_like b c \<Longrightarrow> heap_like a c"
proof -
  assume ab: "heap_like a b" and bc: "heap_like b c"
  have "rel_option same_conn (mget a i) (mget c i)" for i
  proof -
    have "rel_option same_conn (mget a i) (mget b i)" "rel_option same_conn (mget b i) (mget c i)"
      using ab bc by (simp_all add: heap_like_def)
    then show ?thesis by (cases "mget a i"; cases "mget b i"; cases "mget c i") (auto simp: same_conn_def)
  qed
  then show ?thesis by (simp add: heap_like_def)
qed

lemma heap_like_upd_conn [simp]: "conn_effect f \<Longrightarrow> heap_like (rl_conns r) (rl_conns (upd_conn f i r))"
  by (auto simp: heap_like_def conn_effect_def same_conn_def option.rel_map intro: option.rel_refl)

lemma heap_like_upd_conns [simp]: "conn_effect f \<Longrightarrow> heap_like (rl_conns r) (rl_conns (upd_conns f is r))"
proof (induction "is" arbitrary: r)
  case (Cons i "is")
  then have "heap_like (rl_conns (upd_conn f i r)) (rl_conns (upd_conns f is (upd_conn f i r)))" by simp
  from heap_like_trans [OF heap_like_upd_conn [OF Cons.prems] this]
  show ?case by (simp add: upd_conns_def)
qed (simp add: upd_conns_def)

lemma heap_like_broadcast [simp]: "heap_like (rl_conns r) (rl_conns (broadcastHostPresence p r))"
  by (simp add: broadcastHostPresence_def)

lemma broadcast_conns: "rl_conns (broadcastHostPresence p (upd_store g r)) = rl_conns (broadcastHostPresence p (upd_store g r))"
  by simp

lemma heap_like_broadcast_store [simp]: "heap_like (rl_conns r) (rl_conns (broadcastHostPresence p (upd_store g r)))"
  using heap_like_broadcast [of "upd_store g r" p] by simp

lemma heap_like_touchHost [simp]: "heap_like (rl_conns r) (rl_conns (touchHost h r))"
  by (simp add: touchHost_def Let_def split: option.split)

lemma heap_like_presenceDeadline [simp]: "heap_like (rl_conns r) (rl_conns (presenceDeadline h r))"
  by (simp add: presenceDeadline_def Let_def split: option.split)

lemma heap_like_upd_conns_store: "conn_effect f \<Longrightarrow> heap_like (rl_conns r) (rl_conns (upd_conns f is (upd_store g r)))"
  using heap_like_upd_conns [of f "upd_store g r" "is"] by simp

lemma heap_like_setDeviceAttached [simp]: "heap_like (rl_conns r) (rl_conns (setDeviceAttached c a r))"
  by (simp add: setDeviceAttached_def Let_def heap_like_upd_conns_store split: option.split)

lemma heap_like_tearDown [simp]: "heap_like (rl_conns r) (rl_conns (tearDownWindow i r))"
proof -
  have "heap_like (rl_conns (r\<lparr>rl_winTimer := a, rl_pairConns := b\<rparr>))
      (rl_conns (upd_conns f is (r\<lparr>rl_winTimer := a, rl_pairConns := b\<rparr>)))" if "conn_effect f" for a b f "is"
    using that by (rule heap_like_upd_conns)
  then show ?thesis by (simp add: tearDownWindow_def Let_def)
qed

lemma heap_like_expireWindow [simp]: "heap_like (rl_conns r) (rl_conns (expireWindow i r))"
proof -
  have "heap_like (rl_conns (r\<lparr>rl_store := s\<rparr>)) (rl_conns (tearDownWindow i (r\<lparr>rl_store := s\<rparr>)))" for s
    by (rule heap_like_tearDown)
  then show ?thesis by (simp add: expireWindow_def split: prod.split option.split)
qed

lemma heap_like_install [simp]: "heap_like (rl_conns r) (rl_conns (install_window h i c r))"
proof -
  have "heap_like (rl_conns (r\<lparr>rl_store := s\<rparr>)) (rl_conns (tearDownWindow i (r\<lparr>rl_store := s\<rparr>)))" for s i
    by (rule heap_like_tearDown)
  then show ?thesis by (simp add: install_window_def Let_def split_beta split: option.split)
qed

text \<open>The heap holds only allocated connections with bounded queues; a table row is a non-empty set
  of connections of the table's role that carry the row's key.\<close>

definition heap_inv :: "nat \<Rightarrow> (nat, wsConn) gomap \<Rightarrow> bool" where
  "heap_inv n c \<longleftrightarrow> (\<forall>i w. mget c i = Some w \<longrightarrow> i < n \<and> length (wc_send w) \<le> sendQueueDepth)"

definition table_inv :: "string \<Rightarrow> (wsConn \<Rightarrow> string) \<Rightarrow> (nat, wsConn) gomap \<Rightarrow> (string, nat list) gomap \<Rightarrow> bool" where
  "table_inv role key c t \<longleftrightarrow> (\<forall>k is. mget t k = Some is \<longrightarrow> is \<noteq> [] \<and> distinct is
     \<and> (\<forall>i \<in> set is. \<exists>w. mget c i = Some w \<and> wc_role w = role \<and> key w = k))"

lemma heap_inv_like:
  assumes "heap_inv n c" "heap_like c c'" shows "heap_inv n c'"
  unfolding heap_inv_def
proof (intro allI impI)
  fix i w' assume w': "mget c' i = Some w'"
  have "rel_option same_conn (mget c i) (mget c' i)" using assms(2) by (simp add: heap_like_def)
  with w' obtain w where "mget c i = Some w" "same_conn w w'" by (auto simp: option_rel_Some2)
  with assms(1) show "i < n \<and> length (wc_send w') \<le> sendQueueDepth" by (auto simp: heap_inv_def same_conn_def)
qed

lemma heap_like_get: "heap_like c c' \<Longrightarrow> mget c i = Some w \<Longrightarrow> \<exists>w'. mget c' i = Some w' \<and> same_conn w w'"
  unfolding heap_like_def by (metis option_rel_Some1)

lemma table_inv_like:
  assumes "table_inv role key c t" "heap_like c c'" "\<And>w w'. same_conn w w' \<Longrightarrow> key w' = key w"
  shows "table_inv role key c' t"
proof -
  have "\<exists>w'. mget c' i = Some w' \<and> wc_role w' = role \<and> key w' = k"
    if "mget c i = Some w" "wc_role w = role" "key w = k" for i w k
    using heap_like_get [OF assms(2) that(1)] that(2,3) assms(3) by (auto simp: same_conn_def)
  with assms(1) show ?thesis unfolding table_inv_def by blast
qed

lemma table_inv_new:
  assumes "table_inv role key c t" "heap_inv n c" shows "table_inv role key (mput n w c) t"
proof -
  have "mget (mput n w c) i = Some v" if "mget c i = Some v" for i v
    using that assms(2) by (auto simp: heap_inv_def)
  with assms(1) show ?thesis unfolding table_inv_def by blast
qed

lemma table_inv_add:
  assumes "table_inv role key c t" "mget c i = Some w" "wc_role w = role" "key w = k" "i \<notin> set (conns_of t k)"
  shows "table_inv role key c (conns_add k i t)"
  using assms by (auto simp: table_inv_def conns_add_def conns_of_def split: option.splits)

lemma table_inv_del: "table_inv role key c t \<Longrightarrow> table_inv role key c (conns_del k i t)"
  by (auto simp: table_inv_def conns_del_def distinct_removeAll split: option.splits)

lemma table_inv_mdel: "table_inv role key c t \<Longrightarrow> table_inv role key c (mdel k t)"
  by (simp add: table_inv_def)

lemma table_inv_fresh: "table_inv role key c t \<Longrightarrow> heap_inv n c \<Longrightarrow> n \<notin> set (conns_of t k)"
proof (cases "mget t k")
  case (Some xs)
  assume a: "table_inv role key c t" "heap_inv n c"
  have "\<exists>w. mget c n = Some w" if "n \<in> set xs" using a(1) Some that unfolding table_inv_def by blast
  with a(2) Some show ?thesis unfolding heap_inv_def conns_of_def by auto
qed (simp add: conns_of_def)

definition tables_inv :: "Relay \<Rightarrow> bool" where
  "tables_inv r \<longleftrightarrow> heap_inv (rl_next r) (rl_conns r)
     \<and> table_inv ''host'' wc_hostID (rl_conns r) (rl_hostConns r)
     \<and> table_inv ''device'' wc_channel (rl_conns r) (rl_devConns r)
     \<and> table_inv ''pairing-device'' wc_winID (rl_conns r) (rl_pairConns r)"

lemma tables_inv_like:
  assumes "tables_inv r" "heap_like (rl_conns r) (rl_conns r')" "rl_next r' = rl_next r"
    and "rl_hostConns r' = rl_hostConns r \<or> (\<exists>k i. rl_hostConns r' = conns_del k i (rl_hostConns r))"
    and "rl_devConns r' = rl_devConns r \<or> (\<exists>k. rl_devConns r' = mdel k (rl_devConns r)
      \<or> (\<exists>i. rl_devConns r' = conns_del k i (rl_devConns r)))"
    and "rl_pairConns r' = rl_pairConns r \<or> (\<exists>k. rl_pairConns r' = mdel k (rl_pairConns r)
      \<or> (\<exists>i. rl_pairConns r' = conns_del k i (rl_pairConns r)))"
  shows "tables_inv r'"
proof -
  have "table_inv ''host'' wc_hostID (rl_conns r) (rl_hostConns r')"
    "table_inv ''device'' wc_channel (rl_conns r) (rl_devConns r')"
    "table_inv ''pairing-device'' wc_winID (rl_conns r) (rl_pairConns r')"
    using assms(1,4-6) by (auto simp: tables_inv_def table_inv_del table_inv_mdel)
  with assms(1,2,3) show ?thesis
    by (auto simp: tables_inv_def same_conn_def intro: heap_inv_like table_inv_like)
qed

lemma heap_inv_new: "heap_inv n c \<Longrightarrow> length (wc_send w) \<le> sendQueueDepth \<Longrightarrow> heap_inv (Suc n) (mput n w c)"
  by (auto simp: heap_inv_def less_Suc_eq)

lemma conn_queues [simp]: "length (wc_send (host_conn sub h)) \<le> sendQueueDepth"
  "length (wc_send (dev_conn sub ch)) \<le> sendQueueDepth" "length (wc_send (pair_conn sub win)) \<le> sendQueueDepth"
  by (simp_all add: host_conn_def dev_conn_def pair_conn_def newWSConn_def sendText_def enqueue_def sendQueueDepth_def)

lemma tables_inv_new:
  assumes "tables_inv r" "rl_next r' = Suc (rl_next r)" "rl_conns r' = mput (rl_next r) w (rl_conns r)"
    and "length (wc_send w) \<le> sendQueueDepth"
    and "wc_role w = ''host'' \<and> rl_hostConns r' = conns_add (wc_hostID w) (rl_next r) (rl_hostConns r)
           \<and> rl_devConns r' = rl_devConns r \<and> rl_pairConns r' = rl_pairConns r
       \<or> wc_role w = ''device'' \<and> rl_devConns r' = conns_add (wc_channel w) (rl_next r) (rl_devConns r)
           \<and> rl_hostConns r' = rl_hostConns r \<and> rl_pairConns r' = rl_pairConns r
       \<or> wc_role w = ''pairing-device'' \<and> rl_pairConns r' = conns_add (wc_winID w) (rl_next r) (rl_pairConns r)
           \<and> rl_hostConns r' = rl_hostConns r \<and> rl_devConns r' = rl_devConns r"
  shows "tables_inv r'"
proof -
  note T = assms(1) [unfolded tables_inv_def]
  have h: "heap_inv (rl_next r) (rl_conns r)" using T by blast
  have new: "table_inv role key (rl_conns r') t" if "table_inv role key (rl_conns r) t" for role key t
    unfolding assms(3) using that h by (rule table_inv_new)
  have add: "table_inv role key (rl_conns r') (conns_add k (rl_next r) t)"
    if "table_inv role key (rl_conns r) t" "wc_role w = role" "key w = k" for role key t k
    using new [OF that(1)] table_inv_fresh [OF that(1) h] that(2,3)
    by (intro table_inv_add [where w = w]) (simp_all add: assms(3))
  show ?thesis
    unfolding tables_inv_def assms(2) using assms(5) T new add heap_inv_new [OF h assms(4)] assms(3) by auto
qed

section \<open>Timers\<close>

text \<open>Every host shown online has its offline deadline armed at exactly the end of its silence
  allowance, or the deadline's callback is already due to run; every open window likewise has its
  expiry armed or due. A closed relay keeps neither promise.\<close>

definition presence_inv :: "Relay \<Rightarrow> bool" where
  "presence_inv r \<longleftrightarrow> (\<forall>h p. mget (ms_hostPres (rl_store r)) h = Some p \<longrightarrow> hp_LastSeen p \<le> rl_now r
     \<and> (hp_Online p \<and> \<not> rl_closed r \<longrightarrow> (\<exists>t. mget (rl_presTimer r) h = Some t
          \<and> (tm_active t \<and> tm_deadline t = hp_LastSeen p + cf_OfflineAfter (rl_cfg r)
             \<or> PresenceDeadline h \<in> set (rl_fired r)))))"

definition expiry_inv :: "Relay \<Rightarrow> bool" where
  "expiry_inv r \<longleftrightarrow> (\<forall>i w. mget (ms_windows (rl_store r)) i = Some w \<longrightarrow>
     wd_ExpiresAt w \<le> rl_now r + cf_WindowTTL (rl_cfg r)
     \<and> (\<not> rl_closed r \<longrightarrow> (\<exists>t. mget (rl_winTimer r) i = Some t
          \<and> (tm_active t \<and> tm_deadline t = wd_ExpiresAt w \<or> ExpireWindow i \<in> set (rl_fired r)))))"

lemma presence_inv_frame:
  assumes "presence_inv r" "ms_hostPres (rl_store r') = ms_hostPres (rl_store r)" "rl_presTimer r' = rl_presTimer r"
    "rl_fired r' = rl_fired r" "rl_now r' = rl_now r" "rl_closed r' = rl_closed r" "rl_cfg r' = rl_cfg r"
  shows "presence_inv r'"
  using assms(1) unfolding presence_inv_def assms(2-) .

lemma expiry_inv_frame:
  assumes "expiry_inv r" "\<And>i w. mget (ms_windows (rl_store r')) i = Some w \<Longrightarrow>
      \<exists>v. mget (ms_windows (rl_store r)) i = Some v \<and> wd_ExpiresAt v = wd_ExpiresAt w"
    "rl_winTimer r' = rl_winTimer r" "rl_fired r' = rl_fired r" "rl_now r' = rl_now r" "rl_closed r' = rl_closed r"
    "rl_cfg r' = rl_cfg r"
  shows "expiry_inv r'"
  unfolding expiry_inv_def assms(3-)
proof (intro allI impI)
  fix i w assume "mget (ms_windows (rl_store r')) i = Some w"
  then obtain v where v: "mget (ms_windows (rl_store r)) i = Some v" "wd_ExpiresAt v = wd_ExpiresAt w"
    using assms(2) by blast
  show "wd_ExpiresAt w \<le> rl_now r + cf_WindowTTL (rl_cfg r) \<and> (\<not> rl_closed r \<longrightarrow> (\<exists>t. mget (rl_winTimer r) i = Some t
      \<and> (tm_active t \<and> tm_deadline t = wd_ExpiresAt w \<or> ExpireWindow i \<in> set (rl_fired r))))"
    using assms(1) v unfolding expiry_inv_def v(2) [symmetric] by blast
qed

lemma presence_inv_touchHost:
  assumes "presence_inv r" "store_inv (rl_store r)"
  shows "presence_inv (touchHost h r)"
  unfolding presence_inv_def
proof (intro allI impI)
  fix h' p assume p: "mget (ms_hostPres (rl_store (touchHost h r))) h' = Some p"
  have id: "hp_HostID (host_presence h r) = h"
    using store_invD(4) [OF assms(2)] by (auto simp: host_presence_def LookupHostPresence_def keys_inv_def split: option.splits)
  show "hp_LastSeen p \<le> rl_now (touchHost h r)
     \<and> (hp_Online p \<and> \<not> rl_closed (touchHost h r) \<longrightarrow> (\<exists>t. mget (rl_presTimer (touchHost h r)) h' = Some t
          \<and> (tm_active t \<and> tm_deadline t = hp_LastSeen p + cf_OfflineAfter (rl_cfg (touchHost h r))
             \<or> PresenceDeadline h' \<in> set (rl_fired (touchHost h r)))))"
  proof (cases "h' = h")
    case True
    then have "p = (host_presence h r)\<lparr>hp_LastSeen := rl_now r, hp_Online := True\<rparr>"
      using p id by (simp add: touchHost_store PutHostPresence_def)
    with True show ?thesis by (simp add: touchHost_timer)
  next
    case False
    then have "mget (ms_hostPres (rl_store r)) h' = Some p"
      using p id by (simp add: touchHost_store PutHostPresence_def)
    with assms(1) False show ?thesis by (simp add: presence_inv_def touchHost_timer_other)
  qed
qed

lemma config_ok_offline: "config_ok c \<Longrightarrow> 0 < cf_OfflineAfter c \<and> cf_OfflineAfter c \<le> max_duration"
  by (simp add: config_ok_def max_duration_def)

lemma presence_inv_deadline:
  assumes "presence_inv r" "store_inv (rl_store r)" "config_ok (rl_cfg r)" and fired: "PresenceDeadline h \<in> set (rl_fired r)"
  shows "presence_inv (presenceDeadline h (r\<lparr>rl_fired := remove1 (PresenceDeadline h) (rl_fired r)\<rparr>))"
proof -
  let ?r = "r\<lparr>rl_fired := remove1 (PresenceDeadline h) (rl_fired r)\<rparr>"
  have other: "PresenceDeadline h' \<in> set (remove1 (PresenceDeadline h) (rl_fired r))"
    if "h' \<noteq> h" "PresenceDeadline h' \<in> set (rl_fired r)" for h'
    using that by (simp add: in_set_remove1)
  have off: "min_duration < cf_OfflineAfter (rl_cfg r)" "cf_OfflineAfter (rl_cfg r) \<le> max_duration"
    using config_ok_offline [OF assms(3)] by (simp_all add: min_duration_def)
  show ?thesis
  proof (cases "mget (ms_hostPres (rl_store r)) h")
    case None
    then have "presenceDeadline h ?r = ?r" by (simp add: presenceDeadline_def LookupHostPresence_def)
    moreover have "presence_inv ?r"
      unfolding presence_inv_def
    proof (intro allI impI)
      fix h' p assume p: "mget (ms_hostPres (rl_store ?r)) h' = Some p"
      then have "h' \<noteq> h" using None by auto
      note I = assms(1) [unfolded presence_inv_def, rule_format, of h' p]
      show "hp_LastSeen p \<le> rl_now ?r \<and> (hp_Online p \<and> \<not> rl_closed ?r \<longrightarrow> (\<exists>t. mget (rl_presTimer ?r) h' = Some t
          \<and> (tm_active t \<and> tm_deadline t = hp_LastSeen p + cf_OfflineAfter (rl_cfg ?r) \<or> PresenceDeadline h' \<in> set (rl_fired ?r))))"
        using I p other [OF \<open>h' \<noteq> h\<close>] by auto
    qed
    ultimately show ?thesis by simp
  next
    case (Some p)
    have id: "hp_HostID p = h" using store_invD(4) [OF assms(2)] Some by (simp add: keys_inv_def)
    have seen: "hp_LastSeen p \<le> rl_now r" using assms(1) Some by (simp add: presence_inv_def)
    let ?silent = "time_sub (rl_now r) (hp_LastSeen p)"
    show ?thesis
    proof (cases "?silent < cf_OfflineAfter (rl_cfg r)")
      case live: True
      then have "rl_now r - hp_LastSeen p < cf_OfflineAfter (rl_cfg r)" using time_sub_less_iff [OF off] by simp
      then have silent: "?silent = rl_now r - hp_LastSeen p"
        using seen off by (simp add: time_sub_def min_duration_def)
      let ?t = "\<lambda>t. timer_Reset (cf_OfflineAfter (rl_cfg r) - ?silent) (rl_now r) t"
      have d: "presenceDeadline h ?r = (case mget (rl_presTimer r) h of None \<Rightarrow> ?r | Some t \<Rightarrow>
          if rl_closed r then ?r else ?r\<lparr>rl_presTimer := mput h (?t t) (rl_presTimer r)\<rparr>)"
        using Some live by (simp add: presenceDeadline_def LookupHostPresence_def Let_def split: option.split)
      show ?thesis
        unfolding presence_inv_def
      proof (intro allI impI)
        fix h' p' assume p': "mget (ms_hostPres (rl_store (presenceDeadline h ?r))) h' = Some p'"
        then have p'': "mget (ms_hostPres (rl_store r)) h' = Some p'" by (simp add: d split: option.splits if_splits)
        note I = assms(1) [unfolded presence_inv_def, rule_format, OF p'']
        show "hp_LastSeen p' \<le> rl_now (presenceDeadline h ?r)
          \<and> (hp_Online p' \<and> \<not> rl_closed (presenceDeadline h ?r) \<longrightarrow> (\<exists>t. mget (rl_presTimer (presenceDeadline h ?r)) h' = Some t
          \<and> (tm_active t \<and> tm_deadline t = hp_LastSeen p' + cf_OfflineAfter (rl_cfg (presenceDeadline h ?r))
             \<or> PresenceDeadline h' \<in> set (rl_fired (presenceDeadline h ?r)))))"
        proof (cases "h' = h")
          case True
          then have "p' = p" using p'' Some by simp
          with True I silent show ?thesis by (auto simp: d timer_Reset_def split: option.splits)
        next
          case False
          with I other show ?thesis by (auto simp: d split: option.splits)
        qed
      qed
    next
      case False
      then have s: "ms_hostPres (rl_store (presenceDeadline h ?r))
          = (if hp_Online p then mput h (p\<lparr>hp_Online := False\<rparr>) (ms_hostPres (rl_store r)) else ms_hostPres (rl_store r))"
        and t: "rl_presTimer (presenceDeadline h ?r) = rl_presTimer r"
        using Some id by (auto simp: presenceDeadline_def LookupHostPresence_def PutHostPresence_def Let_def)
      show ?thesis
        unfolding presence_inv_def
      proof (intro allI impI)
        fix h' p' assume p': "mget (ms_hostPres (rl_store (presenceDeadline h ?r))) h' = Some p'"
        show "hp_LastSeen p' \<le> rl_now (presenceDeadline h ?r)
          \<and> (hp_Online p' \<and> \<not> rl_closed (presenceDeadline h ?r) \<longrightarrow> (\<exists>t. mget (rl_presTimer (presenceDeadline h ?r)) h' = Some t
          \<and> (tm_active t \<and> tm_deadline t = hp_LastSeen p' + cf_OfflineAfter (rl_cfg (presenceDeadline h ?r))
             \<or> PresenceDeadline h' \<in> set (rl_fired (presenceDeadline h ?r)))))"
        proof (cases "h' = h")
          case True
          then have "\<not> hp_Online p' \<and> hp_LastSeen p' = hp_LastSeen p" using p' Some by (auto simp: s split: if_splits)
          with seen show ?thesis by simp
        next
          case False
          then have p'': "mget (ms_hostPres (rl_store r)) h' = Some p'" using p' by (simp add: s split: if_splits)
          with assms(1) [unfolded presence_inv_def, rule_format, OF p''] other [OF False] show ?thesis
            by (auto simp: t)
        qed
      qed
    qed
  qed
qed

lemma expiry_inv_install:
  assumes "expiry_inv r" "store_inv (rl_store r)" "mget (ms_windows (rl_store r)) id1 = None"
  shows "expiry_inv (install_window h id1 id2 r)"
proof -
  let ?w = "new_window h id1 id2 r" and ?s = "rl_store r"
  have wi: "windows_inv ?s" using assms(2) by (rule store_invD)
  have win: "mget (ms_windows (snd (OpenWindow ?w ?s))) i = (if i = id1 then Some ?w else
      if mget (ms_winByHost ?s) h = Some i then None else mget (ms_windows ?s) i)" for i
  proof (cases "mget (ms_winByHost ?s) h")
    case (Some j)
    then obtain v where "mget (ms_windows ?s) j = Some v" by (rule indexesE [OF windows_invD(2) [OF wi]])
    with Some show ?thesis by (auto simp: OpenWindow_def new_window_def Let_def)
  qed (simp add: OpenWindow_def new_window_def Let_def)
  have disp: "fst (OpenWindow ?w ?s) = (case mget (ms_winByHost ?s) h of None \<Rightarrow> None | Some j \<Rightarrow> mget (ms_windows ?s) j)"
    by (simp add: OpenWindow_def new_window_def Let_def split: option.split)
  have tm: "mget (rl_winTimer (install_window h id1 id2 r)) i =
      (if i = id1 then Some \<lparr>tm_deadline = wd_ExpiresAt ?w, tm_active = True\<rparr> else mget (rl_winTimer r) i)"
    if "\<not> rl_closed r" "mget (ms_winByHost ?s) h \<noteq> Some i" for i
  proof (cases "fst (OpenWindow ?w ?s)")
    case None
    with that show ?thesis by (simp add: install_window_def Let_def split_beta AfterFunc_def new_window_def)
  next
    case (Some v)
    then obtain j where j: "mget (ms_winByHost ?s) h = Some j" "mget (ms_windows ?s) j = Some v"
      by (auto simp: disp split: option.splits)
    then have "wd_WindowID v = j" using windows_invD(1) [OF wi] by blast
    with j(1) that have "i \<noteq> wd_WindowID v" by auto
    with Some that show ?thesis by (simp add: install_window_def Let_def split_beta AfterFunc_def new_window_def)
  qed
  show ?thesis
    unfolding expiry_inv_def install_window_frame
  proof (intro allI impI)
    fix i w assume w: "mget (ms_windows (snd (OpenWindow ?w ?s))) i = Some w"
    show "wd_ExpiresAt w \<le> rl_now r + cf_WindowTTL (rl_cfg r) \<and> (\<not> rl_closed r \<longrightarrow>
        (\<exists>t. mget (rl_winTimer (install_window h id1 id2 r)) i = Some t
          \<and> (tm_active t \<and> tm_deadline t = wd_ExpiresAt w \<or> ExpireWindow i \<in> set (rl_fired r))))"
    proof (cases "i = id1")
      case True
      then have "w = ?w" using w by (simp add: win)
      moreover have "mget (ms_winByHost ?s) h \<noteq> Some id1"
        using assms(3) windows_invD(2) [OF wi] by (metis indexesE option.distinct(1))
      ultimately show ?thesis using True tm [of id1] by (simp add: new_window_def)
    next
      case False
      then have o: "mget (ms_winByHost ?s) h \<noteq> Some i" "mget (ms_windows ?s) i = Some w"
        using w by (simp_all add: win split: if_splits)
      then show ?thesis using assms(1) [unfolded expiry_inv_def, rule_format, OF o(2)] False tm [OF _ o(1)] by auto
    qed
  qed
qed

lemma expiry_inv_expire:
  assumes "expiry_inv r"
  shows "expiry_inv (expireWindow i (r\<lparr>rl_fired := remove1 (ExpireWindow i) (rl_fired r)\<rparr>))"
    and "expiry_inv (expireWindow i r)"
proof -
  have win: "mget (ms_windows (snd (DeleteWindow i s))) j = (if j = i then None else mget (ms_windows s) j)" for j s
    by (simp add: DeleteWindow_def Let_def split: option.split)
  have other: "ExpireWindow j \<in> set (remove1 (ExpireWindow i) xs) \<longleftrightarrow> ExpireWindow j \<in> set xs" if "j \<noteq> i" for j xs
    using that by (simp add: in_set_remove1)
  have tmr: "mget (rl_winTimer (expireWindow i r')) j = mget (rl_winTimer r') j" if "j \<noteq> i" for j r'
    using that by (simp add: expireWindow_tables)
  show "expiry_inv (expireWindow i (r\<lparr>rl_fired := remove1 (ExpireWindow i) (rl_fired r)\<rparr>))" "expiry_inv (expireWindow i r)"
    using assms unfolding expiry_inv_def expireWindow_frame win
    by (auto simp: tmr other split: if_splits)
qed

section \<open>Attachment\<close>

lemma setDeviceAttached_store:
  "rl_store (setDeviceAttached c a r) =
     PutDevicePresence ((channel_presence c r)\<lparr>dp_Attached := a, dp_LastSeen := rl_now r\<rparr>) (rl_store r)"
proof -
  define p where "p = (channel_presence c r)\<lparr>dp_Attached := a, dp_LastSeen := rl_now r\<rparr>"
  show ?thesis
    unfolding setDeviceAttached_def channel_presence_def [symmetric] Let_def p_def [symmetric]
    by (simp split: option.split)
qed

lemma setDeviceAttached_devPres:
  assumes "store_inv (rl_store r)"
  shows "(\<exists>p. mget (ms_devPres (rl_store (setDeviceAttached c a r))) c' = Some p \<and> dp_Attached p) \<longleftrightarrow>
    (if c' = c then a else \<exists>p. mget (ms_devPres (rl_store r)) c' = Some p \<and> dp_Attached p)"
proof -
  have "dp_ChannelID (channel_presence c r) = c"
    using store_invD(4) [OF assms] by (auto simp: channel_presence_def LookupDevicePresence_def keys_inv_def split: option.splits)
  then show ?thesis by (simp add: setDeviceAttached_store PutDevicePresence_def)
qed

lemma conns_of_add: "conns_of (conns_add k i t) k' = (if k' = k then
    (if i \<in> set (conns_of t k) then conns_of t k else conns_of t k @ [i]) else conns_of t k')"
  by (simp add: conns_add_def conns_of_def)

lemma conns_of_del: "conns_of (conns_del k i t) k' = (if k' = k then removeAll i (conns_of t k) else conns_of t k')"
  by (simp add: conns_del_def conns_of_def split: option.split)

section \<open>Every effect keeps every invariant\<close>

definition relay_inv :: "Relay \<Rightarrow> bool" where
  "relay_inv r \<longleftrightarrow> config_ok (rl_cfg r) \<and> store_inv (rl_store r) \<and> accounts_inv (rl_store r)
     \<and> mailboxes_inv (mailboxPolicy (rl_cfg r)) (rl_store r) \<and> tokens_inv (rl_store r) \<and> tables_inv r
     \<and> presence_inv r \<and> expiry_inv r \<and> (\<forall>p \<in> set (rl_pushes r). closed_push p)"

lemma relay_invD:
  assumes "relay_inv r"
  shows "config_ok (rl_cfg r)" "store_inv (rl_store r)" "accounts_inv (rl_store r)"
    "mailboxes_inv (mailboxPolicy (rl_cfg r)) (rl_store r)" "tokens_inv (rl_store r)" "tables_inv r"
    "presence_inv r" "expiry_inv r" "\<forall>p \<in> set (rl_pushes r). closed_push p"
  using assms by (simp_all add: relay_inv_def)

lemma run_callback_frame [simp]:
  "rl_cfg (run_callback cb r) = rl_cfg r" "rl_hostConns (run_callback cb r) = rl_hostConns r"
  "rl_devConns (run_callback cb r) = rl_devConns r" "rl_next (run_callback cb r) = rl_next r"
  "rl_pushes (run_callback cb r) = rl_pushes r" "rl_now (run_callback cb r) = rl_now r"
  "rl_closed (run_callback cb r) = rl_closed r" "rl_fired (run_callback cb r) = rl_fired r"
  by (cases cb; simp)+

lemma presenceDeadline_store: "rl_store (presenceDeadline h r) = rl_store r
    \<or> (\<exists>p. rl_store (presenceDeadline h r) = PutHostPresence p (rl_store r))"
  by (auto simp: presenceDeadline_def Let_def split: option.splits)

text \<open>What an effect does to the store.\<close>

inductive store_effect :: "Relay \<Rightarrow> MemStore \<Rightarrow> bool" where
  se_same: "store_effect r (rl_store r)"
| se_lookup: "store_effect r (snd (LookupBinding h (rl_now r) (rl_store r)))"
| se_bind: "store_effect r (snd (BindHost h sub (rl_now r) (rl_store r)))"
| se_touch: "store_effect r (TouchBinding h (rl_now r) (rl_store r))"
| se_create: "fresh_pairing pr (rl_store r) \<Longrightarrow>
    live_account (pr_HostID pr) (rl_now r) (rl_store r) = Some (pr_AccountSub pr) \<Longrightarrow>
    store_effect r (snd (CreatePairing pr (rl_store r)))"
| se_label: "store_effect r (SetHostLabel i l (rl_store r))"
| se_delete: "mget (ms_pairings (rl_store r)) i = Some pr \<Longrightarrow> store_effect r (snd (DeletePairing i (rl_store r)))"
| se_open: "mget (ms_windows (rl_store r)) (wd_WindowID w) = None \<Longrightarrow> store_effect r (snd (OpenWindow w (rl_store r)))"
| se_reap: "store_effect r (snd (WindowForHost h (rl_now r) (rl_store r)))"
| se_count: "store_effect r (snd (CountWindowAttach i cap (rl_store r)))"
| se_close: "store_effect r (snd (DeleteWindow i (rl_store r)))"
| se_append: "PairingByChannel ch (rl_store r) \<noteq> None \<Longrightarrow> validPushClass (mi_PushClass it) \<Longrightarrow>
    store_effect r (AppendMailbox ch it (mailboxPolicy (rl_cfg r)) (rl_store r))"
| se_fetch: "store_effect r (snd (FetchMailbox ch after n (rl_now r) ttl (rl_store r)))"
| se_token: "PairingsForDevice (at_DeviceID tok) (rl_store r) \<noteq> [] \<Longrightarrow> store_effect r (PutAPNSToken tok (rl_store r))"
| se_host: "store_effect r (PutHostPresence hp (rl_store r))"
| se_dev: "store_effect r (PutDevicePresence dp (rl_store r))"

lemma store_effect_callback: "store_effect r (rl_store (run_callback cb (r\<lparr>rl_fired := fs\<rparr>)))"
proof (cases cb)
  case (PresenceDeadline h)
  then show ?thesis
    using presenceDeadline_store [of h "r\<lparr>rl_fired := fs\<rparr>"] by (auto intro: store_effect.intros)
next
  case (ExpireWindow i)
  then show ?thesis by (simp add: store_effect.intros)
qed

lemma prim_store_effect: "prim r r' \<Longrightarrow> store_effect r (rl_store r')"
proof (induction rule: prim.induct)
  case (install r id1 h id2)
  then show ?case using se_open [of r "new_window h id1 id2 r"] by (simp add: new_window_def)
qed (simp_all add: store_effect.intros store_effect_callback touchHost_store)

lemma dev_prim_store_effect: "dev_prim r r' \<Longrightarrow> store_effect r (rl_store r')"
  by (induction rule: dev_prim.induct) (simp_all add: store_effect.intros setDeviceAttached_store)

lemma prim_cfg: "prim r r' \<Longrightarrow> rl_cfg r' = rl_cfg r"
  by (induction rule: prim.induct) simp_all

lemma dev_prim_cfg: "dev_prim r r' \<Longrightarrow> rl_cfg r' = rl_cfg r"
  by (induction rule: dev_prim.induct) simp_all

lemma store_effect_inv: "store_effect r s \<Longrightarrow> store_inv (rl_store r) \<Longrightarrow> store_inv s"
  by (induction rule: store_effect.induct)
    (simp_all add: store_inv_CreatePairing store_inv_OpenWindow fresh_pairing_def)

lemma store_effect_accounts:
  "store_effect r s \<Longrightarrow> store_inv (rl_store r) \<Longrightarrow> accounts_inv (rl_store r) \<Longrightarrow> accounts_inv s"
  by (induction rule: store_effect.induct)
    (simp_all add: LookupBinding_def accounts_inv_lookup accounts_inv_bind accounts_inv_create accounts_inv_misc
      accounts_inv_frame)

lemma store_effect_mailboxes:
  assumes "store_effect r s" "store_inv (rl_store r)" "config_ok (rl_cfg r)"
    "mailboxes_inv (mailboxPolicy (rl_cfg r)) (rl_store r)"
  shows "mailboxes_inv (mailboxPolicy (rl_cfg r)) s"
  using assms(1)
proof cases
  case (se_append ch it)
  then show ?thesis using assms by (simp add: mailboxes_inv_append config_ok_pol)
next
  case (se_create pr)
  then show ?thesis using assms by (simp add: mailboxes_inv_create)
next
  case (se_delete i pr)
  then show ?thesis using assms by (simp add: mailboxes_inv_delete)
next
  case (se_label i l)
  then show ?thesis using assms by (simp add: mailboxes_inv_label)
next
  case (se_fetch ch a n ttl)
  then show ?thesis using assms by (simp add: mailboxes_inv_fetch)
qed (use assms in \<open>simp_all add: mailboxes_inv_frame\<close>)

lemma store_effect_tokens:
  assumes "store_effect r s" "store_inv (rl_store r)" "tokens_inv (rl_store r)"
  shows "tokens_inv s"
  using assms(1)
proof cases
  case (se_create pr)
  then show ?thesis using assms by (simp add: tokens_inv_create)
next
  case (se_delete i pr)
  then show ?thesis using assms by (simp add: tokens_inv_delete)
next
  case (se_label i l)
  then show ?thesis using assms by (simp add: tokens_inv_label)
next
  case (se_token tok)
  then show ?thesis using assms by (simp add: tokens_inv_put)
qed (use assms in \<open>simp_all add: tokens_inv_frame\<close>)

lemma conns_of_mdel: "conns_of (mdel k t) k' = (if k' = k then [] else conns_of t k')"
  by (simp add: conns_of_def)

lemma install_tables: "rl_pairConns (install_window h i c r) = rl_pairConns r
    \<or> (\<exists>k. rl_pairConns (install_window h i c r) = mdel k (rl_pairConns r))"
  by (auto simp: install_window_def Let_def split_beta split: option.split)

lemma expire_tables: "rl_pairConns (expireWindow i r) = rl_pairConns r
    \<or> (\<exists>k. rl_pairConns (expireWindow i r) = mdel k (rl_pairConns r))"
  by (auto simp: expireWindow_tables)

lemma run_callback_like:
  "heap_like (rl_conns r) (rl_conns (run_callback cb (r\<lparr>rl_fired := fs\<rparr>)))"
  "rl_pairConns (run_callback cb (r\<lparr>rl_fired := fs\<rparr>)) = rl_pairConns r
    \<or> (\<exists>k. rl_pairConns (run_callback cb (r\<lparr>rl_fired := fs\<rparr>)) = mdel k (rl_pairConns r))"
proof -
  show "heap_like (rl_conns r) (rl_conns (run_callback cb (r\<lparr>rl_fired := fs\<rparr>)))"
  proof (cases cb)
    case (PresenceDeadline h)
    then show ?thesis using heap_like_presenceDeadline [of "r\<lparr>rl_fired := fs\<rparr>" h] by simp
  next
    case (ExpireWindow i)
    then show ?thesis using heap_like_expireWindow [of "r\<lparr>rl_fired := fs\<rparr>" i] by simp
  qed
  show "rl_pairConns (run_callback cb (r\<lparr>rl_fired := fs\<rparr>)) = rl_pairConns r
    \<or> (\<exists>k. rl_pairConns (run_callback cb (r\<lparr>rl_fired := fs\<rparr>)) = mdel k (rl_pairConns r))"
    using expire_tables [of _ "r\<lparr>rl_fired := fs\<rparr>"] by (cases cb) simp_all
qed

end
