(* ===== verification/Preserve.thy ===== *)
theory Preserve
  imports Invariants
begin

text \<open>
  Every primitive effect keeps the tables and the timers, and with them the whole
  relay invariant.
\<close>

section \<open>Tables\<close>

lemma tables_inv_delete:
  assumes "tables_inv r"
  shows "tables_inv (upd_conns (conn_close c m) is (r\<lparr>rl_store := s, rl_devConns := mdel ch (rl_devConns r)\<rparr>))"
proof -
  have "heap_like (rl_conns (r\<lparr>rl_store := s, rl_devConns := mdel ch (rl_devConns r)\<rparr>))
      (rl_conns (upd_conns (conn_close c m) is (r\<lparr>rl_store := s, rl_devConns := mdel ch (rl_devConns r)\<rparr>)))"
    by (rule heap_like_upd_conns) simp
  then show ?thesis by (intro tables_inv_like [OF assms]) auto
qed

lemma prim_tables:
  assumes "prim r r'" "tables_inv r" shows "tables_inv r'"
  using assms(1)
proof cases
  case (delete i pr c m)
  then show ?thesis using assms(2) by (simp add: tables_inv_delete)
next
  case (host_in sub h)
  then show ?thesis
    by (intro tables_inv_new [OF assms(2), where w = "host_conn sub h"]) (simp_all, simp add: host_conn_def newWSConn_def)
next
  case (pair_in sub win)
  then show ?thesis
    by (intro tables_inv_new [OF assms(2), where w = "pair_conn sub win"])
      (simp_all, simp add: pair_conn_def newWSConn_def sendText_def)
next
  case (install id1 h id2)
  then show ?thesis using install_tables [of h id1 id2 r] by (intro tables_inv_like [OF assms(2)]) auto
next
  case (expire i)
  then show ?thesis using expire_tables [of i r] by (intro tables_inv_like [OF assms(2)]) auto
next
  case (callback cb)
  then show ?thesis
    using run_callback_like(1) [of r cb "remove1 cb (rl_fired r)"] run_callback_like(2) [of cb "remove1 cb (rl_fired r)" r]
    by (intro tables_inv_like [OF assms(2)]) auto
next
  case (host_out h i)
  then show ?thesis by (intro tables_inv_like [OF assms(2)]) auto
next
  case (pair_out wid i)
  then show ?thesis by (intro tables_inv_like [OF assms(2)]) auto
qed (use assms(2) in \<open>auto intro: tables_inv_like [OF assms(2)]\<close>)

lemma dev_prim_tables:
  assumes "dev_prim r r'" "tables_inv r" shows "tables_inv r'"
  using assms(1)
proof cases
  case (dev_in sub ch)
  then show ?thesis
    by (intro tables_inv_new [OF assms(2), where w = "dev_conn sub ch"]) (simp_all, simp add: dev_conn_def newWSConn_def)
next
  case (dev_out ch i)
  then show ?thesis by (intro tables_inv_like [OF assms(2)]) auto
next
  case (attached ch a)
  then show ?thesis by (intro tables_inv_like [OF assms(2)]) auto
qed

section \<open>Pushes\<close>

lemma prim_pushes:
  "prim r r' \<Longrightarrow> \<forall>p \<in> set (rl_pushes r). closed_push p \<Longrightarrow> \<forall>p \<in> set (rl_pushes r'). closed_push p"
  by (induction rule: prim.induct) auto

lemma PutHostPresence_devPres [simp]: "ms_devPres (PutHostPresence p s) = ms_devPres s"
  by (simp add: PutHostPresence_def)

lemma callback_devPres: "ms_devPres (rl_store (run_callback cb (r\<lparr>rl_fired := fs\<rparr>))) = ms_devPres (rl_store r)"
proof (cases cb)
  case (PresenceDeadline h)
  then show ?thesis using presenceDeadline_store [of h "r\<lparr>rl_fired := fs\<rparr>"] by auto
qed simp

lemma DeletePairing_devPres: "mget (ms_pairings s) i = Some pr \<Longrightarrow>
    ms_devPres (snd (DeletePairing i s)) = mdel (pr_ChannelID pr) (ms_devPres s)"
  by (simp add: DeletePairing_def Let_def)

section \<open>Timers\<close>

lemma DeletePairing_hostPres: "ms_hostPres (snd (DeletePairing i s)) = ms_hostPres s"
  by (simp add: DeletePairing_def Let_def split: option.split)

lemma presence_inv_tick: "presence_inv r \<Longrightarrow> 0 \<le> d \<Longrightarrow> presence_inv (r\<lparr>rl_now := rl_now r + d\<rparr>)"
  unfolding presence_inv_def by (fastforce intro: order_trans)

lemma presence_inv_fire:
  assumes "presence_inv r"
  shows "presence_inv (r\<lparr>rl_presTimer := mput h t (rl_presTimer r), rl_fired := rl_fired r @ [PresenceDeadline h]\<rparr>)"
  unfolding presence_inv_def
proof (intro allI impI)
  let ?r = "r\<lparr>rl_presTimer := mput h t (rl_presTimer r), rl_fired := rl_fired r @ [PresenceDeadline h]\<rparr>"
  fix h' p assume "mget (ms_hostPres (rl_store ?r)) h' = Some p"
  then have "mget (ms_hostPres (rl_store r)) h' = Some p" by simp
  from assms [unfolded presence_inv_def, rule_format, OF this]
  show "hp_LastSeen p \<le> rl_now ?r \<and> (hp_Online p \<and> \<not> rl_closed ?r \<longrightarrow> (\<exists>t. mget (rl_presTimer ?r) h' = Some t
      \<and> (tm_active t \<and> tm_deadline t = hp_LastSeen p + cf_OfflineAfter (rl_cfg ?r) \<or> PresenceDeadline h' \<in> set (rl_fired ?r))))"
    by auto
qed

lemma presence_inv_fired:
  assumes "presence_inv r" "ms_hostPres (rl_store r') = ms_hostPres (rl_store r)" "rl_presTimer r' = rl_presTimer r"
    "\<And>h. PresenceDeadline h \<in> set (rl_fired r) \<Longrightarrow> PresenceDeadline h \<in> set (rl_fired r')"
    "rl_now r' = rl_now r" "rl_closed r' = rl_closed r" "rl_cfg r' = rl_cfg r"
  shows "presence_inv r'"
  using assms(1,4) unfolding presence_inv_def assms(2,3,5-) by meson

lemma prim_presence:
  assumes "prim r r'" "presence_inv r" "store_inv (rl_store r)" "config_ok (rl_cfg r)"
  shows "presence_inv r'"
  using assms(1)
proof cases
  case (touch h)
  then show ?thesis using assms by (simp add: presence_inv_touchHost)
next
  case (tick d)
  then show ?thesis using assms by (simp add: presence_inv_tick)
next
  case (fire_presence h t)
  then show ?thesis using assms by (simp add: presence_inv_fire)
next
  case (fire_window i t)
  then show ?thesis using assms(2) by (intro presence_inv_fired [OF assms(2)]) auto
next
  case (callback cb)
  show ?thesis
  proof (cases cb)
    case (PresenceDeadline h)
    with callback assms show ?thesis by (simp add: presence_inv_deadline)
  next
    case (ExpireWindow i)
    with callback show ?thesis by (intro presence_inv_fired [OF assms(2)]) (auto simp: in_set_remove1)
  qed
next
  case shut
  then show ?thesis using assms(2) by (auto simp: presence_inv_def)
qed (use assms(2) in \<open>auto simp: DeletePairing_hostPres intro: presence_inv_frame [OF assms(2)]\<close>)

lemma WindowForHost_windows: "mget (ms_windows (snd (WindowForHost h t s))) i = Some w \<Longrightarrow> mget (ms_windows s) i = Some w"
  by (auto simp: WindowForHost_def split: option.splits if_splits)

lemma Count_windows: "mget (ms_windows (snd (CountWindowAttach j cap s))) i = Some w \<Longrightarrow>
    \<exists>v. mget (ms_windows s) i = Some v \<and> wd_ExpiresAt v = wd_ExpiresAt w"
  by (auto simp: CountWindowAttach_def split: option.splits if_splits)

lemma DeletePairing_windows: "ms_windows (snd (DeletePairing i s)) = ms_windows s"
  by (simp add: DeletePairing_def Let_def split: option.split)

lemma presenceDeadline_windows: "ms_windows (rl_store (presenceDeadline h r)) = ms_windows (rl_store r)"
  using presenceDeadline_store [of h r] by auto

lemma expiry_inv_tick: "expiry_inv r \<Longrightarrow> 0 \<le> d \<Longrightarrow> expiry_inv (r\<lparr>rl_now := rl_now r + d\<rparr>)"
  unfolding expiry_inv_def by fastforce

lemma expiry_inv_fire:
  assumes "expiry_inv r"
  shows "expiry_inv (r\<lparr>rl_winTimer := mput j t (rl_winTimer r), rl_fired := rl_fired r @ [ExpireWindow j]\<rparr>)"
  unfolding expiry_inv_def
proof (intro allI impI)
  let ?r = "r\<lparr>rl_winTimer := mput j t (rl_winTimer r), rl_fired := rl_fired r @ [ExpireWindow j]\<rparr>"
  fix i w assume "mget (ms_windows (rl_store ?r)) i = Some w"
  then have "mget (ms_windows (rl_store r)) i = Some w" by simp
  from assms [unfolded expiry_inv_def, rule_format, OF this]
  show "wd_ExpiresAt w \<le> rl_now ?r + cf_WindowTTL (rl_cfg ?r) \<and> (\<not> rl_closed ?r \<longrightarrow> (\<exists>t. mget (rl_winTimer ?r) i = Some t
      \<and> (tm_active t \<and> tm_deadline t = wd_ExpiresAt w \<or> ExpireWindow i \<in> set (rl_fired ?r))))"
    by auto
qed

lemma expiry_inv_fired:
  assumes "expiry_inv r" "ms_windows (rl_store r') = ms_windows (rl_store r)" "rl_winTimer r' = rl_winTimer r"
    "\<And>i. ExpireWindow i \<in> set (rl_fired r) \<Longrightarrow> ExpireWindow i \<in> set (rl_fired r')"
    "rl_now r' = rl_now r" "rl_closed r' = rl_closed r" "rl_cfg r' = rl_cfg r"
  shows "expiry_inv r'"
  using assms(1,4) unfolding expiry_inv_def assms(2,3,5-) by meson

lemma prim_expiry:
  assumes "prim r r'" "expiry_inv r" "store_inv (rl_store r)"
  shows "expiry_inv r'"
  using assms(1)
proof cases
  case (install id1 h id2)
  then show ?thesis using assms by (simp add: expiry_inv_install)
next
  case (expire i)
  then show ?thesis using assms by (simp add: expiry_inv_expire)
next
  case (reap h)
  then have "\<exists>v. mget (ms_windows (rl_store r)) i = Some v \<and> wd_ExpiresAt v = wd_ExpiresAt w"
    if "mget (ms_windows (rl_store r')) i = Some w" for i w
    using that WindowForHost_windows [of h "rl_now r" "rl_store r" i w] by simp
  then show ?thesis by (rule expiry_inv_frame [OF assms(2)]) (simp_all add: reap)
next
  case (count i cap)
  then have "\<exists>v. mget (ms_windows (rl_store r)) j = Some v \<and> wd_ExpiresAt v = wd_ExpiresAt w"
    if "mget (ms_windows (rl_store r')) j = Some w" for j w
    using that Count_windows [of i cap "rl_store r" j w] by simp
  then show ?thesis by (rule expiry_inv_frame [OF assms(2)]) (simp_all add: count)
next
  case (tick d)
  then show ?thesis using assms by (simp add: expiry_inv_tick)
next
  case (fire_window i t)
  then show ?thesis using assms by (simp add: expiry_inv_fire)
next
  case (fire_presence h t)
  then show ?thesis by (intro expiry_inv_fired [OF assms(2)]) auto
next
  case (callback cb)
  show ?thesis
  proof (cases cb)
    case (PresenceDeadline h)
    with callback show ?thesis
      by (intro expiry_inv_fired [OF assms(2)]) (auto simp: in_set_remove1 presenceDeadline_windows)
  next
    case (ExpireWindow i)
    with callback assms show ?thesis by (simp add: expiry_inv_expire)
  qed
next
  case shut
  then show ?thesis using assms(2) by (auto simp: expiry_inv_def)
qed (use assms(2) in \<open>auto simp: DeletePairing_windows touchHost_store intro: expiry_inv_frame [OF assms(2)]\<close>)

section \<open>The relay invariant\<close>

lemma prim_inv:
  assumes "prim r r'" "relay_inv r" shows "relay_inv r'"
proof -
  note I = relay_invD [OF assms(2)] and se = prim_store_effect [OF assms(1)]
  show ?thesis
    unfolding relay_inv_def prim_cfg [OF assms(1)]
    using I se assms(1) store_effect_inv store_effect_accounts store_effect_mailboxes store_effect_tokens prim_tables
      prim_presence prim_expiry prim_pushes by blast
qed

lemma dev_prim_inv:
  assumes "dev_prim r r'" "relay_inv r" shows "relay_inv r'"
proof -
  note I = relay_invD [OF assms(2)] and se = dev_prim_store_effect [OF assms(1)]
  have "presence_inv r'" using assms(1) by cases (auto simp: setDeviceAttached_store intro: presence_inv_frame [OF I(7)])
  moreover have "expiry_inv r'" using assms(1) by cases (auto simp: setDeviceAttached_store intro: expiry_inv_frame [OF I(8)])
  moreover have "rl_pushes r' = rl_pushes r" using assms(1) by cases simp_all
  ultimately show ?thesis
    unfolding relay_inv_def dev_prim_cfg [OF assms(1)]
    using I se store_effect_inv store_effect_accounts store_effect_mailboxes store_effect_tokens dev_prim_tables [OF assms(1)] by simp
qed

text \<open>Sequences of effects.\<close>

definition effects :: "Relay \<Rightarrow> Relay \<Rightarrow> bool" where
  "effects = prim\<^sup>*\<^sup>*"

lemma effects_refl [simp]: "effects r r"
  by (simp add: effects_def)

lemma effects_prim: "prim r r' \<Longrightarrow> effects r r'"
  by (simp add: effects_def)

lemma effects_trans: "effects a b \<Longrightarrow> effects b c \<Longrightarrow> effects a c"
  unfolding effects_def by (rule rtranclp_trans)

text \<open>Sequences that may also hold effects of devices.\<close>

definition changes :: "Relay \<Rightarrow> Relay \<Rightarrow> bool" where
  "changes = (\<lambda>r r'. prim r r' \<or> dev_prim r r')\<^sup>*\<^sup>*"

lemma effects_changes: "effects r r' \<Longrightarrow> changes r r'"
  unfolding effects_def changes_def by (rule rtranclp_mono [THEN predicate2D]) auto

lemma changes_dev: "changes a b \<Longrightarrow> dev_prim b c \<Longrightarrow> changes a c"
  unfolding changes_def by (rule rtranclp.rtrancl_into_rtrancl) auto

lemma changes_effects: "changes a b \<Longrightarrow> effects b c \<Longrightarrow> changes a c"
  using effects_changes [of b c] unfolding changes_def by (meson rtranclp_trans)

lemma changes_inv: "changes r r' \<Longrightarrow> relay_inv r \<Longrightarrow> relay_inv r'"
  unfolding changes_def by (induction rule: rtranclp_induct) (auto intro: prim_inv dev_prim_inv)

lemma effects_inv: "effects r r' \<Longrightarrow> relay_inv r \<Longrightarrow> relay_inv r'"
  unfolding effects_def by (induction rule: rtranclp_induct) (auto intro: prim_inv)

end
