(* ===== verification/System.thy ===== *)
theory System
  imports Preserve
begin

text \<open>
  The relay as a state machine: every handler, WebSocket stage, timer and clock tick as a step, in any
  order. Between two stages of one WebSocket handler (admission, join, each message, clean-up) any
  other step may happen; what a handler holds across that gap (its ticket, its connection, the
  channel its frames must name) is part of the state. The publication of an attachment transition is
  a step of its own, since the code makes it after releasing the lock of the tables. Otherwise one stage is
  one step: the code takes its locks several times within a stage, and interleavings at that finer grain are
  not modelled.
\<close>

section \<open>The mux\<close>

datatype rest_call = CallOpenWindow string string | CallCloseWindow | CallCreatePairing string
  | CallPatchPairing | CallDeletePairing | CallMailboxGet | CallAPNSRegister

fun serve :: "validator \<Rightarrow> Request \<Rightarrow> rest_call \<Rightarrow> Relay \<Rightarrow> Response \<times> Relay" where
  "serve va req (CallOpenWindow id1 id2) r = handleOpenWindow va req id1 id2 r"
| "serve va req CallCloseWindow r = handleCloseWindow va req r"
| "serve va req (CallCreatePairing id1) r = handleCreatePairing va req id1 r"
| "serve va req CallPatchPairing r = handlePatchPairing va req r"
| "serve va req CallDeletePairing r = handleDeletePairing va req r"
| "serve va req CallMailboxGet r = handleMailboxGet va req r"
| "serve va req CallAPNSRegister r = handleAPNSRegister va req r"

datatype route = RouteHealthz | RouteReadyz | RouteHostWS | RouteDeviceWS | RouteRest "string \<Rightarrow> string \<Rightarrow> rest_call"

text \<open>The route of a method and the segments of a clean path, with the value of the \<open>{id}\<close> wildcard.\<close>

definition Handler :: "string \<Rightarrow> string list \<Rightarrow> (route \<times> string) option" where
  "Handler meth path =
     (if meth = ''GET'' \<and> path = [''healthz''] then Some (RouteHealthz, [])
      else if meth = ''GET'' \<and> path = [''readyz''] then Some (RouteReadyz, [])
      else if meth = ''GET'' \<and> path = [''v1'', ''host''] then Some (RouteHostWS, [])
      else if meth = ''GET'' \<and> path = [''v1'', ''device''] then Some (RouteDeviceWS, [])
      else if meth = ''POST'' \<and> path = [''v1'', ''pairing-windows''] then Some (RouteRest CallOpenWindow, [])
      else if meth = ''POST'' \<and> path = [''v1'', ''pairings''] then Some (RouteRest (\<lambda>id1 _. CallCreatePairing id1), [])
      else case path of
        [v, coll, i] \<Rightarrow>
          if v \<noteq> ''v1'' then None
          else if meth = ''DELETE'' \<and> coll = ''pairing-windows'' then Some (RouteRest (\<lambda>_ _. CallCloseWindow), i)
          else if meth = ''PATCH'' \<and> coll = ''pairings'' then Some (RouteRest (\<lambda>_ _. CallPatchPairing), i)
          else if meth = ''DELETE'' \<and> coll = ''pairings'' then Some (RouteRest (\<lambda>_ _. CallDeletePairing), i)
          else None
      | [v, coll, i, leaf] \<Rightarrow>
          if v \<noteq> ''v1'' then None
          else if meth = ''GET'' \<and> coll = ''channels'' \<and> leaf = ''frames'' then Some (RouteRest (\<lambda>_ _. CallMailboxGet), i)
          else if meth = ''PUT'' \<and> coll = ''devices'' \<and> leaf = ''apns'' then Some (RouteRest (\<lambda>_ _. CallAPNSRegister), i)
          else None
      | _ \<Rightarrow> None)"

text \<open>What a WebSocket handler admits goes on to the upgrade; every other answer is a response. The two
  health probes read no token.\<close>

datatype pending = HostTicket string string | DeviceTicket ticket

fun respond :: "validator \<Rightarrow> bool option \<Rightarrow> Request \<Rightarrow> string \<Rightarrow> string \<Rightarrow> route \<Rightarrow> Relay \<Rightarrow> (Response + pending) \<times> Relay" where
  "respond va ready req id1 id2 RouteHealthz r = (Inl (text_response 200 ''ok''), r)"
| "respond va ready req id1 id2 RouteReadyz r = (Inl (handleReadyz ready), r)"
| "respond va ready req id1 id2 RouteHostWS r = (case handleHostWS_admit va req r of
     (Inl resp, r) \<Rightarrow> (Inl resp, r) | (Inr (sub, h), r) \<Rightarrow> (Inr (HostTicket sub h), r))"
| "respond va ready req id1 id2 RouteDeviceWS r = (case handleDeviceWS_admit va req r of
     (Inl resp, r) \<Rightarrow> (Inl resp, r) | (Inr t, r) \<Rightarrow> (Inr (DeviceTicket t), r))"
| "respond va ready req id1 id2 (RouteRest mk) r = (case serve va req (mk id1 id2) r of (resp, r) \<Rightarrow> (Inl resp, r))"

section \<open>Steps\<close>

text \<open>Identifiers are drawn at random from 16 bytes; a step excludes one that is in use.\<close>

fun fresh_ids :: "rest_call \<Rightarrow> Relay \<Rightarrow> bool" where
  "fresh_ids (CallOpenWindow id1 id2) r \<longleftrightarrow> mget (ms_windows (rl_store r)) id1 = None"
| "fresh_ids (CallCreatePairing id1) r \<longleftrightarrow> mget (ms_pairings (rl_store r)) id1 = None"
| "fresh_ids _ r \<longleftrightarrow> True"

record System =
  sy_relay :: Relay
  sy_tickets :: "pending list"
  sy_running :: "(nat \<times> string) list"
  sy_leaving :: "(nat \<times> string) list"
  sy_publishing :: "(nat \<times> string \<times> bool) list"

definition is_role :: "string \<Rightarrow> nat \<Rightarrow> Relay \<Rightarrow> bool" where
  "is_role role i r \<longleftrightarrow> (\<exists>w. mget (rl_conns r) i = Some w \<and> wc_role w = role)"

text \<open>A durable attach: it enters or leaves the table; if it is the first or the last of its channel, the
  transition is published later, by the same handler, which then reads on or closes.\<close>

inductive attach_step :: "System \<Rightarrow> System \<Rightarrow> bool" where
  channel_join: "DeviceTicket (ChannelTicket sub ch pr) \<in> set (sy_tickets S) \<Longrightarrow>
    deviceChannelAttach_join sub ch pr (sy_relay S) = (i, first, r') \<Longrightarrow>
    attach_step S (S\<lparr>sy_relay := r', sy_tickets := remove1 (DeviceTicket (ChannelTicket sub ch pr)) (sy_tickets S),
                  sy_running := (if first then sy_running S else (i, ch) # sy_running S),
                  sy_publishing := (if first then (i, ch, True) # sy_publishing S else sy_publishing S)\<rparr>)"
| channel_cleanup: "(i, ch) \<in> set (sy_leaving S) \<Longrightarrow> is_role ''device'' i (sy_relay S) \<Longrightarrow>
    deviceChannelAttach_cleanup i ch (sy_relay S) = (emptied, r') \<Longrightarrow>
    attach_step S (S\<lparr>sy_relay := (if emptied then r' else upd_conn (conn_close 1000 []) i r'),
                  sy_leaving := remove1 (i, ch) (sy_leaving S),
                  sy_publishing := (if emptied then (i, ch, False) # sy_publishing S else sy_publishing S)\<rparr>)"
| publish: "(i, ch, attached) \<in> set (sy_publishing S) \<Longrightarrow>
    attach_step S (S\<lparr>sy_relay := deviceChannelAttach_publish i ch attached (sy_relay S),
                  sy_running := (if attached then (i, ch) # sy_running S else sy_running S),
                  sy_publishing := remove1 (i, ch, attached) (sy_publishing S)\<rparr>)"

inductive sys_step :: "System \<Rightarrow> System \<Rightarrow> bool" where
  rest: "fresh_ids call (sy_relay S) \<Longrightarrow> serve va req call (sy_relay S) = (resp, r') \<Longrightarrow>
    sys_step S (S\<lparr>sy_relay := r'\<rparr>)"
| host_admit: "handleHostWS_admit va req (sy_relay S) = (Inr (sub, h), r') \<Longrightarrow>
    sys_step S (S\<lparr>sy_relay := r', sy_tickets := HostTicket sub h # sy_tickets S\<rparr>)"
| host_refuse: "handleHostWS_admit va req (sy_relay S) = (Inl resp, r') \<Longrightarrow> sys_step S (S\<lparr>sy_relay := r'\<rparr>)"
| device_admit: "handleDeviceWS_admit va req (sy_relay S) = (Inr t, r') \<Longrightarrow>
    sys_step S (S\<lparr>sy_relay := r', sy_tickets := DeviceTicket t # sy_tickets S\<rparr>)"
| device_refuse: "handleDeviceWS_admit va req (sy_relay S) = (Inl resp, r') \<Longrightarrow> sys_step S (S\<lparr>sy_relay := r'\<rparr>)"
| upgrade_fails: "t \<in> set (sy_tickets S) \<Longrightarrow> sys_step S (S\<lparr>sy_tickets := remove1 t (sy_tickets S)\<rparr>)"
| host_join: "HostTicket sub h \<in> set (sy_tickets S) \<Longrightarrow> handleHostWS_join sub h (sy_relay S) = (i, r') \<Longrightarrow>
    sys_step S (S\<lparr>sy_relay := r', sy_tickets := remove1 (HostTicket sub h) (sy_tickets S),
                  sy_running := (i, []) # sy_running S\<rparr>)"
| pairing_join: "DeviceTicket (PairingTicket sub win) \<in> set (sy_tickets S) \<Longrightarrow>
    devicePairingAttach_join sub win (sy_relay S) = (i, r') \<Longrightarrow>
    sys_step S (S\<lparr>sy_relay := r', sy_tickets := remove1 (DeviceTicket (PairingTicket sub win)) (sy_tickets S),
                  sy_running := (i, wd_ProvisionalChannel win) # sy_running S\<rparr>)"
| host_message: "(i, ch) \<in> set (sy_running S) \<Longrightarrow> is_role ''host'' i (sy_relay S) \<Longrightarrow>
    handleHostWS_message i (conn_hostID i (sy_relay S)) typ data (sy_relay S) = (goes_on, r') \<Longrightarrow>
    sys_step S (S\<lparr>sy_relay := r', sy_running := (if goes_on then sy_running S else remove1 (i, ch) (sy_running S)),
                  sy_leaving := (if goes_on then sy_leaving S else (i, ch) # sy_leaving S)\<rparr>)"
| device_message: "(i, ch) \<in> set (sy_running S) \<Longrightarrow> \<not> is_role ''host'' i (sy_relay S) \<Longrightarrow>
    deviceReadLoop_message i ch typ data (sy_relay S) = (goes_on, r') \<Longrightarrow>
    sys_step S (S\<lparr>sy_relay := r', sy_running := (if goes_on then sy_running S else remove1 (i, ch) (sy_running S)),
                  sy_leaving := (if goes_on then sy_leaving S else (i, ch) # sy_leaving S)\<rparr>)"
| read_fails: "(i, ch) \<in> set (sy_running S) \<Longrightarrow>
    sys_step S (S\<lparr>sy_running := remove1 (i, ch) (sy_running S), sy_leaving := (i, ch) # sy_leaving S\<rparr>)"
| host_cleanup: "(i, ch) \<in> set (sy_leaving S) \<Longrightarrow> is_role ''host'' i (sy_relay S) \<Longrightarrow>
    sys_step S (S\<lparr>sy_relay := handleHostWS_cleanup i (conn_hostID i (sy_relay S)) (sy_relay S),
                  sy_leaving := remove1 (i, ch) (sy_leaving S)\<rparr>)"
| pairing_cleanup: "(i, ch) \<in> set (sy_leaving S) \<Longrightarrow> is_role ''pairing-device'' i (sy_relay S) \<Longrightarrow>
    sys_step S (S\<lparr>sy_relay := devicePairingAttach_cleanup i (wc_winID (conn_at i (sy_relay S))) (sy_relay S),
                  sy_leaving := remove1 (i, ch) (sy_leaving S)\<rparr>)"
| attach: "attach_step S S' \<Longrightarrow> sys_step S S'"
| writer: "sys_step S (S\<lparr>sy_relay := upd_conn writer_step i (sy_relay S)\<rparr>)"
| time: "0 \<le> d \<Longrightarrow> sys_step S (S\<lparr>sy_relay := (sy_relay S)\<lparr>rl_now := rl_now (sy_relay S) + d\<rparr>\<rparr>)"
| presence_fires: "mget (rl_presTimer (sy_relay S)) h = Some t \<Longrightarrow> tm_active t \<Longrightarrow>
    tm_deadline t \<le> rl_now (sy_relay S) \<Longrightarrow>
    sys_step S (S\<lparr>sy_relay := (sy_relay S)\<lparr>rl_presTimer := mput h (timer_Stop t) (rl_presTimer (sy_relay S)),
      rl_fired := rl_fired (sy_relay S) @ [PresenceDeadline h]\<rparr>\<rparr>)"
| window_fires: "mget (rl_winTimer (sy_relay S)) i = Some t \<Longrightarrow> tm_active t \<Longrightarrow>
    tm_deadline t \<le> rl_now (sy_relay S) \<Longrightarrow>
    sys_step S (S\<lparr>sy_relay := (sy_relay S)\<lparr>rl_winTimer := mput i (timer_Stop t) (rl_winTimer (sy_relay S)),
      rl_fired := rl_fired (sy_relay S) @ [ExpireWindow i]\<rparr>\<rparr>)"
| callback_runs: "cb \<in> set (rl_fired (sy_relay S)) \<Longrightarrow>
    sys_step S (S\<lparr>sy_relay := run_callback cb ((sy_relay S)\<lparr>rl_fired := remove1 cb (rl_fired (sy_relay S))\<rparr>)\<rparr>)"
| close_relay: "sys_step S (S\<lparr>sy_relay := Close (sy_relay S)\<rparr>)"

text \<open>A relay starts as \<open>relayd\<close> starts it: \<open>New\<close> on an empty store.\<close>

definition sys_init :: "System \<Rightarrow> bool" where
  "sys_init S \<longleftrightarrow> (\<exists>cfg d now. New cfg (NewMemStore d) now = Inr (sy_relay S))
     \<and> sy_tickets S = [] \<and> sy_running S = [] \<and> sy_leaving S = [] \<and> sy_publishing S = []"

definition reachable :: "System \<Rightarrow> bool" where
  "reachable S \<longleftrightarrow> (\<exists>S0. sys_init S0 \<and> sys_step\<^sup>*\<^sup>* S0 S)"

section \<open>Handlers as sequences of effects\<close>

lemma effects_step: "effects a b \<Longrightarrow> prim b c \<Longrightarrow> effects a c"
  using effects_trans effects_prim by blast

lemma effects_allow: "rl_allow k ra b r = (ok, r1) \<Longrightarrow> effects r r1"
  by (auto simp: rl_allow_def split: prod.splits intro!: effects_prim prim.limiter)

lemma authorizeHostID_eq: "snd (authorizeHostID h sub r) = r\<lparr>rl_store := snd (LookupBinding h (rl_now r) (rl_store r))\<rparr>"
  by (simp add: authorizeHostID_def Let_def split: prod.split option.split)

lemma effects_authorize: "authorizeHostID h sub r = (e, r1) \<Longrightarrow> effects r r1"
  using authorizeHostID_eq [of h sub r] by (auto intro!: effects_prim prim.lookup)

lemma effects_conn: "conn_effect f \<Longrightarrow> effects r (upd_conn f i r)"
  by (intro effects_prim prim.conn)

lemma effects_conns: "conn_effect f \<Longrightarrow> effects r (upd_conns f is r)"
proof (induction "is" arbitrary: r)
  case (Cons i "is")
  then show ?case using effects_trans [OF effects_conn [OF Cons.prems, of r i]] by (simp add: upd_conns_def)
qed (simp add: upd_conns_def)

lemma effects_close_with: "effects r (snd (close_with c m i r))"
  by (simp add: close_with_def effects_conn)

lemma closed_pushI: "pu_Payload p = wakePayload ch q \<Longrightarrow> closed_push p"
  "pu_Payload p = attentionPayload label ch q \<Longrightarrow> closed_push p"
  unfolding closed_push_def by blast+

lemma effects_maybePush: "effects r (maybePush pr h r)"
proof -
  have "effects r (r\<lparr>rl_pushes := rl_pushes r @ [p]\<rparr>)"
    if "pu_Payload p = wakePayload (hd_Channel h) (hd_Seq h) \<or> pu_Payload p = attentionPayload (pr_HostLabel pr) (hd_Channel h) (hd_Seq h)" for p
    using that closed_pushI [of p] by (intro effects_prim prim.push) blast
  then show ?thesis by (simp add: maybePush_def Let_def split: option.split)
qed

lemma handleOpenWindow_effects:
  assumes "mget (ms_windows (rl_store r)) id1 = None"
  shows "effects r (snd (handleOpenWindow va req id1 id2 r))"
proof (cases "\<exists>sub h. bearerSub va req = Inr sub \<and> decodeJSON req window_body = Some h \<and> validID h")
  case False
  then have "\<exists>c m. handleOpenWindow va req id1 id2 r = (writeError c m, r)"
    by (auto simp: handleOpenWindow_def split: sum.splits option.splits)
  then show ?thesis by auto
next
  case True
  then obtain sub h where sub: "bearerSub va req = Inr sub" and h: "decodeJSON req window_body = Some h"
    and v: "(\<not> validID h) = False" by blast
  obtain rate burst where ph: "perHour (lt_PairingWindowsPerHour (cf_Limits (rl_cfg r))) = (rate, burst)" by fastforce
  obtain ok r1 where l: "rl_allow (''windows:'' @ h) rate burst r = (ok, r1)" by fastforce
  obtain e r2 where a: "authorizeHostID h sub r1 = (e, r2)" by fastforce
  have H: "snd (handleOpenWindow va req id1 id2 r) =
    (if \<not> ok then r1 else case e of Some ec \<Rightarrow> r2 | None \<Rightarrow> install_window h id1 id2 r2)"
    unfolding handleOpenWindow_def sub h sum.case option.case v if_False ph prod.case l Let_def a
    by (simp add: install_window_def new_window_def Let_def split_beta split: option.split)
  have e1: "effects r r1" using l by (rule effects_allow)
  have e2: "effects r r2" using effects_trans [OF e1 effects_authorize [OF a]] .
  have "mget (ms_windows (rl_store r2)) id1 = None"
    using assms rl_allow_result [OF l] authorizeHostID_eq [of h sub r1] a by simp
  then have "effects r (install_window h id1 id2 r2)" by (intro effects_step [OF e2] prim.install)
  with e1 e2 show ?thesis by (simp add: H split: option.split)
qed

lemma handleCloseWindow_effects: "effects r (snd (handleCloseWindow va req r))"
proof -
  have "effects r (expireWindow i r1)" if "authorizeHostID h sub r = (e, r1)" for h sub e r1 i
    by (intro effects_step [OF effects_authorize [OF that]] prim.expire)
  then show ?thesis
    by (auto simp: handleCloseWindow_def split: sum.split option.split prod.split intro: effects_authorize)
qed

lemma handleCreatePairing_effects:
  assumes "mget (ms_pairings (rl_store r)) id1 = None"
  shows "effects r (snd (handleCreatePairing va req id1 r))"
proof (cases "bearerSub va req")
  case (Inr sub)
  obtain rate burst where ph: "perHour (lt_PairingsPerHour (cf_Limits (rl_cfg r))) = (rate, burst)" by fastforce
  obtain ok r1 where l: "rl_allow (''pairings:'' @ sub) rate burst r = (ok, r1)" by fastforce
  have e1: "effects r r1" using l by (rule effects_allow)
  show ?thesis
  proof (cases "decodeJSON req pairing_body")
    case None
    then have "snd (handleCreatePairing va req id1 r) = r1"
      unfolding handleCreatePairing_def Inr sum.case ph prod.case l Let_def by simp
    with e1 show ?thesis by simp
  next
    case (Some b)
    obtain e r2 where a: "authorizeHostID (pq_HostID b) sub r1 = (e, r2)" by fastforce
    let ?pr = "\<lparr>pr_PairingID = id1, pr_ChannelID = pq_ChannelID b, pr_HostID = pq_HostID b,
                pr_DeviceID = pq_DeviceID b, pr_AccountSub = sub, pr_HostLabel = pq_HostLabel b, pr_CreatedAt = rl_now r2\<rparr>"
    have H: "snd (handleCreatePairing va req id1 r) \<in> {r1, r2} \<or>
        e = None \<and> snd (handleCreatePairing va req id1 r) = r2\<lparr>rl_store := snd (CreatePairing ?pr (rl_store r2))\<rparr>"
      unfolding handleCreatePairing_def Inr Some sum.case option.case ph prod.case l Let_def a
      by (auto split: option.split prod.split)
    have e2: "effects r r2" using effects_trans [OF e1 effects_authorize [OF a]] .
    have r2: "r2 = r1\<lparr>rl_store := snd (LookupBinding (pq_HostID b) (rl_now r1) (rl_store r1))\<rparr>"
      using authorizeHostID_eq [of "pq_HostID b" sub r1] a by simp
    have "effects r (r2\<lparr>rl_store := snd (CreatePairing ?pr (rl_store r2))\<rparr>)" if "e = None"
    proof (rule effects_step [OF e2], rule prim.create)
      show "fresh_pairing ?pr (rl_store r2)"
        using assms rl_allow_result [OF l] by (simp add: fresh_pairing_def r2)
      have "live_account (pq_HostID b) (rl_now r1) (rl_store r1) = Some sub"
        using authorizeHostID_iff [of "pq_HostID b" sub r1] that a by simp
      then show "live_account (pr_HostID ?pr) (rl_now r2) (rl_store r2) = Some (pr_AccountSub ?pr)"
        by (auto simp: r2 live_account_def LookupBinding_def bindingLocked_def split: option.splits if_splits)
    qed
    with H e1 e2 show ?thesis by auto
  qed
qed (simp add: handleCreatePairing_def)

lemma handlePatchPairing_effects: "effects r (snd (handlePatchPairing va req r))"
  by (auto simp: handlePatchPairing_def split: sum.split option.split label_req.split intro!: effects_prim prim.label)

lemma handleDeletePairing_effects:
  assumes "store_inv (rl_store r)" shows "effects r (snd (handleDeletePairing va req r))"
proof (cases "\<exists>pr. owns_pairing va req r pr")
  case False
  then show ?thesis using handleDeletePairing_refused(1) by simp
next
  case True
  then obtain pr where pr: "owns_pairing va req r pr" by blast
  then have "mget (ms_pairings (rl_store r)) (rq_pathID req) = Some pr" by (auto simp: owns_pairing_def LookupPairing_def)
  then show ?thesis unfolding handleDeletePairing_ok [OF pr assms] snd_conv by (intro effects_prim prim.delete)
qed

lemma handleMailboxGet_effects: "effects r (snd (handleMailboxGet va req r))"
proof (cases "\<exists>sub pr. bearerSub va req = Inr sub \<and> authorizeChannel (rq_pathID req) sub r = Inr pr")
  case False
  then have "snd (handleMailboxGet va req r) = r" by (auto simp: handleMailboxGet_def split: sum.splits)
  then show ?thesis by simp
next
  case True
  then obtain sub pr where sub: "bearerSub va req = Inr sub" and pr: "authorizeChannel (rq_pathID req) sub r = Inr pr"
    by blast
  obtain rate burst where pm: "perMinute (lt_MailboxGetPerMin (cf_Limits (rl_cfg r))) = (rate, burst)" by fastforce
  obtain ok r1 where l: "rl_allow (''mbxget:'' @ pr_DeviceID pr) rate burst r = (ok, r1)" by fastforce
  have e1: "effects r r1" using l by (rule effects_allow)
  let ?after = "if q_Get req ''after'' = [] then Some 0 else ParseUint (q_Get req ''after'')"
  let ?limit = "if q_Get req ''limit'' = [] then Some 64 else case ParseInt (q_Get req ''limit'') of
      None \<Rightarrow> None | Some v \<Rightarrow> if v < 1 then None else Some (min v 256)"
  have fetch: "effects r (r1\<lparr>rl_store := snd (FetchMailbox ch a n (rl_now r1) ttl (rl_store r1))\<rparr>)" for ch a n ttl
    by (intro effects_step [OF e1] prim.fetch)
  show ?thesis
    unfolding handleMailboxGet_def sub pr sum.case pm prod.case l Let_def
    using e1 fetch by (cases ok; cases ?after; cases ?limit; simp only: split_def option.case if_True if_False
        snd_conv not_True_eq_False not_False_eq_True)
qed

lemma handleAPNSRegister_effects: "effects r (snd (handleAPNSRegister va req r))"
proof (cases "bearerSub va req")
  case (Inr sub)
  obtain rate burst where ph: "perHour (lt_APNSRegsPerHour (cf_Limits (rl_cfg r))) = (rate, burst)" by fastforce
  obtain ok r1 where l: "rl_allow (''apns:'' @ rq_pathID req) rate burst r = (ok, r1)" by fastforce
  have e1: "effects r r1" using l by (rule effects_allow)
  have tok: "effects r (upd_store (PutAPNSToken \<lparr>at_DeviceID = rq_pathID req, at_Token = t, at_Env = e\<rparr>) r1)"
    if "PairingsForDevice (rq_pathID req) (rl_store r1) \<noteq> []" for t e
    using that by (intro effects_step [OF e1] prim.token) simp
  show ?thesis
    unfolding handleAPNSRegister_def Inr sum.case ph prod.case l Let_def
    using e1 tok by (auto split: option.split)
qed (simp add: handleAPNSRegister_def)

lemma serve_effects:
  assumes "fresh_ids call r" "store_inv (rl_store r)" shows "effects r (snd (serve va req call r))"
  using assms by (cases call) (simp_all add: handleOpenWindow_effects handleCloseWindow_effects
      handleCreatePairing_effects handlePatchPairing_effects handleDeletePairing_effects handleMailboxGet_effects
      handleAPNSRegister_effects)

lemma handleHostWS_admit_effects: "effects r (snd (handleHostWS_admit va req r))"
proof (cases "\<exists>sub. bearerSub va req = Inr sub \<and> \<not> q_Has req ''channel'' \<and> validID (q_Get req ''host_id'')")
  case False
  then have "snd (handleHostWS_admit va req r) = r" by (auto simp: handleHostWS_admit_def split: sum.splits)
  then show ?thesis by simp
next
  case True
  then obtain sub where "bearerSub va req = Inr sub" "\<not> q_Has req ''channel''" "validID (q_Get req ''host_id'')" by blast
  then have "snd (handleHostWS_admit va req r)
      = r\<lparr>rl_store := snd (BindHost (q_Get req ''host_id'') sub (rl_now r) (rl_store r))\<rparr>"
    by (simp add: handleHostWS_admit_def split: prod.split sum.split)
  then show ?thesis by (simp add: effects_prim prim.bind)
qed

lemma devicePairingAttach_effects: "effects r (snd (devicePairingAttach_admit sub h r))"
proof -
  define r1 where "r1 = r\<lparr>rl_store := snd (LookupBinding h (rl_now r) (rl_store r))\<rparr>"
  define r2 where "r2 = r1\<lparr>rl_store := snd (WindowForHost h (rl_now r1) (rl_store r1))\<rparr>"
  have e1: "effects r r1" unfolding r1_def by (intro effects_prim prim.lookup)
  have e2: "effects r r2" unfolding r2_def by (intro effects_step [OF e1] prim.reap)
  have e3: "effects r (r2\<lparr>rl_store := snd (CountWindowAttach i cap (rl_store r2))\<rparr>)" for i cap
    by (intro effects_step [OF e2] prim.count)
  have "snd (devicePairingAttach_admit sub h r) \<in> {r, r1, r2}
      \<or> (\<exists>i cap. snd (devicePairingAttach_admit sub h r) = r2\<lparr>rl_store := snd (CountWindowAttach i cap (rl_store r2))\<rparr>)"
    unfolding devicePairingAttach_eq Let_def r1_def r2_def by (simp split: option.split) blast
  with e1 e2 e3 show ?thesis by auto
qed

lemma handleDeviceWS_admit_effects: "effects r (snd (handleDeviceWS_admit va req r))"
proof -
  have "snd (deviceChannelAttach_admit req sub r) = r" for sub
    by (auto simp: deviceChannelAttach_admit_def Let_def split: sum.split)
  then show ?thesis using devicePairingAttach_effects by (auto simp: handleDeviceWS_admit_def split: sum.split)
qed

lemma effects_sends:
  assumes "effects r r'"
  shows "effects r (fold (\<lambda>x r. upd_conn (sendText (g x r)) i r) xs r')"
  using assms
proof (induction xs arbitrary: r')
  case (Cons x xs)
  have "effects r (upd_conn (sendText (g x r')) i r')" using Cons.prems by (intro effects_step [OF _ prim.conn]) simp_all
  with Cons.IH show ?case by simp
qed simp

lemma handleHostWS_join_effects: "effects r (snd (handleHostWS_join sub h r))"
proof -
  have "effects r (touchHost h (enter_host sub h r))"
    using effects_prim [OF prim.host_in [of r sub h]] prim.touch [of "enter_host sub h r" h] by (rule effects_step)
  from effects_sends [OF this] show ?thesis
    by (simp add: handleHostWS_join_def add_conn_def enter_host_def host_conn_def Let_def)
qed

lemma effects_close:
  assumes "effects r r'" shows "effects r (snd (close_with c m i r'))"
  using effects_trans [OF assms effects_close_with] .

lemma effects_upd:
  assumes "effects r r'" "conn_effect f" shows "effects r (upd_conn f i r')" "effects r (upd_conns f is r')"
  using effects_trans [OF assms(1) effects_conn [OF assms(2)]] effects_trans [OF assms(1) effects_conns [OF assms(2)]]
  by simp_all

lemma routeHostFrame_effects: "effects r (snd (routeHostFrame i raw r))"
proof (cases "DecodeFrame raw (cf_MaxHeaderLen (rl_cfg r))")
  case (Inl e)
  then show ?thesis
    unfolding routeHostFrame_def Let_def by (cases "cf_MaxFrameSize (rl_cfg r) < int (length raw)") (simp_all add: effects_close_with)
next
  case (Inr hb)
  then obtain h body where dec: "DecodeFrame raw (cf_MaxHeaderLen (rl_cfg r)) = Inr (h, body)" by (cases hb) auto
  have e1: "effects r (snd (host_limited i r))"
    unfolding host_limited_def by (intro effects_allow) (rule surjective_pairing)
  show ?thesis
  proof (cases "host_frame_ok i raw r h body")
    case False
    from routeHostFrame_not_ok [OF dec this] show ?thesis using effects_close_with effects_close [OF e1] by simp
  next
    case True
    have "prim (snd (host_limited i r)) (guarded i r)"
      using prim.reap [of "snd (host_limited i r)" "conn_hostID i r"] by (simp add: guarded_def reaped_store_def)
    then have e2: "effects r (guarded i r)" by (rule effects_step [OF e1])
    have e3: "effects r (maybePush pr h (upd_store (AppendMailbox (hd_Channel h) it (mailboxPolicy (rl_cfg r))) (guarded i r)))"
      if "PairingByChannel (hd_Channel h) (rl_store r) \<noteq> None" "validPushClass (mi_PushClass it)" for pr it
      using that prim.append [of "hd_Channel h" "guarded i r" it]
      by (intro effects_trans [OF effects_step [OF e2] effects_maybePush]) simp
    have "validPushClass (hd_PushClass h)" using dec unfolding DecodeFrame_iff by blast
    then show ?thesis
      unfolding routeHostFrame_ok [OF True] using effects_upd [OF e2] e3
      by (cases "PairingByChannel (hd_Channel h) (rl_store r)") simp_all
  qed
qed

lemma routeDeviceFrame_effects: "effects r (snd (routeDeviceFrame i ch raw r))"
proof -
  have e1: "effects r (snd (dev_limited i ch r))" unfolding dev_limited_def by (intro effects_allow) (rule surjective_pairing)
  show ?thesis
    unfolding routeDeviceFrame_eq Let_def
    using effects_close [OF effects_refl] effects_close [OF e1] effects_upd [OF e1]
    by (auto split: sum.split)
qed

lemma message_effects:
  "effects r (snd (handleHostWS_message i h typ data r))" "effects r (snd (deviceReadLoop_message i ch typ data r))"
proof -
  have "effects r (touchHost h r)" by (intro effects_prim prim.touch)
  then show "effects r (snd (handleHostWS_message i h typ data r))"
    using effects_trans [OF _ routeHostFrame_effects] by (simp add: handleHostWS_message_def Let_def)
  show "effects r (snd (deviceReadLoop_message i ch typ data r))"
    by (simp add: deviceReadLoop_message_def routeDeviceFrame_effects)
qed

lemma cleanup_effects:
  "effects r (handleHostWS_cleanup i h r)" "effects r (devicePairingAttach_cleanup i wid r)"
proof -
  have e1: "effects r (r\<lparr>rl_hostConns := conns_del h i (rl_hostConns r)\<rparr>)" by (intro effects_prim prim.host_out)
  have "effects r (upd_store (TouchBinding h (rl_now r)) (r\<lparr>rl_hostConns := conns_del h i (rl_hostConns r)\<rparr>))"
    using prim.touch_binding [of "r\<lparr>rl_hostConns := conns_del h i (rl_hostConns r)\<rparr>" h] by (intro effects_step [OF e1]) simp
  then show "effects r (handleHostWS_cleanup i h r)"
    by (simp add: handleHostWS_cleanup_def Let_def effects_upd)
  show "effects r (devicePairingAttach_cleanup i wid r)"
    using effects_prim [OF prim.pair_out [of r wid i]] by (simp add: devicePairingAttach_cleanup_def effects_upd)
qed

text \<open>Every step of the system is a sequence of primitive effects on the relay, with those of devices in
  \<open>attach_step\<close> only.\<close>

lemma attach_step_changes:
  assumes "attach_step S S'" shows "changes (sy_relay S) (sy_relay S')"
  using assms
proof cases
  case (channel_join sub ch pr i first r')
  have "changes (sy_relay S) (enter_dev sub ch (sy_relay S))" using changes_dev [OF effects_changes [OF effects_refl] dev_prim.dev_in] .
  from changes_effects [OF this effects_conn, of "sendText (hostPresenceJSON (host_presence (pr_HostID pr) (sy_relay S)))" "rl_next (sy_relay S)"]
  have "changes (sy_relay S) (snd (snd (deviceChannelAttach_join sub ch pr (sy_relay S))))" by (simp add: dev_in_eq)
  with channel_join show ?thesis by simp
next
  case (channel_cleanup i ch emptied r')
  let ?r = "(sy_relay S)\<lparr>rl_devConns := conns_del ch i (rl_devConns (sy_relay S))\<rparr>"
  have "changes (sy_relay S) ?r" using changes_dev [OF effects_changes [OF effects_refl] dev_prim.dev_out] .
  with changes_effects [OF this effects_conn, of "conn_close 1000 []" i] channel_cleanup(4) show ?thesis
    by (auto simp: channel_cleanup(1) deviceChannelAttach_cleanup_def)
next
  case (publish i ch a)
  have "changes (sy_relay S) (setDeviceAttached ch a (sy_relay S))" using changes_dev [OF effects_changes [OF effects_refl] dev_prim.attached] .
  with changes_effects [OF this effects_conn, of "conn_close 1000 []" i] show ?thesis
    by (cases a) (simp_all add: publish(1) deviceChannelAttach_publish_def Let_def)
qed

lemma sys_step_effects:
  assumes "sys_step S S'" "store_inv (rl_store (sy_relay S))"
  shows "attach_step S S' \<or> effects (sy_relay S) (sy_relay S') \<and> sy_publishing S' = sy_publishing S"
  using assms(1)
proof cases
  case (rest call va req resp r')
  then show ?thesis using serve_effects [OF rest(2) assms(2), of va req] by simp
next
  case (host_admit va req sub h r')
  then show ?thesis using handleHostWS_admit_effects [of "sy_relay S" va req] by simp
next
  case (host_refuse va req resp r')
  then show ?thesis using handleHostWS_admit_effects [of "sy_relay S" va req] by simp
next
  case (device_admit va req t r')
  then show ?thesis using handleDeviceWS_admit_effects [of "sy_relay S" va req] by simp
next
  case (device_refuse va req resp r')
  then show ?thesis using handleDeviceWS_admit_effects [of "sy_relay S" va req] by simp
next
  case (host_join sub h i r')
  then show ?thesis using handleHostWS_join_effects [of "sy_relay S" sub h] by simp
next
  case (pairing_join sub win i r')
  then show ?thesis using effects_prim [OF prim.pair_in [of "sy_relay S" sub win]] by simp
next
  case (host_message i ch ty data goes_on r')
  then show ?thesis using message_effects(1) [of "sy_relay S" i "conn_hostID i (sy_relay S)" ty data] by simp
next
  case (device_message i ch ty data goes_on r')
  then show ?thesis using message_effects(2) [of "sy_relay S" i ch ty data] by simp
qed (auto simp: cleanup_effects intro!: effects_prim prim.conn prim.tick prim.fire_presence prim.fire_window
      prim.callback prim.shut)

lemma sys_step_changes:
  assumes "sys_step S S'" "store_inv (rl_store (sy_relay S))" shows "changes (sy_relay S) (sy_relay S')"
  using sys_step_effects [OF assms] attach_step_changes effects_changes by blast

section \<open>The invariant of every reachable state\<close>

lemma New_inv:
  assumes "New cfg (NewMemStore d) now = Inr r" shows "relay_inv r"
proof -
  let ?c = "Config_applyDefaults cfg"
  have c: "config_ok ?c" and r: "r = \<lparr>rl_cfg = ?c, rl_limiter = newLimiter, rl_store = NewMemStore d, rl_hostConns = [],
          rl_devConns = [], rl_pairConns = [], rl_presTimer = [], rl_winTimer = [], rl_closed = False,
          rl_now = now, rl_conns = [], rl_next = 0, rl_fired = [], rl_pushes = []\<rparr>"
    using assms by (auto simp: New_def Let_def Validate_iff split: option.splits)
  have s: "ms_pairings (NewMemStore d) = []" "ms_mailboxes (NewMemStore d) = []" "ms_apns (NewMemStore d) = []"
    "ms_hostPres (NewMemStore d) = []" "ms_devPres (NewMemStore d) = []" "ms_windows (NewMemStore d) = []"
    by (simp_all add: NewMemStore_def)
  show ?thesis
    using c s by (simp add: r relay_inv_def accounts_inv_def mailboxes_inv_def tokens_inv_def tables_inv_def heap_inv_def
        table_inv_def presence_inv_def expiry_inv_def)
qed

interpretation relay_machine: inductive_invariant sys_init sys_step "\<lambda>S. relay_inv (sy_relay S)"
proof
  show "relay_inv (sy_relay S)" if "sys_init S" for S using that New_inv by (auto simp: sys_init_def)
  show "relay_inv (sy_relay S')" if "relay_inv (sy_relay S)" "sys_step S S'" for S S'
    using changes_inv [OF sys_step_changes [OF that(2)] that(1)] that(1) by (simp add: relay_inv_def)
qed

lemma reachable_inv: "reachable S \<Longrightarrow> relay_inv (sy_relay S)"
  using relay_machine.always by (auto simp: reachable_def)

end
