(* ===== verification/Run.thy ===== *)
theory Run
  imports System
begin

text \<open>
  A run of the relay from its start, on which the theorems about reachable states are applied: a
  host of \<open>alice\<close> attaches, registers a pairing, the device registers a push token, the host opens a
  pairing window, and a frame for the absent device is buffered and pushed.
\<close>

section \<open>States\<close>

definition run0 :: Relay where
  "run0 = \<lparr>rl_cfg = ex_cfg, rl_limiter = newLimiter, rl_store = NewMemStore 0, rl_hostConns = [], rl_devConns = [],
     rl_pairConns = [], rl_presTimer = [], rl_winTimer = [], rl_closed = False, rl_now = 0, rl_conns = [],
     rl_next = 0, rl_fired = [], rl_pushes = []\<rparr>"

definition run1 :: Relay where
  "run1 = run0\<lparr>rl_store := (NewMemStore 0)\<lparr>ms_bindings :=
     [(ex_id 1, \<lparr>bd_HostID = ex_id 1, bd_AccountSub = ''alice'', bd_BoundAt = 0, bd_LastAttachAt = 0\<rparr>)]\<rparr>\<rparr>"

definition run2 :: Relay where
  "run2 = run1\<lparr>rl_conns := [(0, ex_host)], rl_next := 1, rl_hostConns := [(ex_id 1, [0])],
     rl_presTimer := [(ex_id 1, \<lparr>tm_deadline = 30 * second, tm_active = True\<rparr>)],
     rl_store := (rl_store run1)\<lparr>ms_hostPres := [(ex_id 1, \<lparr>hp_HostID = ex_id 1, hp_Online = True, hp_LastSeen = 0\<rparr>)]\<rparr>\<rparr>"

definition run3 :: Relay where
  "run3 = run2\<lparr>rl_store := (rl_store run2)\<lparr>ms_pairings := [(ex_id 10, ex_pairing)], ms_byChannel := [(ex_id 7, ex_id 10)]\<rparr>\<rparr>"

definition run4 :: Relay where
  "run4 = run3\<lparr>rl_store := (rl_store run3)\<lparr>ms_apns :=
     [(ex_id 3, \<lparr>at_DeviceID = ex_id 3, at_Token = ''token'', at_Env = ''sandbox''\<rparr>)]\<rparr>\<rparr>"

definition run5 :: Relay where
  "run5 = run4\<lparr>rl_winTimer := [(ex_id 4, \<lparr>tm_deadline = 5 * minute, tm_active = True\<rparr>)],
     rl_store := (rl_store run4)\<lparr>ms_windows := [(ex_id 4, ex_window\<lparr>wd_Attaches := 0\<rparr>)], ms_winByHost := [(ex_id 1, ex_id 4)]\<rparr>\<rparr>"

definition run6 :: Relay where
  "run6 = run5\<lparr>rl_store := (rl_store run5)\<lparr>ms_mailboxes := [(ex_id 7, \<lparr>mb_items =
       [\<lparr>mi_Seq = 42, mi_PushClass = ''wake'', mi_Body = [1, 2, 3], mi_StoredAt = 0\<rparr>], mb_bytes = 3\<rparr>)]\<rparr>,
     rl_pushes := [\<lparr>pu_DeviceID = ex_id 3, pu_Token = ''token'', pu_Env = ''sandbox'', pu_Payload = wakePayload (ex_id 7) 42\<rparr>]\<rparr>"

lemmas run_defs = run0_def run1_def run2_def run3_def run4_def run5_def run6_def NewMemStore_def

text \<open>The requests.\<close>

definition pairing_json :: json where
  "pairing_json = JObj [(''channel_id'', JStr (ex_id 7)), (''host_id'', JStr (ex_id 1)), (''device_id'', JStr (ex_id 3)),
     (''host_label'', JStr ''studio'')]"

definition apns_json :: json where
  "apns_json = JObj [(''token'', JStr ''token''), (''env'', JStr ''sandbox'')]"

lemma ex_id_json [simp]: "plain (ex_id n)" "length (ex_id n) = 22"
  by (simp_all add: validID_plain validID_length)

lemma pairing_json_decodes: "decodeJSON (ex_req i pairing_json) pairing_body = Some
    \<lparr>pq_ChannelID = ex_id 7, pq_HostID = ex_id 1, pq_DeviceID = ex_id 3, pq_HostLabel = Some ''studio''\<rparr>"
  by (subst ex_req_decodes)
    (simp_all add: pairing_json_def plain_char_def marshal_def maxRequestBody_def quote_plain pairing_body_def
      into_struct_def field_of_exact pairing_field_def into_string_def into_string_ptr_def)

lemma apns_json_decodes: "decodeJSON (ex_req i apns_json) apns_body = Some (''token'', ''sandbox'')"
  by (subst ex_req_decodes)
    (simp_all add: apns_json_def plain_char_def marshal_def maxRequestBody_def quote_plain apns_body_def
      into_struct_def field_of_exact apns_field_def into_string_def)

section \<open>Steps\<close>

lemma run_start: "New ex_config (NewMemStore 0) 0 = Inr run0"
  using Validate_iff [of ex_cfg] ex_config_ok by (simp add: New_def Let_def run0_def flip: ex_cfg_def)

lemma run_admit: "handleHostWS_admit ex_va (ex_req [] JNull) run0 = (Inr (''alice'', ex_id 1), run1)"
proof -
  have q: "\<not> q_Has (ex_req [] JNull) ''channel''" "q_Get (ex_req [] JNull) ''host_id'' = ex_id 1"
    by (simp_all add: ex_req_def q_Has_def q_Get_def)
  then show ?thesis
    by (simp add: handleHostWS_admit_def BindHost_def bindingLocked_def run_defs mput_def Let_def)
qed

lemma run_join: "handleHostWS_join ''alice'' (ex_id 1) run1 = (0, run2)"
  by (simp add: handleHostWS_join_def add_conn_def touchHost_def broadcastHostPresence_def host_devices_def upd_conns_def
      PairingsForHost_def LookupHostPresence_def PutHostPresence_def upd_store_def run_defs mput_def mvals_def conns_add_def
      conns_of_def ex_host_def AfterFunc_def)

lemma run_create: "serve ex_va (ex_req [] pairing_json) (CallCreatePairing (ex_id 10)) run2
    = (json_response 201 (JObj [(''pairing_id'', JStr (ex_id 10))]), run3)"
proof -
  have "authorizeHostID (ex_id 1) ''alice'' run2 = (None, run2)"
    by (simp add: authorizeHostID_def LookupBinding_def bindingLocked_def run_defs mget_def DefaultBindingIdleReap_def
        hostHasPairingsLocked_def mvals_def time_sub_def)
  moreover have "lt_PairingsPerHour (cf_Limits (rl_cfg run2)) = 0" by (simp add: run_defs)
  moreover have "\<lparr>pr_PairingID = ex_id 10, pr_ChannelID = ex_id 7, pr_HostID = ex_id 1, pr_DeviceID = ex_id 3,
      pr_AccountSub = ''alice'', pr_HostLabel = Some ''studio'', pr_CreatedAt = rl_now run2\<rparr> = ex_pairing"
    by (simp add: ex_pairing_def run_defs)
  moreover have "CreatePairing ex_pairing (rl_store run2) = (None, rl_store run3)"
    by (simp add: CreatePairing_def run_defs mput_def)
  ultimately show ?thesis by (simp add: handleCreatePairing_def pairing_json_decodes run3_def)
qed

lemma run_token: "serve ex_va (ex_req (ex_id 3) apns_json) CallAPNSRegister run3 = (no_content, run4)"
proof -
  have "lt_APNSRegsPerHour (cf_Limits (rl_cfg run3)) = 0" by (simp add: run_defs)
  moreover have "PairingsForDevice (ex_id 3) (rl_store run3) = [ex_pairing]"
    by (simp add: PairingsForDevice_def run_defs mvals_def)
  ultimately show ?thesis
    by (simp add: handleAPNSRegister_def apns_json_decodes upd_store_def PutAPNSToken_def run4_def Let_def)
      (simp add: run_defs mput_def)
qed

lemma run_window: "snd (serve ex_va (ex_req [] (JObj [(''host_id'', JStr (ex_id 1))])) (CallOpenWindow (ex_id 4) (ex_id 5)) run4) = run5"
proof -
  have "authorizeHostID (ex_id 1) ''alice'' run4 = (None, run4)"
    by (simp add: authorizeHostID_def LookupBinding_def bindingLocked_def run_defs mget_def DefaultBindingIdleReap_def
        hostHasPairingsLocked_def mvals_def time_sub_def)
  moreover have "lt_PairingWindowsPerHour (cf_Limits (rl_cfg run4)) = 0" by (simp add: run_defs)
  ultimately show ?thesis
    by (simp add: handleOpenWindow_def ex_window_req Let_def split_beta)
      (simp add: run_defs OpenWindow_def mput_def mget_def AfterFunc_def ex_window_def)
qed

lemma run_frame: "handleHostWS_message 0 (ex_id 1) MessageBinary (ex_msg 7 ''wake'' [1, 2, 3]) run5 = (True, run6)"
proof -
  have t: "touchHost (ex_id 1) run5 = run5"
    by (simp add: touchHost_def LookupHostPresence_def PutHostPresence_def upd_store_def run_defs mput_def mget_def timer_Reset_def)
  have f: "host_frame_ok 0 (ex_msg 7 ''wake'' [1, 2, 3]) run5 \<lparr>hd_Channel = ex_id 7, hd_Seq = 42, hd_PushClass = ''wake''\<rparr> [1, 2, 3]"
    by (simp add: host_frame_ok_def host_limited_def run_defs)
  have c: "conn_hostID 0 run5 = ex_id 1" by (simp add: conn_hostID_def run_defs mget_def ex_host_def)
  have w: "host_window 0 run5 = Some (ex_window\<lparr>wd_Attaches := 0\<rparr>)" "reaped_store 0 run5 = rl_store run5"
    by (simp_all add: host_window_def reaped_store_def c) (simp_all add: WindowForHost_def run_defs mget_def)
  have g: "guarded 0 run5 = run5" by (simp add: guarded_def w) (simp add: host_limited_def run_defs)
  have p: "PairingByChannel (ex_id 7) (rl_store run5) = Some ex_pairing"
    by (simp add: PairingByChannel_def run_defs mget_def)
  have d: "\<not> deviceAttachedNow (ex_id 7) run5" by (simp add: deviceAttachedNow_def conns_of_def run_defs)
  have m: "upd_store (AppendMailbox (ex_id 7) \<lparr>mi_Seq = 42, mi_PushClass = ''wake'', mi_Body = [1, 2, 3], mi_StoredAt = rl_now run5\<rparr>
      (mailboxPolicy (rl_cfg run5))) run5 = run6\<lparr>rl_pushes := []\<rparr>"
    by (simp add: upd_store_def AppendMailbox_def run_defs mput_def mailboxPolicy_def mailbox_append_def mailbox_prune_def empty_mailbox_def)
  show ?thesis
    by (simp add: handleHostWS_message_def t routeHostFrame_ok [OF f] c w g p d m maybePush_def push_defs)
      (simp add: run_defs LookupAPNSToken_def mget_def push_defs)
qed

section \<open>The run\<close>

definition sys0 :: System where
  "sys0 = \<lparr>sy_relay = run0, sy_tickets = [], sy_running = [], sy_leaving = [], sy_publishing = []\<rparr>"

definition ex_sys :: "Relay \<Rightarrow> System" where
  "ex_sys r = \<lparr>sy_relay = r, sy_tickets = [], sy_running = [(0, [])], sy_leaving = [], sy_publishing = []\<rparr>"

lemma reachable_start: "reachable sys0"
proof -
  have "sys_init sys0" unfolding sys_init_def using run_start by (auto simp: sys0_def simp del: ex_cfg_fields intro: exI)
  then show ?thesis unfolding reachable_def by blast
qed

lemma reachable_step: "reachable S \<Longrightarrow> sys_step S S' \<Longrightarrow> reachable S'"
  unfolding reachable_def by (meson rtranclp.rtrancl_into_rtrancl)

lemma sys_run1: "sys_step sys0 (sys0\<lparr>sy_relay := run1, sy_tickets := [HostTicket ''alice'' (ex_id 1)]\<rparr>)"
  using sys_step.host_admit [of ex_va "ex_req [] JNull" sys0] run_admit by (simp add: sys0_def)

lemma sys_run2: "sys_step (sys0\<lparr>sy_relay := run1, sy_tickets := [HostTicket ''alice'' (ex_id 1)]\<rparr>) (ex_sys run2)"
  using sys_step.host_join [of "''alice''" "ex_id 1" "sys0\<lparr>sy_relay := run1, sy_tickets := [HostTicket ''alice'' (ex_id 1)]\<rparr>" 0 run2] run_join
  by (simp add: sys0_def ex_sys_def)

lemma reachable_run2: "reachable (ex_sys run2)"
  using reachable_step [OF reachable_step [OF reachable_start sys_run1] sys_run2] .

lemma sys_rest:
  assumes "fresh_ids call r" "snd (serve va req call r) = r'" shows "sys_step (ex_sys r) (ex_sys r')"
proof -
  have "sys_step (ex_sys r) ((ex_sys r)\<lparr>sy_relay := r'\<rparr>)"
    using assms by (intro sys_step.rest [of call _ va req "fst (serve va req call r)"]) (simp_all add: ex_sys_def prod_eq_iff)
  then show ?thesis by (simp add: ex_sys_def)
qed

lemma sys_run3: "sys_step (ex_sys run2) (ex_sys run3)"
  by (rule sys_rest [of "CallCreatePairing (ex_id 10)" _ ex_va "ex_req [] pairing_json"]) (use run_create in \<open>simp_all add: run_defs\<close>)

lemma reachable_rest:
  assumes "reachable (ex_sys r)" "fresh_ids call r" "snd (serve va req call r) = r'"
  shows "reachable (ex_sys r')"
  using reachable_step [OF assms(1) sys_rest [OF assms(2,3)]] .

lemma reachable_run6: "reachable (ex_sys run6)"
proof -
  have 3: "reachable (ex_sys run3)" by (rule reachable_step [OF reachable_run2 sys_run3])
  have 4: "reachable (ex_sys run4)"
    by (rule reachable_rest [OF 3, of CallAPNSRegister ex_va "ex_req (ex_id 3) apns_json"])
      (use run_token in simp_all)
  have 5: "reachable (ex_sys run5)"
    by (rule reachable_rest [OF 4 _ run_window]) (simp add: run_defs)
  have c: "conn_hostID 0 run5 = ex_id 1" "is_role ''host'' 0 run5"
    by (simp_all add: conn_hostID_def is_role_def run_defs mget_def ex_host_def)
  have "sys_step (ex_sys run5) ((ex_sys run5)\<lparr>sy_relay := run6, sy_running := (if True then sy_running (ex_sys run5) else
      remove1 (0, []) (sy_running (ex_sys run5))), sy_leaving := (if True then sy_leaving (ex_sys run5) else (0, []) # sy_leaving (ex_sys run5))\<rparr>)"
    using c run_frame by (intro sys_step.host_message [of 0 "[]" _ MessageBinary "ex_msg 7 ''wake'' [1, 2, 3]"]) (simp_all add: ex_sys_def)
  from reachable_step [OF 5 this] show ?thesis by (simp add: ex_sys_def)
qed

end
