(* ===== verification/Opacity.thy ===== *)
theory Opacity
  imports Routing
begin

text \<open>
  The relay never depends on frame bodies. \<open>erase\<close> replaces every body a relay holds, in mailboxes
  and in the frames its connections have queued or written, by zeros of the same length, and leaves
  everything else as it is: the headers of those frames, and binary messages that are no frames. Routing
  commutes with it.
\<close>

section \<open>Erasure\<close>

definition zeros :: "bytes \<Rightarrow> bytes" where
  "zeros b = replicate (length b) 0"

text \<open>A frame with its body blanked; \<open>cap\<close> is the relay's header cap.\<close>

definition blank :: "int \<Rightarrow> bytes \<Rightarrow> bytes" where
  "blank cap f = (case DecodeFrame f cap of Inl _ \<Rightarrow> f | Inr (_, body) \<Rightarrow> take (length f - length body) f @ zeros body)"

definition erase_msg :: "int \<Rightarrow> outMsg \<Rightarrow> outMsg" where
  "erase_msg cap m = (if om_typ m = MessageBinary then m\<lparr>om_data := blank cap (om_data m)\<rparr> else m)"

definition erase_conn :: "int \<Rightarrow> wsConn \<Rightarrow> wsConn" where
  "erase_conn cap w = w\<lparr>wc_send := map (erase_msg cap) (wc_send w), wc_written := map (erase_msg cap) (wc_written w)\<rparr>"

definition erase_item :: "MailboxItem \<Rightarrow> MailboxItem" where
  "erase_item it = it\<lparr>mi_Body := zeros (mi_Body it)\<rparr>"

definition erase_box :: "mailbox \<Rightarrow> mailbox" where
  "erase_box m = m\<lparr>mb_items := map erase_item (mb_items m)\<rparr>"

definition mmap :: "('v \<Rightarrow> 'w) \<Rightarrow> ('k, 'v) gomap \<Rightarrow> ('k, 'w) gomap" where
  "mmap f m = map (\<lambda>(k, v). (k, f v)) m"

definition erase_store :: "MemStore \<Rightarrow> MemStore" where
  "erase_store s = s\<lparr>ms_mailboxes := mmap erase_box (ms_mailboxes s)\<rparr>"

definition erase :: "Relay \<Rightarrow> Relay" where
  "erase r = r\<lparr>rl_conns := mmap (erase_conn (cf_MaxHeaderLen (rl_cfg r))) (rl_conns r), rl_store := erase_store (rl_store r)\<rparr>"

section \<open>Erasure and the operations\<close>

lemma length_zeros [simp]: "length (zeros b) = length b"
  by (simp add: zeros_def)

lemma mget_mmap [simp]: "mget (mmap f m) k = map_option f (mget m k)"
  by (simp add: mget_def mmap_def map_of_map)

lemma mmap_mput [simp]: "mmap f (mput k v m) = mput k (f v) (mmap f m)"
  by (induction m) (auto simp: mmap_def mput_def)

lemma erase_enqueue: "erase_conn cap (enqueue m w) = enqueue (erase_msg cap m) (erase_conn cap w)"
  by (simp add: erase_conn_def enqueue_def)

lemma erase_frame [simp]:
  "rl_cfg (erase r) = rl_cfg r" "rl_limiter (erase r) = rl_limiter r" "rl_store (erase r) = erase_store (rl_store r)"
  "rl_hostConns (erase r) = rl_hostConns r" "rl_devConns (erase r) = rl_devConns r"
  "rl_pairConns (erase r) = rl_pairConns r" "rl_presTimer (erase r) = rl_presTimer r"
  "rl_winTimer (erase r) = rl_winTimer r" "rl_closed (erase r) = rl_closed r" "rl_now (erase r) = rl_now r"
  "rl_conns (erase r) = mmap (erase_conn (cf_MaxHeaderLen (rl_cfg r))) (rl_conns r)" "rl_next (erase r) = rl_next r"
  "rl_fired (erase r) = rl_fired r" "rl_pushes (erase r) = rl_pushes r"
  by (simp_all add: erase_def)

lemma erase_upd_conn:
  assumes "\<And>w. erase_conn (cf_MaxHeaderLen (rl_cfg r)) (f w) = g (erase_conn (cf_MaxHeaderLen (rl_cfg r)) w)"
  shows "erase (upd_conn f i r) = upd_conn g i (erase r)"
  using assms by (simp add: upd_conn_def erase_def split: option.splits)

lemma erase_upd_conns:
  assumes "\<And>w. erase_conn (cf_MaxHeaderLen (rl_cfg r)) (f w) = g (erase_conn (cf_MaxHeaderLen (rl_cfg r)) w)"
  shows "erase (upd_conns f is r) = upd_conns g is (erase r)"
  using assms
proof (induction "is" arbitrary: r)
  case (Cons i "is")
  then have "erase (upd_conns f is (upd_conn f i r)) = upd_conns g is (erase (upd_conn f i r))" by simp
  with erase_upd_conn [of r f g i] Cons.prems show ?case by (simp add: upd_conns_def)
qed (simp add: upd_conns_def)

lemma erase_sendBinary: "erase_conn cap (sendBinary raw w) = sendBinary (blank cap raw) (erase_conn cap w)"
  by (simp add: sendBinary_def erase_enqueue erase_msg_def)

lemma erase_sendText: "erase_conn cap (sendText t w) = sendText t (erase_conn cap w)"
  by (simp add: sendText_def erase_enqueue erase_msg_def)

lemma erase_upd_binary: "erase (upd_conns (sendBinary raw) is r) = upd_conns (sendBinary (blank (cf_MaxHeaderLen (rl_cfg r)) raw)) is (erase r)"
  by (rule erase_upd_conns) (rule erase_sendBinary)

lemma erase_upd_text: "erase (upd_conn (sendText t) i r) = upd_conn (sendText t) i (erase r)"
  by (rule erase_upd_conn) (rule erase_sendText)

lemma erase_close: "erase_conn cap (conn_close c m w) = conn_close c m (erase_conn cap w)"
  by (simp add: conn_close_def erase_conn_def)

lemma blank_frame: "DecodeFrame (pre @ b) cap = Inr (h, b) \<Longrightarrow> blank cap (pre @ b) = pre @ zeros b"
  by (simp add: blank_def)

lemma blank_body: "DecodeFrame (pre @ b) cap = Inr (h, b) \<Longrightarrow> length b' = length b \<Longrightarrow> blank cap (pre @ b) = blank cap (pre @ b')"
  using blank_frame DecodeFrame_body [of pre b cap h b'] by (simp add: zeros_def)

lemma erase_prune_loop:
  "prune_loop now ttl (map erase_item its) b = map_prod (map erase_item) id (prune_loop now ttl its b)"
  by (induction its arbitrary: b) (simp_all add: erase_item_def)

lemma erase_evict_loop:
  "evict_loop pol (map erase_item its) b = map_prod (map erase_item) id (evict_loop pol its b)"
  by (induction its arbitrary: b) (simp_all add: erase_item_def)

lemma erase_mailbox_append: "erase_box (mailbox_append it pol m) = mailbox_append (erase_item it) pol (erase_box m)"
proof -
  let ?p = "prune_loop (mi_StoredAt it) (mp_TTL pol) (mb_items m) (mb_bytes m)"
  have "evict_loop pol (map erase_item (fst ?p) @ [erase_item it]) b
      = map_prod (map erase_item) id (evict_loop pol (fst ?p @ [it]) b)" for b
    using erase_evict_loop [of pol "fst ?p @ [it]" b] by simp
  moreover have "mi_StoredAt (erase_item it) = mi_StoredAt it" "length (mi_Body (erase_item it)) = length (mi_Body it)"
    by (simp_all add: erase_item_def)
  ultimately show ?thesis
    by (simp add: mailbox_append_def mailbox_prune_def erase_box_def erase_prune_loop split_beta Let_def)
qed

lemma erase_AppendMailbox:
  "erase_store (AppendMailbox c it pol s) = AppendMailbox c (erase_item it) pol (erase_store s)"
proof -
  have "erase_box empty_mailbox = empty_mailbox" by (simp add: erase_box_def empty_mailbox_def)
  then show ?thesis
    by (simp add: AppendMailbox_def erase_store_def erase_mailbox_append Let_def split: option.splits)
qed

lemma erase_upd_store: "erase (upd_store g r) = (erase r)\<lparr>rl_store := erase_store (g (rl_store r))\<rparr>"
  by (simp add: upd_store_def erase_def)

lemma erase_maybePush: "erase (maybePush pr h r) = maybePush pr h (erase r)"
  by (simp add: maybePush_def erase_def erase_store_def LookupAPNSToken_def Let_def split: option.splits)

section \<open>Routing\<close>

text \<open>A host frame and the same frame with another body of the same length.\<close>

lemma host_frame_ok_body:
  assumes "host_frame_ok i (pre @ b) r h b" "length b' = length b"
  shows "host_frame_ok i (pre @ b') r h b'"
  using assms DecodeFrame_body [of pre b "cf_MaxHeaderLen (rl_cfg r)" h b'] by (simp add: host_frame_ok_def)

lemma erase_route_ok:
  assumes "host_frame_ok i (pre @ b) r h b" "length b' = length b"
  shows "fst (routeHostFrame i (pre @ b) r) = fst (routeHostFrame i (pre @ b') r)"
    and "erase (snd (routeHostFrame i (pre @ b) r)) = erase (snd (routeHostFrame i (pre @ b') r))"
proof -
  have ok': "host_frame_ok i (pre @ b') r h b'" using assms by (rule host_frame_ok_body)
  have "DecodeFrame (pre @ b) (cf_MaxHeaderLen (rl_cfg r)) = Inr (h, b)" using assms(1) by (simp add: host_frame_ok_def)
  from blank_body [OF this assms(2)] have z: "blank (cf_MaxHeaderLen (rl_cfg r)) (pre @ b) = blank (cf_MaxHeaderLen (rl_cfg r)) (pre @ b')" .
  have z': "zeros b = zeros b'" using assms(2) by (simp add: zeros_def)
  show "fst (routeHostFrame i (pre @ b) r) = fst (routeHostFrame i (pre @ b') r)"
    unfolding routeHostFrame_ok [OF assms(1)] routeHostFrame_ok [OF ok'] by simp
  show "erase (snd (routeHostFrame i (pre @ b) r)) = erase (snd (routeHostFrame i (pre @ b') r))"
    unfolding routeHostFrame_ok [OF assms(1)] routeHostFrame_ok [OF ok']
    by (simp add: erase_upd_binary erase_maybePush erase_upd_store erase_AppendMailbox
        erase_item_def z z')
qed

text \<open>C4. The relay is blind to what frame bodies say. Routing a host frame, and routing a frame with the same header
  bytes and another body of the same length, give the same verdict and two states that differ at most in
  the bytes of stored bodies and of the bodies of queued or written frames: the headers of those
  frames, the lengths, and everything else are equal. So, the length given, every control message, push,
  close code, rate-limit decision, mailbox eviction, presence record and timer is independent of the
  content of a body. The length does count: a longer frame may be refused as too large, or evict others.\<close>

theorem routeHostFrame_body_blind:
  assumes "DecodeFrame (pre @ b) (cf_MaxHeaderLen (rl_cfg r)) = Inr (h, b)" "length b' = length b"
  shows "map_prod id erase (routeHostFrame i (pre @ b) r) = map_prod id erase (routeHostFrame i (pre @ b') r)"
proof (cases "host_frame_ok i (pre @ b) r h b")
  case True
  from erase_route_ok [OF this assms(2)] show ?thesis by (simp add: map_prod_def split_beta prod_eq_iff)
next
  case False
  have d': "DecodeFrame (pre @ b') (cf_MaxHeaderLen (rl_cfg r)) = Inr (h, b')"
    using assms(1) by (rule DecodeFrame_body)
  then have f': "\<not> host_frame_ok i (pre @ b') r h b'"
    using False assms by (simp add: host_frame_ok_def)
  show ?thesis
    unfolding routeHostFrame_not_ok [OF assms(1) False] routeHostFrame_not_ok [OF d' f']
    using assms(2) by simp
qed

lemma ex_msg_split: "\<exists>pre. \<forall>b. ex_msg ch ''wake'' b = pre @ b"
  using length_header_json [of "\<lparr>hd_Channel = ex_id ch, hd_Seq = 42, hd_PushClass = ''wake''\<rparr>"]
  by (auto simp: ex_msg_def EncodeFrame_def marshal_def DefaultMaxHeaderLen_def Let_def)

theorem routeHostFrame_body_blind_witness:
  "map_prod id erase (routeHostFrame 0 (ex_msg 7 ''wake'' [1, 2]) (ex_relay []))
   = map_prod id erase (routeHostFrame 0 (ex_msg 7 ''wake'' [8, 9]) (ex_relay []))"
proof -
  obtain pre where pre: "\<And>b. ex_msg 7 ''wake'' b = pre @ b" using ex_msg_split by blast
  have "DecodeFrame (pre @ [1, 2]) 512 = Inr (\<lparr>hd_Channel = ex_id 7, hd_Seq = 42, hd_PushClass = ''wake''\<rparr>, [1, 2])"
    unfolding pre [symmetric] by (rule ex_msg_decodes) simp
  then show ?thesis
    unfolding pre using routeHostFrame_body_blind [of pre "[1, 2]" "ex_relay []" _ "[8, 9]" 0] by simp
qed

end
