(* ===== verification/Safety.thy ===== *)
theory Safety
  imports Run Opacity
begin

text \<open>
  What holds in every state the relay can reach, whatever requests, messages, timers and clean-ups
  run and in whatever order: the consequences of the relay invariant, stated over the store, the
  tables and the clock.
\<close>

section \<open>Accounts\<close>

text \<open>C1. Accounts are isolated in every reachable state. A registered pairing's host id is held by the
  account that registered the pairing, and stays held however long the host is away: at no
  time can another account bind the host id, or be authorised for the pairing's channel.\<close>

theorem accounts_isolated:
  assumes "reachable S" "mget (ms_pairings (rl_store (sy_relay S))) i = Some pr" "other \<noteq> pr_AccountSub pr"
  shows "live_account (pr_HostID pr) t (rl_store (sy_relay S)) = Some (pr_AccountSub pr)
    \<and> BindHost (pr_HostID pr) other t (rl_store (sy_relay S)) = (Inl ErrBoundToOtherAccount, rl_store (sy_relay S))
    \<and> authorizeChannel (pr_ChannelID pr) other (sy_relay S) = Inl CodeForbidden"
proof -
  let ?s = "rl_store (sy_relay S)"
  note I = relay_invD [OF reachable_inv [OF assms(1)]]
  obtain b where b: "mget (ms_bindings ?s) (pr_HostID pr) = Some b" "bd_AccountSub b = pr_AccountSub pr"
    using I(3) assms(2) unfolding accounts_inv_def by blast
  have "hostHasPairingsLocked (pr_HostID pr) ?s"
    using assms(2) hasPairings_iff [OF store_invD(1) [OF I(2)]] by blast
  then have live: "live_account (pr_HostID pr) t ?s = Some (pr_AccountSub pr)"
    using b by (simp add: live_account_def bindingLocked_def)
  have "mget (ms_byChannel ?s) (pr_ChannelID pr) = Some i"
    using indexesD [OF pairings_invD(3) [OF store_invD(1) [OF I(2)]] assms(2)] .
  then have "PairingByChannel (pr_ChannelID pr) ?s = Some pr" using assms(2) by (simp add: PairingByChannel_def)
  with live assms(3) show ?thesis by (simp add: BindHost_refused authorizeChannel_def)
qed

lemma run6_pairing: "mget (ms_pairings (rl_store (sy_relay (ex_sys run6)))) (ex_id 10) = Some ex_pairing"
  by (simp add: ex_sys_def run_defs mget_def)

theorem accounts_isolated_witness:
  "authorizeChannel (ex_id 7) ''mallory'' run6 = Inl CodeForbidden
   \<and> fst (BindHost (ex_id 1) ''mallory'' (1000 * hour) (rl_store run6)) = Inl ErrBoundToOtherAccount"
  using accounts_isolated [OF reachable_run6 run6_pairing, of "''mallory''" "1000 * hour"] by (simp add: ex_sys_def)

section \<open>Mailboxes, tokens, pushes\<close>

text \<open>C21. No reachable state holds more for an absent device than the contract allows: a mailbox exists
  only for a registered channel, and has at most 128 frames and 4 MiB of bodies.\<close>

theorem mailboxes_bounded:
  assumes "reachable S" "mget (ms_mailboxes (rl_store (sy_relay S))) ch = Some mb"
  shows "(\<exists>pr. PairingByChannel ch (rl_store (sy_relay S)) = Some pr)
    \<and> length (mb_items mb) \<le> 128 \<and> sum_list (map (\<lambda>it. length (mi_Body it)) (mb_items mb)) \<le> 4194304"
proof -
  note I = relay_invD [OF reachable_inv [OF assms(1)]]
  have "within_caps (mailboxPolicy (rl_cfg (sy_relay S))) (mb_items mb)"
    "PairingByChannel ch (rl_store (sy_relay S)) \<noteq> None"
    using I(4) assms(2) unfolding mailboxes_inv_def by blast+
  moreover have "int (sum_list (map (\<lambda>it. length (mi_Body it)) its)) = weight its" for its
    by (induction its) simp_all
  note this [of "mb_items mb", symmetric]
  ultimately show ?thesis using I(1) by (auto simp: within_caps_def mailboxPolicy_def config_ok_def)
qed

theorem mailboxes_bounded_witness:
  "\<exists>mb. mget (ms_mailboxes (rl_store run6)) (ex_id 7) = Some mb \<and> length (mb_items mb) = 1 \<and> length (mb_items mb) \<le> 128"
proof -
  have m: "mget (ms_mailboxes (rl_store (sy_relay (ex_sys run6)))) (ex_id 7) = Some \<lparr>mb_items =
       [\<lparr>mi_Seq = 42, mi_PushClass = ''wake'', mi_Body = [1, 2, 3], mi_StoredAt = 0\<rparr>], mb_bytes = 3\<rparr>"
    by (simp add: ex_sys_def run_defs mget_def)
  from mailboxes_bounded [OF reachable_run6 m] m show ?thesis by (simp add: ex_sys_def)
qed

text \<open>C25. In every reachable state a push token is held only for a device that some registered pairing
  names, and everything ever handed to the pusher is one of the two closed payloads: beyond the
  channel and the sequence number of a frame, and the label the owner set, a push carries constants
  only.\<close>

theorem pushes_closed:
  assumes "reachable S"
  shows "(\<forall>d tok. mget (ms_apns (rl_store (sy_relay S))) d = Some tok \<longrightarrow>
        at_DeviceID tok = d \<and> (\<exists>i pr. mget (ms_pairings (rl_store (sy_relay S))) i = Some pr \<and> pr_DeviceID pr = d))
    \<and> (\<forall>p \<in> set (rl_pushes (sy_relay S)). \<exists>ch q. pu_Payload p = wakePayload ch q
        \<or> (\<exists>label. pu_Payload p = attentionPayload label ch q))"
proof -
  note I = relay_invD [OF reachable_inv [OF assms]]
  show ?thesis using I(5,9) store_invD(4) [OF I(2)] by (auto simp: tokens_inv_def keys_inv_def closed_push_def)
qed

theorem pushes_closed_witness:
  "length (rl_pushes run6) = 1 \<and> (\<exists>ch q. pu_Payload (hd (rl_pushes run6)) = wakePayload ch q
        \<or> (\<exists>label. pu_Payload (hd (rl_pushes run6)) = attentionPayload label ch q))
   \<and> (\<exists>i pr. mget (ms_pairings (rl_store run6)) i = Some pr \<and> pr_DeviceID pr = ex_id 3)"
proof -
  have m: "mget (ms_apns (rl_store run6)) (ex_id 3) \<noteq> None" and l: "length (rl_pushes run6) = 1"
    by (simp_all add: run_defs mget_def)
  have "hd (rl_pushes run6) \<in> set (rl_pushes run6)" using l by (intro hd_in_set) auto
  with m l pushes_closed [OF reachable_run6] show ?thesis by (auto simp: ex_sys_def)
qed

section \<open>Connections\<close>

text \<open>C22. The connection tables are sound in every reachable state: an entry is a connection that exists,
  was admitted in that role under that key, and is listed once; no connection is in two tables;
  and no send queue exceeds its depth.\<close>

theorem connections_sound:
  assumes "reachable S"
  defines "r \<equiv> sy_relay S"
  shows "(\<forall>k i. (i \<in> set (conns_of (rl_hostConns r) k) \<longrightarrow>
          (\<exists>w. mget (rl_conns r) i = Some w \<and> wc_role w = ''host'' \<and> wc_hostID w = k))
      \<and> (i \<in> set (conns_of (rl_devConns r) k) \<longrightarrow>
          (\<exists>w. mget (rl_conns r) i = Some w \<and> wc_role w = ''device'' \<and> wc_channel w = k))
      \<and> (i \<in> set (conns_of (rl_pairConns r) k) \<longrightarrow>
          (\<exists>w. mget (rl_conns r) i = Some w \<and> wc_role w = ''pairing-device'' \<and> wc_winID w = k)))
    \<and> (\<forall>k. distinct (conns_of (rl_hostConns r) k) \<and> distinct (conns_of (rl_devConns r) k)
         \<and> distinct (conns_of (rl_pairConns r) k))
    \<and> (\<forall>i w. mget (rl_conns r) i = Some w \<longrightarrow> length (wc_send w) \<le> 256)"
proof -
  have T: "tables_inv r" unfolding r_def using relay_invD(6) [OF reachable_inv [OF assms(1)]] .
  have t: "distinct (conns_of tb k) \<and> (i \<in> set (conns_of tb k) \<longrightarrow>
      (\<exists>w. mget (rl_conns r) i = Some w \<and> wc_role w = role \<and> key w = k))"
    if "table_inv role key (rl_conns r) tb" for role key tb k i
    using that unfolding table_inv_def conns_of_def by (cases "mget tb k") auto
  have q: "length (wc_send w) \<le> 256" if "mget (rl_conns r) i = Some w" for i w
    using T that by (auto simp: tables_inv_def heap_inv_def sendQueueDepth_def)
  from T have "table_inv ''host'' wc_hostID (rl_conns r) (rl_hostConns r)"
    "table_inv ''device'' wc_channel (rl_conns r) (rl_devConns r)"
    "table_inv ''pairing-device'' wc_winID (rl_conns r) (rl_pairConns r)" by (simp_all add: tables_inv_def)
  with t q show ?thesis by blast
qed

theorem connections_sound_witness:
  "conns_of (rl_hostConns run6) (ex_id 1) = [0]
   \<and> (\<exists>w. mget (rl_conns run6) 0 = Some w \<and> wc_role w = ''host'' \<and> wc_hostID w = ex_id 1 \<and> length (wc_send w) \<le> 256)"
proof -
  have h: "conns_of (rl_hostConns run6) (ex_id 1) = [0]" by (simp add: run_defs)
  have r: "sy_relay (ex_sys run6) = run6" by (simp add: ex_sys_def)
  note T = connections_sound [OF reachable_run6, unfolded r]
  obtain w where "mget (rl_conns run6) 0 = Some w" "wc_role w = ''host''" "wc_hostID w = ex_id 1"
    using T h by (metis list.set_intros(1))
  with T h show ?thesis by blast
qed

end
