(* ===== verification/Timers.thy ===== *)
theory Timers
  imports Safety
begin

text \<open>
  Time: presence and pairing windows in the reachable states, the offline transition as a liveness
  property, requests without a valid token, and two behaviours at the edges of the timers.
\<close>

section \<open>Presence\<close>

text \<open>A relay whose due timers have fired and whose fired callbacks have run.\<close>

definition settled :: "Relay \<Rightarrow> bool" where
  "settled r \<longleftrightarrow> rl_fired r = []
     \<and> (\<forall>h t. mget (rl_presTimer r) h = Some t \<and> tm_active t \<longrightarrow> rl_now r < tm_deadline t)
     \<and> (\<forall>i t. mget (rl_winTimer r) i = Some t \<and> tm_active t \<longrightarrow> rl_now r < tm_deadline t)"

text \<open>C20. Presence is never stale: in every reachable state of a relay that is not shut down and has no
  timer or callback outstanding, a host shown online was heard from within the silence allowance,
  which is at most thirty seconds.\<close>

theorem presence_truthful:
  assumes "reachable S" "\<not> rl_closed (sy_relay S)" "settled (sy_relay S)"
    and "LookupHostPresence h (rl_store (sy_relay S)) = Some p" "hp_Online p"
  shows "hp_LastSeen p \<le> rl_now (sy_relay S)
    \<and> rl_now (sy_relay S) < hp_LastSeen p + cf_OfflineAfter (rl_cfg (sy_relay S))
    \<and> rl_now (sy_relay S) - hp_LastSeen p < 30 * second"
proof -
  note I = relay_invD [OF reachable_inv [OF assms(1)]]
  have p: "mget (ms_hostPres (rl_store (sy_relay S))) h = Some p" using assms(4) by (simp add: LookupHostPresence_def)
  from I(7) [unfolded presence_inv_def, rule_format, OF p] assms(2,5) obtain t where
    seen: "hp_LastSeen p \<le> rl_now (sy_relay S)" and t: "mget (rl_presTimer (sy_relay S)) h = Some t"
      "tm_active t \<and> tm_deadline t = hp_LastSeen p + cf_OfflineAfter (rl_cfg (sy_relay S))
       \<or> PresenceDeadline h \<in> set (rl_fired (sy_relay S))" by blast
  have "rl_now (sy_relay S) < hp_LastSeen p + cf_OfflineAfter (rl_cfg (sy_relay S))"
    using t assms(3) unfolding settled_def by (metis empty_iff list.set(1))
  with seen I(1) show ?thesis by (auto simp: config_ok_def)
qed

lemma run6_presence: "LookupHostPresence (ex_id 1) (rl_store run6) = Some \<lparr>hp_HostID = ex_id 1, hp_Online = True, hp_LastSeen = 0\<rparr>"
  "\<not> rl_closed run6" "settled run6" "sy_relay (ex_sys run6) = run6"
  by (simp_all add: run_defs LookupHostPresence_def mget_def settled_def ex_sys_def)

theorem presence_truthful_witness:
  "HostOnline (ex_id 1) run6 \<and> rl_now run6 - 0 < 30 * second"
  using presence_truthful [of "ex_sys run6" "ex_id 1"] reachable_run6 run6_presence by (simp add: HostOnline_def)

text \<open>The steps the relay takes by itself: a due timer fires, a fired callback runs.\<close>

inductive timer_step :: "System \<Rightarrow> System \<Rightarrow> bool" where
  presence_due: "mget (rl_presTimer (sy_relay S)) h = Some t \<Longrightarrow> tm_active t \<Longrightarrow> tm_deadline t \<le> rl_now (sy_relay S) \<Longrightarrow>
    timer_step S (S\<lparr>sy_relay := (sy_relay S)\<lparr>rl_presTimer := mput h (timer_Stop t) (rl_presTimer (sy_relay S)),
      rl_fired := rl_fired (sy_relay S) @ [PresenceDeadline h]\<rparr>\<rparr>)"
| window_due: "mget (rl_winTimer (sy_relay S)) i = Some t \<Longrightarrow> tm_active t \<Longrightarrow> tm_deadline t \<le> rl_now (sy_relay S) \<Longrightarrow>
    timer_step S (S\<lparr>sy_relay := (sy_relay S)\<lparr>rl_winTimer := mput i (timer_Stop t) (rl_winTimer (sy_relay S)),
      rl_fired := rl_fired (sy_relay S) @ [ExpireWindow i]\<rparr>\<rparr>)"
| callback_due: "cb \<in> set (rl_fired (sy_relay S)) \<Longrightarrow>
    timer_step S (S\<lparr>sy_relay := run_callback cb ((sy_relay S)\<lparr>rl_fired := remove1 cb (rl_fired (sy_relay S))\<rparr>)\<rparr>)"

lemma timer_step_sys: "timer_step S S' \<Longrightarrow> sys_step S S'"
  by (induction rule: timer_step.induct) (auto intro: sys_step.presence_fires sys_step.window_fires sys_step.callback_runs)

lemma deadline_takes_offline:
  assumes "presence_inv r" "store_inv (rl_store r)" "config_ok (rl_cfg r)"
    "mget (ms_hostPres (rl_store r)) h = Some p" "hp_LastSeen p + cf_OfflineAfter (rl_cfg r) \<le> rl_now r"
  shows "\<not> HostOnline h (presenceDeadline h (r\<lparr>rl_fired := fs\<rparr>))"
proof -
  have id: "hp_HostID p = h" using store_invD(4) [OF assms(2)] assms(4) by (simp add: keys_inv_def)
  have "min_duration < cf_OfflineAfter (rl_cfg r)" "cf_OfflineAfter (rl_cfg r) \<le> max_duration"
    using config_ok_offline [OF assms(3)] by (simp_all add: min_duration_def)
  then have "\<not> time_sub (rl_now r) (hp_LastSeen p) < cf_OfflineAfter (rl_cfg r)"
    using assms(5) time_sub_less_iff by simp
  then show ?thesis
    using assms(4) id
    by (simp add: presenceDeadline_def HostOnline_def LookupHostPresence_def PutHostPresence_def Let_def)
qed

text \<open>C5. A silent host goes offline: from every reachable state in which a host is shown online though
  its silence has reached the allowance, the relay's own timer steps, with no further request or
  message and no passing of time, lead to a state in which the host is offline.\<close>

theorem silent_host_goes_offline:
  assumes "reachable S" "\<not> rl_closed (sy_relay S)" "LookupHostPresence h (rl_store (sy_relay S)) = Some p" "hp_Online p"
    and "hp_LastSeen p + cf_OfflineAfter (rl_cfg (sy_relay S)) \<le> rl_now (sy_relay S)"
  shows "\<exists>S'. timer_step\<^sup>*\<^sup>* S S' \<and> \<not> HostOnline h (sy_relay S')"
proof -
  note I = relay_invD [OF reachable_inv [OF assms(1)]]
  let ?r = "sy_relay S"
  have p: "mget (ms_hostPres (rl_store ?r)) h = Some p" using assms(3) by (simp add: LookupHostPresence_def)
  have run: "\<exists>S'. timer_step\<^sup>*\<^sup>* T S' \<and> \<not> HostOnline h (sy_relay S')"
    if "relay_inv (sy_relay T)" "PresenceDeadline h \<in> set (rl_fired (sy_relay T))"
      "mget (ms_hostPres (rl_store (sy_relay T))) h = Some p" "rl_now (sy_relay T) = rl_now ?r" "rl_cfg (sy_relay T) = rl_cfg ?r" for T
  proof -
    let ?T = "T\<lparr>sy_relay := run_callback (PresenceDeadline h)
        ((sy_relay T)\<lparr>rl_fired := remove1 (PresenceDeadline h) (rl_fired (sy_relay T))\<rparr>)\<rparr>"
    have "timer_step T ?T" using that(2) by (rule timer_step.callback_due)
    moreover have "\<not> HostOnline h (sy_relay ?T)"
      using deadline_takes_offline [OF relay_invD(7,2,1) [OF that(1)] that(3)] assms(5) that(4,5) by simp
    ultimately show ?thesis by blast
  qed
  from I(7) [unfolded presence_inv_def, rule_format, OF p] assms(2,4) obtain t where
    t: "mget (rl_presTimer ?r) h = Some t" "tm_active t \<and> tm_deadline t = hp_LastSeen p + cf_OfflineAfter (rl_cfg ?r)
       \<or> PresenceDeadline h \<in> set (rl_fired ?r)" by blast
  show ?thesis
  proof (cases "PresenceDeadline h \<in> set (rl_fired ?r)")
    case True
    then show ?thesis using run [of S] reachable_inv [OF assms(1)] p by simp
  next
    case False
    let ?T = "S\<lparr>sy_relay := ?r\<lparr>rl_presTimer := mput h (timer_Stop t) (rl_presTimer ?r),
      rl_fired := rl_fired ?r @ [PresenceDeadline h]\<rparr>\<rparr>"
    have st: "timer_step S ?T" using t False assms(5) by (intro timer_step.presence_due) simp_all
    then have "relay_inv (sy_relay ?T)" using reachable_inv [OF reachable_step [OF assms(1) timer_step_sys]] by blast
    then obtain S' where "timer_step\<^sup>*\<^sup>* ?T S'" "\<not> HostOnline h (sy_relay S')" using run [of ?T] p by auto
    with st show ?thesis by (meson converse_rtranclp_into_rtranclp)
  qed
qed

lemma reachable_later:
  "reachable S \<Longrightarrow> 0 \<le> d \<Longrightarrow> reachable (S\<lparr>sy_relay := (sy_relay S)\<lparr>rl_now := rl_now (sy_relay S) + d\<rparr>\<rparr>)"
  by (rule reachable_step [OF _ sys_step.time])

theorem silent_host_goes_offline_witness:
  "HostOnline (ex_id 1) (run6\<lparr>rl_now := minute\<rparr>)
   \<and> (\<exists>S'. timer_step\<^sup>*\<^sup>* (ex_sys (run6\<lparr>rl_now := minute\<rparr>)) S' \<and> \<not> HostOnline (ex_id 1) (sy_relay S'))"
proof -
  have "rl_now run6 = 0" "rl_cfg run6 = ex_cfg" by (simp_all add: run_defs)
  then have "reachable (ex_sys (run6\<lparr>rl_now := minute\<rparr>))"
    using reachable_later [OF reachable_run6, of minute] by (simp add: ex_sys_def)
  from silent_host_goes_offline [OF this, of "ex_id 1"] \<open>rl_cfg run6 = ex_cfg\<close> run6_presence show ?thesis
    by (simp add: ex_sys_def HostOnline_def)
qed

section \<open>Pairing windows\<close>

text \<open>C24. In every reachable state of a relay that is not shut down and has no timer or callback
  outstanding, every open window is unexpired, has at most five minutes left, and is the only
  window of its host.\<close>

theorem windows_expire:
  assumes "reachable S" "\<not> rl_closed (sy_relay S)" "settled (sy_relay S)"
    and "LookupWindow i (rl_store (sy_relay S)) = Some w"
  shows "rl_now (sy_relay S) < wd_ExpiresAt w \<and> wd_ExpiresAt w \<le> rl_now (sy_relay S) + 5 * minute
    \<and> (\<forall>j v. LookupWindow j (rl_store (sy_relay S)) = Some v \<and> wd_HostID v = wd_HostID w \<longrightarrow> j = i)"
proof -
  note I = relay_invD [OF reachable_inv [OF assms(1)]]
  have w: "mget (ms_windows (rl_store (sy_relay S))) i = Some w" using assms(4) by (simp add: LookupWindow_def)
  note E = I(8) [unfolded expiry_inv_def, rule_format, OF w]
  have "wd_ExpiresAt w \<le> rl_now (sy_relay S) + cf_WindowTTL (rl_cfg (sy_relay S))" using E by blast
  moreover have "rl_now (sy_relay S) < wd_ExpiresAt w"
    using E assms(2,3) unfolding settled_def by (metis empty_iff list.set(1))
  moreover have "cf_WindowTTL (rl_cfg (sy_relay S)) \<le> 5 * minute" using I(1) by (simp add: config_ok_def)
  moreover have "j = i" if "mget (ms_windows (rl_store (sy_relay S))) j = Some v" "wd_HostID v = wd_HostID w" for j v
    using indexesD [OF windows_invD(2) [OF store_invD(2) [OF I(2)]] that(1)]
      indexesD [OF windows_invD(2) [OF store_invD(2) [OF I(2)]] w] that(2) by simp
  ultimately show ?thesis by (auto simp: LookupWindow_def)
qed

theorem windows_expire_witness:
  "\<exists>w. LookupWindow (ex_id 4) (rl_store run6) = Some w \<and> wd_ExpiresAt w = 5 * minute \<and> rl_now run6 < wd_ExpiresAt w"
proof -
  have "LookupWindow (ex_id 4) (rl_store run6) = Some (ex_window\<lparr>wd_Attaches := 0\<rparr>)"
    by (simp add: LookupWindow_def run_defs mget_def)
  with windows_expire [of "ex_sys run6" "ex_id 4"] reachable_run6 run6_presence show ?thesis by simp
qed

text \<open>The expiry callback acts only while the store still has the window. Reading an expired window
  through the host index deletes it from the store, and an expiry callback that runs after such a
  read leaves the window's pairing connections open, its timer entry and its connection
  table entry in place; run before the read, the callback closes the connections and removes both
  entries.\<close>

theorem expireWindow_after_reap:
  assumes "windows_inv (rl_store r)" "LookupWindow i (rl_store r) = Some w" "wd_ExpiresAt w \<le> rl_now r"
  shows "(let r1 = r\<lparr>rl_store := snd (WindowForHost (wd_HostID w) (rl_now r) (rl_store r))\<rparr>; r2 = expireWindow i r1 in
      LookupWindow i (rl_store r1) = None \<and> rl_conns r2 = rl_conns r \<and> rl_pairConns r2 = rl_pairConns r \<and> rl_winTimer r2 = rl_winTimer r)
    \<and> mget (rl_pairConns (expireWindow i r)) i = None \<and> mget (rl_winTimer (expireWindow i r)) i = None
    \<and> (\<forall>j v. conns_of (rl_pairConns r) i = [j] \<and> mget (rl_conns r) j = Some v \<longrightarrow>
         mget (rl_conns (expireWindow i r)) j = Some (conn_close 4410 ''window_closed'' v))"
proof -
  let ?s = "rl_store r" and ?s1 = "snd (WindowForHost (wd_HostID w) (rl_now r) (rl_store r))"
  have w: "mget (ms_windows ?s) i = Some w" using assms(2) by (simp add: LookupWindow_def)
  have "mget (ms_winByHost ?s) (wd_HostID w) = Some i" using indexesD [OF windows_invD(2) [OF assms(1)] w] .
  then have gone: "mget (ms_windows ?s1) i = None" using w assms(3) by (simp add: WindowForHost_def)
  then have "DeleteWindow i ?s1 = (None, ?s1)" by (simp add: DeleteWindow_def)
  then have e: "expireWindow i (r\<lparr>rl_store := ?s1\<rparr>) = r\<lparr>rl_store := ?s1\<rparr>" by (simp add: expireWindow_def)
  have "mget (rl_conns (expireWindow i r)) j = Some (conn_close 4410 ''window_closed'' v)"
    if "conns_of (rl_pairConns r) i = [j]" "mget (rl_conns r) j = Some v" for j v
    using w that by (simp add: expireWindow_def DeleteWindow_def tearDownWindow_def Let_def upd_conns_def close_code_def)
  then show ?thesis using w gone by (simp add: e expireWindow_tables LookupWindow_def)
qed

theorem expireWindow_after_reap_witness:
  "let r = (ex_relay [])\<lparr>rl_now := 5 * minute\<rparr>;
       r1 = r\<lparr>rl_store := snd (WindowForHost (ex_id 1) (5 * minute) ex_store)\<rparr> in
   mget (rl_conns (expireWindow (ex_id 4) r1)) 2 = Some ex_pairer
   \<and> mget (rl_conns (expireWindow (ex_id 4) r)) 2 = Some (conn_close 4410 ''window_closed'' ex_pairer)"
  using expireWindow_after_reap [of "(ex_relay [])\<lparr>rl_now := 5 * minute\<rparr>" "ex_id 4" ex_window]
  by (simp add: store_invD(2) [OF ex_store_inv] Let_def)

section \<open>Idle bindings\<close>

lemma run_rebind:
  "handleHostWS_admit ex_va ((ex_req [] JNull)\<lparr>rq_auth := ''Bearer fake-mallory''\<rparr>) (run2\<lparr>rl_now := 31 * 24 * hour\<rparr>)
   = (Inr (''mallory'', ex_id 1), run2\<lparr>rl_now := 31 * 24 * hour, rl_store := (rl_store run2)\<lparr>ms_bindings :=
       [(ex_id 1, \<lparr>bd_HostID = ex_id 1, bd_AccountSub = ''mallory'', bd_BoundAt = 31 * 24 * hour,
          bd_LastAttachAt = 31 * 24 * hour\<rparr>)]\<rparr>\<rparr>)"
proof -
  let ?req = "(ex_req [] JNull)\<lparr>rq_auth := ''Bearer fake-mallory''\<rparr>"
  have q: "\<not> q_Has ?req ''channel''" "q_Get ?req ''host_id'' = ex_id 1"
    by (simp_all add: ex_req_def q_Has_def q_Get_def)
  moreover have "bearerSub ex_va ?req = Inr ''mallory''"
    by (simp add: bearerSub_def ex_req_def tokenQueryParams_def q_Has_def strip_def TestOnlySubjectValidator_def)
  ultimately show ?thesis
    by (simp add: handleHostWS_admit_def BindHost_def bindingLocked_def run_defs mput_def mget_def mdel_def
        hostHasPairingsLocked_def mvals_def time_sub_def max_duration_def min_duration_def DefaultBindingIdleReap_def Let_def)
qed

text \<open>The idle horizon of a binding without pairings runs from the last attach or detach, and an
  attached, heartbeating connection does not extend it: there is a reachable state in which two
  accounts hold open host connections under the same host id.\<close>

theorem attached_host_rebound:
  "\<exists>S i j w v. reachable S \<and> conns_of (rl_hostConns (sy_relay S)) (ex_id 1) = [i, j]
     \<and> mget (rl_conns (sy_relay S)) i = Some w \<and> wc_sub w = ''alice'' \<and> wc_closed w = None
     \<and> mget (rl_conns (sy_relay S)) j = Some v \<and> wc_sub v = ''mallory'' \<and> wc_closed v = None"
proof -
  let ?r = "run2\<lparr>rl_now := 31 * 24 * hour\<rparr>"
  let ?s = "(rl_store run2)\<lparr>ms_bindings := [(ex_id 1, \<lparr>bd_HostID = ex_id 1, bd_AccountSub = ''mallory'',
      bd_BoundAt = 31 * 24 * hour, bd_LastAttachAt = 31 * 24 * hour\<rparr>)]\<rparr>"
  let ?r1 = "run2\<lparr>rl_now := 31 * 24 * hour, rl_store := ?s\<rparr>"
  let ?S = "(ex_sys ?r)\<lparr>sy_relay := ?r1, sy_tickets := [HostTicket ''mallory'' (ex_id 1)]\<rparr>"
  have "rl_now run2 = 0" by (simp add: run_defs)
  then have "reachable (ex_sys ?r)" using reachable_later [OF reachable_run2, of "31 * 24 * hour"] by (simp add: ex_sys_def)
  moreover have "sys_step (ex_sys ?r) ((ex_sys ?r)\<lparr>sy_relay := ?r1,
      sy_tickets := HostTicket ''mallory'' (ex_id 1) # sy_tickets (ex_sys ?r)\<rparr>)"
    by (rule sys_step.host_admit, unfold ex_sys_def System.select_convs, rule run_rebind)
  then have "sys_step (ex_sys ?r) ?S" by (simp add: ex_sys_def)
  ultimately have 1: "reachable ?S" by (rule reachable_step)
  obtain i r' where j: "handleHostWS_join ''mallory'' (ex_id 1) ?r1 = (i, r')" by fastforce
  have "sys_step ?S (?S\<lparr>sy_relay := r', sy_tickets := remove1 (HostTicket ''mallory'' (ex_id 1)) (sy_tickets ?S),
      sy_running := (i, []) # sy_running ?S\<rparr>)"
    using j by (intro sys_step.host_join) simp_all
  from reachable_step [OF 1 this] have "reachable (?S\<lparr>sy_relay := r', sy_tickets := [], sy_running := (i, []) # sy_running ?S\<rparr>)"
    by simp
  moreover have "conns_of (rl_hostConns r') (ex_id 1) = [0, 1]" "mget (rl_conns r') 0 = Some ex_host"
    "mget (rl_conns r') 1 = Some (host_conn ''mallory'' (ex_id 1))"
    using j by (auto simp: handleHostWS_join_def add_conn_def touchHost_def PairingsForHost_def LookupHostPresence_def
      PutHostPresence_def upd_store_def run_defs mput_def mget_def mvals_def conns_add_def conns_of_def host_conn_def)
  moreover have "wc_sub ex_host = ''alice''" "wc_closed ex_host = None" "wc_sub (host_conn ''mallory'' (ex_id 1)) = ''mallory''"
    "wc_closed (host_conn ''mallory'' (ex_id 1)) = None"
    by (simp_all add: ex_host_def host_conn_def newWSConn_def)
  ultimately show ?thesis by fastforce
qed

section \<open>Requests without a valid token\<close>

text \<open>C26. A request that does not authenticate changes nothing and learns nothing. Whatever the route, the
  whole relay, the rate limiter included, stays as it was; every route but the two health probes
  (\<open>/healthz\<close>, \<open>/readyz\<close>) answers with the same error, 401 or 503; and the probes, which take no token,
  answer one of two fixed texts that say nothing of the relay's state.\<close>

theorem unauthenticated_no_effect:
  assumes "bearerSub va req = Inl ec"
  shows "respond va ready req id1 id2 rt r =
      (Inl (if rt = RouteHealthz then text_response 200 ''ok''
            else if rt = RouteReadyz then (if ready = Some False then text_response 503 ''not ready'' else text_response 200 ''ok'')
            else writeError ec bearer_msg), r)
    \<and> rp_Status (writeError ec bearer_msg) \<in> {401, 503}"
proof -
  have "ec = CodeUnauthenticated \<or> ec = CodeAuthUnavailable"
    using assms by (auto simp: bearerSub_def split: if_splits option.splits sum.splits token_error.splits)
  then have status: "rp_Status (writeError ec bearer_msg) \<in> {401, 503}" by (auto simp: writeError_def writeErrorRetry_def)
  have rest: "serve va req call r = (writeError ec bearer_msg, r)" for call
    using assms by (cases call) (simp_all add: handleOpenWindow_def handleCloseWindow_def handleCreatePairing_def
        handlePatchPairing_def handleDeletePairing_def handleMailboxGet_def handleAPNSRegister_def)
  show ?thesis
    using assms status by (cases rt) (simp_all add: rest handleHostWS_admit_def handleDeviceWS_admit_def handleReadyz_def split: option.split bool.split)
qed

theorem unauthenticated_no_effect_witness:
  "respond ex_va None ((ex_req (ex_id 10) JNull)\<lparr>rq_auth := ''Bearer forged''\<rparr>) [] [] (RouteRest (\<lambda>_ _. CallDeletePairing)) (ex_relay [1])
    = (Inl (writeError CodeUnauthenticated bearer_msg), ex_relay [1])"
proof -
  have "bearerSub ex_va ((ex_req (ex_id 10) JNull)\<lparr>rq_auth := ''Bearer forged''\<rparr>) = Inl CodeUnauthenticated"
    by (simp add: bearerSub_def ex_req_def tokenQueryParams_def q_Has_def strip_def TestOnlySubjectValidator_def)
  from unauthenticated_no_effect [OF this, of None "[]" "[]" "RouteRest (\<lambda>_ _. CallDeletePairing)" "ex_relay [1]"] show ?thesis by simp
qed

end
