(* ===== verification/Seq.thy ===== *)
theory Seq
  imports Prelude
begin

text \<open>
  \<open>e2ekit/seq.go\<close>: the receive-side high-water mark of one direction of a pairing. The
  sequence number is a \<open>uint64\<close> and every comparison and increment is the machine's, so the
  wrap of \<open>lastSeen + 1\<close> at the top of the range is part of the model. A call of
  \<open>AcceptMailbox\<close> during a session panics in the code; the panic is a value of the error type.
\<close>

datatype seq_error = ErrSeqRegression | ErrSeqGap | ErrPlaintextNonzeroSeq | ErrAEADSeqZero
  | PanicDrainInSession

record SeqTracker =
  lastSeen :: uint64
  inSession :: bool

definition CheckFrameClass :: "uint64 \<Rightarrow> bool \<Rightarrow> seq_error option" where
  "CheckFrameClass seq plaintextBody =
     (if plaintextBody \<and> seq \<noteq> 0 then Some ErrPlaintextNonzeroSeq
      else if \<not> plaintextBody \<and> seq = 0 then Some ErrAEADSeqZero else None)"

definition NewSeqTracker :: "uint64 \<Rightarrow> SeqTracker" where
  "NewSeqTracker ls = \<lparr>lastSeen = ls, inSession = False\<rparr>"

definition LastSeen :: "SeqTracker \<Rightarrow> uint64" where
  "LastSeen t = lastSeen t"

definition StartSession :: "SeqTracker \<Rightarrow> SeqTracker" where
  "StartSession t = t\<lparr>inSession := False\<rparr>"

definition Accept :: "uint64 \<Rightarrow> SeqTracker \<Rightarrow> (seq_error + bool) \<times> SeqTracker" where
  "Accept seq t = (case CheckFrameClass seq False of Some e \<Rightarrow> (Inl e, t)
     | None \<Rightarrow>
       if seq \<le> lastSeen t then (Inl ErrSeqRegression, t)
       else if \<not> inSession t then
         (Inr (lastSeen t + 1 < seq), t\<lparr>lastSeen := seq, inSession := True\<rparr>)
       else if seq \<noteq> lastSeen t + 1 then (Inl ErrSeqGap, t)
       else (Inr False, t\<lparr>lastSeen := seq\<rparr>))"

definition AcceptMailbox :: "uint64 \<Rightarrow> SeqTracker \<Rightarrow> (seq_error + bool) \<times> SeqTracker" where
  "AcceptMailbox seq t =
     (if inSession t then (Inl PanicDrainInSession, t)
      else if seq = 0 then (Inl ErrAEADSeqZero, t)
      else if seq \<le> lastSeen t then (Inl ErrSeqRegression, t)
      else (Inr (lastSeen t + 1 < seq), t\<lparr>lastSeen := seq\<rparr>))"

section \<open>Runs of a tracker\<close>

text \<open>The three calls a receiver makes, and the sequence numbers a run of them accepts. The flag
  of an accepted number is the reconcile (or gap) flag the call returned.\<close>

datatype seq_call = CallAccept uint64 | CallMailbox uint64 | CallStart

fun seq_call_step :: "seq_call \<Rightarrow> SeqTracker \<Rightarrow> (uint64 \<times> bool) option \<times> SeqTracker" where
  "seq_call_step (CallAccept q) t =
     (case Accept q t of (Inr b, t') \<Rightarrow> (Some (q, b), t') | (Inl _, t') \<Rightarrow> (None, t'))"
| "seq_call_step (CallMailbox q) t =
     (case AcceptMailbox q t of (Inr b, t') \<Rightarrow> (Some (q, b), t') | (Inl _, t') \<Rightarrow> (None, t'))"
| "seq_call_step CallStart t = (None, StartSession t)"

fun seq_run :: "seq_call list \<Rightarrow> SeqTracker \<Rightarrow> (uint64 \<times> bool) list \<times> SeqTracker" where
  "seq_run [] t = ([], t)"
| "seq_run (c # cs) t =
     (let (r, t1) = seq_call_step c t; (acc, t2) = seq_run cs t1
      in (case r of None \<Rightarrow> acc | Some a \<Rightarrow> a # acc, t2))"

lemma Accept_cases:
  "Accept q t =
     (if q = 0 then (Inl ErrAEADSeqZero, t)
      else if q \<le> lastSeen t then (Inl ErrSeqRegression, t)
      else if inSession t \<and> q \<noteq> lastSeen t + 1 then (Inl ErrSeqGap, t)
      else (Inr (lastSeen t + 1 < q), t\<lparr>lastSeen := q, inSession := True\<rparr>))"
  by (simp add: Accept_def CheckFrameClass_def)

lemma unat_Suc_below: "(l :: uint64) < q \<Longrightarrow> unat (l + 1) = unat l + 1"
proof -
  assume "l < q"
  then have "unat l < unat q" by (simp add: word_less_nat_alt)
  moreover have "unat q < 2 ^ 64" using unsigned_less [of q] by simp
  ultimately have "unat l + 1 < 2 ^ 64" by linarith
  then show ?thesis by (simp add: unat_word_ariths)
qed

lemma seq_call_step_cases:
  obtains (refused) t' where "seq_call_step c t = (None, t')" "lastSeen t' = lastSeen t"
  | (accepted) q t' where "seq_call_step c t = (Some (q, lastSeen t + 1 < q), t')"
      "lastSeen t < q" "lastSeen t' = q" "inSession t \<Longrightarrow> q = lastSeen t + 1"
proof (cases c)
  case (CallAccept q)
  show thesis
  proof (cases "q = 0 \<or> q \<le> lastSeen t \<or> inSession t \<and> q \<noteq> lastSeen t + 1")
    case True
    with CallAccept show thesis by (intro refused [of t]) (auto simp: Accept_cases)
  next
    case False
    with CallAccept show thesis
      by (intro accepted [of q "t\<lparr>lastSeen := q, inSession := True\<rparr>"]) (auto simp: Accept_cases)
  qed
next
  case (CallMailbox q)
  show thesis
  proof (cases "inSession t \<or> q = 0 \<or> q \<le> lastSeen t")
    case True
    with CallMailbox show thesis by (intro refused [of t]) (auto simp: AcceptMailbox_def)
  next
    case False
    with CallMailbox show thesis
      by (intro accepted [of q "t\<lparr>lastSeen := q\<rparr>"]) (auto simp: AcceptMailbox_def)
  qed
next
  case CallStart
  then show thesis by (intro refused [of "StartSession t"]) (auto simp: StartSession_def)
qed

lemma seq_run_increasing:
  "seq_run cs t = (acc, t') \<Longrightarrow>
     sorted_wrt (<) (lastSeen t # map fst acc) \<and> lastSeen t' = last (lastSeen t # map fst acc)"
proof (induction cs arbitrary: t acc t')
  case (Cons c cs)
  obtain r t1 where s: "seq_call_step c t = (r, t1)" by fastforce
  obtain acc1 where a: "seq_run cs t1 = (acc1, t')" and acc: "acc = (case r of None \<Rightarrow> acc1 | Some x \<Rightarrow> x # acc1)"
    using Cons.prems s by (auto split: prod.splits)
  note IH = Cons.IH [OF a]
  show ?case
  proof (cases rule: seq_call_step_cases [of c t])
    case (refused t2)
    with s acc IH show ?thesis by simp
  next
    case (accepted q t2)
    then have "r = Some (q, lastSeen t + 1 < q)" "t1 = t2" using s by simp_all
    with acc accepted(3) have e: "acc = (q, lastSeen t + 1 < q) # acc1" "lastSeen t1 = q" by simp_all
    with IH have IH': "\<forall>x \<in> set (map fst acc1). q < x" "sorted_wrt (<) (map fst acc1)"
      "lastSeen t' = last (q # map fst acc1)" by simp_all
    have "\<forall>x \<in> set (map fst acc1). lastSeen t < x"
      using IH'(1) accepted(2) by (metis order.strict_trans)
    with e accepted(2) IH' show ?thesis by simp
  qed
qed simp

lemma sorted_wrt_less_distinct: "sorted_wrt (<) (xs :: uint64 list) \<Longrightarrow> distinct xs"
  using strict_sorted_iff by blast

text \<open>C37. Whatever a peer sends and however reconnects interleave with mailbox drains,
  the sequence numbers a tracker accepts are strictly increasing and lie above the persisted
  mark it started from, so no number is ever accepted twice, not even at the top of the 64-bit
  range; and the mark it would persist is the last number accepted.\<close>

theorem seq_tracker_no_replay:
  assumes "seq_run cs (NewSeqTracker mark) = (acc, t)"
  shows "distinct (mark # map fst acc) \<and> sorted_wrt (<) (mark # map fst acc)
    \<and> LastSeen t = last (mark # map fst acc)"
  using seq_run_increasing [OF assms] sorted_wrt_less_distinct
  by (auto simp: NewSeqTracker_def LastSeen_def)

theorem seq_tracker_no_replay_witness:
  "map fst (fst (seq_run [CallMailbox 3, CallMailbox 3, CallAccept 7, CallMailbox 9, CallAccept 8,
      CallAccept 10, CallStart, CallAccept 10] (NewSeqTracker 2))) = [3, 7, 8, 10]
   \<and> distinct [2 :: uint64, 3, 7, 8, 10]"
proof -
  let ?cs = "[CallMailbox 3, CallMailbox 3, CallAccept 7, CallMailbox 9, CallAccept 8,
      CallAccept 10, CallStart, CallAccept 10]"
  have r: "seq_run ?cs (NewSeqTracker 2)
      = ([(3, False), (7, True), (8, False), (10, True)], \<lparr>lastSeen = 10, inSession = True\<rparr>)"
    by code_simp
  from seq_tracker_no_replay [OF r] show ?thesis unfolding r by simp
qed

text \<open>The two regimes of \<open>Accept\<close>, branch by branch. In a session exactly the successor of the
  mark is accepted; at a session start any number above the mark is, and the reconcile flag is set
  exactly when numbers in between were skipped. An error leaves the tracker as it was.\<close>

theorem Accept_regimes:
  "Accept q t =
     (if q = 0 then (Inl ErrAEADSeqZero, t)
      else if q \<le> lastSeen t then (Inl ErrSeqRegression, t)
      else if \<not> inSession t then
        (Inr (\<exists>s. lastSeen t < s \<and> s < q), t\<lparr>lastSeen := q, inSession := True\<rparr>)
      else if unat q = unat (lastSeen t) + 1 then (Inr False, t\<lparr>lastSeen := q\<rparr>)
      else (Inl ErrSeqGap, t))"
proof (cases "lastSeen t < q")
  case lt: True
  note u = unat_Suc_below [OF lt]
  then have "q = lastSeen t + 1 \<longleftrightarrow> unat q = unat (lastSeen t) + 1"
    by (metis word_unat_eq_iff)
  moreover have "lastSeen t + 1 < q \<longleftrightarrow> (\<exists>s. lastSeen t < s \<and> s < q)"
  proof
    assume "lastSeen t + 1 < q"
    moreover have "lastSeen t < lastSeen t + 1" by (simp add: word_less_nat_alt u)
    ultimately show "\<exists>s. lastSeen t < s \<and> s < q" by blast
  next
    assume "\<exists>s. lastSeen t < s \<and> s < q"
    then obtain s where "lastSeen t < s" "s < q" by blast
    then show "lastSeen t + 1 < q" unfolding word_less_nat_alt u by linarith
  qed
  ultimately show ?thesis using lt by (auto simp: Accept_cases not_le)
next
  case False
  then show ?thesis by (auto simp: Accept_cases not_less)
qed

end
