(* ===== verification/Schedule.thy ===== *)
theory Schedule
  imports Json AD
begin

unbundle bit_operations_syntax

text \<open>
  The key agreement and key schedule of the endpoints: \<open>e2ekit/kx.go\<close>, \<open>e2ekit/schedule.go\<close> and
  the mailbox construction of \<open>e2ekit/mailbox.go\<close>. The primitives live in
  \<open>golang.org/x/crypto\<close>, outside the repository, and are the fields of the record \<open>primitives\<close>
  every definition takes; randomness is the value \<open>rand.Read\<close> delivered (None is its error).
  What a theorem needs of a primitive is a named hypothesis (\<open>x25519_commutes\<close>, \<open>aead_opens\<close>, \<open>aead_tidy\<close>).
  Fixed-size arrays are lists; the theorems state the lengths where they matter.
\<close>

section \<open>Primitives\<close>

record primitives =
  X25519 :: "bytes \<Rightarrow> bytes \<Rightarrow> bytes option"
  blake2b :: "nat \<Rightarrow> bytes \<Rightarrow> bytes \<Rightarrow> bytes"
  HChaCha20 :: "bytes \<Rightarrow> bytes \<Rightarrow> bytes"
  chacha20 :: "bytes \<Rightarrow> bytes \<Rightarrow> nat \<Rightarrow> byte"
  poly1305 :: "bytes \<Rightarrow> bytes \<Rightarrow> bytes"
  xchacha_Seal :: "bytes \<Rightarrow> bytes \<Rightarrow> bytes \<Rightarrow> bytes \<Rightarrow> bytes"
  xchacha_Open :: "bytes \<Rightarrow> bytes \<Rightarrow> bytes \<Rightarrow> bytes \<Rightarrow> bytes option"

text \<open>\<open>curve25519.Basepoint\<close>: the little-endian encoding of 9.\<close>

definition Basepoint :: bytes where
  "Basepoint = 9 # replicate 31 0"

definition x25519_commutes :: "primitives \<Rightarrow> bool" where
  "x25519_commutes cr \<longleftrightarrow> (\<forall>a b p q. X25519 cr a Basepoint = Some p \<longrightarrow> X25519 cr b Basepoint = Some q
     \<longrightarrow> X25519 cr a q = X25519 cr b p)"

definition aead_opens :: "primitives \<Rightarrow> bool" where
  "aead_opens cr \<longleftrightarrow> (\<forall>k n pt ad. xchacha_Open cr k n (xchacha_Seal cr k n pt ad) ad = Some pt)"

text \<open>\<open>Open\<close> compares the tag it computes of nonce, associated data and ciphertext with the one received, and
  decrypts by the inverse of the key stream: what it accepts is what \<open>Seal\<close> makes of the result
  (RFC 8439, 2.8).\<close>

definition aead_tidy :: "primitives \<Rightarrow> bool" where
  "aead_tidy cr \<longleftrightarrow> (\<forall>k n ct ad pt. xchacha_Open cr k n ct ad = Some pt \<longrightarrow> ct = xchacha_Seal cr k n pt ad)"

section \<open>Key exchange (kx.go)\<close>

datatype kx_error = KXSeedLength | KXLowOrder | KXRandom

definition KXSeedKeypair :: "primitives \<Rightarrow> bytes \<Rightarrow> kx_error + bytes \<times> bytes" where
  "KXSeedKeypair cr seed =
     (if length seed \<noteq> 32 then Inl KXSeedLength
      else let sk = blake2b cr 32 [] seed in
        case X25519 cr sk Basepoint of None \<Rightarrow> Inl KXLowOrder | Some p \<Rightarrow> Inr (p, sk))"

definition NewKXKeypair :: "primitives \<Rightarrow> bytes option \<Rightarrow> kx_error + bytes \<times> bytes" where
  "NewKXKeypair cr rand = (case rand of None \<Rightarrow> Inl KXRandom | Some seed \<Rightarrow> KXSeedKeypair cr seed)"

definition kxSessionHash :: "primitives \<Rightarrow> bytes \<Rightarrow> bytes \<Rightarrow> bytes \<Rightarrow> bytes" where
  "kxSessionHash cr q clientPK serverPK = blake2b cr 64 [] (q @ clientPK @ serverPK)"

definition KXClientSessionKeys :: "primitives \<Rightarrow> bytes \<Rightarrow> bytes \<Rightarrow> bytes \<Rightarrow> kx_error + bytes \<times> bytes" where
  "KXClientSessionKeys cr clientPK clientSK serverPK =
     (case X25519 cr clientSK serverPK of None \<Rightarrow> Inl KXLowOrder
      | Some q \<Rightarrow> let keys = kxSessionHash cr q clientPK serverPK in
          Inr (take 32 keys, take 32 (drop 32 keys)))"

definition KXServerSessionKeys :: "primitives \<Rightarrow> bytes \<Rightarrow> bytes \<Rightarrow> bytes \<Rightarrow> kx_error + bytes \<times> bytes" where
  "KXServerSessionKeys cr serverPK serverSK clientPK =
     (case X25519 cr serverSK clientPK of None \<Rightarrow> Inl KXLowOrder
      | Some q \<Rightarrow> let keys = kxSessionHash cr q clientPK serverPK in
          Inr (take 32 (drop 32 keys), take 32 keys))"

record Roots =
  root_H2D :: bytes
  root_D2H :: bytes

definition DeviceRoots :: "primitives \<Rightarrow> bytes \<Rightarrow> bytes \<Rightarrow> bytes \<Rightarrow> kx_error + Roots" where
  "DeviceRoots cr devPK devSK hostPK =
     (case KXClientSessionKeys cr devPK devSK hostPK of Inl e \<Rightarrow> Inl e
      | Inr (rx, tx) \<Rightarrow> Inr \<lparr>root_H2D = rx, root_D2H = tx\<rparr>)"

definition HostRoots :: "primitives \<Rightarrow> bytes \<Rightarrow> bytes \<Rightarrow> bytes \<Rightarrow> kx_error + Roots" where
  "HostRoots cr hostPK hostSK devPK =
     (case KXServerSessionKeys cr hostPK hostSK devPK of Inl e \<Rightarrow> Inl e
      | Inr (rx, tx) \<Rightarrow> Inr \<lparr>root_H2D = tx, root_D2H = rx\<rparr>)"

section \<open>Schedule (schedule.go)\<close>

record Suite =
  Proto :: byte

definition V1 :: Suite where
  "V1 = \<lparr>Proto = 1\<rparr>"

definition ds :: "Suite \<Rightarrow> string \<Rightarrow> bytes" where
  "ds s lbl = str_bytes (''KENAZ-REMOTE-v'' @ nat_str (unat (Proto s)) @ '':'' @ lbl)"

definition dsPair :: "Suite \<Rightarrow> bytes" where "dsPair s = ds s ''pair-mac''"
definition dsH2D :: "Suite \<Rightarrow> bytes" where "dsH2D s = ds s ''session:h2d''"
definition dsD2H :: "Suite \<Rightarrow> bytes" where "dsD2H s = ds s ''session:d2h''"
definition dsMbx :: "Suite \<Rightarrow> bytes" where "dsMbx s = ds s ''mailbox:h2d''"
definition dsConfirm :: "Suite \<Rightarrow> bytes" where "dsConfirm s = ds s ''confirm''"
definition dsAcct :: "Suite \<Rightarrow> bytes" where "dsAcct s = ds s ''account-bind''"

definition keyedHash32 :: "primitives \<Rightarrow> bytes \<Rightarrow> bytes list \<Rightarrow> bytes" where
  "keyedHash32 cr key parts = blake2b cr 32 key (concat parts)"

definition TranscriptLen :: nat where
  "TranscriptLen = 97"

definition Transcript :: "Suite \<Rightarrow> bytes \<Rightarrow> bytes \<Rightarrow> bytes \<Rightarrow> bytes \<Rightarrow> bytes" where
  "Transcript s hostID deviceID nD nH = [Proto s] @ hostID @ deviceID @ nD @ nH"

record SessionKeysT =
  sk_H2D :: bytes
  sk_D2H :: bytes
  sk_ConfH :: bytes
  sk_ConfD :: bytes

definition SessionKeys :: "primitives \<Rightarrow> Suite \<Rightarrow> Roots \<Rightarrow> bytes \<Rightarrow> SessionKeysT" where
  "SessionKeys cr s r t = \<lparr>
     sk_H2D = keyedHash32 cr (root_H2D r) [dsH2D s, t],
     sk_D2H = keyedHash32 cr (root_D2H r) [dsD2H s, t],
     sk_ConfH = keyedHash32 cr (root_H2D r) [dsConfirm s, t],
     sk_ConfD = keyedHash32 cr (root_D2H r) [dsConfirm s, t]\<rparr>"

definition MailboxKey :: "primitives \<Rightarrow> Suite \<Rightarrow> Roots \<Rightarrow> bytes \<Rightarrow> bytes \<Rightarrow> bytes" where
  "MailboxKey cr s r hostID deviceID =
     keyedHash32 cr (root_H2D r) [dsMbx s, [Proto s], hostID, deviceID]"

definition MacPair :: "primitives \<Rightarrow> Suite \<Rightarrow> bytes \<Rightarrow> bytes \<Rightarrow> bytes \<Rightarrow> bytes \<Rightarrow> bytes \<Rightarrow> bytes \<Rightarrow> bytes \<Rightarrow> bytes" where
  "MacPair cr s token hostID hostPK deviceID devPK nD accountBind =
     keyedHash32 cr token
       [dsPair s, [Proto s], hostID, hostPK, deviceID, devPK, nD, accountBind]"

definition AccountBind :: "primitives \<Rightarrow> Suite \<Rightarrow> bytes \<Rightarrow> string \<Rightarrow> bytes" where
  "AccountBind cr s hostPK sub =
     take 16 (blake2b cr 32 [] (dsAcct s @ hostPK @ str_bytes sub))"

definition VerifyMAC :: "bytes \<Rightarrow> bytes \<Rightarrow> bool" where
  "VerifyMAC want got \<longleftrightarrow> (if length want \<noteq> length got then False else want = got)"

section \<open>Mailbox frames (mailbox.go)\<close>

definition MailboxNonceLen :: nat where
  "MailboxNonceLen = 24"

definition SealMailbox :: "primitives \<Rightarrow> bytes \<Rightarrow> bytes \<Rightarrow> bytes \<Rightarrow> bytes \<Rightarrow> bytes" where
  "SealMailbox cr kMbx nonce plaintext ad = xchacha_Seal cr kMbx nonce plaintext ad"

text \<open>None is the error of \<open>rand.Read\<close>, and in the opening direction
  \<open>ErrMailboxDecryptFailed\<close>.\<close>

definition SealMailboxFrame :: "primitives \<Rightarrow> bytes option \<Rightarrow> bytes \<Rightarrow> bytes \<Rightarrow> bytes \<Rightarrow> bytes option" where
  "SealMailboxFrame cr rand kMbx plaintext ad =
     (case rand of None \<Rightarrow> None
      | Some nonce \<Rightarrow> Some (nonce @ SealMailbox cr kMbx nonce plaintext ad))"

definition OpenMailbox :: "primitives \<Rightarrow> bytes \<Rightarrow> bytes \<Rightarrow> bytes \<Rightarrow> bytes \<Rightarrow> bytes option" where
  "OpenMailbox cr kMbx nonce ciphertext ad = xchacha_Open cr kMbx nonce ciphertext ad"

definition OpenMailboxFrame :: "primitives \<Rightarrow> bytes \<Rightarrow> bytes \<Rightarrow> bytes \<Rightarrow> bytes option" where
  "OpenMailboxFrame cr kMbx body ad =
     (if length body < MailboxNonceLen then None
      else OpenMailbox cr kMbx (take 24 body) (drop 24 body) ad)"

section \<open>Domain separation\<close>

text \<open>The six labels; no label is a prefix of another, and the decimal protocol version is ended
  by a colon, so what is hashed under a key tells the version, the purpose and the rest apart.\<close>

definition ds_labels :: "string list" where
  "ds_labels = [''pair-mac'', ''session:h2d'', ''session:d2h'', ''mailbox:h2d'', ''confirm'',
     ''account-bind'']"

lemma digits_split:
  "list_all is_digit a \<Longrightarrow> list_all is_digit b \<Longrightarrow> a @ CHR '':'' # x = b @ CHR '':'' # y \<Longrightarrow> a = b \<and> x = y"
proof (induction a arbitrary: b)
  case Nil
  then show ?case by (cases b) (auto simp: is_digit_def)
next
  case (Cons c a)
  then show ?case by (cases b) (auto simp: is_digit_def)
qed

lemma nat_str_inj: "nat_str a = nat_str b \<Longrightarrow> a = b"
  by (metis digits_val_nat_str)

lemma ds_labels_no_prefix: "\<forall>t \<in> set ds_labels. \<forall>t' \<in> set ds_labels. prefix t t' \<longrightarrow> t = t'"
  by (simp add: ds_labels_def)

lemma ds_labels_prefix_free:
  assumes "t \<in> set ds_labels" "t' \<in> set ds_labels" "t @ x = t' @ y"
  shows "t = t' \<and> x = y"
proof -
  have "prefix t t' \<or> prefix t' t" using assms(3) by (metis prefixI prefix_same_cases)
  then have "t = t'" using ds_labels_no_prefix assms(1,2) by blast
  with assms(3) show ?thesis by simp
qed

lemma ds_unique:
  assumes "t \<in> set ds_labels" "t' \<in> set ds_labels" and eq: "ds s t @ x = ds s' t' @ y"
  shows "s = s' \<and> t = t' \<and> x = y"
proof -
  have "bytes_str (ds s t @ x) = bytes_str (ds s' t' @ y)" using eq by simp
  then have "nat_str (unat (Proto s)) @ CHR '':'' # (t @ bytes_str x)
      = nat_str (unat (Proto s')) @ CHR '':'' # (t' @ bytes_str y)"
    unfolding ds_def bytes_str_append bytes_str_str_bytes by simp
  from digits_split [OF nat_str_digits nat_str_digits this]
  have p: "nat_str (unat (Proto s)) = nat_str (unat (Proto s'))"
    and r: "t @ bytes_str x = t' @ bytes_str y" by simp_all
  have "Proto s = Proto s'" using nat_str_inj [OF p] by (simp add: word_unat_eq_iff)
  moreover have "t = t' \<and> bytes_str x = bytes_str y"
    using ds_labels_prefix_free [OF assms(1,2) r] .
  ultimately show ?thesis using bytes_str_inj by (cases s, cases s') auto
qed

lemmas ds_defs = dsPair_def dsH2D_def dsD2H_def dsMbx_def dsConfirm_def dsAcct_def

lemma ds_label_mem [simp]: "''pair-mac'' \<in> set ds_labels" "''session:h2d'' \<in> set ds_labels"
  "''session:d2h'' \<in> set ds_labels" "''mailbox:h2d'' \<in> set ds_labels" "''confirm'' \<in> set ds_labels"
  "''account-bind'' \<in> set ds_labels"
  by (simp_all add: ds_labels_def)

text \<open>A collision of the keyed hash: two different messages with one digest.\<close>

definition collision :: "primitives \<Rightarrow> bytes \<Rightarrow> bool" where
  "collision cr key \<longleftrightarrow> (\<exists>a b. a \<noteq> b \<and> blake2b cr 32 key a = blake2b cr 32 key b)"

lemma keyedHash32_eqD:
  "keyedHash32 cr key ps = keyedHash32 cr key qs \<Longrightarrow> \<not> collision cr key \<Longrightarrow> concat ps = concat qs"
  unfolding keyedHash32_def collision_def by blast

section \<open>Theorems\<close>

lemma length_Transcript:
  "length h = 16 \<Longrightarrow> length d = 16 \<Longrightarrow> length a = 32 \<Longrightarrow> length b = 32 \<Longrightarrow>
     length (Transcript s h d a b) = TranscriptLen"
  by (simp add: Transcript_def TranscriptLen_def)

lemma Transcript_inj:
  assumes "length h = 16" "length d = 16" "length a = 32" "length h' = 16" "length d' = 16"
    "length a' = 32" "Transcript s h d a b = Transcript s' h' d' a' b'"
  shows "s = s' \<and> h = h' \<and> d = d' \<and> a = a' \<and> b = b'"
  using assms by (cases s, cases s') (simp add: Transcript_def)

lemma roots_agree:
  assumes "x25519_commutes cr"
    and "KXSeedKeypair cr seedD = Inr (devPK, devSK)" and "KXSeedKeypair cr seedH = Inr (hostPK, hostSK)"
  shows "DeviceRoots cr devPK devSK hostPK = HostRoots cr hostPK hostSK devPK"
proof -
  have "X25519 cr devSK Basepoint = Some devPK" "X25519 cr hostSK Basepoint = Some hostPK"
    using assms(2,3) by (auto simp: KXSeedKeypair_def Let_def split: if_splits option.splits)
  then have "X25519 cr devSK hostPK = X25519 cr hostSK devPK"
    using assms(1) unfolding x25519_commutes_def by blast
  then show ?thesis
    by (simp add: DeviceRoots_def HostRoots_def KXClientSessionKeys_def KXServerSessionKeys_def
        Let_def split: option.splits)
qed

text \<open>The two ends of a pairing derive the same keys. When each side generated its key
  pair with the kit and knows the other's public key, both computations of the directional roots
  succeed or both fail, and when they succeed the host and the device obtain the same traffic
  keys, the same confirmation values and the same mailbox key for every session transcript. The
  hypothesis on X25519 is its Diffie-Hellman law.\<close>

theorem pairing_key_agreement:
  assumes "x25519_commutes cr"
    and "KXSeedKeypair cr seedD = Inr (devPK, devSK)" and "KXSeedKeypair cr seedH = Inr (hostPK, hostSK)"
  shows "isl (DeviceRoots cr devPK devSK hostPK) = isl (HostRoots cr hostPK hostSK devPK)
    \<and> (\<forall>rd rh. DeviceRoots cr devPK devSK hostPK = Inr rd \<longrightarrow> HostRoots cr hostPK hostSK devPK = Inr rh
      \<longrightarrow> SessionKeys cr s rd (Transcript s hostID deviceID nD nH)
            = SessionKeys cr s rh (Transcript s hostID deviceID nD nH)
        \<and> MailboxKey cr s rd hostID deviceID = MailboxKey cr s rh hostID deviceID)"
  using roots_agree [OF assms] by auto

text \<open>A toy instance of the primitives that satisfies the laws the theorems name.\<close>

definition ex_xor :: "bytes \<Rightarrow> bytes \<Rightarrow> bytes" where
  "ex_xor a b = map2 (XOR) a b"

definition ex_crypto :: primitives where
  "ex_crypto = \<lparr>X25519 = (\<lambda>a b. Some (ex_xor a b)),
     blake2b = (\<lambda>n k m. take n (k @ m @ replicate n 0)),
     HChaCha20 = (\<lambda>k h. k), chacha20 = (\<lambda>k n i. 7), poly1305 = (\<lambda>k m. replicate 16 (last (0 # m))),
     xchacha_Seal = (\<lambda>k n pt ad. pt @ k), xchacha_Open = (\<lambda>k n ct ad.
       if drop (length ct - length k) ct = k then Some (take (length ct - length k) ct) else None)\<rparr>"

lemma ex_xor_left_commute: "ex_xor a (ex_xor b c) = ex_xor b (ex_xor a c)"
  by (rule nth_equalityI) (auto simp: ex_xor_def xor.left_commute min.left_commute)

lemma ex_crypto_commutes: "x25519_commutes ex_crypto"
  by (auto simp: x25519_commutes_def ex_crypto_def ex_xor_left_commute)

lemma ex_crypto_aead: "aead_opens ex_crypto"
  by (simp add: aead_opens_def ex_crypto_def)

lemma ex_crypto_tidy: "aead_tidy ex_crypto"
  by (auto simp: aead_tidy_def ex_crypto_def split: if_splits) (metis append_take_drop_id)

definition ex_seed :: "byte \<Rightarrow> bytes" where
  "ex_seed b = replicate 32 b"

definition ex_pk :: "byte \<Rightarrow> bytes" where
  "ex_pk b = ex_xor (ex_seed b) Basepoint"

lemma ex_keypair: "KXSeedKeypair ex_crypto (ex_seed b) = Inr (ex_pk b, ex_seed b)"
  by (simp add: KXSeedKeypair_def ex_crypto_def ex_seed_def ex_pk_def Let_def)

lemma ex_device_roots: "\<exists>rd. DeviceRoots ex_crypto (ex_pk a) (ex_seed a) (ex_pk b) = Inr rd"
  by (simp add: DeviceRoots_def KXClientSessionKeys_def ex_crypto_def Let_def)

lemma ex_host_roots: "\<exists>rh. HostRoots ex_crypto (ex_pk b) (ex_seed b) (ex_pk a) = Inr rh"
  by (simp add: HostRoots_def KXServerSessionKeys_def ex_crypto_def Let_def)

theorem pairing_key_agreement_witness:
  "\<exists>rd rh. DeviceRoots ex_crypto (ex_pk 1) (ex_seed 1) (ex_pk 2) = Inr rd
    \<and> HostRoots ex_crypto (ex_pk 2) (ex_seed 2) (ex_pk 1) = Inr rh
    \<and> MailboxKey ex_crypto V1 rd [3] [4] = MailboxKey ex_crypto V1 rh [3] [4]"
proof -
  obtain rd rh where "DeviceRoots ex_crypto (ex_pk 1) (ex_seed 1) (ex_pk 2) = Inr rd"
    "HostRoots ex_crypto (ex_pk 2) (ex_seed 2) (ex_pk 1) = Inr rh"
    using ex_device_roots ex_host_roots by blast
  with pairing_key_agreement [OF ex_crypto_commutes ex_keypair ex_keypair,
      of 1 2 V1 "[3]" "[4]" "[]" "[]"]
  show ?thesis by blast
qed

text \<open>C35. What a host parks for an absent device, the device opens, and nothing else opens: a mailbox frame
  sealed under the mailbox key the host derives, with any 24-byte nonce, opens to the same
  plaintext under the key the device derives and the same associated data; and whatever body the
  device opens, with whatever associated data, is one that sealing the plaintext it got, under the host's
  key, some 24-byte nonce and that associated data gives. So a body that was changed, sealed under
  another key or for other associated data, or cut, is refused unless it is such a sealing. The
  cipher is assumed to open what it sealed and to accept only what it would have sealed.\<close>

theorem mailbox_frame_end_to_end:
  assumes "x25519_commutes cr" and "aead_opens cr" and "aead_tidy cr"
    and "KXSeedKeypair cr seedD = Inr (devPK, devSK)" and "KXSeedKeypair cr seedH = Inr (hostPK, hostSK)"
    and "DeviceRoots cr devPK devSK hostPK = Inr rd" and "HostRoots cr hostPK hostSK devPK = Inr rh"
  shows "(OpenMailboxFrame cr (MailboxKey cr s rd hostID deviceID) body ad = Some pt) \<longleftrightarrow>
    (\<exists>nonce. length nonce = MailboxNonceLen \<and> SealMailboxFrame cr (Some nonce) (MailboxKey cr s rh hostID deviceID) pt ad = Some body)"
proof -
  have "rd = rh" using roots_agree [OF assms(1,4,5)] assms(6,7) by simp
  moreover have "OpenMailboxFrame cr k body ad = Some pt \<longleftrightarrow>
    (\<exists>nonce. length nonce = MailboxNonceLen \<and> SealMailboxFrame cr (Some nonce) k pt ad = Some body)" for k
  proof
    assume o: "OpenMailboxFrame cr k body ad = Some pt"
    then have "drop 24 body = xchacha_Seal cr k (take 24 body) pt ad" "24 \<le> length body"
      using assms(3) by (auto simp: OpenMailboxFrame_def OpenMailbox_def aead_tidy_def MailboxNonceLen_def split: if_splits)
    moreover from this(1) have "body = take 24 body @ xchacha_Seal cr k (take 24 body) pt ad" by (metis append_take_drop_id)
    ultimately show "\<exists>nonce. length nonce = MailboxNonceLen \<and> SealMailboxFrame cr (Some nonce) k pt ad = Some body"
      by (intro exI [of _ "take 24 body"]) (simp add: SealMailboxFrame_def SealMailbox_def MailboxNonceLen_def)
  qed (use assms(2) in \<open>auto simp: SealMailboxFrame_def OpenMailboxFrame_def MailboxNonceLen_def OpenMailbox_def SealMailbox_def aead_opens_def\<close>)
  ultimately show ?thesis by simp
qed

theorem mailbox_frame_end_to_end_witness:
  "\<exists>rd rh body. DeviceRoots ex_crypto (ex_pk 1) (ex_seed 1) (ex_pk 2) = Inr rd
    \<and> HostRoots ex_crypto (ex_pk 2) (ex_seed 2) (ex_pk 1) = Inr rh
    \<and> SealMailboxFrame ex_crypto (Some (replicate 24 6)) (MailboxKey ex_crypto V1 rh [3] [4]) [10, 11] [] = Some body
    \<and> OpenMailboxFrame ex_crypto (MailboxKey ex_crypto V1 rd [3] [4]) body [] = Some [10, 11]
    \<and> OpenMailboxFrame ex_crypto (MailboxKey ex_crypto V1 rd [3] [4]) (take 23 body) [] \<noteq> Some [10, 11]"
proof -
  obtain rd rh where r: "DeviceRoots ex_crypto (ex_pk 1) (ex_seed 1) (ex_pk 2) = Inr rd"
    "HostRoots ex_crypto (ex_pk 2) (ex_seed 2) (ex_pk 1) = Inr rh"
    using ex_device_roots ex_host_roots by blast
  obtain body where
    b: "SealMailboxFrame ex_crypto (Some (replicate 24 6)) (MailboxKey ex_crypto V1 rh [3] [4]) [10, 11] [] = Some body"
    by (simp add: SealMailboxFrame_def)
  note opens = mailbox_frame_end_to_end [OF ex_crypto_commutes ex_crypto_aead ex_crypto_tidy ex_keypair ex_keypair r,
      of V1 "[3]" "[4]"]
  have n: "length (replicate 24 (6 :: byte)) = MailboxNonceLen" by (simp add: MailboxNonceLen_def)
  have "OpenMailboxFrame ex_crypto (MailboxKey ex_crypto V1 rd [3] [4]) body [] = Some [10, 11]"
    unfolding opens using b n by blast
  moreover have "OpenMailboxFrame ex_crypto (MailboxKey ex_crypto V1 rd [3] [4]) (take 23 body) [] \<noteq> Some [10, 11]"
    unfolding opens by (auto simp: SealMailboxFrame_def MailboxNonceLen_def dest!: arg_cong [where f = length])
  ultimately show ?thesis using r b by blast
qed

text \<open>The pairing MAC binds every field. If two pairing requests under one token carry
  the same MAC, then protocol version, host, host key, device, device key, nonce and account
  binding are all equal, or the two hashed messages are a collision of keyed BLAKE2b. The
  fixed widths of the fields are what makes the concatenation unambiguous.\<close>

theorem MacPair_binds:
  assumes "MacPair cr s token h hp d dp n a = MacPair cr s' token h' hp' d' dp' n' a'"
    and "length h = 16" "length hp = 32" "length d = 16" "length dp = 32" "length n = 32"
    and "length h' = 16" "length hp' = 32" "length d' = 16" "length dp' = 32" "length n' = 32"
  shows "collision cr token
    \<or> s = s' \<and> h = h' \<and> hp = hp' \<and> d = d' \<and> dp = dp' \<and> n = n' \<and> a = a'"
proof (cases "collision cr token")
  case False
  have "dsPair s @ [Proto s] @ h @ hp @ d @ dp @ n @ a
      = dsPair s' @ [Proto s'] @ h' @ hp' @ d' @ dp' @ n' @ a'"
    using keyedHash32_eqD [OF assms(1) [unfolded MacPair_def] False] by simp
  from ds_unique [OF ds_label_mem(1) ds_label_mem(1) this [unfolded dsPair_def]]
  have "s = s'" "[Proto s] @ h @ hp @ d @ dp @ n @ a = [Proto s'] @ h' @ hp' @ d' @ dp' @ n' @ a'"
    by simp_all
  then show ?thesis using assms(2-) by simp
qed simp

theorem MacPair_binds_witness:
  "MacPair ex_crypto V1 (ex_seed 5) (replicate 16 1) (ex_seed 1) (replicate 16 2) (ex_seed 2) (ex_seed 3) []
     = MacPair ex_crypto V1 (ex_seed 5) (replicate 16 9) (ex_seed 1) (replicate 16 2) (ex_seed 2) (ex_seed 3) []
   \<and> collision ex_crypto (ex_seed 5)"
proof -
  have e: "MacPair ex_crypto V1 (ex_seed 5) (replicate 16 1) (ex_seed 1) (replicate 16 2) (ex_seed 2) (ex_seed 3) []
     = MacPair ex_crypto V1 (ex_seed 5) (replicate 16 9) (ex_seed 1) (replicate 16 2) (ex_seed 2) (ex_seed 3) []"
    by (simp add: MacPair_def keyedHash32_def ex_crypto_def ex_seed_def)
  moreover have "replicate 16 (1 :: byte) \<noteq> replicate 16 9"
    by (simp add: replicate_eq_replicate)
  ultimately show ?thesis using MacPair_binds [OF e] by (simp add: ex_seed_def)
qed

end
