(* ===== verification/SecretStream.thy ===== *)
theory SecretStream
  imports Schedule
begin

text \<open>
  \<open>e2ekit/secretstream.go\<close>: the hand-written secretstream construction. A ChaCha20 cipher is a
  key stream read from a position; \<open>cipher\<close> consumes block 0 for the Poly1305 key, so the tag
  block is encrypted at byte 64 and the message at byte 128. The MAC input, the acknowledged
  misaligned padding, the counter's 32-bit little-endian wrap and the rekey rule are as in the
  code; ChaCha20, HChaCha20 and Poly1305 are primitives.
\<close>

datatype stream_error = ErrStreamFinished | ErrDecryptFailed | StreamRandom

record Stream =
  st_k :: bytes
  st_nonce :: bytes
  finished :: bool

definition TagMessage :: byte where "TagMessage = 0"
definition TagPush :: byte where "TagPush = 1"
definition TagRekey :: byte where "TagRekey = 2"
definition TagFinal :: byte where "TagFinal = TagPush OR TagRekey"
definition StreamOverhead :: nat where "StreamOverhead = 17"

definition le_put :: "nat \<Rightarrow> nat \<Rightarrow> bytes" where
  "le_put k n = rev (be_put k n)"

definition le_get :: "bytes \<Rightarrow> nat" where
  "le_get bs = be_get (rev bs)"

text \<open>\<open>XORKeyStream\<close> from byte \<open>off\<close> of the key stream.\<close>

definition XORKeyStream :: "(nat \<Rightarrow> byte) \<Rightarrow> nat \<Rightarrow> bytes \<Rightarrow> bytes" where
  "XORKeyStream ks off src = map2 (\<lambda>i b. b XOR ks (off + i)) [0..<length src] src"

definition newStream :: "primitives \<Rightarrow> bytes \<Rightarrow> bytes \<Rightarrow> Stream" where
  "newStream cr key header = \<lparr>st_k = HChaCha20 cr key (take 16 header),
     st_nonce = [1, 0, 0, 0] @ take 8 (drop 16 header), finished = False\<rparr>"

definition NewPushStream :: "primitives \<Rightarrow> bytes option \<Rightarrow> bytes \<Rightarrow> stream_error + Stream \<times> bytes" where
  "NewPushStream cr rand key = (case rand of None \<Rightarrow> Inl StreamRandom
     | Some header \<Rightarrow> Inr (newStream cr key header, header))"

definition NewPullStream :: "primitives \<Rightarrow> bytes \<Rightarrow> bytes \<Rightarrow> Stream" where
  "NewPullStream cr key header = newStream cr key header"

definition rekey :: "primitives \<Rightarrow> Stream \<Rightarrow> Stream" where
  "rekey cr s = (let buf = XORKeyStream (chacha20 cr (st_k s) (st_nonce s)) 0
                             (st_k s @ drop 4 (st_nonce s))
     in s\<lparr>st_k := take 32 buf, st_nonce := [1, 0, 0, 0] @ drop 32 buf\<rparr>)"

definition advance :: "primitives \<Rightarrow> bytes \<Rightarrow> byte \<Rightarrow> Stream \<Rightarrow> Stream" where
  "advance cr mac tag s =
     (let inonce = map2 (XOR) (drop 4 (st_nonce s)) (take 8 mac);
          ctr = (le_get (take 4 (st_nonce s)) + 1) mod 2 ^ 32;
          s1 = s\<lparr>st_nonce := le_put 4 ctr @ inonce\<rparr>;
          s2 = (if tag AND TagRekey \<noteq> 0 \<or> ctr = 0 then rekey cr s1 else s1)
      in if tag = TagFinal then s2\<lparr>finished := True\<rparr> else s2)"

definition cipher :: "primitives \<Rightarrow> Stream \<Rightarrow> (nat \<Rightarrow> byte) \<times> bytes" where
  "cipher cr s = (let ks = chacha20 cr (st_k s) (st_nonce s)
     in (ks, take 32 (XORKeyStream ks 0 (replicate 64 0))))"

definition pad0 :: "nat \<Rightarrow> bytes" where
  "pad0 n = replicate n 0"

definition macTail :: "nat \<Rightarrow> nat \<Rightarrow> bytes" where
  "macTail adlen mlen = pad0 (mlen mod 16) @ le_put 8 adlen @ le_put 8 (64 + mlen)"

definition pushRaw :: "primitives \<Rightarrow> bytes \<Rightarrow> bytes \<Rightarrow> byte \<Rightarrow> Stream \<Rightarrow> bytes \<times> Stream" where
  "pushRaw cr plaintext ad tag s =
     (let (ks, polyKey) = cipher cr s;
          block = XORKeyStream ks 64 (tag # replicate 63 0);
          ct = XORKeyStream ks 128 plaintext;
          mac = poly1305 cr polyKey (ad @ pad0 ((16 - length ad mod 16) mod 16) @ block @ ct
                  @ macTail (length ad) (length plaintext))
      in (hd block # ct @ mac, advance cr mac tag s))"

definition Stream_Push :: "primitives \<Rightarrow> bytes \<Rightarrow> bytes \<Rightarrow> byte \<Rightarrow> Stream \<Rightarrow> stream_error + bytes \<times> Stream" where
  "Stream_Push cr plaintext ad tag s =
     (if finished s then Inl ErrStreamFinished else Inr (pushRaw cr plaintext ad tag s))"

definition pullRaw :: "primitives \<Rightarrow> bytes \<Rightarrow> bytes \<Rightarrow> Stream \<Rightarrow> stream_error + (bytes \<times> byte) \<times> Stream" where
  "pullRaw cr frame ad s =
     (if length frame < StreamOverhead then Inl ErrDecryptFailed
      else let mlen = length frame - StreamOverhead;
               (ks, polyKey) = cipher cr s;
               block = XORKeyStream ks 64 (hd frame # replicate 63 0);
               tag = hd block;
               ct = take mlen (drop 1 frame);
               mac = poly1305 cr polyKey (ad @ pad0 ((16 - length ad mod 16) mod 16)
                       @ (hd frame # tl block) @ ct @ macTail (length ad) mlen)
           in if mac \<noteq> drop (1 + mlen) frame then Inl ErrDecryptFailed
              else Inr ((XORKeyStream ks 128 ct, tag), advance cr mac tag s))"

definition Stream_Pull :: "primitives \<Rightarrow> bytes \<Rightarrow> bytes \<Rightarrow> Stream \<Rightarrow> stream_error + (bytes \<times> byte) \<times> Stream" where
  "Stream_Pull cr frame ad s = (if finished s then Inl ErrStreamFinished else pullRaw cr frame ad s)"

section \<open>Pull inverts Push\<close>

definition poly1305_tag :: "primitives \<Rightarrow> bool" where
  "poly1305_tag cr \<longleftrightarrow> (\<forall>k m. length (poly1305 cr k m) = 16)"

lemma length_XORKeyStream [simp]: "length (XORKeyStream ks off m) = length m"
  by (simp add: XORKeyStream_def)

lemma nth_XORKeyStream: "i < length m \<Longrightarrow> XORKeyStream ks off m ! i = m ! i XOR ks (off + i)"
  by (simp add: XORKeyStream_def)

lemma XORKeyStream_involution [simp]: "XORKeyStream ks off (XORKeyStream ks off m) = m"
  by (rule nth_equalityI) (simp_all add: nth_XORKeyStream ac_simps)

lemma XORKeyStream_Cons:
  "XORKeyStream ks off (b # m) = (b XOR ks off) # XORKeyStream ks (Suc off) m"
  by (rule nth_equalityI) (auto simp: nth_XORKeyStream nth_Cons split: nat.splits)

lemma xor_flip: "(a :: byte) = b XOR k \<longleftrightarrow> b = a XOR k"
  by (metis xor.assoc xor.comm_neutral xor_self_eq)

lemma pushRaw_eq:
  "pushRaw cr pt ad tag s =
     (let (ks, polyKey) = cipher cr s;
          c = tag XOR ks 64; ct = XORKeyStream ks 128 pt;
          mac = poly1305 cr polyKey (ad @ pad0 ((16 - length ad mod 16) mod 16)
            @ (c # XORKeyStream ks 65 (replicate 63 0)) @ ct @ macTail (length ad) (length pt))
      in (c # ct @ mac, advance cr mac tag s))"
  by (simp add: pushRaw_def XORKeyStream_Cons Let_def split_def)

lemma pull_pushRaw:
  assumes "poly1305_tag cr" "pushRaw cr pt ad tag s = (frame, s')"
  shows "pullRaw cr frame ad s = Inr ((pt, tag), s')"
proof -
  obtain ks pk where c: "cipher cr s = (ks, pk)" by fastforce
  define mac where "mac = poly1305 cr pk (ad @ pad0 ((16 - length ad mod 16) mod 16)
      @ ((tag XOR ks 64) # XORKeyStream ks 65 (replicate 63 0)) @ XORKeyStream ks 128 pt
      @ macTail (length ad) (length pt))"
  have f: "frame = (tag XOR ks 64) # XORKeyStream ks 128 pt @ mac" and s: "s' = advance cr mac tag s"
    using assms(2) by (simp_all add: pushRaw_eq c Let_def mac_def)
  have l: "length mac = 16" using assms(1) by (simp add: poly1305_tag_def mac_def)
  have p: "length frame - 17 = length pt" "drop (1 + length pt) frame = mac" "hd frame = tag XOR ks 64"
    "take (length pt) (drop 1 frame) = XORKeyStream ks 128 pt"
    by (simp_all add: f l)
  have ok: "(length frame < 17) = False" by (simp add: f l)
  show ?thesis
    unfolding pullRaw_def StreamOverhead_def c Let_def prod.case ok p XORKeyStream_Cons list.sel
    by (simp add: mac_def s xor.assoc)
qed

lemma push_pullRaw:
  assumes "pullRaw cr frame ad s = Inr ((pt, tag), s')"
  shows "pushRaw cr pt ad tag s = (frame, s')"
proof -
  obtain ks pk where c: "cipher cr s = (ks, pk)" by fastforce
  let ?m = "length frame - 17"
  have len: "17 \<le> length frame" using assms by (simp add: pullRaw_def StreamOverhead_def split: if_splits)
  then obtain b rest where f: "frame = b # rest" and r: "16 \<le> length rest" by (cases frame) auto
  define ct where "ct = take ?m rest"
  have lct: "length ct = ?m" using f len by (simp add: ct_def)
  define mac where "mac = poly1305 cr pk (ad @ pad0 ((16 - length ad mod 16) mod 16)
      @ (b # XORKeyStream ks 65 (replicate 63 0)) @ ct @ macTail (length ad) ?m)"
  have e: "mac = drop ?m rest" "pt = XORKeyStream ks 128 ct" "tag = b XOR ks 64" "s' = advance cr mac tag s"
    using assms len
    by (auto simp: pullRaw_def c f StreamOverhead_def XORKeyStream_Cons Let_def ct_def mac_def split: if_splits)
  have "rest = ct @ mac" by (simp add: e(1) ct_def)
  then show ?thesis
    using lct by (simp add: pushRaw_eq c Let_def e(2,3) f e(4) mac_def xor.assoc)
qed

text \<open>Opening is exactly the inverse of sealing, in every stream state. A receiver accepts a frame
  under some associated data with a given plaintext and tag, moving to a given state, if and only
  if a sender in the same state sealing that plaintext, data and tag emits exactly that frame and
  moves to that same state. So both ends stay in step for as long as frames arrive in order, what
  was sealed is what is opened, and a frame sealed in another state, with other data or altered in
  transit is accepted only if it is byte for byte a frame this state produces.\<close>

theorem Pull_iff_Push:
  assumes "poly1305_tag cr"
  shows "Stream_Pull cr frame ad s = Inr ((pt, tag), s') \<longleftrightarrow> Stream_Push cr pt ad tag s = Inr (frame, s')"
proof (cases "finished s")
  case False
  then have "Stream_Pull cr frame ad s = Inr ((pt, tag), s') \<longleftrightarrow> pullRaw cr frame ad s = Inr ((pt, tag), s')"
    by (simp add: Stream_Pull_def)
  also have "\<dots> \<longleftrightarrow> pushRaw cr pt ad tag s = (frame, s')"
    by (rule iffI) (erule push_pullRaw, erule pull_pushRaw [OF assms])
  also have "\<dots> \<longleftrightarrow> Stream_Push cr pt ad tag s = Inr (frame, s')" using False by (simp add: Stream_Push_def)
  finally show ?thesis .
qed (simp add: Stream_Pull_def Stream_Push_def)

lemma ex_crypto_poly: "poly1305_tag ex_crypto"
  by (simp add: poly1305_tag_def ex_crypto_def)

theorem Pull_iff_Push_witness:
  "\<exists>frame s'. Stream_Push ex_crypto [1, 2, 3] [9] TagFinal (NewPullStream ex_crypto (ex_seed 1) (replicate 24 4)) = Inr (frame, s')
     \<and> Stream_Pull ex_crypto frame [9] (NewPullStream ex_crypto (ex_seed 1) (replicate 24 4)) = Inr (([1, 2, 3], TagFinal), s')"
proof -
  let ?s = "NewPullStream ex_crypto (ex_seed 1) (replicate 24 4)"
  obtain frame s' where "Stream_Push ex_crypto [1, 2, 3] [9] TagFinal ?s = Inr (frame, s')"
    by (cases "pushRaw ex_crypto [1, 2, 3] [9] TagFinal ?s")
      (simp add: Stream_Push_def NewPullStream_def newStream_def)
  with Pull_iff_Push [OF ex_crypto_poly] show ?thesis by blast
qed

section \<open>Whole sessions\<close>

text \<open>A sender's run over a list of (plaintext, associated data, tag) and a receiver's run over
  the frames that arrive, both stopping at the first error.\<close>

fun push_all :: "primitives \<Rightarrow> (bytes \<times> bytes \<times> byte) list \<Rightarrow> Stream \<Rightarrow> (bytes \<times> bytes) list" where
  "push_all cr [] s = []"
| "push_all cr ((pt, ad, tag) # ms) s =
     (case Stream_Push cr pt ad tag s of Inl _ \<Rightarrow> [] | Inr (f, s') \<Rightarrow> (f, ad) # push_all cr ms s')"

fun pull_all :: "primitives \<Rightarrow> (bytes \<times> bytes) list \<Rightarrow> Stream \<Rightarrow> (bytes \<times> bytes \<times> byte) list" where
  "pull_all cr [] s = []"
| "pull_all cr ((f, ad) # fs) s =
     (case Stream_Pull cr f ad s of Inl _ \<Rightarrow> [] | Inr ((pt, tag), s') \<Rightarrow> (pt, ad, tag) # pull_all cr fs s')"

fun upto_final :: "(bytes \<times> bytes \<times> byte) list \<Rightarrow> (bytes \<times> bytes \<times> byte) list" where
  "upto_final [] = []"
| "upto_final (m # ms) = m # (if snd (snd m) = TagFinal then [] else upto_final ms)"

lemma finished_advance [simp]: "finished (advance cr mac tag s) = (finished s \<or> tag = TagFinal)"
  by (simp add: advance_def Let_def rekey_def)

lemma Push_open: "\<not> finished s \<Longrightarrow> \<exists>f s'. Stream_Push cr pt ad tag s = Inr (f, s') \<and> finished s' = (tag = TagFinal)"
  by (auto simp: Stream_Push_def pushRaw_def Let_def split_def)

lemma push_all_finished: "finished s \<Longrightarrow> push_all cr ms s = []"
  by (cases ms) (auto simp: Stream_Push_def)

lemma pull_all_finished: "finished s \<Longrightarrow> pull_all cr fs s = []"
  by (cases fs) (auto simp: Stream_Pull_def)

lemma pull_push_all:
  assumes "poly1305_tag cr"
  shows "\<not> finished s \<Longrightarrow> junk = [] \<or> (\<exists>m \<in> set ms. snd (snd m) = TagFinal) \<Longrightarrow>
    pull_all cr (push_all cr ms s @ junk) s = upto_final ms"
proof (induction ms arbitrary: s)
  case (Cons m ms)
  obtain pt ad tag where m: "m = (pt, ad, tag)" by (cases m)
  obtain f s' where p: "Stream_Push cr pt ad tag s = Inr (f, s')" and fin: "finished s' = (tag = TagFinal)"
    using Push_open [OF Cons.prems(1)] by blast
  then have raw: "pushRaw cr pt ad tag s = (f, s')" by (simp add: Stream_Push_def split: if_splits)
  have q: "Stream_Pull cr f ad s = Inr ((pt, tag), s')"
    using pull_pushRaw [OF assms raw] Cons.prems(1) by (simp add: Stream_Pull_def)
  show ?case
  proof (cases "tag = TagFinal")
    case True
    with p q fin show ?thesis by (simp add: m push_all_finished pull_all_finished)
  next
    case False
    with fin Cons.prems(2) have "\<not> finished s'" "junk = [] \<or> (\<exists>m \<in> set ms. snd (snd m) = TagFinal)"
      by (auto simp: m)
    from Cons.IH [OF this] False p q show ?thesis by (simp add: m)
  qed
qed simp

text \<open>C36. A whole session survives the wire. When a sender opens a stream, seals any list of messages
  with any tags, and a receiver opens the stream of the header it was sent, the receiver obtains
  the same messages with the same tags up to and including the first one tagged final; nothing
  appended after a final frame, not even a correctly sealed one, is ever delivered. Rekeying and
  the wrap of the frame counter are covered.\<close>

theorem secretstream_session:
  assumes "poly1305_tag cr" and "NewPushStream cr (Some rnd) key = Inr (s, header)"
    and "junk = [] \<or> (\<exists>m \<in> set ms. snd (snd m) = TagFinal)"
  shows "pull_all cr (push_all cr ms s @ junk) (NewPullStream cr key header) = upto_final ms"
proof -
  have "s = NewPullStream cr key header" "\<not> finished s"
    using assms(2) by (auto simp: NewPushStream_def NewPullStream_def newStream_def)
  with pull_push_all [OF assms(1) _ assms(3)] show ?thesis by simp
qed

theorem secretstream_session_witness:
  "\<exists>s. NewPushStream ex_crypto (Some (replicate 24 4)) (ex_seed 1) = Inr (s, replicate 24 4)
    \<and> pull_all ex_crypto (push_all ex_crypto [([1], [2], 0), ([3], [], TagFinal), ([5], [], 0)] s @ [([0], [0])])
        (NewPullStream ex_crypto (ex_seed 1) (replicate 24 4)) = [([1], [2], 0), ([3], [], TagFinal)]"
proof -
  obtain s where s: "NewPushStream ex_crypto (Some (replicate 24 4)) (ex_seed 1) = Inr (s, replicate 24 4)"
    by (simp add: NewPushStream_def)
  have "(0 :: byte) \<noteq> TagFinal" by (simp add: TagFinal_def TagPush_def TagRekey_def)
  with secretstream_session [OF ex_crypto_poly s, of "[([0], [0])]" "[([1], [2], 0), ([3], [], TagFinal), ([5], [], 0)]"]
  show ?thesis using s by simp
qed

end
