(* ===== verification/QR.thy ===== *)
theory QR
  imports Schedule
begin

text \<open>
  \<open>e2ekit/qr.go\<close>: the pairing QR code, a \<open>kenaz://pair?\<close> URI with seven parameters, emitted in a
  canonical order and parsed strictly. The parser collects the parameters in a map from key to
  value (the code's \<open>seen\<close> is its key set), refuses duplicates and unknown keys, and then reads
  each value at its fixed width.
\<close>

record QRPayload =
  Version :: int
  RelayOrigin :: string
  HostID :: bytes
  HostPK :: bytes
  Token :: bytes
  qr_AccountBind :: bytes
  ExpiresUnix :: int

datatype qr_error = ErrQRScheme | ErrQRVersion | ErrQRDuplicate | ErrQRUnknownParam | ErrQRMalformed
  | ErrQRMissingParam | ErrQRExpired | ErrQRAccountBind | ErrQRRelayEncoding

definition qrPrefix :: string where
  "qrPrefix = ''kenaz://pair?''"

section \<open>Percent encoding\<close>

definition qrRelayAllowed :: "char \<Rightarrow> bool" where
  "qrRelayAllowed c \<longleftrightarrow> (let n = of_char c :: nat in
     65 \<le> n \<and> n \<le> 90 \<or> 97 \<le> n \<and> n \<le> 122 \<or> 48 \<le> n \<and> n \<le> 57
     \<or> c \<in> set [CHR ''-'', CHR ''.'', CHR ''_'', CHR ''~'', CHR ''!'', CHR ''$'', CHR 0x27, CHR ''('',
              CHR '')'', CHR ''*'', CHR ''+'', CHR '','', CHR '';'', CHR '':'', CHR ''@'', CHR ''/'', CHR ''?''])"

text \<open>One upper-case hexadecimal digit of \<open>%02X\<close>.\<close>

definition hexX :: "nat \<Rightarrow> char" where
  "hexX n = (if n < 10 then char_of (48 + n) else char_of (55 + n))"

fun escapeRelay :: "string \<Rightarrow> string" where
  "escapeRelay [] = []"
| "escapeRelay (c # s) =
     (if qrRelayAllowed c then c # escapeRelay s
      else CHR ''%'' # hexX (of_char c div 16) # hexX (of_char c mod 16) # escapeRelay s)"

definition hexNibble :: "char \<Rightarrow> nat option" where
  "hexNibble c = (let n = of_char c :: nat in
     if 48 \<le> n \<and> n \<le> 57 then Some (n - 48)
     else if 65 \<le> n \<and> n \<le> 70 then Some (n - 65 + 10)
     else if 97 \<le> n \<and> n \<le> 102 then Some (n - 97 + 10) else None)"

fun unescapeRelay :: "string \<Rightarrow> qr_error + string" where
  "unescapeRelay [] = Inr []"
| "unescapeRelay (c # s) =
     (if c = CHR ''%'' then
        (case s of
           h # l # r \<Rightarrow>
             (case (hexNibble h, hexNibble l) of
                (Some hi, Some lo) \<Rightarrow>
                  (case unescapeRelay r of Inl e \<Rightarrow> Inl e | Inr t \<Rightarrow> Inr (char_of (hi * 16 + lo) # t))
              | _ \<Rightarrow> Inl ErrQRRelayEncoding)
         | _ \<Rightarrow> Inl ErrQRRelayEncoding)
      else if qrRelayAllowed c then
        (case unescapeRelay s of Inl e \<Rightarrow> Inl e | Inr t \<Rightarrow> Inr (c # t))
      else Inl ErrQRRelayEncoding)"

section \<open>Encode and ParseQR\<close>

definition QR_Encode :: "QRPayload \<Rightarrow> string" where
  "QR_Encode p = qrPrefix @ ''v='' @ int_str (Version p) @ ''&r='' @ escapeRelay (RelayOrigin p)
     @ ''&h='' @ EncodeBin (HostID p) @ ''&k='' @ EncodeBin (HostPK p) @ ''&t='' @ EncodeBin (Token p)
     @ ''&a='' @ EncodeBin (qr_AccountBind p) @ ''&e='' @ int_str (ExpiresUnix p)"

definition qr_keys :: "string list" where
  "qr_keys = [''v'', ''r'', ''h'', ''k'', ''t'', ''a'', ''e'']"

fun qr_params :: "string list \<Rightarrow> (string, string) gomap \<Rightarrow> qr_error + (string, string) gomap" where
  "qr_params [] vals = Inr vals"
| "qr_params (part # parts) vals =
     (case go_cut (CHR ''='') part of None \<Rightarrow> Inl ErrQRMalformed
      | Some (key, val) \<Rightarrow>
        if key = [] then Inl ErrQRMalformed
        else if key \<notin> set qr_keys then Inl ErrQRUnknownParam
        else if mget vals key \<noteq> None then Inl ErrQRDuplicate
        else qr_params parts (mput key val vals))"

definition qr_bin :: "(string, string) gomap \<Rightarrow> string \<Rightarrow> nat \<Rightarrow> qr_error + bytes" where
  "qr_bin vals key n = (case DecodeBin (the (mget vals key)) n of Inl _ \<Rightarrow> Inl ErrQRMalformed | Inr b \<Rightarrow> Inr b)"

definition qr_fields :: "(string, string) gomap \<Rightarrow> qr_error + QRPayload" where
  "qr_fields vals =
     (if the (mget vals ''v'') \<noteq> ''1'' then Inl ErrQRVersion
      else case unescapeRelay (the (mget vals ''r'')) of Inl e \<Rightarrow> Inl e
      | Inr relay \<Rightarrow>
      case qr_bin vals ''h'' 16 of Inl e \<Rightarrow> Inl e
      | Inr h \<Rightarrow>
      case qr_bin vals ''k'' 32 of Inl e \<Rightarrow> Inl e
      | Inr k \<Rightarrow>
      case qr_bin vals ''t'' 32 of Inl e \<Rightarrow> Inl e
      | Inr t \<Rightarrow>
      case qr_bin vals ''a'' 16 of Inl e \<Rightarrow> Inl e
      | Inr a \<Rightarrow>
      let e = the (mget vals ''e'') in
      if e = [] then Inl ErrQRMalformed
      else if \<not> list_all is_digit e then Inl ErrQRMalformed
      else case ParseInt e of None \<Rightarrow> Inl ErrQRMalformed
      | Some expires \<Rightarrow> Inr \<lparr>Version = 1, RelayOrigin = relay, HostID = h, HostPK = k, Token = t,
          qr_AccountBind = a, ExpiresUnix = expires\<rparr>)"

definition ParseQR :: "string \<Rightarrow> qr_error + QRPayload" where
  "ParseQR uri = (case strip qrPrefix uri of None \<Rightarrow> Inl ErrQRScheme
     | Some rest \<Rightarrow>
       case qr_params (go_split (CHR ''&'') rest) [] of Inl e \<Rightarrow> Inl e
       | Inr vals \<Rightarrow>
         if \<not> list_all (\<lambda>key. mget vals key \<noteq> None) qr_keys then Inl ErrQRMissingParam
         else qr_fields vals)"

definition QR_Validate :: "primitives \<Rightarrow> QRPayload \<Rightarrow> int \<Rightarrow> string \<Rightarrow> qr_error option" where
  "QR_Validate cr p nowUnix sub =
     (if nowUnix \<ge> ExpiresUnix p then Some ErrQRExpired
      else if \<not> VerifyMAC (AccountBind cr V1 (HostPK p) sub) (qr_AccountBind p) then Some ErrQRAccountBind
      else None)"

section \<open>Round trip\<close>

text \<open>The payloads a code can carry: the types of the Go struct, version 1, a time not before 1970.\<close>

definition qr_wf :: "QRPayload \<Rightarrow> bool" where
  "qr_wf p \<longleftrightarrow> Version p = 1 \<and> length (HostID p) = 16 \<and> length (HostPK p) = 32 \<and> length (Token p) = 32
     \<and> length (qr_AccountBind p) = 16 \<and> 0 \<le> ExpiresUnix p \<and> ExpiresUnix p < 2 ^ 63"

lemma hexNibble_hexX: "n < 16 \<Longrightarrow> hexNibble (hexX n) = Some n"
  by (auto simp: hexNibble_def hexX_def of_char_of Let_def)

lemma percent_not_allowed: "\<not> qrRelayAllowed (CHR ''%'')"
  by (simp add: qrRelayAllowed_def)

lemma of_char_nibbles: "(of_char c :: nat) div 16 < 16" "(of_char c :: nat) mod 16 < 16"
  using less_mult_imp_div_less [of "of_char c" 16 16] of_char_less_256 [of c] by simp_all

lemma unescape_escape: "unescapeRelay (escapeRelay s) = Inr s"
proof (induction s)
  case (Cons c s)
  have "char_of ((of_char c :: nat) div 16 * 16 + of_char c mod 16) = c"
    unfolding div_mult_mod_eq by simp
  with Cons percent_not_allowed show ?case
    by (auto simp: hexNibble_hexX of_char_nibbles)
qed simp

lemma hexX_sep: "n < 16 \<Longrightarrow> hexX n \<noteq> CHR ''&''"
  using hexNibble_hexX [of n] by (auto simp: hexNibble_def)

lemma escapeRelay_no_sep: "CHR ''&'' \<notin> set (escapeRelay s)"
proof (induction s)
  case (Cons c s)
  have "\<not> qrRelayAllowed (CHR ''&'')" by (simp add: qrRelayAllowed_def)
  with Cons hexX_sep of_char_nibbles [of c] show ?case by (auto dest: sym)
qed simp

lemma b64_no_sep: "CHR ''&'' \<notin> set (b64_encode bs)"
proof
  assume "CHR ''&'' \<in> set (b64_encode bs)"
  then obtain n where "n < 64" "CHR ''&'' = enc6 n" using set_b64_encode by blast
  then have "dec6 (CHR ''&'') = Some n" using dec6_enc6 by metis
  then show False by (simp add: dec6_def)
qed

lemma nat_str_no_sep: "CHR ''&'' \<notin> set (nat_str n)"
  using nat_str_digits [of n] by (auto simp: list_all_iff is_digit_def)

lemma go_cut_key: "d \<noteq> k \<Longrightarrow> go_cut d (k # d # v) = Some ([k], v)"
  by (simp add: go_cut_def)

text \<open>The seven parts a canonical code splits into.\<close>

definition qr_parts :: "string list \<Rightarrow> string list" where
  "qr_parts vs = map (\<lambda>(k, v). k @ CHR ''='' # v) (zip qr_keys vs)"

lemma go_split_encode:
  assumes "\<forall>v \<in> {v, r, h, k, t, a, e}. CHR ''&'' \<notin> set v"
  shows "go_split (CHR ''&'') (''v='' @ v @ ''&r='' @ r @ ''&h='' @ h @ ''&k='' @ k @ ''&t='' @ t
     @ ''&a='' @ a @ ''&e='' @ e) = qr_parts [v, r, h, k, t, a, e]"
proof -
  have p: "CHR ''&'' \<notin> set (x # CHR ''='' # w)" if "CHR ''&'' \<notin> set w" "x \<noteq> CHR ''&''" for x w
    using that by auto
  have s: "go_split (CHR ''&'') (x # CHR ''='' # w @ CHR ''&'' # z) = (x # CHR ''='' # w) # go_split (CHR ''&'') z"
    if "CHR ''&'' \<notin> set w" "x \<noteq> CHR ''&''" for x w z
    using go_split_append [OF p [OF that], of z] by simp
  have e: "go_split (CHR ''&'') (CHR ''e'' # CHR ''='' # e) = [CHR ''e'' # CHR ''='' # e]"
    using go_split_single [OF p] assms by simp
  show ?thesis using assms by (simp add: s e qr_parts_def qr_keys_def del: go_split.simps)
qed

lemma qr_params_parts:
  "qr_params (qr_parts [v, r, h, k, t, a, e]) [] =
     Inr [(''v'', v), (''r'', r), (''h'', h), (''k'', k), (''t'', t), (''a'', a), (''e'', e)]"
  by (simp add: qr_parts_def qr_keys_def go_cut_key mput_def mget_def)

lemma DecodeBin_encode: "length b = n \<Longrightarrow> DecodeBin (b64_encode b) n = Inr b"
  by (simp add: DecodeBin_iff)

lemma ParseQR_Encode:
  assumes "qr_wf p"
  shows "ParseQR (QR_Encode p) = Inr p"
proof -
  let ?e = "nat_str (nat (ExpiresUnix p))"
  let ?ps = "[''1'', escapeRelay (RelayOrigin p), b64_encode (HostID p), b64_encode (HostPK p),
      b64_encode (Token p), b64_encode (qr_AccountBind p), ?e]"
  note wf = assms [unfolded qr_wf_def]
  have "digit 1 = CHR ''1''" by (rule of_char_eqI) simp
  then have one: "int_str 1 = ''1''" by (simp add: int_str_def nat_str.simps)
  have ee: "int_str (ExpiresUnix p) = ?e" using wf by (simp add: int_str_def)
  have sep: "\<forall>v \<in> set ?ps. CHR ''&'' \<notin> set v"
    by (simp add: escapeRelay_no_sep b64_no_sep nat_str_no_sep)
  have enc: "strip qrPrefix (QR_Encode p) = Some (''v='' @ ''1'' @ ''&r='' @ escapeRelay (RelayOrigin p)
     @ ''&h='' @ b64_encode (HostID p) @ ''&k='' @ b64_encode (HostPK p) @ ''&t='' @ b64_encode (Token p)
     @ ''&a='' @ b64_encode (qr_AccountBind p) @ ''&e='' @ ?e)"
    using wf unfolding strip_iff QR_Encode_def EncodeBin_def ee by (simp only: one)
  have split: "qr_params (go_split (CHR ''&'') (''v='' @ ''1'' @ ''&r='' @ escapeRelay (RelayOrigin p)
     @ ''&h='' @ b64_encode (HostID p) @ ''&k='' @ b64_encode (HostPK p) @ ''&t='' @ b64_encode (Token p)
     @ ''&a='' @ b64_encode (qr_AccountBind p) @ ''&e='' @ ?e)) [] = Inr (zip qr_keys ?ps)"
    using sep by (subst go_split_encode) (simp_all only: qr_params_parts, simp_all add: qr_keys_def)
  have bin: "qr_bin (zip qr_keys ?ps) ''h'' 16 = Inr (HostID p)" "qr_bin (zip qr_keys ?ps) ''k'' 32 = Inr (HostPK p)"
    "qr_bin (zip qr_keys ?ps) ''t'' 32 = Inr (Token p)" "qr_bin (zip qr_keys ?ps) ''a'' 16 = Inr (qr_AccountBind p)"
    using wf by (simp_all add: qr_bin_def qr_keys_def mget_def DecodeBin_encode)
  have g: "mget (zip qr_keys ?ps) ''v'' = Some ''1''" "mget (zip qr_keys ?ps) ''e'' = Some ?e"
    "mget (zip qr_keys ?ps) ''r'' = Some (escapeRelay (RelayOrigin p))"
    by (simp_all add: qr_keys_def mget_def)
  have all: "list_all (\<lambda>key. mget (zip qr_keys ?ps) key \<noteq> None) qr_keys"
    by (simp add: qr_keys_def mget_def)
  have exp: "ParseInt ?e = Some (ExpiresUnix p)"
    using wf ParseInt_nat_str [of "nat (ExpiresUnix p)"] by (simp add: nat_less_iff)
  have fields: "qr_fields (zip qr_keys ?ps) = Inr p"
    unfolding qr_fields_def g option.sel bin unescape_escape sum.case Let_def exp
    using wf by (cases p) simp
  show ?thesis
    unfolding ParseQR_def enc option.case split sum.case using all fields by simp
qed

lemma ParseInt_digits: "ParseInt e = Some i \<Longrightarrow> list_all is_digit e \<Longrightarrow> 0 \<le> i \<and> i < 2 ^ 63"
  by (auto simp: ParseInt_def Let_def is_digit_def split: list.splits if_splits)

lemma qr_bin_length: "qr_bin vals key n = Inr b \<Longrightarrow> length b = n"
  by (auto simp: qr_bin_def DecodeBin_def split: sum.splits if_splits option.splits)

lemma qr_fields_wf: "qr_fields vals = Inr p \<Longrightarrow> qr_wf p"
  unfolding qr_fields_def qr_wf_def Let_def
  by (auto dest: qr_bin_length ParseInt_digits split: if_splits sum.splits option.splits)

lemma ParseQR_wf: "ParseQR uri = Inr p \<Longrightarrow> qr_wf p"
  unfolding ParseQR_def by (auto dest: qr_fields_wf split: if_splits sum.splits option.splits)

text \<open>C38. The pairing code round trip. Any payload with the struct's widths, version 1 and a
  non-negative expiry, whatever bytes its relay origin holds, is parsed back from its canonical
  form unchanged; and every URI the parser accepts yields such a payload, so re-emitting what was
  scanned gives the one canonical spelling of it, which parses to the same payload.\<close>

theorem QR_round_trip:
  "(qr_wf p \<longrightarrow> ParseQR (QR_Encode p) = Inr p)
   \<and> (ParseQR uri = Inr q \<longrightarrow> qr_wf q \<and> ParseQR (QR_Encode q) = Inr q)"
  using ParseQR_Encode ParseQR_wf by blast

definition ex_qr :: QRPayload where
  "ex_qr = \<lparr>Version = 1, RelayOrigin = ''https://r?x=1&y'', HostID = replicate 16 7, HostPK = replicate 32 8,
     Token = replicate 32 9, qr_AccountBind = replicate 16 10, ExpiresUnix = 1700000000\<rparr>"

theorem QR_round_trip_witness:
  "qr_wf ex_qr \<and> ParseQR (QR_Encode ex_qr) = Inr ex_qr"
proof -
  have wf: "qr_wf ex_qr" by (simp add: qr_wf_def ex_qr_def)
  then have "ParseQR (QR_Encode ex_qr) = Inr ex_qr" using QR_round_trip [of ex_qr] by blast
  with wf show ?thesis by blast
qed

end
