(* ===== verification/Jwt.thy ===== *)
theory Jwt
  imports Auth GoFloat AD
begin

text \<open>
  \<open>internal/jwtverify\<close> (\<open>verify.go\<close>, \<open>jwks.go\<close>) and the adapter \<open>JWTValidator\<close> of
  \<open>internal/relay/authz.go\<close>: bearer tokens checked against a cached JWKS document.

  What is outside the repository is the record \<open>jwt_env\<close>: the hash functions and signature
  checks of Go's crypto packages, the curve membership test, the answer of the identity provider,
  and what the language leaves to the machine, the conversion to \<open>int64\<close> of a float out of range.
  Each call of \<open>v.now()\<close> may see a later time, so a verification reads the clock at the named
  points of \<open>clock_point\<close>. A verification that finds a refresh in flight waits for another
  goroutine; what that goroutine did to the cache meanwhile is \<open>after_wait\<close>.
\<close>

section \<open>Keys and environment\<close>

datatype ec_curve = P256 | P384 | P521

datatype public_key = RSAKey nat nat | ECKey ec_curve nat nat

datatype hash_alg = SHA256 | SHA384 | SHA512

datatype clock_point = AtReady | AtKeyFor | AtAttempt | AtInstall | AtReget | AtClaims

record jwt_crypto =
  hash_sum :: "hash_alg \<Rightarrow> bytes \<Rightarrow> bytes"
  VerifyPKCS1v15 :: "nat \<Rightarrow> nat \<Rightarrow> hash_alg \<Rightarrow> bytes \<Rightarrow> bytes \<Rightarrow> bool"
  VerifyPSS :: "nat \<Rightarrow> nat \<Rightarrow> hash_alg \<Rightarrow> bytes \<Rightarrow> bytes \<Rightarrow> bool"
  ecdsa_Verify :: "ec_curve \<Rightarrow> nat \<Rightarrow> nat \<Rightarrow> bytes \<Rightarrow> nat \<Rightarrow> nat \<Rightarrow> bool"
  IsOnCurve :: "ec_curve \<Rightarrow> nat \<Rightarrow> nat \<Rightarrow> bool"
  int64_out_of_range :: "rat \<Rightarrow> int"

record keyCache =
  kc_keys :: "(string, public_key) gomap option"
  fetchedAt :: gotime
  lastAttempt :: gotime
  inflight :: bool
  waiters :: nat

text \<open>The provider's answer is a status and a body; None is a transport or read error.\<close>

record jwt_env = jwt_crypto +
  je_now :: "clock_point \<Rightarrow> gotime"
  je_http :: "(int \<times> bytes) option"
  after_wait :: "keyCache \<Rightarrow> keyCache"
  ctx_done :: bool

datatype jwt_error = ErrUnauthenticated | ErrUnavailable | ErrNotConfigured

section \<open>Configuration\<close>

record JwtConfig =
  jc_Issuer :: string
  jc_Audience :: string
  jc_JWKSURL :: string
  jc_CacheTTL :: duration
  jc_Leeway :: duration

definition MinCacheTTL :: duration where "MinCacheTTL = 5 * minute"
definition MaxCacheTTL :: duration where "MaxCacheTTL = 24 * hour"
definition DefaultCacheTTL :: duration where "DefaultCacheTTL = 15 * minute"
definition DefaultLeeway :: duration where "DefaultLeeway = 60 * second"
definition MaxLeeway :: duration where "MaxLeeway = 5 * minute"
definition maxTokenBytes :: nat where "maxTokenBytes = 16384"
definition maxJWKSBytes :: nat where "maxJWKSBytes = 1048576"
definition unknownKidRefreshInterval :: duration where "unknownKidRefreshInterval = 60 * second"

definition jwt_New :: "JwtConfig \<Rightarrow> jwt_error + JwtConfig" where
  "jwt_New cfg =
     (if jc_Issuer cfg = [] \<or> jc_Audience cfg = [] \<or> jc_JWKSURL cfg = [] then Inl ErrNotConfigured
      else if jc_CacheTTL cfg \<noteq> 0 \<and> (jc_CacheTTL cfg < MinCacheTTL \<or> MaxCacheTTL < jc_CacheTTL cfg)
        then Inl ErrNotConfigured
      else let cfg = (if jc_CacheTTL cfg = 0 then cfg\<lparr>jc_CacheTTL := DefaultCacheTTL\<rparr> else cfg) in
        if jc_Leeway cfg \<noteq> 0 \<and> (jc_Leeway cfg < 0 \<or> MaxLeeway < jc_Leeway cfg) then Inl ErrNotConfigured
        else Inr (if jc_Leeway cfg = 0 then cfg\<lparr>jc_Leeway := DefaultLeeway\<rparr> else cfg))"

definition empty_cache :: keyCache where
  "empty_cache = \<lparr>kc_keys = None, fetchedAt = 0, lastAttempt = 0, inflight = False, waiters = 0\<rparr>"

section \<open>JWKS (jwks.go)\<close>

record jwk =
  Kty :: string
  jwk_Kid :: string
  jwk_Alg :: string
  jwk_Use :: string
  jwk_N :: string
  jwk_E :: string
  Crv :: string
  jwk_X :: string
  jwk_Y :: string

definition zero_jwk :: jwk where
  "zero_jwk = \<lparr>Kty = [], jwk_Kid = [], jwk_Alg = [], jwk_Use = [], jwk_N = [], jwk_E = [], Crv = [],
     jwk_X = [], jwk_Y = []\<rparr>"

definition jwk_field :: "string option \<Rightarrow> json \<Rightarrow> jwk \<Rightarrow> jwk option" where
  "jwk_field f v k = (case f of None \<Rightarrow> Some k | Some n \<Rightarrow>
     if n = ''kty'' then map_option (\<lambda>s. k\<lparr>Kty := s\<rparr>) (into_string v (Kty k))
     else if n = ''kid'' then map_option (\<lambda>s. k\<lparr>jwk_Kid := s\<rparr>) (into_string v (jwk_Kid k))
     else if n = ''alg'' then map_option (\<lambda>s. k\<lparr>jwk_Alg := s\<rparr>) (into_string v (jwk_Alg k))
     else if n = ''use'' then map_option (\<lambda>s. k\<lparr>jwk_Use := s\<rparr>) (into_string v (jwk_Use k))
     else if n = ''n'' then map_option (\<lambda>s. k\<lparr>jwk_N := s\<rparr>) (into_string v (jwk_N k))
     else if n = ''e'' then map_option (\<lambda>s. k\<lparr>jwk_E := s\<rparr>) (into_string v (jwk_E k))
     else if n = ''crv'' then map_option (\<lambda>s. k\<lparr>Crv := s\<rparr>) (into_string v (Crv k))
     else if n = ''x'' then map_option (\<lambda>s. k\<lparr>jwk_X := s\<rparr>) (into_string v (jwk_X k))
     else map_option (\<lambda>s. k\<lparr>jwk_Y := s\<rparr>) (into_string v (jwk_Y k)))"

definition into_jwk :: "json \<Rightarrow> jwk \<Rightarrow> jwk option" where
  "into_jwk = into_struct [''kty'', ''kid'', ''alg'', ''use'', ''n'', ''e'', ''crv'', ''x'', ''y''] jwk_field"

text \<open>A slice is decoded element by element into the elements it already has, then extended with
  zero values; a repeated \<open>keys\<close> member therefore merges into the earlier one.\<close>

definition into_jwks :: "json \<Rightarrow> jwk list \<Rightarrow> jwk list option" where
  "into_jwks v old = (case v of JNull \<Rightarrow> Some []
     | JArr vs \<Rightarrow> those (map (\<lambda>i. into_jwk (vs ! i) (if i < length old then old ! i else zero_jwk)) [0..<length vs])
     | _ \<Rightarrow> None)"

definition jwkSet_decode :: "string \<Rightarrow> jwk list option" where
  "jwkSet_decode raw = (case unmarshal raw of None \<Rightarrow> None
     | Some v \<Rightarrow> into_struct [''keys''] (\<lambda>f v ks. case f of None \<Rightarrow> Some ks | Some _ \<Rightarrow> into_jwks v ks) v [])"

definition b64uint :: "string \<Rightarrow> nat option" where
  "b64uint s = (if s = [] then None else map_option be_get (b64_decode False s))"

definition parseJWK :: "'a jwt_crypto_scheme \<Rightarrow> jwk \<Rightarrow> public_key option" where
  "parseJWK cr k =
     (if Kty k = ''RSA'' then
        (case b64uint (jwk_N k) of None \<Rightarrow> None | Some n \<Rightarrow>
         case b64uint (jwk_E k) of None \<Rightarrow> None | Some e \<Rightarrow>
         if \<not> e < 2 ^ 63 \<or> e < 3 \<or> 2 ^ 31 - 1 < e then None
         else if n < 2 ^ 2047 then None
         else Some (RSAKey n e))
      else if Kty k = ''EC'' then
        (case (if Crv k = ''P-256'' then Some P256 else if Crv k = ''P-384'' then Some P384
               else if Crv k = ''P-521'' then Some P521 else None) of None \<Rightarrow> None
         | Some curve \<Rightarrow>
         case b64uint (jwk_X k) of None \<Rightarrow> None | Some x \<Rightarrow>
         case b64uint (jwk_Y k) of None \<Rightarrow> None | Some y \<Rightarrow>
         if \<not> IsOnCurve cr curve x y then None else Some (ECKey curve x y))
      else None)"

definition add_jwk :: "'a jwt_crypto_scheme \<Rightarrow> jwk \<Rightarrow> (string, public_key) gomap \<Rightarrow> (string, public_key) gomap" where
  "add_jwk cr k keys =
     (if jwk_Use k \<noteq> [] \<and> jwk_Use k \<noteq> ''sig'' then keys
      else case parseJWK cr k of None \<Rightarrow> keys
      | Some pub \<Rightarrow> if jwk_Kid k = [] then keys else mput (jwk_Kid k) pub keys)"

definition fetchJWKS :: "'a jwt_env_scheme \<Rightarrow> (string, public_key) gomap option" where
  "fetchJWKS env = (case je_http env of None \<Rightarrow> None
     | Some (status, body) \<Rightarrow>
       if status \<noteq> 200 then None
       else case jwkSet_decode (bytes_str (take maxJWKSBytes body)) of None \<Rightarrow> None
       | Some ks \<Rightarrow>
         let keys = fold (add_jwk env) ks [] in
         if keys = [] then None else Some keys)"

definition cache_get :: "keyCache \<Rightarrow> string \<Rightarrow> duration \<Rightarrow> gotime \<Rightarrow> public_key option \<times> bool" where
  "cache_get c kid ttl now =
     (let fresh = (fetchedAt c \<noteq> 0 \<and> time_sub now (fetchedAt c) < ttl) in
      case kc_keys c of None \<Rightarrow> (None, fresh) | Some keys \<Rightarrow> (mget keys kid, fresh))"

definition mayRefresh :: "keyCache \<Rightarrow> gotime \<Rightarrow> bool" where
  "mayRefresh c now \<longleftrightarrow> lastAttempt c = 0 \<or> unknownKidRefreshInterval \<le> time_sub now (lastAttempt c)"

text \<open>The end of a refresh: install what was fetched, release the waiters.\<close>

definition refresh_install :: "(string, public_key) gomap option \<Rightarrow> gotime \<Rightarrow> keyCache \<Rightarrow> keyCache" where
  "refresh_install fetched now c =
     (let c = c\<lparr>inflight := False\<rparr>;
          c = (case fetched of None \<Rightarrow> c | Some keys \<Rightarrow> c\<lparr>kc_keys := Some keys, fetchedAt := now\<rparr>)
      in c\<lparr>waiters := 0\<rparr>)"

text \<open>The result says whether an error is returned.\<close>

definition refresh :: "'a jwt_env_scheme \<Rightarrow> keyCache \<Rightarrow> bool \<times> keyCache" where
  "refresh env c =
     (if inflight c then (ctx_done env, after_wait env (c\<lparr>waiters := waiters c + 1\<rparr>))
      else let c = c\<lparr>inflight := True, lastAttempt := je_now env AtAttempt\<rparr>;
               fetched = fetchJWKS env
           in (fetched = None, refresh_install fetched (je_now env AtInstall) c))"

section \<open>Verification (verify.go)\<close>

definition jwt_Ready :: "JwtConfig \<Rightarrow> 'a jwt_env_scheme \<Rightarrow> keyCache \<Rightarrow> jwt_error option \<times> keyCache" where
  "jwt_Ready cfg env c =
     (if snd (cache_get c [] (jc_CacheTTL cfg) (je_now env AtReady)) then (None, c)
      else let (err, c) = refresh env c in (if err then Some ErrUnavailable else None, c))"

definition keyFor :: "JwtConfig \<Rightarrow> 'a jwt_env_scheme \<Rightarrow> string \<Rightarrow> keyCache \<Rightarrow> (jwt_error + public_key) \<times> keyCache" where
  "keyFor cfg env kid c =
     (let now = je_now env AtKeyFor; (key, fresh) = cache_get c kid (jc_CacheTTL cfg) now in
      if key \<noteq> None \<and> fresh then (Inr (the key), c)
      else if \<not> fresh \<or> mayRefresh c now then
        (let (err, c) = refresh env c;
             (key, fresh) = cache_get c kid (jc_CacheTTL cfg) (je_now env AtReget) in
         if err then (if key \<noteq> None \<and> fresh then (Inr (the key), c) else (Inl ErrUnavailable, c))
         else if key \<noteq> None then (Inr (the key), c)
         else (Inl ErrUnauthenticated, c))
      else if key \<noteq> None then (Inr (the key), c)
      else (Inl ErrUnauthenticated, c))"

definition supportedAlg :: "string \<Rightarrow> bool" where
  "supportedAlg alg \<longleftrightarrow> alg \<in> set [''RS256'', ''RS384'', ''RS512'', ''PS256'', ''PS384'', ''PS512'',
     ''ES256'', ''ES384'', ''ES512'']"

definition hashFor :: "string \<Rightarrow> hash_alg" where
  "hashFor alg = (if drop 2 alg = ''384'' then SHA384 else if drop 2 alg = ''512'' then SHA512 else SHA256)"

definition curve_bytes :: "ec_curve \<Rightarrow> nat" where
  "curve_bytes c = ((case c of P256 \<Rightarrow> 256 | P384 \<Rightarrow> 384 | P521 \<Rightarrow> 521) + 7) div 8"

definition verifySignature :: "'a jwt_crypto_scheme \<Rightarrow> string \<Rightarrow> public_key \<Rightarrow> bytes \<Rightarrow> bytes \<Rightarrow> bool" where
  "verifySignature cr alg key msg sig =
     (let h = hashFor alg; digest = hash_sum cr h msg in
      if take 2 alg = ''RS'' then
        (case key of RSAKey n e \<Rightarrow> VerifyPKCS1v15 cr n e h digest sig | _ \<Rightarrow> False)
      else if take 2 alg = ''PS'' then
        (case key of RSAKey n e \<Rightarrow> VerifyPSS cr n e h digest sig | _ \<Rightarrow> False)
      else if take 2 alg = ''ES'' then
        (case key of ECKey curve x y \<Rightarrow>
           (let n = curve_bytes curve in
            if length sig \<noteq> 2 * n then False
            else ecdsa_Verify cr curve x y digest (be_get (take n sig)) (be_get (drop n sig)))
         | _ \<Rightarrow> False)
      else False)"

text \<open>A JSON number literal as a \<open>float64\<close>: the exact decimal value rounded, None past the range.\<close>

definition json_rat :: "string \<Rightarrow> rat" where
  "json_rat lit =
     (let neg = (take 1 lit = ''-''); s = (if neg then drop 1 lit else lit);
          ip = takeWhile is_digit s; s1 = dropWhile is_digit s;
          fp = (if take 1 s1 = ''.'' then takeWhile is_digit (drop 1 s1) else []);
          s2 = (if take 1 s1 = ''.'' then dropWhile is_digit (drop 1 s1) else s1);
          s3 = drop 1 s2; eneg = (take 1 s3 = ''-'');
          ed = digits_val (if take 1 s3 = ''-'' \<or> take 1 s3 = ''+'' then drop 1 s3 else s3);
          e = (if s2 = [] then 0 else if eneg then - int ed else int ed);
          q = of_nat (digits_val (ip @ fp)) * 10 powi (e - int (length fp))
      in if neg then - q else q)"

definition json_float :: "string \<Rightarrow> rat option" where
  "json_float lit = (let q = fl64 (json_rat lit) in if 2 ^ 1024 \<le> \<bar>q\<bar> then None else Some q)"

definition into_float_ptr :: "json \<Rightarrow> rat option option" where
  "into_float_ptr v = (case v of JNull \<Rightarrow> Some None | JNum l \<Rightarrow> map_option Some (json_float l) | _ \<Rightarrow> None)"

definition to_int64 :: "'a jwt_crypto_scheme \<Rightarrow> rat \<Rightarrow> int" where
  "to_int64 cr f = (let n = go_trunc f in if - (2 ^ 63) \<le> n \<and> n < 2 ^ 63 then n else int64_out_of_range cr f)"

text \<open>\<open>time.Unix\<close>: seconds are kept from Go's zero time in an \<open>int64\<close>, which wraps.\<close>

definition time_Unix :: "int \<Rightarrow> int \<Rightarrow> gotime" where
  "time_Unix sec nsec = wrap64 (sec + 62135596800) * second + nsec"

definition unixFloat :: "'a jwt_crypto_scheme \<Rightarrow> rat \<Rightarrow> gotime" where
  "unixFloat cr f =
     (let sec = to_int64 cr f; frac = fl64 (f - fl64 (of_int sec))
      in time_Unix sec (to_int64 cr (fl64 (frac * 1000000000))))"

definition audienceContains :: "json option \<Rightarrow> string \<Rightarrow> bool" where
  "audienceContains raw want = (case raw of None \<Rightarrow> False
     | Some v \<Rightarrow> (case into_string v [] of Some one \<Rightarrow> one = want
       | None \<Rightarrow> (case v of JArr vs \<Rightarrow>
           (case those (map (\<lambda>e. into_string e []) vs) of None \<Rightarrow> False
            | Some many \<Rightarrow> want \<in> set many)
         | _ \<Rightarrow> False)))"

record claims =
  cl_Iss :: string
  cl_Sub :: string
  cl_Aud :: "json option"
  cl_Exp :: "rat option"
  cl_Nbf :: "rat option"

definition claim_field :: "string option \<Rightarrow> json \<Rightarrow> claims \<Rightarrow> claims option" where
  "claim_field f v c = (case f of None \<Rightarrow> Some c | Some n \<Rightarrow>
     if n = ''iss'' then map_option (\<lambda>s. c\<lparr>cl_Iss := s\<rparr>) (into_string v (cl_Iss c))
     else if n = ''sub'' then map_option (\<lambda>s. c\<lparr>cl_Sub := s\<rparr>) (into_string v (cl_Sub c))
     else if n = ''aud'' then Some (c\<lparr>cl_Aud := Some v\<rparr>)
     else if n = ''exp'' then map_option (\<lambda>x. c\<lparr>cl_Exp := x\<rparr>) (into_float_ptr v)
     else map_option (\<lambda>x. c\<lparr>cl_Nbf := x\<rparr>) (into_float_ptr v))"

definition into_claims :: "json \<Rightarrow> claims option" where
  "into_claims v = into_struct [''iss'', ''sub'', ''aud'', ''exp'', ''nbf''] claim_field v
     \<lparr>cl_Iss = [], cl_Sub = [], cl_Aud = None, cl_Exp = None, cl_Nbf = None\<rparr>"

definition checkClaims :: "JwtConfig \<Rightarrow> 'a jwt_env_scheme \<Rightarrow> bytes \<Rightarrow> jwt_error + string" where
  "checkClaims cfg env payload =
     (case unmarshal (bytes_str payload) of None \<Rightarrow> Inl ErrUnauthenticated
      | Some v \<Rightarrow>
      case into_claims v of None \<Rightarrow> Inl ErrUnauthenticated
      | Some c \<Rightarrow>
        if cl_Iss c \<noteq> jc_Issuer cfg then Inl ErrUnauthenticated
        else if cl_Sub c = [] then Inl ErrUnauthenticated
        else if \<not> audienceContains (cl_Aud c) (jc_Audience cfg) then Inl ErrUnauthenticated
        else case cl_Exp c of None \<Rightarrow> Inl ErrUnauthenticated
        | Some e \<Rightarrow>
          let now = je_now env AtClaims in
          if \<not> now - jc_Leeway cfg < unixFloat env e then Inl ErrUnauthenticated
          else if (case cl_Nbf c of None \<Rightarrow> False | Some n \<Rightarrow> now + jc_Leeway cfg < unixFloat env n)
            then Inl ErrUnauthenticated
          else Inr (cl_Sub c))"

record jwt_header =
  hdr_Alg :: string
  hdr_Kid :: string
  hdr_Typ :: string

definition jwt_header_field :: "string option \<Rightarrow> json \<Rightarrow> jwt_header \<Rightarrow> jwt_header option" where
  "jwt_header_field f v h = (case f of None \<Rightarrow> Some h | Some n \<Rightarrow>
     if n = ''alg'' then map_option (\<lambda>s. h\<lparr>hdr_Alg := s\<rparr>) (into_string v (hdr_Alg h))
     else if n = ''kid'' then map_option (\<lambda>s. h\<lparr>hdr_Kid := s\<rparr>) (into_string v (hdr_Kid h))
     else map_option (\<lambda>s. h\<lparr>hdr_Typ := s\<rparr>) (into_string v (hdr_Typ h)))"

definition into_jwt_header :: "json \<Rightarrow> jwt_header option" where
  "into_jwt_header v = into_struct [''alg'', ''kid'', ''typ''] jwt_header_field v
     \<lparr>hdr_Alg = [], hdr_Kid = [], hdr_Typ = []\<rparr>"

text \<open>\<open>strings.EqualFold\<close> with an ASCII string free of the letters k and s.\<close>

definition EqualFold :: "string \<Rightarrow> string \<Rightarrow> bool" where
  "EqualFold s t \<longleftrightarrow> fold_key s = fold_key t"

definition Verify :: "JwtConfig \<Rightarrow> 'a jwt_env_scheme \<Rightarrow> string \<Rightarrow> keyCache \<Rightarrow> (jwt_error + string) \<times> keyCache" where
  "Verify cfg env token c =
     (if token = [] \<or> maxTokenBytes < length token then (Inl ErrUnauthenticated, c)
      else case go_split (CHR ''.'') token of
        [p0, p1, p2] \<Rightarrow>
          (case b64_decode False p0 of None \<Rightarrow> (Inl ErrUnauthenticated, c)
           | Some hdrRaw \<Rightarrow>
           case Option.bind (unmarshal (bytes_str hdrRaw)) into_jwt_header of None \<Rightarrow> (Inl ErrUnauthenticated, c)
           | Some hdr \<Rightarrow>
             if \<not> supportedAlg (hdr_Alg hdr) then (Inl ErrUnauthenticated, c)
             else if hdr_Typ hdr \<noteq> [] \<and> \<not> EqualFold (hdr_Typ hdr) ''JWT'' \<and> \<not> EqualFold (hdr_Typ hdr) ''at+jwt''
               then (Inl ErrUnauthenticated, c)
             else if hdr_Kid hdr = [] then (Inl ErrUnauthenticated, c)
             else case b64_decode False p2 of None \<Rightarrow> (Inl ErrUnauthenticated, c)
             | Some sig \<Rightarrow>
               (case keyFor cfg env (hdr_Kid hdr) c of
                  (Inl e, c) \<Rightarrow> (Inl e, c)
                | (Inr key, c) \<Rightarrow>
                    if \<not> verifySignature env (hdr_Alg hdr) key (str_bytes (p0 @ ''.'' @ p1)) sig
                    then (Inl ErrUnauthenticated, c)
                    else case b64_decode False p1 of None \<Rightarrow> (Inl ErrUnauthenticated, c)
                    | Some payload \<Rightarrow> (checkClaims cfg env payload, c)))
      | _ \<Rightarrow> (Inl ErrUnauthenticated, c))"

definition JWTValidator_Validate :: "JwtConfig \<Rightarrow> 'a jwt_env_scheme \<Rightarrow> string \<Rightarrow> keyCache \<Rightarrow> (token_error + string) \<times> keyCache" where
  "JWTValidator_Validate cfg env token c =
     (case Verify cfg env token c of
        (Inr sub, c) \<Rightarrow> (Inr sub, c)
      | (Inl e, c) \<Rightarrow> (Inl (if e = ErrUnavailable then ErrTokenUnavailable else TokenNotAccepted), c))"

section \<open>Cache and keys\<close>

lemma cache_get_key: "fst (cache_get c kid ttl now) = (case kc_keys c of None \<Rightarrow> None | Some ks \<Rightarrow> mget ks kid)"
  by (simp add: cache_get_def Let_def split: option.splits)

lemma cache_get_fresh: "snd (cache_get c kid ttl now) \<longleftrightarrow> fetchedAt c \<noteq> 0 \<and> time_sub now (fetchedAt c) < ttl"
  by (simp add: cache_get_def Let_def split: option.splits)

lemma keyFor_unfold:
  "keyFor cfg env kid c =
     (let key = fst (cache_get c kid (jc_CacheTTL cfg) (je_now env AtKeyFor));
          fresh = snd (cache_get c kid (jc_CacheTTL cfg) (je_now env AtKeyFor));
          err = fst (refresh env c); c' = snd (refresh env c);
          key' = fst (cache_get c' kid (jc_CacheTTL cfg) (je_now env AtReget));
          fresh' = snd (cache_get c' kid (jc_CacheTTL cfg) (je_now env AtReget)) in
      if fresh \<and> key \<noteq> None then (Inr (the key), c)
      else if \<not> fresh \<or> mayRefresh c (je_now env AtKeyFor) then
        (if err \<and> \<not> fresh' then (Inl ErrUnavailable, c')
         else if key' \<noteq> None then (Inr (the key'), c')
         else (Inl (if err then ErrUnavailable else ErrUnauthenticated), c'))
      else (Inl ErrUnauthenticated, c))"
  unfolding keyFor_def Let_def by (auto simp: split_def)

lemma keyFor_cases:
  assumes "keyFor cfg env kid c = (Inr k, c')"
  obtains (cached) "c' = c" "fetchedAt c \<noteq> 0" "time_sub (je_now env AtKeyFor) (fetchedAt c) < jc_CacheTTL cfg"
      "\<exists>ks. kc_keys c = Some ks \<and> mget ks kid = Some k"
  | (refreshed) err where "refresh env c = (err, c')" "\<exists>ks. kc_keys c' = Some ks \<and> mget ks kid = Some k"
      "err \<Longrightarrow> fetchedAt c' \<noteq> 0 \<and> time_sub (je_now env AtReget) (fetchedAt c') < jc_CacheTTL cfg"
  using assms unfolding keyFor_unfold Let_def cache_get_key cache_get_fresh
  by (cases "refresh env c") (auto split: if_splits option.splits)

lemma add_jwk_keys:
  assumes "mget (add_jwk cr k keys) kid = Some pub"
  shows "mget keys kid = Some pub \<or> parseJWK cr k = Some pub \<and> kid \<noteq> []"
  using assms by (auto simp: add_jwk_def split: if_splits option.splits)

definition usable_key :: "'a jwt_crypto_scheme \<Rightarrow> public_key \<Rightarrow> bool" where
  "usable_key cr pub \<longleftrightarrow> (case pub of RSAKey n e \<Rightarrow> 2 ^ 2047 \<le> n \<and> 3 \<le> e \<and> e < 2 ^ 31
     | ECKey curve x y \<Rightarrow> IsOnCurve cr curve x y)"

lemma parseJWK_usable: "parseJWK cr k = Some pub \<Longrightarrow> usable_key cr pub"
  by (auto simp: parseJWK_def usable_key_def split: if_splits option.splits)

lemma fold_add_jwk_usable:
  "(\<And>kid pub. mget keys kid = Some pub \<Longrightarrow> usable_key cr pub \<and> kid \<noteq> []) \<Longrightarrow>
     mget (fold (add_jwk cr) ks keys) kid = Some pub \<Longrightarrow> usable_key cr pub \<and> kid \<noteq> []"
proof (induction ks arbitrary: keys)
  case (Cons k ks)
  have "usable_key cr pub \<and> kid \<noteq> []" if "mget (add_jwk cr k keys) kid = Some pub" for kid pub
    using add_jwk_keys [OF that] Cons.prems(1) parseJWK_usable by blast
  from Cons.IH [OF this] Cons.prems(2) show ?case by simp
qed simp

lemma fetchJWKS_usable:
  assumes "fetchJWKS env = Some keys" "mget keys kid = Some pub"
  shows "usable_key env pub \<and> kid \<noteq> []"
proof -
  obtain ks where "keys = fold (add_jwk env) ks []"
    using assms(1) by (auto simp: fetchJWKS_def Let_def split: option.splits if_splits)
  with assms(2) have "mget (fold (add_jwk env) ks []) kid = Some pub" by simp
  then show ?thesis by (rule fold_add_jwk_usable [rotated]) simp
qed

text \<open>The cache of a verifier: every key it holds is usable.\<close>

definition cache_ok :: "'a jwt_crypto_scheme \<Rightarrow> keyCache \<Rightarrow> bool" where
  "cache_ok cr c \<longleftrightarrow> (\<forall>ks kid pub. kc_keys c = Some ks \<longrightarrow> mget ks kid = Some pub \<longrightarrow> usable_key cr pub)"

lemma refresh_cache_ok:
  assumes "cache_ok env c" "\<And>d. cache_ok env d \<Longrightarrow> cache_ok env (after_wait env d)"
  shows "cache_ok env (snd (refresh env c))"
proof (cases "inflight c")
  case True
  have "cache_ok env (c\<lparr>waiters := waiters c + 1\<rparr>)" using assms(1) by (simp add: cache_ok_def)
  with True assms(2) show ?thesis by (simp add: refresh_def)
next
  case False
  with assms(1) show ?thesis
    by (auto simp: refresh_def refresh_install_def Let_def cache_ok_def dest: fetchJWKS_usable split: option.splits)
qed

section \<open>Theorems\<close>

text \<open>What an accepted token went through, in the order of the code. \<open>token_accepted\<close> collects it:
  three dot-separated parts; a header that names a supported asymmetric algorithm and a key id; a
  signature over the first two parts that verifies under the key, of the algorithm's own kind; and
  claims that name this issuer and audience and a subject, and are in their time window.\<close>

definition in_window :: "JwtConfig \<Rightarrow> 'a jwt_env_scheme \<Rightarrow> claims \<Rightarrow> bool" where
  "in_window cfg env cl \<longleftrightarrow>
     (\<exists>e. cl_Exp cl = Some e \<and> je_now env AtClaims < unixFloat env e + jc_Leeway cfg)
     \<and> (\<forall>n. cl_Nbf cl = Some n \<longrightarrow> unixFloat env n \<le> je_now env AtClaims + jc_Leeway cfg)"

definition claims_accepted :: "JwtConfig \<Rightarrow> 'a jwt_env_scheme \<Rightarrow> bytes \<Rightarrow> string \<Rightarrow> bool" where
  "claims_accepted cfg env payload sub \<longleftrightarrow>
     (\<exists>v cl. unmarshal (bytes_str payload) = Some v \<and> into_claims v = Some cl \<and> cl_Iss cl = jc_Issuer cfg
        \<and> cl_Sub cl = sub \<and> sub \<noteq> [] \<and> audienceContains (cl_Aud cl) (jc_Audience cfg) \<and> in_window cfg env cl)"

definition token_accepted :: "JwtConfig \<Rightarrow> 'a jwt_env_scheme \<Rightarrow> string \<Rightarrow> string \<Rightarrow> public_key \<Rightarrow> string \<Rightarrow> bool" where
  "token_accepted cfg env token kid key sub \<longleftrightarrow>
     (\<exists>p0 p1 p2 hv hraw hdr sig payload. go_split (CHR ''.'') token = [p0, p1, p2]
        \<and> length token \<le> maxTokenBytes
        \<and> b64_decode False p0 = Some hraw \<and> unmarshal (bytes_str hraw) = Some hv
        \<and> into_jwt_header hv = Some hdr \<and> supportedAlg (hdr_Alg hdr) \<and> hdr_Kid hdr = kid \<and> kid \<noteq> []
        \<and> b64_decode False p2 = Some sig
        \<and> verifySignature env (hdr_Alg hdr) key (str_bytes (p0 @ ''.'' @ p1)) sig
        \<and> b64_decode False p1 = Some payload \<and> claims_accepted cfg env payload sub)"

lemma checkClaims_accepted: "checkClaims cfg env payload = Inr sub \<Longrightarrow> claims_accepted cfg env payload sub"
  unfolding checkClaims_def claims_accepted_def in_window_def Let_def
  by (auto simp: algebra_simps not_less split: option.splits if_splits)

lemma Verify_cases:
  assumes "Verify cfg env token c = (Inr sub, c')"
  obtains kid key where "keyFor cfg env kid c = (Inr key, c')" "token_accepted cfg env token kid key sub"
proof -
  have len: "length token \<le> maxTokenBytes"
    using assms by (simp add: Verify_def not_less split: if_splits)
  obtain p0 p1 p2 where sp: "go_split (CHR ''.'') token = [p0, p1, p2]"
    using assms by (auto simp: Verify_def split: if_splits list.splits)
  obtain hraw hv hdr sig where h: "b64_decode False p0 = Some hraw" "unmarshal (bytes_str hraw) = Some hv"
    "into_jwt_header hv = Some hdr" "supportedAlg (hdr_Alg hdr)" "hdr_Kid hdr \<noteq> []" "b64_decode False p2 = Some sig"
    using assms by (auto simp: Verify_def sp Option.bind_eq_Some_conv split: if_splits option.splits)
  obtain key payload where k: "keyFor cfg env (hdr_Kid hdr) c = (Inr key, c')"
    "verifySignature env (hdr_Alg hdr) key (str_bytes (p0 @ ''.'' @ p1)) sig"
    "b64_decode False p1 = Some payload" "checkClaims cfg env payload = Inr sub"
    using assms by (auto simp: Verify_def sp h split: if_splits option.splits prod.splits sum.splits)
  have "token_accepted cfg env token (hdr_Kid hdr) key sub"
    unfolding token_accepted_def using sp len h k(2,3) checkClaims_accepted [OF k(4)] by blast
  with k(1) show thesis by (rule that)
qed

text \<open>C39. A token is accepted only with a published key. Whatever the state of the key cache, whatever
  the identity provider answers and whatever a concurrent refresh does, a verification that
  yields a subject has verified the signature, with an asymmetric algorithm from the closed list,
  under the key the cache holds for the token's key id, has found the configured issuer and
  audience and a non-empty subject, and an expiry that is present and in the future up to the
  leeway; and when no other goroutine was refreshing, the key set that held the key was either
  within its TTL or fetched during this very call.\<close>

theorem Verify_sound:
  assumes "Verify cfg env token c = (Inr sub, c')"
  shows "\<exists>kid key ks. token_accepted cfg env token kid key sub
    \<and> kc_keys c' = Some ks \<and> mget ks kid = Some key
    \<and> (\<not> inflight c \<longrightarrow> time_sub (je_now env AtKeyFor) (fetchedAt c') < jc_CacheTTL cfg
         \<or> time_sub (je_now env AtReget) (fetchedAt c') < jc_CacheTTL cfg
         \<or> fetchedAt c' = je_now env AtInstall \<and> fetchJWKS env = Some ks)"
proof -
  obtain kid key where k: "keyFor cfg env kid c = (Inr key, c')" and t: "token_accepted cfg env token kid key sub"
    using assms by (rule Verify_cases)
  from k show ?thesis
  proof (cases rule: keyFor_cases)
    case cached
    with t show ?thesis by blast
  next
    case (refreshed err)
    then obtain ks where ks: "kc_keys c' = Some ks" "mget ks kid = Some key" by blast
    have "\<not> inflight c \<Longrightarrow> \<not> err \<Longrightarrow> fetchedAt c' = je_now env AtInstall \<and> fetchJWKS env = Some ks"
      using refreshed(1) ks(1) by (auto simp: refresh_def refresh_install_def Let_def split: option.splits)
    with t ks refreshed(3) show ?thesis by blast
  qed
qed

text \<open>Failing closed. When the provider cannot be reached, no other goroutine is
  refreshing and the cached key set is past its TTL at both reads of the clock, no token at all is
  accepted, whatever it contains.\<close>

theorem Verify_fails_closed:
  assumes "\<not> inflight c" and "fetchJWKS env = None"
    and "\<not> snd (cache_get c [] (jc_CacheTTL cfg) (je_now env AtKeyFor))"
    and "\<not> snd (cache_get c [] (jc_CacheTTL cfg) (je_now env AtReget))"
  shows "isl (fst (Verify cfg env token c))"
proof (rule ccontr)
  assume "\<not> isl (fst (Verify cfg env token c))"
  then obtain sub c' where v: "Verify cfg env token c = (Inr sub, c')"
    by (metis isl_def prod.collapse sum.exhaust)
  then obtain kid key where "keyFor cfg env kid c = (Inr key, c')" by (rule Verify_cases)
  then show False
  proof (cases rule: keyFor_cases)
    case cached
    with assms(3) show False by (simp add: cache_get_fresh)
  next
    case (refreshed err)
    then have "err" "fetchedAt c' = fetchedAt c"
      using assms(1,2) by (auto simp: refresh_def refresh_install_def Let_def)
    with refreshed(3) assms(4) show False by (simp add: cache_get_fresh)
  qed
qed

text \<open>The bounds of a running verifier: whatever configuration \<open>New\<close> accepts, the verifier runs with
  a key cache lifetime within five minutes and a day and a clock leeway that is positive and at
  most five minutes, and with issuer, audience and key URL all set. A leeway of zero cannot be
  configured: it is replaced by a minute.\<close>

theorem jwt_New_bounds:
  assumes "jwt_New cfg = Inr v"
  shows "MinCacheTTL \<le> jc_CacheTTL v \<and> jc_CacheTTL v \<le> MaxCacheTTL
    \<and> 0 < jc_Leeway v \<and> jc_Leeway v \<le> MaxLeeway
    \<and> jc_Issuer v \<noteq> [] \<and> jc_Audience v \<noteq> [] \<and> jc_JWKSURL v \<noteq> []
    \<and> (jc_Leeway cfg = 0 \<longrightarrow> jc_Leeway v = DefaultLeeway)"
  using assms
  by (auto simp: jwt_New_def Let_def MinCacheTTL_def MaxCacheTTL_def DefaultCacheTTL_def DefaultLeeway_def
      MaxLeeway_def split: if_splits)

section \<open>Two ways the refresh departs from its contract\<close>

text \<open>A goroutine that waited for another's refresh is told nothing about its outcome: the
  waiters of a failed fetch proceed as if it had succeeded and look the key up without asking
  whether the set is fresh. So a key set of any age is accepted while a fetch fails, although the
  comment in \<open>keyFor\<close> says that a stale entry is not good enough. The concurrent refresh here only
  does what \<open>refresh\<close> does at its end when the fetch failed.\<close>

theorem keyFor_waiter_accepts_stale:
  assumes "kc_keys c = Some ks" and "mget ks kid = Some key" and "inflight c"
    and "\<not> snd (cache_get c kid (jc_CacheTTL cfg) (je_now env AtKeyFor))"
    and "after_wait env = refresh_install None (je_now env AtInstall)" and "\<not> ctx_done env"
  shows "\<exists>c'. keyFor cfg env kid c = (Inr key, c')
    \<and> fetchedAt c' = fetchedAt c
    \<and> \<not> snd (cache_get c' kid (jc_CacheTTL cfg) (je_now env AtKeyFor))"
proof -
  let ?c = "refresh_install None (je_now env AtInstall) (c\<lparr>waiters := Suc (waiters c)\<rparr>)"
  have r: "refresh env c = (False, ?c)" using assms(3,5,6) by (simp add: refresh_def)
  have g: "fst (cache_get c kid ttl now) = Some key" "fst (cache_get ?c kid ttl now) = Some key"
    "snd (cache_get ?c kid ttl now) = snd (cache_get c kid ttl now)" "fetchedAt ?c = fetchedAt c" for ttl now
    using assms(1,2) by (simp_all add: cache_get_key cache_get_fresh refresh_install_def)
  have "keyFor cfg env kid c = (Inr key, ?c)"
    unfolding keyFor_unfold Let_def using assms(4) by (simp add: g r)
  then show ?thesis using g assms(4) by blast
qed

text \<open>The interval between refreshes is enforced only while the cached set is fresh. Once the
  provider has been down for longer than the TTL, every verification of an unknown key id starts
  a fetch, even immediately after a failed one, although \<open>lastAttempt\<close> is documented to keep
  the unknown-kid refresh rate-limited when the provider is down.\<close>

theorem keyFor_stale_not_rate_limited:
  assumes "\<not> inflight c" and "\<not> snd (cache_get c kid (jc_CacheTTL cfg) (je_now env AtKeyFor))"
    and "fetchJWKS env = None" and "lastAttempt c < je_now env AtAttempt"
  shows "lastAttempt (snd (keyFor cfg env kid c)) = je_now env AtAttempt
    \<and> \<not> inflight (snd (keyFor cfg env kid c))
    \<and> kc_keys (snd (keyFor cfg env kid c)) = kc_keys c \<and> fetchedAt (snd (keyFor cfg env kid c)) = fetchedAt c"
  using assms unfolding keyFor_unfold Let_def
  by (auto simp: refresh_def refresh_install_def Let_def)

section \<open>A worked token\<close>

lemma takeWhile_nat_str [simp]: "takeWhile is_digit (nat_str n) = nat_str n" "dropWhile is_digit (nat_str n) = []"
  using nat_str_digits [of n] by (simp_all add: list_all_iff takeWhile_eq_all_conv)

lemma take1_nat_str: "take 1 (nat_str n) \<noteq> ''-''"
  using nat_str_digits [of n] by (cases "nat_str n") (auto simp: is_digit_def)

lemma json_rat_nat_str: "json_rat (nat_str n) = of_nat n"
  using take1_nat_str [of n] by (simp add: json_rat_def Let_def)

lemma b64_no_dot: "CHR ''.'' \<notin> set (b64_encode bs)"
proof
  assume "CHR ''.'' \<in> set (b64_encode bs)"
  then obtain n where "n < 64" "CHR ''.'' = enc6 n" using set_b64_encode by blast
  then have "dec6 (CHR ''.'') = Some n" using dec6_enc6 by metis
  then show False by (simp add: dec6_def)
qed

definition jwt_of :: "json \<Rightarrow> json \<Rightarrow> bytes \<Rightarrow> string" where
  "jwt_of h p sig = b64_encode (marshal h) @ ''.'' @ b64_encode (marshal p) @ ''.'' @ b64_encode sig"

lemma go_split_jwt:
  "go_split (CHR ''.'') (jwt_of h p sig) = [b64_encode (marshal h), b64_encode (marshal p), b64_encode sig]"
  by (simp add: jwt_of_def go_split_append b64_no_dot go_split_single)

definition ex_now :: gotime where
  "ex_now = (62135596800 + 1000) * second"

definition ex_jwt_cfg :: JwtConfig where
  "ex_jwt_cfg = \<lparr>jc_Issuer = ''i'', jc_Audience = ''a'', jc_JWKSURL = ''u'', jc_CacheTTL = 15 * minute,
     jc_Leeway = 60 * second\<rparr>"

definition ex_jwt_env :: jwt_env where
  "ex_jwt_env = \<lparr>hash_sum = (\<lambda>_ m. m), VerifyPKCS1v15 = (\<lambda>n e h d sig. sig = [byte_of n, byte_of e]),
     VerifyPSS = (\<lambda>n e h d sig. False), ecdsa_Verify = (\<lambda>c x y d r s. False), IsOnCurve = (\<lambda>c x y. False),
     int64_out_of_range = (\<lambda>_. - (2 ^ 63)), je_now = (\<lambda>_. ex_now), je_http = None,
     after_wait = refresh_install None ex_now, ctx_done = False\<rparr>"

definition ex_cache :: "gotime \<Rightarrow> bool \<Rightarrow> keyCache" where
  "ex_cache t fl = \<lparr>kc_keys = Some [(''k'', RSAKey 7 3)], fetchedAt = t, lastAttempt = t, inflight = fl, waiters = 0\<rparr>"

definition ex_jwt_header :: json where
  "ex_jwt_header = JObj [(''alg'', JStr ''RS256''), (''kid'', JStr ''k'')]"

definition ex_jwt_claims :: json where
  "ex_jwt_claims = JObj [(''iss'', JStr ''i''), (''sub'', JStr ''alice''), (''aud'', JArr [JStr ''b'', JStr ''a'']),
     (''exp'', JNum (nat_str 2000))]"

lemma unixFloat_nat:
  assumes "n < 2 ^ 53"
  shows "unixFloat cr (of_nat n) = (int n + 62135596800) * second"
proof -
  have lt: "int n < 2 ^ 53" using assms by (metis of_nat_less_iff of_nat_numeral of_nat_power)
  have t: "to_int64 cr (of_nat n) = int n" using lt by (simp add: to_int64_def go_trunc_def)
  have z: "to_int64 cr 0 = 0" by (simp add: to_int64_def go_trunc_def)
  have w: "wrap64 (int n + 62135596800) = int n + 62135596800" using lt by (intro wrap64_id) simp_all
  show ?thesis by (simp add: unixFloat_def t fl64_of_nat [OF assms] Let_def z time_Unix_def w)
qed

lemma json_float_nat: "n < 2 ^ 53 \<Longrightarrow> json_float (nat_str n) = Some (of_nat n)"
proof -
  assume n: "n < 2 ^ 53"
  have "(of_nat n :: rat) < of_nat (2 ^ 53)" using n by (simp only: of_nat_less_iff)
  moreover have "of_nat (2 ^ 53) \<le> (2 ^ 1024 :: rat)" by simp
  ultimately have "\<not> 2 ^ 1024 \<le> (of_nat n :: rat)" by linarith
  then show ?thesis by (simp add: json_float_def json_rat_nat_str fl64_of_nat [OF n] Let_def)
qed

lemma ex_header_wf: "wf_json ex_jwt_header" "wf_json ex_jwt_claims"
  by (auto simp: ex_jwt_header_def ex_jwt_claims_def plain_char_def)

lemma ex_header_decodes:
  "into_jwt_header ex_jwt_header = Some \<lparr>hdr_Alg = ''RS256'', hdr_Kid = ''k'', hdr_Typ = []\<rparr>"
  by (simp add: into_jwt_header_def ex_jwt_header_def into_struct_def field_of_def jwt_header_field_def into_string_def)

lemma ex_claims_decode:
  "into_claims ex_jwt_claims = Some \<lparr>cl_Iss = ''i'', cl_Sub = ''alice'', cl_Aud = Some (JArr [JStr ''b'', JStr ''a'']),
     cl_Exp = Some (of_nat 2000), cl_Nbf = None\<rparr>"
  by (simp add: into_claims_def ex_jwt_claims_def into_struct_def field_of_def claim_field_def into_string_def
      into_float_ptr_def json_float_nat del: of_nat_numeral)

definition ex_token :: string where
  "ex_token = jwt_of ex_jwt_header ex_jwt_claims [7, 3]"

lemma ex_claims_ok: "checkClaims ex_jwt_cfg ex_jwt_env (marshal ex_jwt_claims) = Inr ''alice''"
proof -
  have e: "unixFloat ex_jwt_env (of_nat 2000) = (2000 + 62135596800) * second"
    using unixFloat_nat [of 2000 ex_jwt_env] by simp
  have a: "audienceContains (Some (JArr [JStr ''b'', JStr ''a''])) ''a''"
    by (simp add: audienceContains_def into_string_def)
  have n: "je_now ex_jwt_env AtClaims = ex_now" by (simp add: ex_jwt_env_def)
  show ?thesis
    unfolding checkClaims_def marshal_def bytes_str_str_bytes unmarshal_print [OF ex_header_wf(2)] ex_claims_decode
      option.case claims.simps e n
    by (simp add: a ex_jwt_cfg_def ex_now_def)
qed

lemma length_ex_token: "length ex_token \<le> maxTokenBytes"
  by (simp add: ex_token_def jwt_of_def length_b64_encode marshal_def ex_jwt_header_def ex_jwt_claims_def
      encoded_len_def maxTokenBytes_def commas_def quote_plain plain_char_def nat_str.simps)

lemma ex_keyFor: "keyFor ex_jwt_cfg ex_jwt_env ''k'' (ex_cache (ex_now - 1) fl) = (Inr (RSAKey 7 3), ex_cache (ex_now - 1) fl)"
  by (simp add: keyFor_unfold cache_get_def Let_def ex_cache_def ex_jwt_cfg_def ex_jwt_env_def ex_now_def
      time_sub_def max_duration_def min_duration_def mget_def)

lemma ex_signature: "verifySignature ex_jwt_env ''RS256'' (RSAKey 7 3) m [7, 3]"
  by (simp add: verifySignature_def ex_jwt_env_def Let_def byte_of_def)

lemma ex_Verify: "Verify ex_jwt_cfg ex_jwt_env ex_token (ex_cache (ex_now - 1) fl) = (Inr ''alice'', ex_cache (ex_now - 1) fl)"
proof -
  have ne: "(ex_token = [] \<or> maxTokenBytes < length ex_token) = False"
    using length_ex_token by (simp add: ex_token_def jwt_of_def)
  have al: "supportedAlg ''RS256''" by (simp add: supportedAlg_def)
  show ?thesis
    unfolding Verify_def ne if_False
    unfolding ex_token_def go_split_jwt list.case b64_decode_encode option.case
      marshal_def bytes_str_str_bytes unmarshal_print [OF ex_header_wf(1)] bind.bind_lunit ex_header_decodes
      jwt_header.simps ex_keyFor prod.case sum.case
    by (simp add: al ex_signature ex_claims_ok [unfolded marshal_def])
qed

theorem Verify_sound_witness:
  "\<exists>kid key. token_accepted ex_jwt_cfg ex_jwt_env ex_token kid key ''alice''
     \<and> mget [(''k'', RSAKey 7 3)] kid = Some key"
  using Verify_sound [OF ex_Verify [of False]] by (auto simp: ex_cache_def)

theorem Verify_fails_closed_witness:
  "isl (fst (Verify ex_jwt_cfg ex_jwt_env ex_token (ex_cache (ex_now - 3600 * second) False)))"
  by (rule Verify_fails_closed)
    (simp_all add: ex_cache_def ex_jwt_env_def ex_jwt_cfg_def ex_now_def cache_get_fresh fetchJWKS_def
      time_sub_def max_duration_def min_duration_def)

theorem jwt_New_bounds_witness:
  "jwt_New (ex_jwt_cfg\<lparr>jc_CacheTTL := 0, jc_Leeway := 0\<rparr>) = Inr ex_jwt_cfg
   \<and> MinCacheTTL \<le> jc_CacheTTL ex_jwt_cfg \<and> jc_Leeway ex_jwt_cfg = DefaultLeeway"
proof -
  have n: "jwt_New (ex_jwt_cfg\<lparr>jc_CacheTTL := 0, jc_Leeway := 0\<rparr>) = Inr ex_jwt_cfg"
    by (simp add: jwt_New_def ex_jwt_cfg_def DefaultCacheTTL_def DefaultLeeway_def)
  with jwt_New_bounds [OF n] show ?thesis by simp
qed

theorem keyFor_waiter_accepts_stale_witness:
  "\<exists>c'. keyFor ex_jwt_cfg ex_jwt_env ''k'' (ex_cache 1 True) = (Inr (RSAKey 7 3), c') \<and> fetchedAt c' = 1"
proof -
  have "\<exists>c'. keyFor ex_jwt_cfg ex_jwt_env ''k'' (ex_cache 1 True) = (Inr (RSAKey 7 3), c')
    \<and> fetchedAt c' = fetchedAt (ex_cache 1 True)
    \<and> \<not> snd (cache_get c' ''k'' (jc_CacheTTL ex_jwt_cfg) (je_now ex_jwt_env AtKeyFor))"
    by (rule keyFor_waiter_accepts_stale [where ks = "[(''k'', RSAKey 7 3)]"])
      (simp_all add: ex_cache_def ex_jwt_env_def ex_jwt_cfg_def ex_now_def cache_get_fresh mget_def
        time_sub_def max_duration_def min_duration_def)
  then show ?thesis by (auto simp: ex_cache_def)
qed

theorem keyFor_stale_not_rate_limited_witness:
  "lastAttempt (snd (keyFor ex_jwt_cfg ex_jwt_env ''x'' (ex_cache (ex_now - 3600 * second) False))) = ex_now"
proof -
  have "lastAttempt (snd (keyFor ex_jwt_cfg ex_jwt_env ''x'' (ex_cache (ex_now - 3600 * second) False)))
      = je_now ex_jwt_env AtAttempt"
    by (rule keyFor_stale_not_rate_limited [THEN conjunct1])
      (simp_all add: ex_cache_def ex_jwt_env_def ex_jwt_cfg_def ex_now_def cache_get_fresh fetchJWKS_def
        time_sub_def max_duration_def min_duration_def)
  then show ?thesis by (simp add: ex_jwt_env_def)
qed

end
