(* ===== verification/Env.thy ===== *)
theory Env
  imports Config
begin

text \<open>
  The environment loader of \<open>relayd\<close> (\<open>internal/relay/env.go\<close>): every variable is trimmed,
  parsed or defaulted, errors are collected, and the assembled configuration goes through the
  defaults and the contract checks. The loader's \<open>errs\<close> field is the error list each reader
  returns beside its value, in the order the code reads.
\<close>

section \<open>String helpers (strings)\<close>

definition space_rune :: "nat \<Rightarrow> bool" where
  "space_rune r \<longleftrightarrow> r \<in> {0x09, 0x0A, 0x0B, 0x0C, 0x0D, 0x20, 0x85, 0xA0, 0x1680, 0x2028, 0x2029,
      0x202F, 0x205F, 0x3000} \<or> 0x2000 \<le> r \<and> r \<le> 0x200A"

function runes :: "string \<Rightarrow> (nat \<times> string) list" where
  "runes s = (if s = [] then []
     else (fst (dec_rune s), take (snd (dec_rune s)) s) # runes (drop (snd (dec_rune s)) s))"
  by pat_completeness auto
termination by (relation "measure length") (auto simp: dec_rune_pos)

declare runes.simps [simp del]

definition TrimSpace :: "string \<Rightarrow> string" where
  "TrimSpace s = (let sp = (\<lambda>rc. space_rune (fst rc));
                      rs = rev (dropWhile sp (rev (dropWhile sp (runes s))))
                  in concat (map snd rs))"

text \<open>\<open>ToLower\<close> on what can become one of the relay's ASCII keywords: ASCII letters, and the two
  runes outside ASCII with an ASCII lower case, U+0130 and U+212A.\<close>

fun ToLower :: "string \<Rightarrow> string" where
  "ToLower [] = []"
| "ToLower (a # s) =
     (if of_char a = (0xC4::nat) \<and> take 1 s = [CHR 0xB0] then CHR ''i'' # ToLower (drop 1 s)
      else if of_char a = (0xE2::nat) \<and> take 2 s = [CHR 0x84, CHR 0xAA] then CHR ''k'' # ToLower (drop 2 s)
      else if 65 \<le> (of_char a :: nat) \<and> (of_char a :: nat) \<le> 90 then char_of (of_char a + 32 :: nat) # ToLower s
      else a # ToLower s)"

definition TrimRight :: "string \<Rightarrow> char \<Rightarrow> string" where
  "TrimRight s c = rev (dropWhile (\<lambda>d. d = c) (rev s))"

lemma runes_ascii:
  "list_all (\<lambda>c. (of_char c :: nat) < 128) s \<Longrightarrow> runes s = map (\<lambda>c. (of_char c, [c])) s"
  by (induction s) (subst runes.simps, simp add: dec_rune_def Let_def)+

lemma TrimSpace_tight:
  assumes "list_all (\<lambda>c. (of_char c :: nat) < 128 \<and> \<not> space_rune (of_char c)) s"
  shows "TrimSpace s = s"
proof -
  have r: "runes s = map (\<lambda>c. (of_char c, [c])) s"
    using assms by (intro runes_ascii) (simp add: list_all_iff)
  have d: "dropWhile (\<lambda>rc. space_rune (fst rc)) xs = xs" if "\<forall>rc \<in> set xs. \<not> space_rune (fst rc)"
    for xs :: "(nat \<times> string) list"
    using that by (cases xs) auto
  have n: "\<forall>rc \<in> set (runes s). \<not> space_rune (fst rc)"
    using assms by (auto simp: r list_all_iff)
  then have "TrimSpace s = concat (map snd (runes s))"
    unfolding TrimSpace_def Let_def by (subst (2) d, simp, subst d) simp_all
  then show ?thesis by (simp add: r comp_def)
qed

section \<open>Readers\<close>

record envReader =
  er_get :: "string \<Rightarrow> string"
  er_ParseDuration :: "string \<Rightarrow> duration option"
  er_ParseFloat :: "string \<Rightarrow> f64 option"

datatype env_error = BadDuration string string | BadInteger string string | BadNumber string string
  | BadLogLevel | BadLogFormat | NoIssuer | NoAudience | BadShutdownGrace

definition env_str :: "envReader \<Rightarrow> string \<Rightarrow> string \<Rightarrow> string" where
  "env_str e key def = (let v = TrimSpace (er_get e key) in if v \<noteq> [] then v else def)"

definition env_dur :: "envReader \<Rightarrow> string \<Rightarrow> duration \<Rightarrow> duration \<times> env_error list" where
  "env_dur e key def = (let raw = TrimSpace (er_get e key) in
     if raw = [] then (def, []) else case er_ParseDuration e raw of
       None \<Rightarrow> (def, [BadDuration key raw]) | Some d \<Rightarrow> (d, []))"

definition env_intv :: "envReader \<Rightarrow> string \<Rightarrow> int \<Rightarrow> int \<times> env_error list" where
  "env_intv e key def = (let raw = TrimSpace (er_get e key) in
     if raw = [] then (def, []) else case ParseInt raw of
       None \<Rightarrow> (def, [BadInteger key raw]) | Some n \<Rightarrow> (n, []))"

definition env_int64v :: "envReader \<Rightarrow> string \<Rightarrow> int \<Rightarrow> int \<times> env_error list" where
  "env_int64v e key def = (let raw = TrimSpace (er_get e key) in
     if raw = [] then (def, []) else case ParseInt raw of
       None \<Rightarrow> (def, [BadInteger key raw]) | Some n \<Rightarrow> (n, []))"

definition env_float :: "envReader \<Rightarrow> string \<Rightarrow> f64 \<Rightarrow> f64 \<times> env_error list" where
  "env_float e key def = (let raw = TrimSpace (er_get e key) in
     if raw = [] then (def, []) else case er_ParseFloat e raw of
       None \<Rightarrow> (def, [BadNumber key raw]) | Some f \<Rightarrow> (f, []))"

section \<open>The loader\<close>

datatype log_level = LevelDebug | LevelInfo | LevelWarn | LevelError

record ServerConfig =
  sc_Addr :: string
  sc_ReadHeaderTimeout :: duration
  sc_IdleTimeout :: duration
  sc_ShutdownGrace :: duration
  sc_LogLevel :: log_level
  sc_LogJSON :: bool
  sc_Issuer :: string
  sc_Audience :: string
  sc_JWKSURL :: string
  sc_JWKSCacheTTL :: duration
  sc_JWTLeeway :: duration
  sc_BindingReaper :: duration
  sc_Relay :: Config

definition log_level :: "string \<Rightarrow> log_level \<times> env_error list" where
  "log_level s = (if s = ''debug'' then (LevelDebug, []) else if s = ''info'' then (LevelInfo, [])
     else if s = ''warn'' \<or> s = ''warning'' then (LevelWarn, [])
     else if s = ''error'' then (LevelError, []) else (LevelInfo, [BadLogLevel]))"

definition log_format :: "string \<Rightarrow> bool \<times> env_error list" where
  "log_format s = (if s = ''json'' then (True, []) else if s = ''text'' then (False, []) else (False, [BadLogFormat]))"

definition load_limits :: "envReader \<Rightarrow> Limits \<times> env_error list" where
  "load_limits e =
     (let (dps, e1) = env_float e ''RELAY_LIMIT_DEVICE_FRAMES_PER_SEC'' (Fin 60);
          (dpb, e2) = env_float e ''RELAY_LIMIT_DEVICE_FRAMES_BURST'' (Fin 120);
          (hps, e3) = env_float e ''RELAY_LIMIT_HOST_FRAMES_PER_SEC'' (Fin 200);
          (hpb, e4) = env_float e ''RELAY_LIMIT_HOST_FRAMES_BURST'' (Fin 400);
          (mbx, e5) = env_intv e ''RELAY_LIMIT_MAILBOX_GET_PER_MIN'' 30;
          (prs, e6) = env_intv e ''RELAY_LIMIT_PAIRINGS_PER_HOUR'' 10;
          (wns, e7) = env_intv e ''RELAY_LIMIT_WINDOWS_PER_HOUR'' 20;
          (att, e8) = env_intv e ''RELAY_LIMIT_ATTACHES_PER_WINDOW'' 10;
          (apn, e9) = env_intv e ''RELAY_LIMIT_APNS_REGS_PER_HOUR'' 10;
          (dac, e10) = env_intv e ''RELAY_LIMIT_DEVICE_ATTACH_PER_CHANNEL'' 4
      in (\<lparr>lt_DeviceFramesPerSec = dps, lt_DeviceFramesBurst = dpb, lt_HostFramesPerSec = hps,
           lt_HostFramesBurst = hpb, lt_MailboxGetPerMin = mbx, lt_PairingsPerHour = prs,
           lt_PairingWindowsPerHour = wns, lt_PairingAttachesPerWindow = att,
           lt_APNSRegsPerHour = apn, lt_DeviceAttachPerChannel = dac\<rparr>,
          e1 @ e2 @ e3 @ e4 @ e5 @ e6 @ e7 @ e8 @ e9 @ e10))"

definition load_relay :: "envReader \<Rightarrow> duration \<Rightarrow> Config \<times> env_error list" where
  "load_relay e reaper =
     (let (ttl, e1) = env_dur e ''RELAY_MAILBOX_TTL'' DefaultMailboxTTL;
          (frames, e2) = env_intv e ''RELAY_MAILBOX_MAX_FRAMES'' DefaultMailboxMaxFrames;
          (byts, e3) = env_int64v e ''RELAY_MAILBOX_MAX_BYTES'' DefaultMailboxMaxBytes;
          (wttl, e4) = env_dur e ''RELAY_WINDOW_TTL'' DefaultWindowTTL;
          (off, e5) = env_dur e ''RELAY_OFFLINE_AFTER'' DefaultOfflineAfter;
          (hb, e6) = env_dur e ''RELAY_HEARTBEAT_INTERVAL'' DefaultHeartbeatInterval;
          (lims, e7) = load_limits e
      in (\<lparr>cf_Store = None, cf_Validator = None, cf_Clock = None, cf_Logger = None, cf_Pusher = None,
           cf_Ready = None, cf_MailboxTTL = ttl, cf_MailboxMaxFrames = frames, cf_MailboxMaxBytes = byts,
           cf_WindowTTL = wttl, cf_OfflineAfter = off, cf_HeartbeatInterval = hb,
           cf_MaxFrameSize = DefaultMaxFrameSize, cf_MaxHeaderLen = DefaultMaxHeaderLen,
           cf_BindingIdleReap = reaper, cf_Limits = lims\<rparr>,
          e1 @ e2 @ e3 @ e4 @ e5 @ e6 @ e7))"

definition LoadServerConfig :: "envReader \<Rightarrow> (env_error list + config_error) + ServerConfig" where
  "LoadServerConfig e =
     (let addr = env_str e ''RELAY_ADDR'' '':8080'';
          (rht, e1) = env_dur e ''RELAY_READ_HEADER_TIMEOUT'' (10 * second);
          (idle, e2) = env_dur e ''RELAY_IDLE_TIMEOUT'' (120 * second);
          (grace, e3) = env_dur e ''RELAY_SHUTDOWN_GRACE'' (20 * second);
          issuer = env_str e ''RELAY_OIDC_ISSUER'' [];
          aud = env_str e ''RELAY_AUDIENCE'' ''kameas-api'';
          jwks = env_str e ''RELAY_JWKS_URL'' [];
          (cttl, e4) = env_dur e ''RELAY_JWKS_CACHE_TTL'' (15 * minute);
          (leeway, e5) = env_dur e ''RELAY_JWT_LEEWAY'' (60 * second);
          (reaper, e6) = env_dur e ''RELAY_BINDING_IDLE_REAP'' DefaultBindingIdleReap;
          (level, e7) = log_level (ToLower (env_str e ''RELAY_LOG_LEVEL'' ''info''));
          (isjson, e8) = log_format (ToLower (env_str e ''RELAY_LOG_FORMAT'' ''json''));
          e9 = (if issuer = [] then [NoIssuer] else []);
          jwks = (if jwks = [] \<and> issuer \<noteq> [] then TrimRight issuer (CHR ''/'') @ ''/oauth/v2/keys'' else jwks);
          e10 = (if aud = [] then [NoAudience] else []);
          (relay, e11) = load_relay e reaper;
          e12 = (if grace \<le> 0 then [BadShutdownGrace] else []);
          errs = e1 @ e2 @ e3 @ e4 @ e5 @ e6 @ e7 @ e8 @ e9 @ e10 @ e11 @ e12
      in if errs \<noteq> [] then Inl (Inl errs)
         else let relay = Config_applyDefaults relay;
                  probe = relay\<lparr>cf_Store := Some ''noopStoreProbe'', cf_Validator := Some ''noopValidatorProbe''\<rparr>
              in case Validate probe of
                   Some err \<Rightarrow> Inl (Inr err)
                 | None \<Rightarrow> Inr \<lparr>sc_Addr = addr, sc_ReadHeaderTimeout = rht, sc_IdleTimeout = idle,
                     sc_ShutdownGrace = grace, sc_LogLevel = level, sc_LogJSON = isjson, sc_Issuer = issuer,
                     sc_Audience = aud, sc_JWKSURL = jwks, sc_JWKSCacheTTL = cttl, sc_JWTLeeway = leeway,
                     sc_BindingReaper = reaper, sc_Relay = relay\<rparr>)"

section \<open>What the loader guarantees\<close>

definition with_deps :: "string \<Rightarrow> string \<Rightarrow> Config \<Rightarrow> Config" where
  "with_deps store validator c = c\<lparr>cf_Store := Some store, cf_Validator := Some validator\<rparr>"

lemma Validate_with_deps: "config_ok (with_deps s v c) \<longleftrightarrow> config_ok (with_deps s' v' c)"
  by (simp add: config_ok_def with_deps_def)

lemma applyDefaults_with_deps: "Config_applyDefaults (with_deps s v c) = with_deps s v (Config_applyDefaults c)"
  by (simp add: Config_applyDefaults_def with_deps_def)

lemma load_relay_hard: "cf_MaxFrameSize (fst (load_relay e r)) = DefaultMaxFrameSize"
  "cf_MaxHeaderLen (fst (load_relay e r)) = DefaultMaxHeaderLen"
  "cf_BindingIdleReap (fst (load_relay e r)) = r"
  by (simp_all add: load_relay_def Let_def split: prod.splits)

lemma LoadServerConfig_ok:
  assumes "LoadServerConfig e = Inr c"
  shows "sc_Relay c = Config_applyDefaults (fst (load_relay e (sc_BindingReaper c)))
      \<and> Validate (with_deps ''noopStoreProbe'' ''noopValidatorProbe'' (sc_Relay c)) = None"
    and "sc_Issuer c \<noteq> []" "sc_Audience c \<noteq> []" "sc_JWKSURL c \<noteq> []" "0 < sc_ShutdownGrace c"
  using assms unfolding LoadServerConfig_def Let_def with_deps_def
  by (auto split: prod.splits if_splits option.splits)

lemma applyDefaults_idem_fields:
  "config_ok (with_deps s v (Config_applyDefaults c)) \<Longrightarrow> config_ok (with_deps s v (Config_applyDefaults (Config_applyDefaults c)))"
  by (simp add: Config_applyDefaults_def config_ok_def with_deps_def) (simp add: or_default_def)

text \<open>No limit has a value the limiter reads as unlimited. A float may still be a NaN or infinite, which is
  what \<open>Limiter.nonfinite_burst\<close> is about.\<close>

definition limits_active :: "Limits \<Rightarrow> bool" where
  "limits_active l \<longleftrightarrow> \<not> f64_le (lt_DeviceFramesPerSec l) (Fin 0) \<and> \<not> f64_le (lt_DeviceFramesBurst l) (Fin 0)
     \<and> \<not> f64_le (lt_HostFramesPerSec l) (Fin 0) \<and> \<not> f64_le (lt_HostFramesBurst l) (Fin 0) \<and> 0 < lt_MailboxGetPerMin l
     \<and> 0 < lt_PairingsPerHour l \<and> 0 < lt_PairingWindowsPerHour l \<and> 0 < lt_PairingAttachesPerWindow l
     \<and> 0 < lt_APNSRegsPerHour l \<and> 0 < lt_DeviceAttachPerChannel l"

text \<open>The limits that run where \<open>l\<close> were asked for: a value above zero, infinity and NaN included, is kept,
  any other is the default.\<close>

definition running_limits :: "Limits \<Rightarrow> Limits" where
  "running_limits l =
     (let float = (\<lambda>v d. if f64_le v (Fin 0) then Fin d else v); intv = (\<lambda>v d. if v \<le> 0 then d else v) in
      \<lparr>lt_DeviceFramesPerSec = float (lt_DeviceFramesPerSec l) 60, lt_DeviceFramesBurst = float (lt_DeviceFramesBurst l) 120,
       lt_HostFramesPerSec = float (lt_HostFramesPerSec l) 200, lt_HostFramesBurst = float (lt_HostFramesBurst l) 400,
       lt_MailboxGetPerMin = intv (lt_MailboxGetPerMin l) 30, lt_PairingsPerHour = intv (lt_PairingsPerHour l) 10,
       lt_PairingWindowsPerHour = intv (lt_PairingWindowsPerHour l) 20,
       lt_PairingAttachesPerWindow = intv (lt_PairingAttachesPerWindow l) 10,
       lt_APNSRegsPerHour = intv (lt_APNSRegsPerHour l) 10, lt_DeviceAttachPerChannel = intv (lt_DeviceAttachPerChannel l) 4\<rparr>)"

lemma limits_twice: "cf_Limits (Config_applyDefaults (Config_applyDefaults c)) = running_limits (cf_Limits c)"
  by (simp add: Config_applyDefaults_def Limits_applyDefaults_def running_limits_def limit_default_twice float_default_twice)

lemma running_limits_active: "limits_active (running_limits l)"
  by (simp add: running_limits_def limits_active_def Let_def)

lemma load_relay_limits: "cf_Limits (fst (load_relay e r)) = fst (load_limits e)"
  by (simp add: load_relay_def Let_def split: prod.splits)

text \<open>Whatever the environment holds, a configuration the loader returns is within every
  contract ceiling once \<open>relayd\<close> has supplied its store and validator, also after \<open>New\<close> applies the
  defaults a second time; authentication is configured; and the limits that run are those of the
  environment, with the default in place of a value that is not above zero.\<close>

theorem LoadServerConfig_within_ceilings:
  assumes "LoadServerConfig e = Inr c"
  shows "config_ok (with_deps st va (sc_Relay c))
    \<and> config_ok (Config_applyDefaults (with_deps st va (sc_Relay c)))
    \<and> cf_Limits (Config_applyDefaults (with_deps st va (sc_Relay c))) = running_limits (fst (load_limits e))
    \<and> sc_Issuer c \<noteq> [] \<and> sc_Audience c \<noteq> [] \<and> sc_JWKSURL c \<noteq> []"
proof -
  obtain r where r: "sc_Relay c = Config_applyDefaults (fst (load_relay e r))"
    and v: "Validate (with_deps ''noopStoreProbe'' ''noopValidatorProbe'' (sc_Relay c)) = None"
    using LoadServerConfig_ok(1) [OF assms] by blast
  have ok: "config_ok (with_deps st va (sc_Relay c))"
    using v Validate_with_deps [of st va "sc_Relay c" "''noopStoreProbe''" "''noopValidatorProbe''"]
    by (simp add: Validate_iff)
  then have "config_ok (with_deps st va (Config_applyDefaults (sc_Relay c)))"
    unfolding r by (rule applyDefaults_idem_fields)
  moreover have "cf_Limits (Config_applyDefaults (sc_Relay c)) = running_limits (fst (load_limits e))"
    unfolding r limits_twice load_relay_limits ..
  then have "cf_Limits (with_deps st va (Config_applyDefaults (sc_Relay c))) = running_limits (fst (load_limits e))"
    by (simp add: with_deps_def)
  ultimately show ?thesis
    using ok LoadServerConfig_ok(2-4) [OF assms] by (simp add: applyDefaults_with_deps)
qed

definition ex_env :: envReader where
  "ex_env = \<lparr>er_get = (\<lambda>k. if k = ''RELAY_OIDC_ISSUER'' then ''https://id''
       else if k = ''RELAY_LIMIT_PAIRINGS_PER_HOUR'' then ''-1''
       else if k = ''RELAY_LIMIT_HOST_FRAMES_BURST'' then ''NaN'' else []),
     er_ParseDuration = (\<lambda>_. None), er_ParseFloat = (\<lambda>s. if s = ''NaN'' then Some NaN else None)\<rparr>"

lemma ex_env_get [simp]:
  "TrimSpace (er_get ex_env k) = (if k = ''RELAY_OIDC_ISSUER'' then ''https://id''
     else if k = ''RELAY_LIMIT_PAIRINGS_PER_HOUR'' then ''-1''
     else if k = ''RELAY_LIMIT_HOST_FRAMES_BURST'' then ''NaN'' else [])"
  by (subst TrimSpace_tight) (simp_all add: ex_env_def space_rune_def)

lemma ex_env_parse [simp]: "er_ParseFloat ex_env ''NaN'' = Some NaN"
  by (simp add: ex_env_def)

lemma ex_env_limits: "load_limits ex_env = (\<lparr>lt_DeviceFramesPerSec = Fin 60, lt_DeviceFramesBurst = Fin 120,
      lt_HostFramesPerSec = Fin 200, lt_HostFramesBurst = NaN, lt_MailboxGetPerMin = 30,
      lt_PairingsPerHour = -1, lt_PairingWindowsPerHour = 20, lt_PairingAttachesPerWindow = 10,
      lt_APNSRegsPerHour = 10, lt_DeviceAttachPerChannel = 4\<rparr>, [])"
proof -
  have "ParseInt ''-1'' = Some (-1)"
    by (simp add: ParseInt_def is_digit_def digits_val_def digit_val_def)
  then show ?thesis by (simp add: load_limits_def env_intv_def env_float_def Let_def)
qed

lemma ex_env_loads:
  "\<exists>c. LoadServerConfig ex_env = Inr c \<and> lt_PairingsPerHour (cf_Limits (sc_Relay c)) = 0
     \<and> sc_JWKSCacheTTL c = 15 * minute \<and> sc_JWTLeeway c = 60 * second"
proof -
  have l: "ToLower ''info'' = ''info''" "ToLower ''json'' = ''json''" by simp_all
  note rd = env_str_def env_dur_def env_intv_def env_int64v_def env_float_def Let_def
  show ?thesis
    by (simp add: LoadServerConfig_def load_relay_def ex_env_limits rd l log_level_def log_format_def
        Validate_def dur_ceiling_def Config_applyDefaults_def Limits_applyDefaults_def
        limit_default_def or_default_def config_defaults del: ToLower.simps)
qed

theorem LoadServerConfig_within_ceilings_witness:
  "\<exists>c. LoadServerConfig ex_env = Inr c \<and> lt_PairingsPerHour (cf_Limits (sc_Relay c)) = 0
     \<and> config_ok (with_deps ''MemStore'' ''JWTValidator'' (sc_Relay c))
     \<and> cf_Limits (Config_applyDefaults (with_deps ''MemStore'' ''JWTValidator'' (sc_Relay c))) = running_limits (fst (load_limits ex_env))"
  using ex_env_loads LoadServerConfig_within_ceilings by blast

end
