(* ===== verification/Envelope.thy ===== *)
theory Envelope
  imports GoTime Frames
begin

text \<open>
  The JSON envelopes of the endpoints (\<open>wire/envelope.go\<close>): the envelope, its two constructors,
  its parser with the version check, and the bodies of the control, handshake and payload kinds.
  A \<open>json.RawMessage\<close> is the value it holds, None while it is nil. Marshalling one of the body
  structs cannot fail, so a constructor takes the value a body marshals to; a body that does not
  decode is None.
\<close>

section \<open>Decoding into structs\<close>

text \<open>A struct's fields with the way each is set; unknown members are ignored.\<close>

definition into_rec :: "(string \<times> (json \<Rightarrow> 'a \<Rightarrow> 'a option)) list \<Rightarrow> json \<Rightarrow> 'a \<Rightarrow> 'a option" where
  "into_rec fs v x = into_struct (map fst fs)
     (\<lambda>f v x. case f of None \<Rightarrow> Some x
        | Some k \<Rightarrow> (case map_of fs k of None \<Rightarrow> Some x | Some set_field \<Rightarrow> set_field v x)) v x"

definition str_field :: "((string \<Rightarrow> string) \<Rightarrow> 'a \<Rightarrow> 'a) \<Rightarrow> ('a \<Rightarrow> string) \<Rightarrow> json \<Rightarrow> 'a \<Rightarrow> 'a option" where
  "str_field upd get v x = map_option (\<lambda>s. upd (\<lambda>_. s) x) (into_string v (get x))"

definition into_int :: "json \<Rightarrow> int \<Rightarrow> int option" where
  "into_int v old = (case v of JNull \<Rightarrow> Some old | JNum l \<Rightarrow> ParseInt l | _ \<Rightarrow> None)"

definition int_field :: "((int \<Rightarrow> int) \<Rightarrow> 'a \<Rightarrow> 'a) \<Rightarrow> ('a \<Rightarrow> int) \<Rightarrow> json \<Rightarrow> 'a \<Rightarrow> 'a option" where
  "int_field upd get v x = map_option (\<lambda>i. upd (\<lambda>_. i) x) (into_int v (get x))"

definition uint_field :: "((uint64 \<Rightarrow> uint64) \<Rightarrow> 'a \<Rightarrow> 'a) \<Rightarrow> ('a \<Rightarrow> uint64) \<Rightarrow> json \<Rightarrow> 'a \<Rightarrow> 'a option" where
  "uint_field upd get v x = map_option (\<lambda>i. upd (\<lambda>_. i) x) (into_uint64 v (get x))"

definition into_bool :: "json \<Rightarrow> bool \<Rightarrow> bool option" where
  "into_bool v old = (case v of JNull \<Rightarrow> Some old | JBool b \<Rightarrow> Some b | _ \<Rightarrow> None)"

definition bool_field :: "((bool \<Rightarrow> bool) \<Rightarrow> 'a \<Rightarrow> 'a) \<Rightarrow> ('a \<Rightarrow> bool) \<Rightarrow> json \<Rightarrow> 'a \<Rightarrow> 'a option" where
  "bool_field upd get v x = map_option (\<lambda>b. upd (\<lambda>_. b) x) (into_bool v (get x))"

text \<open>\<open>hex.EncodeToString\<close>.\<close>

definition hex_encode :: "bytes \<Rightarrow> string" where
  "hex_encode bs = concat (map (\<lambda>b. [hexd (unat b div 16), hexd (unat b mod 16)]) bs)"

section \<open>Envelopes\<close>

record Envelope =
  ev_V :: int
  ev_Kind :: string
  ev_TS :: string
  ev_ID :: string
  ev_Body :: "json option"

definition EnvelopeV1 :: int where "EnvelopeV1 = 1"

text \<open>RFC 3339 in UTC with millisecond precision.\<close>

definition TS :: "gotime \<Rightarrow> string" where
  "TS t = (let secs = t div 1000000000; (y, m, d) = civil (secs div 86400); s = secs mod 86400
     in pad_int 4 y @ ''-'' @ pad_int 2 m @ ''-'' @ pad_int 2 d @ ''T''
        @ pad_int 2 (s div 3600) @ '':'' @ pad_int 2 (s div 60 mod 60) @ '':'' @ pad_int 2 (s mod 60)
        @ ''.'' @ pad_int 3 (t mod 1000000000 div 1000000) @ ''Z'')"

definition NewControl :: "string \<Rightarrow> json \<Rightarrow> Envelope" where
  "NewControl kind body = \<lparr>ev_V = EnvelopeV1, ev_Kind = kind, ev_TS = [], ev_ID = [], ev_Body = Some body\<rparr>"

definition NewPayload :: "string \<Rightarrow> string \<Rightarrow> gotime \<Rightarrow> json \<Rightarrow> Envelope" where
  "NewPayload kind ident t body = \<lparr>ev_V = EnvelopeV1, ev_Kind = kind, ev_TS = TS t, ev_ID = ident, ev_Body = Some body\<rparr>"

definition envelope_json :: "Envelope \<Rightarrow> json" where
  "envelope_json e = JObj ([(''v'', JNum (int_str (ev_V e))), (''kind'', JStr (ev_Kind e))]
     @ (if ev_TS e = [] then [] else [(''ts'', JStr (ev_TS e))])
     @ (if ev_ID e = [] then [] else [(''id'', JStr (ev_ID e))])
     @ [(''body'', case ev_Body e of None \<Rightarrow> JNull | Some v \<Rightarrow> v)])"

definition Envelope_Marshal :: "Envelope \<Rightarrow> bytes" where
  "Envelope_Marshal e = marshal (envelope_json e)"

datatype envelope_error = MalformedEnvelope | UnsupportedVersion

definition into_envelope :: "json \<Rightarrow> Envelope option" where
  "into_envelope v = into_rec [(''v'', int_field ev_V_update ev_V), (''kind'', str_field ev_Kind_update ev_Kind),
     (''ts'', str_field ev_TS_update ev_TS), (''id'', str_field ev_ID_update ev_ID),
     (''body'', \<lambda>v e. Some (e\<lparr>ev_Body := Some v\<rparr>))] v
     \<lparr>ev_V = 0, ev_Kind = [], ev_TS = [], ev_ID = [], ev_Body = None\<rparr>"

definition ParseEnvelope :: "bytes \<Rightarrow> envelope_error + Envelope" where
  "ParseEnvelope raw =
     (case unmarshal (bytes_str raw) of None \<Rightarrow> Inl MalformedEnvelope
      | Some v \<Rightarrow> (case into_envelope v of None \<Rightarrow> Inl MalformedEnvelope
         | Some e \<Rightarrow> if ev_V e \<noteq> EnvelopeV1 then Inl UnsupportedVersion else Inr e))"

definition DecodeBody :: "Envelope \<Rightarrow> (json \<Rightarrow> 'a option) \<Rightarrow> 'a option" where
  "DecodeBody e into = (case ev_Body e of None \<Rightarrow> None | Some v \<Rightarrow> into v)"

section \<open>Control and handshake bodies\<close>

record SessHello =
  sh_Proto :: int
  sh_DeviceID :: string
  sh_ND :: string

definition SessHello_json :: "SessHello \<Rightarrow> json" where
  "SessHello_json b = JObj [(''proto'', JNum (int_str (sh_Proto b))), (''device_id'', JStr (sh_DeviceID b)), (''n_d'', JStr (sh_ND b))]"

definition into_SessHello :: "json \<Rightarrow> SessHello option" where
  "into_SessHello v = into_rec [(''proto'', int_field sh_Proto_update sh_Proto), (''device_id'', str_field sh_DeviceID_update sh_DeviceID),
     (''n_d'', str_field sh_ND_update sh_ND)] v \<lparr>sh_Proto = 0, sh_DeviceID = [], sh_ND = []\<rparr>"

record SessAccept =
  sa_HostID :: string
  sa_NH :: string
  sa_HdrH2D :: string

definition SessAccept_json :: "SessAccept \<Rightarrow> json" where
  "SessAccept_json b = JObj [(''host_id'', JStr (sa_HostID b)), (''n_h'', JStr (sa_NH b)), (''hdr_h2d'', JStr (sa_HdrH2D b))]"

definition into_SessAccept :: "json \<Rightarrow> SessAccept option" where
  "into_SessAccept v = into_rec [(''host_id'', str_field sa_HostID_update sa_HostID), (''n_h'', str_field sa_NH_update sa_NH),
     (''hdr_h2d'', str_field sa_HdrH2D_update sa_HdrH2D)] v \<lparr>sa_HostID = [], sa_NH = [], sa_HdrH2D = []\<rparr>"

record SessHeader =
  sx_HdrD2H :: string

definition SessHeader_json :: "SessHeader \<Rightarrow> json" where
  "SessHeader_json b = JObj [(''hdr_d2h'', JStr (sx_HdrD2H b))]"

definition into_SessHeader :: "json \<Rightarrow> SessHeader option" where
  "into_SessHeader v = into_rec [(''hdr_d2h'', str_field sx_HdrD2H_update sx_HdrD2H)] v \<lparr>sx_HdrD2H = []\<rparr>"

record SessConfirm =
  sc_TranscriptMAC :: string

definition SessConfirm_json :: "SessConfirm \<Rightarrow> json" where
  "SessConfirm_json b = JObj [(''transcript_mac'', JStr (sc_TranscriptMAC b))]"

definition into_SessConfirm :: "json \<Rightarrow> SessConfirm option" where
  "into_SessConfirm v = into_rec [(''transcript_mac'', str_field sc_TranscriptMAC_update sc_TranscriptMAC)] v \<lparr>sc_TranscriptMAC = []\<rparr>"

text \<open>\<open>SessDenied\<close>, \<open>PairDenied\<close> and \<open>SessionRevoked\<close> carry one reason.\<close>

definition reason_json :: "string \<Rightarrow> json" where
  "reason_json reason = JObj [(''reason'', JStr reason)]"

definition DeniedUnknownDevice :: string where "DeniedUnknownDevice = ''unknown_device''"
definition DeniedProtoUnsupported :: string where "DeniedProtoUnsupported = ''proto_unsupported''"
definition DeniedPairFailed :: string where "DeniedPairFailed = ''pair_failed''"

record PairInit =
  pi_Proto :: int
  pi_DeviceID :: string
  pi_DevPK :: string
  pi_ND :: string
  pi_MacPair :: string

definition PairInit_json :: "PairInit \<Rightarrow> json" where
  "PairInit_json b = JObj [(''proto'', JNum (int_str (pi_Proto b))), (''device_id'', JStr (pi_DeviceID b)), (''dev_pk'', JStr (pi_DevPK b)),
     (''n_d'', JStr (pi_ND b)), (''mac_pair'', JStr (pi_MacPair b))]"

definition into_PairInit :: "json \<Rightarrow> PairInit option" where
  "into_PairInit v = into_rec [(''proto'', int_field pi_Proto_update pi_Proto), (''device_id'', str_field pi_DeviceID_update pi_DeviceID),
     (''dev_pk'', str_field pi_DevPK_update pi_DevPK), (''n_d'', str_field pi_ND_update pi_ND),
     (''mac_pair'', str_field pi_MacPair_update pi_MacPair)] v
     \<lparr>pi_Proto = 0, pi_DeviceID = [], pi_DevPK = [], pi_ND = [], pi_MacPair = []\<rparr>"

record PairIdentity =
  pd_ConfD :: string
  pd_IDToken :: string
  pd_DeviceName :: string
  pd_DeviceModel :: string

definition PairIdentity_json :: "PairIdentity \<Rightarrow> json" where
  "PairIdentity_json b = JObj [(''conf_d'', JStr (pd_ConfD b)), (''id_token'', JStr (pd_IDToken b)), (''device_name'', JStr (pd_DeviceName b)),
     (''device_model'', JStr (pd_DeviceModel b))]"

definition into_PairIdentity :: "json \<Rightarrow> PairIdentity option" where
  "into_PairIdentity v = into_rec [(''conf_d'', str_field pd_ConfD_update pd_ConfD), (''id_token'', str_field pd_IDToken_update pd_IDToken),
     (''device_name'', str_field pd_DeviceName_update pd_DeviceName), (''device_model'', str_field pd_DeviceModel_update pd_DeviceModel)] v
     \<lparr>pd_ConfD = [], pd_IDToken = [], pd_DeviceName = [], pd_DeviceModel = []\<rparr>"

record PairComplete =
  pm_ConfH :: string
  pm_HostID :: string
  pm_HostName :: string
  pm_AccountBind :: string
  pm_ChannelID :: string

definition PairComplete_json :: "PairComplete \<Rightarrow> json" where
  "PairComplete_json b = JObj [(''conf_h'', JStr (pm_ConfH b)), (''host_id'', JStr (pm_HostID b)), (''host_name'', JStr (pm_HostName b)),
     (''account_bind'', JStr (pm_AccountBind b)), (''channel_id'', JStr (pm_ChannelID b))]"

definition into_PairComplete :: "json \<Rightarrow> PairComplete option" where
  "into_PairComplete v = into_rec [(''conf_h'', str_field pm_ConfH_update pm_ConfH), (''host_id'', str_field pm_HostID_update pm_HostID),
     (''host_name'', str_field pm_HostName_update pm_HostName), (''account_bind'', str_field pm_AccountBind_update pm_AccountBind),
     (''channel_id'', str_field pm_ChannelID_update pm_ChannelID)] v
     \<lparr>pm_ConfH = [], pm_HostID = [], pm_HostName = [], pm_AccountBind = [], pm_ChannelID = []\<rparr>"

section \<open>Round trips\<close>

lemmas into_defs = into_rec_def into_struct_def field_of_exact str_field_def int_field_def into_string_def into_int_def
  uint_field_def into_uint64_def bool_field_def into_bool_def

lemma into_bodies [simp]:
  "0 \<le> sh_Proto a \<Longrightarrow> sh_Proto a < 2 ^ 63 \<Longrightarrow> into_SessHello (SessHello_json a) = Some a"
  "into_SessAccept (SessAccept_json b) = Some b" "into_SessHeader (SessHeader_json c) = Some c"
  "into_SessConfirm (SessConfirm_json d) = Some d"
  "0 \<le> pi_Proto e \<Longrightarrow> pi_Proto e < 2 ^ 63 \<Longrightarrow> into_PairInit (PairInit_json e) = Some e"
  "into_PairIdentity (PairIdentity_json f) = Some f" "into_PairComplete (PairComplete_json g) = Some g"
  by (simp_all add: into_SessHello_def SessHello_json_def into_SessAccept_def SessAccept_json_def into_SessHeader_def SessHeader_json_def
      into_SessConfirm_def SessConfirm_json_def into_PairInit_def PairInit_json_def into_PairIdentity_def PairIdentity_json_def
      into_PairComplete_def PairComplete_json_def into_defs)

lemma TS_plain [simp]: "plain (TS t)"
  by (simp add: TS_def Let_def pad_int_plain punct_plain plain_char_def split: prod.splits)

text \<open>An envelope whose strings are UTF-8.\<close>

definition utf8_envelope :: "Envelope \<Rightarrow> bool" where
  "utf8_envelope e \<longleftrightarrow> ev_V e = EnvelopeV1 \<and> utf8 (ev_Kind e) \<and> utf8 (ev_TS e) \<and> utf8 (ev_ID e)
     \<and> (\<exists>v. ev_Body e = Some v \<and> wf_json v)"

lemma wf_envelope_json:
  assumes "utf8_envelope e" shows "wf_json (envelope_json e)"
  using assms by (cases "ev_TS e = []"; cases "ev_ID e = []") (auto simp: utf8_envelope_def envelope_json_def plain_char_def)

lemma into_envelope_json:
  assumes "ev_V e = EnvelopeV1" "ev_Body e = Some v"
  shows "into_envelope (envelope_json e) = Some e"
  using assms
  by (cases "ev_TS e = []"; cases "ev_ID e = []")
    (simp_all add: into_envelope_def envelope_json_def into_defs EnvelopeV1_def)

lemma ParseEnvelope_Marshal:
  assumes "utf8_envelope e" shows "ParseEnvelope (Envelope_Marshal e) = Inr e"
  using assms unmarshal_print [OF wf_envelope_json [OF assms]] into_envelope_json [of e]
  by (auto simp: utf8_envelope_def ParseEnvelope_def Envelope_Marshal_def marshal_def bytes_str_str_bytes)

section \<open>Frames that carry envelopes\<close>

lemma plain_b64 [simp]: "plain (b64_encode bs)"
  unfolding plain_def list_all_iff using set_b64_encode enc6_plain by fastforce

lemma plain_bin [simp]: "plain (EncodeBin bs)" "plain (EncodeChannelID bs)"
  by (simp_all add: EncodeBin_def EncodeChannelID_def)

lemma DecodeBin_EncodeBin [simp]: "length bs = n \<Longrightarrow> DecodeBin (EncodeBin bs) n = Inr bs"
  "length bs = n \<Longrightarrow> DecodeBin (EncodeChannelID bs) n = Inr bs"
  by (simp_all add: DecodeBin_iff EncodeBin_def EncodeChannelID_def)

lemma DecodeChannelID_Encode [simp]: "length bs = 16 \<Longrightarrow> DecodeChannelID (EncodeChannelID bs) = Inr bs"
  by (simp add: DecodeChannelID_DecodeBin)

lemma EncodeChannelID_inj [simp]: "EncodeChannelID a = EncodeChannelID b \<longleftrightarrow> a = b"
proof
  assume "EncodeChannelID a = EncodeChannelID b"
  then have "b64_decode True (b64_encode a) = b64_decode True (b64_encode b)" by (simp add: EncodeChannelID_def)
  then show "a = b" by simp
qed simp

lemma EncodeBin_inj [simp]: "EncodeBin a = EncodeBin b \<longleftrightarrow> a = b"
  using EncodeChannelID_inj [of a b] by (simp add: EncodeBin_def EncodeChannelID_def)

lemma EncodeBin_EncodeChannelID [simp]: "EncodeBin a = EncodeChannelID b \<longleftrightarrow> a = b"
  using EncodeChannelID_inj [of a b] by (simp add: EncodeBin_def EncodeChannelID_def)

text \<open>The frame of a header and a body.\<close>

definition frame_of :: "string \<Rightarrow> uint64 \<Rightarrow> string \<Rightarrow> bytes \<Rightarrow> bytes" where
  "frame_of channel seq pushClass body =
     the (wire_EncodeFrame \<lparr>hd_Channel = channel, hd_Seq = seq, hd_PushClass = pushClass\<rparr> body)"

lemma frame_of_encode [simp]:
  assumes "validID channel" "validPushClass pushClass"
  shows "wire_EncodeFrame \<lparr>hd_Channel = channel, hd_Seq = seq, hd_PushClass = pushClass\<rparr> body = Some (frame_of channel seq pushClass body)"
    and "wire_DecodeFrame (frame_of channel seq pushClass body) = Inr (\<lparr>hd_Channel = channel, hd_Seq = seq, hd_PushClass = pushClass\<rparr>, body)"
proof -
  let ?h = "\<lparr>hd_Channel = channel, hd_Seq = seq, hd_PushClass = pushClass\<rparr>"
  obtain msg where m: "EncodeFrame ?h body = Some msg" "DecodeFrame msg DefaultMaxHeaderLen = Inr (?h, body)"
    using EncodeFrame_Decode [of ?h body] assms by auto
  then show "wire_EncodeFrame ?h body = Some (frame_of channel seq pushClass body)"
    by (simp only: frame_of_def wire_codec_encode option.sel)
  show "wire_DecodeFrame (frame_of channel seq pushClass body) = Inr (?h, body)"
    using m by (simp only: frame_of_def wire_codec_encode option.sel wire_codec)
qed

lemma validPushClass_simps [simp]: "validPushClass ''none''" "validPushClass ''wake''" "validPushClass ''attention''"
  by (simp_all add: validPushClass_def push_defs)

lemma validID_EncodeChannelID [simp]: "length bs = 16 \<Longrightarrow> validID (EncodeChannelID bs)"
  by (simp add: EncodeChannelID_def)

lemma ParseEnvelope_control [simp]:
  "utf8 kind \<Longrightarrow> wf_json body \<Longrightarrow> ParseEnvelope (Envelope_Marshal (NewControl kind body)) = Inr (NewControl kind body)"
  by (rule ParseEnvelope_Marshal) (simp add: utf8_envelope_def NewControl_def)

lemma ParseEnvelope_payload [simp]:
  "utf8 kind \<Longrightarrow> utf8 ident \<Longrightarrow> wf_json body
    \<Longrightarrow> ParseEnvelope (Envelope_Marshal (NewPayload kind ident t body)) = Inr (NewPayload kind ident t body)"
  by (rule ParseEnvelope_Marshal) (simp add: utf8_envelope_def NewPayload_def)

lemma NewControl_simps [simp]: "ev_Kind (NewControl kind body) = kind" "DecodeBody (NewControl kind body) into = into body"
  "ev_ID (NewControl kind body) = []"
  by (simp_all add: NewControl_def DecodeBody_def)

lemma NewPayload_simps [simp]: "ev_Kind (NewPayload kind ident t body) = kind" "DecodeBody (NewPayload kind ident t body) into = into body"
  "ev_ID (NewPayload kind ident t body) = ident"
  by (simp_all add: NewPayload_def DecodeBody_def)

text \<open>The kinds and member names of the protocol need no escaping.\<close>

lemma wf_bodies [simp]:
  "utf8 (sh_DeviceID a) \<Longrightarrow> utf8 (sh_ND a) \<Longrightarrow> wf_json (SessHello_json a)"
  "utf8 (sa_HostID b) \<Longrightarrow> utf8 (sa_NH b) \<Longrightarrow> utf8 (sa_HdrH2D b) \<Longrightarrow> wf_json (SessAccept_json b)"
  "utf8 (sx_HdrD2H c) \<Longrightarrow> wf_json (SessHeader_json c)" "utf8 (sc_TranscriptMAC d) \<Longrightarrow> wf_json (SessConfirm_json d)"
  "utf8 (pi_DeviceID i) \<Longrightarrow> utf8 (pi_DevPK i) \<Longrightarrow> utf8 (pi_ND i) \<Longrightarrow> utf8 (pi_MacPair i) \<Longrightarrow> wf_json (PairInit_json i)"
  "utf8 (pd_ConfD f) \<Longrightarrow> utf8 (pd_IDToken f) \<Longrightarrow> utf8 (pd_DeviceName f) \<Longrightarrow> utf8 (pd_DeviceModel f) \<Longrightarrow> wf_json (PairIdentity_json f)"
  "utf8 (pm_ConfH g) \<Longrightarrow> utf8 (pm_HostID g) \<Longrightarrow> utf8 (pm_HostName g) \<Longrightarrow> utf8 (pm_AccountBind g) \<Longrightarrow> utf8 (pm_ChannelID g)
     \<Longrightarrow> wf_json (PairComplete_json g)"
  "utf8 reason \<Longrightarrow> wf_json (reason_json reason)"
  by (simp_all add: SessHello_json_def SessAccept_json_def SessHeader_json_def SessConfirm_json_def PairInit_json_def
      PairIdentity_json_def PairComplete_json_def reason_json_def plain_char_def)

end
