(* ===== verification/DevicePair.thy ===== *)
theory DevicePair
  imports Envelope QR SecretStream Seq
begin

text \<open>
  The device's persisted state and its side of pairing: \<open>devclient/state.go\<close> and
  \<open>devclient/pair.go\<close>. \<open>Pair\<close> blocks on its socket between writes, so it is a machine with one
  definition per stretch of code between two reads: \<open>Pair_begin\<close> up to the attach,
  \<open>Pair_provisional\<close>, \<open>Pair_accept\<close> and \<open>Pair_complete\<close> for one incoming message each, composed by
  \<open>pair_recv\<close>. Randomness and the wall clock are arguments. Errors keep the failing step and drop
  the text. The state file is the JSON value it holds; a failing file operation leaves it as it
  was, since the file is replaced by a rename.
\<close>

section \<open>Persisted state (state.go)\<close>

record State =
  dv_RelayOrigin :: string
  dv_Sub :: string
  dv_HostID :: string
  dv_HostPK :: string
  dv_HostName :: string
  dv_DeviceID :: string
  dv_DevPK :: string
  dv_DevSK :: string
  dv_ChannelID :: string
  dv_DeviceName :: string
  dv_D2HLastSent :: uint64
  dv_H2DLastSeen :: uint64
  dv_dir :: string

definition zero_State :: State where
  "zero_State = \<lparr>dv_RelayOrigin = [], dv_Sub = [], dv_HostID = [], dv_HostPK = [], dv_HostName = [], dv_DeviceID = [],
     dv_DevPK = [], dv_DevSK = [], dv_ChannelID = [], dv_DeviceName = [], dv_D2HLastSent = 0, dv_H2DLastSeen = 0, dv_dir = []\<rparr>"

definition State_json :: "State \<Rightarrow> json" where
  "State_json s = JObj [(''relay_origin'', JStr (dv_RelayOrigin s)), (''sub'', JStr (dv_Sub s)), (''host_id'', JStr (dv_HostID s)),
     (''host_pk'', JStr (dv_HostPK s)), (''host_name'', JStr (dv_HostName s)), (''device_id'', JStr (dv_DeviceID s)),
     (''dev_pk'', JStr (dv_DevPK s)), (''dev_sk'', JStr (dv_DevSK s)), (''channel_id'', JStr (dv_ChannelID s)),
     (''device_name'', JStr (dv_DeviceName s)), (''d2h_last_sent'', JNum (uint_str (dv_D2HLastSent s))),
     (''h2d_last_seen'', JNum (uint_str (dv_H2DLastSeen s)))]"

definition into_State :: "json \<Rightarrow> State option" where
  "into_State v = into_rec [(''relay_origin'', str_field dv_RelayOrigin_update dv_RelayOrigin), (''sub'', str_field dv_Sub_update dv_Sub),
     (''host_id'', str_field dv_HostID_update dv_HostID), (''host_pk'', str_field dv_HostPK_update dv_HostPK),
     (''host_name'', str_field dv_HostName_update dv_HostName), (''device_id'', str_field dv_DeviceID_update dv_DeviceID),
     (''dev_pk'', str_field dv_DevPK_update dv_DevPK), (''dev_sk'', str_field dv_DevSK_update dv_DevSK),
     (''channel_id'', str_field dv_ChannelID_update dv_ChannelID), (''device_name'', str_field dv_DeviceName_update dv_DeviceName),
     (''d2h_last_sent'', uint_field dv_D2HLastSent_update dv_D2HLastSent),
     (''h2d_last_seen'', uint_field dv_H2DLastSeen_update dv_H2DLastSeen)] v zero_State"

text \<open>The state files by directory.\<close>

type_synonym disk = "string \<rightharpoonup> json"

definition State_Load :: "string \<Rightarrow> disk \<Rightarrow> State option" where
  "State_Load dir disk = (case disk dir of None \<Rightarrow> None
     | Some v \<Rightarrow> map_option (\<lambda>st. st\<lparr>dv_dir := dir\<rparr>) (into_State v))"

text \<open>\<open>ok\<close> says whether the file operations succeed; the first result is the absence of an error.\<close>

definition State_Save :: "bool \<Rightarrow> string \<Rightarrow> State \<Rightarrow> disk \<Rightarrow> bool \<times> State \<times> disk" where
  "State_Save ok dir s disk =
     (let dir = (if dir = [] then dv_dir s else dir) in
      if dir = [] then (True, s, disk)
      else if \<not> ok then (False, s, disk)
      else (True, s\<lparr>dv_dir := dir\<rparr>, disk(dir \<mapsto> State_json s)))"

definition State_keys :: "State \<Rightarrow> bin_error + bytes \<times> bytes \<times> bytes \<times> bytes \<times> bytes \<times> bytes" where
  "State_keys s =
     (case DecodeBin (dv_HostID s) 16 of Inl e \<Rightarrow> Inl e | Inr hostID \<Rightarrow>
      case DecodeBin (dv_DeviceID s) 16 of Inl e \<Rightarrow> Inl e | Inr deviceID \<Rightarrow>
      case DecodeBin (dv_ChannelID s) 16 of Inl e \<Rightarrow> Inl e | Inr channel \<Rightarrow>
      case DecodeBin (dv_HostPK s) 32 of Inl e \<Rightarrow> Inl e | Inr hostPK \<Rightarrow>
      case DecodeBin (dv_DevPK s) 32 of Inl e \<Rightarrow> Inl e | Inr devPK \<Rightarrow>
      case DecodeBin (dv_DevSK s) 32 of Inl e \<Rightarrow> Inl e | Inr devSK \<Rightarrow>
      Inr (hostID, deviceID, channel, hostPK, devPK, devSK))"

section \<open>Transport\<close>

datatype ws_msg = WsText bytes | WsBinary bytes

datatype dev_error = DevQR qr_error | DevKX kx_error | DevRandom | DevEncode | DevFrame wire_error | DevSeq seq_error
  | DevEnvelope envelope_error | DevUnexpectedKind | DevBody | DevHostID | DevField bin_error | DevStream stream_error
  | DevConfH | DevAccountBind | DevState bin_error | DevSave | DevFetch | ErrPairDenied | ErrSessionDenied | ErrRevoked

text \<open>What a read leaves a blocked caller with: read again, fail, or go on.\<close>

datatype 'a stage = Wait | Fail dev_error | Next 'a

definition bearer :: "string \<Rightarrow> string" where
  "bearer sub = ''Bearer fake-'' @ sub"

fun replace_first :: "string \<Rightarrow> string \<Rightarrow> string \<Rightarrow> string" where
  "replace_first old new [] = (if old = [] then new else [])"
| "replace_first old new (c # s) =
     (case strip old (c # s) of Some r \<Rightarrow> new @ r | None \<Rightarrow> c # replace_first old new s)"

definition wsOrigin :: "string \<Rightarrow> string" where
  "wsOrigin origin = replace_first ''http'' ''ws'' origin"

definition readBinary :: "ws_msg \<Rightarrow> (Header \<times> bytes) stage" where
  "readBinary m = (case m of WsText data \<Rightarrow> Wait
     | WsBinary data \<Rightarrow> (case wire_DecodeFrame data of Inl e \<Rightarrow> Fail (DevFrame e) | Inr hb \<Rightarrow> Next hb))"

definition sendControl :: "string \<Rightarrow> string \<Rightarrow> json \<Rightarrow> bytes option" where
  "sendControl channel kind body =
     wire_EncodeFrame \<lparr>hd_Channel = channel, hd_Seq = 0, hd_PushClass = ''none''\<rparr> (Envelope_Marshal (NewControl kind body))"

section \<open>Pairing (pair.go)\<close>

record PairConfig =
  pc_QRURI :: string
  pc_Sub :: string
  pc_DeviceName :: string
  pc_DeviceModel :: string
  pc_NowUnix :: int

text \<open>What the pairing knows once it has attached.\<close>

record pair_ctx =
  px_cfg :: PairConfig
  px_qr :: QRPayload
  px_devPK :: bytes
  px_devSK :: bytes
  px_deviceID :: bytes
  px_nD :: bytes

definition Pair_begin :: "primitives \<Rightarrow> PairConfig \<Rightarrow> int \<Rightarrow> bytes option \<Rightarrow> bytes option \<Rightarrow> bytes option \<Rightarrow> dev_error + pair_ctx" where
  "Pair_begin cr cfg wall seed rid rnd =
     (case ParseQR (pc_QRURI cfg) of Inl e \<Rightarrow> Inl (DevQR e) | Inr qr \<Rightarrow>
      let now = (if pc_NowUnix cfg = 0 then wall else pc_NowUnix cfg) in
      case QR_Validate cr qr now (pc_Sub cfg) of Some e \<Rightarrow> Inl (DevQR e) | None \<Rightarrow>
      case NewKXKeypair cr seed of Inl e \<Rightarrow> Inl (DevKX e) | Inr (devPK, devSK) \<Rightarrow>
      case rid of None \<Rightarrow> Inl DevRandom | Some deviceID \<Rightarrow>
      case rnd of None \<Rightarrow> Inl DevRandom | Some nD \<Rightarrow>
      Inr \<lparr>px_cfg = cfg, px_qr = qr, px_devPK = devPK, px_devSK = devSK, px_deviceID = deviceID, px_nD = nD\<rparr>)"

text \<open>The attach: its URL and its authorization header.\<close>

definition Pair_dial :: "pair_ctx \<Rightarrow> string \<times> string" where
  "Pair_dial px = (wsOrigin (RelayOrigin (px_qr px)) @ ''/v1/device?host='' @ EncodeChannelID (HostID (px_qr px)),
     bearer (pc_Sub (px_cfg px)))"

definition into_provisional :: "json \<Rightarrow> string option" where
  "into_provisional v = into_struct [''provisional_channel'']
     (\<lambda>f v x. if f = Some ''provisional_channel'' then into_string v x else Some x) v []"

definition pair_bind :: "primitives \<Rightarrow> pair_ctx \<Rightarrow> bytes" where
  "pair_bind cr px = AccountBind cr V1 (HostPK (px_qr px)) (pc_Sub (px_cfg px))"

definition pair_init_body :: "primitives \<Rightarrow> pair_ctx \<Rightarrow> PairInit" where
  "pair_init_body cr px = (let qr = px_qr px;
       mac = MacPair cr V1 (Token qr) (HostID qr) (HostPK qr) (px_deviceID px) (px_devPK px) (px_nD px) (pair_bind cr px)
     in \<lparr>pi_Proto = 1, pi_DeviceID = EncodeChannelID (px_deviceID px), pi_DevPK = EncodeBin (px_devPK px),
         pi_ND = EncodeBin (px_nD px), pi_MacPair = EncodeBin mac\<rparr>)"

text \<open>Waiting for the provisional channel; the result is the channel and the frame \<open>pair.init\<close>.\<close>

definition Pair_provisional :: "primitives \<Rightarrow> pair_ctx \<Rightarrow> ws_msg \<Rightarrow> (string \<times> bytes) stage" where
  "Pair_provisional cr px m =
     (case m of WsBinary _ \<Rightarrow> Wait | WsText data \<Rightarrow>
      (case Option.bind (unmarshal (bytes_str data)) into_provisional of None \<Rightarrow> Wait | Some provisional \<Rightarrow>
       if provisional = [] then Wait
       else case DecodeChannelID provisional of Inl e \<Rightarrow> Fail (DevField e) | Inr _ \<Rightarrow>
       (case sendControl provisional ''pair.init'' (PairInit_json (pair_init_body cr px)) of
          None \<Rightarrow> Fail DevEncode | Some frame \<Rightarrow> Next (provisional, frame))))"

text \<open>The envelope of a plaintext answer, shared by the two handshakes.\<close>

definition control_envelope :: "ws_msg \<Rightarrow> Envelope stage" where
  "control_envelope m =
     (case readBinary m of Wait \<Rightarrow> Wait | Fail e \<Rightarrow> Fail e | Next (hdr, body) \<Rightarrow>
      case CheckFrameClass (hd_Seq hdr) True of Some e \<Rightarrow> Fail (DevSeq e) | None \<Rightarrow>
      case ParseEnvelope body of Inl e \<Rightarrow> Fail (DevEnvelope e) | Inr env \<Rightarrow> Next env)"

text \<open>The body of \<open>pair.accept\<close> and \<open>sess.accept\<close>: the host's nonce and stream header.\<close>

definition accept_fields :: "Envelope \<Rightarrow> string \<Rightarrow> dev_error + bytes \<times> bytes" where
  "accept_fields env hostID =
     (case DecodeBody env into_SessAccept of None \<Rightarrow> Inl DevBody | Some pa \<Rightarrow>
      if sa_HostID pa \<noteq> hostID then Inl DevHostID
      else case DecodeBin (sa_NH pa) 32 of Inl e \<Rightarrow> Inl (DevField e) | Inr nH \<Rightarrow>
      case DecodeBin (sa_HdrH2D pa) 24 of Inl e \<Rightarrow> Inl (DevField e) | Inr hdrH2D \<Rightarrow> Inr (nH, hdrH2D))"

record pair_session =
  pv_provisional :: string
  pv_keys :: SessionKeysT
  pv_pull :: Stream
  pv_d2hSent :: uint64

definition pair_identity_body :: "pair_ctx \<Rightarrow> SessionKeysT \<Rightarrow> PairIdentity" where
  "pair_identity_body px keys = \<lparr>pd_ConfD = EncodeBin (sk_ConfD keys), pd_IDToken = ''fake.id.token'',
     pd_DeviceName = pc_DeviceName (px_cfg px), pd_DeviceModel = pc_DeviceModel (px_cfg px)\<rparr>"

text \<open>Frames 2 to 4: the host's answer gives the session, and \<open>sess.header\<close> and \<open>pair.identity\<close>
  are sent.\<close>

definition Pair_accept :: "primitives \<Rightarrow> pair_ctx \<Rightarrow> string \<Rightarrow> bytes option \<Rightarrow> ws_msg \<Rightarrow> (pair_session \<times> bytes list) stage" where
  "Pair_accept cr px provisional rnd m =
     (case control_envelope m of Wait \<Rightarrow> Wait | Fail e \<Rightarrow> Fail e | Next env \<Rightarrow>
      if ev_Kind env = ''sess.denied'' then Fail ErrPairDenied
      else if ev_Kind env \<noteq> ''pair.accept'' then Fail DevUnexpectedKind
      else case accept_fields env (EncodeChannelID (HostID (px_qr px))) of Inl e \<Rightarrow> Fail e | Inr (nH, hdrH2D) \<Rightarrow>
      case DeviceRoots cr (px_devPK px) (px_devSK px) (HostPK (px_qr px)) of Inl e \<Rightarrow> Fail (DevKX e) | Inr roots \<Rightarrow>
      let keys = SessionKeys cr V1 roots (Transcript V1 (HostID (px_qr px)) (px_deviceID px) (px_nD px) nH);
          pull = NewPullStream cr (sk_H2D keys) hdrH2D in
      case NewPushStream cr rnd (sk_D2H keys) of Inl e \<Rightarrow> Fail (DevStream e) | Inr (push, hdrD2H) \<Rightarrow>
      case sendControl provisional ''sess.header'' (SessHeader_json \<lparr>sx_HdrD2H = EncodeBin hdrD2H\<rparr>) of
        None \<Rightarrow> Fail DevEncode | Some f3 \<Rightarrow>
      let provID = (case DecodeChannelID provisional of Inl _ \<Rightarrow> replicate 16 0 | Inr b \<Rightarrow> b);
          identRaw = Envelope_Marshal (NewControl ''pair.identity'' (PairIdentity_json (pair_identity_body px keys)));
          d2hSent = 1 in
      case Stream_Push cr identRaw (BuildAD provID d2hSent PushClassNone) TagMessage push of
        Inl e \<Rightarrow> Fail (DevStream e) | Inr (ct, push) \<Rightarrow>
      case wire_EncodeFrame \<lparr>hd_Channel = provisional, hd_Seq = d2hSent, hd_PushClass = ''none''\<rparr> ct of
        None \<Rightarrow> Fail DevEncode | Some f4 \<Rightarrow>
      Next (\<lparr>pv_provisional = provisional, pv_keys = keys, pv_pull = pull, pv_d2hSent = d2hSent\<rparr>, [f3, f4]))"

text \<open>Frame 5: the encrypted answer, and the state to persist once every check has passed.\<close>

definition Pair_complete :: "primitives \<Rightarrow> pair_ctx \<Rightarrow> pair_session \<Rightarrow> ws_msg \<Rightarrow> State stage" where
  "Pair_complete cr px pv m =
     (case readBinary m of Wait \<Rightarrow> Wait | Fail e \<Rightarrow> Fail e | Next (hdr, body) \<Rightarrow>
      case CheckFrameClass (hd_Seq hdr) False of Some e \<Rightarrow> Fail (DevSeq e) | None \<Rightarrow>
      case Accept (hd_Seq hdr) (NewSeqTracker 0) of (Inl e, _) \<Rightarrow> Fail (DevSeq e) | (Inr _, tracker) \<Rightarrow>
      case header_AD hdr of Inl e \<Rightarrow> Fail (DevFrame e) | Inr ad \<Rightarrow>
      case Stream_Pull cr body ad (pv_pull pv) of Inl e \<Rightarrow> Fail (DevStream e) | Inr ((pt, _), _) \<Rightarrow>
      case ParseEnvelope pt of Inl e \<Rightarrow> Fail (DevEnvelope e) | Inr env \<Rightarrow>
      if ev_Kind env = ''pair.denied'' then Fail ErrPairDenied
      else if ev_Kind env \<noteq> ''pair.complete'' then Fail DevUnexpectedKind
      else case DecodeBody env into_PairComplete of None \<Rightarrow> Fail DevBody | Some pc \<Rightarrow>
      if (case DecodeBin (pm_ConfH pc) 32 of Inl _ \<Rightarrow> True | Inr confH \<Rightarrow> \<not> VerifyMAC (sk_ConfH (pv_keys pv)) confH)
      then Fail DevConfH
      else if (case DecodeBin (pm_AccountBind pc) 16 of Inl _ \<Rightarrow> True | Inr b \<Rightarrow> \<not> VerifyMAC (pair_bind cr px) b)
      then Fail DevAccountBind
      else if pm_HostID pc \<noteq> EncodeChannelID (HostID (px_qr px)) then Fail DevHostID
      else case DecodeChannelID (pm_ChannelID pc) of Inl e \<Rightarrow> Fail (DevField e) | Inr _ \<Rightarrow>
      Next \<lparr>dv_RelayOrigin = RelayOrigin (px_qr px), dv_Sub = pc_Sub (px_cfg px), dv_HostID = pm_HostID pc,
         dv_HostPK = EncodeBin (HostPK (px_qr px)), dv_HostName = pm_HostName pc,
         dv_DeviceID = EncodeChannelID (px_deviceID px), dv_DevPK = EncodeBin (px_devPK px), dv_DevSK = EncodeBin (px_devSK px),
         dv_ChannelID = pm_ChannelID pc, dv_DeviceName = pc_DeviceName (px_cfg px),
         dv_D2HLastSent = pv_d2hSent pv, dv_H2DLastSeen = LastSeen tracker, dv_dir = []\<rparr>)"

text \<open>The whole of \<open>Pair\<close> as a machine fed by its socket; the frames are what it writes.\<close>

datatype pair_state = PairAttached | PairSent string | PairIdentified pair_session | PairDone State | PairFailed dev_error

definition pair_recv :: "primitives \<Rightarrow> bytes option \<Rightarrow> pair_ctx \<Rightarrow> ws_msg \<Rightarrow> pair_state \<Rightarrow> pair_state \<times> bytes list" where
  "pair_recv cr rnd px m p =
     (case p of
        PairAttached \<Rightarrow> (case Pair_provisional cr px m of Wait \<Rightarrow> (p, []) | Fail e \<Rightarrow> (PairFailed e, [])
          | Next (prov, f) \<Rightarrow> (PairSent prov, [f]))
      | PairSent prov \<Rightarrow> (case Pair_accept cr px prov rnd m of Wait \<Rightarrow> (p, []) | Fail e \<Rightarrow> (PairFailed e, [])
          | Next (pv, fs) \<Rightarrow> (PairIdentified pv, fs))
      | PairIdentified pv \<Rightarrow> (case Pair_complete cr px pv m of Wait \<Rightarrow> (p, []) | Fail e \<Rightarrow> (PairFailed e, [])
          | Next st \<Rightarrow> (PairDone st, []))
      | _ \<Rightarrow> (p, []))"

end
