(* ===== verification/HostPair.thy ===== *)
theory HostPair
  imports DevicePair
begin

text \<open>
  The scripted host, part one: its state and the pairing ceremony (\<open>fakehost/fakehost.go\<close>).
  \<open>Host\<close> is the struct with the frames, ledger lines and HTTP requests it has emitted. Everything
  the code reads from outside, the clock, the random source, the operator's answer and the result
  of a request, is an oracle \<open>host_env\<close> read at a tick that every reading advances, so that two
  readings of one handler may differ. Log lines and prompts are left out.
\<close>

section \<open>State\<close>

record host_env =
  he_now :: "nat \<Rightarrow> gotime"
  he_rand :: "nat \<Rightarrow> nat \<Rightarrow> bytes option"
  he_confirm :: "nat \<Rightarrow> bool"
  he_post :: "nat \<Rightarrow> bool"

record ScriptEvent =
  se_AfterMS :: int
  se_Source :: string
  se_Kind :: string
  se_WorkbenchID :: string
  se_TaskID :: string
  se_Attrs :: "json option"

record HostConfig =
  hc_RelayOrigin :: string
  hc_Sub :: string
  hc_HostName :: string
  hc_AutoConfirm :: bool
  hc_ApprovalAfter :: duration
  hc_ApprovalTimeout :: duration
  hc_Script :: "ScriptEvent list"
  hc_EventInterval :: duration
  hc_WindowTTL :: duration

definition HostConfig_applyDefaults :: "HostConfig \<Rightarrow> HostConfig" where
  "HostConfig_applyDefaults c =
     (let c = (if hc_Sub c = [] then c\<lparr>hc_Sub := ''demo-user''\<rparr> else c);
          c = (if hc_HostName c = [] then c\<lparr>hc_HostName := ''Fake Host''\<rparr> else c);
          c = (if hc_ApprovalAfter c = 0 then c\<lparr>hc_ApprovalAfter := 5 * second\<rparr> else c);
          c = (if hc_ApprovalTimeout c = 0 then c\<lparr>hc_ApprovalTimeout := 60 * second\<rparr> else c);
          c = (if hc_EventInterval c = 0 then c\<lparr>hc_EventInterval := 2 * second\<rparr> else c)
      in if hc_WindowTTL c = 0 then c\<lparr>hc_WindowTTL := 5 * minute\<rparr> else c)"

record ApprovalRequest =
  ar_ApprovalID :: string
  ar_TaskID :: string
  ar_WorkbenchID :: string
  ar_Family :: string
  ar_ActionKind :: string
  ar_Summary :: string
  ar_Dangerous :: bool
  ar_RequestedAt :: string
  ar_DeadlineAt :: string
  ar_TimeoutS :: int

record ApprovalResolved =
  av_ApprovalID :: string
  av_TaskID :: string
  av_Decision :: string
  av_Source :: string
  av_ResolvedAt :: string
  av_LatencyMS :: int

text \<open>The timer of a pending approval is the time it fires.\<close>

record pendingApproval =
  pa_req :: ApprovalRequest
  pa_timer :: gotime

record deviceRecord =
  dr_deviceID :: bytes
  dr_devPK :: bytes
  dr_channel :: bytes
  dr_channelWire :: string
  dr_name :: string
  dr_roots :: Roots
  dr_kMbx :: bytes
  dr_h2dSent :: uint64
  dr_d2h :: SeqTracker
  dr_attached :: bool

record pairingState =
  pg_step :: nat
  pg_deviceID :: bytes
  pg_devPK :: bytes
  pg_keys :: SessionKeysT
  pg_push :: Stream
  pg_pull :: "Stream option"
  pg_tracker :: SeqTracker
  pg_h2dSent :: uint64

text \<open>The loops a session started are named by a number; \<open>cancelLoops\<close> is the number it cancels.\<close>

record session =
  se_keys :: SessionKeysT
  se_push :: Stream
  se_pull :: "Stream option"
  se_step :: nat
  se_cancelLoops :: "nat option"

datatype http_request = HttpPost string json | HttpDelete string

record Host =
  h_cfg :: HostConfig
  h_hostID :: bytes
  h_hostPK :: bytes
  h_hostSK :: bytes
  h_conn :: bool
  h_windowID :: string
  h_provChannelWire :: string
  h_token :: bytes
  h_tokenLive :: bool
  h_macFailures :: nat
  h_pairing :: "pairingState option"
  h_device :: "deviceRecord option"
  h_sess :: "session option"
  h_pending :: "(string, pendingApproval) gomap"
  h_resolved :: "(string, ApprovalResolved) gomap"
  h_approvalSeq :: int
  h_wbSuspended :: bool
  h_loops :: "nat list"
  h_nextLoop :: nat
  h_tick :: nat
  h_out :: "bytes list"
  h_ledger :: "json list"
  h_requests :: "http_request list"

text \<open>\<open>New\<close>: the key pair's seed and the host id are the two draws.\<close>

definition Host_New :: "primitives \<Rightarrow> HostConfig \<Rightarrow> bytes option \<Rightarrow> bytes option \<Rightarrow> Host option" where
  "Host_New cr cfg seed rid =
     (case NewKXKeypair cr seed of Inl _ \<Rightarrow> None | Inr (pk, sk) \<Rightarrow>
      case rid of None \<Rightarrow> None | Some hid \<Rightarrow>
      Some \<lparr>h_cfg = HostConfig_applyDefaults cfg, h_hostID = hid, h_hostPK = pk, h_hostSK = sk, h_conn = False, h_windowID = [],
         h_provChannelWire = [], h_token = replicate 32 0, h_tokenLive = False, h_macFailures = 0, h_pairing = None,
         h_device = None, h_sess = None, h_pending = [], h_resolved = [], h_approvalSeq = 0, h_wbSuspended = False,
         h_loops = [], h_nextLoop = 0, h_tick = 0, h_out = [], h_ledger = [], h_requests = []\<rparr>)"

section \<open>Reading the world, writing to it\<close>

definition host_Now :: "host_env \<Rightarrow> Host \<Rightarrow> gotime \<times> Host" where
  "host_Now e h = (he_now e (h_tick h), h\<lparr>h_tick := h_tick h + 1\<rparr>)"

definition host_Read :: "host_env \<Rightarrow> nat \<Rightarrow> Host \<Rightarrow> bytes option \<times> Host" where
  "host_Read e n h = (he_rand e (h_tick h) n, h\<lparr>h_tick := h_tick h + 1\<rparr>)"

definition HostIDWire :: "Host \<Rightarrow> string" where
  "HostIDWire h = EncodeChannelID (h_hostID h)"

definition host_bearer :: "Host \<Rightarrow> string" where
  "host_bearer h = ''Bearer fake-'' @ hc_Sub (h_cfg h)"

definition mustBind :: "primitives \<Rightarrow> Host \<Rightarrow> bytes" where
  "mustBind cr h = AccountBind cr V1 (h_hostPK h) (hc_Sub (h_cfg h))"

definition host_post :: "host_env \<Rightarrow> string \<Rightarrow> json \<Rightarrow> Host \<Rightarrow> bool \<times> Host" where
  "host_post e path body h =
     (he_post e (h_tick h), h\<lparr>h_tick := h_tick h + 1, h_requests := h_requests h @ [HttpPost path body]\<rparr>)"

definition sendFrame :: "string \<Rightarrow> uint64 \<Rightarrow> string \<Rightarrow> bytes \<Rightarrow> Host \<Rightarrow> Host" where
  "sendFrame channel seq pushClass body h =
     (case wire_EncodeFrame \<lparr>hd_Channel = channel, hd_Seq = seq, hd_PushClass = pushClass\<rparr> body of
        None \<Rightarrow> h | Some frame \<Rightarrow> if \<not> h_conn h then h else h\<lparr>h_out := h_out h @ [frame]\<rparr>)"

definition host_sendControl :: "string \<Rightarrow> string \<Rightarrow> json \<Rightarrow> Host \<Rightarrow> Host" where
  "host_sendControl channel kind body h = sendFrame channel 0 ''none'' (Envelope_Marshal (NewControl kind body)) h"

definition control_kinds :: "string list" where
  "control_kinds = [''sess.confirm'', ''pair.complete'', ''pair.denied'', ''session.revoked'']"

text \<open>\<open>sendEncryptedOn\<close> returns the stream and the counter it was given by reference.\<close>

definition sendEncryptedOn :: "primitives \<Rightarrow> host_env \<Rightarrow> Stream \<Rightarrow> uint64 \<Rightarrow> string \<Rightarrow> string \<Rightarrow> json \<Rightarrow> string \<Rightarrow> byte \<Rightarrow> string
    \<Rightarrow> Host \<Rightarrow> Stream \<times> uint64 \<times> Host" where
  "sendEncryptedOn cr e push counter channel kind body pushClass tag ident h =
     (let (env, h) = (if kind \<in> set control_kinds then (NewControl kind body, h)
                      else let (now, h) = host_Now e h in (NewPayload kind ident now body, h));
          raw = Envelope_Marshal env;
          seq = counter + 1 in
      case DecodeChannelID channel of Inl _ \<Rightarrow> (push, seq, h) | Inr chID \<Rightarrow>
      case ParsePushClass pushClass of None \<Rightarrow> (push, seq, h) | Some pc \<Rightarrow>
      case Stream_Push cr raw (BuildAD chID seq pc) tag push of Inl _ \<Rightarrow> (push, seq, h)
      | Inr (ct, push) \<Rightarrow> (push, seq, sendFrame channel seq pushClass ct h))"

section \<open>Opening a window\<close>

definition unixToInternal :: int where
  "unixToInternal = 62135596800"

definition Unix :: "gotime \<Rightarrow> int" where
  "Unix t = t div 1000000000 - unixToInternal"

text \<open>\<open>resp\<close> is the relay's answer (window id and provisional channel), None when the request
  failed. The result is the QR code and the window id.\<close>

definition OpenPairingWindow :: "primitives \<Rightarrow> host_env \<Rightarrow> (string \<times> string) option \<Rightarrow> Host \<Rightarrow> (string \<times> string) option \<times> Host" where
  "OpenPairingWindow cr e resp h =
     (let h = h\<lparr>h_requests := h_requests h @ [HttpPost ''/v1/pairing-windows'' (JObj [(''host_id'', JStr (HostIDWire h))])]\<rparr> in
      case resp of None \<Rightarrow> (None, h) | Some (winID, prov) \<Rightarrow>
      let h = h\<lparr>h_windowID := winID, h_provChannelWire := prov\<rparr>;
          (tok, h) = host_Read e 32 h in
      case tok of None \<Rightarrow> (None, h) | Some tok \<Rightarrow>
      let h = h\<lparr>h_token := tok, h_tokenLive := True, h_macFailures := 0\<rparr>;
          (now, h) = host_Now e h;
          qr = \<lparr>Version = 1, RelayOrigin = hc_RelayOrigin (h_cfg h), HostID = h_hostID h, HostPK = h_hostPK h, Token = h_token h,
            qr_AccountBind = mustBind cr h, ExpiresUnix = Unix (now + hc_WindowTTL (h_cfg h))\<rparr>
      in (Some (QR_Encode qr, winID), h))"

section \<open>Pairing\<close>

definition pairFail :: "Host \<Rightarrow> Host" where
  "pairFail h = host_sendControl (h_provChannelWire h) ''sess.denied'' (reason_json DeniedPairFailed) (h\<lparr>h_pairing := None\<rparr>)"

text \<open>The fields of \<open>pair.init\<close> at their widths: device id, device key, nonce and MAC.\<close>

definition pair_init_fields :: "Envelope \<Rightarrow> (bytes \<times> bytes \<times> bytes \<times> bytes) option" where
  "pair_init_fields env =
     (case DecodeBody env into_PairInit of None \<Rightarrow> None | Some init \<Rightarrow>
      case (DecodeBin (pi_DeviceID init) 16, DecodeBin (pi_DevPK init) 32, DecodeBin (pi_ND init) 32, DecodeBin (pi_MacPair init) 32) of
        (Inr deviceID, Inr devPK, Inr nD, Inr mac) \<Rightarrow> if pi_Proto init \<noteq> 1 then None else Some (deviceID, devPK, nD, mac)
      | _ \<Rightarrow> None)"

definition pair_mac_ok :: "primitives \<Rightarrow> bytes \<Rightarrow> bytes \<Rightarrow> bytes \<Rightarrow> bytes \<Rightarrow> Host \<Rightarrow> bool" where
  "pair_mac_ok cr deviceID devPK nD mac h =
     (let key = (if h_tokenLive h then h_token h else replicate 32 0)
      in MacPair cr V1 key (h_hostID h) (h_hostPK h) deviceID devPK nD (mustBind cr h) = mac)"

text \<open>The strike count of a wrong MAC while the token lives.\<close>

definition pair_strike :: "Host \<Rightarrow> Host" where
  "pair_strike h =
     (if \<not> h_tokenLive h then h
      else let h = h\<lparr>h_macFailures := h_macFailures h + 1\<rparr> in
        if 5 \<le> h_macFailures h then h\<lparr>h_tokenLive := False\<rparr> else h)"

definition pair_begin_session :: "primitives \<Rightarrow> host_env \<Rightarrow> bytes \<Rightarrow> bytes \<Rightarrow> bytes \<Rightarrow> Host \<Rightarrow> Host" where
  "pair_begin_session cr e deviceID devPK nD h =
     (case HostRoots cr (h_hostPK h) (h_hostSK h) devPK of Inl _ \<Rightarrow> pairFail h | Inr roots \<Rightarrow>
      let (nH, h) = host_Read e 32 h in
      case nH of None \<Rightarrow> pairFail h | Some nH \<Rightarrow>
      let keys = SessionKeys cr V1 roots (Transcript V1 (h_hostID h) deviceID nD nH);
          (rnd, h) = host_Read e 24 h in
      case NewPushStream cr rnd (sk_H2D keys) of Inl _ \<Rightarrow> pairFail h | Inr (push, hdrH2D) \<Rightarrow>
      host_sendControl (h_provChannelWire h) ''pair.accept''
        (SessAccept_json \<lparr>sa_HostID = HostIDWire h, sa_NH = EncodeBin nH, sa_HdrH2D = EncodeBin hdrH2D\<rparr>)
        (h\<lparr>h_pairing := Some \<lparr>pg_step = 2, pg_deviceID = deviceID, pg_devPK = devPK, pg_keys = keys, pg_push = push,
             pg_pull = None, pg_tracker = NewSeqTracker 0, pg_h2dSent = 0\<rparr>\<rparr>))"

definition handlePairInit :: "primitives \<Rightarrow> host_env \<Rightarrow> Envelope \<Rightarrow> Host \<Rightarrow> Host" where
  "handlePairInit cr e env h =
     (case pair_init_fields env of None \<Rightarrow> pairFail h | Some (deviceID, devPK, nD, mac) \<Rightarrow>
      if \<not> h_tokenLive h \<or> \<not> pair_mac_ok cr deviceID devPK nD mac h then pairFail (pair_strike h)
      else let h = h\<lparr>h_tokenLive := False\<rparr> in
        if (case h_device h of None \<Rightarrow> False | Some dev \<Rightarrow> dr_deviceID dev = deviceID) then pairFail h
        else pair_begin_session cr e deviceID devPK nD h)"

definition handlePairSessHeader :: "primitives \<Rightarrow> Envelope \<Rightarrow> Host \<Rightarrow> Host" where
  "handlePairSessHeader cr env h =
     (case h_pairing h of None \<Rightarrow> h | Some p \<Rightarrow>
      if pg_step p \<noteq> 2 then h
      else case DecodeBody env into_SessHeader of None \<Rightarrow> pairFail h | Some sh \<Rightarrow>
      case DecodeBin (sx_HdrD2H sh) 24 of Inl _ \<Rightarrow> pairFail h | Inr hdr24 \<Rightarrow>
      h\<lparr>h_pairing := Some (p\<lparr>pg_pull := Some (NewPullStream cr (sk_D2H (pg_keys p)) hdr24), pg_step := 3\<rparr>)\<rparr>)"

text \<open>Opening \<open>pair.identity\<close>: the tracker after it and the device's name, or None where the code
  drops the pairing. A missing pull stream is the panic of a nil dereference, which step 3 excludes.\<close>

definition pair_identity_open :: "primitives \<Rightarrow> pairingState \<Rightarrow> Header \<Rightarrow> bytes \<Rightarrow> (SeqTracker \<times> string) option" where
  "pair_identity_open cr p hdr body =
     (case CheckFrameClass (hd_Seq hdr) False of Some _ \<Rightarrow> None | None \<Rightarrow>
      case Accept (hd_Seq hdr) (pg_tracker p) of (Inl _, _) \<Rightarrow> None | (Inr _, tracker) \<Rightarrow>
      case header_AD hdr of Inl _ \<Rightarrow> None | Inr ad \<Rightarrow>
      case pg_pull p of None \<Rightarrow> None | Some pull \<Rightarrow>
      case Stream_Pull cr body ad pull of Inl _ \<Rightarrow> None | Inr ((pt, _), _) \<Rightarrow>
      case ParseEnvelope pt of Inl _ \<Rightarrow> None | Inr env \<Rightarrow>
      if ev_Kind env \<noteq> ''pair.identity'' then None
      else case DecodeBody env into_PairIdentity of None \<Rightarrow> None | Some pid \<Rightarrow>
      if (case DecodeBin (pd_ConfD pid) 32 of Inl _ \<Rightarrow> True | Inr confD \<Rightarrow> \<not> VerifyMAC (sk_ConfD (pg_keys p)) confD) then None
      else Some (tracker, pd_DeviceName pid))"

definition pairing_request_json :: "string \<Rightarrow> Host \<Rightarrow> bytes \<Rightarrow> json" where
  "pairing_request_json channelWire h deviceID = JObj [(''channel_id'', JStr channelWire), (''device_id'', JStr (EncodeChannelID deviceID)),
     (''host_id'', JStr (HostIDWire h)), (''host_label'', JStr (hc_HostName (h_cfg h)))]"

definition pair_complete_body :: "primitives \<Rightarrow> pairingState \<Rightarrow> string \<Rightarrow> Host \<Rightarrow> PairComplete" where
  "pair_complete_body cr p channelWire h = \<lparr>pm_ConfH = EncodeBin (sk_ConfH (pg_keys p)), pm_HostID = HostIDWire h,
     pm_HostName = hc_HostName (h_cfg h), pm_AccountBind = EncodeBin (mustBind cr h), pm_ChannelID = channelWire\<rparr>"

definition handlePairIdentity :: "primitives \<Rightarrow> host_env \<Rightarrow> Header \<Rightarrow> bytes \<Rightarrow> Host \<Rightarrow> Host" where
  "handlePairIdentity cr e hdr body h =
     (case h_pairing h of None \<Rightarrow> h | Some p \<Rightarrow>
      if pg_step p \<noteq> 3 then h
      else case pair_identity_open cr p hdr body of None \<Rightarrow> h\<lparr>h_pairing := None\<rparr> | Some (tracker, name) \<Rightarrow>
      let (confirmed, h) = (if hc_AutoConfirm (h_cfg h) then (True, h) else (he_confirm e (h_tick h), h\<lparr>h_tick := h_tick h + 1\<rparr>)) in
      if \<not> confirmed then
        (let (_, _, h) = sendEncryptedOn cr e (pg_push p) (pg_h2dSent p) (h_provChannelWire h) ''pair.denied''
                           (reason_json ''declined'') ''none'' TagMessage [] h
         in h\<lparr>h_pairing := None\<rparr>)
      else let (rnd, h) = host_Read e 16 h in
      case rnd of None \<Rightarrow> h\<lparr>h_pairing := None\<rparr> | Some channel \<Rightarrow>
      let channelWire = EncodeChannelID channel;
          (ok, h) = host_post e ''/v1/pairings'' (pairing_request_json channelWire h (pg_deviceID p)) h in
      if \<not> ok then h\<lparr>h_pairing := None\<rparr>
      else
      let roots = (case HostRoots cr (h_hostPK h) (h_hostSK h) (pg_devPK p) of Inl _ \<Rightarrow> \<lparr>root_H2D = replicate 32 0, root_D2H = replicate 32 0\<rparr> | Inr r \<Rightarrow> r);
          dev = \<lparr>dr_deviceID = pg_deviceID p, dr_devPK = pg_devPK p, dr_channel = channel, dr_channelWire = channelWire,
            dr_name = name, dr_roots = roots, dr_kMbx = MailboxKey cr V1 roots (h_hostID h) (pg_deviceID p),
            dr_h2dSent = pg_h2dSent p, dr_d2h = tracker, dr_attached = False\<rparr>;
          (_, sent, h) = sendEncryptedOn cr e (pg_push p) (dr_h2dSent dev) (h_provChannelWire h) ''pair.complete''
            (PairComplete_json (pair_complete_body cr p channelWire h)) ''none'' TagMessage [] h
      in h\<lparr>h_device := Some (dev\<lparr>dr_h2dSent := sent\<rparr>), h_pairing := None,
           h_requests := h_requests h @ [HttpDelete (''/v1/pairing-windows/'' @ h_windowID h)]\<rparr>)"

definition handlePairingFrame :: "primitives \<Rightarrow> host_env \<Rightarrow> Header \<Rightarrow> bytes \<Rightarrow> Host \<Rightarrow> Host" where
  "handlePairingFrame cr e hdr body h =
     (if hd_Seq hdr = 0 then
        (case ParseEnvelope body of Inl _ \<Rightarrow> h | Inr env \<Rightarrow>
         if ev_Kind env = ''pair.init'' then handlePairInit cr e env h
         else if ev_Kind env = ''sess.header'' then handlePairSessHeader cr env h
         else h)
      else handlePairIdentity cr e hdr body h)"

end
