(* ===== verification/HostSession.thy ===== *)
theory HostSession
  imports HostPair
begin

text \<open>
  The scripted host, part two: sessions on the durable channel, the choice between the session
  stream and the mailbox, approvals and the RPC surface (\<open>fakehost/session.go\<close>), and the dispatch
  of \<open>fakehost.go\<close> that leads to them. The background loops of a session are steps of their own:
  \<open>raiseApproval\<close> and \<open>host_flip\<close> for the timer and the ticker a loop starts, \<open>approval_timeout\<close> for
  the timer of a pending approval. Maps are printed in key order as \<open>json.Marshal\<close> does; the
  iteration order of the pending approvals in a snapshot, which Go leaves open, is the map's.
\<close>

section \<open>Bodies\<close>

definition ApprovalRequest_json :: "ApprovalRequest \<Rightarrow> json" where
  "ApprovalRequest_json a = JObj [(''approval_id'', JStr (ar_ApprovalID a)), (''task_id'', JStr (ar_TaskID a)),
     (''workbench_id'', JStr (ar_WorkbenchID a)), (''family'', JStr (ar_Family a)), (''action_kind'', JStr (ar_ActionKind a)),
     (''summary'', JStr (ar_Summary a)), (''dangerous'', JBool (ar_Dangerous a)), (''requested_at'', JStr (ar_RequestedAt a)),
     (''deadline_at'', JStr (ar_DeadlineAt a)), (''timeout_s'', JNum (int_str (ar_TimeoutS a)))]"

definition ApprovalResolved_json :: "ApprovalResolved \<Rightarrow> json" where
  "ApprovalResolved_json a = JObj [(''approval_id'', JStr (av_ApprovalID a)), (''task_id'', JStr (av_TaskID a)),
     (''decision'', JStr (av_Decision a)), (''source'', JStr (av_Source a)), (''resolved_at'', JStr (av_ResolvedAt a)),
     (''latency_ms'', JNum (int_str (av_LatencyMS a)))]"

definition opt_str :: "string \<Rightarrow> json" where
  "opt_str s = (if s = [] then JNull else JStr s)"

text \<open>The body and the push class of a scripted event.\<close>

definition scriptEventBody :: "ScriptEvent \<Rightarrow> gotime \<Rightarrow> json \<times> string" where
  "scriptEventBody ev now =
     (JObj [(''source'', JStr (se_Source ev)), (''kind'', JStr (se_Kind ev)), (''at'', JStr (TS now)),
        (''workbench_id'', opt_str (se_WorkbenchID ev)), (''task_id'', opt_str (se_TaskID ev)),
        (''attrs'', case se_Attrs ev of None \<Rightarrow> JNull | Some a \<Rightarrow> a)],
      if se_Source ev = ''security'' then ''attention'' else if se_Source ev = ''workbench'' then ''wake'' else ''none'')"

definition resources_json :: "string \<Rightarrow> nat \<Rightarrow> nat \<Rightarrow> nat \<Rightarrow> nat \<Rightarrow> json" where
  "resources_json cpu mu mt du dt = JObj [(''cpu_pct'', JNum cpu), (''mem_used_mb'', JNum (nat_str mu)), (''mem_total_mb'', JNum (nat_str mt)),
     (''disk_used_mb'', JNum (nat_str du)), (''disk_total_mb'', JNum (nat_str dt))]"

definition workbenches_json :: "bool \<Rightarrow> gotime \<Rightarrow> json" where
  "workbenches_json suspended now = JArr [
     JObj [(''workbench_id'', JStr ''wb-042''), (''name'', JStr ''daily-driver''), (''status'', JStr (if suspended then ''suspended'' else ''active'')),
       (''profile_id'', JStr ''profile-dev''),
       (''apps'', JArr [JObj [(''app_id'', JStr ''harness''), (''name'', JStr ''Harness''), (''surface'', JStr ''web'')]]),
       (''resources'', resources_json ''12.5'' 2048 8192 9216 65536), (''updated_at'', JStr (TS now))],
     JObj [(''workbench_id'', JStr ''wb-043''), (''name'', JStr ''sandbox''), (''status'', JStr ''stopped''), (''profile_id'', JStr ''profile-sandbox''),
       (''apps'', JArr []), (''resources'', resources_json ''0'' 0 0 0 0), (''updated_at'', JStr (TS (now - hour)))]]"

definition snapshotBody :: "gotime \<Rightarrow> Host \<Rightarrow> json" where
  "snapshotBody now h = JObj [
     (''host'', JObj [(''host_id'', JStr (HostIDWire h)), (''host_name'', JStr (hc_HostName (h_cfg h))),
        (''version'', JStr ''0.0.0-fake''), (''generated_at'', JStr (TS now))]),
     (''workbenches'', workbenches_json (h_wbSuspended h) now),
     (''tasks'', JArr [
        JObj [(''task_id'', JStr ''task-1''), (''workbench_id'', JStr ''wb-042''), (''status'', JStr ''running''),
          (''started_at'', JStr (TS (now - 5 * minute))), (''ended_at'', JNull)],
        JObj [(''task_id'', JStr ''task-0''), (''workbench_id'', JStr ''wb-042''), (''status'', JStr ''completed''),
          (''started_at'', JStr (TS (now - 2 * hour))), (''ended_at'', JStr (TS (now - minute)))]]),
     (''approvals'', JArr (map (\<lambda>p. ApprovalRequest_json (pa_req p)) (mvals (h_pending h)))),
     (''approvals_brokered'', JBool True)]"

section \<open>Sending\<close>

definition abortSession :: "Host \<Rightarrow> Host" where
  "abortSession h = (let h = (case h_sess h of Some s \<Rightarrow>
        (case se_cancelLoops s of Some n \<Rightarrow> h\<lparr>h_loops := removeAll n (h_loops h)\<rparr> | None \<Rightarrow> h) | None \<Rightarrow> h)
     in h\<lparr>h_sess := None\<rparr>)"

text \<open>Sealing on the current session and the device's counter.\<close>

definition send_on_session :: "primitives \<Rightarrow> host_env \<Rightarrow> string \<Rightarrow> json \<Rightarrow> string \<Rightarrow> string \<Rightarrow> Host \<Rightarrow> Host" where
  "send_on_session cr e kind body pushClass ident h =
     (case h_device h of None \<Rightarrow> h | Some dev \<Rightarrow> (case h_sess h of None \<Rightarrow> h | Some s \<Rightarrow>
        let (push, sent, h) = sendEncryptedOn cr e (se_push s) (dr_h2dSent dev) (dr_channelWire dev) kind body pushClass TagMessage ident h
        in h\<lparr>h_device := Some (dev\<lparr>dr_h2dSent := sent\<rparr>), h_sess := Some (s\<lparr>se_push := push\<rparr>)\<rparr>))"

definition sendMailboxEnvelope :: "primitives \<Rightarrow> host_env \<Rightarrow> string \<Rightarrow> string \<Rightarrow> json \<Rightarrow> string \<Rightarrow> Host \<Rightarrow> Host" where
  "sendMailboxEnvelope cr e kind ident body pushClass h =
     (case h_device h of None \<Rightarrow> h | Some dev \<Rightarrow>
      let (now, h) = host_Now e h;
          raw = Envelope_Marshal (NewPayload kind ident now body) in
      case ParsePushClass pushClass of None \<Rightarrow> h | Some pc \<Rightarrow>
      let seq = dr_h2dSent dev + 1;
          h = h\<lparr>h_device := Some (dev\<lparr>dr_h2dSent := seq\<rparr>)\<rparr>;
          (rnd, h) = host_Read e 24 h in
      case SealMailboxFrame cr rnd (dr_kMbx dev) raw (BuildAD (dr_channel dev) seq pc) of None \<Rightarrow> h
      | Some mBody \<Rightarrow> sendFrame (dr_channelWire dev) seq pushClass mBody h)"

definition sendEnvelope :: "primitives \<Rightarrow> host_env \<Rightarrow> string \<Rightarrow> string \<Rightarrow> json \<Rightarrow> string \<Rightarrow> Host \<Rightarrow> Host" where
  "sendEnvelope cr e kind ident body pushClass h =
     (case h_device h of None \<Rightarrow> h | Some dev \<Rightarrow>
      if \<not> dr_attached dev then
        (if kind = ''transcript.page'' then h else sendMailboxEnvelope cr e kind ident body pushClass h)
      else case h_sess h of None \<Rightarrow> h | Some s \<Rightarrow>
        if se_step s \<noteq> 3 then h else send_on_session cr e kind body pushClass ident h)"

definition sendSnapshot :: "primitives \<Rightarrow> host_env \<Rightarrow> string \<Rightarrow> Host \<Rightarrow> Host" where
  "sendSnapshot cr e requestID h = (let (now, h) = host_Now e h
     in sendEnvelope cr e ''snapshot.full'' requestID (snapshotBody now h) ''none'' h)"

definition emitScriptEvent :: "primitives \<Rightarrow> host_env \<Rightarrow> ScriptEvent \<Rightarrow> Host \<Rightarrow> Host" where
  "emitScriptEvent cr e ev h = (let (now, h) = host_Now e h; (body, pushClass) = scriptEventBody ev now
     in sendEnvelope cr e ''event'' [] body pushClass h)"

definition EmitEventClassL :: "primitives \<Rightarrow> host_env \<Rightarrow> ScriptEvent \<Rightarrow> Host \<Rightarrow> bool \<times> Host" where
  "EmitEventClassL cr e ev h =
     (case (h_sess h, h_device h) of
        (Some s, Some dev) \<Rightarrow>
          if se_step s \<noteq> 3 then (False, h)
          else let (now, h) = host_Now e h; (body, pushClass) = scriptEventBody ev now
               in (True, send_on_session cr e ''event'' body pushClass [] h)
      | _ \<Rightarrow> (False, h))"

section \<open>Loops\<close>

definition startLoops :: "Host \<Rightarrow> Host" where
  "startLoops h = (case h_sess h of None \<Rightarrow> h | Some s \<Rightarrow>
     h\<lparr>h_sess := Some (s\<lparr>se_cancelLoops := Some (h_nextLoop h)\<rparr>), h_loops := h_loops h @ [h_nextLoop h],
       h_nextLoop := h_nextLoop h + 1\<rparr>)"

text \<open>The ticker of the built-in event feed.\<close>

definition host_flip :: "primitives \<Rightarrow> host_env \<Rightarrow> Host \<Rightarrow> Host" where
  "host_flip cr e h = (let h = h\<lparr>h_wbSuspended := \<not> h_wbSuspended h\<rparr>
     in emitScriptEvent cr e \<lparr>se_AfterMS = 0, se_Source = ''workbench'', se_Kind = (if h_wbSuspended h then ''suspended'' else ''resumed''),
          se_WorkbenchID = ''wb-042'', se_TaskID = [], se_Attrs = None\<rparr> h)"

section \<open>Approvals\<close>

text \<open>\<open>time.Parse\<close> with the layout of \<open>TS\<close>; the code drops the error, which leaves the zero time.\<close>

definition parse_TS :: "string \<Rightarrow> gotime" where
  "parse_TS s =
     (let part = (\<lambda>i n. take n (drop i s)); num = (\<lambda>i n. int (digits_val (part i n)));
          y = num 0 4; m = num 5 2; d = num 8 2; hh = num 11 2; mm = num 14 2; ss = num 17 2; ms = num 20 3
      in if length s \<noteq> 24 \<or> map ((!) s) [4, 7, 10, 13, 16, 19, 23] \<noteq> ''--T::.Z''
           \<or> \<not> list_all is_digit (part 0 4 @ part 5 2 @ part 8 2 @ part 11 2 @ part 14 2 @ part 17 2 @ part 20 3)
           \<or> m < 1 \<or> 12 < m \<or> d < 1 \<or> month_lengths y ! nat (m - 1) < d \<or> 23 < hh \<or> 59 < mm \<or> 59 < ss
         then 0
         else let days = 365 * (y - 1) + (y - 1) div 4 - (y - 1) div 100 + (y - 1) div 400
                + sum_list (take (nat (m - 1)) (month_lengths y)) + d - 1
           in ((days * 86400 + hh * 3600 + mm * 60 + ss) * 1000 + ms) * 1000000)"

definition Milliseconds :: "duration \<Rightarrow> int" where
  "Milliseconds d = (if d < 0 then - (- d div 1000000) else d div 1000000)"

definition raiseApproval :: "primitives \<Rightarrow> host_env \<Rightarrow> Host \<Rightarrow> Host" where
  "raiseApproval cr e h =
     (if (case h_sess h of None \<Rightarrow> True | Some s \<Rightarrow> se_step s \<noteq> 3) then h
      else let h = h\<lparr>h_approvalSeq := h_approvalSeq h + 1\<rparr>;
               (rnd, h) = host_Read e 12 h in
      case rnd of None \<Rightarrow> h | Some b \<Rightarrow>
      let ident = ''rid-'' @ hex_encode b;
          (now, h) = host_Now e h;
          timeout = hc_ApprovalTimeout (h_cfg h);
          req = \<lparr>ar_ApprovalID = ident, ar_TaskID = ''task-1'', ar_WorkbenchID = ''wb-042'', ar_Family = ''bash'',
            ar_ActionKind = ''bash::shell::exec'', ar_Summary = ''run make check'', ar_Dangerous = False,
            ar_RequestedAt = TS now, ar_DeadlineAt = TS (now + timeout), ar_TimeoutS = (if timeout < 0 then - (- timeout div second) else timeout div second)\<rparr>;
          (armed, h) = host_Now e h;
          h = h\<lparr>h_pending := mput ident \<lparr>pa_req = req, pa_timer = armed + timeout\<rparr> (h_pending h)\<rparr>
      in sendEnvelope cr e ''approval.request'' [] (ApprovalRequest_json req) ''attention'' h)"

definition ledger :: "json \<Rightarrow> Host \<Rightarrow> Host" where
  "ledger rec h = h\<lparr>h_ledger := h_ledger h @ [rec]\<rparr>"

definition ledger_kind :: "string \<Rightarrow> string" where
  "ledger_kind decision = (if decision = ''allow_once'' \<or> decision = ''allow_always'' then ''approval.granted'' else ''approval.denied'')"

definition approval_record :: "ApprovalRequest \<Rightarrow> ApprovalResolved \<Rightarrow> string \<Rightarrow> json" where
  "approval_record req res deviceID = JObj ([(''action_kind'', JStr (ar_ActionKind req)), (''approval_id'', JStr (av_ApprovalID res))]
     @ (if av_Source res = ''remote'' \<and> deviceID \<noteq> [] then [(''device_id'', JStr deviceID)] else [])
     @ [(''family'', JStr (ar_Family req)), (''kind'', JStr (ledger_kind (av_Decision res))),
        (''latency_ms'', JNum (int_str (av_LatencyMS res))), (''source'', JStr (av_Source res)),
        (''task_id'', JStr (ar_TaskID req)), (''workbench_id'', JStr (ar_WorkbenchID req))])"

definition zero_ApprovalResolved :: ApprovalResolved where
  "zero_ApprovalResolved = \<lparr>av_ApprovalID = [], av_TaskID = [], av_Decision = [], av_Source = [], av_ResolvedAt = [], av_LatencyMS = 0\<rparr>"

definition resolveApproval :: "primitives \<Rightarrow> host_env \<Rightarrow> string \<Rightarrow> string \<Rightarrow> string \<Rightarrow> string \<Rightarrow> Host \<Rightarrow> (ApprovalResolved \<times> bool) \<times> Host" where
  "resolveApproval cr e ident decision source deviceID h =
     (case mget (h_resolved h) ident of Some res \<Rightarrow> ((res, False), h) | None \<Rightarrow>
      case mget (h_pending h) ident of None \<Rightarrow> ((zero_ApprovalResolved, False), h) | Some p \<Rightarrow>
      let h = h\<lparr>h_pending := mdel ident (h_pending h)\<rparr>;
          reqAt = parse_TS (ar_RequestedAt (pa_req p));
          (now, h) = host_Now e h;
          (since, h) = host_Now e h;
          res = \<lparr>av_ApprovalID = ident, av_TaskID = ar_TaskID (pa_req p), av_Decision = decision, av_Source = source,
            av_ResolvedAt = TS now, av_LatencyMS = Milliseconds (time_sub since reqAt)\<rparr>;
          h = h\<lparr>h_resolved := mput ident res (h_resolved h)\<rparr>;
          h = sendEnvelope cr e ''approval.resolved'' [] (ApprovalResolved_json res) ''attention'' h
      in ((res, True), ledger (approval_record (pa_req p) res deviceID) h))"

text \<open>The timer of a pending approval fires.\<close>

definition approval_timeout :: "primitives \<Rightarrow> host_env \<Rightarrow> string \<Rightarrow> Host \<Rightarrow> Host" where
  "approval_timeout cr e ident h = snd (resolveApproval cr e ident ''deny'' ''timeout'' [] h)"

section \<open>RPC surface\<close>

definition rpcError :: "primitives \<Rightarrow> host_env \<Rightarrow> string \<Rightarrow> string \<Rightarrow> bool \<Rightarrow> Host \<Rightarrow> Host" where
  "rpcError cr e ident code retryable h = sendEnvelope cr e ''rpc.response'' ident
     (JObj [(''error'', JObj [(''code'', JStr code), (''message'', JStr []), (''retryable'', JBool retryable)])]) ''none'' h"

definition host_deviceID :: "Host \<Rightarrow> string" where
  "host_deviceID h = (case h_device h of None \<Rightarrow> [] | Some dev \<Rightarrow> EncodeChannelID (dr_deviceID dev))"

definition ledgerCommand :: "string \<Rightarrow> string \<Rightarrow> string \<Rightarrow> Host \<Rightarrow> Host" where
  "ledgerCommand meth result reason h = ledger (JObj ([(''device_id'', JStr (host_deviceID h)), (''kind'', JStr ''remote.command''),
       (''method'', JStr meth)] @ (if reason \<noteq> [] then [(''reason'', JStr reason)] else []) @ [(''result'', JStr result)])) h"

record RPCRequest =
  rr_Method :: string
  rr_Params :: "json option"

definition into_RPCRequest :: "json \<Rightarrow> RPCRequest option" where
  "into_RPCRequest v = into_rec [(''method'', str_field rr_Method_update rr_Method),
     (''params'', \<lambda>v r. Some (r\<lparr>rr_Params := Some v\<rparr>))] v \<lparr>rr_Method = [], rr_Params = None\<rparr>"

text \<open>Decoding with \<open>DisallowUnknownFields\<close>; absent parameters leave the zero value.\<close>

definition rpc_strict :: "(string \<times> (json \<Rightarrow> 'a \<Rightarrow> 'a option)) list \<Rightarrow> json option \<Rightarrow> 'a \<Rightarrow> 'a option" where
  "rpc_strict fs params x = (case params of None \<Rightarrow> Some x | Some v \<Rightarrow>
     into_struct (map fst fs) (\<lambda>f v x. case f of None \<Rightarrow> None
       | Some k \<Rightarrow> (case map_of fs k of None \<Rightarrow> None | Some set_field \<Rightarrow> set_field v x)) v x)"

record decideParams =
  dc_ApprovalID :: string
  dc_Decision :: string

definition into_decideParams :: "json option \<Rightarrow> decideParams option" where
  "into_decideParams params = rpc_strict [(''approval_id'', str_field dc_ApprovalID_update dc_ApprovalID),
     (''decision'', str_field dc_Decision_update dc_Decision)] params \<lparr>dc_ApprovalID = [], dc_Decision = []\<rparr>"

record transcriptParams =
  tp_TaskID :: string
  tp_Cursor :: string
  tp_MaxBytes :: int

definition into_transcriptParams :: "json option \<Rightarrow> transcriptParams option" where
  "into_transcriptParams params = rpc_strict [(''task_id'', str_field tp_TaskID_update tp_TaskID),
     (''cursor'', str_field tp_Cursor_update tp_Cursor), (''max_bytes'', int_field tp_MaxBytes_update tp_MaxBytes)] params
     \<lparr>tp_TaskID = [], tp_Cursor = [], tp_MaxBytes = 0\<rparr>"

definition decide_response :: "string \<Rightarrow> string \<Rightarrow> ApprovalResolved \<Rightarrow> json" where
  "decide_response ident status res = JObj [(''approval_id'', JStr ident), (''decision'', JStr (av_Decision res)),
     (''source'', JStr (av_Source res)), (''status'', JStr status)]"

definition handle_decide :: "primitives \<Rightarrow> host_env \<Rightarrow> string \<Rightarrow> RPCRequest \<Rightarrow> Host \<Rightarrow> Host" where
  "handle_decide cr e ident req h =
     (let reject = (\<lambda>reason h. rpcError cr e ident reason False (ledgerCommand (rr_Method req) ''rejected'' reason h)) in
      case into_decideParams (rr_Params req) of None \<Rightarrow> reject ''invalid_params'' h | Some p \<Rightarrow>
      if dc_ApprovalID p = [] then reject ''invalid_params'' h
      else if dc_Decision p \<noteq> ''allow'' \<and> dc_Decision p \<noteq> ''deny'' then reject ''invalid_params'' h
      else let decision = (if dc_Decision p = ''allow'' then ''allow_once'' else ''deny'');
               ((res, applied), h) = resolveApproval cr e (dc_ApprovalID p) decision ''remote'' (host_deviceID h) h in
      if applied then sendEnvelope cr e ''rpc.response'' ident (decide_response (dc_ApprovalID p) ''applied'' res) ''none''
             (ledgerCommand (rr_Method req) ''accepted'' [] h)
      else case mget (h_resolved h) (dc_ApprovalID p) of
        Some res \<Rightarrow> sendEnvelope cr e ''rpc.response'' ident (decide_response (dc_ApprovalID p) ''already_resolved'' res) ''none''
             (ledgerCommand (rr_Method req) ''accepted'' [] h)
      | None \<Rightarrow> reject ''unknown_approval'' h)"

definition transcript_chunks :: "string list" where
  "transcript_chunks = [''$ make check'' @ [CHR 0x0A] @ ''running gofmt'' @ [CHR 0xE2, CHR 0x80, CHR 0xA6, CHR 0x0A]
       @ ''running go vet'' @ [CHR 0xE2, CHR 0x80, CHR 0xA6, CHR 0x0A],
     ''ok  '' @ [CHR 0x09] @ ''all tests pass'' @ [CHR 0x0A]]"

definition transcript_page :: "string \<Rightarrow> string \<Rightarrow> nat \<Rightarrow> json" where
  "transcript_page ident task i = JObj [(''request_id'', JStr ident), (''task_id'', JStr task), (''page'', JNum (nat_str (i + 1))),
     (''total_pages'', JNum (nat_str 2)), (''has_more'', JBool (i = 0)), (''cursor'', JNull), (''chunk'', JStr (transcript_chunks ! i))]"

definition handle_transcript :: "primitives \<Rightarrow> host_env \<Rightarrow> string \<Rightarrow> RPCRequest \<Rightarrow> Host \<Rightarrow> Host" where
  "handle_transcript cr e ident req h =
     (case into_transcriptParams (rr_Params req) of
        Some p \<Rightarrow> if tp_TaskID p = [] then rpcError cr e ident ''invalid_params'' False (ledgerCommand (rr_Method req) ''rejected'' ''invalid_params'' h)
          else fold (\<lambda>i h. sendEnvelope cr e ''transcript.page'' ident (transcript_page ident (tp_TaskID p) i) ''none'' h) [0, 1]
                 (ledgerCommand (rr_Method req) ''accepted'' [] h)
      | None \<Rightarrow> rpcError cr e ident ''invalid_params'' False (ledgerCommand (rr_Method req) ''rejected'' ''invalid_params'' h))"

definition handleRPC :: "primitives \<Rightarrow> host_env \<Rightarrow> string \<Rightarrow> RPCRequest \<Rightarrow> Host \<Rightarrow> Host" where
  "handleRPC cr e ident req h =
     (if rr_Method req = ''snapshot.request'' then sendSnapshot cr e ident (ledgerCommand (rr_Method req) ''accepted'' [] h)
      else if rr_Method req = ''approval.decide'' then handle_decide cr e ident req h
      else if rr_Method req = ''task.transcript'' then handle_transcript cr e ident req h
      else if rr_Method req = ''workbench.list'' then
        (let h = ledgerCommand (rr_Method req) ''accepted'' [] h; (now, h) = host_Now e h
         in sendEnvelope cr e ''rpc.response'' ident (JObj [(''workbenches'', workbenches_json (h_wbSuspended h) now)]) ''none'' h)
      else rpcError cr e ident ''unknown_method'' False (ledgerCommand (rr_Method req) ''rejected'' ''unknown_method'' h))"

section \<open>Session frames\<close>

definition handleSessHello :: "primitives \<Rightarrow> host_env \<Rightarrow> Envelope \<Rightarrow> Host \<Rightarrow> Host" where
  "handleSessHello cr e env h =
     (case h_device h of None \<Rightarrow> h | Some dev \<Rightarrow>
      case DecodeBody env into_SessHello of None \<Rightarrow> h | Some sh \<Rightarrow>
      if sh_Proto sh \<noteq> 1 then host_sendControl (dr_channelWire dev) ''sess.denied'' (reason_json DeniedProtoUnsupported) h
      else case (DecodeBin (sh_DeviceID sh) 16, DecodeBin (sh_ND sh) 32) of
        (Inr devID, Inr nD) \<Rightarrow>
          if EncodeBin devID \<noteq> EncodeChannelID (dr_deviceID dev)
          then host_sendControl (dr_channelWire dev) ''sess.denied'' (reason_json DeniedUnknownDevice) h
          else
          let h = abortSession h; (nH, h) = host_Read e 32 h in
          (case nH of None \<Rightarrow> h | Some nH \<Rightarrow>
          let keys = SessionKeys cr V1 (dr_roots dev) (Transcript V1 (h_hostID h) (dr_deviceID dev) nD nH);
              (rnd, h) = host_Read e 24 h in
          case NewPushStream cr rnd (sk_H2D keys) of Inl _ \<Rightarrow> h | Inr (push, hdrH2D) \<Rightarrow>
          host_sendControl (dr_channelWire dev) ''sess.accept''
            (SessAccept_json \<lparr>sa_HostID = HostIDWire h, sa_NH = EncodeBin nH, sa_HdrH2D = EncodeBin hdrH2D\<rparr>)
            (h\<lparr>h_device := Some (dev\<lparr>dr_d2h := StartSession (dr_d2h dev)\<rparr>),
               h_sess := Some \<lparr>se_keys = keys, se_push = push, se_pull = None, se_step = 1, se_cancelLoops = None\<rparr>\<rparr>))
      | _ \<Rightarrow> h)"

definition handleSessHeader :: "primitives \<Rightarrow> host_env \<Rightarrow> Envelope \<Rightarrow> Host \<Rightarrow> Host" where
  "handleSessHeader cr e env h =
     (case h_sess h of None \<Rightarrow> h | Some s \<Rightarrow>
      if se_step s \<noteq> 1 then h
      else case DecodeBody env into_SessHeader of None \<Rightarrow> abortSession h | Some sh \<Rightarrow>
      case DecodeBin (sx_HdrD2H sh) 24 of Inl _ \<Rightarrow> abortSession h | Inr hdr24 \<Rightarrow>
      send_on_session cr e ''sess.confirm'' (SessConfirm_json \<lparr>sc_TranscriptMAC = EncodeBin (sk_ConfH (se_keys s))\<rparr>) ''none'' []
        (h\<lparr>h_sess := Some (s\<lparr>se_pull := Some (NewPullStream cr (sk_D2H (se_keys s)) hdr24), se_step := 2\<rparr>)\<rparr>))"

text \<open>What a decrypted envelope makes the host do.\<close>

definition handle_session_envelope :: "primitives \<Rightarrow> host_env \<Rightarrow> Envelope \<Rightarrow> Host \<Rightarrow> Host" where
  "handle_session_envelope cr e env h =
     (case h_sess h of None \<Rightarrow> h | Some s \<Rightarrow>
      if ev_Kind env = ''sess.confirm'' then
        (case DecodeBody env into_SessConfirm of None \<Rightarrow> abortSession h | Some sc \<Rightarrow>
         if (case DecodeBin (sc_TranscriptMAC sc) 32 of Inl _ \<Rightarrow> True | Inr got \<Rightarrow> \<not> VerifyMAC (sk_ConfD (se_keys s)) got)
         then abortSession h
         else startLoops (sendSnapshot cr e [] (h\<lparr>h_sess := Some (s\<lparr>se_step := 3\<rparr>)\<rparr>)))
      else if ev_Kind env = ''rpc.request'' then
        (if se_step s \<noteq> 3 then h
         else case DecodeBody env into_RPCRequest of None \<Rightarrow> abortSession h
         | Some req \<Rightarrow> handleRPC cr e (ev_ID env) req h)
      else if ev_Kind env = ''ack'' then h
      else abortSession h)"

definition handleSessionFrame :: "primitives \<Rightarrow> host_env \<Rightarrow> Header \<Rightarrow> bytes \<Rightarrow> Host \<Rightarrow> Host" where
  "handleSessionFrame cr e hdr body h =
     (case h_device h of None \<Rightarrow> h | Some dev \<Rightarrow>
      if hd_Seq hdr = 0 then
        (case ParseEnvelope body of Inl _ \<Rightarrow> h | Inr env \<Rightarrow>
         if ev_Kind env = ''sess.hello'' then handleSessHello cr e env h
         else if ev_Kind env = ''sess.header'' then handleSessHeader cr e env h
         else h)
      else
      case h_sess h of None \<Rightarrow> h | Some s \<Rightarrow>
      case se_pull s of None \<Rightarrow> h | Some pull \<Rightarrow>
      case Accept (hd_Seq hdr) (dr_d2h dev) of (Inl _, _) \<Rightarrow> abortSession h | (Inr _, t) \<Rightarrow>
      let h = h\<lparr>h_device := Some (dev\<lparr>dr_d2h := t\<rparr>)\<rparr> in
      case header_AD hdr of Inl _ \<Rightarrow> abortSession h | Inr ad \<Rightarrow>
      case Stream_Pull cr body ad pull of Inl _ \<Rightarrow> abortSession h | Inr ((pt, _), pull) \<Rightarrow>
      let h = h\<lparr>h_sess := Some (s\<lparr>se_pull := Some pull\<rparr>)\<rparr> in
      case ParseEnvelope pt of Inl _ \<Rightarrow> abortSession h | Inr env \<Rightarrow> handle_session_envelope cr e env h)"

section \<open>Dispatch\<close>

definition handleBinary :: "primitives \<Rightarrow> host_env \<Rightarrow> bytes \<Rightarrow> Host \<Rightarrow> Host" where
  "handleBinary cr e data h =
     (case wire_DecodeFrame data of Inl _ \<Rightarrow> h | Inr (hdr, body) \<Rightarrow>
      if hd_Channel hdr = h_provChannelWire h \<and> h_provChannelWire h \<noteq> [] then handlePairingFrame cr e hdr body h
      else if (case h_device h of None \<Rightarrow> False | Some dev \<Rightarrow> hd_Channel hdr = dr_channelWire dev)
      then handleSessionFrame cr e hdr body h
      else h)"

record control_msg =
  cm_Presence :: string
  cm_Channel :: string
  cm_Attached :: bool
  cm_Error :: string

definition into_control_msg :: "json \<Rightarrow> control_msg option" where
  "into_control_msg v = into_rec [(''presence'', str_field cm_Presence_update cm_Presence), (''channel'', str_field cm_Channel_update cm_Channel),
     (''attached'', bool_field cm_Attached_update cm_Attached),
     (''error'', str_field cm_Error_update cm_Error)] v \<lparr>cm_Presence = [], cm_Channel = [], cm_Attached = False, cm_Error = []\<rparr>"

definition handleControl :: "bytes \<Rightarrow> Host \<Rightarrow> Host" where
  "handleControl data h =
     (case Option.bind (unmarshal (bytes_str data)) into_control_msg of None \<Rightarrow> h | Some msg \<Rightarrow>
      if cm_Presence msg = ''device'' then
        (case h_device h of None \<Rightarrow> h | Some dev \<Rightarrow>
         if cm_Channel msg = dr_channelWire dev then h\<lparr>h_device := Some (dev\<lparr>dr_attached := cm_Attached msg\<rparr>)\<rparr> else h)
      else h)"

definition DeviceAttached :: "Host \<Rightarrow> bool" where
  "DeviceAttached h = (case h_device h of None \<Rightarrow> False | Some dev \<Rightarrow> dr_attached dev)"

definition EmitEvent :: "primitives \<Rightarrow> host_env \<Rightarrow> ScriptEvent \<Rightarrow> Host \<Rightarrow> Host" where
  "EmitEvent cr e ev h = emitScriptEvent cr e ev h"

text \<open>\<open>Run\<close>: the attach, its heartbeat, and what one message read from the socket makes the host do.\<close>

definition Run_dial :: "Host \<Rightarrow> string \<times> string" where
  "Run_dial h = (replace_first ''http'' ''ws'' (hc_RelayOrigin (h_cfg h)) @ ''/v1/host?host_id='' @ HostIDWire h, host_bearer h)"

definition Run_attach :: "Host \<Rightarrow> Host" where
  "Run_attach h = h\<lparr>h_conn := True\<rparr>"

definition Run_heartbeat :: ws_msg where
  "Run_heartbeat = WsText (str_bytes (''{'' @ [CHR 0x22] @ ''hb'' @ [CHR 0x22] @ '':1}''))"

definition Run_message :: "primitives \<Rightarrow> host_env \<Rightarrow> ws_msg \<Rightarrow> Host \<Rightarrow> Host" where
  "Run_message cr e m h = (case m of WsBinary data \<Rightarrow> handleBinary cr e data h | WsText data \<Rightarrow> handleControl data h)"

end
