(* ===== verification/DeviceSession.thy ===== *)
theory DeviceSession
  imports DevicePair Errors
begin

text \<open>
  The device's sessions: \<open>devclient/session.go\<close>. \<open>Connect\<close> is cut at its reads like \<open>Pair\<close>:
  \<open>Connect_begin\<close>, the mailbox drain, \<open>Connect_hello\<close>, \<open>Connect_accept\<close> and \<open>Connect_confirm\<close>.
  \<open>drainMailbox\<close> may loop for ever against a relay that answers so, and is a partial function;
  its fetches are a function of the round and the cursor. A session carries the state files it
  saves to, so that what is persisted when a frame leaves can be stated.
\<close>

section \<open>Session\<close>

record Presence_msg =
  ps_HostID :: string
  ps_Online :: bool
  ps_LastSeen :: string

record Session =
  ss_State :: State
  ss_ReconcileExpected :: bool
  ss_DrainedEnvelopes :: "Envelope list"
  ss_keys :: SessionKeysT
  ss_push :: "Stream option"
  ss_pull :: "Stream option"
  ss_tracker :: SeqTracker
  ss_presence :: "Presence_msg option"
  ss_revoked :: bool
  ss_disk :: disk

definition new_Session :: "State \<Rightarrow> disk \<Rightarrow> Session" where
  "new_Session st disk = \<lparr>ss_State = st, ss_ReconcileExpected = False, ss_DrainedEnvelopes = [],
     ss_keys = \<lparr>sk_H2D = [], sk_D2H = [], sk_ConfH = [], sk_ConfD = []\<rparr>, ss_push = None, ss_pull = None,
     ss_tracker = NewSeqTracker (dv_H2DLastSeen st), ss_presence = None, ss_revoked = False, ss_disk = disk\<rparr>"

text \<open>\<open>st.Save\<close> of the session's state; the result is the absence of an error.\<close>

definition save_session :: "bool \<Rightarrow> Session \<Rightarrow> bool \<times> Session" where
  "save_session ok s = (let (r, st, disk) = State_Save ok [] (ss_State s) (ss_disk s)
     in (r, s\<lparr>ss_State := st, ss_disk := disk\<rparr>))"

definition into_Presence :: "json \<Rightarrow> Presence_msg option" where
  "into_Presence v = into_rec [(''host_id'', str_field ps_HostID_update ps_HostID), (''online'', bool_field ps_Online_update ps_Online),
     (''last_seen'', str_field ps_LastSeen_update ps_LastSeen)] v \<lparr>ps_HostID = [], ps_Online = False, ps_LastSeen = []\<rparr>"

definition textHandler :: "bytes \<Rightarrow> Session \<Rightarrow> Session" where
  "textHandler data s = (case Option.bind (unmarshal (bytes_str data)) into_Presence of None \<Rightarrow> s
     | Some p \<Rightarrow> if ps_HostID p \<noteq> [] then s\<lparr>ss_presence := Some p\<rparr> else s)"

definition LastPresence :: "Session \<Rightarrow> Presence_msg option" where
  "LastPresence s = ss_presence s"

definition hear_text :: "ws_msg \<Rightarrow> Session \<Rightarrow> Session" where
  "hear_text m s = (case m of WsText data \<Rightarrow> textHandler data s | WsBinary _ \<Rightarrow> s)"

definition deviceChannelOf :: "State \<Rightarrow> bytes" where
  "deviceChannelOf st = (case DecodeChannelID (dv_ChannelID st) of Inl _ \<Rightarrow> replicate 16 0 | Inr b \<Rightarrow> b)"

text \<open>Sealing and sending one envelope: the frame written, or the error. A missing push stream is
  the panic of a nil dereference.\<close>

definition sendEncrypted :: "primitives \<Rightarrow> bool \<Rightarrow> Envelope \<Rightarrow> Session \<Rightarrow> (dev_error + bytes) \<times> Session" where
  "sendEncrypted cr ok env s =
     (let raw = Envelope_Marshal env;
          s = s\<lparr>ss_State := (ss_State s)\<lparr>dv_D2HLastSent := dv_D2HLastSent (ss_State s) + 1\<rparr>\<rparr>;
          seq = dv_D2HLastSent (ss_State s);
          (saved, s) = save_session ok s in
      if \<not> saved then (Inl DevSave, s)
      else let ad = BuildAD (deviceChannelOf (ss_State s)) seq PushClassNone in
      case ss_push s of None \<Rightarrow> (Inl (DevStream ErrStreamFinished), s) | Some push \<Rightarrow>
      case Stream_Push cr raw ad TagMessage push of Inl e \<Rightarrow> (Inl (DevStream e), s) | Inr (ct, push) \<Rightarrow>
      let s = s\<lparr>ss_push := Some push\<rparr> in
      case wire_EncodeFrame \<lparr>hd_Channel = dv_ChannelID (ss_State s), hd_Seq = seq, hd_PushClass = ''none''\<rparr> ct of
        None \<Rightarrow> (Inl DevEncode, s) | Some frame \<Rightarrow> (Inr frame, s))"

definition RPCRequest_json :: "string \<Rightarrow> json option \<Rightarrow> json" where
  "RPCRequest_json meth params = JObj ([(''method'', JStr meth)] @ (case params of None \<Rightarrow> [] | Some p \<Rightarrow> [(''params'', p)]))"

definition SendRPC :: "primitives \<Rightarrow> bytes option \<Rightarrow> gotime \<Rightarrow> bool \<Rightarrow> string \<Rightarrow> json option \<Rightarrow> Session
    \<Rightarrow> (dev_error + string \<times> bytes) \<times> Session" where
  "SendRPC cr rnd now ok meth params s =
     (case rnd of None \<Rightarrow> (Inl DevRandom, s) | Some b \<Rightarrow>
      let ident = ''req-'' @ hex_encode b in
      case sendEncrypted cr ok (NewPayload ''rpc.request'' ident now (RPCRequest_json meth params)) s of
        (Inl e, s) \<Rightarrow> (Inl e, s) | (Inr f, s) \<Rightarrow> (Inr (ident, f), s))"

section \<open>Mailbox drain\<close>

record drain_frame =
  df_Seq :: uint64
  df_PushClass :: string
  df_Body :: string

record drain_page =
  dp_Frames :: "drain_frame list"
  dp_NextAfter :: uint64
  dp_Truncated :: bool

definition into_drain_frame :: "json \<Rightarrow> drain_frame option" where
  "into_drain_frame v = into_rec [(''seq'', uint_field df_Seq_update df_Seq), (''push_class'', str_field df_PushClass_update df_PushClass),
     (''body'', str_field df_Body_update df_Body)] v \<lparr>df_Seq = 0, df_PushClass = [], df_Body = []\<rparr>"

definition into_frames :: "json \<Rightarrow> drain_frame list option" where
  "into_frames v = (case v of JNull \<Rightarrow> Some [] | JArr vs \<Rightarrow> those (map into_drain_frame vs) | _ \<Rightarrow> None)"

definition into_drain_page :: "json \<Rightarrow> drain_page option" where
  "into_drain_page v = into_rec [(''frames'', \<lambda>v p. map_option (\<lambda>fs. p\<lparr>dp_Frames := fs\<rparr>) (into_frames v)),
     (''next_after'', uint_field dp_NextAfter_update dp_NextAfter), (''truncated'', bool_field dp_Truncated_update dp_Truncated)] v
     \<lparr>dp_Frames = [], dp_NextAfter = 0, dp_Truncated = False\<rparr>"

text \<open>One answer of the relay: None is a failed exchange; \<open>Decode\<close> reads the first value of the
  body.\<close>

definition drain_answer :: "Response option \<Rightarrow> drain_page option" where
  "drain_answer resp = (case resp of None \<Rightarrow> None | Some r \<Rightarrow>
     if rp_Status r \<noteq> 200 then None
     else case decode_first (bytes_str (rp_Body r)) of None \<Rightarrow> None | Some (v, _) \<Rightarrow> into_drain_page v)"

definition saveDrainMark :: "bool \<Rightarrow> Session \<Rightarrow> Session" where
  "saveDrainMark ok s =
     (if dv_H2DLastSeen (ss_State s) < LastSeen (ss_tracker s)
      then snd (save_session ok (s\<lparr>ss_State := (ss_State s)\<lparr>dv_H2DLastSeen := LastSeen (ss_tracker s)\<rparr>\<rparr>))
      else s)"

definition drain_abandon :: "bool \<Rightarrow> Session \<Rightarrow> Session" where
  "drain_abandon ok s = saveDrainMark ok (s\<lparr>ss_ReconcileExpected := True\<rparr>)"

datatype drain_verdict = DrainPage | DrainAbandoned | DrainError dev_error

text \<open>The frames of one page: whether the loop goes on, was abandoned, or fails.\<close>

fun drain_frames :: "primitives \<Rightarrow> bytes \<Rightarrow> bytes \<Rightarrow> bool \<Rightarrow> drain_frame list \<Rightarrow> Session \<Rightarrow> drain_verdict \<times> Session" where
  "drain_frames cr kMbx channel ok [] s = (DrainPage, s)"
| "drain_frames cr kMbx channel ok (f # fs) s =
     (case ParsePushClass (df_PushClass f) of None \<Rightarrow> (DrainAbandoned, drain_abandon ok s) | Some pc \<Rightarrow>
      case b64_decode False (df_Body f) of None \<Rightarrow> (DrainAbandoned, drain_abandon ok s) | Some body \<Rightarrow>
      case OpenMailboxFrame cr kMbx body (BuildAD channel (df_Seq f) pc) of
        None \<Rightarrow> (DrainAbandoned, drain_abandon ok s) | Some pt \<Rightarrow>
      case AcceptMailbox (df_Seq f) (ss_tracker s) of
        (Inl e, t) \<Rightarrow> (DrainError (DevSeq e), s\<lparr>ss_tracker := t\<rparr>)
      | (Inr gap, t) \<Rightarrow>
        let s = s\<lparr>ss_tracker := t, ss_ReconcileExpected := gap \<or> ss_ReconcileExpected s\<rparr> in
        case ParseEnvelope pt of Inl _ \<Rightarrow> (DrainAbandoned, drain_abandon ok s)
        | Inr env \<Rightarrow> drain_frames cr kMbx channel ok fs (s\<lparr>ss_DrainedEnvelopes := ss_DrainedEnvelopes s @ [env]\<rparr>))"

text \<open>One round: None ends the drain without an error, an error ends it, a cursor goes on.\<close>

datatype drain_round = DrainStop "dev_error option" | DrainNext uint64

definition drain_step :: "primitives \<Rightarrow> bytes \<Rightarrow> bytes \<Rightarrow> bool \<Rightarrow> Response option \<Rightarrow> Session \<Rightarrow> drain_round \<times> Session" where
  "drain_step cr kMbx channel ok resp s =
     (case drain_answer resp of None \<Rightarrow> (DrainStop (Some DevFetch), s) | Some page \<Rightarrow>
      case drain_frames cr kMbx channel ok (dp_Frames page) s of
        (DrainAbandoned, s) \<Rightarrow> (DrainStop None, s)
      | (DrainError e, s) \<Rightarrow> (DrainStop (Some e), s)
      | (DrainPage, s) \<Rightarrow>
          let s = saveDrainMark ok s in
          if \<not> dp_Truncated page then (DrainStop None, s) else (DrainNext (dp_NextAfter page), s))"

partial_function (option) drain_loop :: "primitives \<Rightarrow> bytes \<Rightarrow> bytes \<Rightarrow> (nat \<Rightarrow> bool) \<Rightarrow> (nat \<Rightarrow> uint64 \<Rightarrow> Response option)
    \<Rightarrow> nat \<Rightarrow> uint64 \<Rightarrow> Session \<Rightarrow> (dev_error option \<times> Session) option" where
  "drain_loop cr kMbx channel ok fetch n after s =
     (case drain_step cr kMbx channel (ok n) (fetch n after) s of
        (DrainStop r, s) \<Rightarrow> Some (r, s)
      | (DrainNext after, s) \<Rightarrow> drain_loop cr kMbx channel ok fetch (Suc n) after s)"

definition drainMailbox :: "primitives \<Rightarrow> bytes \<Rightarrow> bytes \<Rightarrow> (nat \<Rightarrow> bool) \<Rightarrow> (nat \<Rightarrow> uint64 \<Rightarrow> Response option)
    \<Rightarrow> Session \<Rightarrow> (dev_error option \<times> Session) option" where
  "drainMailbox cr channel kMbx ok fetch s =
     drain_loop cr kMbx channel ok fetch 0 (dv_H2DLastSeen (ss_State s)) s"

text \<open>The request of one round: its URL and its authorization.\<close>

definition drain_request :: "State \<Rightarrow> uint64 \<Rightarrow> string \<times> string" where
  "drain_request st after = (dv_RelayOrigin st @ ''/v1/channels/'' @ dv_ChannelID st @ ''/frames?after='' @ uint_str after,
     bearer (dv_Sub st))"

section \<open>Handshake\<close>

record connect_ctx =
  cx_hostID :: bytes
  cx_deviceID :: bytes
  cx_channel :: bytes
  cx_roots :: Roots
  cx_kMbx :: bytes

definition Connect_begin :: "primitives \<Rightarrow> State \<Rightarrow> dev_error + connect_ctx" where
  "Connect_begin cr st =
     (case State_keys st of Inl e \<Rightarrow> Inl (DevState e) | Inr (hostID, deviceID, channel, hostPK, devPK, devSK) \<Rightarrow>
      case DeviceRoots cr devPK devSK hostPK of Inl e \<Rightarrow> Inl (DevKX e) | Inr roots \<Rightarrow>
      Inr \<lparr>cx_hostID = hostID, cx_deviceID = deviceID, cx_channel = channel, cx_roots = roots,
         cx_kMbx = MailboxKey cr V1 roots hostID deviceID\<rparr>)"

text \<open>The drain and the attach in between.\<close>

definition Connect_drain :: "primitives \<Rightarrow> (nat \<Rightarrow> bool) \<Rightarrow> (nat \<Rightarrow> uint64 \<Rightarrow> Response option) \<Rightarrow> connect_ctx \<Rightarrow> State \<Rightarrow> disk
    \<Rightarrow> (dev_error option \<times> Session) option" where
  "Connect_drain cr ok fetch cx st disk = drainMailbox cr (cx_channel cx) (cx_kMbx cx) ok fetch (new_Session st disk)"

definition Connect_dial :: "State \<Rightarrow> string \<times> string" where
  "Connect_dial st = (wsOrigin (dv_RelayOrigin st) @ ''/v1/device?channel='' @ dv_ChannelID st, bearer (dv_Sub st))"

definition Connect_hello :: "bytes option \<Rightarrow> Session \<Rightarrow> dev_error + bytes \<times> bytes" where
  "Connect_hello rnd s = (case rnd of None \<Rightarrow> Inl DevRandom | Some nD \<Rightarrow>
     case sendControl (dv_ChannelID (ss_State s)) ''sess.hello''
            (SessHello_json \<lparr>sh_Proto = 1, sh_DeviceID = dv_DeviceID (ss_State s), sh_ND = EncodeBin nD\<rparr>) of
       None \<Rightarrow> Inl DevEncode | Some f \<Rightarrow> Inr (nD, f))"

definition Connect_accept :: "primitives \<Rightarrow> connect_ctx \<Rightarrow> bytes \<Rightarrow> bytes option \<Rightarrow> bool \<Rightarrow> ws_msg \<Rightarrow> Session
    \<Rightarrow> (bytes list) stage \<times> Session" where
  "Connect_accept cr cx nD rnd ok m s =
     (let s = hear_text m s; st = ss_State s in
      case control_envelope m of Wait \<Rightarrow> (Wait, s) | Fail e \<Rightarrow> (Fail e, s) | Next env \<Rightarrow>
      if ev_Kind env = ''sess.denied'' then (Fail ErrSessionDenied, s)
      else if ev_Kind env \<noteq> ''sess.accept'' then (Fail DevUnexpectedKind, s)
      else case accept_fields env (dv_HostID st) of Inl e \<Rightarrow> (Fail e, s) | Inr (nH, hdrH2D) \<Rightarrow>
      let keys = SessionKeys cr V1 (cx_roots cx) (Transcript V1 (cx_hostID cx) (cx_deviceID cx) nD nH);
          s = s\<lparr>ss_keys := keys, ss_pull := Some (NewPullStream cr (sk_H2D keys) hdrH2D)\<rparr> in
      case NewPushStream cr rnd (sk_D2H keys) of Inl e \<Rightarrow> (Fail (DevStream e), s) | Inr (push, hdrD2H) \<Rightarrow>
      let s = s\<lparr>ss_push := Some push\<rparr> in
      case sendControl (dv_ChannelID st) ''sess.header'' (SessHeader_json \<lparr>sx_HdrD2H = EncodeBin hdrD2H\<rparr>) of
        None \<Rightarrow> (Fail DevEncode, s) | Some f3 \<Rightarrow>
      (case sendEncrypted cr ok (NewControl ''sess.confirm''
              (SessConfirm_json \<lparr>sc_TranscriptMAC = EncodeBin (sk_ConfD keys)\<rparr>)) s of
        (Inl e, s) \<Rightarrow> (Fail e, s)
      | (Inr f4, s) \<Rightarrow> (Next [f3, f4], s\<lparr>ss_tracker := StartSession (ss_tracker s)\<rparr>)))"

text \<open>The decryption of one class-L frame with the session's tracker and pull stream, which both
  \<open>Connect\<close> and \<open>Recv\<close> do in this order: sequence number first, then authentication.\<close>

definition open_frame :: "primitives \<Rightarrow> Header \<Rightarrow> bytes \<Rightarrow> Session \<Rightarrow> (dev_error + bool \<times> bytes \<times> byte) \<times> Session" where
  "open_frame cr hdr body s =
     (case Accept (hd_Seq hdr) (ss_tracker s) of (Inl e, t) \<Rightarrow> (Inl (DevSeq e), s\<lparr>ss_tracker := t\<rparr>)
      | (Inr reconcile, t) \<Rightarrow>
      let s = s\<lparr>ss_tracker := t\<rparr> in
      case header_AD hdr of Inl e \<Rightarrow> (Inl (DevFrame e), s) | Inr ad \<Rightarrow>
      case ss_pull s of None \<Rightarrow> (Inl (DevStream ErrStreamFinished), s) | Some pull \<Rightarrow>
      case Stream_Pull cr body ad pull of Inl e \<Rightarrow> (Inl (DevStream e), s)
      | Inr ((pt, tag), pull) \<Rightarrow> (Inr (reconcile, pt, tag), s\<lparr>ss_pull := Some pull\<rparr>))"

definition Connect_confirm :: "primitives \<Rightarrow> bool \<Rightarrow> ws_msg \<Rightarrow> Session \<Rightarrow> unit stage \<times> Session" where
  "Connect_confirm cr ok m s =
     (let s = hear_text m s in
      case readBinary m of Wait \<Rightarrow> (Wait, s) | Fail e \<Rightarrow> (Fail e, s) | Next (hdr, body) \<Rightarrow>
      case CheckFrameClass (hd_Seq hdr) False of Some e \<Rightarrow> (Fail (DevSeq e), s) | None \<Rightarrow>
      case open_frame cr hdr body s of (Inl e, s) \<Rightarrow> (Fail e, s) | (Inr (reconcile, pt, _), s) \<Rightarrow>
      let s = s\<lparr>ss_ReconcileExpected := reconcile \<or> ss_ReconcileExpected s\<rparr> in
      case ParseEnvelope pt of Inl _ \<Rightarrow> (Fail DevUnexpectedKind, s) | Inr env \<Rightarrow>
      if ev_Kind env \<noteq> ''sess.confirm'' then (Fail DevUnexpectedKind, s)
      else case DecodeBody env into_SessConfirm of None \<Rightarrow> (Fail DevBody, s) | Some sc \<Rightarrow>
      if (case DecodeBin (sc_TranscriptMAC sc) 32 of Inl _ \<Rightarrow> True | Inr confH \<Rightarrow> \<not> VerifyMAC (sk_ConfH (ss_keys s)) confH)
      then (Fail DevConfH, s)
      else let s = s\<lparr>ss_State := (ss_State s)\<lparr>dv_H2DLastSeen := LastSeen (ss_tracker s)\<rparr>\<rparr>
           in (Next (), snd (save_session ok s)))"

section \<open>Receiving\<close>

text \<open>\<open>Recv\<close> on one incoming message; \<open>Wait\<close> is its \<open>continue\<close>.\<close>

definition Recv :: "primitives \<Rightarrow> bool \<Rightarrow> ws_msg \<Rightarrow> Session \<Rightarrow> Envelope stage \<times> Session" where
  "Recv cr ok m s =
     (if ss_revoked s then (Fail ErrRevoked, s)
      else let s = hear_text m s in
      case readBinary m of Wait \<Rightarrow> (Wait, s) | Fail e \<Rightarrow> (Fail e, s) | Next (hdr, body) \<Rightarrow>
      if hd_Seq hdr = 0 then
        (case ParseEnvelope body of Inl e \<Rightarrow> (Fail (DevEnvelope e), s) | Inr env \<Rightarrow>
         if ev_Kind env = ''sess.denied'' then (Fail ErrSessionDenied, s) else (Wait, s))
      else
      case open_frame cr hdr body s of (Inl e, s) \<Rightarrow> (Fail e, s) | (Inr (_, pt, tag), s) \<Rightarrow>
      let s = s\<lparr>ss_State := (ss_State s)\<lparr>dv_H2DLastSeen := LastSeen (ss_tracker s)\<rparr>\<rparr>;
          s = snd (save_session ok s) in
      case ParseEnvelope pt of Inl e \<Rightarrow> (Fail (DevEnvelope e), s) | Inr env \<Rightarrow>
      let s = (if tag = TagFinal \<or> ev_Kind env = ''session.revoked'' then s\<lparr>ss_revoked := True\<rparr> else s)
      in (Next env, s))"

definition Session_Close :: "bool \<Rightarrow> Session \<Rightarrow> Session" where
  "Session_Close ok s = snd (save_session ok s)"

end
