(* ===== verification/Ceremony.thy ===== *)
theory Ceremony
  imports HostSession DeviceSession
begin

text \<open>
  The two endpoints together: the pairing ceremony of \<open>Pair\<close> with the host's handlers, and the
  session handshake of \<open>Connect\<close>. Frames pass unchanged, which is what the relay's router does with
  them. The primitives are held to what their specifications say of them: the Diffie-Hellman law
  and the widths of their results.
\<close>

section \<open>Laws of the primitives\<close>

definition digest_widths :: "primitives \<Rightarrow> bool" where
  "digest_widths cr \<longleftrightarrow> (\<forall>n k m. length (blake2b cr n k m) = n)"

definition x25519_width :: "primitives \<Rightarrow> bool" where
  "x25519_width cr \<longleftrightarrow> (\<forall>a b p. length a = 32 \<longrightarrow> length b = 32 \<longrightarrow> X25519 cr a b = Some p \<longrightarrow> length p = 32)"

definition crypto_laws :: "primitives \<Rightarrow> bool" where
  "crypto_laws cr \<longleftrightarrow> x25519_commutes cr \<and> poly1305_tag cr \<and> digest_widths cr \<and> x25519_width cr"

lemma length_keyedHash32 [simp]: "crypto_laws cr \<Longrightarrow> length (keyedHash32 cr k ps) = 32"
  by (simp add: crypto_laws_def digest_widths_def keyedHash32_def)

lemma length_schedule [simp]:
  assumes "crypto_laws cr"
  shows "length (MacPair cr s tk a b c d f g) = 32" "length (AccountBind cr s pk sub) = 16"
    "length (sk_ConfD (SessionKeys cr s r t)) = 32" "length (sk_ConfH (SessionKeys cr s r t)) = 32"
    "length (sk_H2D (SessionKeys cr s r t)) = 32" "length (sk_D2H (SessionKeys cr s r t)) = 32"
  using assms by (simp_all add: MacPair_def SessionKeys_def AccountBind_def)
    (simp add: crypto_laws_def digest_widths_def)

lemma keypair_widths:
  assumes "crypto_laws cr" "KXSeedKeypair cr seed = Inr (pk, sk)"
  shows "length pk = 32" "length sk = 32"
proof -
  have sk: "sk = blake2b cr 32 [] seed" "X25519 cr sk Basepoint = Some pk"
    using assms(2) by (auto simp: KXSeedKeypair_def Let_def split: if_splits option.splits)
  then show "length sk = 32" using assms(1) by (simp add: crypto_laws_def digest_widths_def)
  moreover have "length Basepoint = 32" by (simp add: Basepoint_def)
  ultimately show "length pk = 32" using assms(1) sk(2) unfolding crypto_laws_def x25519_width_def by blast
qed

lemma Pull_of_Push:
  "crypto_laws cr \<Longrightarrow> Stream_Push cr pt ad tag s = Inr (f, s') \<Longrightarrow> Stream_Pull cr f ad s = Inr ((pt, tag), s')"
  using pull_pushRaw by (auto simp: crypto_laws_def Stream_Push_def Stream_Pull_def split: if_splits)

lemma fresh_stream [simp]: "finished (newStream cr key hdr) = False"
  by (simp add: newStream_def)

lemma Push_fresh: "\<exists>ct s'. Stream_Push cr pt ad tag (newStream cr key hdr) = Inr (ct, s') \<and> finished s' = (tag = TagFinal)"
  by (rule Push_open) simp

lemma VerifyMAC_refl [simp]: "VerifyMAC m m"
  by (simp add: VerifyMAC_def)

section \<open>Frames between the endpoints\<close>

lemma plain_kinds [simp]: "plain ''pair.init''" "plain ''pair.accept''" "plain ''sess.header''" "plain ''pair.identity''"
  "plain ''pair.complete''" "plain ''sess.hello''" "plain ''sess.accept''" "plain ''sess.confirm''" "plain ''fake.id.token''"
  "plain ''event''" "plain ''snapshot.full''" "plain ''approval.request''" "plain ''approval.resolved''" "plain ''rpc.response''"
  by (simp_all add: plain_char_def)

lemma header_AD_channel [simp]:
  "length c = 16 \<Longrightarrow> ParsePushClass pc = Some b
    \<Longrightarrow> header_AD \<lparr>hd_Channel = EncodeChannelID c, hd_Seq = q, hd_PushClass = pc\<rparr> = Inr (BuildAD c q b)"
  by (simp add: header_AD_def ChannelID_def)

lemma ParsePushClass_simps [simp]: "ParsePushClass ''none'' = Some PushClassNone" "ParsePushClass ''wake'' = Some PushClassWake"
  "ParsePushClass ''attention'' = Some PushClassAttention"
  by (simp_all add: ParsePushClass_def)

lemma readBinary_frame [simp]:
  "validID ch \<Longrightarrow> validPushClass pc
    \<Longrightarrow> readBinary (WsBinary (frame_of ch q pc b)) = Next (\<lparr>hd_Channel = ch, hd_Seq = q, hd_PushClass = pc\<rparr>, b)"
  by (simp add: readBinary_def)

lemma sendControl_frame [simp]:
  "validID ch \<Longrightarrow> sendControl ch kind body = Some (frame_of ch 0 ''none'' (Envelope_Marshal (NewControl kind body)))"
  by (simp add: sendControl_def)

lemma sendFrame_conn [simp]:
  "validID ch \<Longrightarrow> validPushClass pc \<Longrightarrow> sendFrame ch q pc b h = (if h_conn h then h\<lparr>h_out := h_out h @ [frame_of ch q pc b]\<rparr> else h)"
  by (simp add: sendFrame_def)

lemma control_envelope_frame [simp]:
  "validID ch \<Longrightarrow> utf8 kind \<Longrightarrow> wf_json body
    \<Longrightarrow> control_envelope (WsBinary (frame_of ch 0 ''none'' (Envelope_Marshal (NewControl kind body)))) = Next (NewControl kind body)"
  by (simp add: control_envelope_def CheckFrameClass_def)

lemma accept_fields_ok [simp]:
  "length nH = 32 \<Longrightarrow> length hd24 = 24
    \<Longrightarrow> accept_fields (NewControl kind (SessAccept_json \<lparr>sa_HostID = hid, sa_NH = EncodeBin nH, sa_HdrH2D = EncodeBin hd24\<rparr>)) hid
      = Inr (nH, hd24)"
  by (simp add: accept_fields_def)

lemma handleBinary_pairing [simp]:
  "h_provChannelWire h = EncodeChannelID c \<Longrightarrow> length c = 16 \<Longrightarrow> validPushClass pc
    \<Longrightarrow> handleBinary cr e (frame_of (EncodeChannelID c) q pc b) h
      = handlePairingFrame cr e \<lparr>hd_Channel = EncodeChannelID c, hd_Seq = q, hd_PushClass = pc\<rparr> b h"
  using validID_length [OF validID_EncodeChannelID [of c]] by (auto simp: handleBinary_def)

section \<open>Pairing, step by step\<close>

lemma Pair_provisional_ok:
  assumes "length c = 16"
  shows "Pair_provisional cr px (WsText (marshal (JObj [(''provisional_channel'', JStr (EncodeChannelID c))])))
    = Next (EncodeChannelID c, frame_of (EncodeChannelID c) 0 ''none''
        (Envelope_Marshal (NewControl ''pair.init'' (PairInit_json (pair_init_body cr px)))))"
proof -
  have w: "wf_json (JObj [(''provisional_channel'', JStr (EncodeChannelID c))])" by (simp add: plain_char_def)
  have ne: "EncodeChannelID c \<noteq> []" using validID_length [OF validID_EncodeChannelID [OF assms]] by auto
  show ?thesis
    using unmarshal_print [OF w] assms ne
    by (simp add: Pair_provisional_def marshal_def into_provisional_def into_struct_def field_of_def into_string_def
        del: print_json.simps)
qed

lemma pair_init_fields_ok:
  assumes "crypto_laws cr" "length (px_deviceID px) = 16" "length (px_devPK px) = 32" "length (px_nD px) = 32"
  shows "pair_init_fields (NewControl kind (PairInit_json (pair_init_body cr px)))
    = Some (px_deviceID px, px_devPK px, px_nD px,
        MacPair cr V1 (Token (px_qr px)) (HostID (px_qr px)) (HostPK (px_qr px)) (px_deviceID px) (px_devPK px) (px_nD px) (pair_bind cr px))"
  using assms by (simp add: pair_init_fields_def pair_init_body_def Let_def)

text \<open>The state the host is in after it has accepted a pairing request.\<close>

definition accepted_pairing :: "primitives \<Rightarrow> Roots \<Rightarrow> Host \<Rightarrow> bytes \<Rightarrow> bytes \<Rightarrow> bytes \<Rightarrow> bytes \<Rightarrow> bytes \<Rightarrow> pairingState" where
  "accepted_pairing cr roots h did devPK nD nH hdr =
     (let keys = SessionKeys cr V1 roots (Transcript V1 (h_hostID h) did nD nH)
      in \<lparr>pg_step = 2, pg_deviceID = did, pg_devPK = devPK, pg_keys = keys, pg_push = newStream cr (sk_H2D keys) hdr,
          pg_pull = None, pg_tracker = NewSeqTracker 0, pg_h2dSent = 0\<rparr>)"

definition accept_frame :: "string \<Rightarrow> string \<Rightarrow> Host \<Rightarrow> bytes \<Rightarrow> bytes \<Rightarrow> bytes" where
  "accept_frame ch kind h nH hdr = frame_of ch 0 ''none'' (Envelope_Marshal (NewControl kind
     (SessAccept_json \<lparr>sa_HostID = HostIDWire h, sa_NH = EncodeBin nH, sa_HdrH2D = EncodeBin hdr\<rparr>)))"

lemma pair_begin_session_ok:
  assumes "HostRoots cr (h_hostPK h) (h_hostSK h) devPK = Inr roots" "validID (h_provChannelWire h)" "h_conn h"
    "he_rand e (h_tick h) 32 = Some nH" "he_rand e (h_tick h + 1) 24 = Some hdr"
  shows "pair_begin_session cr e did devPK nD h =
    h\<lparr>h_tick := h_tick h + 2, h_pairing := Some (accepted_pairing cr roots h did devPK nD nH hdr),
      h_out := h_out h @ [accept_frame (h_provChannelWire h) ''pair.accept'' h nH hdr]\<rparr>"
  using assms
  by (simp add: pair_begin_session_def host_Read_def NewPushStream_def host_sendControl_def accept_frame_def
      accepted_pairing_def Let_def HostIDWire_def)

text \<open>The two frames the device answers with.\<close>

definition identity_raw :: "pair_ctx \<Rightarrow> SessionKeysT \<Rightarrow> bytes" where
  "identity_raw px keys = Envelope_Marshal (NewControl ''pair.identity'' (PairIdentity_json (pair_identity_body px keys)))"

definition header_frame :: "string \<Rightarrow> bytes \<Rightarrow> bytes" where
  "header_frame ch hdr = frame_of ch 0 ''none''
     (Envelope_Marshal (NewControl ''sess.header'' (SessHeader_json \<lparr>sx_HdrD2H = EncodeBin hdr\<rparr>)))"

lemma Pair_accept_ok:
  assumes "length c = 16" "length nH = 32" "length hdrH = 24" "h_hostID h = HostID (px_qr px)"
    and roots: "DeviceRoots cr (px_devPK px) (px_devSK px) (HostPK (px_qr px)) = Inr roots"
    and keys: "keys = SessionKeys cr V1 roots (Transcript V1 (h_hostID h) (px_deviceID px) (px_nD px) nH)"
    and push: "Stream_Push cr (identity_raw px keys) (BuildAD c 1 PushClassNone) TagMessage (newStream cr (sk_D2H keys) hdrD) = Inr (ct, s')"
  shows "Pair_accept cr px (EncodeChannelID c) (Some hdrD) (WsBinary (accept_frame (EncodeChannelID c) ''pair.accept'' h nH hdrH))
    = Next (\<lparr>pv_provisional = EncodeChannelID c, pv_keys = keys, pv_pull = newStream cr (sk_H2D keys) hdrH, pv_d2hSent = 1\<rparr>,
        [header_frame (EncodeChannelID c) hdrD, frame_of (EncodeChannelID c) 1 ''none'' ct])"
  using assms(1-4) roots push unfolding keys
  by (simp add: Pair_accept_def accept_frame_def HostIDWire_def NewPushStream_def NewPullStream_def header_frame_def
      identity_raw_def Let_def plain_char_def)

lemma handlePairSessHeader_ok:
  assumes "h_pairing h = Some p" "pg_step p = 2" "length hdr = 24"
  shows "handlePairSessHeader cr (NewControl kind (SessHeader_json \<lparr>sx_HdrD2H = EncodeBin hdr\<rparr>)) h
    = h\<lparr>h_pairing := Some (p\<lparr>pg_pull := Some (newStream cr (sk_D2H (pg_keys p)) hdr), pg_step := 3\<rparr>)\<rparr>"
  using assms by (simp add: handlePairSessHeader_def NewPullStream_def)

lemma first_Accept [simp]: "Accept 1 (NewSeqTracker 0) = (Inr False, \<lparr>lastSeen = 1, inSession = True\<rparr>)"
  by (simp add: Accept_cases NewSeqTracker_def)

lemma pair_identity_open_ok:
  assumes cr: "crypto_laws cr" and c: "length c = 16" and plain: "utf8 (pc_DeviceName (px_cfg px))" "utf8 (pc_DeviceModel (px_cfg px))"
    and p: "pg_tracker p = NewSeqTracker 0" "pg_pull p = Some (newStream cr (sk_D2H (pg_keys p)) hdrD)"
    and keys: "pg_keys p = SessionKeys cr V1 roots t"
    and push: "Stream_Push cr (identity_raw px (pg_keys p)) (BuildAD c 1 PushClassNone) TagMessage (newStream cr (sk_D2H (pg_keys p)) hdrD) = Inr (ct, s')"
  shows "pair_identity_open cr p \<lparr>hd_Channel = EncodeChannelID c, hd_Seq = 1, hd_PushClass = ''none''\<rparr> ct
    = Some (\<lparr>lastSeen = 1, inSession = True\<rparr>, pc_DeviceName (px_cfg px))"
proof -
  have "length (sk_ConfD (pg_keys p)) = 32" using cr by (simp add: keys)
  with c plain p Pull_of_Push [OF cr push] show ?thesis
    by (simp add: pair_identity_open_def CheckFrameClass_def identity_raw_def pair_identity_body_def plain_char_def)
qed

lemma sendEncryptedOn_control:
  assumes "kind \<in> set control_kinds" "length c = 16" "validPushClass pc" "ParsePushClass pc = Some b" "h_conn h"
    and "Stream_Push cr (Envelope_Marshal (NewControl kind body)) (BuildAD c (counter + 1) b) tag push = Inr (ct, push')"
  shows "sendEncryptedOn cr e push counter (EncodeChannelID c) kind body pc tag ident h
    = (push', counter + 1, h\<lparr>h_out := h_out h @ [frame_of (EncodeChannelID c) (counter + 1) pc ct]\<rparr>)"
  using assms by (simp add: sendEncryptedOn_def Let_def)

text \<open>The record the host keeps of a device it has paired.\<close>

definition paired_record :: "primitives \<Rightarrow> Roots \<Rightarrow> Host \<Rightarrow> pairingState \<Rightarrow> bytes \<Rightarrow> string \<Rightarrow> deviceRecord" where
  "paired_record cr roots h p ch name = \<lparr>dr_deviceID = pg_deviceID p, dr_devPK = pg_devPK p, dr_channel = ch,
     dr_channelWire = EncodeChannelID ch, dr_name = name, dr_roots = roots,
     dr_kMbx = MailboxKey cr V1 roots (h_hostID h) (pg_deviceID p), dr_h2dSent = 1,
     dr_d2h = \<lparr>lastSeen = 1, inSession = True\<rparr>, dr_attached = False\<rparr>"

definition complete_raw :: "primitives \<Rightarrow> pairingState \<Rightarrow> bytes \<Rightarrow> Host \<Rightarrow> bytes" where
  "complete_raw cr p ch h = Envelope_Marshal (NewControl ''pair.complete'' (PairComplete_json (pair_complete_body cr p (EncodeChannelID ch) h)))"

lemma handlePairIdentity_ok:
  assumes p: "h_pairing h = Some p" "pg_step p = 3" "pg_h2dSent p = 0"
    and "open": "pair_identity_open cr p hdr body = Some (\<lparr>lastSeen = 1, inSession = True\<rparr>, name)"
    and yes: "he_confirm e (h_tick h)" and k: "k = h_tick h + (if hc_AutoConfirm (h_cfg h) then 0 else 1)"
    and c: "h_provChannelWire h = EncodeChannelID c" "length c = 16" and conn: "h_conn h"
    and rnd: "he_rand e k 16 = Some ch" and ok: "he_post e (k + 1)"
    and roots: "HostRoots cr (h_hostPK h) (h_hostSK h) (pg_devPK p) = Inr roots"
    and push: "Stream_Push cr (complete_raw cr p ch h) (BuildAD c 1 PushClassNone) TagMessage (pg_push p) = Inr (ct, s')"
  shows "handlePairIdentity cr e hdr body h = h\<lparr>h_tick := k + 2, h_pairing := None,
      h_device := Some (paired_record cr roots h p ch name), h_out := h_out h @ [frame_of (EncodeChannelID c) 1 ''none'' ct],
      h_requests := h_requests h @ [HttpPost ''/v1/pairings'' (pairing_request_json (EncodeChannelID ch) h (pg_deviceID p)),
        HttpDelete (''/v1/pairing-windows/'' @ h_windowID h)]\<rparr>"
proof -
  let ?h = "h\<lparr>h_tick := k + 2, h_requests := h_requests h @ [HttpPost ''/v1/pairings'' (pairing_request_json (EncodeChannelID ch) h (pg_deviceID p))]\<rparr>"
  have body: "pair_complete_body cr p (EncodeChannelID ch) ?h = pair_complete_body cr p (EncodeChannelID ch) h"
    by (simp add: pair_complete_body_def HostIDWire_def mustBind_def)
  have send: "sendEncryptedOn cr e (pg_push p) 0 (EncodeChannelID c) ''pair.complete''
      (PairComplete_json (pair_complete_body cr p (EncodeChannelID ch) h)) ''none'' TagMessage [] ?h
    = (s', 1, ?h\<lparr>h_out := h_out ?h @ [frame_of (EncodeChannelID c) 1 ''none'' ct]\<rparr>)"
    using sendEncryptedOn_control [of "''pair.complete''" c "''none''" PushClassNone ?h cr
        "PairComplete_json (pair_complete_body cr p (EncodeChannelID ch) h)" 0 TagMessage "pg_push p" ct s' e "[]"] push c conn
    by (simp add: control_kinds_def complete_raw_def)
  have conf: "(if hc_AutoConfirm (h_cfg h) then (True, h) else (he_confirm e (h_tick h), h\<lparr>h_tick := h_tick h + 1\<rparr>))
      = (True, h\<lparr>h_tick := k\<rparr>)"
    using yes by (simp add: k)
  show ?thesis
    using p "open" c(1) rnd ok roots body send
    unfolding handlePairIdentity_def conf Let_def prod.case
    by (simp add: host_Read_def host_post_def pairing_request_json_def HostIDWire_def paired_record_def Let_def)
qed

definition paired_state :: "pair_ctx \<Rightarrow> Host \<Rightarrow> bytes \<Rightarrow> State" where
  "paired_state px h ch = \<lparr>dv_RelayOrigin = RelayOrigin (px_qr px), dv_Sub = pc_Sub (px_cfg px), dv_HostID = HostIDWire h,
     dv_HostPK = EncodeBin (HostPK (px_qr px)), dv_HostName = hc_HostName (h_cfg h), dv_DeviceID = EncodeChannelID (px_deviceID px),
     dv_DevPK = EncodeBin (px_devPK px), dv_DevSK = EncodeBin (px_devSK px), dv_ChannelID = EncodeChannelID ch,
     dv_DeviceName = pc_DeviceName (px_cfg px), dv_D2HLastSent = 1, dv_H2DLastSeen = 1, dv_dir = []\<rparr>"

lemma Pair_complete_ok:
  assumes cr: "crypto_laws cr" and c: "length c = 16" "length ch = 16" and plain: "utf8 (hc_HostName (h_cfg h))"
    and keys: "pv_keys pv = SessionKeys cr V1 roots t" "pg_keys p = pv_keys pv" "pv_pull pv = pg_push p" "pv_d2hSent pv = 1"
    and host: "h_hostID h = HostID (px_qr px)" "mustBind cr h = pair_bind cr px"
    and push: "Stream_Push cr (complete_raw cr p ch h) (BuildAD c 1 PushClassNone) TagMessage (pg_push p) = Inr (ct, s')"
  shows "Pair_complete cr px pv (WsBinary (frame_of (EncodeChannelID c) 1 ''none'' ct)) = Next (paired_state px h ch)"
proof -
  have w: "length (sk_ConfH (pv_keys pv)) = 32" "length (pair_bind cr px) = 16"
    using cr by (simp_all add: keys(1) pair_bind_def)
  have "ParseEnvelope (complete_raw cr p ch h) = Inr (NewControl ''pair.complete'' (PairComplete_json (pair_complete_body cr p (EncodeChannelID ch) h)))"
    unfolding complete_raw_def using plain by (intro ParseEnvelope_control) (simp_all add: pair_complete_body_def HostIDWire_def plain_char_def)
  with c keys(2-) host w Pull_of_Push [OF cr push] show ?thesis
    by (simp add: Pair_complete_def CheckFrameClass_def pair_complete_body_def HostIDWire_def paired_state_def LastSeen_def)
qed

section \<open>The whole ceremony\<close>

text \<open>Frames delivered to the device in order, and one exchange: the device's frames go to the host,
  what the host wrote comes back.\<close>

fun device_recv :: "primitives \<Rightarrow> bytes option \<Rightarrow> pair_ctx \<Rightarrow> bytes list \<Rightarrow> pair_state \<Rightarrow> pair_state \<times> bytes list" where
  "device_recv cr rnd px [] p = (p, [])"
| "device_recv cr rnd px (m # ms) p =
     (let (p, fs) = pair_recv cr rnd px (WsBinary m) p; (p, gs) = device_recv cr rnd px ms p in (p, fs @ gs))"

definition exchange :: "primitives \<Rightarrow> host_env \<Rightarrow> bytes option \<Rightarrow> pair_ctx \<Rightarrow> pair_state \<times> bytes list \<times> Host \<Rightarrow> pair_state \<times> bytes list \<times> Host" where
  "exchange cr e rnd px = (\<lambda>(p, fs, h).
     let h' = fold (handleBinary cr e) fs h;
         (p, fs) = device_recv cr rnd px (drop (length (h_out h)) (h_out h')) p
     in (p, fs, h'))"

text \<open>The ceremony: the relay's first message names the provisional channel, and two exchanges
  follow.\<close>

definition pairing_run :: "primitives \<Rightarrow> host_env \<Rightarrow> bytes option \<Rightarrow> pair_ctx \<Rightarrow> string \<Rightarrow> Host \<Rightarrow> pair_state \<times> Host" where
  "pairing_run cr e rnd px prov h =
     (let (p, fs) = pair_recv cr rnd px (WsText (marshal (JObj [(''provisional_channel'', JStr prov)]))) PairAttached;
          (p, fs, h) = exchange cr e rnd px (exchange cr e rnd px (p, fs, h))
      in (p, h))"

text \<open>An environment whose random source delivers, whose requests succeed and whose operator says
  yes.\<close>

definition env_ok :: "host_env \<Rightarrow> bool" where
  "env_ok e \<longleftrightarrow> (\<forall>t n. \<exists>b. he_rand e t n = Some b \<and> length b = n) \<and> (\<forall>t. he_post e t) \<and> (\<forall>t. he_confirm e t)"

lemma env_ok_rand: "env_ok e \<Longrightarrow> \<exists>b. he_rand e t n = Some b \<and> length b = n"
  by (simp add: env_ok_def)

lemma handlePairInit_ok:
  assumes "crypto_laws cr" "length (px_deviceID px) = 16" "length (px_devPK px) = 32" "length (px_nD px) = 32"
    and live: "h_tokenLive h" "h_token h = Token (px_qr px)" "h_hostID h = HostID (px_qr px)" "h_hostPK h = HostPK (px_qr px)"
    and bind: "mustBind cr h = pair_bind cr px"
    and new: "\<And>dev. h_device h = Some dev \<Longrightarrow> dr_deviceID dev \<noteq> px_deviceID px"
  shows "handlePairInit cr e (NewControl kind (PairInit_json (pair_init_body cr px))) h
    = pair_begin_session cr e (px_deviceID px) (px_devPK px) (px_nD px) (h\<lparr>h_tokenLive := False\<rparr>)"
  using assms by (auto simp: handlePairInit_def pair_init_fields_ok pair_mac_ok_def split: option.splits)

text \<open>A host that shows the code a device has scanned: token live, same account, device not known.\<close>

definition pair_ready :: "primitives \<Rightarrow> bytes \<Rightarrow> pair_ctx \<Rightarrow> Roots \<Rightarrow> Host \<Rightarrow> bool" where
  "pair_ready cr c px roots h \<longleftrightarrow> length c = 16 \<and> h_conn h \<and> h_provChannelWire h = EncodeChannelID c
     \<and> length (px_deviceID px) = 16 \<and> length (px_devPK px) = 32 \<and> length (px_nD px) = 32
     \<and> utf8 (pc_DeviceName (px_cfg px)) \<and> utf8 (pc_DeviceModel (px_cfg px)) \<and> utf8 (hc_HostName (h_cfg h))
     \<and> h_tokenLive h \<and> h_token h = Token (px_qr px) \<and> h_hostID h = HostID (px_qr px) \<and> h_hostPK h = HostPK (px_qr px)
     \<and> mustBind cr h = pair_bind cr px \<and> (\<forall>dev. h_device h = Some dev \<longrightarrow> dr_deviceID dev \<noteq> px_deviceID px)
     \<and> DeviceRoots cr (px_devPK px) (px_devSK px) (HostPK (px_qr px)) = Inr roots
     \<and> HostRoots cr (HostPK (px_qr px)) (h_hostSK h) (px_devPK px) = Inr roots"

definition init_frame :: "primitives \<Rightarrow> pair_ctx \<Rightarrow> string \<Rightarrow> bytes" where
  "init_frame cr px prov = frame_of prov 0 ''none'' (Envelope_Marshal (NewControl ''pair.init'' (PairInit_json (pair_init_body cr px))))"

lemma host_accepts_init:
  assumes cr: "crypto_laws cr" and r: "pair_ready cr c px roots h"
    and nH: "he_rand e (h_tick h) 32 = Some nH" "he_rand e (h_tick h + 1) 24 = Some hdrH"
  shows "handleBinary cr e (init_frame cr px (EncodeChannelID c)) h
    = h\<lparr>h_tokenLive := False, h_tick := h_tick h + 2,
        h_pairing := Some (accepted_pairing cr roots h (px_deviceID px) (px_devPK px) (px_nD px) nH hdrH),
        h_out := h_out h @ [accept_frame (EncodeChannelID c) ''pair.accept'' h nH hdrH]\<rparr>"
proof -
  note r = r [unfolded pair_ready_def]
  let ?env = "NewControl ''pair.init'' (PairInit_json (pair_init_body cr px))" and ?h = "h\<lparr>h_tokenLive := False\<rparr>"
  have wf: "wf_json (PairInit_json (pair_init_body cr px))" by (simp add: pair_init_body_def Let_def)
  have "handleBinary cr e (init_frame cr px (EncodeChannelID c)) h = handlePairInit cr e ?env h"
    using handleBinary_pairing [of h c "''none''"] r wf by (simp add: init_frame_def handlePairingFrame_def plain_char_def)
  also have "\<dots> = pair_begin_session cr e (px_deviceID px) (px_devPK px) (px_nD px) ?h"
    using r by (intro handlePairInit_ok [OF cr]) auto
  also have "\<dots> = ?h\<lparr>h_tick := h_tick h + 2, h_pairing := Some (accepted_pairing cr roots ?h (px_deviceID px) (px_devPK px) (px_nD px) nH hdrH),
        h_out := h_out h @ [accept_frame (EncodeChannelID c) ''pair.accept'' ?h nH hdrH]\<rparr>"
    by (subst pair_begin_session_ok [of cr ?h "px_devPK px" roots e nH hdrH]) (use r nH in simp_all)
  finally show ?thesis by (simp add: accepted_pairing_def accept_frame_def HostIDWire_def)
qed

text \<open>The first exchange: the host has answered, the device has identified itself.\<close>

lemma first_exchange:
  assumes cr: "crypto_laws cr" and e: "env_ok e" and r: "pair_ready cr c px roots h"
  obtains nH hdrH keys ct s' h1 where
    "exchange cr e (Some hdrD) px (PairSent (EncodeChannelID c), [init_frame cr px (EncodeChannelID c)], h)
       = (PairIdentified \<lparr>pv_provisional = EncodeChannelID c, pv_keys = keys, pv_pull = newStream cr (sk_H2D keys) hdrH, pv_d2hSent = 1\<rparr>,
          [header_frame (EncodeChannelID c) hdrD, frame_of (EncodeChannelID c) 1 ''none'' ct], h1)"
    "keys = SessionKeys cr V1 roots (Transcript V1 (h_hostID h) (px_deviceID px) (px_nD px) nH)"
    "Stream_Push cr (identity_raw px keys) (BuildAD c 1 PushClassNone) TagMessage (newStream cr (sk_D2H keys) hdrD) = Inr (ct, s')"
    "h1 = h\<lparr>h_tokenLive := False, h_tick := h_tick h + 2,
        h_pairing := Some (accepted_pairing cr roots h (px_deviceID px) (px_devPK px) (px_nD px) nH hdrH),
        h_out := h_out h @ [accept_frame (EncodeChannelID c) ''pair.accept'' h nH hdrH]\<rparr>"
proof -
  note r' = r [unfolded pair_ready_def]
  obtain nH where nH: "he_rand e (h_tick h) 32 = Some nH" "length nH = 32" using env_ok_rand [OF e] by blast
  obtain hdrH where hdrH: "he_rand e (h_tick h + 1) 24 = Some hdrH" "length hdrH = 24" using env_ok_rand [OF e] by blast
  define keys where "keys = SessionKeys cr V1 roots (Transcript V1 (h_hostID h) (px_deviceID px) (px_nD px) nH)"
  obtain ct s' where ct: "Stream_Push cr (identity_raw px keys) (BuildAD c 1 PushClassNone) TagMessage (newStream cr (sk_D2H keys) hdrD) = Inr (ct, s')"
    using Push_fresh by blast
  have acc: "Pair_accept cr px (EncodeChannelID c) (Some hdrD) (WsBinary (accept_frame (EncodeChannelID c) ''pair.accept'' h nH hdrH))
    = Next (\<lparr>pv_provisional = EncodeChannelID c, pv_keys = keys, pv_pull = newStream cr (sk_H2D keys) hdrH, pv_d2hSent = 1\<rparr>,
        [header_frame (EncodeChannelID c) hdrD, frame_of (EncodeChannelID c) 1 ''none'' ct])"
    using r' by (intro Pair_accept_ok [OF _ nH(2) hdrH(2) _ _ keys_def ct]) auto
  show thesis
    by (rule that [OF _ keys_def ct refl])
      (simp add: exchange_def host_accepts_init [OF cr r nH(1) hdrH(1)] pair_recv_def acc)
qed

lemma host_takes_header:
  assumes "h_provChannelWire h = EncodeChannelID c" "length c = 16" "h_pairing h = Some p" "pg_step p = 2" "length hdr = 24"
  shows "handleBinary cr e (header_frame (EncodeChannelID c) hdr) h
    = h\<lparr>h_pairing := Some (p\<lparr>pg_pull := Some (newStream cr (sk_D2H (pg_keys p)) hdr), pg_step := 3\<rparr>)\<rparr>"
  using handleBinary_pairing [of h c "''none''"] handlePairSessHeader_ok [OF assms(3-5)] assms(1,2)
  by (simp add: header_frame_def handlePairingFrame_def plain_char_def)

text \<open>The second exchange: the host has recorded the device, the device has its state.\<close>

lemma second_exchange:
  assumes cr: "crypto_laws cr" and e: "env_ok e" and r: "pair_ready cr c px roots h0" and hdrD: "length hdrD = 24"
    and h: "h_hostID h = h_hostID h0" "h_hostPK h = h_hostPK h0" "h_hostSK h = h_hostSK h0" "h_conn h" "h_cfg h = h_cfg h0"
      "h_provChannelWire h = EncodeChannelID c"
    and p: "h_pairing h = Some p" "p = accepted_pairing cr roots h0 (px_deviceID px) (px_devPK px) (px_nD px) nH hdrH"
    and keys: "keys = SessionKeys cr V1 roots (Transcript V1 (h_hostID h0) (px_deviceID px) (px_nD px) nH)"
    and ct: "Stream_Push cr (identity_raw px keys) (BuildAD c 1 PushClassNone) TagMessage (newStream cr (sk_D2H keys) hdrD) = Inr (ct, s')"
    and pv: "pv = \<lparr>pv_provisional = EncodeChannelID c, pv_keys = keys, pv_pull = newStream cr (sk_H2D keys) hdrH, pv_d2hSent = 1\<rparr>"
  obtains ch k ct2 where "length ch = 16"
    "exchange cr e (Some hdrD) px (PairIdentified pv, [header_frame (EncodeChannelID c) hdrD, frame_of (EncodeChannelID c) 1 ''none'' ct], h)
       = (PairDone (paired_state px h0 ch), [], h\<lparr>h_tick := k, h_pairing := None,
           h_device := Some (paired_record cr roots h0 p ch (pc_DeviceName (px_cfg px))),
           h_out := h_out h @ [frame_of (EncodeChannelID c) 1 ''none'' ct2],
           h_requests := h_requests h @ [HttpPost ''/v1/pairings'' (pairing_request_json (EncodeChannelID ch) h0 (px_deviceID px)),
             HttpDelete (''/v1/pairing-windows/'' @ h_windowID h)]\<rparr>)"
proof -
  note r = r [unfolded pair_ready_def]
  have pf: "pg_keys p = keys" "pg_step p = 2" "pg_push p = newStream cr (sk_H2D keys) hdrH" "pg_tracker p = NewSeqTracker 0"
    "pg_h2dSent p = 0" "pg_deviceID p = px_deviceID px" "pg_devPK p = px_devPK px"
    by (simp_all add: p(2) accepted_pairing_def keys Let_def)
  define p2 where "p2 = p\<lparr>pg_pull := Some (newStream cr (sk_D2H keys) hdrD), pg_step := 3\<rparr>"
  let ?h = "h\<lparr>h_pairing := Some p2\<rparr>"
  define k where "k = h_tick ?h + (if hc_AutoConfirm (h_cfg ?h) then 0 else 1)"
  obtain ch where ch: "he_rand e k 16 = Some ch" "length ch = 16" using env_ok_rand [OF e] by blast
  obtain ct2 s2 where ct2: "Stream_Push cr (complete_raw cr p2 ch ?h) (BuildAD c 1 PushClassNone) TagMessage (pg_push p2) = Inr (ct2, s2)"
    using Push_fresh [of cr _ _ _ "sk_H2D keys" hdrH] by (simp add: p2_def pf) blast
  have hdr: "handleBinary cr e (header_frame (EncodeChannelID c) hdrD) h = ?h"
    using host_takes_header [OF h(6) _ p(1) pf(2) hdrD] r by (simp add: pf p2_def)
  have op: "pair_identity_open cr p2 \<lparr>hd_Channel = EncodeChannelID c, hd_Seq = 1, hd_PushClass = ''none''\<rparr> ct
      = Some (\<lparr>lastSeen = 1, inSession = True\<rparr>, pc_DeviceName (px_cfg px))"
    by (rule pair_identity_open_ok [OF cr]) (use r ct in \<open>simp_all add: p2_def pf keys\<close>)
  have ident: "handlePairIdentity cr e \<lparr>hd_Channel = EncodeChannelID c, hd_Seq = 1, hd_PushClass = ''none''\<rparr> ct ?h
      = ?h\<lparr>h_tick := k + 2, h_pairing := None, h_device := Some (paired_record cr roots ?h p2 ch (pc_DeviceName (px_cfg px))),
          h_out := h_out ?h @ [frame_of (EncodeChannelID c) 1 ''none'' ct2],
          h_requests := h_requests ?h @ [HttpPost ''/v1/pairings'' (pairing_request_json (EncodeChannelID ch) ?h (pg_deviceID p2)),
            HttpDelete (''/v1/pairing-windows/'' @ h_windowID ?h)]\<rparr>"
    by (rule handlePairIdentity_ok [OF _ _ _ op _ k_def _ _ _ ch(1)])
      (use r e h ct2 in \<open>simp_all add: p2_def pf env_ok_def\<close>)
  have recs: "paired_record cr roots ?h p2 ch (pc_DeviceName (px_cfg px)) = paired_record cr roots h0 p ch (pc_DeviceName (px_cfg px))"
    "pairing_request_json (EncodeChannelID ch) ?h (pg_deviceID p2) = pairing_request_json (EncodeChannelID ch) h0 (px_deviceID px)"
    "paired_state px ?h ch = paired_state px h0 ch"
    by (simp_all add: paired_record_def p2_def h pf pairing_request_json_def HostIDWire_def paired_state_def)
  have bind: "mustBind cr ?h = pair_bind cr px" using r h by (auto simp: mustBind_def)
  have fin: "Pair_complete cr px pv (WsBinary (frame_of (EncodeChannelID c) 1 ''none'' ct2)) = Next (paired_state px ?h ch)"
    by (rule Pair_complete_ok [OF cr _ ch(2) _ _ _ _ _ _ _ ct2])
      (use r h bind in \<open>simp_all add: pv p2_def pf keys\<close>)
  show thesis
    by (rule that [OF ch(2)])
      (use r h in \<open>simp add: exchange_def hdr handlePairingFrame_def ident recs pair_recv_def fin\<close>)
qed

text \<open>What a fresh window puts into the code.\<close>

definition window_qr :: "primitives \<Rightarrow> host_env \<Rightarrow> bytes \<Rightarrow> Host \<Rightarrow> QRPayload" where
  "window_qr cr e tok h = \<lparr>Version = 1, RelayOrigin = hc_RelayOrigin (h_cfg h), HostID = h_hostID h, HostPK = h_hostPK h, Token = tok,
     qr_AccountBind = mustBind cr h, ExpiresUnix = Unix (he_now e (h_tick h + 1) + hc_WindowTTL (h_cfg h))\<rparr>"

lemma OpenPairingWindow_ok:
  assumes "OpenPairingWindow cr e (Some (win, prov)) h = (Some (uri, w), h1)"
  obtains tok where "h1 = h\<lparr>h_requests := h_requests h1, h_windowID := win, h_provChannelWire := prov, h_token := tok,
      h_tokenLive := True, h_macFailures := 0, h_tick := h_tick h1\<rparr>"
    "he_rand e (h_tick h) 32 = Some tok" "uri = QR_Encode (window_qr cr e tok h)"
  using assms
  by (auto simp: OpenPairingWindow_def host_Read_def host_Now_def mustBind_def window_qr_def Let_def split: option.splits)

text \<open>Both ends of a pairing: what the host recorded and what the device persisted.\<close>

definition paired_ends :: "primitives \<Rightarrow> State \<Rightarrow> Host \<Rightarrow> bool" where
  "paired_ends cr st h \<longleftrightarrow> (\<exists>dev cx. h_device h = Some dev \<and> Connect_begin cr st = Inr cx
     \<and> dv_HostID st = HostIDWire h \<and> dv_DeviceID st = EncodeChannelID (dr_deviceID dev) \<and> dv_ChannelID st = dr_channelWire dev
     \<and> cx_hostID cx = h_hostID h \<and> cx_deviceID cx = dr_deviceID dev \<and> cx_channel cx = dr_channel dev
     \<and> dr_channelWire dev = EncodeChannelID (dr_channel dev) \<and> length (dr_channel dev) = 16
     \<and> length (dr_deviceID dev) = 16 \<and> length (h_hostID h) = 16
     \<and> cx_roots cx = dr_roots dev \<and> cx_kMbx cx = dr_kMbx dev
     \<and> dr_kMbx dev = MailboxKey cr V1 (dr_roots dev) (h_hostID h) (dr_deviceID dev))"

lemma Connect_begin_paired:
  assumes "pair_ready cr c px roots h" "length (HostID (px_qr px)) = 16" "length (HostPK (px_qr px)) = 32"
    "length (px_devSK px) = 32" "length ch = 16"
  shows "Connect_begin cr (paired_state px h ch) = Inr \<lparr>cx_hostID = HostID (px_qr px), cx_deviceID = px_deviceID px,
     cx_channel = ch, cx_roots = roots, cx_kMbx = MailboxKey cr V1 roots (HostID (px_qr px)) (px_deviceID px)\<rparr>"
  using assms by (simp add: Connect_begin_def State_keys_def paired_state_def HostIDWire_def pair_ready_def)

lemma pairing_run_ok:
  assumes cr: "crypto_laws cr" and e: "env_ok e" and r: "pair_ready cr c px roots h" and hdrD: "length hdrD = 24"
    and w: "length (HostID (px_qr px)) = 16" "length (HostPK (px_qr px)) = 32" "length (px_devSK px) = 32"
  shows "\<exists>st h' dev. pairing_run cr e (Some hdrD) px (EncodeChannelID c) h = (PairDone st, h') \<and> paired_ends cr st h'
    \<and> h_device h' = Some dev \<and> dv_D2HLastSent st = lastSeen (dr_d2h dev) \<and> dv_H2DLastSeen st = dr_h2dSent dev
    \<and> dv_Sub st = pc_Sub (px_cfg px) \<and> \<not> h_tokenLive h' \<and> h_pairing h' = None
    \<and> HttpPost ''/v1/pairings'' (pairing_request_json (dv_ChannelID st) h (dr_deviceID dev)) \<in> set (h_requests h')"
proof -
  note r' = r [unfolded pair_ready_def]
  have r0: "pair_recv cr (Some hdrD) px (WsText (marshal (JObj [(''provisional_channel'', JStr (EncodeChannelID c))]))) PairAttached
      = (PairSent (EncodeChannelID c), [init_frame cr px (EncodeChannelID c)])"
    using Pair_provisional_ok [of c] r' by (simp add: pair_recv_def init_frame_def)
  obtain nH hdrH keys ct s' h1 where x1: "exchange cr e (Some hdrD) px (PairSent (EncodeChannelID c), [init_frame cr px (EncodeChannelID c)], h)
       = (PairIdentified \<lparr>pv_provisional = EncodeChannelID c, pv_keys = keys, pv_pull = newStream cr (sk_H2D keys) hdrH, pv_d2hSent = 1\<rparr>,
          [header_frame (EncodeChannelID c) hdrD, frame_of (EncodeChannelID c) 1 ''none'' ct], h1)"
    and keys: "keys = SessionKeys cr V1 roots (Transcript V1 (h_hostID h) (px_deviceID px) (px_nD px) nH)"
    and ct: "Stream_Push cr (identity_raw px keys) (BuildAD c 1 PushClassNone) TagMessage (newStream cr (sk_D2H keys) hdrD) = Inr (ct, s')"
    and h1: "h1 = h\<lparr>h_tokenLive := False, h_tick := h_tick h + 2,
        h_pairing := Some (accepted_pairing cr roots h (px_deviceID px) (px_devPK px) (px_nD px) nH hdrH),
        h_out := h_out h @ [accept_frame (EncodeChannelID c) ''pair.accept'' h nH hdrH]\<rparr>"
    by (rule first_exchange [OF cr e r])
  have hs: "h_hostID h1 = h_hostID h" "h_hostPK h1 = h_hostPK h" "h_hostSK h1 = h_hostSK h" "h_conn h1" "h_cfg h1 = h_cfg h"
      "h_provChannelWire h1 = EncodeChannelID c"
    "h_pairing h1 = Some (accepted_pairing cr roots h (px_deviceID px) (px_devPK px) (px_nD px) nH hdrH)"
    using r' by (simp_all add: h1)
  obtain ch k ct2 where ch: "length ch = 16"
    and x2: "exchange cr e (Some hdrD) px (PairIdentified \<lparr>pv_provisional = EncodeChannelID c, pv_keys = keys,
          pv_pull = newStream cr (sk_H2D keys) hdrH, pv_d2hSent = 1\<rparr>,
          [header_frame (EncodeChannelID c) hdrD, frame_of (EncodeChannelID c) 1 ''none'' ct], h1)
       = (PairDone (paired_state px h ch), [], h1\<lparr>h_tick := k, h_pairing := None,
           h_device := Some (paired_record cr roots h (accepted_pairing cr roots h (px_deviceID px) (px_devPK px) (px_nD px) nH hdrH) ch (pc_DeviceName (px_cfg px))),
           h_out := h_out h1 @ [frame_of (EncodeChannelID c) 1 ''none'' ct2],
           h_requests := h_requests h1 @ [HttpPost ''/v1/pairings'' (pairing_request_json (EncodeChannelID ch) h (px_deviceID px)),
             HttpDelete (''/v1/pairing-windows/'' @ h_windowID h1)]\<rparr>)"
    by (rule second_exchange [OF cr e r hdrD hs refl keys ct refl])
  have run: "pairing_run cr e (Some hdrD) px (EncodeChannelID c) h = (PairDone (paired_state px h ch), h1\<lparr>h_tick := k, h_pairing := None,
           h_device := Some (paired_record cr roots h (accepted_pairing cr roots h (px_deviceID px) (px_devPK px) (px_nD px) nH hdrH) ch (pc_DeviceName (px_cfg px))),
           h_out := h_out h1 @ [frame_of (EncodeChannelID c) 1 ''none'' ct2],
           h_requests := h_requests h1 @ [HttpPost ''/v1/pairings'' (pairing_request_json (EncodeChannelID ch) h (px_deviceID px)),
             HttpDelete (''/v1/pairing-windows/'' @ h_windowID h1)]\<rparr>)"
    unfolding pairing_run_def r0 Let_def prod.case x1 x2 ..
  show ?thesis
    unfolding run using Connect_begin_paired [OF r w ch] r' w ch
    by (simp add: paired_ends_def paired_record_def accepted_pairing_def paired_state_def h1 HostIDWire_def Let_def)
qed

text \<open>The code the host shows is the code the device reads, when the clock is between 1970 and the
  end of the 64-bit range.\<close>

definition clock_ok :: "host_env \<Rightarrow> Host \<Rightarrow> bool" where
  "clock_ok e h \<longleftrightarrow> (\<forall>t. 0 \<le> Unix (he_now e t + hc_WindowTTL (h_cfg h)) \<and> Unix (he_now e t + hc_WindowTTL (h_cfg h)) < 2 ^ 63)"

lemma OpenPairingWindow_ready:
  assumes cr: "crypto_laws cr" and e: "env_ok e" "clock_ok e h" and win: "OpenPairingWindow cr e (Some (win, EncodeChannelID c)) h = (Some (uri, w), h1)"
    and host: "KXSeedKeypair cr seedH = Inr (h_hostPK h, h_hostSK h)" "length (h_hostID h) = 16" "length c = 16" "h_conn h"
    and px: "Pair_begin cr cfg wall (Some seedD) (Some did) (Some nD) = Inr px" "pc_QRURI cfg = uri" "pc_Sub cfg = hc_Sub (h_cfg h)"
      "length did = 16" "length nD = 32" "\<forall>dev. h_device h = Some dev \<longrightarrow> dr_deviceID dev \<noteq> did"
    and names: "utf8 (pc_DeviceName cfg)" "utf8 (pc_DeviceModel cfg)" "utf8 (hc_HostName (h_cfg h))"
    and roots: "DeviceRoots cr (px_devPK px) (px_devSK px) (h_hostPK h) = Inr roots"
  shows "pair_ready cr c px roots h1 \<and> length (HostID (px_qr px)) = 16 \<and> length (HostPK (px_qr px)) = 32 \<and> length (px_devSK px) = 32
    \<and> px_cfg px = cfg"
proof -
  obtain tok where h1: "h1 = h\<lparr>h_requests := h_requests h1, h_windowID := win, h_provChannelWire := EncodeChannelID c, h_token := tok,
      h_tokenLive := True, h_macFailures := 0, h_tick := h_tick h1\<rparr>" and tok: "he_rand e (h_tick h) 32 = Some tok"
    and uri: "uri = QR_Encode (window_qr cr e tok h)"
    by (rule OpenPairingWindow_ok [OF win])
  have "length tok = 32" using env_ok_rand [OF e(1), of "h_tick h" 32] tok by simp
  then have wf: "qr_wf (window_qr cr e tok h)"
    using keypair_widths [OF cr host(1)] host(2) cr e(2) by (simp add: qr_wf_def mustBind_def window_qr_def clock_ok_def)
  have qr: "ParseQR (pc_QRURI cfg) = Inr (window_qr cr e tok h)" using ParseQR_Encode [OF wf] by (simp only: px(2) uri)
  obtain devPK devSK where kx: "NewKXKeypair cr (Some seedD) = Inr (devPK, devSK)"
    and p: "px = \<lparr>px_cfg = cfg, px_qr = window_qr cr e tok h, px_devPK = devPK, px_devSK = devSK, px_deviceID = did, px_nD = nD\<rparr>"
    using px(1) unfolding Pair_begin_def qr Let_def by (auto split: option.splits sum.splits)
  have w: "KXSeedKeypair cr seedD = Inr (devPK, devSK)" using kx by (simp add: NewKXKeypair_def)
  have x: "x25519_commutes cr" using cr by (simp add: crypto_laws_def)
  have "HostRoots cr (h_hostPK h) (h_hostSK h) devPK = Inr roots" using roots_agree [OF x w host(1)] roots by (simp add: p)
  then have "pair_ready cr c px roots h1"
    using host px(3-6) names roots keypair_widths [OF cr w] by (subst h1) (simp add: pair_ready_def p mustBind_def pair_bind_def window_qr_def)
  then show ?thesis using host(2) keypair_widths [OF cr host(1)] keypair_widths [OF cr w] by (simp add: p window_qr_def)
qed

text \<open>C7. The pairing ceremony succeeds and leaves the two ends with one pairing. When a host opens a
  window, a device signed in to the same account scans the code, and every frame the two write is
  delivered, the device ends with a state and the host with a device record that name the same
  channel, the same host and the same device, from which both derive the same roots and the same
  mailbox key; the send counter of each direction equals the other end's high-water mark; the
  token is spent, no pairing is in flight, and the routing of exactly that channel has been
  registered. The device must not be paired already, names are UTF-8, and the hypotheses on the
  primitives are the Diffie-Hellman law and the widths of their results.\<close>

theorem pairing_ceremony:
  assumes "crypto_laws cr" "env_ok e" "clock_ok e h"
    and "OpenPairingWindow cr e (Some (win, EncodeChannelID c)) h = (Some (uri, win), h1)"
    and "KXSeedKeypair cr seedH = Inr (h_hostPK h, h_hostSK h)" "length (h_hostID h) = 16" "length c = 16" "h_conn h"
    and "Pair_begin cr cfg wall (Some seedD) (Some did) (Some nD) = Inr px" "pc_QRURI cfg = uri" "pc_Sub cfg = hc_Sub (h_cfg h)"
    and "length did = 16" "length nD = 32" "\<forall>dev. h_device h = Some dev \<longrightarrow> dr_deviceID dev \<noteq> did"
    and "utf8 (pc_DeviceName cfg)" "utf8 (pc_DeviceModel cfg)" "utf8 (hc_HostName (h_cfg h))"
    and "DeviceRoots cr (px_devPK px) (px_devSK px) (h_hostPK h) = Inr roots" "length hdrD = 24"
  shows "\<exists>st h' dev. pairing_run cr e (Some hdrD) px (EncodeChannelID c) h1 = (PairDone st, h') \<and> paired_ends cr st h'
    \<and> h_device h' = Some dev \<and> dv_D2HLastSent st = lastSeen (dr_d2h dev) \<and> dv_H2DLastSeen st = dr_h2dSent dev
    \<and> dv_Sub st = hc_Sub (h_cfg h) \<and> \<not> h_tokenLive h' \<and> h_pairing h' = None
    \<and> HttpPost ''/v1/pairings'' (pairing_request_json (dv_ChannelID st) h1 (dr_deviceID dev)) \<in> set (h_requests h')"
proof -
  have r: "pair_ready cr c px roots h1" "length (HostID (px_qr px)) = 16" "length (HostPK (px_qr px)) = 32" "length (px_devSK px) = 32" "px_cfg px = cfg"
    using OpenPairingWindow_ready [OF assms(1-18)] by simp_all
  from pairing_run_ok [OF assms(1,2) r(1) assms(19) r(2-4)] show ?thesis unfolding r(5) assms(11) .
qed

text \<open>A host, a window and a device that scans its code.\<close>

lemma ex_crypto_laws: "crypto_laws ex_crypto"
  by (simp add: crypto_laws_def ex_crypto_commutes ex_crypto_poly)
    (auto simp: digest_widths_def x25519_width_def ex_crypto_def ex_xor_def min_def)

definition ex_henv :: host_env where
  "ex_henv = \<lparr>he_now = (\<lambda>t. (unixToInternal + 1000) * 1000000000), he_rand = (\<lambda>t n. Some (replicate n (byte_of t))),
     he_confirm = (\<lambda>t. True), he_post = (\<lambda>t. True)\<rparr>"

lemma ex_henv_ok: "env_ok ex_henv"
  by (simp add: env_ok_def ex_henv_def)

definition ex_endpoint :: Host where
  "ex_endpoint = \<lparr>h_cfg = \<lparr>hc_RelayOrigin = ''http://relay'', hc_Sub = ''alice'', hc_HostName = ''Mac'', hc_AutoConfirm = False,
       hc_ApprovalAfter = 5 * second, hc_ApprovalTimeout = 60 * second, hc_Script = [], hc_EventInterval = 2 * second, hc_WindowTTL = 5 * minute\<rparr>,
     h_hostID = replicate 16 1, h_hostPK = ex_pk 2, h_hostSK = ex_seed 2, h_conn = True, h_windowID = [],
     h_provChannelWire = [], h_token = replicate 32 0, h_tokenLive = False, h_macFailures = 0, h_pairing = None,
     h_device = None, h_sess = None, h_pending = [], h_resolved = [], h_approvalSeq = 0, h_wbSuspended = False,
     h_loops = [], h_nextLoop = 0, h_tick = 0, h_out = [], h_ledger = [], h_requests = []\<rparr>"

definition ex_chan :: string where "ex_chan = EncodeChannelID (replicate 16 5)"

definition ex_uri :: string where
  "ex_uri = QR_Encode (window_qr ex_crypto ex_henv (replicate 32 0) ex_endpoint)"

definition ex_open_host :: Host where
  "ex_open_host = snd (OpenPairingWindow ex_crypto ex_henv (Some (''w'', ex_chan)) ex_endpoint)"

definition ex_pair_cfg :: PairConfig where
  "ex_pair_cfg = \<lparr>pc_QRURI = ex_uri, pc_Sub = ''alice'', pc_DeviceName = ''phone'', pc_DeviceModel = ''X'', pc_NowUnix = 7\<rparr>"

definition ex_px :: pair_ctx where
  "ex_px = \<lparr>px_cfg = ex_pair_cfg, px_qr = window_qr ex_crypto ex_henv (replicate 32 0) ex_endpoint, px_devPK = ex_pk 3, px_devSK = ex_seed 3,
     px_deviceID = replicate 16 4, px_nD = replicate 32 6\<rparr>"

lemma ex_clock_ok: "clock_ok ex_henv ex_endpoint"
  by (simp add: clock_ok_def ex_henv_def ex_endpoint_def Unix_def unixToInternal_def)

lemma ex_open: "OpenPairingWindow ex_crypto ex_henv (Some (''w'', ex_chan)) ex_endpoint = (Some (ex_uri, ''w''), ex_open_host)"
  by (simp add: ex_open_host_def OpenPairingWindow_def host_Read_def host_Now_def ex_uri_def window_qr_def mustBind_def ex_endpoint_def ex_henv_def
      byte_of_def Let_def)

lemma ex_pair_begin: "Pair_begin ex_crypto ex_pair_cfg 0 (Some (ex_seed 3)) (Some (replicate 16 4)) (Some (replicate 32 6)) = Inr ex_px"
proof -
  let ?qr = "window_qr ex_crypto ex_henv (replicate 32 0) ex_endpoint"
  have "length (ex_pk 2) = 32" by (rule keypair_widths [OF ex_crypto_laws ex_keypair])
  then have "qr_wf ?qr" using ex_crypto_laws ex_clock_ok by (simp add: qr_wf_def window_qr_def mustBind_def clock_ok_def ex_endpoint_def)
  then have "ParseQR (pc_QRURI ex_pair_cfg) = Inr ?qr" using ParseQR_Encode by (simp add: ex_pair_cfg_def ex_uri_def)
  moreover have "QR_Validate ex_crypto ?qr 7 ''alice'' = None"
    by (simp add: QR_Validate_def window_qr_def mustBind_def ex_endpoint_def ex_henv_def Unix_def unixToInternal_def)
  ultimately show ?thesis
    using ex_keypair [of 3] by (simp add: Pair_begin_def ex_px_def NewKXKeypair_def ex_pair_cfg_def)
qed

theorem pairing_ceremony_witness:
  "\<exists>st h' dev. pairing_run ex_crypto ex_henv (Some (replicate 24 8)) ex_px ex_chan ex_open_host = (PairDone st, h') \<and> paired_ends ex_crypto st h'
    \<and> h_device h' = Some dev \<and> dv_Sub st = ''alice'' \<and> \<not> h_tokenLive h'"
proof -
  obtain roots where r: "DeviceRoots ex_crypto (px_devPK ex_px) (px_devSK ex_px) (h_hostPK ex_endpoint) = Inr roots"
    using ex_device_roots [of 3 2] by (auto simp: ex_px_def ex_endpoint_def)
  have k: "KXSeedKeypair ex_crypto (ex_seed 2) = Inr (h_hostPK ex_endpoint, h_hostSK ex_endpoint)" using ex_keypair by (simp add: ex_endpoint_def)
  have c: "pc_QRURI ex_pair_cfg = ex_uri" "pc_Sub ex_pair_cfg = hc_Sub (h_cfg ex_endpoint)" "utf8 (pc_DeviceName ex_pair_cfg)"
    "utf8 (pc_DeviceModel ex_pair_cfg)" "utf8 (hc_HostName (h_cfg ex_endpoint))" "\<forall>dev. h_device ex_endpoint = Some dev \<longrightarrow> dr_deviceID dev \<noteq> replicate 16 4"
    "length (h_hostID ex_endpoint) = 16" "h_conn ex_endpoint"
    by (simp_all add: ex_pair_cfg_def ex_endpoint_def plain_char_def)
  from pairing_ceremony [OF ex_crypto_laws ex_henv_ok ex_clock_ok ex_open [unfolded ex_chan_def] k c(7) _ c(8) ex_pair_begin c(1,2) _ _ c(6) c(3-5) r,
      of "replicate 24 8"]
  obtain st h' dev where "pairing_run ex_crypto ex_henv (Some (replicate 24 8)) ex_px (EncodeChannelID (replicate 16 5)) ex_open_host = (PairDone st, h')"
    "paired_ends ex_crypto st h'" "h_device h' = Some dev" "dv_Sub st = hc_Sub (h_cfg ex_endpoint)" "\<not> h_tokenLive h'" by auto
  then show ?thesis unfolding ex_chan_def using c(2) by (auto simp: ex_pair_cfg_def)
qed

end
