(* ===== verification/Handshake.thy ===== *)
theory Handshake
  imports Ceremony
begin

text \<open>
  Sessions between the endpoints. \<open>synced\<close> relates an established device session to the host's: the
  streams of each direction are in the same state and the counters agree. The handshake of
  \<open>Connect\<close> establishes it, and every envelope either end then sends is received as it was sent
  and keeps it, so that a session is a pair of reliable queues for as long as frames arrive in
  order.
\<close>

section \<open>Saving\<close>

lemma save_session_eq: "\<exists>d. save_session ok s = (ok \<or> dv_dir (ss_State s) = [], s\<lparr>ss_disk := d\<rparr>)
  \<and> (ok \<longrightarrow> dv_dir (ss_State s) \<noteq> [] \<longrightarrow> d (dv_dir (ss_State s)) = Some (State_json (ss_State s)))"
proof (cases "ok \<and> dv_dir (ss_State s) \<noteq> []")
  case True
  have "s\<lparr>ss_State := (ss_State s)\<lparr>dv_dir := dv_dir (ss_State s)\<rparr>, ss_disk := d\<rparr> = s\<lparr>ss_disk := d\<rparr>" for d by simp
  with True show ?thesis
    by (intro exI [of _ "(ss_disk s)(dv_dir (ss_State s) \<mapsto> State_json (ss_State s))"]) (simp add: save_session_def State_Save_def)
next
  case False
  then show ?thesis by (intro exI [of _ "ss_disk s"]) (auto simp: save_session_def State_Save_def Let_def)
qed

lemma save_session_disk: "\<exists>d. snd (save_session ok s) = s\<lparr>ss_disk := d\<rparr>"
  using save_session_eq [of ok s] by (metis snd_conv)

lemma save_session_fields [simp]:
  "ss_State (snd (save_session ok s)) = ss_State s" "ss_tracker (snd (save_session ok s)) = ss_tracker s"
  "ss_push (snd (save_session ok s)) = ss_push s" "ss_pull (snd (save_session ok s)) = ss_pull s"
  "ss_keys (snd (save_session ok s)) = ss_keys s" "ss_revoked (snd (save_session ok s)) = ss_revoked s"
  using save_session_eq [of ok s] by auto

section \<open>Sessions in step\<close>

definition synced :: "Session \<Rightarrow> Host \<Rightarrow> bool" where
  "synced s h \<longleftrightarrow> (\<exists>dev hs down up. h_device h = Some dev \<and> h_sess h = Some hs \<and> se_step hs = 3 \<and> h_conn h
     \<and> ss_pull s = Some down \<and> se_push hs = down \<and> \<not> finished down
     \<and> ss_push s = Some up \<and> se_pull hs = Some up \<and> \<not> finished up
     \<and> dv_ChannelID (ss_State s) = dr_channelWire dev \<and> dr_channelWire dev = EncodeChannelID (dr_channel dev)
     \<and> length (dr_channel dev) = 16 \<and> dr_channelWire dev \<noteq> h_provChannelWire h
     \<and> lastSeen (ss_tracker s) = dr_h2dSent dev \<and> inSession (ss_tracker s)
     \<and> lastSeen (dr_d2h dev) = dv_D2HLastSent (ss_State s) \<and> inSession (dr_d2h dev) \<and> \<not> ss_revoked s)"

lemma stream_step:
  assumes "crypto_laws cr" "\<not> finished p"
  obtains ct p' where "Stream_Push cr raw ad TagMessage p = Inr (ct, p')" "Stream_Pull cr ct ad p = Inr ((raw, TagMessage), p')" "\<not> finished p'"
proof -
  have "TagMessage \<noteq> TagFinal" by (simp add: TagMessage_def TagFinal_def TagPush_def TagRekey_def)
  then obtain ct p' where "Stream_Push cr raw ad TagMessage p = Inr (ct, p')" "\<not> finished p'"
    using Push_open [OF assms(2), of cr raw ad TagMessage] by auto
  with Pull_of_Push [OF assms(1)] that show thesis by blast
qed

lemma next_Accept: "inSession t \<Longrightarrow> lastSeen t + 1 \<noteq> 0 \<Longrightarrow> Accept (lastSeen t + 1) t = (Inr False, t\<lparr>lastSeen := lastSeen t + 1\<rparr>)"
proof -
  assume a: "inSession t" "lastSeen t + 1 \<noteq> 0"
  have "\<not> lastSeen t + 1 \<le> lastSeen t" using unatSuc [of "lastSeen t"] a(2) by (simp add: word_le_nat_alt add.commute)
  with a show ?thesis by (cases t) (simp add: Accept_cases)
qed

lemma readBinary_durable [simp]:
  "length c = 16 \<Longrightarrow> validPushClass pc
    \<Longrightarrow> readBinary (WsBinary (frame_of (EncodeChannelID c) q pc b)) = Next (\<lparr>hd_Channel = EncodeChannelID c, hd_Seq = q, hd_PushClass = pc\<rparr>, b)"
  by simp

lemma hear_binary [simp]: "hear_text (WsBinary m) s = s"
  by (simp add: hear_text_def)

text \<open>Host to device.\<close>

lemma send_on_session_synced:
  assumes cr: "crypto_laws cr" and sy: "synced s h" and dev: "h_device h = Some dev" "dr_h2dSent dev + 1 \<noteq> 0"
    and pc: "ParsePushClass pc = Some b" and kind: "kind \<notin> set control_kinds"
    and env: "env = NewPayload kind ident (he_now e (h_tick h)) body" "ParseEnvelope (Envelope_Marshal env) = Inr env"
  obtains f h' s' where "send_on_session cr e kind body pc ident h = h'" "h_out h' = h_out h @ [f]"
    "Recv cr ok (WsBinary f) s = (Next env, s')" "synced s' h'" "dv_H2DLastSeen (ss_State s') = dr_h2dSent dev + 1"
proof -
  obtain hs down up where hs: "h_sess h = Some hs" "se_step hs = 3" "h_conn h" "ss_pull s = Some down" "se_push hs = down" "\<not> finished down"
     "ss_push s = Some up" "se_pull hs = Some up" "\<not> finished up"
     and ch: "dv_ChannelID (ss_State s) = dr_channelWire dev" "dr_channelWire dev = EncodeChannelID (dr_channel dev)"
     "length (dr_channel dev) = 16" "dr_channelWire dev \<noteq> h_provChannelWire h"
     and tr: "lastSeen (ss_tracker s) = dr_h2dSent dev" "inSession (ss_tracker s)"
     "lastSeen (dr_d2h dev) = dv_D2HLastSent (ss_State s)" "inSession (dr_d2h dev)" "\<not> ss_revoked s"
    using sy dev(1) by (auto simp: synced_def)
  let ?q = "dr_h2dSent dev + 1" and ?raw = "Envelope_Marshal env"
  obtain ct down' where ct: "Stream_Push cr ?raw (BuildAD (dr_channel dev) ?q b) TagMessage down = Inr (ct, down')"
    "Stream_Pull cr ct (BuildAD (dr_channel dev) ?q b) down = Inr ((?raw, TagMessage), down')" "\<not> finished down'"
    by (rule stream_step [OF cr hs(6)])
  have vpc: "validPushClass pc" using pc ParsePushClass_valid [of pc] by auto
  let ?f = "frame_of (EncodeChannelID (dr_channel dev)) ?q pc ct"
  let ?h = "h\<lparr>h_tick := h_tick h + 1, h_out := h_out h @ [?f], h_device := Some (dev\<lparr>dr_h2dSent := ?q\<rparr>), h_sess := Some (hs\<lparr>se_push := down'\<rparr>)\<rparr>"
  have send: "send_on_session cr e kind body pc ident h = ?h"
    using hs(1,3,5) ch(2,3) ct(1) pc kind vpc dev(1) env(1)
    by (simp add: send_on_session_def sendEncryptedOn_def host_Now_def Let_def)
  have acc: "Accept ?q (ss_tracker s) = (Inr False, (ss_tracker s)\<lparr>lastSeen := ?q\<rparr>)"
    using next_Accept [OF tr(2)] dev(2) by (simp add: tr(1))
  let ?s1 = "s\<lparr>ss_tracker := (ss_tracker s)\<lparr>lastSeen := ?q\<rparr>, ss_pull := Some down'\<rparr>"
  have op: "open_frame cr \<lparr>hd_Channel = EncodeChannelID (dr_channel dev), hd_Seq = ?q, hd_PushClass = pc\<rparr> ct s = (Inr (False, ?raw, TagMessage), ?s1)"
    using acc ch(3) pc hs(4) ct(2) by (simp add: open_frame_def)
  let ?s2 = "snd (save_session ok (?s1\<lparr>ss_State := (ss_State s)\<lparr>dv_H2DLastSeen := ?q\<rparr>\<rparr>))"
  have rev: "ev_Kind env \<noteq> ''session.revoked''" "TagMessage \<noteq> TagFinal"
    using kind by (auto simp: env(1) control_kinds_def TagMessage_def TagFinal_def TagPush_def TagRekey_def)
  have recv: "Recv cr ok (WsBinary ?f) s = (Next env, ?s2)"
    using tr(5) ch(3) vpc dev(2) op env(2) rev by (simp add: Recv_def LastSeen_def)
  show thesis
  proof (rule that [OF send _ recv])
    show "synced ?s2 ?h" using hs ch tr ct(3) by (simp add: synced_def)
  qed simp_all
qed

text \<open>Device to host.\<close>

lemma handleBinary_durable:
  assumes "h_device h = Some dev" "dr_channelWire dev = EncodeChannelID c" "length c = 16" "dr_channelWire dev \<noteq> h_provChannelWire h"
    "validPushClass pc"
  shows "handleBinary cr e (frame_of (EncodeChannelID c) q pc b) h
    = handleSessionFrame cr e \<lparr>hd_Channel = EncodeChannelID c, hd_Seq = q, hd_PushClass = pc\<rparr> b h"
  using assms by (auto simp: handleBinary_def)

lemma sendEncrypted_ok:
  assumes "ok \<or> dv_dir (ss_State s) = []" "ss_push s = Some up" "dv_ChannelID (ss_State s) = EncodeChannelID c" "length c = 16"
    and push: "Stream_Push cr (Envelope_Marshal env) (BuildAD c (dv_D2HLastSent (ss_State s) + 1) PushClassNone) TagMessage up = Inr (ct, up')"
  shows "\<exists>d. sendEncrypted cr ok env s = (Inr (frame_of (EncodeChannelID c) (dv_D2HLastSent (ss_State s) + 1) ''none'' ct),
     s\<lparr>ss_State := (ss_State s)\<lparr>dv_D2HLastSent := dv_D2HLastSent (ss_State s) + 1\<rparr>, ss_push := Some up', ss_disk := d\<rparr>)"
proof -
  let ?s = "s\<lparr>ss_State := (ss_State s)\<lparr>dv_D2HLastSent := dv_D2HLastSent (ss_State s) + 1\<rparr>\<rparr>"
  obtain d where d: "save_session ok ?s = (True, ?s\<lparr>ss_disk := d\<rparr>)" using save_session_eq [of ok ?s] assms(1) by auto
  then show ?thesis using assms
    by (intro exI [of _ d]) (simp add: sendEncrypted_def Let_def deviceChannelOf_def)
qed

lemma sendEncrypted_synced:
  assumes cr: "crypto_laws cr" and sy: "synced s h" and ok: "ok \<or> dv_dir (ss_State s) = []" "dv_D2HLastSent (ss_State s) + 1 \<noteq> 0"
    and env: "ParseEnvelope (Envelope_Marshal env) = Inr env"
  obtains f s' dev dev' hs where "sendEncrypted cr ok env s = (Inr f, s')"
    "handleBinary cr e f h = handle_session_envelope cr e env (h\<lparr>h_device := Some dev', h_sess := Some hs\<rparr>)"
    "synced s' (h\<lparr>h_device := Some dev', h_sess := Some hs\<rparr>)"
    "h_device h = Some dev" "dr_attached dev' = dr_attached dev" "dr_h2dSent dev' = dr_h2dSent dev" "dr_deviceID dev' = dr_deviceID dev"
proof -
  obtain dev hs down up where hs: "h_device h = Some dev" "h_sess h = Some hs" "se_step hs = 3" "h_conn h" "ss_pull s = Some down" "se_push hs = down" "\<not> finished down"
     "ss_push s = Some up" "se_pull hs = Some up" "\<not> finished up"
     and ch: "dv_ChannelID (ss_State s) = dr_channelWire dev" "dr_channelWire dev = EncodeChannelID (dr_channel dev)"
     "length (dr_channel dev) = 16" "dr_channelWire dev \<noteq> h_provChannelWire h"
     and tr: "lastSeen (ss_tracker s) = dr_h2dSent dev" "inSession (ss_tracker s)"
     "lastSeen (dr_d2h dev) = dv_D2HLastSent (ss_State s)" "inSession (dr_d2h dev)" "\<not> ss_revoked s"
    using sy by (auto simp: synced_def)
  let ?q = "dv_D2HLastSent (ss_State s) + 1" and ?raw = "Envelope_Marshal env"
  obtain ct up' where ct: "Stream_Push cr ?raw (BuildAD (dr_channel dev) ?q PushClassNone) TagMessage up = Inr (ct, up')"
    "Stream_Pull cr ct (BuildAD (dr_channel dev) ?q PushClassNone) up = Inr ((?raw, TagMessage), up')" "\<not> finished up'"
    by (rule stream_step [OF cr hs(10)])
  let ?f = "frame_of (EncodeChannelID (dr_channel dev)) ?q ''none'' ct"
  obtain d where send: "sendEncrypted cr ok env s = (Inr ?f,
     s\<lparr>ss_State := (ss_State s)\<lparr>dv_D2HLastSent := ?q\<rparr>, ss_push := Some up', ss_disk := d\<rparr>)"
    using sendEncrypted_ok [OF ok(1) hs(8) _ ch(3) ct(1)] ch(1,2) by auto
  have acc: "Accept ?q (dr_d2h dev) = (Inr False, (dr_d2h dev)\<lparr>lastSeen := ?q\<rparr>)"
    using next_Accept [OF tr(4)] ok(2) by (simp add: tr(3))
  let ?h = "h\<lparr>h_device := Some (dev\<lparr>dr_d2h := (dr_d2h dev)\<lparr>lastSeen := ?q\<rparr>\<rparr>), h_sess := Some (hs\<lparr>se_pull := Some up'\<rparr>)\<rparr>"
  have "handleBinary cr e ?f h = handleSessionFrame cr e \<lparr>hd_Channel = EncodeChannelID (dr_channel dev), hd_Seq = ?q, hd_PushClass = ''none''\<rparr> ct h"
    by (rule handleBinary_durable [OF hs(1) ch(2-4)]) simp
  also have "\<dots> = handle_session_envelope cr e env ?h"
    using ok(2) acc hs(1,2,9) ch(3) ct(2) env by (simp add: handleSessionFrame_def)
  finally have recv: "handleBinary cr e ?f h = handle_session_envelope cr e env ?h" .
  show thesis
  proof (rule that [OF send recv])
    show "synced (s\<lparr>ss_State := (ss_State s)\<lparr>dv_D2HLastSent := ?q\<rparr>, ss_push := Some up', ss_disk := d\<rparr>) ?h"
      using hs ch tr ct(3) by (simp add: synced_def)
  qed (use hs(1) in simp_all)
qed

section \<open>The handshake\<close>

definition hello_env :: "string \<Rightarrow> bytes \<Rightarrow> Envelope" where
  "hello_env did nD = NewControl ''sess.hello'' (SessHello_json \<lparr>sh_Proto = 1, sh_DeviceID = did, sh_ND = EncodeBin nD\<rparr>)"

definition host_session :: "SessionKeysT \<Rightarrow> Stream \<Rightarrow> Stream option \<Rightarrow> nat \<Rightarrow> session" where
  "host_session keys push pull n = \<lparr>se_keys = keys, se_push = push, se_pull = pull, se_step = n, se_cancelLoops = None\<rparr>"

lemma abortSession_fields [simp]:
  "h_device (abortSession h) = h_device h" "h_tick (abortSession h) = h_tick h" "h_hostID (abortSession h) = h_hostID h"
  "h_conn (abortSession h) = h_conn h" "h_out (abortSession h) = h_out h" "h_provChannelWire (abortSession h) = h_provChannelWire h"
  "h_cfg (abortSession h) = h_cfg h" "h_pending (abortSession h) = h_pending h" "h_sess (abortSession h) = None"
  "h_resolved (abortSession h) = h_resolved h" "h_ledger (abortSession h) = h_ledger h"
  by (simp_all add: abortSession_def split: option.splits)

lemma handleSessHello_ok:
  assumes dev: "h_device h = Some dev" "length (dr_deviceID dev) = 16" "validID (dr_channelWire dev)" "h_conn h" and nD: "length nD = 32"
    and rnd: "he_rand e (h_tick h) 32 = Some nH" "he_rand e (h_tick h + 1) 24 = Some hdrH"
    and keys: "keys = SessionKeys cr V1 (dr_roots dev) (Transcript V1 (h_hostID h) (dr_deviceID dev) nD nH)"
  shows "handleSessHello cr e (hello_env (EncodeChannelID (dr_deviceID dev)) nD) h
    = (abortSession h)\<lparr>h_tick := h_tick h + 2, h_device := Some (dev\<lparr>dr_d2h := StartSession (dr_d2h dev)\<rparr>),
        h_sess := Some (host_session keys (newStream cr (sk_H2D keys) hdrH) None 1),
        h_out := h_out h @ [accept_frame (dr_channelWire dev) ''sess.accept'' h nH hdrH]\<rparr>"
  using assms
  by (simp add: handleSessHello_def hello_env_def host_Read_def NewPushStream_def host_sendControl_def accept_frame_def
      HostIDWire_def host_session_def Let_def)

definition confirm_raw :: "bytes \<Rightarrow> bytes" where
  "confirm_raw mac = Envelope_Marshal (NewControl ''sess.confirm'' (SessConfirm_json \<lparr>sc_TranscriptMAC = EncodeBin mac\<rparr>))"

lemma ParseEnvelope_confirm [simp]:
  "ParseEnvelope (confirm_raw mac) = Inr (NewControl ''sess.confirm'' (SessConfirm_json \<lparr>sc_TranscriptMAC = EncodeBin mac\<rparr>))"
  unfolding confirm_raw_def by (rule ParseEnvelope_control) (simp_all add: plain_char_def)

lemma Connect_accept_ok:
  assumes ok: "ok \<or> dv_dir (ss_State s) = []" and st: "dv_HostID (ss_State s) = HostIDWire h" "dv_ChannelID (ss_State s) = EncodeChannelID c" "length c = 16"
    and w: "length nH = 32" "length hdrH = 24"
    and keys: "keys = SessionKeys cr V1 (cx_roots cx) (Transcript V1 (cx_hostID cx) (cx_deviceID cx) nD nH)"
    and push: "Stream_Push cr (confirm_raw (sk_ConfD keys)) (BuildAD c (dv_D2HLastSent (ss_State s) + 1) PushClassNone) TagMessage
      (newStream cr (sk_D2H keys) hdrD) = Inr (ct, up')"
  shows "\<exists>d. Connect_accept cr cx nD (Some hdrD) ok (WsBinary (accept_frame (EncodeChannelID c) ''sess.accept'' h nH hdrH)) s
    = (Next [header_frame (EncodeChannelID c) hdrD, frame_of (EncodeChannelID c) (dv_D2HLastSent (ss_State s) + 1) ''none'' ct],
       s\<lparr>ss_State := (ss_State s)\<lparr>dv_D2HLastSent := dv_D2HLastSent (ss_State s) + 1\<rparr>, ss_keys := keys,
         ss_pull := Some (newStream cr (sk_H2D keys) hdrH), ss_push := Some up', ss_disk := d, ss_tracker := StartSession (ss_tracker s)\<rparr>)"
proof -
  let ?s = "s\<lparr>ss_keys := keys, ss_pull := Some (newStream cr (sk_H2D keys) hdrH), ss_push := Some (newStream cr (sk_D2H keys) hdrD)\<rparr>"
  obtain d where "sendEncrypted cr ok (NewControl ''sess.confirm'' (SessConfirm_json \<lparr>sc_TranscriptMAC = EncodeBin (sk_ConfD keys)\<rparr>)) ?s
    = (Inr (frame_of (EncodeChannelID c) (dv_D2HLastSent (ss_State s) + 1) ''none'' ct),
     ?s\<lparr>ss_State := (ss_State s)\<lparr>dv_D2HLastSent := dv_D2HLastSent (ss_State s) + 1\<rparr>, ss_push := Some up', ss_disk := d\<rparr>)"
    using sendEncrypted_ok [of ok ?s "newStream cr (sk_D2H keys) hdrD" c cr
        "NewControl ''sess.confirm'' (SessConfirm_json \<lparr>sc_TranscriptMAC = EncodeBin (sk_ConfD keys)\<rparr>)" ct up'] ok st(2,3) push
    by (auto simp: confirm_raw_def)
  moreover have "control_envelope (WsBinary (accept_frame (EncodeChannelID c) ''sess.accept'' h nH hdrH))
      = Next (NewControl ''sess.accept'' (SessAccept_json \<lparr>sa_HostID = HostIDWire h, sa_NH = EncodeBin nH, sa_HdrH2D = EncodeBin hdrH\<rparr>))"
    unfolding accept_frame_def using st(3) by (intro control_envelope_frame) (simp_all add: plain_char_def HostIDWire_def)
  ultimately show ?thesis
    using st w by (intro exI [of _ d])
      (simp add: Connect_accept_def NewPushStream_def NewPullStream_def header_frame_def keys [symmetric] Let_def)
qed

lemma handleSessHeader_ok:
  assumes dev: "h_device h = Some dev" "dr_channelWire dev = EncodeChannelID c" "length c = 16" "h_conn h"
    and hs: "h_sess h = Some (host_session keys down None 1)" and hdr: "length hdr = 24"
    and push: "Stream_Push cr (confirm_raw (sk_ConfH keys)) (BuildAD c (dr_h2dSent dev + 1) PushClassNone) TagMessage down = Inr (ct, down')"
  shows "handleSessHeader cr e (NewControl kind (SessHeader_json \<lparr>sx_HdrD2H = EncodeBin hdr\<rparr>)) h
    = h\<lparr>h_device := Some (dev\<lparr>dr_h2dSent := dr_h2dSent dev + 1\<rparr>),
        h_sess := Some (host_session keys down' (Some (newStream cr (sk_D2H keys) hdr)) 2),
        h_out := h_out h @ [frame_of (EncodeChannelID c) (dr_h2dSent dev + 1) ''none'' ct]\<rparr>"
proof -
  let ?h = "h\<lparr>h_sess := Some (host_session keys down (Some (newStream cr (sk_D2H keys) hdr)) 2)\<rparr>"
  have "sendEncryptedOn cr e down (dr_h2dSent dev) (EncodeChannelID c) ''sess.confirm'' (SessConfirm_json \<lparr>sc_TranscriptMAC = EncodeBin (sk_ConfH keys)\<rparr>)
      ''none'' TagMessage [] ?h = (down', dr_h2dSent dev + 1, ?h\<lparr>h_out := h_out ?h @ [frame_of (EncodeChannelID c) (dr_h2dSent dev + 1) ''none'' ct]\<rparr>)"
    by (rule sendEncryptedOn_control) (use dev push in \<open>simp_all add: control_kinds_def confirm_raw_def\<close>)
  then show ?thesis
    using dev hs hdr by (simp add: handleSessHeader_def NewPullStream_def host_session_def send_on_session_def)
qed

lemma jump_Accept:
  assumes "\<not> inSession t" "lastSeen t \<le> q" "q + 1 \<noteq> 0"
  shows "Accept (q + 1) t = (Inr (lastSeen t \<noteq> q), t\<lparr>lastSeen := q + 1, inSession := True\<rparr>)"
proof -
  have u: "unat (q + 1) = unat q + 1" using unatSuc [of q] assms(3) by (simp add: add.commute)
  have l: "unat (lastSeen t) \<le> unat q" using assms(2) by (simp add: word_le_nat_alt)
  have "\<not> q + 1 \<le> lastSeen t" using u l by (simp add: word_le_nat_alt)
  moreover have "lastSeen t + 1 \<noteq> 0"
  proof
    assume "lastSeen t + 1 = 0"
    then have "lastSeen t = - 1" by (simp add: eq_neg_iff_add_eq_0)
    with assms(2) have "q = - 1" by (simp add: word_order.extremum_unique)
    with assms(3) show False by simp
  qed
  then have "unat (lastSeen t + 1) = unat (lastSeen t) + 1" using unatSuc [of "lastSeen t"] by (simp add: add.commute)
  then have "lastSeen t + 1 < q + 1 \<longleftrightarrow> lastSeen t \<noteq> q" using u l by (simp add: word_less_nat_alt word_unat_eq_iff) linarith
  ultimately show ?thesis using assms by (simp add: Accept_cases)
qed

lemma Connect_confirm_ok:
  assumes cr: "crypto_laws cr" and c: "length c = 16" and pull: "ss_pull s = Some down"
    and tr: "\<not> inSession (ss_tracker s)" "lastSeen (ss_tracker s) \<le> q" "q + 1 \<noteq> 0" and keys: "ss_keys s = keys" "keys = SessionKeys cr V1 roots t"
    and push: "Stream_Push cr (confirm_raw (sk_ConfH keys)) (BuildAD c (q + 1) PushClassNone) TagMessage down = Inr (ct, down')"
  shows "\<exists>d. Connect_confirm cr ok (WsBinary (frame_of (EncodeChannelID c) (q + 1) ''none'' ct)) s
    = (Next (), s\<lparr>ss_tracker := (ss_tracker s)\<lparr>lastSeen := q + 1, inSession := True\<rparr>, ss_pull := Some down',
        ss_ReconcileExpected := lastSeen (ss_tracker s) \<noteq> q \<or> ss_ReconcileExpected s,
        ss_State := (ss_State s)\<lparr>dv_H2DLastSeen := q + 1\<rparr>, ss_disk := d\<rparr>)"
proof -
  have w: "length (sk_ConfH keys) = 32" using cr by (simp add: keys(2))
  let ?s = "s\<lparr>ss_tracker := (ss_tracker s)\<lparr>lastSeen := q + 1, inSession := True\<rparr>, ss_pull := Some down'\<rparr>"
  have "open_frame cr \<lparr>hd_Channel = EncodeChannelID c, hd_Seq = q + 1, hd_PushClass = ''none''\<rparr> ct s
      = (Inr (lastSeen (ss_tracker s) \<noteq> q, confirm_raw (sk_ConfH keys), TagMessage), ?s)"
    using jump_Accept [OF tr] c pull Pull_of_Push [OF cr push] by (simp add: open_frame_def)
  moreover let ?s2 = "?s\<lparr>ss_ReconcileExpected := lastSeen (ss_tracker s) \<noteq> q \<or> ss_ReconcileExpected s, ss_State := (ss_State s)\<lparr>dv_H2DLastSeen := q + 1\<rparr>\<rparr>"
  obtain d where "snd (save_session ok ?s2) = ?s2\<lparr>ss_disk := d\<rparr>" using save_session_disk by blast
  ultimately show ?thesis
    using c tr(3) w keys(1) by (intro exI [of _ d]) (simp add: Connect_confirm_def CheckFrameClass_def LastSeen_def)
qed

lemma host_confirms:
  assumes cr: "crypto_laws cr" and dev: "h_device h = Some dev" "dr_channelWire dev = EncodeChannelID c" "length c = 16" "dr_channelWire dev \<noteq> h_provChannelWire h"
    and hs: "h_sess h = Some (host_session keys down (Some up) 2)" and keys: "keys = SessionKeys cr V1 roots t"
    and tr: "\<not> inSession (dr_d2h dev)" "lastSeen (dr_d2h dev) \<le> q" "q + 1 \<noteq> 0"
    and push: "Stream_Push cr (confirm_raw (sk_ConfD keys)) (BuildAD c (q + 1) PushClassNone) TagMessage up = Inr (ct, up')"
  shows "handleBinary cr e (frame_of (EncodeChannelID c) (q + 1) ''none'' ct) h
    = startLoops (sendSnapshot cr e [] (h\<lparr>h_device := Some (dev\<lparr>dr_d2h := (dr_d2h dev)\<lparr>lastSeen := q + 1, inSession := True\<rparr>\<rparr>),
        h_sess := Some (host_session keys down (Some up') 3)\<rparr>))"
proof -
  have w: "length (sk_ConfD keys) = 32" using cr by (simp add: keys)
  have "handleBinary cr e (frame_of (EncodeChannelID c) (q + 1) ''none'' ct) h
    = handleSessionFrame cr e \<lparr>hd_Channel = EncodeChannelID c, hd_Seq = q + 1, hd_PushClass = ''none''\<rparr> ct h"
    by (rule handleBinary_durable [OF dev]) simp
  then show ?thesis
    using dev hs w jump_Accept [OF tr] tr(3) Pull_of_Push [OF cr push]
    by (simp add: handleSessionFrame_def host_session_def handle_session_envelope_def)
qed

subsection \<open>The first snapshot\<close>

definition approvals_utf8 :: "Host \<Rightarrow> bool" where
  "approvals_utf8 h \<longleftrightarrow> (\<forall>p \<in> set (mvals (h_pending h)). wf_json (ApprovalRequest_json (pa_req p)))"

lemma num_lits [simp]: "num_lit ''12.5''" "num_lit ''0''"
  by (simp_all add: num_lit_def lex_num_def lex_int_def lex_digits_def lex_frac_def lex_exp_def is_digit_def)

lemma wf_snapshotBody:
  assumes "utf8 (hc_HostName (h_cfg h))" "approvals_utf8 h" shows "wf_json (snapshotBody now h)"
proof -
  have w: "wf_json (workbenches_json b now)" for b
    by (simp add: workbenches_json_def resources_json_def plain_char_def)
  show ?thesis using assms w by (simp add: snapshotBody_def approvals_utf8_def HostIDWire_def plain_char_def)
qed

lemma startLoops_fields [simp]:
  "h_device (startLoops h) = h_device h" "h_out (startLoops h) = h_out h" "h_conn (startLoops h) = h_conn h"
  by (simp_all add: startLoops_def split: option.splits)

lemma startLoops_synced: "synced s h \<Longrightarrow> synced s (startLoops h)"
  by (auto simp: synced_def startLoops_def)

lemma sendSnapshot_synced:
  assumes cr: "crypto_laws cr" and sy: "synced s h" and dev: "h_device h = Some dev" "dr_attached dev" "dr_h2dSent dev + 1 \<noteq> 0"
    and wf: "utf8 (hc_HostName (h_cfg h))" "approvals_utf8 h" "utf8 rid"
  obtains f s' where "h_out (sendSnapshot cr e rid h) = h_out h @ [f]"
    "Recv cr ok (WsBinary f) s = (Next (NewPayload ''snapshot.full'' rid (he_now e (h_tick h + 1)) (snapshotBody (he_now e (h_tick h)) h)), s')"
    "synced s' (sendSnapshot cr e rid h)"
proof -
  let ?h = "h\<lparr>h_tick := h_tick h + 1\<rparr>" and ?body = "snapshotBody (he_now e (h_tick h)) h"
  let ?env = "NewPayload ''snapshot.full'' rid (he_now e (h_tick ?h)) ?body"
  have b: "snapshotBody t (h\<lparr>h_tick := n\<rparr>) = snapshotBody t h" for t n by (simp add: snapshotBody_def HostIDWire_def)
  have sy': "synced s ?h" using sy by (simp add: synced_def)
  obtain hs where "h_sess h = Some hs" "se_step hs = 3" using sy by (auto simp: synced_def)
  then have send: "sendSnapshot cr e rid h = send_on_session cr e ''snapshot.full'' ?body ''none'' rid ?h"
    using dev by (simp add: sendSnapshot_def host_Now_def sendEnvelope_def b)
  have env: "ParseEnvelope (Envelope_Marshal ?env) = Inr ?env"
    using wf wf_snapshotBody by (intro ParseEnvelope_payload) (simp_all add: plain_char_def)
  have d: "h_device ?h = Some dev" "''snapshot.full'' \<notin> set control_kinds" using dev by (simp_all add: control_kinds_def)
  obtain f h' s' where "send_on_session cr e ''snapshot.full'' ?body ''none'' rid ?h = h'" "h_out h' = h_out ?h @ [f]"
    "Recv cr ok (WsBinary f) s = (Next ?env, s')" "synced s' h'" "dv_H2DLastSeen (ss_State s') = dr_h2dSent dev + 1"
    by (rule send_on_session_synced [OF cr sy' d(1) dev(3) ParsePushClass_simps(1) d(2) refl env])
  with that show thesis unfolding send by simp
qed

section \<open>The whole handshake\<close>

text \<open>The exchange of \<open>Connect\<close> after the attach, each frame delivered in order: the frames the host
  wrote beyond its confirmation, the session and the host.\<close>

definition session_run :: "primitives \<Rightarrow> host_env \<Rightarrow> bytes option \<Rightarrow> bytes option \<Rightarrow> bool \<Rightarrow> connect_ctx \<Rightarrow> Session \<Rightarrow> Host
    \<Rightarrow> (bytes list \<times> Session \<times> Host) option" where
  "session_run cr e rndN rndH ok cx s h =
     (case Connect_hello rndN s of Inl _ \<Rightarrow> None | Inr (nD, f1) \<Rightarrow>
      let h1 = handleBinary cr e f1 h in
      case drop (length (h_out h)) (h_out h1) of [] \<Rightarrow> None | f2 # _ \<Rightarrow>
      case Connect_accept cr cx nD rndH ok (WsBinary f2) s of (Next fs, s) \<Rightarrow>
        (let h2 = fold (handleBinary cr e) fs h1 in
         case drop (length (h_out h1)) (h_out h2) of [] \<Rightarrow> None | f5 # rest \<Rightarrow>
         (case Connect_confirm cr ok (WsBinary f5) s of (Next _, s) \<Rightarrow> Some (rest, s, h2) | _ \<Rightarrow> None))
      | _ \<Rightarrow> None)"

lemma Connect_hello_ok:
  "dv_ChannelID (ss_State s) = EncodeChannelID c \<Longrightarrow> length c = 16
    \<Longrightarrow> Connect_hello (Some nD) s = Inr (nD, frame_of (EncodeChannelID c) 0 ''none'' (Envelope_Marshal (hello_env (dv_DeviceID (ss_State s)) nD)))"
  by (simp add: Connect_hello_def hello_env_def)

lemma host_greets:
  assumes dev: "h_device h = Some dev" "dr_channelWire dev = EncodeChannelID c" "length c = 16" "dr_channelWire dev \<noteq> h_provChannelWire h"
    "length (dr_deviceID dev) = 16" "h_conn h" and nD: "length nD = 32"
    and rnd: "he_rand e (h_tick h) 32 = Some nH" "he_rand e (h_tick h + 1) 24 = Some hdrH"
    and keys: "keys = SessionKeys cr V1 (dr_roots dev) (Transcript V1 (h_hostID h) (dr_deviceID dev) nD nH)"
  shows "handleBinary cr e (frame_of (EncodeChannelID c) 0 ''none'' (Envelope_Marshal (hello_env (EncodeChannelID (dr_deviceID dev)) nD))) h
    = (abortSession h)\<lparr>h_tick := h_tick h + 2, h_device := Some (dev\<lparr>dr_d2h := StartSession (dr_d2h dev)\<rparr>),
        h_sess := Some (host_session keys (newStream cr (sk_H2D keys) hdrH) None 1),
        h_out := h_out h @ [accept_frame (EncodeChannelID c) ''sess.accept'' h nH hdrH]\<rparr>"
proof -
  have p: "ParseEnvelope (Envelope_Marshal (hello_env (EncodeChannelID (dr_deviceID dev)) nD)) = Inr (hello_env (EncodeChannelID (dr_deviceID dev)) nD)"
    unfolding hello_env_def by (rule ParseEnvelope_control) (simp_all add: plain_char_def)
  have k: "ev_Kind (hello_env x y) = ''sess.hello''" for x y by (simp add: hello_env_def)
  show ?thesis
    using handleSessHello_ok [OF dev(1,5) _ dev(6) nD rnd keys] dev
    by (subst handleBinary_durable [OF dev(1-4)]) (simp_all add: handleSessionFrame_def p k)
qed

lemma host_takes_session_header:
  assumes dev: "h_device h = Some dev" "dr_channelWire dev = EncodeChannelID c" "length c = 16" "dr_channelWire dev \<noteq> h_provChannelWire h" "h_conn h"
    and hs: "h_sess h = Some (host_session keys down None 1)" and hdr: "length hdr = 24"
    and push: "Stream_Push cr (confirm_raw (sk_ConfH keys)) (BuildAD c (dr_h2dSent dev + 1) PushClassNone) TagMessage down = Inr (ct, down')"
  shows "handleBinary cr e (header_frame (EncodeChannelID c) hdr) h
    = h\<lparr>h_device := Some (dev\<lparr>dr_h2dSent := dr_h2dSent dev + 1\<rparr>),
        h_sess := Some (host_session keys down' (Some (newStream cr (sk_D2H keys) hdr)) 2),
        h_out := h_out h @ [frame_of (EncodeChannelID c) (dr_h2dSent dev + 1) ''none'' ct]\<rparr>"
  using handleSessHeader_ok [OF dev(1-3,5) hs hdr push, of e "''sess.header''"] dev
  unfolding header_frame_def
  by (subst handleBinary_durable [OF dev(1-4)]) (simp_all add: handleSessionFrame_def plain_char_def)

text \<open>The second half: the device has answered the host's greeting; both confirmations and the
  snapshot follow.\<close>

lemma session_finish:
  assumes cr: "crypto_laws cr" and keys: "keys = SessionKeys cr V1 roots t"
    and dev: "h_device h = Some dev" "dr_attached dev" "h_conn h" "dr_channelWire dev \<noteq> h_provChannelWire h"
      "dr_channelWire dev = EncodeChannelID (dr_channel dev)" "length (dr_channel dev) = 16"
    and hs: "h_sess h = Some (host_session keys (newStream cr (sk_H2D keys) hdrH) None 1)"
    and ss: "ss_pull s = Some (newStream cr (sk_H2D keys) hdrH)" "ss_push s = Some up" "ss_keys s = keys" "\<not> ss_revoked s"
      "dv_ChannelID (ss_State s) = dr_channelWire dev" "dv_D2HLastSent (ss_State s) = q + 1"
    and seqs: "\<not> inSession (dr_d2h dev)" "lastSeen (dr_d2h dev) \<le> q" "q + 1 \<noteq> 0"
      "\<not> inSession (ss_tracker s)" "lastSeen (ss_tracker s) \<le> dr_h2dSent dev" "dr_h2dSent dev + 1 \<noteq> 0" "dr_h2dSent dev + 1 + 1 \<noteq> 0"
    and wf: "utf8 (hc_HostName (h_cfg h))" "approvals_utf8 h" "length hdrD = 24"
    and ct: "Stream_Push cr (confirm_raw (sk_ConfD keys)) (BuildAD (dr_channel dev) (q + 1) PushClassNone) TagMessage (newStream cr (sk_D2H keys) hdrD)
      = Inr (ct, up)" "\<not> finished up"
  obtains h' f5 f s1 s2 env where "fold (handleBinary cr e) [header_frame (EncodeChannelID (dr_channel dev)) hdrD,
      frame_of (EncodeChannelID (dr_channel dev)) (q + 1) ''none'' ct] h = h'" "h_out h' = h_out h @ [f5, f]"
    "Connect_confirm cr ok (WsBinary f5) s = (Next (), s1)"
    "ss_ReconcileExpected s1 \<longleftrightarrow> lastSeen (ss_tracker s) \<noteq> dr_h2dSent dev \<or> ss_ReconcileExpected s"
    "Recv cr ok (WsBinary f) s1 = (Next env, s2)" "ev_Kind env = ''snapshot.full''" "synced s2 h'"
proof -
  let ?p = "dr_h2dSent dev" and ?ch = "EncodeChannelID (dr_channel dev)"
  obtain down dt where dt: "Stream_Push cr (confirm_raw (sk_ConfH keys)) (BuildAD (dr_channel dev) (?p + 1) PushClassNone) TagMessage
      (newStream cr (sk_H2D keys) hdrH) = Inr (dt, down)" "\<not> finished down"
    by (rule stream_step [OF cr, of "newStream cr (sk_H2D keys) hdrH"]) auto
  let ?dev = "dev\<lparr>dr_h2dSent := ?p + 1\<rparr>" and ?f5 = "frame_of ?ch (?p + 1) ''none'' dt"
  define h1 where "h1 = h\<lparr>h_device := Some ?dev, h_sess := Some (host_session keys down (Some (newStream cr (sk_D2H keys) hdrD)) 2), h_out := h_out h @ [?f5]\<rparr>"
  have a: "handleBinary cr e (header_frame ?ch hdrD) h = h1"
    unfolding h1_def by (rule host_takes_session_header [OF dev(1,5,6,4,3) hs wf(3) dt(1)])
  define h2 where "h2 = h1\<lparr>h_device := Some (?dev\<lparr>dr_d2h := (dr_d2h dev)\<lparr>lastSeen := q + 1, inSession := True\<rparr>\<rparr>),
      h_sess := Some (host_session keys down (Some up) 3)\<rparr>"
  have b: "handleBinary cr e (frame_of ?ch (q + 1) ''none'' ct) h1 = startLoops (sendSnapshot cr e [] h2)"
    using host_confirms [OF cr _ _ dev(6) _ _ keys _ _ seqs(3) ct(1), of h1 ?dev down e] dev seqs by (simp add: h1_def h2_def)
  obtain d where c: "Connect_confirm cr ok (WsBinary ?f5) s
    = (Next (), s\<lparr>ss_tracker := (ss_tracker s)\<lparr>lastSeen := ?p + 1, inSession := True\<rparr>, ss_pull := Some down,
        ss_ReconcileExpected := lastSeen (ss_tracker s) \<noteq> ?p \<or> ss_ReconcileExpected s,
        ss_State := (ss_State s)\<lparr>dv_H2DLastSeen := ?p + 1\<rparr>, ss_disk := d\<rparr>)" (is "_ = (_, ?s1)")
    using Connect_confirm_ok [OF cr dev(6) ss(1) seqs(4-6) ss(3) keys dt(1)] by blast
  have sy: "synced ?s1 h2" using dev ss dt(2) ct(2) by (simp add: synced_def h2_def h1_def host_session_def)
  have d2: "h_device h2 = Some (?dev\<lparr>dr_d2h := (dr_d2h dev)\<lparr>lastSeen := q + 1, inSession := True\<rparr>\<rparr>)" "h_out h2 = h_out h @ [?f5]"
    "utf8 (hc_HostName (h_cfg h2))" "approvals_utf8 h2"
    using wf by (simp_all add: h2_def h1_def approvals_utf8_def)
  obtain f s2 where f: "h_out (sendSnapshot cr e [] h2) = h_out h2 @ [f]"
    "Recv cr ok (WsBinary f) ?s1 = (Next (NewPayload ''snapshot.full'' [] (he_now e (h_tick h2 + 1)) (snapshotBody (he_now e (h_tick h2)) h2)), s2)"
    "synced s2 (sendSnapshot cr e [] h2)"
    by (rule sendSnapshot_synced [OF cr sy d2(1) _ _ d2(3,4), of "[]"]) (use dev seqs in \<open>simp_all add: utf8.simps [of "[]"]\<close>)
  show thesis
    by (rule that [OF _ _ c _ f(2) _ startLoops_synced [OF f(3)]]) (use f(1) d2(2) in \<open>simp_all add: a b\<close>)
qed

text \<open>C8. A reconnect gives a working session. From the two ends of a pairing, whatever session the host
  had before, with the device attached and every frame delivered: the handshake of \<open>Connect\<close>
  completes, the device is told to expect a reconcile exactly when frames were lost since it last
  listened, and the first envelope that follows is the host's snapshot, after which both ends are
  in step (same stream states, same counters). The counters must not be at the end of their range,
  and the device's send counter must not be behind the host's mark.\<close>

theorem session_established:
  assumes cr: "crypto_laws cr" and e: "env_ok e" and ends: "paired_ends cr (ss_State s) h" "Connect_begin cr (ss_State s) = Inr cx"
    and dev: "h_device h = Some dev" "dr_attached dev" "h_conn h" "dr_channelWire dev \<noteq> h_provChannelWire h"
    and seqs: "lastSeen (dr_d2h dev) \<le> dv_D2HLastSent (ss_State s)" "dv_D2HLastSent (ss_State s) + 1 \<noteq> 0"
      "lastSeen (ss_tracker s) \<le> dr_h2dSent dev" "dr_h2dSent dev + 1 \<noteq> 0" "dr_h2dSent dev + 1 + 1 \<noteq> 0"
    and wf: "utf8 (hc_HostName (h_cfg h))" "approvals_utf8 h" "length nD = 32" "length hdrD = 24" "ok \<or> dv_dir (ss_State s) = []" "\<not> ss_revoked s"
  shows "\<exists>f s1 s2 h' env. session_run cr e (Some nD) (Some hdrD) ok cx s h = Some ([f], s1, h')
    \<and> (ss_ReconcileExpected s1 \<longleftrightarrow> lastSeen (ss_tracker s) \<noteq> dr_h2dSent dev \<or> ss_ReconcileExpected s)
    \<and> Recv cr ok (WsBinary f) s1 = (Next env, s2) \<and> ev_Kind env = ''snapshot.full'' \<and> synced s2 h'"
proof -
  have pe: "dv_HostID (ss_State s) = HostIDWire h" "dv_DeviceID (ss_State s) = EncodeChannelID (dr_deviceID dev)"
    "dv_ChannelID (ss_State s) = EncodeChannelID (dr_channel dev)" "cx_hostID cx = h_hostID h" "cx_deviceID cx = dr_deviceID dev"
    "dr_channelWire dev = EncodeChannelID (dr_channel dev)" "length (dr_channel dev) = 16" "length (dr_deviceID dev) = 16" "cx_roots cx = dr_roots dev"
    using ends dev(1) by (auto simp: paired_ends_def)
  obtain nH where nH: "he_rand e (h_tick h) 32 = Some nH" "length nH = 32" using env_ok_rand [OF e] by blast
  obtain hdrH where hdrH: "he_rand e (h_tick h + 1) 24 = Some hdrH" "length hdrH = 24" using env_ok_rand [OF e] by blast
  define keys where "keys = SessionKeys cr V1 (dr_roots dev) (Transcript V1 (h_hostID h) (dr_deviceID dev) nD nH)"
  let ?q = "dv_D2HLastSent (ss_State s)" and ?ch = "EncodeChannelID (dr_channel dev)"
  obtain up ct where ct: "Stream_Push cr (confirm_raw (sk_ConfD keys)) (BuildAD (dr_channel dev) (?q + 1) PushClassNone) TagMessage
      (newStream cr (sk_D2H keys) hdrD) = Inr (ct, up)" "\<not> finished up"
    by (rule stream_step [OF cr, of "newStream cr (sk_D2H keys) hdrD"]) auto
  let ?f1 = "frame_of ?ch 0 ''none'' (Envelope_Marshal (hello_env (dv_DeviceID (ss_State s)) nD))"
  let ?dev1 = "dev\<lparr>dr_d2h := StartSession (dr_d2h dev)\<rparr>"
  define h1 where "h1 = (abortSession h)\<lparr>h_tick := h_tick h + 2, h_device := Some ?dev1,
      h_sess := Some (host_session keys (newStream cr (sk_H2D keys) hdrH) None 1), h_out := h_out h @ [accept_frame ?ch ''sess.accept'' h nH hdrH]\<rparr>"
  have g: "handleBinary cr e ?f1 h = h1"
    unfolding h1_def pe(2) by (rule host_greets [OF dev(1) pe(6,7) dev(4) pe(8) dev(3) wf(3) nH(1) hdrH(1) keys_def])
  obtain d where acc: "Connect_accept cr cx nD (Some hdrD) ok (WsBinary (accept_frame ?ch ''sess.accept'' h nH hdrH)) s
    = (Next [header_frame ?ch hdrD, frame_of ?ch (?q + 1) ''none'' ct],
       s\<lparr>ss_State := (ss_State s)\<lparr>dv_D2HLastSent := ?q + 1\<rparr>, ss_keys := keys,
         ss_pull := Some (newStream cr (sk_H2D keys) hdrH), ss_push := Some up, ss_disk := d, ss_tracker := StartSession (ss_tracker s)\<rparr>)" (is "_ = (_, ?s1)")
    using Connect_accept_ok [OF wf(5) pe(1,3,7) nH(2) hdrH(2) _ ct(1), of cx nD] by (auto simp: keys_def pe)
  obtain h' f5 f s2 s3 env where fin: "fold (handleBinary cr e) [header_frame ?ch hdrD, frame_of ?ch (?q + 1) ''none'' ct] h1 = h'"
    "h_out h' = h_out h1 @ [f5, f]" "Connect_confirm cr ok (WsBinary f5) ?s1 = (Next (), s2)"
    "ss_ReconcileExpected s2 \<longleftrightarrow> lastSeen (ss_tracker ?s1) \<noteq> dr_h2dSent ?dev1 \<or> ss_ReconcileExpected ?s1"
    "Recv cr ok (WsBinary f) s2 = (Next env, s3)" "ev_Kind env = ''snapshot.full''" "synced s3 h'"
    by (rule session_finish [OF cr keys_def, of h1 ?dev1 hdrH ?s1 up ?q hdrD ct e ok])
      (use dev pe seqs wf ct in \<open>simp_all add: h1_def StartSession_def approvals_utf8_def\<close>)
  have "session_run cr e (Some nD) (Some hdrD) ok cx s h = Some ([f], s2, h')"
    unfolding session_run_def Connect_hello_ok [OF pe(3,7)] using g acc fin(1-3) by (simp add: h1_def Let_def)
  with fin(4-7) show ?thesis by (auto simp: StartSession_def)
qed

text \<open>A paired host and device, the device two frames behind.\<close>

definition ex_roots :: Roots where
  "ex_roots = (case DeviceRoots ex_crypto (ex_pk 3) (ex_seed 3) (ex_pk 2) of Inr r \<Rightarrow> r | Inl _ \<Rightarrow> undefined)"

definition ex_record :: deviceRecord where
  "ex_record = \<lparr>dr_deviceID = replicate 16 4, dr_devPK = ex_pk 3, dr_channel = replicate 16 9, dr_channelWire = EncodeChannelID (replicate 16 9),
     dr_name = ''phone'', dr_roots = ex_roots, dr_kMbx = MailboxKey ex_crypto V1 ex_roots (replicate 16 1) (replicate 16 4),
     dr_h2dSent = 3, dr_d2h = NewSeqTracker 1, dr_attached = True\<rparr>"

definition ex_paired :: Host where
  "ex_paired = ex_endpoint\<lparr>h_device := Some ex_record\<rparr>"

definition ex_state :: State where
  "ex_state = \<lparr>dv_RelayOrigin = ''http://relay'', dv_Sub = ''alice'', dv_HostID = EncodeChannelID (replicate 16 1), dv_HostPK = EncodeBin (ex_pk 2),
     dv_HostName = ''Mac'', dv_DeviceID = EncodeChannelID (replicate 16 4), dv_DevPK = EncodeBin (ex_pk 3), dv_DevSK = EncodeBin (ex_seed 3),
     dv_ChannelID = EncodeChannelID (replicate 16 9), dv_DeviceName = ''phone'', dv_D2HLastSent = 1, dv_H2DLastSeen = 1, dv_dir = ''d''\<rparr>"

definition ex_connect :: connect_ctx where
  "ex_connect = \<lparr>cx_hostID = replicate 16 1, cx_deviceID = replicate 16 4, cx_channel = replicate 16 9, cx_roots = ex_roots,
     cx_kMbx = MailboxKey ex_crypto V1 ex_roots (replicate 16 1) (replicate 16 4)\<rparr>"

lemma ex_Connect_begin: "Connect_begin ex_crypto ex_state = Inr ex_connect"
proof -
  have w: "length (ex_pk b) = 32" "length (ex_seed b) = 32" for b
    using keypair_widths [OF ex_crypto_laws ex_keypair] by auto
  obtain r where r: "DeviceRoots ex_crypto (ex_pk 3) (ex_seed 3) (ex_pk 2) = Inr r" using ex_device_roots [of 3 2] by blast
  then have "ex_roots = r" by (simp add: ex_roots_def)
  with r w show ?thesis by (simp add: Connect_begin_def State_keys_def ex_state_def ex_connect_def)
qed

lemma ex_paired_ends: "paired_ends ex_crypto ex_state ex_paired"
  unfolding paired_ends_def
  by (rule exI [of _ ex_record], rule exI [of _ ex_connect])
    (simp add: ex_Connect_begin ex_paired_def ex_connect_def ex_record_def HostIDWire_def ex_endpoint_def, simp add: ex_state_def)

theorem session_established_witness:
  "\<exists>f s1 s2 h' env. session_run ex_crypto ex_henv (Some (replicate 32 7)) (Some (replicate 24 8)) True ex_connect
        (new_Session ex_state Map.empty) ex_paired = Some ([f], s1, h')
    \<and> ss_ReconcileExpected s1 \<and> Recv ex_crypto True (WsBinary f) s1 = (Next env, s2) \<and> ev_Kind env = ''snapshot.full'' \<and> synced s2 h'"
proof -
  let ?s = "new_Session ex_state Map.empty"
  have s: "ss_State ?s = ex_state" "ss_tracker ?s = NewSeqTracker 1" "\<not> ss_revoked ?s" "\<not> ss_ReconcileExpected ?s"
    by (simp_all add: new_Session_def ex_state_def)
  have d: "h_device ex_paired = Some ex_record" "dr_attached ex_record" "h_conn ex_paired" "dr_channelWire ex_record \<noteq> h_provChannelWire ex_paired"
    using validID_length [OF validID_EncodeChannelID [of "replicate 16 9"]] by (auto simp: ex_paired_def ex_record_def ex_endpoint_def)
  have q: "lastSeen (dr_d2h ex_record) \<le> dv_D2HLastSent (ss_State ?s)" "dv_D2HLastSent (ss_State ?s) + 1 \<noteq> 0"
    "lastSeen (ss_tracker ?s) \<le> dr_h2dSent ex_record" "dr_h2dSent ex_record + 1 \<noteq> 0" "dr_h2dSent ex_record + 1 + 1 \<noteq> 0"
    "lastSeen (ss_tracker ?s) \<noteq> dr_h2dSent ex_record"
    unfolding s by (simp_all add: ex_record_def ex_state_def NewSeqTracker_def)
  have w: "utf8 (hc_HostName (h_cfg ex_paired))" "approvals_utf8 ex_paired"
    by (simp_all add: ex_paired_def ex_endpoint_def approvals_utf8_def mvals_def plain_char_def)
  from session_established [OF ex_crypto_laws ex_henv_ok _ _ d q(1-5) w, of ex_connect "replicate 32 7" "replicate 24 8" True]
  show ?thesis using ex_paired_ends ex_Connect_begin q(6) s(1,3) by simp
qed

end
