(* ===== verification/Drain.thy ===== *)
theory Drain
  imports Handshake Run
begin

text \<open>
  The device's mailbox drain against the relay's mailbox endpoint: \<open>drainMailbox\<close> of
  \<open>devclient/session.go\<close> pages through \<open>handleMailboxGet\<close> of \<open>relay/rest.go\<close>. The drain returns
  for every page source whose truncated pages move the cursor up, and the relay is such a source in
  every reachable state; a source that leaves the cursor where it was keeps the drain in its loop
  for ever. Against a relay whose mailbox does not change, the drain hands over every buffered
  envelope in order and saves the mark.
\<close>

section \<open>The relay's answer as the device reads it\<close>

definition page_frame :: "MailboxItem \<Rightarrow> drain_frame" where
  "page_frame it = \<lparr>df_Seq = mi_Seq it, df_PushClass = mi_PushClass it, df_Body = b64_encode (mi_Body it)\<rparr>"

lemma into_drain_frame_out [simp]: "into_drain_frame (frameOut_json it) = Some (page_frame it)"
  by (simp add: into_drain_frame_def frameOut_json_def into_defs page_frame_def)

lemma those_Some [simp]: "those (map (Some \<circ> f) xs) = Some (map f xs)"
  by (induction xs) simp_all

lemma into_frames_out [simp]: "into_frames (JArr (map frameOut_json its)) = Some (map page_frame its)"
proof -
  have "map into_drain_frame (map frameOut_json its) = map (Some \<circ> page_frame) its" by simp
  then show ?thesis by (simp only: into_frames_def json.case those_Some)
qed

lemma into_drain_page_out [simp]:
  "into_drain_page (mailbox_json its nxt trunc) = Some \<lparr>dp_Frames = map page_frame its, dp_NextAfter = nxt, dp_Truncated = trunc\<rparr>"
  by (simp add: into_drain_page_def mailbox_json_def into_defs)

lemma num_lit_uint_str [simp]: "num_lit (uint_str w)"
  by (simp add: uint_str_def)

lemma wf_mailbox_json: "\<forall>it \<in> set its. validPushClass (mi_PushClass it) \<Longrightarrow> wf_json (mailbox_json its nxt trunc)"
  using validPushClass_plain plain_utf8 by (auto simp: mailbox_json_def frameOut_json_def plain_char_def)

lemma drain_answer_relay:
  assumes "\<forall>it \<in> set its. validPushClass (mi_PushClass it)"
  shows "drain_answer (Some (json_response 200 (mailbox_json its nxt trunc)))
    = Some \<lparr>dp_Frames = map page_frame its, dp_NextAfter = nxt, dp_Truncated = trunc\<rparr>"
proof -
  have "decode_first (print_json (mailbox_json its nxt trunc) @ [CHR 0x0A]) = Some (mailbox_json its nxt trunc, [CHR 0x0A])"
    by (rule pvalue_print [OF wf_mailbox_json [OF assms]]) simp
  moreover have "bytes_str (encode_body v) = print_json v @ [CHR 0x0A]" for v
    by (simp add: encode_body_def marshal_def) (simp add: bytes_str_def char_of_def bit_iff_odd)
  ultimately show ?thesis by (simp add: drain_answer_def json_response_def)
qed

lemma drain_answer_refused: "rp_Status resp \<noteq> 200 \<Longrightarrow> drain_answer (Some resp) = None"
  by (simp add: drain_answer_def)

section \<open>Termination\<close>

text \<open>A source of pages: an environment and, for the n-th request with a cursor, an answer. A page that
  says it is truncated moves the cursor up.\<close>

locale page_source =
  fixes fetch :: "'e \<Rightarrow> nat \<Rightarrow> uint64 \<Rightarrow> Response option" and good :: "'e \<Rightarrow> bool"
  assumes advance: "good E \<Longrightarrow> drain_answer (fetch E n after) = Some page \<Longrightarrow> dp_Truncated page \<Longrightarrow> after < dp_NextAfter page"
begin

lemma drain_loop_returns: "good E \<Longrightarrow> \<exists>r s'. drain_loop cr kMbx channel ok (fetch E) n after s = Some (r, s')"
proof (induction "2 ^ 64 - unat after" arbitrary: n after s rule: less_induct)
  case less
  obtain rnd s1 where st: "drain_step cr kMbx channel (ok n) (fetch E n after) s = (rnd, s1)" by fastforce
  show ?case
  proof (cases rnd)
    case (DrainStop r)
    with st show ?thesis by (subst drain_loop.simps) simp
  next
    case (DrainNext nxt)
    then obtain page where "drain_answer (fetch E n after) = Some page" "dp_Truncated page" "nxt = dp_NextAfter page"
      using st by (auto simp: drain_step_def Let_def split: option.splits prod.splits drain_verdict.splits if_splits)
    with advance [OF less.prems] have "unat after < unat nxt" by (simp add: word_less_nat_alt)
    moreover have "unat nxt < 2 ^ 64" using unsigned_less [of nxt] by simp
    ultimately obtain r s' where "drain_loop cr kMbx channel ok (fetch E) (Suc n) nxt s1 = Some (r, s')"
      using less.hyps [of nxt "Suc n" s1] less.prems by (auto simp: diff_less_mono2)
    with st DrainNext show ?thesis by (subst drain_loop.simps) simp
  qed
qed

end

text \<open>The request the device's URL makes of the relay, and the relay as a source: the n-th request
  finds the n-th state, and an exchange may be lost.\<close>

definition mailbox_request :: "State \<Rightarrow> uint64 \<Rightarrow> Request" where
  "mailbox_request st after = \<lparr>rq_query = [(''after'', uint_str after)], rq_auth = bearer (dv_Sub st), rq_pathID = dv_ChannelID st, rq_body = []\<rparr>"

record drained_relay =
  dy_validator :: validator
  dy_state :: State
  dy_lost :: "nat \<Rightarrow> bool"
  dy_relay :: "nat \<Rightarrow> Relay"

definition relay_fetch :: "drained_relay \<Rightarrow> nat \<Rightarrow> uint64 \<Rightarrow> Response option" where
  "relay_fetch E n after = (if dy_lost E n then None
     else Some (fst (handleMailboxGet (dy_validator E) (mailbox_request (dy_state E) after) (dy_relay E n))))"

lemma mailbox_request_after [simp]:
  "(if q_Get (mailbox_request st a) ''after'' = [] then Some 0 else ParseUint (q_Get (mailbox_request st a) ''after'')) = Some a"
  using ParseUint_uint_str [of a] by (auto simp: mailbox_request_def q_Get_def ParseUint_def)

lemma mailbox_request_path [simp]: "rq_pathID (mailbox_request st a) = dv_ChannelID st"
  by (simp add: mailbox_request_def)

lemma FetchMailbox_page:
  assumes "FetchMailbox ch after limit now ttl s = ((items, nxt, trunc), s')" "1 \<le> limit"
  shows "trunc \<Longrightarrow> after < nxt" "set items \<subseteq> {it. \<exists>mb. mget (ms_mailboxes s) ch = Some mb \<and> it \<in> set (mb_items mb)}"
proof -
  show "after < nxt" if t: trunc
  proof -
    obtain mb where mb: "mget (ms_mailboxes s) ch = Some mb" using assms(1) t by (auto simp: FetchMailbox_def split: option.splits)
    define todo where "todo = pending after (live now ttl (mb_items mb))"
    have pg: "trunc = (limit < int (length todo))" "nxt = (if take (nat limit) todo = [] then after else mi_Seq (last (take (nat limit) todo)))"
      using assms mb by (auto simp: FetchMailbox_def mailbox_fetch_def fetch_loop_eq todo_def Let_def split_beta)
    with assms(2) t have "take (nat limit) todo \<noteq> []" by auto
    then have "last (take (nat limit) todo) \<in> set todo" by (meson in_set_takeD last_in_set)
    then show ?thesis using pg(2) \<open>take (nat limit) todo \<noteq> []\<close> by (auto simp: todo_def pending_def)
  qed
  have "set (take k (pending after (live now ttl its))) \<subseteq> set its" for k its
    using set_mono_suffix [OF suffix_live, of now ttl its] by (auto simp: pending_def dest!: in_set_takeD)
  then show "set items \<subseteq> {it. \<exists>mb. mget (ms_mailboxes s) ch = Some mb \<and> it \<in> set (mb_items mb)}"
    using assms(1) by (fastforce simp: FetchMailbox_def mailbox_fetch_def fetch_loop_eq Let_def split_beta split: option.splits)
qed

definition classes_known :: "Relay \<Rightarrow> bool" where
  "classes_known r \<longleftrightarrow> (\<forall>ch mb. mget (ms_mailboxes (rl_store r)) ch = Some mb \<longrightarrow> (\<forall>it \<in> set (mb_items mb). validPushClass (mi_PushClass it)))"

lemma relay_inv_classes: "relay_inv r \<Longrightarrow> classes_known r"
  by (auto simp: relay_inv_def mailboxes_inv_def classes_known_def)

interpretation relay_pages: page_source relay_fetch "\<lambda>E. \<forall>n. classes_known (dy_relay E n)"
proof
  fix E n after page
  assume good: "\<forall>n. classes_known (dy_relay E n)" and ans: "drain_answer (relay_fetch E n after) = Some page" "dp_Truncated page"
  let ?req = "mailbox_request (dy_state E) after"
  show "after < dp_NextAfter page"
  proof (cases rule: handleMailboxGet_answer [of "dy_validator E" ?req "dy_relay E n"])
    case (refused resp r')
    with ans(1) show ?thesis by (auto simp: relay_fetch_def drain_answer_refused drain_answer_def [of None] split: if_splits)
  next
    case (page sub pr a limit items nxt trunc s' r')
    have "\<forall>it \<in> set items. validPushClass (mi_PushClass it)"
      using FetchMailbox_page(2) [OF page(6,4)] good by (fastforce simp: classes_known_def)
    from drain_answer_relay [OF this] show ?thesis
      using ans page(3,7) FetchMailbox_page(1) [OF page(6,4)]
      by (auto simp: relay_fetch_def drain_answer_def [of None] split: if_splits)
  qed
qed

text \<open>C17. The drain returns. Whatever the relay does between two requests, as long as each finds it in a
  reachable state, and whichever exchanges are lost, refused or damaged, \<open>drainMailbox\<close> ends after
  finitely many rounds: each further round starts at a strictly larger 64-bit cursor.\<close>

theorem drainMailbox_returns:
  assumes "\<And>n. reachable (S n)"
  shows "\<exists>r s'. drainMailbox cr channel kMbx ok (relay_fetch \<lparr>dy_validator = va, dy_state = st, dy_lost = lost, dy_relay = \<lambda>n. sy_relay (S n)\<rparr>) s = Some (r, s')"
  unfolding drainMailbox_def
  by (rule relay_pages.drain_loop_returns) (simp add: relay_inv_classes reachable_inv assms)

theorem drainMailbox_returns_witness:
  "reachable sys0 \<and> (\<exists>r s'. drainMailbox ex_crypto (replicate 16 7) [] (\<lambda>_. True)
     (relay_fetch \<lparr>dy_validator = ex_va, dy_state = ex_state, dy_lost = (\<lambda>n. n = 1), dy_relay = \<lambda>n. sy_relay sys0\<rparr>)
     (new_Session ex_state Map.empty) = Some (r, s'))"
  using drainMailbox_returns [of "\<lambda>_. sys0"] reachable_start by simp

lemma drain_step_stuck:
  assumes "drain_answer resp = Some \<lparr>dp_Frames = [], dp_NextAfter = after, dp_Truncated = True\<rparr>"
    "dv_H2DLastSeen (ss_State s) = LastSeen (ss_tracker s)"
  shows "drain_step cr kMbx channel ok resp s = (DrainNext after, s)"
  using assms by (simp add: drain_step_def saveDrainMark_def)

lemma drain_loop_stuck:
  assumes "drain_loop cr kMbx channel ok fetch n after s = Some res"
    "\<forall>n. drain_answer (fetch n after) = Some \<lparr>dp_Frames = [], dp_NextAfter = after, dp_Truncated = True\<rparr>"
    "dv_H2DLastSeen (ss_State s) = LastSeen (ss_tracker s)"
  shows False
proof -
  let ?P = "\<lambda>cr kMbx channel ok (fetch :: nat \<Rightarrow> uint64 \<Rightarrow> Response option) (n :: nat) after s (res :: dev_error option \<times> Session).
    \<not> ((\<forall>n. drain_answer (fetch n after) = Some \<lparr>dp_Frames = [], dp_NextAfter = after, dp_Truncated = True\<rparr>)
       \<and> dv_H2DLastSeen (ss_State s) = LastSeen (ss_tracker s))"
  have "?P cr kMbx channel ok fetch n after s res"
    by (rule drain_loop.raw_induct [of ?P, OF _ assms(1)]) (auto simp: drain_step_stuck, blast)
  with assms show False by simp
qed

text \<open>The bound rests on the relay's good behaviour, not on the client's: a server that answers an empty
  page which says it is truncated and repeats the cursor keeps \<open>Connect\<close> in the drain for ever.\<close>

theorem drainMailbox_needs_progress:
  assumes "\<And>n. drain_answer (fetch n after) = Some \<lparr>dp_Frames = [], dp_NextAfter = after, dp_Truncated = True\<rparr>"
    and "dv_H2DLastSeen (ss_State s) = after" "ss_tracker s = NewSeqTracker after"
  shows "drainMailbox cr channel kMbx ok fetch s = None"
  using drain_loop_stuck [of cr kMbx channel ok fetch 0 after s] assms
  by (cases "drainMailbox cr channel kMbx ok fetch s") (auto simp: drainMailbox_def LastSeen_def NewSeqTracker_def)

theorem drainMailbox_needs_progress_witness:
  "drainMailbox ex_crypto (replicate 16 7) [] (\<lambda>_. True) (\<lambda>n a. Some (json_response 200 (mailbox_json [] a True)))
     (new_Session ex_state Map.empty) = None"
  by (rule drainMailbox_needs_progress [of _ "dv_H2DLastSeen ex_state"])
    (simp_all add: drain_answer_relay [of "[]", simplified] new_Session_def)

section \<open>Delivery\<close>

text \<open>A run of sequence numbers skips some after \<open>m\<close>.\<close>

fun gap_after :: "uint64 \<Rightarrow> uint64 list \<Rightarrow> bool" where
  "gap_after m [] \<longleftrightarrow> False"
| "gap_after m (q # qs) \<longleftrightarrow> m + 1 < q \<or> gap_after q qs"

lemma gap_after_append: "gap_after m (qs @ rs) \<longleftrightarrow> gap_after m qs \<or> gap_after (last (m # qs)) rs"
  by (induction qs arbitrary: m) auto

text \<open>A buffered frame that opens, under the mailbox key and the channel's associated data, to an
  envelope.\<close>

definition opens_as :: "primitives \<Rightarrow> bytes \<Rightarrow> bytes \<Rightarrow> MailboxItem \<Rightarrow> Envelope \<Rightarrow> bool" where
  "opens_as cr kMbx channel it env \<longleftrightarrow> (\<exists>pc pt. ParsePushClass (mi_PushClass it) = Some pc
     \<and> OpenMailboxFrame cr kMbx (mi_Body it) (BuildAD channel (mi_Seq it) pc) = Some pt \<and> ParseEnvelope pt = Inr env)"

definition drained :: "MailboxItem list \<Rightarrow> (MailboxItem \<Rightarrow> Envelope) \<Rightarrow> Session \<Rightarrow> Session \<Rightarrow> bool" where
  "drained its env s s' \<longleftrightarrow> ss_DrainedEnvelopes s' = ss_DrainedEnvelopes s @ map env its
     \<and> ss_tracker s' = (ss_tracker s)\<lparr>lastSeen := last (lastSeen (ss_tracker s) # map mi_Seq its)\<rparr>
     \<and> (ss_ReconcileExpected s' \<longleftrightarrow> gap_after (lastSeen (ss_tracker s)) (map mi_Seq its) \<or> ss_ReconcileExpected s)"

lemma drain_frames_opens:
  assumes "\<forall>it \<in> set its. opens_as cr kMbx channel it (env it)" "\<not> inSession (ss_tracker s)"
    "sorted_wrt (<) (lastSeen (ss_tracker s) # map mi_Seq its)"
  shows "\<exists>s'. drain_frames cr kMbx channel ok (map page_frame its) s = (DrainPage, s') \<and> drained its env s s' \<and> ss_State s' = ss_State s"
  using assms
proof (induction its arbitrary: s)
  case (Cons it its)
  let ?t = "(ss_tracker s)\<lparr>lastSeen := mi_Seq it\<rparr>" and ?gap = "lastSeen (ss_tracker s) + 1 < mi_Seq it"
  let ?s = "s\<lparr>ss_tracker := ?t, ss_ReconcileExpected := ?gap \<or> ss_ReconcileExpected s, ss_DrainedEnvelopes := ss_DrainedEnvelopes s @ [env it]\<rparr>"
  have "lastSeen (ss_tracker s) < mi_Seq it" using Cons.prems by simp
  then have "AcceptMailbox (mi_Seq it) (ss_tracker s) = (Inr ?gap, ?t)"
    using Cons.prems(2) by (auto simp: AcceptMailbox_def not_le)
  moreover obtain pc pt where "ParsePushClass (mi_PushClass it) = Some pc"
    "OpenMailboxFrame cr kMbx (mi_Body it) (BuildAD channel (mi_Seq it) pc) = Some pt" "ParseEnvelope pt = Inr (env it)"
    using Cons.prems(1) by (auto simp: opens_as_def)
  ultimately have "drain_frames cr kMbx channel ok (map page_frame (it # its)) s = drain_frames cr kMbx channel ok (map page_frame its) ?s"
    by (simp add: page_frame_def)
  moreover obtain s' where "drain_frames cr kMbx channel ok (map page_frame its) ?s = (DrainPage, s')" "drained its env ?s s'" "ss_State s' = ss_State s"
    using Cons.IH [of ?s] Cons.prems by auto
  ultimately show ?case by (auto simp: drained_def)
qed (simp add: drained_def)

lemma saveDrainMark_eq:
  "ss_State (saveDrainMark ok s) = (ss_State s)\<lparr>dv_H2DLastSeen := max (dv_H2DLastSeen (ss_State s)) (LastSeen (ss_tracker s))\<rparr>"
  "ss_tracker (saveDrainMark ok s) = ss_tracker s" "ss_DrainedEnvelopes (saveDrainMark ok s) = ss_DrainedEnvelopes s"
  "ss_ReconcileExpected (saveDrainMark ok s) = ss_ReconcileExpected s"
  using save_session_eq [of ok "s\<lparr>ss_State := (ss_State s)\<lparr>dv_H2DLastSeen := LastSeen (ss_tracker s)\<rparr>\<rparr>"]
  by (auto simp: saveDrainMark_def max_def)

text \<open>A relay that answers every request and whose mailbox for the device's channel holds the same live
  frames at each of them.\<close>

definition keeps_mailbox :: "drained_relay \<Rightarrow> MailboxItem list \<Rightarrow> bool" where
  "keeps_mailbox E its \<longleftrightarrow> (\<forall>n. \<not> dy_lost E n \<and> (\<forall>it \<in> set its. validPushClass (mi_PushClass it))
     \<and> (\<exists>mb. mget (ms_mailboxes (rl_store (dy_relay E n))) (dv_ChannelID (dy_state E)) = Some mb
          \<and> live (rl_now (dy_relay E n)) (cf_MailboxTTL (rl_cfg (dy_relay E n))) (mb_items mb) = its)
     \<and> (\<forall>a. rp_Status (fst (handleMailboxGet (dy_validator E) (mailbox_request (dy_state E) a) (dy_relay E n))) = 200))"

lemma relay_page:
  assumes "keeps_mailbox E its"
  obtains k where "0 < k" "drain_answer (relay_fetch E n a) = Some \<lparr>dp_Frames = map page_frame (take k (pending a its)),
      dp_NextAfter = (if take k (pending a its) = [] then a else mi_Seq (last (take k (pending a its)))), dp_Truncated = (k < length (pending a its))\<rparr>"
proof (cases rule: handleMailboxGet_answer [of "dy_validator E" "mailbox_request (dy_state E) a" "dy_relay E n"])
  case (refused resp r')
  moreover have "rp_Status (fst (handleMailboxGet (dy_validator E) (mailbox_request (dy_state E) a) (dy_relay E n))) = 200"
    using assms unfolding keeps_mailbox_def by blast
  ultimately show thesis by simp
next
  case (page sub pr a' limit items nxt trunc s' r')
  obtain mb where mb: "mget (ms_mailboxes (rl_store (dy_relay E n))) (dv_ChannelID (dy_state E)) = Some mb"
    "live (rl_now (dy_relay E n)) (cf_MailboxTTL (rl_cfg (dy_relay E n))) (mb_items mb) = its" "\<not> dy_lost E n"
    "\<forall>it \<in> set its. validPushClass (mi_PushClass it)"
    using assms unfolding keeps_mailbox_def by blast
  have a: "a' = a" using page(3) by simp
  let ?got = "take (nat limit) (pending a its)"
  have got: "items = ?got" "nxt = (if ?got = [] then a else mi_Seq (last ?got))" "trunc = (nat limit < length (pending a its))"
    using page(4,6) mb(1,2) by (auto simp: a FetchMailbox_def mailbox_fetch_def fetch_loop_eq Let_def split_beta)
  have "\<forall>it \<in> set items. validPushClass (mi_PushClass it)" using mb(4) by (auto simp: got(1) pending_def dest!: in_set_takeD)
  from drain_answer_relay [OF this] show thesis
    using page(4,7) mb(3) by (intro that [of "nat limit"]) (simp_all add: relay_fetch_def got)
qed

lemma drained_trans: "drained xs env s t \<Longrightarrow> drained ys env t u \<Longrightarrow> drained (xs @ ys) env s u"
  by (cases xs) (auto simp: drained_def gap_after_append)

lemma drain_loop_delivers:
  assumes E: "keeps_mailbox E its" and its: "sorted_wrt (\<lambda>a b. mi_Seq a < mi_Seq b) its" "\<forall>it \<in> set its. opens_as cr kMbx channel it (env it)"
  shows "\<not> inSession (ss_tracker s) \<Longrightarrow> lastSeen (ss_tracker s) = after \<Longrightarrow> dv_H2DLastSeen (ss_State s) = after
    \<Longrightarrow> \<exists>s'. drain_loop cr kMbx channel ok (relay_fetch E) n after s = Some (None, s') \<and> drained (pending after its) env s s'
      \<and> ss_State s' = (ss_State s)\<lparr>dv_H2DLastSeen := lastSeen (ss_tracker s')\<rparr>"
proof (induction "length (pending after its)" arbitrary: n after s rule: less_induct)
  case less
  let ?p = "pending after its"
  obtain k where k: "0 < k" "drain_answer (relay_fetch E n after) = Some \<lparr>dp_Frames = map page_frame (take k ?p),
      dp_NextAfter = (if take k ?p = [] then after else mi_Seq (last (take k ?p))), dp_Truncated = (k < length ?p)\<rparr>"
    by (rule relay_page [OF E])
  have above: "\<forall>it \<in> set ?p. after < mi_Seq it \<and> it \<in> set its" by (auto simp: pending_def)
  have "sorted_wrt (\<lambda>a b. mi_Seq a < mi_Seq b) (take k ?p)"
    using sorted_wrt_filter [OF its(1)] by (auto simp: pending_def intro: sorted_wrt_take)
  then have srt: "sorted_wrt (<) (lastSeen (ss_tracker s) # map mi_Seq (take k ?p))"
    using above less.prems(2) by (auto simp: sorted_wrt_map dest!: in_set_takeD)
  have "\<forall>it \<in> set (take k ?p). opens_as cr kMbx channel it (env it)" using above its(2) by (auto dest!: in_set_takeD)
  from drain_frames_opens [OF this less.prems(1) srt, of "ok n"] obtain s1 where
    s1: "drain_frames cr kMbx channel (ok n) (map page_frame (take k ?p)) s = (DrainPage, s1)" "drained (take k ?p) env s s1" "ss_State s1 = ss_State s"
    by blast
  let ?s2 = "saveDrainMark (ok n) s1" and ?nxt = "if take k ?p = [] then after else mi_Seq (last (take k ?p))"
  have last: "lastSeen (ss_tracker s1) = ?nxt" using s1(2) less.prems(2) by (simp add: drained_def last_map)
  have le: "after \<le> ?nxt"
  proof (cases "take k ?p = []")
    case False
    then have "last (take k ?p) \<in> set ?p" by (meson in_set_takeD last_in_set)
    with above False show ?thesis by (simp add: less_imp_le)
  qed simp
  have s2: "drained (take k ?p) env s ?s2" "ss_State ?s2 = (ss_State s)\<lparr>dv_H2DLastSeen := ?nxt\<rparr>" "lastSeen (ss_tracker ?s2) = ?nxt"
    "\<not> inSession (ss_tracker ?s2)"
    using s1(2,3) last le less.prems by (auto simp: drained_def saveDrainMark_eq LastSeen_def max_def)
  have step: "drain_step cr kMbx channel (ok n) (relay_fetch E n after) s = (if k < length ?p then DrainNext ?nxt else DrainStop None, ?s2)"
    using k(2) s1(1) by (simp add: drain_step_def)
  show ?case
  proof (cases "k < length ?p")
    case False
    then have "take k ?p = ?p" by simp
    with s2 step False show ?thesis by (subst drain_loop.simps) simp
  next
    case True
    then have ne: "take k ?p \<noteq> []" using k(1) by auto
    have rest: "pending ?nxt its = drop k ?p" using pending_page [OF its(1) ne] ne by simp
    then have "length (pending ?nxt its) < length ?p" using True k(1) by simp
    from less.hyps [OF this s2(4,3), of "Suc n"] s2(2) obtain s' where
      s': "drain_loop cr kMbx channel ok (relay_fetch E) (Suc n) ?nxt ?s2 = Some (None, s')" "drained (drop k ?p) env ?s2 s'"
      "ss_State s' = (ss_State s)\<lparr>dv_H2DLastSeen := lastSeen (ss_tracker s')\<rparr>"
      unfolding rest by auto
    have "drained ?p env s s'" using drained_trans [OF s2(1) s'(2)] by simp
    with s' step True show ?thesis by (subst drain_loop.simps) simp
  qed
qed

text \<open>C16. The drain delivers the mailbox. When the device connects, and the relay holds for its channel
  frames with increasing sequence numbers, sealed under the pairing's mailbox key, the drain hands over
  exactly the envelopes of the frames above the device's mark, in order and each once, over as many
  pages as it takes; the mark moves to the last of them, and the device is told to expect a reconcile
  exactly when a number was skipped.\<close>

theorem drainMailbox_delivers:
  assumes "keeps_mailbox E its" "sorted_wrt (\<lambda>a b. mi_Seq a < mi_Seq b) its" "\<forall>it \<in> set its. opens_as cr kMbx channel it (env it)"
  shows "\<exists>s'. drainMailbox cr channel kMbx ok (relay_fetch E) (new_Session st disk) = Some (None, s')
    \<and> ss_DrainedEnvelopes s' = map env (pending (dv_H2DLastSeen st) its)
    \<and> ss_State s' = st\<lparr>dv_H2DLastSeen := last (dv_H2DLastSeen st # map mi_Seq (pending (dv_H2DLastSeen st) its))\<rparr>
    \<and> (ss_ReconcileExpected s' \<longleftrightarrow> gap_after (dv_H2DLastSeen st) (map mi_Seq (pending (dv_H2DLastSeen st) its)))"
proof -
  let ?s = "new_Session st disk"
  have s: "\<not> inSession (ss_tracker ?s)" "lastSeen (ss_tracker ?s) = dv_H2DLastSeen st" "ss_State ?s = st" "ss_DrainedEnvelopes ?s = []" "\<not> ss_ReconcileExpected ?s"
    by (simp_all add: new_Session_def NewSeqTracker_def)
  from drain_loop_delivers [OF assms s(1,2), of ok 0] s(3) obtain s' where
    "drain_loop cr kMbx channel ok (relay_fetch E) 0 (dv_H2DLastSeen st) ?s = Some (None, s')"
    "drained (pending (dv_H2DLastSeen st) its) env ?s s'" "ss_State s' = st\<lparr>dv_H2DLastSeen := lastSeen (ss_tracker s')\<rparr>" by auto
  with s show ?thesis unfolding drainMailbox_def by (auto simp: drained_def)
qed

text \<open>What the host parks for an absent device is a frame that opens under the pairing's mailbox key to
  the envelope it sent, under the next sequence number.\<close>

lemma sendMailboxEnvelope_opens:
  assumes cr: "aead_opens cr" and e: "env_ok e" and dev: "h_device h = Some dev" "dr_channelWire dev = EncodeChannelID (dr_channel dev)"
      "length (dr_channel dev) = 16" "h_conn h"
    and pc: "ParsePushClass pc = Some b" and env: "env = NewPayload kind ident (he_now e (h_tick h)) body" "ParseEnvelope (Envelope_Marshal env) = Inr env"
  obtains ct where "sendMailboxEnvelope cr e kind ident body pc h = h\<lparr>h_tick := h_tick h + 2, h_device := Some (dev\<lparr>dr_h2dSent := dr_h2dSent dev + 1\<rparr>),
      h_out := h_out h @ [frame_of (EncodeChannelID (dr_channel dev)) (dr_h2dSent dev + 1) pc ct]\<rparr>"
    "\<And>t. opens_as cr (dr_kMbx dev) (dr_channel dev) \<lparr>mi_Seq = dr_h2dSent dev + 1, mi_PushClass = pc, mi_Body = ct, mi_StoredAt = t\<rparr> env"
proof -
  obtain nonce where n: "he_rand e (h_tick h + 1) 24 = Some nonce" "length nonce = 24" using env_ok_rand [OF e] by blast
  have vpc: "validPushClass pc" using pc ParsePushClass_valid [of pc] by auto
  let ?ad = "BuildAD (dr_channel dev) (dr_h2dSent dev + 1) b"
  let ?ct = "nonce @ SealMailbox cr (dr_kMbx dev) nonce (Envelope_Marshal env) ?ad"
  have "OpenMailboxFrame cr (dr_kMbx dev) ?ct ?ad = Some (Envelope_Marshal env)"
    using cr n(2) by (simp add: OpenMailboxFrame_def MailboxNonceLen_def OpenMailbox_def SealMailbox_def aead_opens_def)
  then show thesis
    using dev pc vpc n(1) env by (intro that [of ?ct])
      (simp_all add: sendMailboxEnvelope_def host_Now_def host_Read_def SealMailboxFrame_def opens_as_def Let_def)
qed

text \<open>A relay that holds two frames for the device, the second after a gap.\<close>

definition ex_note :: Envelope where "ex_note = NewPayload ''event'' [] 0 JNull"

definition ex_parked :: "uint64 \<Rightarrow> MailboxItem" where
  "ex_parked q = \<lparr>mi_Seq = q, mi_PushClass = ''wake'', mi_Body = replicate 24 0 @ SealMailbox ex_crypto [] (replicate 24 0) (Envelope_Marshal ex_note)
     (BuildAD (replicate 16 7) q PushClassWake), mi_StoredAt = 0\<rparr>"

definition ex_holding :: Relay where
  "ex_holding = (ex_relay [])\<lparr>rl_store := ex_store\<lparr>ms_mailboxes := [(ex_id 7, \<lparr>mb_items = [ex_parked 2, ex_parked 4], mb_bytes = 0\<rparr>)]\<rparr>\<rparr>"

definition ex_drain :: drained_relay where
  "ex_drain = \<lparr>dy_validator = ex_va, dy_state = ex_state\<lparr>dv_ChannelID := ex_id 7\<rparr>, dy_lost = \<lambda>_. False, dy_relay = \<lambda>_. ex_holding\<rparr>"

lemma ex_parked_opens: "opens_as ex_crypto [] (replicate 16 7) (ex_parked q) ex_note"
  using ex_crypto_aead ParseEnvelope_payload [of "''event''" "[]" JNull 0]
  by (simp add: opens_as_def ex_parked_def OpenMailboxFrame_def MailboxNonceLen_def OpenMailbox_def SealMailbox_def aead_opens_def
      ex_note_def utf8.simps [of "[]"] plain_char_def)

lemma ex_keeps_mailbox: "keeps_mailbox ex_drain [ex_parked 2, ex_parked 4]"
proof -
  have st: "rp_Status (fst (handleMailboxGet ex_va (mailbox_request (ex_state\<lparr>dv_ChannelID := ex_id 7\<rparr>) a) ex_holding)) = 200" for a
  proof -
    let ?req = "mailbox_request (ex_state\<lparr>dv_ChannelID := ex_id 7\<rparr>) a"
    have b: "bearerSub ex_va ?req = Inr ''alice''"
      by (simp add: bearerSub_def mailbox_request_def tokenQueryParams_def q_Has_def strip_def TestOnlySubjectValidator_def bearer_def ex_state_def)
    have p: "PairingByChannel (ex_id 7) (rl_store ex_holding) = Some ex_pairing"
      by (simp add: ex_holding_def PairingByChannel_def mget_def) (simp add: ex_store_def mget_def)
    have c: "authorizeChannel (rq_pathID ?req) ''alice'' ex_holding = Inr ex_pairing" using p by (simp add: authorizeChannel_def)
    have l: "q_Get ?req ''limit'' = []" by (simp add: mailbox_request_def q_Get_def)
    have g: "rl_cfg ex_holding = ex_cfg" by (simp add: ex_holding_def)
    show ?thesis unfolding handleMailboxGet_def b sum.case c l g mailbox_request_after by (simp add: split_beta json_response_def)
  qed
  show ?thesis
    unfolding keeps_mailbox_def using st
    by (simp add: ex_drain_def) (simp add: ex_holding_def mget_def live_def ex_parked_def time_sub_def min_duration_def max_duration_def)
qed

theorem drainMailbox_delivers_witness:
  "\<exists>s'. drainMailbox ex_crypto (replicate 16 7) [] (\<lambda>_. True) (relay_fetch ex_drain) (new_Session ex_state Map.empty) = Some (None, s')
    \<and> ss_DrainedEnvelopes s' = [ex_note, ex_note] \<and> dv_H2DLastSeen (ss_State s') = 4 \<and> ss_ReconcileExpected s'"
proof -
  have s: "dv_H2DLastSeen ex_state = 1" "mi_Seq (ex_parked q) = q" for q by (simp_all add: ex_state_def ex_parked_def)
  have p: "pending 1 [ex_parked 2, ex_parked 4] = [ex_parked 2, ex_parked 4]" by (simp add: pending_def s(2))
  from drainMailbox_delivers [OF ex_keeps_mailbox, of ex_crypto "[]" "replicate 16 7" "\<lambda>_. ex_note" "\<lambda>_. True" ex_state Map.empty]
  obtain s' where "drainMailbox ex_crypto (replicate 16 7) [] (\<lambda>_. True) (relay_fetch ex_drain) (new_Session ex_state Map.empty) = Some (None, s')"
    "ss_DrainedEnvelopes s' = [ex_note, ex_note]" "ss_State s' = ex_state\<lparr>dv_H2DLastSeen := 4\<rparr>" "ss_ReconcileExpected s'"
    unfolding s(1) p using ex_parked_opens by (auto simp: s(2))
  then show ?thesis by auto
qed

end
