(* ===== verification/HostRun.thy ===== *)
theory HostRun
  imports Handshake
begin

text \<open>
  The scripted host as a state machine: binary frames and control messages from the relay, the
  timers of approvals, the script and the event feed, windows the user opens and the loss of the
  connection, in any order. The invariants of a run are about the two things the host must not get
  wrong: who may pair, and how an approval is decided.
\<close>

section \<open>Views\<close>

text \<open>What of a paired device never changes, the pairing state and the approval state of a host.\<close>

definition identity :: "deviceRecord \<Rightarrow> bytes \<times> bytes \<times> bytes \<times> Roots \<times> bytes" where
  "identity dev = (dr_deviceID dev, dr_devPK dev, dr_channel dev, dr_roots dev, dr_kMbx dev)"

definition pairing_view :: "Host \<Rightarrow> bool \<times> bytes \<times> nat \<times> pairingState option \<times> (bytes \<times> bytes \<times> bytes \<times> Roots \<times> bytes) option" where
  "pairing_view h = (h_tokenLive h, h_token h, h_macFailures h, h_pairing h, map_option identity (h_device h))"

definition approval_view :: "Host \<Rightarrow> (string, pendingApproval) gomap \<times> (string, ApprovalResolved) gomap \<times> json list" where
  "approval_view h = (h_pending h, h_resolved h, h_ledger h)"

lemma views_update [simp]:
  "pairing_view (h\<lparr>h_tick := a\<rparr>) = pairing_view h" "approval_view (h\<lparr>h_tick := a\<rparr>) = approval_view h"
  "pairing_view (h\<lparr>h_out := b\<rparr>) = pairing_view h" "approval_view (h\<lparr>h_out := b\<rparr>) = approval_view h"
  "pairing_view (h\<lparr>h_sess := c\<rparr>) = pairing_view h" "approval_view (h\<lparr>h_sess := c\<rparr>) = approval_view h"
  "pairing_view (h\<lparr>h_loops := d\<rparr>) = pairing_view h" "approval_view (h\<lparr>h_loops := d\<rparr>) = approval_view h"
  "pairing_view (h\<lparr>h_requests := f\<rparr>) = pairing_view h" "approval_view (h\<lparr>h_requests := f\<rparr>) = approval_view h"
  "pairing_view (h\<lparr>h_ledger := g\<rparr>) = pairing_view h" "approval_view (h\<lparr>h_device := i\<rparr>) = approval_view h"
  "pairing_view (h\<lparr>h_pending := j\<rparr>) = pairing_view h" "approval_view (h\<lparr>h_pairing := k\<rparr>) = approval_view h"
  "pairing_view (h\<lparr>h_resolved := l\<rparr>) = pairing_view h" "approval_view (h\<lparr>h_tokenLive := m\<rparr>) = approval_view h"
  "pairing_view (h\<lparr>h_wbSuspended := n\<rparr>) = pairing_view h" "approval_view (h\<lparr>h_wbSuspended := n\<rparr>) = approval_view h"
  "pairing_view (h\<lparr>h_approvalSeq := p\<rparr>) = pairing_view h" "approval_view (h\<lparr>h_approvalSeq := p\<rparr>) = approval_view h"
  "pairing_view (h\<lparr>h_conn := q\<rparr>) = pairing_view h" "approval_view (h\<lparr>h_conn := q\<rparr>) = approval_view h"
  "pairing_view (h\<lparr>h_nextLoop := r\<rparr>) = pairing_view h" "approval_view (h\<lparr>h_nextLoop := r\<rparr>) = approval_view h"
  "approval_view (h\<lparr>h_macFailures := t\<rparr>) = approval_view h"
  by (simp_all add: pairing_view_def approval_view_def)

lemma view_device:
  "h_device h = Some dev \<Longrightarrow> identity dev' = identity dev \<Longrightarrow> pairing_view (h\<lparr>h_device := Some dev'\<rparr>) = pairing_view h"
  by (simp add: pairing_view_def)

lemma identity_update [simp]: "identity (dev\<lparr>dr_h2dSent := q\<rparr>) = identity dev" "identity (dev\<lparr>dr_d2h := t\<rparr>) = identity dev"
  "identity (dev\<lparr>dr_attached := b\<rparr>) = identity dev"
  by (simp_all add: identity_def)

section \<open>Sending changes neither view\<close>

lemma sendFrame_views [simp]: "pairing_view (sendFrame ch q pc b h) = pairing_view h" "approval_view (sendFrame ch q pc b h) = approval_view h"
  "h_device (sendFrame ch q pc b h) = h_device h" "h_sess (sendFrame ch q pc b h) = h_sess h"
  by (simp_all add: sendFrame_def split: option.split)

lemma host_sendControl_views [simp]: "pairing_view (host_sendControl ch k b h) = pairing_view h"
  "approval_view (host_sendControl ch k b h) = approval_view h" "h_device (host_sendControl ch k b h) = h_device h"
  by (simp_all add: host_sendControl_def)

lemma sendEncryptedOn_views:
  assumes "sendEncryptedOn cr e push n ch k b pc tag i h = (push', n', h')"
  shows "pairing_view h' = pairing_view h" "approval_view h' = approval_view h" "h_device h' = h_device h" "h_sess h' = h_sess h"
  using assms by (auto simp: sendEncryptedOn_def host_Now_def Let_def split: if_splits sum.splits option.splits)

lemma send_on_session_views [simp]:
  "pairing_view (send_on_session cr e k b pc i h) = pairing_view h" "approval_view (send_on_session cr e k b pc i h) = approval_view h"
proof -
  have "pairing_view (send_on_session cr e k b pc i h) = pairing_view h \<and> approval_view (send_on_session cr e k b pc i h) = approval_view h"
  proof (cases "h_device h = None \<or> h_sess h = None")
    case True
    then show ?thesis by (auto simp: send_on_session_def split: option.splits)
  next
    case False
    then obtain dev s where d: "h_device h = Some dev" "h_sess h = Some s" by auto
    obtain push n h' where x: "sendEncryptedOn cr e (se_push s) (dr_h2dSent dev) (dr_channelWire dev) k b pc TagMessage i h = (push, n, h')"
      by (cases "sendEncryptedOn cr e (se_push s) (dr_h2dSent dev) (dr_channelWire dev) k b pc TagMessage i h")
    note v = sendEncryptedOn_views [OF x]
    have "pairing_view (h'\<lparr>h_device := Some (dev\<lparr>dr_h2dSent := n\<rparr>)\<rparr>) = pairing_view h"
      using view_device [of h' dev] v d by simp
    moreover have "send_on_session cr e k b pc i h = h'\<lparr>h_device := Some (dev\<lparr>dr_h2dSent := n\<rparr>), h_sess := Some (s\<lparr>se_push := push\<rparr>)\<rparr>"
      using d x by (simp add: send_on_session_def)
    ultimately show ?thesis using v by simp
  qed
  then show "pairing_view (send_on_session cr e k b pc i h) = pairing_view h" "approval_view (send_on_session cr e k b pc i h) = approval_view h"
    by simp_all
qed

lemma sendMailboxEnvelope_views [simp]:
  "pairing_view (sendMailboxEnvelope cr e k i b pc h) = pairing_view h" "approval_view (sendMailboxEnvelope cr e k i b pc h) = approval_view h"
  by (simp_all add: sendMailboxEnvelope_def host_Now_def host_Read_def view_device Let_def split: option.split)

lemma sendEnvelope_views [simp]:
  "pairing_view (sendEnvelope cr e k i b pc h) = pairing_view h" "approval_view (sendEnvelope cr e k i b pc h) = approval_view h"
  by (simp_all add: sendEnvelope_def split: option.split)

lemma sendSnapshot_views [simp]:
  "pairing_view (sendSnapshot cr e i h) = pairing_view h" "approval_view (sendSnapshot cr e i h) = approval_view h"
  by (simp_all add: sendSnapshot_def host_Now_def)

lemma emit_views [simp]:
  "pairing_view (emitScriptEvent cr e ev h) = pairing_view h" "approval_view (emitScriptEvent cr e ev h) = approval_view h"
  "pairing_view (snd (EmitEventClassL cr e ev h)) = pairing_view h" "approval_view (snd (EmitEventClassL cr e ev h)) = approval_view h"
  "pairing_view (host_flip cr e h) = pairing_view h" "approval_view (host_flip cr e h) = approval_view h"
  by (simp_all add: emitScriptEvent_def EmitEventClassL_def host_flip_def host_Now_def Let_def scriptEventBody_def split: option.split)

lemma session_views [simp]:
  "pairing_view (abortSession h) = pairing_view h" "approval_view (abortSession h) = approval_view h"
  "pairing_view (startLoops h) = pairing_view h" "approval_view (startLoops h) = approval_view h"
  by (simp_all add: abortSession_def startLoops_def Let_def split: option.split)

lemma ledger_pairing_view [simp]: "pairing_view (ledger r h) = pairing_view h" "pairing_view (ledgerCommand m res why h) = pairing_view h"
  "pairing_view (rpcError cr e i code b h) = pairing_view h" "approval_view (rpcError cr e i code b h) = approval_view h"
  by (simp_all add: ledger_def ledgerCommand_def rpcError_def)

lemma resolveApproval_pairing_view [simp]: "pairing_view (snd (resolveApproval cr e i d src dev h)) = pairing_view h"
  by (simp add: resolveApproval_def host_Now_def Let_def split: option.split)

lemma raiseApproval_pairing_view [simp]: "pairing_view (raiseApproval cr e h) = pairing_view h"
  by (simp add: raiseApproval_def host_Now_def host_Read_def Let_def split: option.split)

lemma abortSession_pairing [simp]: "h_token (abortSession h) = h_token h" "h_tokenLive (abortSession h) = h_tokenLive h"
  "h_macFailures (abortSession h) = h_macFailures h" "h_pairing (abortSession h) = h_pairing h"
  by (simp_all add: abortSession_def Let_def split: option.split)

lemma handleSessHello_views [simp]:
  "pairing_view (handleSessHello cr e env h) = pairing_view h" "approval_view (handleSessHello cr e env h) = approval_view h"
  by (simp_all add: handleSessHello_def host_Read_def Let_def split: option.split sum.split)
    (auto simp: pairing_view_def host_sendControl_def sendFrame_def split: option.split)

lemma handleSessHeader_views [simp]:
  "pairing_view (handleSessHeader cr e env h) = pairing_view h" "approval_view (handleSessHeader cr e env h) = approval_view h"
  by (simp_all add: handleSessHeader_def split: option.split sum.split)

section \<open>Frames of the durable channel\<close>

lemma fold_transcript_views [simp]:
  "pairing_view (fold (\<lambda>i h. sendEnvelope cr e k (f i) (g i) pc h) is h) = pairing_view h"
  "approval_view (fold (\<lambda>i h. sendEnvelope cr e k (f i) (g i) pc h) is h) = approval_view h"
  by (induction "is" arbitrary: h) simp_all

lemma handle_decide_pairing_view [simp]: "pairing_view (handle_decide cr e i req h) = pairing_view h"
proof (cases "into_decideParams (rr_Params req)")
  case (Some p)
  obtain res applied h1 where x: "resolveApproval cr e (dc_ApprovalID p) (if dc_Decision p = ''allow'' then ''allow_once'' else ''deny'') ''remote'' (host_deviceID h) h
      = ((res, applied), h1)" by (metis prod.exhaust)
  then have "pairing_view h1 = pairing_view h" using resolveApproval_pairing_view by (metis snd_conv)
  then show ?thesis by (simp add: handle_decide_def Some x split: option.split)
qed (simp add: handle_decide_def)

lemma handleRPC_pairing_view [simp]: "pairing_view (handleRPC cr e i req h) = pairing_view h"
  by (simp add: handleRPC_def handle_transcript_def host_Now_def Let_def split: option.split)

lemma handleSessionFrame_pairing_view [simp]: "pairing_view (handleSessionFrame cr e hdr body h) = pairing_view h"
proof -
  have env: "pairing_view (handle_session_envelope cr e env h) = pairing_view h" for env h
    by (simp add: handle_session_envelope_def split: option.split sum.split)
  show ?thesis
    unfolding handleSessionFrame_def by (simp add: env view_device Let_def split: option.split sum.split prod.split)
qed

section \<open>Frames of a pairing\<close>

lemma pairing_approval_view [simp]: "approval_view (handlePairingFrame cr e hdr body h) = approval_view h"
proof -
  have f: "approval_view (pairFail h) = approval_view h" for h by (simp add: pairFail_def)
  have b: "approval_view (pair_begin_session cr e did pk nD h) = approval_view h" for did pk nD h
    by (simp add: pair_begin_session_def host_Read_def f Let_def split: option.split sum.split)
  have i: "approval_view (handlePairInit cr e env h) = approval_view h" for env h
    by (simp add: handlePairInit_def pair_strike_def f b Let_def split: option.split)
  have s: "approval_view (handlePairSessHeader cr env h) = approval_view h" for env h
    by (simp add: handlePairSessHeader_def f split: option.split sum.split)
  have d: "approval_view (handlePairIdentity cr e hdr body h) = approval_view h" for h
    by (auto simp: handlePairIdentity_def host_Read_def host_post_def Let_def dest!: sendEncryptedOn_views(2)
        split: option.split prod.split if_split)
  show ?thesis by (simp add: handlePairingFrame_def i s d split: sum.split)
qed

text \<open>With the token dead and no pairing in flight, no frame of the provisional channel changes who is
  paired, or brings the token back.\<close>

lemma spent_pairing_frame:
  assumes "\<not> h_tokenLive h" "h_pairing h = None"
  shows "pairing_view (handlePairingFrame cr e hdr body h) = pairing_view h"
proof -
  have f: "pairing_view (pairFail h) = pairing_view h" using assms(2) by (simp add: pairFail_def) (simp add: pairing_view_def)
  show ?thesis
    using assms by (simp add: handlePairingFrame_def handlePairInit_def handlePairSessHeader_def handlePairIdentity_def pair_strike_def f
        split: sum.split option.split)
qed

section \<open>Steps\<close>

inductive host_step :: "primitives \<Rightarrow> host_env \<Rightarrow> Host \<Rightarrow> Host \<Rightarrow> bool" for cr e where
  binary: "host_step cr e h (handleBinary cr e data h)"
| control: "host_step cr e h (handleControl data h)"
| timeout: "host_step cr e h (approval_timeout cr e i h)"
| approval: "host_step cr e h (raiseApproval cr e h)"
| feed: "host_step cr e h (host_flip cr e h)"
| script: "host_step cr e h (emitScriptEvent cr e ev h)"
| emit: "host_step cr e h (snd (EmitEventClassL cr e ev h))"
| link: "host_step cr e h (h\<lparr>h_conn := b\<rparr>)"

text \<open>A step of a host whose user may also open windows.\<close>

inductive host_life :: "primitives \<Rightarrow> host_env \<Rightarrow> Host \<Rightarrow> Host \<Rightarrow> bool" for cr e where
  runs: "host_step cr e h h' \<Longrightarrow> host_life cr e h h'"
| window: "host_life cr e h (snd (OpenPairingWindow cr e resp h))"

lemma handleControl_views [simp]: "pairing_view (handleControl data h) = pairing_view h" "approval_view (handleControl data h) = approval_view h"
  by (simp_all add: handleControl_def view_device split: option.split)

lemma spent_step:
  assumes "host_step cr e h h'" "\<not> h_tokenLive h" "h_pairing h = None"
  shows "pairing_view h' = pairing_view h"
  using assms
proof cases
  case (binary data)
  then show ?thesis using spent_pairing_frame [OF assms(2,3)] by (simp add: handleBinary_def split: sum.split option.split)
qed (simp_all add: approval_timeout_def)

interpretation spent: inductive_invariant "\<lambda>h. pairing_view h = v \<and> \<not> h_tokenLive h \<and> h_pairing h = None" "host_step cr e"
    "\<lambda>h. pairing_view h = v \<and> \<not> h_tokenLive h \<and> h_pairing h = None" for cr e v
proof
  fix h h' assume h: "pairing_view h = v \<and> \<not> h_tokenLive h \<and> h_pairing h = None" "host_step cr e h h'"
  then have "pairing_view h' = pairing_view h" using spent_step by blast
  with h(1) show "pairing_view h' = v \<and> \<not> h_tokenLive h' \<and> h_pairing h' = None" by (auto simp: pairing_view_def)
qed simp

lemma spent_run:
  assumes "(host_step cr e)\<^sup>*\<^sup>* h h'" "\<not> h_tokenLive h" "h_pairing h = None"
  shows "pairing_view h' = pairing_view h"
  using spent.run_inv [OF assms(1), of "pairing_view h"] assms(2,3) by simp

text \<open>C15. A pairing code works once. Once its token is spent (or struck out) and no pairing is in flight,
  nothing that can happen to the host short of opening a new window, in any number of steps, changes the
  device it is paired with, that device's keys, channel and mailbox key, or makes the token live
  again.\<close>

theorem spent_token_stays_spent:
  assumes "(host_step cr e)\<^sup>*\<^sup>* h h'" "\<not> h_tokenLive h" "h_pairing h = None"
  shows "\<not> h_tokenLive h' \<and> h_pairing h' = None \<and> map_option identity (h_device h') = map_option identity (h_device h)"
  using spent_run [OF assms] assms(2,3) by (simp add: pairing_view_def)

section \<open>Who may pair\<close>

text \<open>The pairing request a frame of the provisional channel carries: device id, device key, nonce, MAC.\<close>

definition pair_init_of :: "Host \<Rightarrow> bytes \<Rightarrow> (bytes \<times> bytes \<times> bytes \<times> bytes) option" where
  "pair_init_of h f = (case wire_DecodeFrame f of Inl _ \<Rightarrow> None | Inr (hdr, body) \<Rightarrow>
     if hd_Channel hdr \<noteq> h_provChannelWire h \<or> h_provChannelWire h = [] \<or> hd_Seq hdr \<noteq> 0 then None
     else case ParseEnvelope body of Inl _ \<Rightarrow> None | Inr env \<Rightarrow> if ev_Kind env = ''pair.init'' then pair_init_fields env else None)"

definition right_mac :: "primitives \<Rightarrow> Host \<Rightarrow> bytes \<times> bytes \<times> bytes \<times> bytes \<Rightarrow> bool" where
  "right_mac cr h = (\<lambda>(did, pk, nD, mac). MacPair cr V1 (h_token h) (h_hostID h) (h_hostPK h) did pk nD (mustBind cr h) = mac)"

lemma pairFail_fields [simp]: "h_pairing (pairFail h) = None" "h_tokenLive (pairFail h) = h_tokenLive h"
  "h_macFailures (pairFail h) = h_macFailures h" "h_device (pairFail h) = h_device h" "h_token (pairFail h) = h_token h"
  "h_hostID (pairFail h) = h_hostID h" "h_hostPK (pairFail h) = h_hostPK h" "h_cfg (pairFail h) = h_cfg h"
  "h_provChannelWire (pairFail h) = h_provChannelWire h"
  by (simp_all add: pairFail_def host_sendControl_def sendFrame_def split: option.split)

lemma handleBinary_init:
  assumes "pair_init_of h f = Some (did, pk, nD, mac)"
  shows "handleBinary cr e f h = (if \<not> h_tokenLive h \<or> \<not> right_mac cr h (did, pk, nD, mac) then pairFail (pair_strike h)
      else if map_option dr_deviceID (h_device h) = Some did then pairFail (h\<lparr>h_tokenLive := False\<rparr>)
      else pair_begin_session cr e did pk nD (h\<lparr>h_tokenLive := False\<rparr>))"
proof -
  obtain hdr body env where f: "wire_DecodeFrame f = Inr (hdr, body)" "hd_Channel hdr = h_provChannelWire h" "h_provChannelWire h \<noteq> []" "hd_Seq hdr = 0"
    "ParseEnvelope body = Inr env" "ev_Kind env = ''pair.init''" "pair_init_fields env = Some (did, pk, nD, mac)"
    using assms by (auto simp: pair_init_of_def split: sum.splits if_splits)
  have d: "(case h_device h of None \<Rightarrow> False | Some dev \<Rightarrow> dr_deviceID dev = did) \<longleftrightarrow> map_option dr_deviceID (h_device h) = Some did"
    by (simp split: option.split)
  have m: "h_tokenLive h \<Longrightarrow> pair_mac_ok cr did pk nD mac h = right_mac cr h (did, pk, nD, mac)"
    by (simp add: pair_mac_ok_def right_mac_def)
  have "handleBinary cr e f h = handlePairInit cr e env h" by (simp add: handleBinary_def handlePairingFrame_def f)
  then show ?thesis using d m by (auto simp: handlePairInit_def f(7) Let_def)
qed

lemma pair_strike_fields [simp]: "h_pairing (pair_strike h) = h_pairing h" "h_device (pair_strike h) = h_device h" "h_token (pair_strike h) = h_token h"
  "h_hostID (pair_strike h) = h_hostID h" "h_hostPK (pair_strike h) = h_hostPK h" "h_cfg (pair_strike h) = h_cfg h"
  "h_provChannelWire (pair_strike h) = h_provChannelWire h"
  by (simp_all add: pair_strike_def Let_def)

lemma wrong_guess:
  assumes "pair_init_of h f = Some x" "\<not> right_mac cr h x"
  shows "let h' = handleBinary cr e f h in h_pairing h' = None \<and> h_device h' = h_device h \<and> h_token h' = h_token h
    \<and> pair_init_of h' = pair_init_of h \<and> right_mac cr h' = right_mac cr h
    \<and> (h_tokenLive h' \<longrightarrow> h_tokenLive h \<and> h_macFailures h' = h_macFailures h + 1 \<and> h_macFailures h' < 5)"
proof -
  obtain did pk nD mac where x: "x = (did, pk, nD, mac)" by (cases x)
  have "handleBinary cr e f h = pairFail (pair_strike h)" using handleBinary_init [OF assms(1) [unfolded x]] assms(2) by (simp add: x)
  moreover have "pair_init_of (pairFail (pair_strike h)) = pair_init_of h" "right_mac cr (pairFail (pair_strike h)) = right_mac cr h"
    unfolding pair_init_of_def right_mac_def mustBind_def fun_eq_iff pairFail_fields pair_strike_fields by simp_all
  moreover have "h_tokenLive (pair_strike h) \<longrightarrow> h_tokenLive h \<and> h_macFailures (pair_strike h) = h_macFailures h + 1 \<and> h_macFailures (pair_strike h) < 5"
    by (simp add: pair_strike_def Let_def)
  ultimately show ?thesis by (auto simp: Let_def)
qed

lemma wrong_guesses:
  assumes "\<forall>f \<in> set fs. \<exists>x. pair_init_of h f = Some x \<and> \<not> right_mac cr h x"
  shows "let h' = fold (handleBinary cr e) fs h in h_device h' = h_device h \<and> (fs \<noteq> [] \<longrightarrow> h_pairing h' = None)
    \<and> (h_tokenLive h' \<longrightarrow> h_tokenLive h \<and> h_macFailures h' = h_macFailures h + length fs \<and> (fs \<noteq> [] \<longrightarrow> h_macFailures h' < 5))"
  using assms
proof (induction fs arbitrary: h)
  case (Cons f fs)
  let ?h = "handleBinary cr e f h"
  obtain x where "pair_init_of h f = Some x" "\<not> right_mac cr h x" using Cons.prems by auto
  note w = wrong_guess [OF this, of e, unfolded Let_def]
  then have "\<forall>f \<in> set fs. \<exists>x. pair_init_of ?h f = Some x \<and> \<not> right_mac cr ?h x" using Cons.prems by simp
  from Cons.IH [OF this] w show ?case by (cases fs) (auto simp: Let_def)
qed simp

text \<open>C14. Guessing a pairing code is limited. After a window has been opened, five pairing requests whose MAC
  is not the one the displayed token gives strike the token out: it is no longer live, no pairing is in
  flight, and the paired device is what it was; with the spent token nobody can pair before the user
  opens a new window.\<close>

theorem five_wrong_guesses:
  assumes "OpenPairingWindow cr e resp h0 = (Some shown, h)" "5 \<le> length fs"
    and "\<forall>f \<in> set fs. \<exists>x. pair_init_of h f = Some x \<and> \<not> right_mac cr h x"
    and "(host_step cr e)\<^sup>*\<^sup>* (fold (handleBinary cr e) fs h) h'"
  shows "\<not> h_tokenLive h' \<and> h_pairing h' = None \<and> map_option identity (h_device h') = map_option identity (h_device h0)"
proof -
  let ?h = "fold (handleBinary cr e) fs h"
  have h: "h_macFailures h = 0" "h_device h = h_device h0"
    using assms(1) by (auto simp: OpenPairingWindow_def host_Read_def host_Now_def Let_def split: option.splits prod.splits)
  have "\<not> h_tokenLive ?h \<and> h_pairing ?h = None \<and> h_device ?h = h_device h"
    using wrong_guesses [OF assms(3), of e] assms(2) h(1) by (cases fs) (auto simp: Let_def)
  with spent_run [OF assms(4)] h(2) show ?thesis by (simp add: pairing_view_def)
qed

lemma pair_begin_session_fields:
  "h_pairing (pair_begin_session cr e did pk nD h) = Some p \<Longrightarrow> pg_deviceID p = did \<and> pg_devPK p = pk \<and> pg_step p = 2"
  "h_tokenLive (pair_begin_session cr e did pk nD h) = h_tokenLive h" "h_device (pair_begin_session cr e did pk nD h) = h_device h"
  by (auto simp: pair_begin_session_def host_Read_def host_sendControl_def sendFrame_def Let_def split: option.splits sum.splits if_splits)

lemma handlePairSessHeader_fields:
  "h_tokenLive (handlePairSessHeader cr env h) = h_tokenLive h" "h_device (handlePairSessHeader cr env h) = h_device h"
  "h_pairing h = None \<Longrightarrow> h_pairing (handlePairSessHeader cr env h) = None"
  by (simp_all add: handlePairSessHeader_def split: option.split sum.split)

lemma sendEncryptedOn_pairing:
  "sendEncryptedOn cr e push n ch k b pc tag i h = (push', n', h') \<Longrightarrow> h_pairing h' = h_pairing h"
  by (auto dest!: sendEncryptedOn_views(1) simp: pairing_view_def)

lemma handlePairIdentity_paired:
  assumes "map_option identity (h_device (handlePairIdentity cr e hdr body h)) \<noteq> map_option identity (h_device h)"
  shows "\<exists>p dev tracker name. h_pairing h = Some p \<and> pg_step p = 3 \<and> pair_identity_open cr p hdr body = Some (tracker, name)
    \<and> (hc_AutoConfirm (h_cfg h) \<or> he_confirm e (h_tick h)) \<and> h_device (handlePairIdentity cr e hdr body h) = Some dev
    \<and> dr_deviceID dev = pg_deviceID p \<and> dr_devPK dev = pg_devPK p \<and> dr_name dev = name"
proof -
  obtain p where p: "h_pairing h = Some p" "pg_step p = 3"
    using assms by (auto simp: handlePairIdentity_def split: option.splits if_splits)
  obtain tracker name where o: "pair_identity_open cr p hdr body = Some (tracker, name)"
    using assms p by (cases "pair_identity_open cr p hdr body") (auto simp: handlePairIdentity_def)
  have c: "hc_AutoConfirm (h_cfg h) \<or> he_confirm e (h_tick h)"
  proof (rule ccontr)
    assume "\<not> ?thesis"
    then have "h_device (handlePairIdentity cr e hdr body h) = h_device h"
      using p o by (auto simp: handlePairIdentity_def Let_def split: prod.split dest!: sendEncryptedOn_views(3))
    with assms show False by simp
  qed
  have "\<exists>dev. h_device (handlePairIdentity cr e hdr body h) = Some dev \<and> dr_deviceID dev = pg_deviceID p \<and> dr_devPK dev = pg_devPK p \<and> dr_name dev = name"
    using assms p o c by (auto simp: handlePairIdentity_def host_Read_def host_post_def Let_def split: prod.splits option.splits if_splits)
  with p o c show ?thesis by blast
qed

lemma handleSessionFrame_pairing: "h_pairing (handleSessionFrame cr e hdr body h) = h_pairing h"
  "map_option identity (h_device (handleSessionFrame cr e hdr body h)) = map_option identity (h_device h)"
  using handleSessionFrame_pairing_view [of cr e hdr body h] by (simp_all add: pairing_view_def)

lemma handleBinary_no_init:
  assumes "pair_init_of h f = None"
  shows "handleBinary cr e f h = h \<or> handleBinary cr e f h = pairFail h \<or> (\<exists>env. handleBinary cr e f h = handlePairSessHeader cr env h)
      \<or> (\<exists>hdr body. wire_DecodeFrame f = Inr (hdr, body)
          \<and> (handleBinary cr e f h = handlePairIdentity cr e hdr body h \<or> handleBinary cr e f h = handleSessionFrame cr e hdr body h))"
proof (cases "wire_DecodeFrame f")
  case (Inl x)
  then show ?thesis by (simp add: handleBinary_def)
next
  case (Inr x)
  then obtain hdr body where f: "wire_DecodeFrame f = Inr (hdr, body)" by (cases x) simp
  show ?thesis
  proof (cases "hd_Channel hdr = h_provChannelWire h \<and> h_provChannelWire h \<noteq> [] \<and> hd_Seq hdr = 0")
    case True
    then have *: "handleBinary cr e f h = (case ParseEnvelope body of Inl _ \<Rightarrow> h | Inr env \<Rightarrow>
         if ev_Kind env = ''pair.init'' then handlePairInit cr e env h else if ev_Kind env = ''sess.header'' then handlePairSessHeader cr env h else h)"
      by (simp add: handleBinary_def handlePairingFrame_def f)
    have "ParseEnvelope body = Inr env \<Longrightarrow> ev_Kind env = ''pair.init'' \<Longrightarrow> handlePairInit cr e env h = pairFail h" for env
      using assms True f by (simp add: pair_init_of_def handlePairInit_def)
    then show ?thesis unfolding * by (cases "ParseEnvelope body") auto
  next
    case False
    then show ?thesis unfolding handleBinary_def f handlePairingFrame_def by auto
  qed
qed

text \<open>A frame that proves the displayed code: a pairing request whose MAC, over the device's id, key and
  nonce, is the one the live token gives, for a device not paired already. It spends the token.\<close>

definition proves_code :: "primitives \<Rightarrow> host_env \<Rightarrow> Host \<Rightarrow> Host \<Rightarrow> bytes \<Rightarrow> bytes \<Rightarrow> bool" where
  "proves_code cr e s s' did pk \<longleftrightarrow> (\<exists>f nD mac. s' = handleBinary cr e f s \<and> pair_init_of s f = Some (did, pk, nD, mac)
     \<and> right_mac cr s (did, pk, nD, mac) \<and> h_tokenLive s \<and> \<not> h_tokenLive s' \<and> map_option dr_deviceID (h_device s) \<noteq> Some did)"

text \<open>A frame that ends a pairing with a new device: the pairing had reached its last step, the frame opens
  under its session keys with the right confirmation, and the user (or \<open>AutoConfirm\<close>) says yes.\<close>

definition admits_device :: "primitives \<Rightarrow> host_env \<Rightarrow> Host \<Rightarrow> Host \<Rightarrow> deviceRecord \<Rightarrow> bool" where
  "admits_device cr e t t' dev \<longleftrightarrow> (\<exists>f hdr body p tracker. t' = handleBinary cr e f t \<and> wire_DecodeFrame f = Inr (hdr, body)
     \<and> h_pairing t = Some p \<and> pg_step p = 3 \<and> pg_deviceID p = dr_deviceID dev \<and> pg_devPK p = dr_devPK dev
     \<and> pair_identity_open cr p hdr body = Some (tracker, dr_name dev) \<and> (hc_AutoConfirm (h_cfg t) \<or> he_confirm e (h_tick t)) \<and> h_device t' = Some dev)"

lemma handlePairSessHeader_same:
  "h_pairing (handlePairSessHeader cr env h) = Some p \<Longrightarrow> \<exists>q. h_pairing h = Some q \<and> pg_deviceID q = pg_deviceID p \<and> pg_devPK q = pg_devPK p"
  by (auto simp: handlePairSessHeader_def split: option.splits if_splits sum.splits)

lemma handlePairIdentity_same: "h_pairing (handlePairIdentity cr e hdr body h) = None \<or> h_pairing (handlePairIdentity cr e hdr body h) = h_pairing h"
  by (simp add: handlePairIdentity_def host_Read_def host_post_def Let_def split: option.split prod.split)

lemma window_pairing: "h_pairing (snd (OpenPairingWindow cr e resp h)) = h_pairing h" "h_device (snd (OpenPairingWindow cr e resp h)) = h_device h"
  by (simp_all add: OpenPairingWindow_def host_Read_def host_Now_def Let_def split: option.split)

lemma view_pairing: "pairing_view h' = pairing_view h \<Longrightarrow> h_pairing h' = h_pairing h \<and> map_option identity (h_device h') = map_option identity (h_device h)"
  by (simp add: pairing_view_def)

text \<open>A frame that is no pairing request leaves the pairing in flight, if it leaves one, with its device; one
  that is puts its own device there.\<close>

lemma binary_pairing:
  assumes "h_pairing (handleBinary cr e f h) = Some p"
  shows "(\<exists>q. h_pairing h = Some q \<and> pg_deviceID q = pg_deviceID p \<and> pg_devPK q = pg_devPK p)
    \<or> proves_code cr e h (handleBinary cr e f h) (pg_deviceID p) (pg_devPK p)"
proof (cases "pair_init_of h f")
  case (Some x)
  obtain did pk nD mac where x: "x = (did, pk, nD, mac)" by (cases x)
  note init = handleBinary_init [OF Some [unfolded x], of cr e]
  have ok: "h_tokenLive h" "right_mac cr h (did, pk, nD, mac)" "map_option dr_deviceID (h_device h) \<noteq> Some did"
    and h': "handleBinary cr e f h = pair_begin_session cr e did pk nD (h\<lparr>h_tokenLive := False\<rparr>)"
    using assms unfolding init by (auto split: if_splits)
  from assms have "pg_deviceID p = did" "pg_devPK p = pk" unfolding h' using pair_begin_session_fields(1) by blast+
  moreover have "\<not> h_tokenLive (handleBinary cr e f h)" by (simp add: h' pair_begin_session_fields(2))
  ultimately show ?thesis using Some ok unfolding x proves_code_def by blast
next
  case None
  from handleBinary_no_init [OF None, of cr e] assms show ?thesis
    using handlePairSessHeader_same handlePairIdentity_same handleSessionFrame_pairing(1) by (metis option.distinct(1) pairFail_fields(1))
qed

lemma step_view:
  assumes "host_step cr e h h'" shows "(\<exists>data. h' = handleBinary cr e data h) \<or> pairing_view h' = pairing_view h"
  using assms by cases (auto simp: approval_timeout_def)

lemma life_pairing:
  assumes "host_life cr e h h'" "h_pairing h' = Some p"
  shows "(\<exists>q. h_pairing h = Some q \<and> pg_deviceID q = pg_deviceID p \<and> pg_devPK q = pg_devPK p)
    \<or> proves_code cr e h h' (pg_deviceID p) (pg_devPK p)"
  using assms(1)
proof cases
  case runs
  from step_view [OF this] consider data where "h' = handleBinary cr e data h" | "pairing_view h' = pairing_view h" by blast
  then show ?thesis
  proof cases
    case 1
    then show ?thesis using binary_pairing [of cr e _ h p] assms(2) by blast
  next
    case 2
    then show ?thesis using view_pairing [OF 2] assms(2) by metis
  qed
next
  case (window resp)
  then show ?thesis using assms(2) by (simp add: window_pairing)
qed

lemma binary_device:
  assumes "map_option identity (h_device (handleBinary cr e f h)) \<noteq> map_option identity (h_device h)"
  shows "\<exists>dev. admits_device cr e h (handleBinary cr e f h) dev"
proof -
  have "pair_init_of h f = None"
  proof (rule ccontr)
    assume "\<not> ?thesis"
    then obtain did pk nD mac where "pair_init_of h f = Some (did, pk, nD, mac)" by (metis not_None_eq prod_cases4)
    from handleBinary_init [OF this, of cr e] assms show False by (simp add: pair_begin_session_fields split: if_splits)
  qed
  from handleBinary_no_init [OF this, of cr e] assms obtain hdr body where f: "wire_DecodeFrame f = Inr (hdr, body)"
    and h': "handleBinary cr e f h = handlePairIdentity cr e hdr body h"
    by (auto simp: handlePairSessHeader_fields handleSessionFrame_pairing)
  from handlePairIdentity_paired [of cr e hdr body h] assms f show ?thesis
    unfolding h' admits_device_def by (metis h')
qed

lemma life_device:
  assumes "host_life cr e h h'" "map_option identity (h_device h') \<noteq> map_option identity (h_device h)"
  shows "\<exists>dev. admits_device cr e h h' dev"
  using assms(1)
proof cases
  case runs
  from step_view [OF this] consider data where "h' = handleBinary cr e data h" | "pairing_view h' = pairing_view h" by blast
  then show ?thesis
  proof cases
    case 1
    then show ?thesis using binary_device [of cr e _ h] assms(2) by blast
  next
    case 2
    then show ?thesis using view_pairing [OF 2] assms(2) by auto
  qed
next
  case (window resp)
  then show ?thesis using assms(2) by (simp add: window_pairing)
qed

text \<open>What a run from \<open>h0\<close> has shown of a pairing in flight, and of the paired device.\<close>

definition proved_in :: "primitives \<Rightarrow> host_env \<Rightarrow> Host \<Rightarrow> Host \<Rightarrow> bytes \<Rightarrow> bytes \<Rightarrow> bool" where
  "proved_in cr e h0 h did pk \<longleftrightarrow> (\<exists>s s'. (host_life cr e)\<^sup>*\<^sup>* h0 s \<and> proves_code cr e s s' did pk \<and> (host_life cr e)\<^sup>*\<^sup>* s' h)"

definition paired_in :: "primitives \<Rightarrow> host_env \<Rightarrow> Host \<Rightarrow> Host \<Rightarrow> bool" where
  "paired_in cr e h0 h \<longleftrightarrow> (\<exists>t t' dev. (host_life cr e)\<^sup>*\<^sup>* h0 t \<and> proved_in cr e h0 t (dr_deviceID dev) (dr_devPK dev)
     \<and> admits_device cr e t t' dev \<and> (host_life cr e)\<^sup>*\<^sup>* t' h \<and> map_option identity (h_device h) = Some (identity dev))"

lemma proved_in_step: "proved_in cr e h0 h did pk \<Longrightarrow> host_life cr e h h' \<Longrightarrow> proved_in cr e h0 h' did pk"
  unfolding proved_in_def by (meson rtranclp.rtrancl_into_rtrancl)

lemma authenticated_run:
  assumes "(host_life cr e)\<^sup>*\<^sup>* h0 h" "h_pairing h0 = None"
  shows "(\<forall>p. h_pairing h = Some p \<longrightarrow> proved_in cr e h0 h (pg_deviceID p) (pg_devPK p))
    \<and> (map_option identity (h_device h) \<noteq> map_option identity (h_device h0) \<longrightarrow> paired_in cr e h0 h)"
  using assms(1)
proof (induction rule: rtranclp_induct)
  case (step h h')
  have fly: "proved_in cr e h0 h' (pg_deviceID p) (pg_devPK p)" if "h_pairing h' = Some p" for p
    using life_pairing [OF step.hyps(2) that]
  proof
    assume "\<exists>q. h_pairing h = Some q \<and> pg_deviceID q = pg_deviceID p \<and> pg_devPK q = pg_devPK p"
    then show ?thesis using step.IH proved_in_step [OF _ step.hyps(2)] by metis
  next
    assume "proves_code cr e h h' (pg_deviceID p) (pg_devPK p)"
    with step.hyps(1) show ?thesis unfolding proved_in_def by blast
  qed
  have "paired_in cr e h0 h'" if "map_option identity (h_device h') \<noteq> map_option identity (h_device h0)"
  proof (cases "map_option identity (h_device h') = map_option identity (h_device h)")
    case True
    with that step.IH have "paired_in cr e h0 h" by simp
    with step.hyps(2) True show ?thesis unfolding paired_in_def by (metis rtranclp.rtrancl_into_rtrancl)
  next
    case False
    obtain dev where d: "admits_device cr e h h' dev" using life_device [OF step.hyps(2) False] by blast
    then have "proved_in cr e h0 h (dr_deviceID dev) (dr_devPK dev)" "h_device h' = Some dev"
      using step.IH by (auto simp: admits_device_def)
    with d step.hyps(1) show ?thesis unfolding paired_in_def by auto
  qed
  with fly show ?case by blast
qed (simp add: assms(2))

text \<open>C13. Only a device that knows the displayed token and is confirmed gets paired. Take any history of frames,
  timers, script and windows from a host with no pairing in flight. A pairing in flight at its end was
  put there, in that history, by a pairing request whose MAC, over this device's id and key, is the one
  the then live token gives, which it spent. And if the paired device (its id, key, channel or
  keys) is not what it was at the start, there was an instant at which a frame ended a pairing of just this
  device, with the right confirmation under its session keys and the user's consent (or \<open>AutoConfirm\<close>), and
  before it one at which this device proved the code.\<close>

theorem pairing_authenticated:
  assumes "h_pairing h0 = None" "(host_life cr e)\<^sup>*\<^sup>* h0 h"
  shows "(\<forall>p. h_pairing h = Some p \<longrightarrow> (\<exists>s s'. (host_life cr e)\<^sup>*\<^sup>* h0 s \<and> proves_code cr e s s' (pg_deviceID p) (pg_devPK p) \<and> (host_life cr e)\<^sup>*\<^sup>* s' h))
    \<and> (map_option identity (h_device h) \<noteq> map_option identity (h_device h0) \<longrightarrow>
        (\<exists>s s' t t' dev. (host_life cr e)\<^sup>*\<^sup>* h0 s \<and> proves_code cr e s s' (dr_deviceID dev) (dr_devPK dev) \<and> (host_life cr e)\<^sup>*\<^sup>* s' t
          \<and> admits_device cr e t t' dev \<and> (host_life cr e)\<^sup>*\<^sup>* t' h \<and> map_option identity (h_device h) = Some (identity dev)))"
  using authenticated_run [OF assms(2,1)] unfolding paired_in_def proved_in_def by blast

section \<open>How an approval is decided\<close>

text \<open>The specification: an approval is asked for, a command is noted in the ledger, or a pending approval
  is decided, once, with its record.\<close>

definition lawful :: "string \<Rightarrow> string \<Rightarrow> bool" where
  "lawful source decision \<longleftrightarrow> source = ''remote'' \<and> decision \<in> {''allow_once'', ''deny''} \<or> source = ''timeout'' \<and> decision = ''deny''"

definition ledger_field :: "string \<Rightarrow> json \<Rightarrow> string" where
  "ledger_field k r = (case r of JObj ms \<Rightarrow> (case map_of ms k of Some (JStr s) \<Rightarrow> s | _ \<Rightarrow> []) | _ \<Rightarrow> [])"

inductive approval_step :: "(string, pendingApproval) gomap \<times> (string, ApprovalResolved) gomap \<times> json list
    \<Rightarrow> (string, pendingApproval) gomap \<times> (string, ApprovalResolved) gomap \<times> json list \<Rightarrow> bool" where
  ask: "approval_step (pend, res, led) (mput i p pend, res, led)"
| note_command: "ledger_field ''kind'' r = ''remote.command'' \<Longrightarrow> approval_step (pend, res, led) (pend, res, led @ [r])"
| decide: "mget res i = None \<Longrightarrow> mget pend i = Some p \<Longrightarrow> av_ApprovalID r = i \<Longrightarrow> lawful (av_Source r) (av_Decision r) \<Longrightarrow>
    approval_step (pend, res, led) (mdel i pend, mput i r res, led @ [approval_record (pa_req p) r dev])"

lemma ledgerCommand_step: "approval_step (approval_view h) (approval_view (ledgerCommand m res why h))"
proof -
  let ?r = "JObj ([(''device_id'', JStr (host_deviceID h)), (''kind'', JStr ''remote.command''),
       (''method'', JStr m)] @ (if why \<noteq> [] then [(''reason'', JStr why)] else []) @ [(''result'', JStr res)])"
  have "approval_view (ledgerCommand m res why h) = (h_pending h, h_resolved h, h_ledger h @ [?r])"
    by (simp add: ledgerCommand_def ledger_def approval_view_def)
  then show ?thesis by (simp add: approval_view_def approval_step.note_command ledger_field_def)
qed

lemma approval_note: "approval_step\<^sup>*\<^sup>* v (approval_view h) \<Longrightarrow> approval_step\<^sup>*\<^sup>* v (approval_view (ledgerCommand m res why h))"
  by (erule rtranclp.rtrancl_into_rtrancl) (rule ledgerCommand_step)

lemma approval_view_ledger:
  "approval_view (ledger x h) = (fst (approval_view h), fst (snd (approval_view h)), snd (snd (approval_view h)) @ [x])"
  by (simp add: ledger_def approval_view_def)

lemma resolveApproval_view:
  assumes "mget (h_resolved h) i = None" "mget (h_pending h) i = Some p"
  obtains r where "av_ApprovalID r = i" "av_Source r = source" "av_Decision r = decision"
    "approval_view (snd (resolveApproval cr e i decision source dev h))
      = (mdel i (h_pending h), mput i r (h_resolved h), h_ledger h @ [approval_record (pa_req p) r dev])"
  by (rule that [of "fst (fst (resolveApproval cr e i decision source dev h))"];
      simp add: resolveApproval_def assms host_Now_def Let_def approval_view_ledger; simp add: approval_view_def)

lemma resolveApproval_step:
  assumes "lawful source decision"
  shows "approval_step\<^sup>*\<^sup>* (approval_view h) (approval_view (snd (resolveApproval cr e i decision source dev h)))"
proof (cases "mget (h_resolved h) i = None \<and> mget (h_pending h) i \<noteq> None")
  case False
  then show ?thesis by (auto simp: resolveApproval_def split: option.splits)
next
  case True
  then obtain p where p: "mget (h_resolved h) i = None" "mget (h_pending h) i = Some p" by auto
  obtain r where r: "av_ApprovalID r = i" "av_Source r = source" "av_Decision r = decision"
    "approval_view (snd (resolveApproval cr e i decision source dev h))
      = (mdel i (h_pending h), mput i r (h_resolved h), h_ledger h @ [approval_record (pa_req p) r dev])"
    by (rule resolveApproval_view [OF p])
  have "approval_step (h_pending h, h_resolved h, h_ledger h)
      (mdel i (h_pending h), mput i r (h_resolved h), h_ledger h @ [approval_record (pa_req p) r dev])"
    using p r assms by (intro approval_step.decide) simp_all
  with r(4) show ?thesis by (simp add: approval_view_def [of h] r_into_rtranclp)
qed

lemma handle_decide_step: "approval_step\<^sup>*\<^sup>* (approval_view h) (approval_view (handle_decide cr e i req h))"
proof -
  have rej: "approval_step\<^sup>*\<^sup>* (approval_view h) (approval_view h') \<Longrightarrow> approval_step\<^sup>*\<^sup>* (approval_view h) (approval_view (ledgerCommand m x why h'))" for m x why h'
    by (rule approval_note)
  show ?thesis
  proof (cases "into_decideParams (rr_Params req)")
    case None
    then show ?thesis using rej [OF rtranclp.rtrancl_refl] by (simp add: handle_decide_def)
  next
    case (Some p)
    let ?d = "if dc_Decision p = ''allow'' then ''allow_once'' else ''deny''"
    obtain res applied h1 where x: "resolveApproval cr e (dc_ApprovalID p) ?d ''remote'' (host_deviceID h) h = ((res, applied), h1)"
      by (metis prod.exhaust)
    have "approval_step\<^sup>*\<^sup>* (approval_view h) (approval_view h1)"
      using resolveApproval_step [of "''remote''" ?d h cr e "dc_ApprovalID p" "host_deviceID h"] x by (simp add: lawful_def)
    then show ?thesis
      using rej [OF rtranclp.rtrancl_refl] rej by (simp add: handle_decide_def Some x split: option.split)
  qed
qed

lemma handleRPC_step: "approval_step\<^sup>*\<^sup>* (approval_view h) (approval_view (handleRPC cr e i req h))"
  using handle_decide_step approval_note [OF rtranclp.rtrancl_refl]
  by (simp add: handleRPC_def handle_transcript_def host_Now_def Let_def split: option.split)

lemma handleSessionFrame_step: "approval_step\<^sup>*\<^sup>* (approval_view h) (approval_view (handleSessionFrame cr e hdr body h))"
proof -
  have env: "approval_step\<^sup>*\<^sup>* (approval_view h) (approval_view (handle_session_envelope cr e env h))" for env h
    using handleRPC_step by (simp add: handle_session_envelope_def split: option.split sum.split)
  have "approval_step\<^sup>*\<^sup>* (approval_view h) (approval_view (handle_session_envelope cr e env (h\<lparr>h_device := d, h_sess := s\<rparr>)))" for env d s
    using env [of "h\<lparr>h_device := d, h_sess := s\<rparr>" env] by simp
  then show ?thesis
    unfolding handleSessionFrame_def by (simp add: Let_def split: option.split sum.split prod.split)
qed

lemma raiseApproval_view:
  "approval_view (raiseApproval cr e h) = approval_view h
    \<or> (\<exists>p. approval_view (raiseApproval cr e h) = (mput (''rid-'' @ hex_encode (the (he_rand e (h_tick h) 12))) p (h_pending h), h_resolved h, h_ledger h))"
  "h_sess h = Some s \<Longrightarrow> se_step s = 3 \<Longrightarrow> he_rand e (h_tick h) 12 = Some b
    \<Longrightarrow> \<exists>p. approval_view (raiseApproval cr e h) = (mput (''rid-'' @ hex_encode b) p (h_pending h), h_resolved h, h_ledger h)"
  by (auto simp: raiseApproval_def host_Read_def host_Now_def Let_def split: option.split) (auto simp: approval_view_def)

lemma raiseApproval_step: "approval_step\<^sup>*\<^sup>* (approval_view h) (approval_view (raiseApproval cr e h))"
  using raiseApproval_view(1) [of cr e h] approval_step.ask [of "h_pending h" "h_resolved h" "h_ledger h"]
  by (auto simp: approval_view_def [of h] r_into_rtranclp)

lemma host_life_step:
  assumes "host_life cr e h h'" shows "approval_step\<^sup>*\<^sup>* (approval_view h) (approval_view h')"
  using assms
proof cases
  case runs
  then show ?thesis
  proof cases
    case (binary data)
    then show ?thesis using handleSessionFrame_step by (simp add: handleBinary_def split: sum.split option.split)
  next
    case (timeout i)
    then show ?thesis using resolveApproval_step [of "''timeout''" "''deny''" h cr e i "[]"] by (simp add: approval_timeout_def lawful_def)
  next
    case approval
    then show ?thesis by (simp add: raiseApproval_step)
  qed simp_all
next
  case (window resp)
  have "approval_view (h'\<lparr>h_windowID := a\<rparr>) = approval_view h'" "approval_view (h'\<lparr>h_provChannelWire := a\<rparr>) = approval_view h'"
    "approval_view (h'\<lparr>h_token := b\<rparr>) = approval_view h'" for a b h' by (simp_all add: approval_view_def)
  then have "approval_view (snd (OpenPairingWindow cr e resp h)) = approval_view h"
    by (simp add: OpenPairingWindow_def host_Read_def host_Now_def Let_def split: option.split)
  with window show ?thesis by simp
qed

text \<open>The records of a decision in the ledger.\<close>

definition decision_records :: "string \<Rightarrow> json list \<Rightarrow> json list" where
  "decision_records i led = filter (\<lambda>r. ledger_field ''kind'' r \<in> {''approval.granted'', ''approval.denied''} \<and> ledger_field ''approval_id'' r = i) led"

definition approvals_ok :: "(string, pendingApproval) gomap \<times> (string, ApprovalResolved) gomap \<times> json list \<Rightarrow> bool" where
  "approvals_ok = (\<lambda>(pend, res, led). \<forall>i. case mget res i of None \<Rightarrow> decision_records i led = []
     | Some r \<Rightarrow> lawful (av_Source r) (av_Decision r) \<and> (\<exists>x. decision_records i led = [x]
         \<and> ledger_field ''kind'' x = ledger_kind (av_Decision r) \<and> ledger_field ''source'' x = av_Source r))"

lemma approval_record_fields:
  "ledger_field ''kind'' (approval_record req r dev) = ledger_kind (av_Decision r)"
  "ledger_field ''approval_id'' (approval_record req r dev) = av_ApprovalID r"
  "ledger_field ''source'' (approval_record req r dev) = av_Source r"
  by (simp_all add: ledger_field_def approval_record_def)

lemma approval_step_ok: "approval_step v v' \<Longrightarrow> approvals_ok v \<Longrightarrow> approvals_ok v'"
proof (induction rule: approval_step.induct)
  case (note_command r pend res led)
  have "decision_records j (led @ [r]) = decision_records j led" for j by (simp add: decision_records_def note_command.hyps)
  then show ?case using note_command.prems by (simp add: approvals_ok_def cong: option.case_cong)
next
  case (decide res i pend p r led dev)
  let ?x = "approval_record (pa_req p) r dev"
  have "decision_records j (led @ [?x]) = decision_records j led @ (if j = i then [?x] else [])" for j
    using decide.hyps(3) by (auto simp: decision_records_def approval_record_fields ledger_kind_def)
  moreover have "decision_records i led = []" using decide.prems decide.hyps(1) by (auto simp: approvals_ok_def split: option.splits dest: spec [of _ i])
  ultimately show ?case
    using decide.prems decide.hyps(4) by (auto simp: approvals_ok_def approval_record_fields cong: option.case_cong)
qed (simp add: approvals_ok_def)

lemma approval_step_kept: "approval_step v v' \<Longrightarrow> mget (fst (snd v)) i = Some r \<Longrightarrow> mget (fst (snd v')) i = Some r"
  by (induction rule: approval_step.induct) auto

interpretation approvals: inductive_invariant "\<lambda>v. v = ([], [], [])" approval_step approvals_ok
proof
  show "v = ([], [], []) \<Longrightarrow> approvals_ok v" for v by (simp add: approvals_ok_def decision_records_def)
qed (rule approval_step_ok)

interpretation decided: inductive_invariant "\<lambda>v. mget (fst (snd v)) i = Some r" approval_step "\<lambda>v. mget (fst (snd v)) i = Some r" for i r
  by unfold_locales (simp_all add: approval_step_kept)

interpretation host_approvals: inductive_invariant "\<lambda>h. approval_view h = ([], [], [])" "host_life cr e" "\<lambda>h. approvals_ok (approval_view h)" for cr e
proof
  show "approval_view h = ([], [], []) \<Longrightarrow> approvals_ok (approval_view h)" for h by (simp add: approvals.start_inv)
  show "approvals_ok (approval_view h')" if "approvals_ok (approval_view h)" "host_life cr e h h'" for h h'
    using approvals.run_inv [OF host_life_step [OF that(2)] that(1)] .
qed

lemma host_life_kept: "host_life cr e h h' \<Longrightarrow> mget (h_resolved h) i = Some r \<Longrightarrow> mget (h_resolved h') i = Some r"
  using decided.run_inv [OF host_life_step, of cr e h h' i r] by (simp add: approval_view_def)

interpretation host_decided: inductive_invariant "\<lambda>h. mget (h_resolved h) i = Some r" "host_life cr e" "\<lambda>h. mget (h_resolved h) i = Some r" for cr e i r
  by unfold_locales (simp_all add: host_life_kept)

lemma approval_step_ledger: "approval_step v v' \<Longrightarrow> prefix l (snd (snd v)) \<Longrightarrow> prefix l (snd (snd v'))"
  by (induction rule: approval_step.induct) (auto simp: prefix_def)

interpretation ledger_grows: inductive_invariant "\<lambda>v. prefix l (snd (snd v))" approval_step "\<lambda>v. prefix l (snd (snd v))" for l
  by unfold_locales (simp_all add: approval_step_ledger)

interpretation host_ledger: inductive_invariant "\<lambda>h. h_ledger h = l" "host_life cr e" "\<lambda>h. prefix l (h_ledger h)" for cr e l
  using ledger_grows.run_inv [OF host_life_step] by unfold_locales (simp_all add: approval_view_def)

text \<open>C12. An approval is decided once. From a host that has asked for none yet, through any history of frames, timers, script and
  windows: a decision that has been taken is never changed; a decision taken from the phone is allow-once
  or deny (never allow-always), one taken by the timer is deny; and the ledger holds exactly one record
  of it, with the kind and the source of the decision, and none for an approval not decided.\<close>

theorem approval_decided_once:
  assumes "h_pending h0 = []" "h_resolved h0 = []" "h_ledger h0 = []" "(host_life cr e)\<^sup>*\<^sup>* h0 h" "(host_life cr e)\<^sup>*\<^sup>* h h'"
  shows "(case mget (h_resolved h) i of None \<Rightarrow> decision_records i (h_ledger h) = []
     | Some r \<Rightarrow> mget (h_resolved h') i = Some r \<and> lawful (av_Source r) (av_Decision r)
         \<and> (\<exists>x. decision_records i (h_ledger h) = [x] \<and> ledger_field ''kind'' x = ledger_kind (av_Decision r)
              \<and> ledger_field ''source'' x = av_Source r \<and> decision_records i (h_ledger h') = decision_records i (h_ledger h)))"
proof -
  have "approval_view h0 = ([], [], [])" using assms(1-3) by (simp add: approval_view_def)
  from host_approvals.always [of h0, OF this assms(4)] have h: "approvals_ok (approval_view h)" .
  from host_approvals.run_inv [OF assms(5) this] have h': "approvals_ok (approval_view h')" .
  show ?thesis
  proof (cases "mget (h_resolved h) i")
    case None
    then show ?thesis using h by (auto simp: approvals_ok_def approval_view_def dest: spec [of _ i])
  next
    case (Some r)
    from host_decided.run_inv [OF assms(5), of i r] Some have r: "mget (h_resolved h') i = Some r" .
    obtain pre where pre: "h_ledger h' = h_ledger h @ pre" using host_ledger.run_inv [OF assms(5), of "h_ledger h"] by (auto simp: prefix_def)
    show ?thesis using h h' Some r by (auto simp: approvals_ok_def approval_view_def pre decision_records_def dest!: spec [of _ i])
  qed
qed

section \<open>Concrete hosts\<close>

theorem spent_token_stays_spent_witness:
  "(host_step ex_crypto ex_henv)\<^sup>*\<^sup>* ex_paired (handleBinary ex_crypto ex_henv [0, 1, 2] ex_paired)
   \<and> \<not> h_tokenLive (handleBinary ex_crypto ex_henv [0, 1, 2] ex_paired)
   \<and> map_option identity (h_device (handleBinary ex_crypto ex_henv [0, 1, 2] ex_paired)) = Some (identity ex_record)"
proof -
  have "(host_step ex_crypto ex_henv)\<^sup>*\<^sup>* ex_paired (handleBinary ex_crypto ex_henv [0, 1, 2] ex_paired)"
    by (rule r_into_rtranclp) (rule host_step.binary)
  moreover have "\<not> h_tokenLive ex_paired" "h_pairing ex_paired = None" "h_device ex_paired = Some ex_record"
    by (simp_all add: ex_paired_def ex_endpoint_def)
  ultimately show ?thesis using spent_token_stays_spent by simp
qed

lemma pair_init_of_frame:
  assumes "crypto_laws cr" "length (px_deviceID px) = 16" "length (px_devPK px) = 32" "length (px_nD px) = 32"
    "h_provChannelWire h = EncodeChannelID c" "length c = 16"
  shows "pair_init_of h (init_frame cr px (EncodeChannelID c)) = Some (px_deviceID px, px_devPK px, px_nD px,
    MacPair cr V1 (Token (px_qr px)) (HostID (px_qr px)) (HostPK (px_qr px)) (px_deviceID px) (px_devPK px) (px_nD px) (pair_bind cr px))"
proof -
  have "wf_json (PairInit_json (pair_init_body cr px))" by (simp add: pair_init_body_def Let_def)
  moreover have "EncodeChannelID c \<noteq> []" using validID_length [OF validID_EncodeChannelID [OF assms(6)]] by auto
  ultimately show ?thesis using assms by (simp add: pair_init_of_def init_frame_def pair_init_fields_ok plain_char_def)
qed

lemma ex_open_fields: "h_provChannelWire ex_open_host = EncodeChannelID (replicate 16 5)" "h_token ex_open_host = replicate 32 0"
  "h_tokenLive ex_open_host" "h_pairing ex_open_host = None" "h_device ex_open_host = None" "h_hostID ex_open_host = h_hostID ex_endpoint"
  "h_hostPK ex_open_host = h_hostPK ex_endpoint" "h_cfg ex_open_host = h_cfg ex_endpoint" "h_hostSK ex_open_host = h_hostSK ex_endpoint" "h_conn ex_open_host"
  by (simp_all add: ex_open_host_def OpenPairingWindow_def host_Read_def host_Now_def ex_endpoint_def ex_henv_def ex_chan_def byte_of_def Let_def)

text \<open>A device that scanned another code.\<close>

definition ex_other_px :: pair_ctx where
  "ex_other_px = ex_px\<lparr>px_qr := (px_qr ex_px)\<lparr>Token := replicate 32 1\<rparr>\<rparr>"

lemma ex_px_widths: "length (px_deviceID ex_px) = 16" "length (px_devPK ex_px) = 32" "length (px_nD ex_px) = 32"
  using keypair_widths [OF ex_crypto_laws ex_keypair] by (simp_all add: ex_px_def)

lemma ex_mac: "length tok = 32 \<Longrightarrow> MacPair ex_crypto V1 tok a b c d f g = tok"
  by (simp add: MacPair_def keyedHash32_def ex_crypto_def)

theorem five_wrong_guesses_witness:
  "(\<exists>shown. OpenPairingWindow ex_crypto ex_henv (Some (''w'', ex_chan)) ex_endpoint = (Some shown, ex_open_host))
   \<and> \<not> h_tokenLive (fold (handleBinary ex_crypto ex_henv) (replicate 5 (init_frame ex_crypto ex_other_px ex_chan)) ex_open_host)"
proof -
  let ?f = "init_frame ex_crypto ex_other_px ex_chan"
  have "pair_init_of ex_open_host ?f = Some (px_deviceID ex_other_px, px_devPK ex_other_px, px_nD ex_other_px, replicate 32 1)"
    unfolding ex_chan_def using ex_px_widths ex_open_fields(1)
    by (subst pair_init_of_frame [OF ex_crypto_laws]) (simp_all add: ex_other_px_def ex_mac)
  moreover have "\<not> right_mac ex_crypto ex_open_host (did, pk, nD, replicate 32 1)" for did pk nD
    by (simp add: right_mac_def ex_mac ex_open_fields)
  ultimately have "\<forall>f \<in> set (replicate 5 ?f). \<exists>x. pair_init_of ex_open_host f = Some x \<and> \<not> right_mac ex_crypto ex_open_host x" by auto
  from five_wrong_guesses [OF ex_open _ this rtranclp.rtrancl_refl] ex_open show ?thesis by auto
qed

lemma fold_life: "(host_life cr e)\<^sup>*\<^sup>* h (fold (handleBinary cr e) fs h)"
proof (induction fs arbitrary: h)
  case (Cons f fs)
  have "host_life cr e h (handleBinary cr e f h)" by (intro host_life.runs host_step.binary)
  with Cons show ?case by (metis converse_rtranclp_into_rtranclp fold_simps(2))
qed simp

lemma exchange_life: "exchange cr e rnd px (p, fs, h) = (p', fs', h') \<Longrightarrow> (host_life cr e)\<^sup>*\<^sup>* h h'"
  using fold_life by (auto simp: exchange_def Let_def split: prod.splits)

lemma pairing_run_life: "pairing_run cr e rnd px prov h = (p, h') \<Longrightarrow> (host_life cr e)\<^sup>*\<^sup>* h h'"
  unfolding pairing_run_def Let_def by (auto split: prod.splits) (metis exchange_life prod_cases3 rtranclp_trans)

text \<open>The ceremony of the example, with its proof of the code and its consent.\<close>

lemma ex_pairing_run:
  "\<exists>st h' dev. pairing_run ex_crypto ex_henv (Some (replicate 24 8)) ex_px ex_chan ex_open_host = (PairDone st, h') \<and> h_device h' = Some dev"
proof -
  obtain roots where r: "DeviceRoots ex_crypto (px_devPK ex_px) (px_devSK ex_px) (h_hostPK ex_endpoint) = Inr roots"
    using ex_device_roots [of 3 2] by (auto simp: ex_px_def ex_endpoint_def)
  have k: "KXSeedKeypair ex_crypto (ex_seed 2) = Inr (h_hostPK ex_endpoint, h_hostSK ex_endpoint)" using ex_keypair by (simp add: ex_endpoint_def)
  have c: "pc_QRURI ex_pair_cfg = ex_uri" "pc_Sub ex_pair_cfg = hc_Sub (h_cfg ex_endpoint)" "utf8 (pc_DeviceName ex_pair_cfg)"
    "utf8 (pc_DeviceModel ex_pair_cfg)" "utf8 (hc_HostName (h_cfg ex_endpoint))" "\<forall>dev. h_device ex_endpoint = Some dev \<longrightarrow> dr_deviceID dev \<noteq> replicate 16 4"
    "length (h_hostID ex_endpoint) = 16" "h_conn ex_endpoint"
    by (simp_all add: ex_pair_cfg_def ex_endpoint_def plain_char_def)
  have "pair_ready ex_crypto (replicate 16 5) ex_px roots ex_open_host \<and> length (HostID (px_qr ex_px)) = 16 \<and> length (HostPK (px_qr ex_px)) = 32
    \<and> length (px_devSK ex_px) = 32 \<and> px_cfg ex_px = ex_pair_cfg"
    by (rule OpenPairingWindow_ready [OF ex_crypto_laws ex_henv_ok ex_clock_ok ex_open [unfolded ex_chan_def] k c(7) _ c(8) ex_pair_begin c(1,2) _ _ c(6) c(3-5) r]) simp_all
  from pairing_run_ok [OF ex_crypto_laws ex_henv_ok conjunct1 [OF this], of "replicate 24 8"] this show ?thesis by (auto simp: ex_chan_def)
qed

theorem pairing_authenticated_witness:
  "\<exists>s s' t t' dev. (host_life ex_crypto ex_henv)\<^sup>*\<^sup>* ex_open_host s \<and> proves_code ex_crypto ex_henv s s' (dr_deviceID dev) (dr_devPK dev)
     \<and> (host_life ex_crypto ex_henv)\<^sup>*\<^sup>* s' t \<and> admits_device ex_crypto ex_henv t t' dev"
proof -
  obtain st h' dev where run: "pairing_run ex_crypto ex_henv (Some (replicate 24 8)) ex_px ex_chan ex_open_host = (PairDone st, h')" and d: "h_device h' = Some dev"
    using ex_pairing_run by blast
  from pairing_authenticated [OF ex_open_fields(4) pairing_run_life [OF run]] d show ?thesis by (auto simp: ex_open_fields(5)) blast
qed

text \<open>A host in a session, whose approval runs into its timeout.\<close>

definition ex_busy :: Host where
  "ex_busy = ex_paired\<lparr>h_sess := Some (host_session (SessionKeys ex_crypto V1 ex_roots []) (newStream ex_crypto [] []) None 3)\<rparr>"

definition ex_rid :: string where
  "ex_rid = ''rid-'' @ hex_encode (replicate 12 0)"

theorem approval_decided_once_witness:
  "\<exists>r. mget (h_resolved (approval_timeout ex_crypto ex_henv ex_rid (raiseApproval ex_crypto ex_henv ex_busy))) ex_rid = Some r
     \<and> lawful (av_Source r) (av_Decision r)"
proof -
  let ?h1 = "raiseApproval ex_crypto ex_henv ex_busy"
  let ?h2 = "approval_timeout ex_crypto ex_henv ex_rid ?h1"
  have b: "h_pending ex_busy = []" "h_resolved ex_busy = []" "h_ledger ex_busy = []" "h_tick ex_busy = 0"
    by (simp_all add: ex_busy_def ex_paired_def ex_endpoint_def)
  have "\<exists>p. approval_view ?h1 = (mput (''rid-'' @ hex_encode (replicate 12 0)) p (h_pending ex_busy), h_resolved ex_busy, h_ledger ex_busy)"
    by (rule raiseApproval_view(2) [of _ "host_session (SessionKeys ex_crypto V1 ex_roots []) (newStream ex_crypto [] []) None 3"])
      (simp_all add: ex_busy_def host_session_def ex_henv_def ex_paired_def ex_endpoint_def byte_of_def)
  then obtain p where p: "mget (h_resolved ?h1) ex_rid = None" "mget (h_pending ?h1) ex_rid = Some p"
    by (auto simp: b approval_view_def ex_rid_def)
  obtain r where r: "approval_view ?h2 = (mdel ex_rid (h_pending ?h1), mput ex_rid r (h_resolved ?h1), h_ledger ?h1 @ [approval_record (pa_req p) r []])"
    unfolding approval_timeout_def using resolveApproval_view [OF p] by metis
  have run: "(host_life ex_crypto ex_henv)\<^sup>*\<^sup>* ex_busy ?h2"
    by (meson host_life.runs host_step.approval host_step.timeout r_into_rtranclp rtranclp.rtrancl_into_rtrancl)
  have "mget (h_resolved ?h2) ex_rid = Some r" using r by (simp add: approval_view_def)
  then show ?thesis using approval_decided_once [OF b(1-3) run rtranclp.rtrancl_refl, of ex_rid] by simp
qed

end
