(* ===== verification/Registry.thy ===== *)
theory Registry
  imports Run
begin

text \<open>
  What the relay promises, as a specification of its own: a table of channels, each with its host,
  device and account, and behind each channel a bounded queue of parked frames. A channel is
  registered once, for a host all of whose channels belong to one account, and stays as it is until
  it is revoked; a queue loses frames only from its old end, except that revoking a channel
  discards its queue. Every step of the relay is a sequence of steps of this specification: the
  stores, the indexes, the connections, timers and limiters are its implementation.
\<close>

section \<open>Specification\<close>

record entry =
  en_pairing :: string
  en_host :: string
  en_device :: string
  en_account :: string

type_synonym registry = "(string \<rightharpoonup> entry) \<times> (string \<Rightarrow> MailboxItem list)"

inductive spec_step :: "registry \<Rightarrow> registry \<Rightarrow> bool" where
  register: "routes ch = None \<Longrightarrow> parked ch = [] \<Longrightarrow>
    (\<And>c e'. routes c = Some e' \<Longrightarrow> en_pairing e' \<noteq> en_pairing e \<and> (en_host e' = en_host e \<longrightarrow> en_account e' = en_account e)) \<Longrightarrow>
    spec_step (routes, parked) (routes(ch \<mapsto> e), parked)"
| revoke: "routes ch \<noteq> None \<Longrightarrow> spec_step (routes, parked) (routes(ch := None), parked(ch := []))"
| park: "routes ch \<noteq> None \<Longrightarrow> validPushClass (mi_PushClass it) \<Longrightarrow> suffix xs (parked ch @ [it]) \<Longrightarrow> length xs \<le> 128 \<Longrightarrow>
    sum_list (map (\<lambda>it. length (mi_Body it)) xs) \<le> 4194304 \<Longrightarrow> spec_step (routes, parked) (routes, parked(ch := xs))"
| expire: "suffix xs (parked ch) \<Longrightarrow> spec_step (routes, parked) (routes, parked(ch := xs))"

inductive_cases spec_stepE: "spec_step R R'"

section \<open>Abstraction\<close>

definition entry_of :: "Pairing \<Rightarrow> entry" where
  "entry_of pr = \<lparr>en_pairing = pr_PairingID pr, en_host = pr_HostID pr, en_device = pr_DeviceID pr, en_account = pr_AccountSub pr\<rparr>"

definition routes_of :: "MemStore \<Rightarrow> string \<rightharpoonup> entry" where
  "routes_of s ch = map_option entry_of (PairingByChannel ch s)"

definition parked_of :: "MemStore \<Rightarrow> string \<Rightarrow> MailboxItem list" where
  "parked_of s ch = (case mget (ms_mailboxes s) ch of None \<Rightarrow> [] | Some mb \<Rightarrow> mb_items mb)"

definition registry_of :: "MemStore \<Rightarrow> registry" where
  "registry_of s = (routes_of s, parked_of s)"

lemma registry_frame:
  assumes "ms_pairings s' = ms_pairings s" "ms_byChannel s' = ms_byChannel s"
  shows "routes_of s' = routes_of s" "ms_mailboxes s' = ms_mailboxes s \<Longrightarrow> registry_of s' = registry_of s"
proof -
  show r: "routes_of s' = routes_of s"
    using PairingByChannel_frame [OF assms] by (simp add: routes_of_def fun_eq_iff)
  show "ms_mailboxes s' = ms_mailboxes s \<Longrightarrow> registry_of s' = registry_of s"
    by (simp add: registry_of_def r parked_of_def fun_eq_iff)
qed

lemma registry_label: "registry_of (SetHostLabel i l s) = registry_of s"
proof -
  have "map_option entry_of (PairingByChannel ch (SetHostLabel i l s)) = map_option entry_of (PairingByChannel ch s)" for ch
    by (auto simp: SetHostLabel_def PairingByChannel_def entry_of_def split: option.splits)
  then show ?thesis by (simp add: registry_of_def routes_of_def parked_of_def fun_eq_iff)
qed

lemma registry_create:
  assumes inv: "store_inv s" "accounts_inv s" "mailboxes_inv pol s" and fresh: "fresh_pairing pr s"
    and acct: "live_account (pr_HostID pr) t s = Some (pr_AccountSub pr)"
  shows "spec_step\<^sup>=\<^sup>= (registry_of s) (registry_of (snd (CreatePairing pr s)))"
proof (cases "PairingByChannel (pr_ChannelID pr) s")
  case (Some q)
  then have "snd (CreatePairing pr s) = s" by (auto simp: CreatePairing_def PairingByChannel_def split: option.splits)
  then show ?thesis by simp
next
  case None
  have r: "routes_of (snd (CreatePairing pr s)) = (routes_of s)(pr_ChannelID pr \<mapsto> entry_of pr)"
    using PairingByChannel_create [OF inv(1) None fresh] by (auto simp: routes_of_def fun_eq_iff)
  have p: "parked_of (snd (CreatePairing pr s)) = parked_of s" by (simp add: parked_of_def fun_eq_iff)
  have "mget (ms_mailboxes s) (pr_ChannelID pr) = None"
    using inv(3) None unfolding mailboxes_inv_def by (metis not_Some_eq)
  then have "routes_of s (pr_ChannelID pr) = None" "parked_of s (pr_ChannelID pr) = []"
    by (simp_all add: routes_of_def None parked_of_def)
  moreover have "en_pairing e' \<noteq> pr_PairingID pr \<and> (en_host e' = pr_HostID pr \<longrightarrow> en_account e' = pr_AccountSub pr)"
    if e: "routes_of s c = Some e'" for c e'
  proof -
    obtain q where q: "PairingByChannel c s = Some q" "e' = entry_of q" using e by (auto simp: routes_of_def)
    then have "mget (ms_pairings s) (pr_PairingID q) = Some q" using PairingByChannel_iff store_invD(1) [OF inv(1)] by blast
    moreover obtain b where "mget (ms_bindings s) (pr_HostID pr) = Some b" "bd_AccountSub b = pr_AccountSub pr"
      using live_account_binding [OF acct] by blast
    ultimately show ?thesis using fresh inv(2) q(2) by (fastforce simp: accounts_inv_def entry_of_def fresh_pairing_def)
  qed
  ultimately have "spec_step (registry_of s) ((routes_of s)(pr_ChannelID pr \<mapsto> entry_of pr), parked_of s)"
    unfolding registry_of_def by (intro spec_step.register) (simp_all add: entry_of_def)
  then show ?thesis by (simp add: registry_of_def r p)
qed

lemma registry_delete:
  assumes "store_inv s" "mget (ms_pairings s) i = Some pr"
  shows "spec_step (registry_of s) (registry_of (snd (DeletePairing i s)))"
proof -
  have "routes_of (snd (DeletePairing i s)) = (routes_of s)(pr_ChannelID pr := None)"
    "parked_of (snd (DeletePairing i s)) = (parked_of s)(pr_ChannelID pr := [])"
    using PairingByChannel_deleted [OF assms] DeletePairing_mailbox [OF assms(2)]
    by (auto simp: routes_of_def parked_of_def fun_eq_iff)
  moreover have "pr_PairingID pr = i" using pairings_invD(2) [OF store_invD(1) [OF assms(1)]] assms(2) by blast
  then have "routes_of s (pr_ChannelID pr) \<noteq> None"
    using PairingByChannel_iff [OF store_invD(1) [OF assms(1)], of "pr_ChannelID pr" pr] assms(2) by (simp add: routes_of_def)
  ultimately show ?thesis unfolding registry_of_def by (simp add: spec_step.revoke)
qed

lemma parked_bounds:
  assumes "within_caps (mailboxPolicy cfg) xs" "config_ok cfg"
  shows "length xs \<le> 128" "sum_list (map (\<lambda>it. length (mi_Body it)) xs) \<le> 4194304"
proof -
  have "int (sum_list (map (\<lambda>it. length (mi_Body it)) its)) = weight its" for its by (induction its) simp_all
  note this [of xs, symmetric]
  then show "length xs \<le> 128" "sum_list (map (\<lambda>it. length (mi_Body it)) xs) \<le> 4194304"
    using assms by (auto simp: within_caps_def mailboxPolicy_def config_ok_def)
qed

lemma registry_append:
  assumes inv: "store_inv s" "config_ok cfg" and it: "PairingByChannel ch s \<noteq> None" "validPushClass (mi_PushClass it)"
  shows "spec_step (registry_of s) (registry_of (AppendMailbox ch it (mailboxPolicy cfg) s))"
proof -
  let ?mb = "case mget (ms_mailboxes s) ch of None \<Rightarrow> empty_mailbox | Some mb \<Rightarrow> mb"
  let ?xs = "mb_items (mailbox_append it (mailboxPolicy cfg) ?mb)"
  have mb: "mb_inv ?mb"
    using store_invD(3) [OF inv(1)] by (auto simp: boxes_inv_def empty_mailbox_def mb_inv_def split: option.splits)
  have "mb_items ?mb = parked_of s ch" by (simp add: parked_of_def empty_mailbox_def split: option.split)
  then have x: "suffix ?xs (parked_of s ch @ [it])" using mailbox_append_suffix [OF mb] by metis
  have p: "parked_of (AppendMailbox ch it (mailboxPolicy cfg) s) = (parked_of s)(ch := ?xs)"
    by (simp add: parked_of_def AppendMailbox_def Let_def fun_eq_iff)
  have r: "routes_of (AppendMailbox ch it (mailboxPolicy cfg) s) = routes_of s" by (rule registry_frame) simp_all
  have "within_caps (mailboxPolicy cfg) ?xs" by (rule mailbox_append_caps [OF mb config_ok_pol [OF inv(2)]])
  from parked_bounds [OF this inv(2)] x it show ?thesis
    unfolding registry_of_def p r by (intro spec_step.park [of _ _ it]) (simp_all add: routes_of_def)
qed

lemma registry_fetch: "spec_step\<^sup>=\<^sup>= (registry_of s) (registry_of (snd (FetchMailbox ch a n t ttl s)))"
proof (cases "mget (ms_mailboxes s) ch")
  case None
  then show ?thesis by (simp add: FetchMailbox_def)
next
  case (Some mb)
  let ?s = "snd (FetchMailbox ch a n t ttl s)"
  have p: "parked_of ?s = (parked_of s)(ch := live t ttl (parked_of s ch))"
    using Some by (simp add: parked_of_def FetchMailbox_def split_beta fun_eq_iff)
  have r: "routes_of ?s = routes_of s" by (rule registry_frame) simp_all
  show ?thesis unfolding registry_of_def p r by (simp add: spec_step.expire)
qed

lemma spec_frame:
  "ms_pairings s' = ms_pairings s \<Longrightarrow> ms_byChannel s' = ms_byChannel s \<Longrightarrow> ms_mailboxes s' = ms_mailboxes s
    \<Longrightarrow> spec_step\<^sup>=\<^sup>= (registry_of s) (registry_of s')"
  using registry_frame(2) [of s' s] by simp

lemma store_effect_spec:
  assumes "store_effect r s" "relay_inv r"
  shows "spec_step\<^sup>=\<^sup>= (registry_of (rl_store r)) (registry_of s)"
proof -
  note I = relay_invD [OF assms(2)]
  show ?thesis
    using assms(1)
  proof cases
    case (se_create pr)
    then show ?thesis using registry_create [OF I(2-4)] by blast
  next
    case (se_delete i pr)
    then show ?thesis using registry_delete [OF I(2)] by simp
  next
    case (se_append ch it)
    then show ?thesis using registry_append [OF I(2,1)] by simp
  next
    case (se_fetch ch a n ttl)
    then show ?thesis using registry_fetch by simp
  next
    case (se_label i l)
    then show ?thesis by (simp add: registry_label)
  qed (rule spec_frame; simp)+
qed

section \<open>Simulation\<close>

text \<open>A functional refinement under an invariant: each step is a run of the specification, hence each
  run is.\<close>

locale simulation =
  fixes step :: "'s \<Rightarrow> 's \<Rightarrow> bool" and spec :: "'a \<Rightarrow> 'a \<Rightarrow> bool" and abs :: "'s \<Rightarrow> 'a" and inv :: "'s \<Rightarrow> bool"
  assumes simulates: "inv s \<Longrightarrow> step s s' \<Longrightarrow> spec\<^sup>*\<^sup>* (abs s) (abs s')"
    and keeps: "inv s \<Longrightarrow> step s s' \<Longrightarrow> inv s'"
begin

lemma run_simulated: "step\<^sup>*\<^sup>* s s' \<Longrightarrow> inv s \<Longrightarrow> spec\<^sup>*\<^sup>* (abs s) (abs s') \<and> inv s'"
  by (induction rule: rtranclp_induct) (auto intro: keeps dest: simulates)

end

interpretation effects_sim: simulation "\<lambda>r r'. prim r r' \<or> dev_prim r r'" spec_step "\<lambda>r. registry_of (rl_store r)" relay_inv
proof
  show "spec_step\<^sup>*\<^sup>* (registry_of (rl_store r)) (registry_of (rl_store r'))" if "relay_inv r" "prim r r' \<or> dev_prim r r'" for r r'
  proof -
    have "store_effect r (rl_store r')" using that(2) prim_store_effect dev_prim_store_effect by blast
    from store_effect_spec [OF this that(1)] show ?thesis by auto
  qed
  show "relay_inv r'" if "relay_inv r" "prim r r' \<or> dev_prim r r'" for r r'
    using that prim_inv dev_prim_inv by blast
qed

interpretation relay_sim: simulation sys_step spec_step "\<lambda>S. registry_of (rl_store (sy_relay S))" "\<lambda>S. relay_inv (sy_relay S)"
proof
  fix S S' assume S: "relay_inv (sy_relay S)" "sys_step S S'"
  have e: "changes (sy_relay S) (sy_relay S')" using sys_step_changes [OF S(2)] relay_invD(2) [OF S(1)] by blast
  show "spec_step\<^sup>*\<^sup>* (registry_of (rl_store (sy_relay S))) (registry_of (rl_store (sy_relay S')))"
    using effects_sim.run_simulated [OF e [unfolded changes_def] S(1)] by blast
  show "relay_inv (sy_relay S')" using changes_inv [OF e S(1)] .
qed

text \<open>C6. The relay implements the registry. Along every run of the system from a reachable state, whatever
  requests, messages, timers and clean-ups happen and in whatever order, the channels and the parked
  frames change only by steps of the specification; and a relay starts with none of either.\<close>

theorem relay_refines_registry:
  assumes "reachable S" "sys_step\<^sup>*\<^sup>* S S'"
  shows "spec_step\<^sup>*\<^sup>* (registry_of (rl_store (sy_relay S))) (registry_of (rl_store (sy_relay S')))
    \<and> spec_step\<^sup>*\<^sup>* (Map.empty, \<lambda>_. []) (registry_of (rl_store (sy_relay S)))"
proof
  show "spec_step\<^sup>*\<^sup>* (registry_of (rl_store (sy_relay S))) (registry_of (rl_store (sy_relay S')))"
    using relay_sim.run_simulated [OF assms(2) reachable_inv [OF assms(1)]] by blast
  obtain S0 where S0: "sys_init S0" "sys_step\<^sup>*\<^sup>* S0 S" using assms(1) by (auto simp: reachable_def)
  then obtain cfg d now where "New cfg (NewMemStore d) now = Inr (sy_relay S0)" by (auto simp: sys_init_def)
  then have d: "rl_store (sy_relay S0) = NewMemStore d" by (auto simp: New_def Let_def split: option.splits dest: arg_cong [where f = rl_store])
  have "registry_of (NewMemStore d) = (Map.empty, \<lambda>_. [])"
    by (simp add: registry_of_def routes_of_def parked_of_def fun_eq_iff PairingByChannel_def NewMemStore_def)
  then show "spec_step\<^sup>*\<^sup>* (Map.empty, \<lambda>_. []) (registry_of (rl_store (sy_relay S)))"
    using relay_sim.run_simulated [OF S0(2)] relay_machine.start_inv [OF S0(1)] d by simp
qed

theorem relay_refines_registry_witness:
  "spec_step\<^sup>*\<^sup>* (Map.empty, \<lambda>_. []) (registry_of (rl_store run6))
   \<and> (\<exists>e. routes_of (rl_store run6) (ex_id 7) = Some e \<and> en_account e = ''alice'') \<and> length (parked_of (rl_store run6) (ex_id 7)) = 1"
proof -
  have "spec_step\<^sup>*\<^sup>* (Map.empty, \<lambda>_. []) (registry_of (rl_store run6))"
    using relay_refines_registry [OF reachable_run6 rtranclp.rtrancl_refl] by (simp add: ex_sys_def)
  then show ?thesis by (simp add: routes_of_def parked_of_def PairingByChannel_def run_defs mget_def entry_of_def)
qed

end
