(* ===== verification/SessionRun.thy ===== *)
theory SessionRun
  imports HostRun
begin

text \<open>
  Use of an established session: the envelopes the host sends are received in order, and a
  decision taken on the phone reaches the host, is applied once and is answered. Both ends stay in
  step throughout.
\<close>

section \<open>Host to device\<close>

text \<open>A message the host sends: kind, id, body and push class.\<close>

type_synonym host_msg = "string \<times> string \<times> json \<times> string"

definition host_sends :: "primitives \<Rightarrow> host_env \<Rightarrow> host_msg list \<Rightarrow> Host \<Rightarrow> Host" where
  "host_sends cr e = fold (\<lambda>(kind, ident, body, pc) h. send_on_session cr e kind body pc ident h)"

definition sendable :: "host_msg \<Rightarrow> bool" where
  "sendable = (\<lambda>(kind, ident, body, pc). kind \<notin> set control_kinds \<and> utf8 kind \<and> utf8 ident \<and> wf_json body \<and> ParsePushClass pc \<noteq> None)"

text \<open>The device reads the frames one after the other.\<close>

fun recv_all :: "primitives \<Rightarrow> bool \<Rightarrow> bytes list \<Rightarrow> Session \<Rightarrow> (Envelope list \<times> Session) option" where
  "recv_all cr ok [] s = Some ([], s)"
| "recv_all cr ok (f # fs) s = (case Recv cr ok (WsBinary f) s of
     (Next env, s) \<Rightarrow> map_option (\<lambda>(envs, s). (env # envs, s)) (recv_all cr ok fs s) | _ \<Rightarrow> None)"

definition carries :: "Envelope \<Rightarrow> host_msg \<Rightarrow> bool" where
  "carries env = (\<lambda>(kind, ident, body, pc). ev_Kind env = kind \<and> ev_ID env = ident \<and> ev_Body env = Some body)"

lemma room_below:
  assumes "unat (q :: uint64) + Suc n < 2 ^ 64" shows "unat (q + 1) = unat q + 1" "q + 1 \<noteq> 0"
proof -
  have "unat q + 1 < 2 ^ 64" using assms by linarith
  then show u: "unat (q + 1) = unat q + 1" by (simp add: unat_word_ariths)
  show "q + 1 \<noteq> 0"
  proof
    assume "q + 1 = 0"
    then have "unat (q + 1) = 0" by simp
    with u show False by simp
  qed
qed

lemma send_on_session_counter:
  assumes "synced s h" "h_device h = Some dev"
  shows "map_option dr_h2dSent (h_device (send_on_session cr e kind body pc ident h)) = Some (dr_h2dSent dev + 1)"
proof -
  obtain hs where "h_sess h = Some hs" using assms(1) by (auto simp: synced_def)
  then show ?thesis using assms(2) by (simp add: send_on_session_def sendEncryptedOn_def Let_def split: sum.split option.split prod.split)
qed

text \<open>C9. An established session delivers. Whatever list of events, snapshots, approvals and responses the host
  sends on it, the device receives an envelope for each, in order, of the same kind, id and body, none
  lost and none twice, and the two ends are in step again after the last one, as long as the 64-bit
  counter does not run out.\<close>

theorem session_delivers:
  assumes "crypto_laws cr" "synced s h" "h_device h = Some dev" "unat (dr_h2dSent dev) + length msgs < 2 ^ 64" "\<forall>m \<in> set msgs. sendable m"
  shows "\<exists>fs envs s'. h_out (host_sends cr e msgs h) = h_out h @ fs \<and> recv_all cr ok fs s = Some (envs, s')
    \<and> list_all2 carries envs msgs \<and> synced s' (host_sends cr e msgs h)"
  using assms(2-5)
proof (induction msgs arbitrary: h s dev)
  case Nil
  then show ?case by (auto simp: host_sends_def)
next
  case (Cons m msgs)
  obtain kind ident body pc where m: "m = (kind, ident, body, pc)" by (cases m)
  have q: "dr_h2dSent dev + 1 \<noteq> 0" "unat (dr_h2dSent dev + 1) = unat (dr_h2dSent dev) + 1"
    using room_below [of "dr_h2dSent dev" "length msgs"] Cons.prems(3) by simp_all
  obtain b where ok: "kind \<notin> set control_kinds" "utf8 kind" "utf8 ident" "wf_json body" "ParsePushClass pc = Some b"
    using Cons.prems(4) by (auto simp: sendable_def m)
  let ?env = "NewPayload kind ident (he_now e (h_tick h)) body"
  obtain f h' s' where f: "send_on_session cr e kind body pc ident h = h'" "h_out h' = h_out h @ [f]"
    "Recv cr ok (WsBinary f) s = (Next ?env, s')" "synced s' h'" "dv_H2DLastSeen (ss_State s') = dr_h2dSent dev + 1"
    by (rule send_on_session_synced [OF assms(1) Cons.prems(1,2) q(1) ok(5,1) refl ParseEnvelope_payload [OF ok(2-4)]])
  obtain dev' where dev': "h_device h' = Some dev'" using f(4) by (auto simp: synced_def)
  have "dr_h2dSent dev' = dr_h2dSent dev + 1"
    using f(1) dev' send_on_session_counter [OF Cons.prems(1,2), of cr e kind body pc ident] by simp
  then have "unat (dr_h2dSent dev') + length msgs < 2 ^ 64" using Cons.prems(3) q(2) by simp
  from Cons.IH [OF f(4) dev' this] Cons.prems(4) obtain fs envs s'' where
    "h_out (host_sends cr e msgs h') = h_out h' @ fs" "recv_all cr ok fs s' = Some (envs, s'')" "list_all2 carries envs msgs" "synced s'' (host_sends cr e msgs h')"
    by auto
  moreover have "host_sends cr e (m # msgs) h = host_sends cr e msgs h'" by (simp add: host_sends_def m f(1))
  moreover have "carries ?env m" by (simp add: carries_def m NewPayload_def)
  ultimately show ?case using f(2,3) by (intro exI [of _ "f # fs"] exI [of _ "?env # envs"] exI [of _ s'']) simp
qed

section \<open>A decision from the phone\<close>

lemma synced_update [simp]:
  "synced s (h\<lparr>h_pending := a\<rparr>) = synced s h" "synced s (h\<lparr>h_resolved := b\<rparr>) = synced s h" "synced s (h\<lparr>h_ledger := c\<rparr>) = synced s h"
  "synced s (h\<lparr>h_tick := d\<rparr>) = synced s h"
  by (simp_all add: synced_def)

lemma hexd_plain: "n < 16 \<Longrightarrow> plain_char (hexd n)"
proof -
  have "plain_char (char_of m)" if "48 \<le> m" "m < 103" "m \<notin> {60, 62, 92 :: nat}" for m
    using that by (auto simp: plain_char_def dest!: arg_cong [where f = "of_char :: char \<Rightarrow> nat"])
  then show "n < 16 \<Longrightarrow> plain_char (hexd n)" by (auto simp: hexd_def)
qed

lemma hex_plain [simp]: "plain (hex_encode bs)"
proof -
  have "unat (b :: byte) div 16 < 16" for b using unsigned_less [of b] by (simp add: less_mult_imp_div_less)
  then show ?thesis by (auto simp: hex_encode_def plain_def list_all_iff hexd_plain)
qed

lemma sendEnvelope_attached:
  "synced s h \<Longrightarrow> h_device h = Some dev \<Longrightarrow> dr_attached dev \<Longrightarrow> sendEnvelope cr e k i b pc h = send_on_session cr e k b pc i h"
  by (auto simp: sendEnvelope_def synced_def)

lemma send_on_session_attached:
  "h_device h = Some dev \<Longrightarrow> map_option dr_attached (h_device (send_on_session cr e k b pc i h)) = Some (dr_attached dev)"
  by (auto simp: send_on_session_def split: option.split prod.split dest!: sendEncryptedOn_views(3))

definition decide_params :: "string \<Rightarrow> string \<Rightarrow> json" where
  "decide_params aid dec = JObj [(''approval_id'', JStr aid), (''decision'', JStr dec)]"

lemma into_decideParams_params [simp]:
  "into_decideParams (Some (decide_params aid dec)) = Some \<lparr>dc_ApprovalID = aid, dc_Decision = dec\<rparr>"
  by (simp add: into_decideParams_def decide_params_def rpc_strict_def into_defs)

lemma into_RPCRequest_json [simp]: "into_RPCRequest (RPCRequest_json m (Some p)) = Some \<lparr>rr_Method = m, rr_Params = Some p\<rparr>"
  by (simp add: into_RPCRequest_def RPCRequest_json_def into_defs)

text \<open>Sending one envelope on a session in step, with the device attached.\<close>

lemma sendEnvelope_synced:
  assumes cr: "crypto_laws cr" and sy: "synced s h" and dev: "h_device h = Some dev" "dr_attached dev" "unat (dr_h2dSent dev) + Suc n < 2 ^ 64"
    and msg: "sendable (kind, ident, body, pc)"
  obtains f h' s' env dev' where "sendEnvelope cr e kind ident body pc h = h'" "h_out h' = h_out h @ [f]" "Recv cr ok (WsBinary f) s = (Next env, s')"
    "carries env (kind, ident, body, pc)" "synced s' h'" "approval_view h' = approval_view h"
    "h_device h' = Some dev'" "dr_attached dev'" "unat (dr_h2dSent dev') + n < 2 ^ 64"
proof -
  obtain b where ok: "kind \<notin> set control_kinds" "utf8 kind" "utf8 ident" "wf_json body" "ParsePushClass pc = Some b"
    using msg by (auto simp: sendable_def)
  have q: "dr_h2dSent dev + 1 \<noteq> 0" "unat (dr_h2dSent dev + 1) = unat (dr_h2dSent dev) + 1" using room_below [OF dev(3)] by simp_all
  let ?env = "NewPayload kind ident (he_now e (h_tick h)) body"
  obtain f h' s' where f: "send_on_session cr e kind body pc ident h = h'" "h_out h' = h_out h @ [f]"
    "Recv cr ok (WsBinary f) s = (Next ?env, s')" "synced s' h'" "dv_H2DLastSeen (ss_State s') = dr_h2dSent dev + 1"
    by (rule send_on_session_synced [OF cr sy dev(1) q(1) ok(5,1) refl ParseEnvelope_payload [OF ok(2-4)]])
  obtain dev' where dev': "h_device h' = Some dev'" using f(4) by (auto simp: synced_def)
  have c: "dr_h2dSent dev' = dr_h2dSent dev + 1" "dr_attached dev'"
    using f(1) dev' send_on_session_counter [OF sy dev(1), of cr e kind body pc ident] send_on_session_attached [OF dev(1), of cr e kind body pc ident] dev(2)
    by simp_all
  show thesis
  proof (rule that [OF _ f(2,3) _ f(4) _ dev' c(2)])
    show "sendEnvelope cr e kind ident body pc h = h'" using sendEnvelope_attached [OF sy dev(1,2)] f(1) by simp
    show "carries ?env (kind, ident, body, pc)" by (simp add: carries_def NewPayload_def)
    show "approval_view h' = approval_view h" using send_on_session_views(2) f(1) by metis
    show "unat (dr_h2dSent dev') + n < 2 ^ 64" using dev(3) q(2) by (simp add: c(1))
  qed
qed

lemma wf_approval_json:
  "utf8 (av_ApprovalID r) \<Longrightarrow> utf8 (av_TaskID r) \<Longrightarrow> utf8 (av_Decision r) \<Longrightarrow> utf8 (av_Source r) \<Longrightarrow> utf8 (av_ResolvedAt r) \<Longrightarrow> wf_json (ApprovalResolved_json r)"
  "utf8 aid \<Longrightarrow> utf8 status \<Longrightarrow> utf8 (av_Decision r) \<Longrightarrow> utf8 (av_Source r) \<Longrightarrow> wf_json (decide_response aid status r)"
  by (simp_all add: ApprovalResolved_json_def decide_response_def plain_char_def)

text \<open>What a decision from the phone leaves in the ledger: the record of the approval, and that of the
  command.\<close>

definition decision_noted :: "string \<Rightarrow> string \<Rightarrow> string \<Rightarrow> string \<Rightarrow> json list \<Rightarrow> bool" where
  "decision_noted aid dec m did rs \<longleftrightarrow> (\<exists>x y. rs = [x, y]
     \<and> ledger_field ''kind'' x = (if dec = ''allow'' then ''approval.granted'' else ''approval.denied'')
     \<and> ledger_field ''approval_id'' x = aid \<and> ledger_field ''source'' x = ''remote'' \<and> ledger_field ''device_id'' x = did
     \<and> ledger_field ''kind'' y = ''remote.command'' \<and> ledger_field ''method'' y = m \<and> ledger_field ''result'' y = ''accepted''
     \<and> ledger_field ''device_id'' y = did)"

lemma approval_device: "av_Source r = ''remote'' \<Longrightarrow> ledger_field ''device_id'' (approval_record req r did) = did"
  by (simp add: ledger_field_def approval_record_def)

lemma host_deviceID_view: "pairing_view h' = pairing_view h \<Longrightarrow> host_deviceID h' = host_deviceID h"
  by (auto simp: pairing_view_def host_deviceID_def identity_def split: option.splits)

lemma host_deviceID_ledger [simp]: "host_deviceID (ledger r h) = host_deviceID h"
  by (simp add: host_deviceID_def ledger_def)

lemma ledger_appends: "h_ledger (ledger r h) = h_ledger h @ [r]"
  "h_ledger (ledgerCommand m res [] h) = h_ledger h @ [JObj [(''device_id'', JStr (host_deviceID h)), (''kind'', JStr ''remote.command''),
     (''method'', JStr m), (''result'', JStr res)]]"
  by (simp_all add: ledger_def ledgerCommand_def)

text \<open>The host's side of a decision on a pending approval.\<close>

lemma handle_decide_pending:
  assumes cr: "crypto_laws cr" and sy: "synced s h" and dev: "h_device h = Some dev" "dr_attached dev" "unat (dr_h2dSent dev) + 2 < 2 ^ 64"
    and ap: "mget (h_pending h) aid = Some p" "mget (h_resolved h) aid = None"
    and wf: "utf8 aid" "aid \<noteq> []" "utf8 (ar_TaskID (pa_req p))" "utf8 rid" "dec = ''allow'' \<or> dec = ''deny''"
  obtains r f1 f2 env1 env2 s2 where
    "mget (h_resolved (handle_decide cr e rid \<lparr>rr_Method = m, rr_Params = Some (decide_params aid dec)\<rparr> h)) aid = Some r"
    "av_Source r = ''remote''" "av_Decision r = (if dec = ''allow'' then ''allow_once'' else ''deny'')"
    "h_out (handle_decide cr e rid \<lparr>rr_Method = m, rr_Params = Some (decide_params aid dec)\<rparr> h) = h_out h @ [f1, f2]"
    "recv_all cr ok [f1, f2] s = Some ([env1, env2], s2)" "carries env1 (''approval.resolved'', [], ApprovalResolved_json r, ''attention'')"
    "carries env2 (''rpc.response'', rid, decide_response aid ''applied'' r, ''none'')"
    "synced s2 (handle_decide cr e rid \<lparr>rr_Method = m, rr_Params = Some (decide_params aid dec)\<rparr> h)"
    "mget (h_pending (handle_decide cr e rid \<lparr>rr_Method = m, rr_Params = Some (decide_params aid dec)\<rparr> h)) aid = None"
    "\<exists>rs. h_ledger (handle_decide cr e rid \<lparr>rr_Method = m, rr_Params = Some (decide_params aid dec)\<rparr> h) = h_ledger h @ rs
      \<and> decision_noted aid dec m (EncodeChannelID (dr_deviceID dev)) rs"
proof -
  let ?d = "if dec = ''allow'' then ''allow_once'' else ''deny''"
  define r where "r = \<lparr>av_ApprovalID = aid, av_TaskID = ar_TaskID (pa_req p), av_Decision = ?d, av_Source = ''remote'',
      av_ResolvedAt = TS (he_now e (h_tick h)), av_LatencyMS = Milliseconds (time_sub (he_now e (h_tick h + 1)) (parse_TS (ar_RequestedAt (pa_req p))))\<rparr>"
  define h1 where "h1 = h\<lparr>h_pending := mdel aid (h_pending h), h_tick := h_tick h + 2, h_resolved := mput aid r (h_resolved h)\<rparr>"
  have sy1: "synced s h1" "h_device h1 = Some dev" using sy dev by (simp_all add: h1_def)
  have room: "unat (dr_h2dSent dev) + Suc 1 < 2 ^ 64" using dev(3) by simp
  have msg1: "sendable (''approval.resolved'', [], ApprovalResolved_json r, ''attention'')"
    using wf by (auto simp: sendable_def r_def control_kinds_def plain_char_def utf8.simps [of "[]"] intro!: wf_approval_json)
  obtain f1 h2 s1 env1 dev1 where 1: "sendEnvelope cr e ''approval.resolved'' [] (ApprovalResolved_json r) ''attention'' h1 = h2" "h_out h2 = h_out h1 @ [f1]"
    "Recv cr ok (WsBinary f1) s = (Next env1, s1)" "carries env1 (''approval.resolved'', [], ApprovalResolved_json r, ''attention'')" "synced s1 h2"
    "approval_view h2 = approval_view h1" "h_device h2 = Some dev1" "dr_attached dev1" "unat (dr_h2dSent dev1) + 1 < 2 ^ 64"
    by (rule sendEnvelope_synced [OF cr sy1 dev(2) room msg1])
  have res: "resolveApproval cr e aid ?d ''remote'' (host_deviceID h) h = ((r, True), ledger (approval_record (pa_req p) r (host_deviceID h)) h2)"
    using ap by (simp add: resolveApproval_def host_Now_def 1(1) [symmetric] h1_def r_def Let_def)
  define h3 where "h3 = ledgerCommand m ''accepted'' [] (ledger (approval_record (pa_req p) r (host_deviceID h)) h2)"
  have h3: "synced s1 h3" "h_device h3 = Some dev1" "h_out h3 = h_out h @ [f1]" "h_resolved h3 = mput aid r (h_resolved h)"
    using 1(2,5-7) by (simp_all add: h3_def ledgerCommand_def ledger_def h1_def approval_view_def)
  have msg2: "sendable (''rpc.response'', rid, decide_response aid ''applied'' r, ''none'')"
    using wf by (auto simp: sendable_def r_def control_kinds_def plain_char_def intro!: wf_approval_json)
  have room2: "unat (dr_h2dSent dev1) + Suc 0 < 2 ^ 64" using 1(9) by simp
  obtain f2 h4 s2 env2 dev2 where 2: "sendEnvelope cr e ''rpc.response'' rid (decide_response aid ''applied'' r) ''none'' h3 = h4" "h_out h4 = h_out h3 @ [f2]"
    "Recv cr ok (WsBinary f2) s1 = (Next env2, s2)" "carries env2 (''rpc.response'', rid, decide_response aid ''applied'' r, ''none'')" "synced s2 h4"
    "approval_view h4 = approval_view h3" "h_device h4 = Some dev2" "dr_attached dev2" "unat (dr_h2dSent dev2) + 0 < 2 ^ 64"
    by (rule sendEnvelope_synced [OF cr h3(1,2) 1(8) room2 msg2])
  have *: "handle_decide cr e rid \<lparr>rr_Method = m, rr_Params = Some (decide_params aid dec)\<rparr> h = h4"
    using wf(2,5) res by (auto simp: handle_decide_def h3_def [symmetric] 2(1))
  have got: "mget (h_resolved h4) aid = Some r" using 2(6) h3(4) by (simp add: approval_view_def)
  have recv: "recv_all cr ok [f1, f2] s = Some ([env1, env2], s2)" using 1(3) 2(3) by simp
  have did: "host_deviceID h = EncodeChannelID (dr_deviceID dev)" using dev(1) by (simp add: host_deviceID_def)
  have "pairing_view h2 = pairing_view h" using 1(1) by (auto simp: h1_def)
  then have "host_deviceID h2 = EncodeChannelID (dr_deviceID dev)" using host_deviceID_view did by metis
  moreover have "h_ledger h4 = h_ledger h3" "h_ledger h2 = h_ledger h" using 1(6) 2(6) by (simp_all add: approval_view_def h1_def)
  ultimately obtain y where y: "h_ledger h4 = h_ledger h @ [approval_record (pa_req p) r (host_deviceID h), y]"
    "ledger_field ''kind'' y = ''remote.command''" "ledger_field ''method'' y = m" "ledger_field ''result'' y = ''accepted''"
    "ledger_field ''device_id'' y = EncodeChannelID (dr_deviceID dev)"
    by (simp add: h3_def ledger_appends ledger_field_def)
  have led: "\<exists>rs. h_ledger h4 = h_ledger h @ rs \<and> decision_noted aid dec m (EncodeChannelID (dr_deviceID dev)) rs"
    using wf(5) by (intro exI [of _ "[approval_record (pa_req p) r (host_deviceID h), y]"])
      (auto simp: decision_noted_def y did approval_device approval_record_fields r_def ledger_kind_def)
  have pend: "mget (h_pending h4) aid = None" using 1(6) 2(6) by (simp add: approval_view_def h3_def ledgerCommand_def ledger_def h1_def)
  show thesis
    by (rule that [unfolded *, OF got _ _ _ recv 1(4) 2(4,5) pend led]) (use 2(2) h3(3) in \<open>simp_all add: r_def\<close>)
qed

text \<open>C11. A decision from the phone is applied, written down and answered. With a session in step and an approval
  pending, a device that decides on it sends one frame; the host applies the decision (allow once, or
  deny), with the phone as its source, takes the approval off the pending ones, appends to its ledger exactly the
  record of the decision and that of the command, both with this device's id, and writes two frames, from which the
  device learns the resolution and gets the answer to its request; the two ends are in step again.\<close>

theorem remote_decision:
  assumes cr: "crypto_laws cr" and sy: "synced s h" and dev: "h_device h = Some dev" "dr_attached dev" "unat (dr_h2dSent dev) + 2 < 2 ^ 64"
    and ap: "mget (h_pending h) aid = Some p" "mget (h_resolved h) aid = None"
    and wf: "utf8 aid" "aid \<noteq> []" "utf8 (ar_TaskID (pa_req p))" "dec = ''allow'' \<or> dec = ''deny''"
    and ok: "ok \<or> dv_dir (ss_State s) = []" "dv_D2HLastSent (ss_State s) + 1 \<noteq> 0"
  shows "\<exists>rid f s1 r f1 f2 env1 env2 s2 rs. SendRPC cr (Some b) now ok ''approval.decide'' (Some (decide_params aid dec)) s = (Inr (rid, f), s1)
    \<and> (let h' = handleBinary cr e f h in mget (h_resolved h') aid = Some r \<and> av_Source r = ''remote''
       \<and> av_Decision r = (if dec = ''allow'' then ''allow_once'' else ''deny'') \<and> mget (h_pending h') aid = None
       \<and> h_ledger h' = h_ledger h @ rs \<and> decision_noted aid dec ''approval.decide'' (EncodeChannelID (dr_deviceID dev)) rs \<and> h_out h' = h_out h @ [f1, f2]
       \<and> recv_all cr ok [f1, f2] s1 = Some ([env1, env2], s2) \<and> carries env1 (''approval.resolved'', [], ApprovalResolved_json r, ''attention'')
       \<and> carries env2 (''rpc.response'', rid, decide_response aid ''applied'' r, ''none'') \<and> synced s2 h')"
proof -
  let ?rid = "''req-'' @ hex_encode b" and ?body = "RPCRequest_json ''approval.decide'' (Some (decide_params aid dec))"
  let ?env = "NewPayload ''rpc.request'' ?rid now ?body"
  have rid: "utf8 ?rid" by (simp add: plain_char_def)
  have "wf_json ?body" using wf by (auto simp: RPCRequest_json_def decide_params_def plain_char_def)
  then have env: "ParseEnvelope (Envelope_Marshal ?env) = Inr ?env" using rid by (intro ParseEnvelope_payload) (simp_all add: plain_char_def)
  obtain f s1 dev0 dev1 hs where f: "sendEncrypted cr ok ?env s = (Inr f, s1)"
    "handleBinary cr e f h = handle_session_envelope cr e ?env (h\<lparr>h_device := Some dev1, h_sess := Some hs\<rparr>)"
    "synced s1 (h\<lparr>h_device := Some dev1, h_sess := Some hs\<rparr>)"
    "h_device h = Some dev0" "dr_attached dev1 = dr_attached dev0" "dr_h2dSent dev1 = dr_h2dSent dev0" "dr_deviceID dev1 = dr_deviceID dev0"
    by (rule sendEncrypted_synced [OF cr sy ok env])
  let ?h1 = "h\<lparr>h_device := Some dev1, h_sess := Some hs\<rparr>"
  have step: "se_step hs = 3" using f(3) by (auto simp: synced_def)
  have h': "handleBinary cr e f h = handle_decide cr e ?rid \<lparr>rr_Method = ''approval.decide'', rr_Params = Some (decide_params aid dec)\<rparr> ?h1"
    unfolding f(2) using step by (simp add: handle_session_envelope_def handleRPC_def)
  have d1: "h_device ?h1 = Some dev1" "dr_attached dev1" "unat (dr_h2dSent dev1) + 2 < 2 ^ 64" "mget (h_pending ?h1) aid = Some p" "mget (h_resolved ?h1) aid = None"
    and did: "dr_deviceID dev1 = dr_deviceID dev"
    using f(4-7) dev ap by simp_all
  obtain r f1 f2 env1 env2 s2 where 1:
    "mget (h_resolved (handleBinary cr e f h)) aid = Some r" "av_Source r = ''remote''" "av_Decision r = (if dec = ''allow'' then ''allow_once'' else ''deny'')"
    "h_out (handleBinary cr e f h) = h_out ?h1 @ [f1, f2]" "recv_all cr ok [f1, f2] s1 = Some ([env1, env2], s2)"
    "carries env1 (''approval.resolved'', [], ApprovalResolved_json r, ''attention'')"
    "carries env2 (''rpc.response'', ?rid, decide_response aid ''applied'' r, ''none'')" "synced s2 (handleBinary cr e f h)"
    "mget (h_pending (handleBinary cr e f h)) aid = None"
    "\<exists>rs. h_ledger (handleBinary cr e f h) = h_ledger ?h1 @ rs \<and> decision_noted aid dec ''approval.decide'' (EncodeChannelID (dr_deviceID dev1)) rs"
    unfolding h' by (rule handle_decide_pending [OF cr f(3) d1 wf(1-3) rid wf(4), where m = "''approval.decide''"])
  from 1(10) obtain rs where "h_ledger (handleBinary cr e f h) = h_ledger h @ rs" "decision_noted aid dec ''approval.decide'' (EncodeChannelID (dr_deviceID dev)) rs"
    by (auto simp: did)
  moreover have "SendRPC cr (Some b) now ok ''approval.decide'' (Some (decide_params aid dec)) s = (Inr (?rid, f), s1)"
    using f(1) by (simp add: SendRPC_def Let_def)
  ultimately show ?thesis
    unfolding Let_def using 1(1-9) by (intro exI [of _ ?rid] exI [of _ f] exI [of _ s1] exI [of _ r] exI [of _ f1] exI [of _ f2] exI [of _ env1] exI [of _ env2]
      exI [of _ s2] exI [of _ rs]) simp
qed

section \<open>A concrete session\<close>

definition ex_stream :: "byte \<Rightarrow> Stream" where
  "ex_stream b = newStream ex_crypto (replicate 32 b) (replicate 24 b)"

definition ex_talking :: Session where
  "ex_talking = (new_Session ex_state Map.empty)\<lparr>ss_tracker := \<lparr>lastSeen = 3, inSession = True\<rparr>, ss_push := Some (ex_stream 1), ss_pull := Some (ex_stream 2)\<rparr>"

definition ex_ask :: ApprovalRequest where
  "ex_ask = \<lparr>ar_ApprovalID = ''rid-1'', ar_TaskID = ''task-1'', ar_WorkbenchID = ''wb-042'', ar_Family = ''bash'', ar_ActionKind = ''bash::shell::exec'',
     ar_Summary = ''run make check'', ar_Dangerous = False, ar_RequestedAt = [], ar_DeadlineAt = [], ar_TimeoutS = 60\<rparr>"

definition ex_listening :: Host where
  "ex_listening = ex_paired\<lparr>h_device := Some (ex_record\<lparr>dr_d2h := \<lparr>lastSeen = 1, inSession = True\<rparr>\<rparr>),
     h_sess := Some (host_session (SessionKeys ex_crypto V1 ex_roots []) (ex_stream 2) (Some (ex_stream 1)) 3),
     h_pending := [(''rid-1'', \<lparr>pa_req = ex_ask, pa_timer = 0\<rparr>)]\<rparr>"

lemma ex_synced: "synced ex_talking ex_listening"
  using validID_length [OF validID_EncodeChannelID [of "replicate 16 9"]]
  by (auto simp: synced_def ex_talking_def ex_listening_def ex_stream_def host_session_def new_Session_def ex_state_def ex_record_def ex_paired_def ex_endpoint_def)

lemma ex_listening_fields: "h_device ex_listening = Some (ex_record\<lparr>dr_d2h := \<lparr>lastSeen = 1, inSession = True\<rparr>\<rparr>)"
  "mget (h_pending ex_listening) ''rid-1'' = Some \<lparr>pa_req = ex_ask, pa_timer = 0\<rparr>" "mget (h_resolved ex_listening) ''rid-1'' = None"
  "dr_h2dSent ex_record = 3" "dr_attached ex_record"
  by (simp_all add: ex_listening_def ex_paired_def ex_endpoint_def mget_def ex_record_def)

theorem session_delivers_witness:
  "\<exists>fs envs s'. h_out (host_sends ex_crypto ex_henv [(''event'', [], JNull, ''wake''), (''event'', [], JBool True, ''none'')] ex_listening) = h_out ex_listening @ fs
    \<and> recv_all ex_crypto True fs ex_talking = Some (envs, s') \<and> length envs = 2"
proof -
  have "\<forall>m \<in> set [(''event'', [], JNull, ''wake''), (''event'', [], JBool True, ''none'')]. sendable m"
    by (simp add: sendable_def control_kinds_def plain_char_def utf8.simps [of "[]"])
  from session_delivers [OF ex_crypto_laws ex_synced ex_listening_fields(1) _ this, of ex_henv True] ex_listening_fields(4)
  obtain fs envs s' where d: "h_out (host_sends ex_crypto ex_henv [(''event'', [], JNull, ''wake''), (''event'', [], JBool True, ''none'')] ex_listening) = h_out ex_listening @ fs"
    "recv_all ex_crypto True fs ex_talking = Some (envs, s')" "list_all2 carries envs [(''event'', [], JNull, ''wake''), (''event'', [], JBool True, ''none'')]"
    by auto
  from list_all2_lengthD [OF d(3)] have "length envs = 2" by simp
  with d show ?thesis by blast
qed

theorem remote_decision_witness:
  "\<exists>rid f s1 r. SendRPC ex_crypto (Some [1, 2]) 0 True ''approval.decide'' (Some (decide_params ''rid-1'' ''allow'')) ex_talking = (Inr (rid, f), s1)
    \<and> mget (h_resolved (handleBinary ex_crypto ex_henv f ex_listening)) ''rid-1'' = Some r \<and> av_Decision r = ''allow_once''"
proof -
  have w: "utf8 ''rid-1''" "utf8 (ar_TaskID (pa_req \<lparr>pa_req = ex_ask, pa_timer = 0\<rparr>))" "dv_D2HLastSent (ss_State ex_talking) + 1 \<noteq> 0"
    by (simp_all add: plain_char_def ex_ask_def ex_talking_def new_Session_def ex_state_def)
  from remote_decision [OF ex_crypto_laws ex_synced ex_listening_fields(1) _ _ ex_listening_fields(2,3) w(1) _ w(2), of "''allow''" True "[1, 2]" 0 ex_henv]
    w(3) ex_listening_fields(4,5)
  show ?thesis by (simp add: Let_def) blast
qed

end
