(* ===== verification/DeviceRun.thy ===== *)
theory DeviceRun
  imports SessionRun
begin

text \<open>
  The device over time: sends, receipts, drains, handshakes, failed saves, reconnects and restarts
  from the state file, in any order. A sequence number that left once must never leave again: the
  host's high-water mark only rises, and a reused number would wedge the pairing. The code persists
  the counter before the frame leaves; what that order buys is proved here, for one process on one
  state directory.
\<close>

section \<open>The state file\<close>

lemma into_State_json: "into_State (State_json st) = Some (st\<lparr>dv_dir := []\<rparr>)"
  by (simp add: into_State_def State_json_def zero_State_def into_defs uint_field_def into_uint64_def)

text \<open>What a save writes, a load reads back, whatever the strings and the counters.\<close>

theorem State_round_trip:
  assumes "dir \<noteq> []" "State_Save True dir st disk = (r, st', disk')"
  shows "r \<and> State_Load dir disk' = Some (st\<lparr>dv_dir := dir\<rparr>) \<and> st' = st\<lparr>dv_dir := dir\<rparr>"
  using assms by (auto simp: State_Save_def State_Load_def into_State_json Let_def)

section \<open>Steps\<close>

text \<open>The frames a session has handed to its socket come with it. A send must have numbers left.\<close>

definition has_room :: "Session \<Rightarrow> bool" where
  "has_room s \<longleftrightarrow> dv_D2HLastSent (ss_State s) < - 1"

inductive device_step :: "primitives \<Rightarrow> string \<Rightarrow> Session \<times> bytes list \<Rightarrow> Session \<times> bytes list \<Rightarrow> bool" for cr dir where
  sends: "has_room s \<Longrightarrow> sendEncrypted cr ok env s = (r, s') \<Longrightarrow>
    device_step cr dir (s, fs) (s', fs @ (case r of Inl _ \<Rightarrow> [] | Inr f \<Rightarrow> [f]))"
| calls: "has_room s \<Longrightarrow> SendRPC cr rnd now ok meth params s = (r, s') \<Longrightarrow>
    device_step cr dir (s, fs) (s', fs @ (case r of Inl _ \<Rightarrow> [] | Inr (i, f) \<Rightarrow> [f]))"
| drains: "drain_step cr kMbx channel ok resp s = (r, s') \<Longrightarrow> device_step cr dir (s, fs) (s', fs)"
| greets: "Connect_hello rnd s = Inr (nD, f) \<Longrightarrow> device_step cr dir (s, fs) (s, fs @ [f])"
| accepts: "has_room s \<Longrightarrow> Connect_accept cr cx nD rnd ok m s = (r, s') \<Longrightarrow>
    device_step cr dir (s, fs) (s', fs @ (case r of Next gs \<Rightarrow> gs | _ \<Rightarrow> []))"
| confirms: "Connect_confirm cr ok m s = (r, s') \<Longrightarrow> device_step cr dir (s, fs) (s', fs)"
| receives: "Recv cr ok m s = (r, s') \<Longrightarrow> device_step cr dir (s, fs) (s', fs)"
| closes: "device_step cr dir (s, fs) (Session_Close ok s, fs)"
| reconnects: "device_step cr dir (s, fs) (new_Session (ss_State s) (ss_disk s), fs)"
| restarts: "State_Load dir (ss_disk s) = Some st \<Longrightarrow> device_step cr dir (s, fs) (new_Session st (ss_disk s), fs)"

text \<open>The sequence numbers of the sealed frames among those sent; a control frame has number 0.\<close>

definition frame_seq :: "bytes \<Rightarrow> uint64" where
  "frame_seq f = (case wire_DecodeFrame f of Inl _ \<Rightarrow> 0 | Inr (h, _) \<Rightarrow> hd_Seq h)"

definition sealed_seqs :: "bytes list \<Rightarrow> uint64 list" where
  "sealed_seqs fs = filter (\<lambda>q. q \<noteq> 0) (map frame_seq fs)"

lemma sealed_seqs_append [simp]: "sealed_seqs (fs @ gs) = sealed_seqs fs @ sealed_seqs gs" "sealed_seqs [] = []"
  by (simp_all add: sealed_seqs_def)

lemma frame_seq_of: "validID ch \<Longrightarrow> validPushClass pc \<Longrightarrow> wire_EncodeFrame \<lparr>hd_Channel = ch, hd_Seq = q, hd_PushClass = pc\<rparr> b = Some f
    \<Longrightarrow> frame_seq f = q"
  by (auto simp: frame_seq_def)

section \<open>What a step does to the counter\<close>

text \<open>The directory, the channel and the counter in memory stay; the file is as it was or holds them.\<close>

definition stored :: "string \<Rightarrow> Session \<Rightarrow> (string \<times> uint64) option" where
  "stored dir s = map_option (\<lambda>st. (dv_ChannelID st, dv_D2HLastSent st)) (State_Load dir (ss_disk s))"

definition mark :: "Session \<Rightarrow> string \<times> string \<times> uint64" where
  "mark s = (dv_dir (ss_State s), dv_ChannelID (ss_State s), dv_D2HLastSent (ss_State s))"

definition keeps :: "string \<Rightarrow> Session \<Rightarrow> Session \<Rightarrow> bool" where
  "keeps dir s s' \<longleftrightarrow> mark s' = mark s \<and> (stored dir s' = stored dir s
     \<or> stored dir s' = Some (dv_ChannelID (ss_State s), dv_D2HLastSent (ss_State s)))"

lemma keeps_refl [simp]: "keeps dir s s"
  by (simp add: keeps_def)

lemma keeps_trans: "keeps dir s s' \<Longrightarrow> keeps dir s' s'' \<Longrightarrow> keeps dir s s''"
  by (auto simp: keeps_def mark_def)

lemma save_session_stored:
  assumes "dv_dir (ss_State s) = dir" "dir \<noteq> []"
  shows "stored dir (snd (save_session ok s)) =
    (if ok then Some (dv_ChannelID (ss_State s), dv_D2HLastSent (ss_State s)) else stored dir s)"
    and "fst (save_session ok s) = ok"
  using assms by (simp_all add: save_session_def State_Save_def stored_def State_Load_def into_State_json)

text \<open>Saving, after changes that leave mark and file alone.\<close>

lemma keeps_save:
  assumes "mark t = mark s" "ss_disk t = ss_disk s" "dv_dir (ss_State s) = dir" "dir \<noteq> []"
  shows "keeps dir s (snd (save_session ok t))"
  using assms save_session_stored [of t dir ok] by (auto simp: keeps_def mark_def stored_def)

lemma keeps_same: "mark t = mark s \<Longrightarrow> ss_disk t = ss_disk s \<Longrightarrow> keeps dir s t"
  by (simp add: keeps_def stored_def)

lemma hear_text_same [simp]: "mark (hear_text m s) = mark s" "ss_disk (hear_text m s) = ss_disk s"
  "ss_State (hear_text m s) = ss_State s"
  by (simp_all add: hear_text_def textHandler_def mark_def split: ws_msg.split option.split)

lemma open_frame_same:
  assumes "open_frame cr hdr body s = (r, s')" shows "mark s' = mark s" "ss_disk s' = ss_disk s"
  using assms by (auto simp: open_frame_def mark_def Let_def split: prod.splits sum.splits option.splits)

lemma saveDrainMark_keeps:
  assumes "dv_dir (ss_State s) = dir" "dir \<noteq> []" shows "keeps dir s (saveDrainMark ok s)"
  using assms by (auto simp: saveDrainMark_def mark_def intro!: keeps_save)

lemma drain_abandon_keeps:
  assumes "dv_dir (ss_State s) = dir" "dir \<noteq> []" shows "keeps dir s (drain_abandon ok s)"
proof -
  let ?t = "s\<lparr>ss_ReconcileExpected := True\<rparr>"
  have "keeps dir s ?t" by (rule keeps_same) (simp_all add: mark_def)
  moreover have "keeps dir ?t (drain_abandon ok s)"
    unfolding drain_abandon_def using assms by (intro saveDrainMark_keeps) simp_all
  ultimately show ?thesis by (rule keeps_trans)
qed

lemma drain_frames_keeps:
  "drain_frames cr kMbx channel ok fs s = (r, s') \<Longrightarrow> dv_dir (ss_State s) = dir \<Longrightarrow> dir \<noteq> [] \<Longrightarrow> keeps dir s s'"
proof (induction fs arbitrary: s)
  case (Cons f fs)
  show ?case
  proof (cases "(\<exists>pc body pt gap t env. ParsePushClass (df_PushClass f) = Some pc \<and> b64_decode False (df_Body f) = Some body
      \<and> OpenMailboxFrame cr kMbx body (BuildAD channel (df_Seq f) pc) = Some pt \<and> AcceptMailbox (df_Seq f) (ss_tracker s) = (Inr gap, t)
      \<and> ParseEnvelope pt = Inr env)")
    case True
    then obtain gap t env where s': "drain_frames cr kMbx channel ok fs (s\<lparr>ss_tracker := t, ss_ReconcileExpected := gap \<or> ss_ReconcileExpected s,
        ss_DrainedEnvelopes := ss_DrainedEnvelopes s @ [env]\<rparr>) = (r, s')" (is "drain_frames _ _ _ _ _ ?t = _")
      using Cons.prems(1) by (auto simp: Let_def)
    have "keeps dir s ?t" by (rule keeps_same) (simp_all add: mark_def)
    moreover have "keeps dir ?t s'" by (rule Cons.IH [OF s']) (use Cons.prems in simp_all)
    ultimately show ?thesis by (rule keeps_trans)
  next
    case False
    have a: "keeps dir s (drain_abandon ok s)" by (rule drain_abandon_keeps) (use Cons.prems in simp_all)
    have b: "keeps dir s (s\<lparr>ss_tracker := t\<rparr>)" for t by (rule keeps_same) (simp_all add: mark_def)
    have c: "keeps dir s (drain_abandon ok (s\<lparr>ss_tracker := t, ss_ReconcileExpected := g\<rparr>))" for t g
      by (rule keeps_trans [OF keeps_same drain_abandon_keeps]) (use Cons.prems in \<open>simp_all add: mark_def\<close>)
    show ?thesis using Cons.prems(1) False a b c
      by (auto simp: Let_def split: option.splits sum.splits prod.splits)
  qed
qed simp

lemma drain_step_keeps:
  assumes "drain_step cr kMbx channel ok resp s = (r, s')" "dv_dir (ss_State s) = dir" "dir \<noteq> []"
  shows "keeps dir s s'"
proof (cases "drain_answer resp")
  case (Some page)
  obtain v t where t: "drain_frames cr kMbx channel ok (dp_Frames page) s = (v, t)" by fastforce
  have k: "keeps dir s t" by (rule drain_frames_keeps [OF t assms(2,3)])
  then have "dv_dir (ss_State t) = dir" using assms(2) by (simp add: keeps_def mark_def)
  from saveDrainMark_keeps [OF this assms(3), of ok] have "keeps dir s (saveDrainMark ok t)" using k keeps_trans by blast
  with assms(1) Some t k show ?thesis by (auto simp: drain_step_def Let_def split: drain_verdict.splits if_splits)
qed (use assms(1) in \<open>simp add: drain_step_def\<close>)

text \<open>A send moves the counter in memory by one; a frame leaves only when the file holds the new value,
  and carries it.\<close>

definition sent_by :: "string \<Rightarrow> Session \<Rightarrow> Session \<Rightarrow> bytes list \<Rightarrow> bool" where
  "sent_by dir s s' fs \<longleftrightarrow> (let q = dv_D2HLastSent (ss_State s) + 1; now = Some (dv_ChannelID (ss_State s), q) in
     mark s' = (dv_dir (ss_State s), dv_ChannelID (ss_State s), q)
     \<and> (sealed_seqs fs = [] \<and> (stored dir s' = stored dir s \<or> stored dir s' = now) \<or> sealed_seqs fs = [q] \<and> stored dir s' = now))"

lemma sealed_seqs_single: "frame_seq f = q \<Longrightarrow> q \<noteq> 0 \<Longrightarrow> sealed_seqs [f] = [q]"
  by (simp add: sealed_seqs_def)

lemma sendEncrypted_sent:
  assumes "sendEncrypted cr ok env s = (r, s')" "dv_dir (ss_State s) = dir" "dir \<noteq> []" "validID (dv_ChannelID (ss_State s))"
    "has_room s"
  shows "sent_by dir s s' (case r of Inl _ \<Rightarrow> [] | Inr f \<Rightarrow> [f])"
proof -
  let ?q = "dv_D2HLastSent (ss_State s) + 1"
  let ?s = "s\<lparr>ss_State := (ss_State s)\<lparr>dv_D2HLastSent := ?q\<rparr>\<rparr>"
  obtain d where d: "save_session ok ?s = (ok, ?s\<lparr>ss_disk := d\<rparr>)"
    using save_session_eq [of ok ?s] assms(2,3) by auto
  have st: "stored dir (?s\<lparr>ss_disk := d\<rparr>) = (if ok then Some (dv_ChannelID (ss_State s), ?q) else stored dir s)"
    using save_session_stored(1) [of ?s dir ok] assms(2,3) d by (simp add: stored_def)
  have q: "?q \<noteq> 0" using assms(5) unfolding has_room_def by (metis add_eq_0_iff minus_minus order_less_irrefl add.commute)
  have f: "frame_seq f = ?q" if "wire_EncodeFrame \<lparr>hd_Channel = dv_ChannelID (ss_State s), hd_Seq = ?q, hd_PushClass = ''none''\<rparr> ct = Some f" for ct f
    using frame_seq_of [OF assms(4) _ that] by simp
  show ?thesis
    using assms(1) d st sealed_seqs_single [OF f q]
    by (auto simp: sendEncrypted_def Let_def sent_by_def mark_def assms(2) stored_def
        split: if_splits option.splits sum.splits prod.splits)
qed

lemma SendRPC_sent:
  assumes "SendRPC cr rnd now ok meth params s = (r, s')" "dv_dir (ss_State s) = dir" "dir \<noteq> []"
    "validID (dv_ChannelID (ss_State s))" "has_room s"
  shows "keeps dir s s' \<and> sealed_seqs (case r of Inl _ \<Rightarrow> [] | Inr (i, f) \<Rightarrow> [f]) = []
    \<or> sent_by dir s s' (case r of Inl _ \<Rightarrow> [] | Inr (i, f) \<Rightarrow> [f])"
proof (cases rnd)
  case None
  then show ?thesis using assms(1) by (auto simp: SendRPC_def)
next
  case (Some b)
  obtain v t where v: "sendEncrypted cr ok (NewPayload ''rpc.request'' (''req-'' @ hex_encode b) now (RPCRequest_json meth params)) s = (v, t)"
    by fastforce
  from sendEncrypted_sent [OF this assms(2-)] show ?thesis
    using assms(1) Some v by (auto simp: SendRPC_def Let_def split: sum.splits)
qed

lemma control_frame_seq:
  assumes "sendControl ch kind body = Some f" "validID ch" shows "sealed_seqs (f # fs) = sealed_seqs fs"
  using assms frame_seq_of [of ch "''none''" 0 _ f] by (simp add: sendControl_def sealed_seqs_def)

lemma sent_by_same:
  "ss_State t = ss_State s \<Longrightarrow> ss_disk t = ss_disk s \<Longrightarrow> mark s'' = mark s' \<Longrightarrow> ss_disk s'' = ss_disk s' \<Longrightarrow>
    sealed_seqs gs = sealed_seqs fs \<Longrightarrow> sent_by dir t s' fs \<Longrightarrow> sent_by dir s s'' gs"
  by (simp add: sent_by_def Let_def stored_def)

lemma Connect_accept_sent:
  assumes "Connect_accept cr cx nD rnd ok m s = (r, s')" "dv_dir (ss_State s) = dir" "dir \<noteq> []"
    "validID (dv_ChannelID (ss_State s))" "has_room s"
  shows "keeps dir s s' \<and> sealed_seqs (case r of Next gs \<Rightarrow> gs | _ \<Rightarrow> []) = []
    \<or> sent_by dir s s' (case r of Next gs \<Rightarrow> gs | _ \<Rightarrow> [])"
proof (cases "\<exists>env nH hdrH2D push hdrD2H f3. control_envelope m = Next env \<and> ev_Kind env = ''sess.accept''
    \<and> accept_fields env (dv_HostID (ss_State s)) = Inr (nH, hdrH2D)
    \<and> NewPushStream cr rnd (sk_D2H (SessionKeys cr V1 (cx_roots cx) (Transcript V1 (cx_hostID cx) (cx_deviceID cx) nD nH))) = Inr (push, hdrD2H)
    \<and> sendControl (dv_ChannelID (ss_State s)) ''sess.header'' (SessHeader_json \<lparr>sx_HdrD2H = EncodeBin hdrD2H\<rparr>) = Some f3")
  case True
  then obtain env nH hdrH2D push hdrD2H f3 where c: "control_envelope m = Next env" "ev_Kind env = ''sess.accept''"
    "accept_fields env (dv_HostID (ss_State s)) = Inr (nH, hdrH2D)"
    "NewPushStream cr rnd (sk_D2H (SessionKeys cr V1 (cx_roots cx) (Transcript V1 (cx_hostID cx) (cx_deviceID cx) nD nH))) = Inr (push, hdrD2H)"
    "sendControl (dv_ChannelID (ss_State s)) ''sess.header'' (SessHeader_json \<lparr>sx_HdrD2H = EncodeBin hdrD2H\<rparr>) = Some f3" by blast
  let ?keys = "SessionKeys cr V1 (cx_roots cx) (Transcript V1 (cx_hostID cx) (cx_deviceID cx) nD nH)"
  let ?t = "(hear_text m s)\<lparr>ss_keys := ?keys, ss_pull := Some (NewPullStream cr (sk_H2D ?keys) hdrH2D), ss_push := Some push\<rparr>"
  obtain v u where v: "sendEncrypted cr ok (NewControl ''sess.confirm'' (SessConfirm_json \<lparr>sc_TranscriptMAC = EncodeBin (sk_ConfD ?keys)\<rparr>)) ?t = (v, u)"
    by fastforce
  have "sent_by dir ?t u (case v of Inl _ \<Rightarrow> [] | Inr f \<Rightarrow> [f])"
    by (rule sendEncrypted_sent [OF v]) (use assms(2-) in \<open>simp_all add: has_room_def\<close>)
  note sent = sent_by_same [OF _ _ _ _ _ this]
  show ?thesis
  proof (cases v)
    case (Inl e)
    then have "r = Fail e" "s' = u" using assms(1) c v by (auto simp: Connect_accept_def Let_def)
    then show ?thesis using Inl by (intro disjI2 sent) simp_all
  next
    case (Inr f4)
    then have "r = Next [f3, f4]" "s' = u\<lparr>ss_tracker := StartSession (ss_tracker u)\<rparr>" using assms(1) c v by (auto simp: Connect_accept_def Let_def)
    then show ?thesis using Inr control_frame_seq [OF c(5) assms(4)] by (intro disjI2 sent) (simp_all add: mark_def)
  qed
next
  case False
  then have "mark s' = mark s \<and> ss_disk s' = ss_disk s \<and> (\<forall>gs. r \<noteq> Next gs)"
    using assms(1) unfolding Connect_accept_def Let_def
    by (auto split: stage.splits sum.splits option.splits prod.splits if_splits simp: mark_def)
  then show ?thesis by (auto intro: keeps_same split: stage.split)
qed

lemma Connect_hello_frame:
  assumes "Connect_hello rnd s = Inr (nD, f)" "validID (dv_ChannelID (ss_State s))" shows "sealed_seqs [f] = []"
  using assms control_frame_seq [of _ _ _ f "[]"] by (auto simp: Connect_hello_def split: option.splits)

lemma Connect_confirm_keeps:
  assumes "Connect_confirm cr ok m s = (r, s')" "dv_dir (ss_State s) = dir" "dir \<noteq> []"
  shows "keeps dir s s'"
proof (cases "\<exists>hdr body. readBinary m = Next (hdr, body) \<and> CheckFrameClass (hd_Seq hdr) False = None")
  case True
  then obtain hdr body where b: "readBinary m = Next (hdr, body)" "CheckFrameClass (hd_Seq hdr) False = None" by blast
  obtain v t where t: "open_frame cr hdr body (hear_text m s) = (v, t)" by fastforce
  note same = open_frame_same [OF t, unfolded hear_text_same]
  have "keeps dir s (snd (save_session ok (t\<lparr>ss_ReconcileExpected := x, ss_State := (ss_State t)\<lparr>dv_H2DLastSeen := y\<rparr>\<rparr>)))" for x y
    by (rule keeps_save) (use same assms(2,3) in \<open>simp_all add: mark_def\<close>)
  moreover have "keeps dir s (t\<lparr>ss_ReconcileExpected := x\<rparr>)" "keeps dir s t" for x
    by (rule keeps_same; use same in \<open>simp add: mark_def\<close>)+
  ultimately show ?thesis using assms(1) b t
    by (auto simp: Connect_confirm_def Let_def split: sum.splits prod.splits if_splits option.splits)
next
  case False
  then have "mark s' = mark s" "ss_disk s' = ss_disk s" using assms(1)
    by (auto simp: Connect_confirm_def Let_def split: stage.splits option.splits prod.splits)
  then show ?thesis by (rule keeps_same)
qed

lemma Recv_keeps:
  assumes "Recv cr ok m s = (r, s')" "dv_dir (ss_State s) = dir" "dir \<noteq> []"
  shows "keeps dir s s'"
proof (cases "\<not> ss_revoked s \<and> (\<exists>hdr body. readBinary m = Next (hdr, body) \<and> hd_Seq hdr \<noteq> 0)")
  case True
  then obtain hdr body where b: "readBinary m = Next (hdr, body)" "hd_Seq hdr \<noteq> 0" "\<not> ss_revoked s" by blast
  obtain v t where t: "open_frame cr hdr body (hear_text m s) = (v, t)" by fastforce
  note same = open_frame_same [OF t, unfolded hear_text_same]
  have k: "keeps dir s (snd (save_session ok (t\<lparr>ss_State := (ss_State t)\<lparr>dv_H2DLastSeen := y\<rparr>\<rparr>)))" for y
    by (rule keeps_save) (use same assms(2,3) in \<open>simp_all add: mark_def\<close>)
  have k2: "keeps dir s t" by (rule keeps_same) (use same in simp_all)
  have "keeps dir s (u\<lparr>ss_revoked := True\<rparr>)" if "keeps dir s u" for u
    using that by (simp add: keeps_def mark_def stored_def)
  then show ?thesis using assms(1) b t k k2
    by (auto simp: Recv_def Let_def split: sum.splits prod.splits if_splits)
next
  case False
  then have "mark s' = mark s" "ss_disk s' = ss_disk s" using assms(1)
    by (auto simp: Recv_def Let_def split: stage.splits sum.splits prod.splits if_splits)
  then show ?thesis by (rule keeps_same)
qed

section \<open>No number leaves twice\<close>

text \<open>The invariant: the file names the channel and a mark, below the counter in memory, and the numbers
  sent lie between the mark the run started from and the file's, strictly increasing.\<close>

definition numbered :: "string \<Rightarrow> uint64 \<Rightarrow> Session \<times> bytes list \<Rightarrow> bool" where
  "numbered dir q0 = (\<lambda>(s, fs). dv_dir (ss_State s) = dir \<and> dir \<noteq> [] \<and> validID (dv_ChannelID (ss_State s))
     \<and> (\<exists>q. stored dir s = Some (dv_ChannelID (ss_State s), q) \<and> q0 \<le> q \<and> q \<le> dv_D2HLastSent (ss_State s)
        \<and> sorted_wrt (<) (sealed_seqs fs) \<and> (\<forall>p \<in> set (sealed_seqs fs). q0 < p \<and> p \<le> q)))"

lemma numbered_keeps:
  "numbered dir q0 (s, fs) \<Longrightarrow> keeps dir s s' \<Longrightarrow> sealed_seqs gs = [] \<Longrightarrow> numbered dir q0 (s', fs @ gs)"
  by (auto simp: numbered_def keeps_def mark_def intro: order_trans)

lemma numbered_sent:
  assumes n: "numbered dir q0 (s, fs)" "has_room s" and sent: "sent_by dir s s' gs"
  shows "numbered dir q0 (s', fs @ gs)"
proof -
  have lt: "p < dv_D2HLastSent (ss_State s) + 1" if "p \<le> dv_D2HLastSent (ss_State s)" for p
    using that n(2) unat_Suc_below [of "dv_D2HLastSent (ss_State s)" "- 1"] by (simp add: has_room_def word_less_nat_alt word_le_nat_alt)
  show ?thesis
    using n(1) sent lt
    by (fastforce simp: numbered_def sent_by_def mark_def Let_def sorted_wrt_append intro: order.strict_implies_order order_trans)
qed

lemma numbered_load:
  assumes "numbered dir q0 (s, fs)" "State_Load dir (ss_disk s) = Some st"
  shows "numbered dir q0 (new_Session st (ss_disk s), fs)"
proof -
  have "dv_dir st = dir" using assms(2) by (auto simp: State_Load_def split: option.splits)
  with assms show ?thesis by (auto simp: numbered_def stored_def new_Session_def)
qed

interpretation device_numbers: inductive_invariant "\<lambda>x. numbered dir q0 x" "device_step cr dir" "\<lambda>x. numbered dir q0 x" for cr dir q0
proof
  fix x y assume x: "numbered dir q0 x" and step: "device_step cr dir x y"
  have c: "dv_dir (ss_State s) = dir" "dir \<noteq> []" "validID (dv_ChannelID (ss_State s))" if "x = (s, fs)" for s fs
    using x that by (auto simp: numbered_def)
  have k: "numbered dir q0 (s', fs @ gs)" if "x = (s, fs)" "keeps dir s s'" "sealed_seqs gs = []" for s fs s' gs
    using numbered_keeps x that by blast
  have k0: "numbered dir q0 (s', fs)" if "x = (s, fs)" "keeps dir s s'" for s fs s' using k [OF that, of "[]"] by simp
  have sent: "numbered dir q0 (s', fs @ gs)" if "x = (s, fs)" "has_room s" "sent_by dir s s' gs" for s fs s' gs
    using numbered_sent x that by blast
  from step show "numbered dir q0 y"
  proof cases
    case (sends s ok env r s' fs)
    then show ?thesis using sent [OF sends(1,3) sendEncrypted_sent [OF sends(4) c [OF sends(1)] sends(3)]] by simp
  next
    case (calls s rnd now ok meth params r s' fs)
    show ?thesis using SendRPC_sent [OF calls(4) c [OF calls(1)] calls(3)] sent [OF calls(1,3)] k [OF calls(1)]
      unfolding calls(2) by blast
  next
    case (drains kMbx channel ok resp s r s' fs)
    then show ?thesis using k0 [OF drains(1) drain_step_keeps [OF drains(3) c(1,2) [OF drains(1)]]] by simp
  next
    case (greets rnd s nD f fs)
    then show ?thesis using k [OF greets(1) keeps_refl Connect_hello_frame [OF greets(3) c(3) [OF greets(1)]]] by simp
  next
    case (accepts s cx nD rnd ok m r s' fs)
    show ?thesis using Connect_accept_sent [OF accepts(4) c [OF accepts(1)] accepts(3)] sent [OF accepts(1,3)] k [OF accepts(1)]
      unfolding accepts(2) by blast
  next
    case (confirms ok m s r s' fs)
    then show ?thesis using k0 [OF confirms(1) Connect_confirm_keeps [OF confirms(3) c(1,2) [OF confirms(1)]]] by simp
  next
    case (receives ok m s r s' fs)
    then show ?thesis using k0 [OF receives(1) Recv_keeps [OF receives(3) c(1,2) [OF receives(1)]]] by simp
  next
    case (closes s fs ok)
    then show ?thesis using k0 [OF closes(1) keeps_save [of s s dir ok]] c [OF closes(1)] by (simp add: Session_Close_def)
  next
    case (reconnects s fs)
    have "keeps dir s (new_Session (ss_State s) (ss_disk s))" by (rule keeps_same) (simp_all add: new_Session_def mark_def)
    then show ?thesis using k0 [OF reconnects(1)] reconnects(2) by simp
  next
    case (restarts s st fs)
    then show ?thesis using numbered_load x by blast
  qed
qed simp

text \<open>C10. A device never sends a sequence number twice. From a session whose state is on disk, whatever it
  sends and receives, whichever saves fail, and however often it reconnects or is killed and started
  again from the file: the sealed frames that left carry strictly increasing numbers, all above the
  mark it started from, and the file always holds a mark that none of them exceeds. A send needs a
  number below the top of the 64-bit range.\<close>

theorem device_numbers_increase:
  assumes "State_Load dir (ss_disk s0) = Some (ss_State s0)" "dir \<noteq> []" "validID (dv_ChannelID (ss_State s0))"
    and "(device_step cr dir)\<^sup>*\<^sup>* (s0, []) (s, fs)"
  shows "sorted_wrt (<) (sealed_seqs fs) \<and> (\<forall>q \<in> set (sealed_seqs fs). dv_D2HLastSent (ss_State s0) < q)
    \<and> (\<exists>st. State_Load dir (ss_disk s) = Some st \<and> (\<forall>q \<in> set (sealed_seqs fs). q \<le> dv_D2HLastSent st))"
proof -
  have "dv_dir (ss_State s0) = dir" using arg_cong [OF assms(1), of "map_option dv_dir"] by (auto simp: State_Load_def split: option.splits)
  then have "numbered dir (dv_D2HLastSent (ss_State s0)) (s0, [])" using assms(1-3) by (simp add: numbered_def stored_def)
  from device_numbers.run_inv [OF assms(4) this] show ?thesis by (auto simp: numbered_def stored_def)
qed

text \<open>A session that sends a frame, fails to save, restarts from its file and is paired still.\<close>

definition ex_disk :: disk where
  "ex_disk = [''d'' \<mapsto> State_json ex_state]"

definition ex_saved :: Session where
  "ex_saved = ex_talking\<lparr>ss_disk := ex_disk\<rparr>"

theorem State_round_trip_witness:
  "\<exists>st' disk'. State_Save True ''d'' ex_state Map.empty = (True, st', disk') \<and> State_Load ''d'' disk' = Some (ex_state\<lparr>dv_dir := ''d''\<rparr>)"
proof -
  obtain r st' disk' where "State_Save True ''d'' ex_state Map.empty = (r, st', disk')" by (metis prod_cases3)
  with State_round_trip [OF _ this] show ?thesis by auto
qed

lemma send_leaves:
  assumes "ss_push t = Some up" "\<not> finished up" "dv_ChannelID (ss_State t) = EncodeChannelID (replicate 16 9)"
  obtains f t' up' where "sendEncrypted cr True env t = (Inr f, t')" "frame_seq f = dv_D2HLastSent (ss_State t) + 1"
    "ss_State t' = (ss_State t)\<lparr>dv_D2HLastSent := dv_D2HLastSent (ss_State t) + 1\<rparr>" "ss_push t' = Some up'" "\<not> finished up'"
proof -
  let ?c = "replicate 16 9 :: bytes"
  have "TagMessage \<noteq> TagFinal" by (simp add: TagMessage_def TagFinal_def TagPush_def TagRekey_def)
  then obtain ct up' where up': "Stream_Push cr (Envelope_Marshal env) (BuildAD ?c (dv_D2HLastSent (ss_State t) + 1) PushClassNone) TagMessage up = Inr (ct, up')"
    "\<not> finished up'" using Push_open [OF assms(2)] by metis
  obtain d where send: "sendEncrypted cr True env t = (Inr (frame_of (EncodeChannelID ?c) (dv_D2HLastSent (ss_State t) + 1) ''none'' ct),
     t\<lparr>ss_State := (ss_State t)\<lparr>dv_D2HLastSent := dv_D2HLastSent (ss_State t) + 1\<rparr>, ss_push := Some up', ss_disk := d\<rparr>)"
    using sendEncrypted_ok [OF _ assms(1,3) _ up'(1), of True] by auto
  have "frame_seq (frame_of (EncodeChannelID ?c) q ''none'' ct) = q" for q by (simp add: frame_seq_def)
  then show thesis by (intro that [OF send _ _ _ up'(2)]) simp_all
qed

theorem device_numbers_increase_witness:
  "\<exists>s f g. (device_step ex_crypto ''d'')\<^sup>*\<^sup>* (ex_saved, []) (s, [f, g]) \<and> sealed_seqs [f, g] = [2, 4]
     \<and> (\<exists>st. State_Load ''d'' (ss_disk s) = Some st \<and> 4 \<le> dv_D2HLastSent st)"
proof -
  have s0: "dv_D2HLastSent (ss_State ex_saved) = 1" "dv_dir (ss_State ex_saved) = ''d''" "dv_ChannelID (ss_State ex_saved) = EncodeChannelID (replicate 16 9)"
    "State_Load ''d'' (ss_disk ex_saved) = Some (ss_State ex_saved)" "ss_push ex_saved = Some (ex_stream 1)" "\<not> finished (ex_stream 1)"
    by (simp_all add: ex_saved_def ex_talking_def ex_stream_def new_Session_def ex_state_def State_Load_def ex_disk_def into_State_json)
  obtain f s1 u1 where f: "sendEncrypted ex_crypto True ex_note ex_saved = (Inr f, s1)" "frame_seq f = 2"
    "ss_State s1 = (ss_State ex_saved)\<lparr>dv_D2HLastSent := 2\<rparr>" "ss_push s1 = Some u1" "\<not> finished u1"
    by (rule send_leaves [OF s0(5,6,3), of ex_crypto ex_note]) (simp add: s0(1))
  let ?s2 = "s1\<lparr>ss_State := (ss_State s1)\<lparr>dv_D2HLastSent := 3\<rparr>\<rparr>"
  have l: "sendEncrypted ex_crypto False ex_note s1 = (Inl DevSave, ?s2)"
    using f(3) s0(2) by (simp add: sendEncrypted_def save_session_def State_Save_def Let_def)
  obtain g s3 where g: "sendEncrypted ex_crypto True ex_note ?s2 = (Inr g, s3)" "frame_seq g = 4"
    by (rule send_leaves [of ?s2 u1 ex_crypto ex_note]) (simp_all add: f s0(3))
  have "device_step ex_crypto ''d'' (ex_saved, []) (s1, [] @ [f])" "device_step ex_crypto ''d'' (s1, [] @ [f]) (?s2, ([] @ [f]) @ [])"
    "device_step ex_crypto ''d'' (?s2, ([] @ [f]) @ []) (s3, (([] @ [f]) @ []) @ [g])"
    using device_step.sends [OF _ f(1), of "''d''" "[]"] device_step.sends [OF _ l, of "''d''" "[] @ [f]"]
      device_step.sends [OF _ g(1), of "''d''" "([] @ [f]) @ []"] s0(1) f(3)
    by (simp_all add: has_room_def word_less_nat_alt unsigned_minus_1_eq_mask mask_eq_exp_minus_1)
  then have run: "(device_step ex_crypto ''d'')\<^sup>*\<^sup>* (ex_saved, []) (s3, [f, g])" by simp
  have q: "sealed_seqs [f, g] = [2, 4]" using f(2) g(2) by (simp add: sealed_seqs_def)
  from device_numbers_increase [OF s0(4) _ _ run] q s0(3) show ?thesis using run by auto
qed

end
