(* ===== verification/FakeRelay.thy ===== *)
theory FakeRelay
  imports Ws
begin

text \<open>
  The in-memory test double of the relay (\<open>internal/fakerelay\<close>): one record with every table under
  one lock, its own limiter, mailbox, presence, REST and WebSocket surface. A pointer to a window or a
  pairing is its id, in the two indexes \<open>provChans\<close> and \<open>channels\<close>. Identifiers are arguments where
  \<open>NewID\<close> draws them; the clock is the field \<open>fr_now\<close>, and a timer that fires leaves its callback in
  \<open>fr_fired\<close>, as in the relay's model. WebSocket handlers are cut into the same stages. What is the
  same text in both packages is taken from the relay's theories: the frame codec, the error codes and
  responses, the connection object with its queue, the push payloads, the timers. Iteration over a Go
  map is in the order of the model's map.
\<close>

section \<open>Configuration\<close>

record FakeConfig =
  fc_MailboxTTL :: duration
  fc_MailboxMaxFrames :: int
  fc_MailboxMaxBytes :: int
  fc_WindowTTL :: duration
  fc_OfflineAfter :: duration
  fc_MaxFrameSize :: int
  fc_MaxHeaderLen :: int
  fc_BindingIdleReap :: duration
  fc_Limits :: Limits

definition fake_Limits_applyDefaults :: "Limits \<Rightarrow> Limits" where
  "fake_Limits_applyDefaults l =
     (let def = (\<lambda>v d. if f64_eq v (Fin 0) then d else if f64_less v (Fin 0) then Fin 0 else v);
          defi = (\<lambda>v d. if v = 0 then d else if v < 0 then 0 else v) in
      \<lparr>lt_DeviceFramesPerSec = def (lt_DeviceFramesPerSec l) (Fin 60), lt_DeviceFramesBurst = def (lt_DeviceFramesBurst l) (Fin 120),
       lt_HostFramesPerSec = def (lt_HostFramesPerSec l) (Fin 200), lt_HostFramesBurst = def (lt_HostFramesBurst l) (Fin 400),
       lt_MailboxGetPerMin = defi (lt_MailboxGetPerMin l) 30, lt_PairingsPerHour = defi (lt_PairingsPerHour l) 10,
       lt_PairingWindowsPerHour = defi (lt_PairingWindowsPerHour l) 20,
       lt_PairingAttachesPerWindow = defi (lt_PairingAttachesPerWindow l) 10,
       lt_APNSRegsPerHour = defi (lt_APNSRegsPerHour l) 10, lt_DeviceAttachPerChannel = defi (lt_DeviceAttachPerChannel l) 4\<rparr>)"

definition FakeConfig_applyDefaults :: "FakeConfig \<Rightarrow> FakeConfig" where
  "FakeConfig_applyDefaults c =
     (let c = (if fc_MailboxTTL c = 0 then c\<lparr>fc_MailboxTTL := 15 * minute\<rparr> else c);
          c = (if fc_MailboxMaxFrames c = 0 then c\<lparr>fc_MailboxMaxFrames := 128\<rparr> else c);
          c = (if fc_MailboxMaxBytes c = 0 then c\<lparr>fc_MailboxMaxBytes := 4 * 2 ^ 20\<rparr> else c);
          c = (if fc_WindowTTL c = 0 then c\<lparr>fc_WindowTTL := 5 * minute\<rparr> else c);
          c = (if fc_OfflineAfter c = 0 then c\<lparr>fc_OfflineAfter := 30 * second\<rparr> else c);
          c = (if fc_MaxFrameSize c = 0 then c\<lparr>fc_MaxFrameSize := 128 * 2 ^ 10\<rparr> else c);
          c = (if fc_MaxHeaderLen c = 0 then c\<lparr>fc_MaxHeaderLen := 512\<rparr> else c);
          c = (if fc_BindingIdleReap c = 0 then c\<lparr>fc_BindingIdleReap := 30 * 24 * hour\<rparr> else c)
      in c\<lparr>fc_Limits := fake_Limits_applyDefaults (fc_Limits c)\<rparr>)"

section \<open>State\<close>

text \<open>A \<open>pairing\<close>, an \<open>apnsReg\<close> and an \<open>mbxItem\<close> have the fields of the store's rows.\<close>

type_synonym fake_pairing = Pairing
type_synonym apnsReg = APNSToken
type_synonym mbxItem = MailboxItem

record fake_window =
  fw_id :: string
  fw_hostID :: string
  fw_provisionalChannel :: string
  fw_expiresAt :: gotime
  fw_timer :: timer
  fw_closed :: bool
  fw_attaches :: int

record hostPresence =
  fp_online :: bool
  fp_lastSeen :: gotime
  fp_timer :: "timer option"

record devPresence =
  fd_attached :: bool
  fd_lastSeen :: gotime

record hostBinding =
  hb_sub :: string
  hb_boundAt :: gotime
  hb_lastAttach :: gotime

record fake_mailbox =
  fm_items :: "mbxItem list"
  fm_bytes :: int

record FakeRelay =
  fr_cfg :: FakeConfig
  fr_limiter :: "(string, bucket) gomap"
  fr_pushes :: "Push list"
  fr_bindings :: "(string, hostBinding) gomap"
  fr_chanPres :: "(string, devPresence) gomap"
  fr_pairings :: "(string, fake_pairing) gomap"
  fr_channels :: "(string, string) gomap"
  fr_windows :: "(string, fake_window) gomap"
  fr_provChans :: "(string, string) gomap"
  fr_mailboxes :: "(string, fake_mailbox) gomap"
  fr_apnsTok :: "(string, apnsReg) gomap"
  fr_presence :: "(string, hostPresence) gomap"
  fr_hostConns :: "(string, nat list) gomap"
  fr_devConns :: "(string, nat list) gomap"
  fr_pairConns :: "(string, nat list) gomap"
  fr_now :: gotime
  fr_conns :: "(nat, wsConn) gomap"
  fr_next :: nat
  fr_fired :: "callback list"

definition fake_New :: "FakeConfig \<Rightarrow> gotime \<Rightarrow> FakeRelay" where
  "fake_New cfg now =
     \<lparr>fr_cfg = FakeConfig_applyDefaults cfg, fr_limiter = [], fr_pushes = [], fr_bindings = [], fr_chanPres = [],
      fr_pairings = [], fr_channels = [], fr_windows = [], fr_provChans = [], fr_mailboxes = [], fr_apnsTok = [],
      fr_presence = [], fr_hostConns = [], fr_devConns = [], fr_pairConns = [], fr_now = now, fr_conns = [],
      fr_next = 0, fr_fired = []\<rparr>"

definition fake_HostOnline :: "string \<Rightarrow> FakeRelay \<Rightarrow> bool \<times> gotime" where
  "fake_HostOnline hostID r = (case mget (fr_presence r) hostID of None \<Rightarrow> (False, 0) | Some p \<Rightarrow> (fp_online p, fp_lastSeen p))"

text \<open>The pairing a channel is indexed to.\<close>

definition fake_channel :: "string \<Rightarrow> FakeRelay \<Rightarrow> fake_pairing option" where
  "fake_channel ch r = (case mget (fr_channels r) ch of None \<Rightarrow> None | Some i \<Rightarrow> mget (fr_pairings r) i)"

definition conn_upd :: "(wsConn \<Rightarrow> wsConn) \<Rightarrow> nat \<Rightarrow> (nat, wsConn) gomap \<Rightarrow> (nat, wsConn) gomap" where
  "conn_upd f i cs = (case mget cs i of None \<Rightarrow> cs | Some w \<Rightarrow> mput i (f w) cs)"

definition fake_upd :: "(wsConn \<Rightarrow> wsConn) \<Rightarrow> nat list \<Rightarrow> FakeRelay \<Rightarrow> FakeRelay" where
  "fake_upd f is r = r\<lparr>fr_conns := fold (conn_upd f) is (fr_conns r)\<rparr>"

text \<open>\<open>delete\<close> on a set of connections: the set stays in the table when it becomes empty.\<close>

definition conns_remove :: "string \<Rightarrow> nat \<Rightarrow> (string, nat list) gomap \<Rightarrow> (string, nat list) gomap" where
  "conns_remove k i t = (case mget t k of None \<Rightarrow> t | Some xs \<Rightarrow> mput k (removeAll i xs) t)"

section \<open>Bindings and windows\<close>

definition hostHasPairings :: "string \<Rightarrow> FakeRelay \<Rightarrow> bool" where
  "hostHasPairings hostID r = list_ex (\<lambda>pr. pr_HostID pr = hostID) (mvals (fr_pairings r))"

definition bindingFor :: "string \<Rightarrow> FakeRelay \<Rightarrow> hostBinding option \<times> FakeRelay" where
  "bindingFor hostID r =
     (case mget (fr_bindings r) hostID of
        None \<Rightarrow> (None, r)
      | Some b \<Rightarrow>
          if \<not> hostHasPairings hostID r \<and> fc_BindingIdleReap (fr_cfg r) \<le> time_sub (fr_now r) (hb_lastAttach b)
          then (None, r\<lparr>fr_bindings := mdel hostID (fr_bindings r)\<rparr>)
          else (Some b, r))"

definition fake_bindHost :: "string \<Rightarrow> string \<Rightarrow> FakeRelay \<Rightarrow> bool \<times> FakeRelay" where
  "fake_bindHost hostID sub r =
     (case bindingFor hostID r of
        (Some b, r) \<Rightarrow>
          if hb_sub b \<noteq> sub then (False, r)
          else (True, r\<lparr>fr_bindings := mput hostID (b\<lparr>hb_lastAttach := fr_now r\<rparr>) (fr_bindings r)\<rparr>)
      | (None, r) \<Rightarrow>
          (True, r\<lparr>fr_bindings := mput hostID \<lparr>hb_sub = sub, hb_boundAt = fr_now r, hb_lastAttach = fr_now r\<rparr> (fr_bindings r)\<rparr>))"

definition windowForHost :: "string \<Rightarrow> FakeRelay \<Rightarrow> fake_window option" where
  "windowForHost hostID r = find (\<lambda>w. fw_hostID w = hostID \<and> \<not> fw_closed w) (mvals (fr_windows r))"

section \<open>Limiter\<close>

definition fake_allow :: "string \<Rightarrow> f64 \<Rightarrow> f64 \<Rightarrow> FakeRelay \<Rightarrow> bool \<times> FakeRelay" where
  "fake_allow key rate burst r =
     (if f64_le rate (Fin 0) then (True, r)
      else let burst = (if f64_less burst (Fin 1) then Fin 1 else burst);
               b = (case mget (fr_limiter r) key of None \<Rightarrow> \<lparr>bk_tokens = burst, bk_last = fr_now r\<rparr> | Some b \<Rightarrow> b);
               b = refill rate burst (fr_now r) b
           in if f64_le (Fin 1) (bk_tokens b)
              then (True, r\<lparr>fr_limiter := mput key (b\<lparr>bk_tokens := f64_sub (bk_tokens b) (Fin 1)\<rparr>) (fr_limiter r)\<rparr>)
              else (False, r\<lparr>fr_limiter := mput key b (fr_limiter r)\<rparr>))"

section \<open>Mailbox\<close>

text \<open>The prune loop advances an index to the first item younger than \<open>ttl\<close>.\<close>

function fake_prune_index :: "gotime \<Rightarrow> duration \<Rightarrow> mbxItem list \<Rightarrow> nat \<Rightarrow> int \<Rightarrow> nat \<times> int" where
  "fake_prune_index now ttl items i bytes =
     (if i < length items then
        (if time_sub now (mi_StoredAt (items ! i)) < ttl then (i, bytes)
         else fake_prune_index now ttl items (i + 1) (bytes - int (length (mi_Body (items ! i)))))
      else (i, bytes))"
  by pat_completeness auto
termination by (relation "measure (\<lambda>(now, ttl, items, i, bytes). length items - i)") auto

declare fake_prune_index.simps [simp del]

definition fake_prune :: "gotime \<Rightarrow> duration \<Rightarrow> fake_mailbox \<Rightarrow> fake_mailbox" where
  "fake_prune now ttl m =
     (let (i, b) = fake_prune_index now ttl (fm_items m) 0 (fm_bytes m) in \<lparr>fm_items = drop i (fm_items m), fm_bytes = b\<rparr>)"

fun fake_evict :: "int \<Rightarrow> int \<Rightarrow> mbxItem list \<Rightarrow> int \<Rightarrow> fake_mailbox" where
  "fake_evict maxFrames maxBytes [] b = \<lparr>fm_items = [], fm_bytes = b\<rparr>"
| "fake_evict maxFrames maxBytes (it # items) b =
     (if maxFrames < int (length (it # items)) \<or> maxBytes < b
      then fake_evict maxFrames maxBytes items (b - int (length (mi_Body it)))
      else \<lparr>fm_items = it # items, fm_bytes = b\<rparr>)"

definition fake_append :: "mbxItem \<Rightarrow> gotime \<Rightarrow> duration \<Rightarrow> int \<Rightarrow> int \<Rightarrow> fake_mailbox \<Rightarrow> fake_mailbox" where
  "fake_append it now ttl maxFrames maxBytes m =
     (let m = fake_prune now ttl m
      in fake_evict maxFrames maxBytes (fm_items m @ [it]) (fm_bytes m + int (length (mi_Body it))))"

fun fake_get_loop :: "uint64 \<Rightarrow> int \<Rightarrow> mbxItem list \<Rightarrow> mbxItem list \<Rightarrow> uint64 \<Rightarrow> mbxItem list \<times> uint64 \<times> bool" where
  "fake_get_loop after limit [] items nextAfter = (items, nextAfter, False)"
| "fake_get_loop after limit (it # its) items nextAfter =
     (if mi_Seq it \<le> after then fake_get_loop after limit its items nextAfter
      else if limit \<le> int (length items) then (items, nextAfter, True)
      else fake_get_loop after limit its (items @ [it]) (mi_Seq it))"

definition fake_get :: "uint64 \<Rightarrow> int \<Rightarrow> gotime \<Rightarrow> duration \<Rightarrow> fake_mailbox \<Rightarrow> (mbxItem list \<times> uint64 \<times> bool) \<times> fake_mailbox" where
  "fake_get after limit now ttl m =
     (let m = fake_prune now ttl m in (fake_get_loop after limit (fm_items m) [] after, m))"

section \<open>Presence\<close>

definition fake_presenceJSON :: "string \<Rightarrow> hostPresence \<Rightarrow> bytes" where
  "fake_presenceJSON hostID p =
     (let last = (if fp_lastSeen p = 0 then [] else format_rfc3339 (fp_lastSeen p))
      in marshal (JObj [(''host_id'', JStr hostID), (''online'', JBool (fp_online p)), (''last_seen'', JStr last)]))"

definition fake_devPresenceJSON :: "string \<Rightarrow> devPresence \<Rightarrow> bytes" where
  "fake_devPresenceJSON channelID p =
     (let last = (if fd_lastSeen p = 0 then [] else format_rfc3339 (fd_lastSeen p))
      in marshal (JObj [(''presence'', JStr ''device''), (''channel'', JStr channelID),
           (''attached'', JBool (fd_attached p)), (''last_seen'', JStr last)]))"

definition broadcastPresence :: "string \<Rightarrow> hostPresence \<Rightarrow> FakeRelay \<Rightarrow> FakeRelay" where
  "broadcastPresence hostID p r =
     fake_upd (sendText (fake_presenceJSON hostID p))
       (concat (map (\<lambda>(channelID, conns). case fake_channel channelID r of None \<Rightarrow> []
          | Some pr \<Rightarrow> if pr_HostID pr \<noteq> hostID then [] else conns) (fr_devConns r))) r"

definition fake_touchHost :: "string \<Rightarrow> FakeRelay \<Rightarrow> FakeRelay" where
  "fake_touchHost hostID r =
     (let now = fr_now r;
          p = (case mget (fr_presence r) hostID of None \<Rightarrow> \<lparr>fp_online = False, fp_lastSeen = 0, fp_timer = None\<rparr> | Some p \<Rightarrow> p);
          flipped = (\<not> fp_online p);
          p = p\<lparr>fp_lastSeen := now, fp_online := True\<rparr>;
          r = (if flipped then broadcastPresence hostID p r else r);
          p = p\<lparr>fp_timer := Some (case fp_timer p of None \<Rightarrow> AfterFunc (fc_OfflineAfter (fr_cfg r)) now
                | Some t \<Rightarrow> timer_Reset (fc_OfflineAfter (fr_cfg r)) now t)\<rparr>
      in r\<lparr>fr_presence := mput hostID p (fr_presence r)\<rparr>)"

definition fake_presenceDeadline :: "string \<Rightarrow> FakeRelay \<Rightarrow> FakeRelay" where
  "fake_presenceDeadline hostID r =
     (case mget (fr_presence r) hostID of None \<Rightarrow> r | Some p \<Rightarrow>
      let silent = time_sub (fr_now r) (fp_lastSeen p) in
      if silent < fc_OfflineAfter (fr_cfg r)
      then r\<lparr>fr_presence := mput hostID
             (p\<lparr>fp_timer := map_option (timer_Reset (fc_OfflineAfter (fr_cfg r) - silent) (fr_now r)) (fp_timer p)\<rparr>) (fr_presence r)\<rparr>
      else if fp_online p then
        let p = p\<lparr>fp_online := False\<rparr>
        in broadcastPresence hostID p (r\<lparr>fr_presence := mput hostID p (fr_presence r)\<rparr>)
      else r)"

definition setDevAttached :: "string \<Rightarrow> bool \<Rightarrow> FakeRelay \<Rightarrow> FakeRelay" where
  "setDevAttached channelID attached r =
     (let p = (case mget (fr_chanPres r) channelID of None \<Rightarrow> \<lparr>fd_attached = False, fd_lastSeen = 0\<rparr> | Some p \<Rightarrow> p);
          changed = (fd_attached p \<noteq> attached);
          p = p\<lparr>fd_attached := attached, fd_lastSeen := fr_now r\<rparr>;
          r = r\<lparr>fr_chanPres := mput channelID p (fr_chanPres r)\<rparr>
      in if \<not> changed then r
         else case fake_channel channelID r of None \<Rightarrow> r
           | Some pr \<Rightarrow> fake_upd (sendText (fake_devPresenceJSON channelID p)) (conns_of (fr_hostConns r) (pr_HostID pr)) r)"

section \<open>Authentication\<close>

text \<open>The seam of the double has one refusal, None.\<close>

type_synonym fake_validator = "string \<Rightarrow> string option"

definition FakeValidator_Validate :: fake_validator where
  "FakeValidator_Validate token =
     (case strip ''fake-'' token of None \<Rightarrow> None | Some sub \<Rightarrow> if sub = [] then None else Some sub)"

definition fake_bearerSub :: "fake_validator \<Rightarrow> Request \<Rightarrow> ErrCode + string" where
  "fake_bearerSub va req =
     (if list_ex (q_Has req) [''token'', ''access_token'', ''authorization'', ''bearer'', ''jwt'', ''id_token'']
      then Inl CodeUnauthenticated
      else case strip ''Bearer '' (rq_auth req) of None \<Rightarrow> Inl CodeUnauthenticated
        | Some tok \<Rightarrow> if tok = [] then Inl CodeUnauthenticated
            else case va tok of None \<Rightarrow> Inl CodeUnauthenticated | Some sub \<Rightarrow> Inr sub)"

section \<open>REST surface\<close>

text \<open>\<open>json.NewDecoder(req.Body).Decode\<close>: the first value of the body; unknown members are ignored.\<close>

definition fake_decode :: "Request \<Rightarrow> (json \<Rightarrow> 'a option) \<Rightarrow> 'a option" where
  "fake_decode req dst = (case decode_first (bytes_str (rq_body req)) of None \<Rightarrow> None | Some (v, _) \<Rightarrow> dst v)"

definition lax :: "(string option \<Rightarrow> json \<Rightarrow> 'a \<Rightarrow> 'a option) \<Rightarrow> string option \<Rightarrow> json \<Rightarrow> 'a \<Rightarrow> 'a option" where
  "lax set_field f v x = (case f of None \<Rightarrow> Some x | Some k \<Rightarrow> set_field (Some k) v x)"

definition fake_window_body :: "json \<Rightarrow> string option" where
  "fake_window_body v = into_struct [''host_id''] (lax window_field) v []"

definition fake_pairing_body :: "json \<Rightarrow> pairing_req option" where
  "fake_pairing_body v = into_struct [''channel_id'', ''host_id'', ''device_id'', ''host_label''] (lax pairing_field) v
     \<lparr>pq_ChannelID = [], pq_HostID = [], pq_DeviceID = [], pq_HostLabel = None\<rparr>"

text \<open>Closing a window: the connections of its pairing attaches are the caller's to close.\<close>

definition expireWindowLocked :: "fake_window \<Rightarrow> FakeRelay \<Rightarrow> nat list \<times> FakeRelay" where
  "expireWindowLocked win r =
     (if fw_closed win then ([], r)
      else (conns_of (fr_pairConns r) (fw_id win),
        r\<lparr>fr_provChans := mdel (fw_provisionalChannel win) (fr_provChans r), fr_windows := mdel (fw_id win) (fr_windows r),
          fr_pairConns := mdel (fw_id win) (fr_pairConns r)\<rparr>))"

definition close_all :: "nat list \<Rightarrow> FakeRelay \<Rightarrow> FakeRelay" where
  "close_all conns r = fake_upd (conn_close (close_code CodeWindowClosed) (code_str CodeWindowClosed)) conns r"

definition fake_expireWindow :: "string \<Rightarrow> FakeRelay \<Rightarrow> FakeRelay" where
  "fake_expireWindow i r =
     (case mget (fr_windows r) i of None \<Rightarrow> r | Some win \<Rightarrow>
      let (conns, r) = expireWindowLocked win r in close_all conns r)"

definition fake_handleOpenWindow :: "fake_validator \<Rightarrow> Request \<Rightarrow> string \<Rightarrow> string \<Rightarrow> FakeRelay \<Rightarrow> Response \<times> FakeRelay" where
  "fake_handleOpenWindow va req id1 id2 r =
     (case fake_bearerSub va req of Inl ec \<Rightarrow> (writeError ec bearer_msg, r) | Inr sub \<Rightarrow>
      case fake_decode req fake_window_body of None \<Rightarrow> (writeError CodeProtocolViolation window_msg, r) | Some hostID \<Rightarrow>
      if \<not> validID hostID then (writeError CodeProtocolViolation window_msg, r)
      else
      let (rate, burst) = perHour (lt_PairingWindowsPerHour (fc_Limits (fr_cfg r)));
          (ok, r) = fake_allow (''windows:'' @ hostID) rate burst r
      in if \<not> ok then (writeErrorRetry CodeRateLimited ''pairing-window limit'' 3600, r)
      else
      let (b, r) = bindingFor hostID r in
      if (case b of None \<Rightarrow> True | Some b \<Rightarrow> hb_sub b \<noteq> sub)
      then (writeError CodeForbidden ''host_id is not bound to this account'', r)
      else
      let (displaced, r) = (case windowForHost hostID r of None \<Rightarrow> ([], r) | Some old \<Rightarrow> expireWindowLocked old r);
          win = \<lparr>fw_id = id1, fw_hostID = hostID, fw_provisionalChannel = id2, fw_expiresAt = fr_now r + fc_WindowTTL (fr_cfg r),
                 fw_timer = AfterFunc (fc_WindowTTL (fr_cfg r)) (fr_now r), fw_closed = False, fw_attaches = 0\<rparr>;
          r = r\<lparr>fr_windows := mput id1 win (fr_windows r), fr_provChans := mput id2 id1 (fr_provChans r)\<rparr>;
          r = close_all displaced r
      in (json_response 201 (JObj [(''expires_at'', JStr (format_rfc3339 (fw_expiresAt win))),
            (''provisional_channel'', JStr (fw_provisionalChannel win)), (''window_id'', JStr (fw_id win))]), r))"

definition fake_handleCloseWindow :: "fake_validator \<Rightarrow> Request \<Rightarrow> FakeRelay \<Rightarrow> Response \<times> FakeRelay" where
  "fake_handleCloseWindow va req r =
     (case fake_bearerSub va req of Inl ec \<Rightarrow> (writeError ec bearer_msg, r) | Inr sub \<Rightarrow>
      case mget (fr_windows r) (rq_pathID req) of None \<Rightarrow> (writeError CodeNotFound ''unknown pairing window'', r) | Some win \<Rightarrow>
      let (b, r) = bindingFor (fw_hostID win) r in
      if (case b of None \<Rightarrow> True | Some b \<Rightarrow> hb_sub b \<noteq> sub)
      then (writeError CodeForbidden ''window belongs to a different account'', r)
      else (no_content, fake_expireWindow (rq_pathID req) r))"

definition fake_handleCreatePairing :: "fake_validator \<Rightarrow> Request \<Rightarrow> string \<Rightarrow> FakeRelay \<Rightarrow> Response \<times> FakeRelay" where
  "fake_handleCreatePairing va req id1 r =
     (case fake_bearerSub va req of Inl ec \<Rightarrow> (writeError ec bearer_msg, r) | Inr sub \<Rightarrow>
      let (rate, burst) = perHour (lt_PairingsPerHour (fc_Limits (fr_cfg r)));
          (ok, r) = fake_allow (''pairings:'' @ sub) rate burst r
      in if \<not> ok then (writeErrorRetry CodeRateLimited ''pairing registration limit'' 3600, r)
      else case fake_decode req fake_pairing_body of
        None \<Rightarrow> (writeError CodeProtocolViolation ''channel_id, host_id, device_id must be 22-char canonical base64url'', r)
      | Some b \<Rightarrow>
      if \<not> validID (pq_ChannelID b) \<or> \<not> validID (pq_HostID b) \<or> \<not> validID (pq_DeviceID b)
      then (writeError CodeProtocolViolation ''channel_id, host_id, device_id must be 22-char canonical base64url'', r)
      else if (case pq_HostLabel b of None \<Rightarrow> False | Some l \<Rightarrow> 64 < length l)
      then (writeError CodeProtocolViolation ''host_label exceeds 64 UTF-8 bytes'', r)
      else
      let (bd, r) = bindingFor (pq_HostID b) r in
      if (case bd of None \<Rightarrow> True | Some bd \<Rightarrow> hb_sub bd \<noteq> sub)
      then (writeError CodeForbidden ''host_id is not bound to this account'', r)
      else if mget (fr_channels r) (pq_ChannelID b) \<noteq> None
      then (writeError CodeConflict ''channel_id already registered'', r)
      else
      let pr = \<lparr>pr_PairingID = id1, pr_ChannelID = pq_ChannelID b, pr_HostID = pq_HostID b, pr_DeviceID = pq_DeviceID b,
                pr_AccountSub = sub, pr_HostLabel = pq_HostLabel b, pr_CreatedAt = fr_now r\<rparr>
      in (json_response 201 (JObj [(''pairing_id'', JStr (pr_PairingID pr))]),
          r\<lparr>fr_pairings := mput (pr_PairingID pr) pr (fr_pairings r), fr_channels := mput (pr_ChannelID pr) (pr_PairingID pr) (fr_channels r)\<rparr>))"

definition fake_handlePatchPairing :: "fake_validator \<Rightarrow> Request \<Rightarrow> FakeRelay \<Rightarrow> Response \<times> FakeRelay" where
  "fake_handlePatchPairing va req r =
     (case fake_bearerSub va req of Inl ec \<Rightarrow> (writeError ec bearer_msg, r) | Inr sub \<Rightarrow>
      case fake_decode req raw_body of None \<Rightarrow> (writeError CodeProtocolViolation ''malformed body'', r) | Some raw \<Rightarrow>
      case mget raw ''host_label'' of
        None \<Rightarrow> (writeError CodeProtocolViolation ''body must carry host_label (string or null)'', r)
      | Some labelRaw \<Rightarrow>
      case (case labelRaw of JNull \<Rightarrow> Some None | JStr s \<Rightarrow> if 64 < length s then None else Some (Some s) | _ \<Rightarrow> None) of
        None \<Rightarrow> (writeError CodeProtocolViolation ''host_label must be a string of at most 64 UTF-8 bytes, or null'', r)
      | Some label \<Rightarrow>
      case mget (fr_pairings r) (rq_pathID req) of None \<Rightarrow> (writeError CodeNotFound ''unknown pairing'', r) | Some pr \<Rightarrow>
      if pr_AccountSub pr \<noteq> sub then (writeError CodeForbidden ''pairing belongs to a different account'', r)
      else (no_content, r\<lparr>fr_pairings := mput (rq_pathID req) (pr\<lparr>pr_HostLabel := label\<rparr>) (fr_pairings r)\<rparr>))"

definition fake_handleDeletePairing :: "fake_validator \<Rightarrow> Request \<Rightarrow> FakeRelay \<Rightarrow> Response \<times> FakeRelay" where
  "fake_handleDeletePairing va req r =
     (case fake_bearerSub va req of Inl ec \<Rightarrow> (writeError ec bearer_msg, r) | Inr sub \<Rightarrow>
      case mget (fr_pairings r) (rq_pathID req) of None \<Rightarrow> (writeError CodeNotFound ''unknown pairing'', r) | Some pr \<Rightarrow>
      if pr_AccountSub pr \<noteq> sub then (writeError CodeForbidden ''pairing belongs to a different account'', r)
      else
      let r = r\<lparr>fr_pairings := mdel (pr_PairingID pr) (fr_pairings r), fr_channels := mdel (pr_ChannelID pr) (fr_channels r),
                fr_mailboxes := mdel (pr_ChannelID pr) (fr_mailboxes r), fr_chanPres := mdel (pr_ChannelID pr) (fr_chanPres r)\<rparr>;
          stillPaired = list_ex (\<lambda>other. pr_DeviceID other = pr_DeviceID pr) (mvals (fr_pairings r));
          r = (if stillPaired then r else r\<lparr>fr_apnsTok := mdel (pr_DeviceID pr) (fr_apnsTok r)\<rparr>);
          conns = conns_of (fr_devConns r) (pr_ChannelID pr);
          r = r\<lparr>fr_devConns := mdel (pr_ChannelID pr) (fr_devConns r)\<rparr>
      in (no_content, fake_upd (conn_close (close_code CodeForbidden) ''pairing deleted'') conns r))"

definition fake_handleMailboxGet :: "fake_validator \<Rightarrow> Request \<Rightarrow> FakeRelay \<Rightarrow> Response \<times> FakeRelay" where
  "fake_handleMailboxGet va req r =
     (case fake_bearerSub va req of Inl ec \<Rightarrow> (writeError ec bearer_msg, r) | Inr sub \<Rightarrow>
      let channel = rq_pathID req in
      case fake_channel channel r of None \<Rightarrow> (writeError CodeNotFound ''unknown channel'', r) | Some pr \<Rightarrow>
      if pr_AccountSub pr \<noteq> sub then (writeError CodeForbidden ''channel is not paired to this account'', r)
      else
      let (rate, burst) = perMinute (lt_MailboxGetPerMin (fc_Limits (fr_cfg r)));
          (ok, r) = fake_allow (''mbxget:'' @ pr_DeviceID pr) rate burst r
      in if \<not> ok then (writeErrorRetry CodeRateLimited ''mailbox fetch limit'' 60, r)
      else case (if q_Get req ''after'' = [] then Some 0 else ParseUint (q_Get req ''after'')) of
        None \<Rightarrow> (writeError CodeProtocolViolation ''after must be a uint64'', r)
      | Some after \<Rightarrow>
      case (if q_Get req ''limit'' = [] then Some 64
            else case ParseInt (q_Get req ''limit'') of None \<Rightarrow> None
              | Some v \<Rightarrow> if v < 1 then None else if 256 < v then Some 256 else Some v) of
        None \<Rightarrow> (writeError CodeProtocolViolation ''limit must be a positive integer'', r)
      | Some limit \<Rightarrow>
      case mget (fr_mailboxes r) channel of
        None \<Rightarrow> (json_response 200 (mailbox_json [] after False), r)
      | Some mb \<Rightarrow>
          let ((items, nextAfter, truncated), mb) = fake_get after limit (fr_now r) (fc_MailboxTTL (fr_cfg r)) mb
          in (json_response 200 (mailbox_json items nextAfter truncated), r\<lparr>fr_mailboxes := mput channel mb (fr_mailboxes r)\<rparr>))"

definition fake_handleAPNSRegister :: "fake_validator \<Rightarrow> Request \<Rightarrow> FakeRelay \<Rightarrow> Response \<times> FakeRelay" where
  "fake_handleAPNSRegister va req r =
     (case fake_bearerSub va req of Inl ec \<Rightarrow> (writeError ec bearer_msg, r) | Inr sub \<Rightarrow>
      let deviceID = rq_pathID req;
          (rate, burst) = perHour (lt_APNSRegsPerHour (fc_Limits (fr_cfg r)));
          (ok, r) = fake_allow (''apns:'' @ deviceID) rate burst r
      in if \<not> ok then (writeErrorRetry CodeRateLimited ''APNs registration limit'' 3600, r)
      else case fake_decode req apns_body of
        None \<Rightarrow> (writeError CodeProtocolViolation ''body must be exactly {token, env: sandbox|production}'', r)
      | Some (token, env) \<Rightarrow>
      if token = [] \<or> env \<noteq> ''sandbox'' \<and> env \<noteq> ''production''
      then (writeError CodeProtocolViolation ''body must be exactly {token, env: sandbox|production}'', r)
      else if \<not> list_ex (\<lambda>pr. pr_DeviceID pr = deviceID) (mvals (fr_pairings r))
      then (writeError CodeNotFound ''unknown device'', r)
      else if \<not> list_ex (\<lambda>pr. pr_DeviceID pr = deviceID \<and> pr_AccountSub pr = sub) (mvals (fr_pairings r))
      then (writeError CodeForbidden ''device is paired to a different account'', r)
      else (no_content, r\<lparr>fr_apnsTok := mput deviceID \<lparr>at_DeviceID = deviceID, at_Token = token, at_Env = env\<rparr> (fr_apnsTok r)\<rparr>))"

section \<open>WebSocket surface\<close>

definition fake_add_conn :: "wsConn \<Rightarrow> FakeRelay \<Rightarrow> nat \<times> FakeRelay" where
  "fake_add_conn w r = (fr_next r, r\<lparr>fr_conns := mput (fr_next r) w (fr_conns r), fr_next := fr_next r + 1\<rparr>)"

definition fake_handleHostWS_admit :: "fake_validator \<Rightarrow> Request \<Rightarrow> FakeRelay \<Rightarrow> (Response + string \<times> string) \<times> FakeRelay" where
  "fake_handleHostWS_admit va req r =
     (case fake_bearerSub va req of Inl ec \<Rightarrow> (Inl (writeError ec bearer_msg), r) | Inr sub \<Rightarrow>
      if q_Has req ''channel'' then (Inl (writeError CodeProtocolViolation ''channel is not a host attach parameter''), r)
      else if \<not> validID (q_Get req ''host_id'')
      then (Inl (writeError CodeProtocolViolation ''host_id must be 22-char canonical base64url''), r)
      else let (ok, r) = fake_bindHost (q_Get req ''host_id'') sub r in
        if \<not> ok then (Inl (writeError CodeForbidden ''host_id is registered to a different account''), r)
        else (Inr (sub, q_Get req ''host_id''), r))"

definition fake_handleHostWS_join :: "string \<Rightarrow> string \<Rightarrow> FakeRelay \<Rightarrow> nat \<times> FakeRelay" where
  "fake_handleHostWS_join sub hostID r =
     (let (i, r) = fake_add_conn (newWSConn\<lparr>wc_role := ''host'', wc_sub := sub, wc_hostID := hostID\<rparr>) r;
          r = r\<lparr>fr_hostConns := conns_add hostID i (fr_hostConns r)\<rparr>;
          r = fake_touchHost hostID r;
          mine = filter (\<lambda>ch. case fake_channel ch r of None \<Rightarrow> False | Some pr \<Rightarrow> pr_HostID pr = hostID) (map fst (fr_channels r));
          presence = (\<lambda>ch. case mget (fr_chanPres r) ch of None \<Rightarrow> \<lparr>fd_attached = False, fd_lastSeen = 0\<rparr> | Some p \<Rightarrow> p)
      in (i, fold (\<lambda>ch. fake_upd (sendText (fake_devPresenceJSON ch (presence ch))) [i]) mine r))"

definition fake_handleHostWS_cleanup :: "nat \<Rightarrow> string \<Rightarrow> FakeRelay \<Rightarrow> FakeRelay" where
  "fake_handleHostWS_cleanup i hostID r =
     (let r = r\<lparr>fr_hostConns := conns_remove hostID i (fr_hostConns r)\<rparr>;
          r = (case mget (fr_bindings r) hostID of None \<Rightarrow> r
               | Some b \<Rightarrow> r\<lparr>fr_bindings := mput hostID (b\<lparr>hb_lastAttach := fr_now r\<rparr>) (fr_bindings r)\<rparr>)
      in fake_upd (conn_close 1000 []) [i] r)"

definition fake_conn_at :: "nat \<Rightarrow> FakeRelay \<Rightarrow> wsConn" where
  "fake_conn_at i r = (case mget (fr_conns r) i of None \<Rightarrow> newWSConn | Some w \<Rightarrow> w)"

definition fake_close_with :: "ErrCode \<Rightarrow> string \<Rightarrow> nat \<Rightarrow> FakeRelay \<Rightarrow> bool \<times> FakeRelay" where
  "fake_close_with code reason i r = (False, fake_upd (conn_close (close_code code) reason) [i] r)"

definition fake_maybePush :: "fake_pairing \<Rightarrow> Header \<Rightarrow> FakeRelay \<Rightarrow> FakeRelay" where
  "fake_maybePush pr h r =
     (if hd_PushClass h = PushNone then r
      else case mget (fr_apnsTok r) (pr_DeviceID pr) of None \<Rightarrow> r | Some reg \<Rightarrow>
      let record_push = (\<lambda>payload. r\<lparr>fr_pushes := fr_pushes r @ [\<lparr>pu_DeviceID = pr_DeviceID pr, pu_Token = at_Token reg,
            pu_Env = at_Env reg, pu_Payload = payload\<rparr>]\<rparr>)
      in if hd_PushClass h = PushWake then record_push (wakePayload (hd_Channel h) (hd_Seq h))
         else if hd_PushClass h = PushAttention then record_push (attentionPayload (pr_HostLabel pr) (hd_Channel h) (hd_Seq h))
         else r)"

definition hostFrame :: "nat \<Rightarrow> bytes \<Rightarrow> FakeRelay \<Rightarrow> bool \<times> FakeRelay" where
  "hostFrame i raw r =
     (let hostID = wc_hostID (fake_conn_at i r); cfg = fr_cfg r in
      if fc_MaxFrameSize cfg < int (length raw) then fake_close_with CodeFrameTooLarge (code_str CodeFrameTooLarge) i r
      else case DecodeFrame raw (fc_MaxHeaderLen cfg) of
        Inl _ \<Rightarrow> fake_close_with CodeProtocolViolation (code_str CodeProtocolViolation) i r
      | Inr (h, body) \<Rightarrow>
      let (ok, r) = fake_allow (''hostframes:'' @ hostID) (lt_HostFramesPerSec (fc_Limits cfg)) (lt_HostFramesBurst (fc_Limits cfg)) r
      in if \<not> ok then fake_close_with CodeRateLimited (code_str CodeRateLimited) i r
      else
      case (case mget (fr_provChans r) (hd_Channel h) of None \<Rightarrow> None | Some w \<Rightarrow> mget (fr_windows r) w) of
        Some win \<Rightarrow>
          if fw_hostID win \<noteq> hostID \<or> fw_closed win
          then (True, fake_upd (sendText (controlError CodeNotFound (hd_Channel h))) [i] r)
          else (True, fake_upd (sendBinary raw) (conns_of (fr_pairConns r) (fw_id win)) r)
      | None \<Rightarrow>
      case fake_channel (hd_Channel h) r of
        None \<Rightarrow> (True, fake_upd (sendText (controlError CodeNotFound (hd_Channel h))) [i] r)
      | Some pr \<Rightarrow>
      if pr_HostID pr \<noteq> hostID then (True, fake_upd (sendText (controlError CodeNotFound (hd_Channel h))) [i] r)
      else if 0 < length (conns_of (fr_devConns r) (hd_Channel h))
      then (True, fake_upd (sendBinary raw) (conns_of (fr_devConns r) (hd_Channel h)) r)
      else
      let mb = (case mget (fr_mailboxes r) (hd_Channel h) of None \<Rightarrow> \<lparr>fm_items = [], fm_bytes = 0\<rparr> | Some mb \<Rightarrow> mb);
          mb = fake_append \<lparr>mi_Seq = hd_Seq h, mi_PushClass = hd_PushClass h, mi_Body = body, mi_StoredAt = fr_now r\<rparr> (fr_now r)
                 (fc_MailboxTTL cfg) (fc_MailboxMaxFrames cfg) (fc_MailboxMaxBytes cfg) mb;
          r = r\<lparr>fr_mailboxes := mput (hd_Channel h) mb (fr_mailboxes r)\<rparr>
      in (True, fake_maybePush pr h r))"

definition fake_handleHostWS_message :: "nat \<Rightarrow> string \<Rightarrow> MessageType \<Rightarrow> bytes \<Rightarrow> FakeRelay \<Rightarrow> bool \<times> FakeRelay" where
  "fake_handleHostWS_message i hostID typ data r =
     (let r = fake_touchHost hostID r in if typ \<noteq> MessageBinary then (True, r) else hostFrame i data r)"

text \<open>What an admitted device carries to its join: the window id and the provisional channel, or the
  channel and its host.\<close>

datatype fake_ticket = FakePairing string string string | FakeDurable string string string

definition fake_devicePairingAttach_admit :: "string \<Rightarrow> string \<Rightarrow> FakeRelay \<Rightarrow> (Response + fake_ticket) \<times> FakeRelay" where
  "fake_devicePairingAttach_admit sub hostWire r =
     (let refuse = writeError CodeWindowClosed ''no open pairing window'' in
      if \<not> validID hostWire then (Inl refuse, r)
      else
      let (b, r) = bindingFor hostWire r in
      if (case b of None \<Rightarrow> True | Some b \<Rightarrow> hb_sub b \<noteq> sub) then (Inl refuse, r)
      else case windowForHost hostWire r of None \<Rightarrow> (Inl refuse, r) | Some win \<Rightarrow>
      if fw_expiresAt win \<le> fr_now r then (Inl refuse, r)
      else let cap = lt_PairingAttachesPerWindow (fc_Limits (fr_cfg r)) in
      if 0 < cap \<and> cap \<le> fw_attaches win then (Inl refuse, r)
      else (Inr (FakePairing sub (fw_id win) (fw_provisionalChannel win)),
        r\<lparr>fr_windows := mput (fw_id win) (win\<lparr>fw_attaches := fw_attaches win + 1\<rparr>) (fr_windows r)\<rparr>))"

definition fake_deviceChannelAttach_admit :: "Request \<Rightarrow> string \<Rightarrow> FakeRelay \<Rightarrow> (Response + fake_ticket) \<times> FakeRelay" where
  "fake_deviceChannelAttach_admit req sub r =
     (let channel = q_Get req ''channel''; cap = lt_DeviceAttachPerChannel (fc_Limits (fr_cfg r)) in
      if \<not> validID channel then (Inl (writeError CodeProtocolViolation ''channel must be 22-char canonical base64url''), r)
      else case fake_channel channel r of None \<Rightarrow> (Inl (writeError CodeNotFound ''unknown channel''), r) | Some pr \<Rightarrow>
      if pr_AccountSub pr \<noteq> sub then (Inl (writeError CodeForbidden ''channel is not paired to this account''), r)
      else if 0 < cap \<and> cap \<le> int (length (conns_of (fr_devConns r) channel))
      then (Inl (writeErrorRetry CodeRateLimited ''concurrent attachment limit for this channel'' 60), r)
      else (Inr (FakeDurable sub channel (pr_HostID pr)), r))"

definition fake_handleDeviceWS_admit :: "fake_validator \<Rightarrow> Request \<Rightarrow> FakeRelay \<Rightarrow> (Response + fake_ticket) \<times> FakeRelay" where
  "fake_handleDeviceWS_admit va req r =
     (case fake_bearerSub va req of Inl ec \<Rightarrow> (Inl (writeError ec bearer_msg), r) | Inr sub \<Rightarrow>
      if q_Get req ''host'' \<noteq> [] then fake_devicePairingAttach_admit sub (q_Get req ''host'') r
      else fake_deviceChannelAttach_admit req sub r)"

definition fake_devicePairingAttach_join :: "string \<Rightarrow> string \<Rightarrow> string \<Rightarrow> FakeRelay \<Rightarrow> nat \<times> FakeRelay" where
  "fake_devicePairingAttach_join sub winID provisional r =
     (let w = newWSConn\<lparr>wc_role := ''pairing-device'', wc_sub := sub, wc_winID := winID\<rparr>;
          first = marshal (JObj [(''provisional_channel'', JStr provisional)]);
          (i, r) = fake_add_conn (sendText first w) r
      in (i, r\<lparr>fr_pairConns := conns_add winID i (fr_pairConns r)\<rparr>))"

definition fake_deviceChannelAttach_join :: "string \<Rightarrow> string \<Rightarrow> string \<Rightarrow> FakeRelay \<Rightarrow> nat \<times> FakeRelay" where
  "fake_deviceChannelAttach_join sub channel hostID r =
     (let (i, r) = fake_add_conn (newWSConn\<lparr>wc_role := ''device'', wc_sub := sub, wc_channel := channel\<rparr>) r;
          r = r\<lparr>fr_devConns := conns_add channel i (fr_devConns r)\<rparr>;
          p = (case mget (fr_presence r) hostID of None \<Rightarrow> \<lparr>fp_online = False, fp_lastSeen = 0, fp_timer = None\<rparr> | Some p \<Rightarrow> p);
          r = fake_upd (sendText (fake_presenceJSON hostID p)) [i] r
      in (i, if length (conns_of (fr_devConns r) channel) = 1 then setDevAttached channel True r else r))"

text \<open>The clean-up closures, then the deferred close of \<open>deviceReadLoop\<close>.\<close>

definition fake_devicePairingAttach_cleanup :: "nat \<Rightarrow> string \<Rightarrow> FakeRelay \<Rightarrow> FakeRelay" where
  "fake_devicePairingAttach_cleanup i winID r =
     fake_upd (conn_close 1000 []) [i] (r\<lparr>fr_pairConns := conns_remove winID i (fr_pairConns r)\<rparr>)"

definition fake_deviceChannelAttach_cleanup :: "nat \<Rightarrow> string \<Rightarrow> FakeRelay \<Rightarrow> FakeRelay" where
  "fake_deviceChannelAttach_cleanup i channel r =
     (let m = mget (fr_devConns r) channel;
          r = r\<lparr>fr_devConns := conns_remove channel i (fr_devConns r)\<rparr>;
          r = (case m of None \<Rightarrow> r | Some xs \<Rightarrow> if removeAll i xs = [] then setDevAttached channel False r else r)
      in fake_upd (conn_close 1000 []) [i] r)"

definition deviceFrame :: "nat \<Rightarrow> string \<Rightarrow> bytes \<Rightarrow> FakeRelay \<Rightarrow> bool \<times> FakeRelay" where
  "deviceFrame i boundChannel raw r =
     (let w = fake_conn_at i r; cfg = fr_cfg r in
      if fc_MaxFrameSize cfg < int (length raw) then fake_close_with CodeFrameTooLarge (code_str CodeFrameTooLarge) i r
      else case DecodeFrame raw (fc_MaxHeaderLen cfg) of
        Inl _ \<Rightarrow> fake_close_with CodeProtocolViolation (code_str CodeProtocolViolation) i r
      | Inr (h, _) \<Rightarrow>
      if hd_PushClass h \<noteq> PushNone then fake_close_with CodeProtocolViolation ''device-set push_class'' i r
      else if hd_Channel h \<noteq> boundChannel then fake_close_with CodeForbidden ''frame channel does not match attachment'' i r
      else
      let (ok, r) = fake_allow (''devframes:'' @ wc_sub w @ '':'' @ boundChannel) (lt_DeviceFramesPerSec (fc_Limits cfg))
                      (lt_DeviceFramesBurst (fc_Limits cfg)) r
      in if \<not> ok then fake_close_with CodeRateLimited (code_str CodeRateLimited) i r
      else case (if wc_role w = ''pairing-device''
                 then (case mget (fr_windows r) (wc_winID w) of None \<Rightarrow> Inl CodeWindowClosed
                       | Some win \<Rightarrow> if fw_closed win then Inl CodeWindowClosed else Inr (fw_hostID win))
                 else (case fake_channel boundChannel r of None \<Rightarrow> Inl CodeForbidden | Some pr \<Rightarrow> Inr (pr_HostID pr))) of
        Inl code \<Rightarrow> fake_close_with code (code_str code) i r
      | Inr hostID \<Rightarrow>
          let conns = conns_of (fr_hostConns r) hostID in
          if length conns = 0 then (True, fake_upd (sendText (controlError CodePeerUnavailable (hd_Channel h))) [i] r)
          else (True, fake_upd (sendBinary raw) conns r))"

definition fake_deviceReadLoop_message :: "nat \<Rightarrow> string \<Rightarrow> MessageType \<Rightarrow> bytes \<Rightarrow> FakeRelay \<Rightarrow> bool \<times> FakeRelay" where
  "fake_deviceReadLoop_message i boundChannel typ data r =
     (if typ \<noteq> MessageBinary then (True, r) else deviceFrame i boundChannel data r)"

section \<open>Mux and clock\<close>

definition fake_serve :: "fake_validator \<Rightarrow> Request \<Rightarrow> string \<Rightarrow> string \<Rightarrow> string \<Rightarrow> string list \<Rightarrow> FakeRelay \<Rightarrow> (Response \<times> FakeRelay) option" where
  "fake_serve va req id1 id2 meth path r =
     (let sel = (\<lambda>i. req\<lparr>rq_pathID := i\<rparr>); plain = \<lparr>rp_Status = 200, rp_ContentType = None, rp_RetryAfter = None, rp_Body = str_bytes ''ok''\<rparr> in
      if meth = ''GET'' \<and> (path = [''healthz''] \<or> path = [''readyz'']) then Some (plain, r)
      else if meth = ''POST'' \<and> path = [''v1'', ''pairing-windows''] then Some (fake_handleOpenWindow va req id1 id2 r)
      else if meth = ''POST'' \<and> path = [''v1'', ''pairings''] then Some (fake_handleCreatePairing va req id1 r)
      else case path of
        [v, coll, i] \<Rightarrow>
          if v \<noteq> ''v1'' then None
          else if meth = ''DELETE'' \<and> coll = ''pairing-windows'' then Some (fake_handleCloseWindow va (sel i) r)
          else if meth = ''PATCH'' \<and> coll = ''pairings'' then Some (fake_handlePatchPairing va (sel i) r)
          else if meth = ''DELETE'' \<and> coll = ''pairings'' then Some (fake_handleDeletePairing va (sel i) r)
          else None
      | [v, coll, i, leaf] \<Rightarrow>
          if v \<noteq> ''v1'' then None
          else if meth = ''GET'' \<and> coll = ''channels'' \<and> leaf = ''frames'' then Some (fake_handleMailboxGet va (sel i) r)
          else if meth = ''PUT'' \<and> coll = ''devices'' \<and> leaf = ''apns'' then Some (fake_handleAPNSRegister va (sel i) r)
          else None
      | _ \<Rightarrow> None)"

text \<open>A due timer fires: it is disarmed and its callback becomes pending.\<close>

definition fire_presence :: "string \<Rightarrow> FakeRelay \<Rightarrow> FakeRelay" where
  "fire_presence hostID r =
     (case mget (fr_presence r) hostID of None \<Rightarrow> r | Some p \<Rightarrow>
      case fp_timer p of None \<Rightarrow> r | Some t \<Rightarrow>
      if tm_active t \<and> tm_deadline t \<le> fr_now r
      then r\<lparr>fr_presence := mput hostID (p\<lparr>fp_timer := Some (timer_Stop t)\<rparr>) (fr_presence r), fr_fired := fr_fired r @ [PresenceDeadline hostID]\<rparr>
      else r)"

definition fire_window :: "string \<Rightarrow> FakeRelay \<Rightarrow> FakeRelay" where
  "fire_window i r =
     (case mget (fr_windows r) i of None \<Rightarrow> r | Some win \<Rightarrow>
      if tm_active (fw_timer win) \<and> tm_deadline (fw_timer win) \<le> fr_now r
      then r\<lparr>fr_windows := mput i (win\<lparr>fw_timer := timer_Stop (fw_timer win)\<rparr>) (fr_windows r), fr_fired := fr_fired r @ [ExpireWindow i]\<rparr>
      else r)"

fun fake_callback :: "callback \<Rightarrow> FakeRelay \<Rightarrow> FakeRelay" where
  "fake_callback (PresenceDeadline hostID) r = fake_presenceDeadline hostID r"
| "fake_callback (ExpireWindow i) r = fake_expireWindow i r"

definition run_fired :: "FakeRelay \<Rightarrow> FakeRelay" where
  "run_fired r = (case fr_fired r of [] \<Rightarrow> r | c # cs \<Rightarrow> fake_callback c (r\<lparr>fr_fired := cs\<rparr>))"

end
