(* ===== verification/FakeRefine.thy ===== *)
theory FakeRefine
  imports FakeRelay Registry
begin

text \<open>
  The test double against the relay. Its tables for bindings, pairings, mailboxes and push tokens are
  the rows of a store: \<open>shadow\<close> is a relay with that store and nothing attached. Every step of the
  double is a sequence of the relay's own primitive effects on its shadow, so the double keeps the
  relay invariant and implements the same registry.
\<close>

section \<open>The shadow\<close>

definition kmap :: "('k \<Rightarrow> 'v \<Rightarrow> 'w) \<Rightarrow> ('k, 'v) gomap \<Rightarrow> ('k, 'w) gomap" where
  "kmap f m = map (\<lambda>(k, v). (k, f k v)) m"

lemma kmap_simps [simp]:
  "kmap f [] = []" "mget (kmap f m) k = map_option (f k) (mget m k)"
  "kmap f (mput k v m) = mput k (f k v) (kmap f m)" "kmap f (mdel k m) = mdel k (kmap f m)"
  by (induction m) (auto simp: kmap_def mget_def mput_def mdel_def)

definition binding_row :: "string \<Rightarrow> hostBinding \<Rightarrow> Binding" where
  "binding_row h b = \<lparr>bd_HostID = h, bd_AccountSub = hb_sub b, bd_BoundAt = hb_boundAt b, bd_LastAttachAt = hb_lastAttach b\<rparr>"

definition box :: "fake_mailbox \<Rightarrow> mailbox" where
  "box m = \<lparr>mb_items = fm_items m, mb_bytes = fm_bytes m\<rparr>"

definition fake_store :: "FakeRelay \<Rightarrow> MemStore" where
  "fake_store r = \<lparr>ms_idleReap = fc_BindingIdleReap (fr_cfg r), ms_bindings = kmap binding_row (fr_bindings r),
     ms_pairings = fr_pairings r, ms_byChannel = fr_channels r, ms_windows = [], ms_winByHost = [],
     ms_mailboxes = kmap (\<lambda>_. box) (fr_mailboxes r), ms_apns = fr_apnsTok r, ms_hostPres = [], ms_devPres = []\<rparr>"

text \<open>The double has no heartbeat interval; a relay's must be positive and below the offline allowance.\<close>

definition as_Config :: "FakeConfig \<Rightarrow> Config" where
  "as_Config c = \<lparr>cf_Store = Some ''MemStore'', cf_Validator = Some ''FakeValidator'', cf_Clock = Some ''FakeClock'',
     cf_Logger = None, cf_Pusher = Some ''APNSRecorder'', cf_Ready = None, cf_MailboxTTL = fc_MailboxTTL c,
     cf_MailboxMaxFrames = fc_MailboxMaxFrames c, cf_MailboxMaxBytes = fc_MailboxMaxBytes c, cf_WindowTTL = fc_WindowTTL c,
     cf_OfflineAfter = fc_OfflineAfter c, cf_HeartbeatInterval = 1, cf_MaxFrameSize = fc_MaxFrameSize c,
     cf_MaxHeaderLen = fc_MaxHeaderLen c, cf_BindingIdleReap = fc_BindingIdleReap c, cf_Limits = fc_Limits c\<rparr>"

definition shadow :: "FakeRelay \<Rightarrow> Relay" where
  "shadow r = \<lparr>rl_cfg = as_Config (fr_cfg r), rl_limiter = newLimiter, rl_store = fake_store r, rl_hostConns = [],
     rl_devConns = [], rl_pairConns = [], rl_presTimer = [], rl_winTimer = [], rl_closed = False, rl_now = fr_now r,
     rl_conns = [], rl_next = 0, rl_fired = [], rl_pushes = fr_pushes r\<rparr>"

lemma shadow_simps [simp]:
  "rl_cfg (shadow r) = as_Config (fr_cfg r)" "rl_store (shadow r) = fake_store r" "rl_now (shadow r) = fr_now r"
  "rl_pushes (shadow r) = fr_pushes r" "rl_devConns (shadow r) = []"
  by (simp_all add: shadow_def)

text \<open>What the shadow does not see.\<close>

lemma shadow_same [simp]:
  "shadow (r\<lparr>fr_limiter := l\<rparr>) = shadow r" "shadow (r\<lparr>fr_chanPres := a\<rparr>) = shadow r" "shadow (r\<lparr>fr_windows := w\<rparr>) = shadow r"
  "shadow (r\<lparr>fr_provChans := p\<rparr>) = shadow r" "shadow (r\<lparr>fr_presence := q\<rparr>) = shadow r" "shadow (r\<lparr>fr_hostConns := c\<rparr>) = shadow r"
  "shadow (r\<lparr>fr_devConns := c\<rparr>) = shadow r" "shadow (r\<lparr>fr_pairConns := c\<rparr>) = shadow r" "shadow (r\<lparr>fr_conns := h\<rparr>) = shadow r"
  "shadow (r\<lparr>fr_next := n\<rparr>) = shadow r" "shadow (r\<lparr>fr_fired := f\<rparr>) = shadow r" "shadow (fake_upd g is r) = shadow r"
  by (simp_all add: shadow_def fake_store_def fake_upd_def)

lemma shadow_ops [simp]:
  "shadow (broadcastPresence h p r) = shadow r" "shadow (fake_touchHost h r) = shadow r"
  "shadow (fake_presenceDeadline h r) = shadow r" "shadow (setDevAttached ch a r) = shadow r"
  "shadow (close_all cs r) = shadow r" "shadow (snd (expireWindowLocked w r)) = shadow r"
  "shadow (fake_expireWindow i r) = shadow r" "shadow (fire_presence h r) = shadow r" "shadow (fire_window i r) = shadow r"
  by (simp_all add: broadcastPresence_def fake_touchHost_def fake_presenceDeadline_def setDevAttached_def close_all_def
      expireWindowLocked_def fake_expireWindow_def fire_presence_def fire_window_def Let_def split: option.split prod.split)

lemma shadow_allow: "fake_allow k ra bu r = (ok, r') \<Longrightarrow> shadow r' = shadow r \<and> fr_pairings r' = fr_pairings r"
  by (auto simp: fake_allow_def Let_def split: if_splits)

section \<open>Mailbox\<close>

lemma fake_prune_index_eq:
  "i \<le> length items \<Longrightarrow> fake_prune_index now ttl items i b = (j, b') \<Longrightarrow>
    drop j items = live now ttl (drop i items) \<and> b' = b - (weight (drop i items) - weight (drop j items))"
proof (induction now ttl items i b rule: fake_prune_index.induct)
  case (1 now ttl items i b)
  show ?case
  proof (cases "i < length items")
    case True
    then have d: "drop i items = items ! i # drop (Suc i) items" by (simp add: Cons_nth_drop_Suc)
    show ?thesis
    proof (cases "time_sub now (mi_StoredAt (items ! i)) < ttl")
      case True
      with 1(3) \<open>i < length items\<close> have e: "j = i" "b' = b" by (subst (asm) fake_prune_index.simps, simp)+
      show ?thesis using True by (simp add: e d live_def)
    next
      case False
      with 1(3) True have "fake_prune_index now ttl items (i + 1) (b - int (length (mi_Body (items ! i)))) = (j, b')"
        by (subst (asm) fake_prune_index.simps) simp
      from 1(1) [OF True False _ this] True have "drop j items = live now ttl (drop (Suc i) items)"
        "b' = b - int (length (mi_Body (items ! i))) - (weight (drop (Suc i) items) - weight (drop j items))" by simp_all
      with False show ?thesis by (simp add: d live_def)
    qed
  next
    case False
    then show ?thesis using 1(2,3) by (subst (asm) fake_prune_index.simps) (auto simp: live_def)
  qed
qed

lemma box_prune: "box (fake_prune now ttl m) = mailbox_prune now ttl (box m)"
proof (cases "fake_prune_index now ttl (fm_items m) 0 (fm_bytes m)")
  case (Pair j b)
  then show ?thesis
    using fake_prune_index_eq [OF _ Pair] by (simp add: fake_prune_def mailbox_prune_def prune_loop_eq box_def)
qed

lemma box_evict: "box (fake_evict mf mby items b) = (let (its, b) = evict_loop \<lparr>mp_TTL = ttl, mp_MaxFrames = mf, mp_MaxBytes = mby\<rparr> items b
    in \<lparr>mb_items = its, mb_bytes = b\<rparr>)"
  by (induction items arbitrary: b) (auto simp: box_def)

lemma box_append:
  assumes "mi_StoredAt it = now"
  shows "box (fake_append it now ttl mf mby m) = mailbox_append it \<lparr>mp_TTL = ttl, mp_MaxFrames = mf, mp_MaxBytes = mby\<rparr> (box m)"
proof -
  have f: "fm_items m = mb_items (box m)" "fm_bytes m = mb_bytes (box m)" for m by (simp_all add: box_def)
  show ?thesis
    by (simp add: fake_append_def mailbox_append_def Let_def f box_prune assms box_evict [of _ _ _ _ ttl] split: prod.split)
qed

lemma get_loop: "fake_get_loop after limit its items nxt = fetch_loop after limit its items nxt"
  by (induction its arbitrary: items nxt) simp_all

lemma box_get: "map_prod id box (fake_get after limit now ttl m) = mailbox_fetch after limit now ttl (box m)"
proof -
  have f: "fm_items m = mb_items (box m)" for m by (simp add: box_def)
  show ?thesis by (simp add: fake_get_def mailbox_fetch_def Let_def f box_prune get_loop)
qed

text \<open>The double buffers as the relay does. Its mailbox, which prunes by an index and answers pages with
  a loop of its own, holds the same frames with the same byte count after any append, and gives the
  same page and the same rest to any read.\<close>

theorem fake_mailbox_agrees:
  "box (fake_append \<lparr>mi_Seq = q, mi_PushClass = pc, mi_Body = b, mi_StoredAt = now\<rparr> now ttl mf mby m)
      = mailbox_append \<lparr>mi_Seq = q, mi_PushClass = pc, mi_Body = b, mi_StoredAt = now\<rparr> \<lparr>mp_TTL = ttl, mp_MaxFrames = mf, mp_MaxBytes = mby\<rparr> (box m)
   \<and> map_prod id box (fake_get after limit now ttl m) = mailbox_fetch after limit now ttl (box m)"
  using box_append box_get by simp

section \<open>The double's steps as effects of the relay\<close>

text \<open>What a look-up of a binding leaves alone.\<close>

definition same_tables :: "FakeRelay \<Rightarrow> FakeRelay \<Rightarrow> bool" where
  "same_tables r r' \<longleftrightarrow> fr_cfg r' = fr_cfg r \<and> fr_now r' = fr_now r \<and> fr_pairings r' = fr_pairings r \<and> fr_channels r' = fr_channels r"

lemma bindingFor_shadow:
  "shadow (snd (bindingFor h r)) = (shadow r)\<lparr>rl_store := snd (LookupBinding h (rl_now (shadow r)) (rl_store (shadow r)))\<rparr>"
  "fst (LookupBinding h (rl_now (shadow r)) (rl_store (shadow r))) = map_option (binding_row h) (fst (bindingFor h r))"
  by (auto simp: bindingFor_def LookupBinding_def bindingLocked_def hostHasPairings_def hostHasPairingsLocked_def
      shadow_def fake_store_def binding_row_def split: option.splits)

lemma bindingFor_result:
  assumes "bindingFor h r = (b, r')"
  shows "effects (shadow r) (shadow r')" "same_tables r r'"
    "b = Some x \<Longrightarrow> live_account h (rl_now (shadow r')) (rl_store (shadow r')) = Some (hb_sub x)"
proof -
  note S = bindingFor_shadow [of h r, unfolded assms fst_conv snd_conv]
  show "effects (shadow r) (shadow r')" using effects_prim [OF prim.lookup [of "shadow r" h]] S(1) by simp
  show t: "same_tables r r'" using assms by (auto simp: bindingFor_def same_tables_def split: option.splits if_splits)
  assume "b = Some x"
  with assms have r': "r' = r" by (auto simp: bindingFor_def split: option.splits if_splits)
  show "live_account h (rl_now (shadow r')) (rl_store (shadow r')) = Some (hb_sub x)"
    using S(2) \<open>b = Some x\<close> by (simp add: r' live_account_def LookupBinding_def binding_row_def)
qed

lemma fake_bindHost_shadow: "effects (shadow r) (shadow (snd (fake_bindHost h sub r)))"
proof -
  have "shadow (snd (fake_bindHost h sub r)) = (shadow r)\<lparr>rl_store := snd (BindHost h sub (rl_now (shadow r)) (rl_store (shadow r)))\<rparr>"
    by (auto simp: fake_bindHost_def bindingFor_def BindHost_def bindingLocked_def hostHasPairings_def
        hostHasPairingsLocked_def shadow_def fake_store_def binding_row_def Let_def split: option.splits)
  then show ?thesis by (simp only: effects_prim prim.bind)
qed

lemma fake_cleanup_shadow: "effects (shadow r) (shadow (fake_handleHostWS_cleanup i h r))"
proof -
  have "shadow (fake_handleHostWS_cleanup i h r) = upd_store (TouchBinding h (rl_now (shadow r))) (shadow r)"
    by (auto simp: fake_handleHostWS_cleanup_def TouchBinding_def shadow_def fake_store_def binding_row_def upd_store_def
        Let_def fake_upd_def split: option.splits)
  then show ?thesis by (simp only: effects_prim prim.touch_binding)
qed

lemma fake_append_shadow:
  assumes "fake_channel ch r \<noteq> None" "validPushClass (mi_PushClass it)" "mi_StoredAt it = fr_now r"
  shows "effects (shadow r) (shadow (r\<lparr>fr_mailboxes := mput ch (fake_append it (fr_now r) (fc_MailboxTTL (fr_cfg r))
    (fc_MailboxMaxFrames (fr_cfg r)) (fc_MailboxMaxBytes (fr_cfg r))
    (case mget (fr_mailboxes r) ch of None \<Rightarrow> \<lparr>fm_items = [], fm_bytes = 0\<rparr> | Some mb \<Rightarrow> mb)) (fr_mailboxes r)\<rparr>))"
    (is "effects _ (shadow ?r')")
proof -
  have "shadow ?r' = upd_store (AppendMailbox ch it (mailboxPolicy (rl_cfg (shadow r)))) (shadow r)"
    by (simp add: shadow_def fake_store_def upd_store_def AppendMailbox_def mailboxPolicy_def as_Config_def box_append [OF assms(3)]
        empty_mailbox_def split: option.split) (simp add: box_def)
  moreover have "PairingByChannel ch (rl_store (shadow r)) \<noteq> None"
    using assms(1) by (simp add: fake_channel_def PairingByChannel_def fake_store_def split: option.splits)
  ultimately show ?thesis using assms(2) by (simp only: effects_prim prim.append not_False_eq_True)
qed

lemma fake_get_shadow:
  assumes "mget (fr_mailboxes r) ch = Some mb" "fake_get after n (fr_now r) ttl mb = (page, mb')"
  shows "effects (shadow r) (shadow (r\<lparr>fr_mailboxes := mput ch mb' (fr_mailboxes r)\<rparr>))"
proof -
  have "mailbox_fetch after n (fr_now r) ttl (box mb) = (page, box mb')" using box_get [of after n "fr_now r" ttl mb] assms(2) by simp
  then have "shadow (r\<lparr>fr_mailboxes := mput ch mb' (fr_mailboxes r)\<rparr>)
      = (shadow r)\<lparr>rl_store := snd (FetchMailbox ch after n (rl_now (shadow r)) ttl (rl_store (shadow r)))\<rparr>"
    using assms(1) by (simp add: shadow_def fake_store_def FetchMailbox_def)
  then show ?thesis by (simp only: effects_prim prim.fetch)
qed

lemma fake_push_shadow: "effects (shadow r) (shadow (fake_maybePush pr h r))"
proof -
  have p: "shadow (r\<lparr>fr_pushes := fr_pushes r @ [p]\<rparr>) = (shadow r)\<lparr>rl_pushes := rl_pushes (shadow r) @ [p]\<rparr>" for p
    by (simp add: shadow_def fake_store_def)
  have "effects (shadow r) (shadow (r\<lparr>fr_pushes := fr_pushes r @ [p]\<rparr>))"
    if "pu_Payload p = wakePayload (hd_Channel h) (hd_Seq h) \<or> pu_Payload p = attentionPayload (pr_HostLabel pr) (hd_Channel h) (hd_Seq h)" for p
    unfolding p using that closed_pushI [of p] by (intro effects_prim prim.push) blast
  then show ?thesis by (simp add: fake_maybePush_def Let_def split: option.split)
qed

lemma fake_delete_shadow:
  assumes "mget (fr_pairings r) i = Some pr" "pr_PairingID pr = i"
  shows "effects (shadow r) (shadow (let
      r = r\<lparr>fr_pairings := mdel (pr_PairingID pr) (fr_pairings r), fr_channels := mdel (pr_ChannelID pr) (fr_channels r),
            fr_mailboxes := mdel (pr_ChannelID pr) (fr_mailboxes r), fr_chanPres := mdel (pr_ChannelID pr) (fr_chanPres r)\<rparr>;
      still = list_ex (\<lambda>other. pr_DeviceID other = pr_DeviceID pr) (mvals (fr_pairings r))
    in if still then r else r\<lparr>fr_apnsTok := mdel (pr_DeviceID pr) (fr_apnsTok r)\<rparr>))" (is "effects _ (shadow ?r')")
proof -
  have m: "mget (ms_pairings (rl_store (shadow r))) i = Some pr" using assms(1) by (simp add: fake_store_def)
  have [simp]: "mdel k [] = []" for k by (simp add: mdel_def)
  have "shadow ?r' = upd_conns (conn_close 0 []) (conns_of (rl_devConns (shadow r)) (pr_ChannelID pr))
      ((shadow r)\<lparr>rl_store := snd (DeletePairing i (rl_store (shadow r))), rl_devConns := mdel (pr_ChannelID pr) (rl_devConns (shadow r))\<rparr>)"
    using assms by (simp add: shadow_def fake_store_def DeletePairing_def Let_def conns_of_def upd_conns_def)
  then show ?thesis using prim.delete [OF m] by (simp only: effects_prim)
qed

lemma fake_create_shadow:
  assumes "mget (fr_channels r) (pr_ChannelID pr) = None" "mget (fr_pairings r) (pr_PairingID pr) = None"
    "live_account (pr_HostID pr) (rl_now (shadow r)) (rl_store (shadow r)) = Some (pr_AccountSub pr)"
  shows "effects (shadow r) (shadow (r\<lparr>fr_pairings := mput (pr_PairingID pr) pr (fr_pairings r),
    fr_channels := mput (pr_ChannelID pr) (pr_PairingID pr) (fr_channels r)\<rparr>))" (is "effects _ (shadow ?r')")
proof -
  have "shadow ?r' = (shadow r)\<lparr>rl_store := snd (CreatePairing pr (rl_store (shadow r)))\<rparr>"
    using assms(1) by (simp add: shadow_def fake_store_def CreatePairing_def)
  moreover have "fresh_pairing pr (rl_store (shadow r))" using assms(2) by (simp add: fresh_pairing_def fake_store_def)
  ultimately show ?thesis using assms(3) prim.create [of pr "shadow r"] by (simp only: effects_prim)
qed

lemma fake_token_shadow:
  assumes "list_ex (\<lambda>pr. pr_DeviceID pr = d) (mvals (fr_pairings r))"
  shows "effects (shadow r) (shadow (r\<lparr>fr_apnsTok := mput d \<lparr>at_DeviceID = d, at_Token = t, at_Env = e\<rparr> (fr_apnsTok r)\<rparr>))"
    (is "effects _ (shadow ?r')")
proof -
  let ?tok = "\<lparr>at_DeviceID = d, at_Token = t, at_Env = e\<rparr>"
  have "shadow ?r' = upd_store (PutAPNSToken ?tok) (shadow r)"
    by (simp add: shadow_def fake_store_def upd_store_def PutAPNSToken_def)
  moreover have "PairingsForDevice (at_DeviceID ?tok) (rl_store (shadow r)) \<noteq> []"
    using assms by (simp add: PairingsForDevice_def fake_store_def filter_empty_conv list_ex_iff)
  ultimately show ?thesis by (simp only: effects_prim prim.token not_False_eq_True)
qed

lemma fake_label_shadow:
  assumes "mget (fr_pairings r) i = Some pr"
  shows "effects (shadow r) (shadow (r\<lparr>fr_pairings := mput i (pr\<lparr>pr_HostLabel := l\<rparr>) (fr_pairings r)\<rparr>))" (is "effects _ (shadow ?r')")
proof -
  have "shadow ?r' = upd_store (SetHostLabel i l) (shadow r)"
    using assms by (simp add: shadow_def fake_store_def upd_store_def SetHostLabel_def)
  then show ?thesis by (simp only: effects_prim prim.label)
qed

section \<open>Handlers\<close>

lemma fake_window_handlers:
  "effects (shadow r) (shadow (snd (fake_handleOpenWindow va req id1 id2 r)))"
  "effects (shadow r) (shadow (snd (fake_handleCloseWindow va req r)))"
proof -
  have w: "shadow (r\<lparr>fr_windows := a, fr_provChans := b\<rparr>) = shadow r" for a b r by (simp add: shadow_def fake_store_def)
  have d: "shadow r2 = shadow r1" if "(case windowForHost h r1 of None \<Rightarrow> ([], r1) | Some old \<Rightarrow> expireWindowLocked old r1) = (cs, r2)" for h r1 r2 cs
    using that shadow_ops(6) [of "the (windowForHost h r1)" r1] by (cases "windowForHost h r1") simp_all
  show "effects (shadow r) (shadow (snd (fake_handleOpenWindow va req id1 id2 r)))"
  proof (cases "\<exists>sub h. fake_bearerSub va req = Inr sub \<and> fake_decode req fake_window_body = Some h \<and> validID h")
    case False
    then have "snd (fake_handleOpenWindow va req id1 id2 r) = r"
      by (auto simp: fake_handleOpenWindow_def split: sum.splits option.splits)
    then show ?thesis by simp
  next
    case True
    then obtain sub h where sub: "fake_bearerSub va req = Inr sub" and h: "fake_decode req fake_window_body = Some h"
      and v: "(\<not> validID h) = False" by blast
    obtain rate burst where ph: "perHour (lt_PairingWindowsPerHour (fc_Limits (fr_cfg r))) = (rate, burst)" by fastforce
    obtain ok r1 where l: "fake_allow (''windows:'' @ h) rate burst r = (ok, r1)" by fastforce
    obtain b r2 where a: "bindingFor h r1 = (b, r2)" by fastforce
    obtain cs r3 where e: "(case windowForHost h r2 of None \<Rightarrow> ([], r2) | Some old \<Rightarrow> expireWindowLocked old r2) = (cs, r3)" by fastforce
    have "shadow (snd (fake_handleOpenWindow va req id1 id2 r)) \<in> {shadow r1, shadow r2}"
      unfolding fake_handleOpenWindow_def sub h sum.case option.case v if_False ph prod.case l Let_def a e
      by (simp add: w d [OF e])
    with bindingFor_result(1) [OF a] shadow_allow [OF l] show ?thesis by auto
  qed
  have "effects (shadow r) (shadow (fake_expireWindow i r1))" if "bindingFor h r = (b, r1)" for h b r1 i
    using bindingFor_result(1) [OF that] by simp
  then show "effects (shadow r) (shadow (snd (fake_handleCloseWindow va req r)))"
    by (auto simp: fake_handleCloseWindow_def split: sum.split option.split prod.split intro: bindingFor_result(1))
qed

lemma fake_create_effects:
  assumes "mget (fr_pairings r) id1 = None"
  shows "effects (shadow r) (shadow (snd (fake_handleCreatePairing va req id1 r)))"
proof (cases "fake_bearerSub va req")
  case (Inr sub)
  obtain rate burst where ph: "perHour (lt_PairingsPerHour (fc_Limits (fr_cfg r))) = (rate, burst)" by fastforce
  obtain ok r1 where l: "fake_allow (''pairings:'' @ sub) rate burst r = (ok, r1)" by fastforce
  have e1: "effects (shadow r) (shadow r1)" "fr_pairings r1 = fr_pairings r" using shadow_allow [OF l] by simp_all
  show ?thesis
  proof (cases "fake_decode req fake_pairing_body")
    case None
    then have "snd (fake_handleCreatePairing va req id1 r) = r1"
      unfolding fake_handleCreatePairing_def Inr sum.case ph prod.case l Let_def by simp
    with e1 show ?thesis by simp
  next
    case (Some b)
    obtain bd r2 where a: "bindingFor (pq_HostID b) r1 = (bd, r2)" by fastforce
    note B = bindingFor_result [OF a]
    let ?pr = "\<lparr>pr_PairingID = id1, pr_ChannelID = pq_ChannelID b, pr_HostID = pq_HostID b, pr_DeviceID = pq_DeviceID b,
                pr_AccountSub = sub, pr_HostLabel = pq_HostLabel b, pr_CreatedAt = fr_now r2\<rparr>"
    let ?r' = "r2\<lparr>fr_pairings := mput id1 ?pr (fr_pairings r2), fr_channels := mput (pq_ChannelID b) id1 (fr_channels r2)\<rparr>"
    have H: "snd (fake_handleCreatePairing va req id1 r) \<in> {r1, r2} \<or> snd (fake_handleCreatePairing va req id1 r) = ?r'
        \<and> mget (fr_channels r2) (pq_ChannelID b) = None \<and> (\<exists>x. bd = Some x \<and> hb_sub x = sub)"
      unfolding fake_handleCreatePairing_def Inr Some sum.case option.case ph prod.case l Let_def a
      by (simp split: option.split)
    have e2: "effects (shadow r) (shadow r2)" using effects_trans [OF e1(1) B(1)] .
    from H show ?thesis
    proof (elim disjE)
      assume "snd (fake_handleCreatePairing va req id1 r) \<in> {r1, r2}"
      with e1(1) e2 show ?thesis by (elim insertE) simp_all
    next
      assume h: "snd (fake_handleCreatePairing va req id1 r) = ?r' \<and> mget (fr_channels r2) (pq_ChannelID b) = None
        \<and> (\<exists>x. bd = Some x \<and> hb_sub x = sub)"
      then obtain x where x: "bd = Some x" "hb_sub x = sub" by blast
      have "effects (shadow r2) (shadow ?r')"
        using fake_create_shadow [of r2 ?pr] h B(2) B(3) [OF x(1)] x(2) e1(2) assms by (simp add: same_tables_def)
      with effects_trans [OF e2] h show ?thesis by simp
    qed
  qed
qed (simp add: fake_handleCreatePairing_def)

lemma fake_patch_effects: "effects (shadow r) (shadow (snd (fake_handlePatchPairing va req r)))"
proof -
  have "snd (fake_handlePatchPairing va req r) = r \<or> (\<exists>pr l. mget (fr_pairings r) (rq_pathID req) = Some pr
      \<and> snd (fake_handlePatchPairing va req r) = r\<lparr>fr_pairings := mput (rq_pathID req) (pr\<lparr>pr_HostLabel := l\<rparr>) (fr_pairings r)\<rparr>)"
    unfolding fake_handlePatchPairing_def by (simp split: sum.split option.split json.split) blast
  then show ?thesis using fake_label_shadow by (metis effects_refl)
qed

lemma fake_delete_effects:
  assumes "\<And>i pr. mget (fr_pairings r) i = Some pr \<Longrightarrow> pr_PairingID pr = i"
  shows "effects (shadow r) (shadow (snd (fake_handleDeletePairing va req r)))"
proof (cases "\<exists>sub pr. fake_bearerSub va req = Inr sub \<and> mget (fr_pairings r) (rq_pathID req) = Some pr \<and> pr_AccountSub pr = sub")
  case False
  then have "snd (fake_handleDeletePairing va req r) = r"
    by (auto simp: fake_handleDeletePairing_def split: sum.splits option.splits)
  then show ?thesis by simp
next
  case True
  then obtain sub pr where sub: "fake_bearerSub va req = Inr sub" and pr: "mget (fr_pairings r) (rq_pathID req) = Some pr"
    and acct: "(pr_AccountSub pr \<noteq> sub) = False" by blast
  show ?thesis
    unfolding fake_handleDeletePairing_def sub sum.case pr option.case acct if_False
    using fake_delete_shadow [OF pr assms [OF pr]] by (simp add: Let_def)
qed

lemma fake_get_effects: "effects (shadow r) (shadow (snd (fake_handleMailboxGet va req r)))"
proof (cases "\<exists>sub pr. fake_bearerSub va req = Inr sub \<and> fake_channel (rq_pathID req) r = Some pr \<and> pr_AccountSub pr = sub")
  case False
  show ?thesis
  proof (cases "fake_bearerSub va req")
    case (Inr sub)
    with False show ?thesis by (cases "fake_channel (rq_pathID req) r") (simp_all add: fake_handleMailboxGet_def Let_def)
  qed (simp add: fake_handleMailboxGet_def)
next
  case True
  then obtain sub pr where sub: "fake_bearerSub va req = Inr sub" and pr: "fake_channel (rq_pathID req) r = Some pr"
    and acct: "(pr_AccountSub pr \<noteq> sub) = False" by blast
  obtain rate burst where pm: "perMinute (lt_MailboxGetPerMin (fc_Limits (fr_cfg r))) = (rate, burst)" by fastforce
  obtain ok r1 where l: "fake_allow (''mbxget:'' @ pr_DeviceID pr) rate burst r = (ok, r1)" by fastforce
  have e1: "effects (shadow r) (shadow r1)" using shadow_allow [OF l] by simp
  let ?after = "if q_Get req ''after'' = [] then Some 0 else ParseUint (q_Get req ''after'')"
  let ?limit = "if q_Get req ''limit'' = [] then Some 64 else case ParseInt (q_Get req ''limit'') of
      None \<Rightarrow> None | Some v \<Rightarrow> if v < 1 then None else if 256 < v then Some 256 else Some v"
  have page: "effects (shadow r) (shadow (snd (case fake_get a n (fr_now r1) ttl mb of ((items, nextAfter, truncated), mb) \<Rightarrow>
      (json_response 200 (mailbox_json items nextAfter truncated), r1\<lparr>fr_mailboxes := mput ch mb (fr_mailboxes r1)\<rparr>))))"
    if "mget (fr_mailboxes r1) ch = Some mb" for a n ttl mb ch
    using effects_trans [OF e1 fake_get_shadow [OF that]] by (simp split: prod.split)
  show ?thesis
    unfolding fake_handleMailboxGet_def sub pr acct sum.case option.case pm prod.case l Let_def if_False
    using e1 page by (cases ok; cases ?after; cases ?limit; cases "mget (fr_mailboxes r1) (rq_pathID req)"; simp only: split_def
        option.case if_True if_False snd_conv not_True_eq_False not_False_eq_True)
qed

lemma fake_apns_effects: "effects (shadow r) (shadow (snd (fake_handleAPNSRegister va req r)))"
proof (cases "fake_bearerSub va req")
  case (Inr sub)
  obtain rate burst where ph: "perHour (lt_APNSRegsPerHour (fc_Limits (fr_cfg r))) = (rate, burst)" by fastforce
  obtain ok r1 where l: "fake_allow (''apns:'' @ rq_pathID req) rate burst r = (ok, r1)" by fastforce
  have e1: "effects (shadow r) (shadow r1)" using shadow_allow [OF l] by simp
  note tok = effects_trans [OF e1 fake_token_shadow]
  show ?thesis
    unfolding fake_handleAPNSRegister_def Inr sum.case ph prod.case l Let_def
    using e1 tok by (simp split: option.split)
qed (simp add: fake_handleAPNSRegister_def)

lemma fake_serve_effects:
  assumes "fake_serve va req id1 id2 meth path r = Some (resp, r')" "mget (fr_pairings r) id1 = None"
    "\<And>i pr. mget (fr_pairings r) i = Some pr \<Longrightarrow> pr_PairingID pr = i"
  shows "effects (shadow r) (shadow r')"
proof -
  let ?R = "\<lambda>i. req\<lparr>rq_pathID := i\<rparr>"
  have "r' = r \<or> r' = snd (fake_handleOpenWindow va req id1 id2 r) \<or> r' = snd (fake_handleCreatePairing va req id1 r)
      \<or> (\<exists>i. r' = snd (fake_handleCloseWindow va (?R i) r)) \<or> (\<exists>i. r' = snd (fake_handlePatchPairing va (?R i) r))
      \<or> (\<exists>i. r' = snd (fake_handleDeletePairing va (?R i) r)) \<or> (\<exists>i. r' = snd (fake_handleMailboxGet va (?R i) r))
      \<or> (\<exists>i. r' = snd (fake_handleAPNSRegister va (?R i) r))"
    using assms(1) unfolding fake_serve_def Let_def by (simp split: if_splits list.splits) (metis snd_conv)+
  then show ?thesis
    by (elim disjE exE) (simp_all add: fake_window_handlers fake_create_effects [OF assms(2)] fake_patch_effects
        fake_delete_effects [OF assms(3)] fake_get_effects fake_apns_effects)
qed

lemma fake_attach_effects:
  "effects (shadow r) (shadow (snd (fake_handleHostWS_admit va req r)))"
  "effects (shadow r) (shadow (snd (fake_handleDeviceWS_admit va req r)))"
proof -
  show "effects (shadow r) (shadow (snd (fake_handleHostWS_admit va req r)))"
    using fake_bindHost_shadow [of r "q_Get req ''host_id''"]
    by (simp add: fake_handleHostWS_admit_def split: sum.split prod.split) (metis snd_conv)
  have 1: "effects (shadow r) (shadow (snd (fake_devicePairingAttach_admit sub h r)))" for sub h
  proof (cases "bindingFor h r")
    case (Pair b r1)
    have "shadow (snd (fake_devicePairingAttach_admit sub h r)) \<in> {shadow r, shadow r1}"
      unfolding fake_devicePairingAttach_admit_def Let_def Pair prod.case by (simp split: option.split)
    with bindingFor_result(1) [OF Pair] show ?thesis by auto
  qed
  have "snd (fake_deviceChannelAttach_admit req sub r) = r" for sub
    by (simp add: fake_deviceChannelAttach_admit_def Let_def split: option.split)
  with 1 show "effects (shadow r) (shadow (snd (fake_handleDeviceWS_admit va req r)))"
    by (simp add: fake_handleDeviceWS_admit_def split: sum.split)
qed

lemma shadow_conns [simp]:
  "shadow (snd (fake_add_conn w r)) = shadow r" "shadow (snd (fake_close_with c m i r)) = shadow r"
  "shadow (snd (fake_handleHostWS_join sub h r)) = shadow r" "shadow (snd (fake_devicePairingAttach_join sub w' p r)) = shadow r"
  "shadow (snd (fake_deviceChannelAttach_join sub ch h r)) = shadow r"
  "shadow (fake_devicePairingAttach_cleanup i w' r) = shadow r" "shadow (fake_deviceChannelAttach_cleanup i ch r) = shadow r"
proof -
  have f: "shadow (fold (\<lambda>ch. fake_upd (g ch) (is ch)) chs r) = shadow r" for g "is" chs and r
    by (induction chs arbitrary: r) simp_all
  show "shadow (snd (fake_add_conn w r)) = shadow r" "shadow (snd (fake_close_with c m i r)) = shadow r"
    "shadow (snd (fake_handleHostWS_join sub h r)) = shadow r" "shadow (snd (fake_devicePairingAttach_join sub w' p r)) = shadow r"
    "shadow (snd (fake_deviceChannelAttach_join sub ch h r)) = shadow r"
    "shadow (fake_devicePairingAttach_cleanup i w' r) = shadow r" "shadow (fake_deviceChannelAttach_cleanup i ch r) = shadow r"
    by (simp_all add: fake_add_conn_def fake_close_with_def fake_handleHostWS_join_def fake_devicePairingAttach_join_def
        fake_deviceChannelAttach_join_def fake_devicePairingAttach_cleanup_def fake_deviceChannelAttach_cleanup_def f Let_def
        split: option.split)
qed

lemma hostFrame_effects: "effects (shadow r) (shadow (snd (hostFrame i raw r)))"
proof (cases "DecodeFrame raw (fc_MaxHeaderLen (fr_cfg r))")
  case (Inl e)
  then show ?thesis by (simp add: hostFrame_def Let_def)
next
  case (Inr hb)
  then obtain h body where dec: "DecodeFrame raw (fc_MaxHeaderLen (fr_cfg r)) = Inr (h, body)" by (cases hb) auto
  then have pc: "validPushClass (hd_PushClass h)" unfolding DecodeFrame_iff by blast
  obtain ok r1 where l: "fake_allow (''hostframes:'' @ wc_hostID (fake_conn_at i r)) (lt_HostFramesPerSec (fc_Limits (fr_cfg r)))
      (lt_HostFramesBurst (fc_Limits (fr_cfg r))) r = (ok, r1)" by fastforce
  have c: "fr_cfg r = fr_cfg r1" using l by (auto simp: fake_allow_def Let_def split: if_splits)
  have e1: "effects (shadow r) (shadow r1)" using shadow_allow [OF l] by simp
  let ?win = "case mget (fr_provChans r1) (hd_Channel h) of None \<Rightarrow> None | Some w \<Rightarrow> mget (fr_windows r1) w"
  let ?it = "\<lparr>mi_Seq = hd_Seq h, mi_PushClass = hd_PushClass h, mi_Body = body, mi_StoredAt = fr_now r1\<rparr>"
  note app = effects_trans [OF e1 fake_append_shadow [of "hd_Channel h" r1 ?it]]
  note app = effects_trans [OF app fake_push_shadow [of _ _ h]]
  show ?thesis
    unfolding hostFrame_def Let_def dec sum.case prod.case l
    using e1 app pc by (cases ?win; cases "fake_channel (hd_Channel h) r1") (simp_all add: c)
qed

lemma deviceFrame_shadow [simp]: "shadow (snd (deviceFrame i ch raw r)) = shadow r"
proof (cases "DecodeFrame raw (fc_MaxHeaderLen (fr_cfg r))")
  case (Inl e)
  then show ?thesis by (simp add: deviceFrame_def Let_def)
next
  case (Inr hb)
  then obtain h body where dec: "DecodeFrame raw (fc_MaxHeaderLen (fr_cfg r)) = Inr (h, body)" by (cases hb) auto
  obtain ok r1 where l: "fake_allow (''devframes:'' @ wc_sub (fake_conn_at i r) @ '':'' @ ch)
      (lt_DeviceFramesPerSec (fc_Limits (fr_cfg r))) (lt_DeviceFramesBurst (fc_Limits (fr_cfg r))) r = (ok, r1)" by fastforce
  have e: "shadow r1 = shadow r" using shadow_allow [OF l] by simp
  let ?route = "if wc_role (fake_conn_at i r) = ''pairing-device''
    then (case mget (fr_windows r1) (wc_winID (fake_conn_at i r)) of None \<Rightarrow> Inl CodeWindowClosed
          | Some win \<Rightarrow> if fw_closed win then Inl CodeWindowClosed else Inr (fw_hostID win))
    else (case fake_channel ch r1 of None \<Rightarrow> Inl CodeForbidden | Some pr \<Rightarrow> Inr (pr_HostID pr))"
  show ?thesis
  proof (cases ?route)
    case (Inl c)
    show ?thesis unfolding deviceFrame_def Let_def dec sum.case prod.case l Inl by (simp add: e)
  next
    case (Inr host)
    show ?thesis unfolding deviceFrame_def Let_def dec sum.case prod.case l Inr by (simp add: e)
  qed
qed

end
