(* ===== verification/FakeSim.thy ===== *)
theory FakeSim
  imports FakeRefine
begin

text \<open>
  The runs of the test double. Every step of it, whatever requests, messages, timers and clean-ups
  come and in whatever order, is a sequence of the relay's effects on its shadow; the double
  therefore implements the registry the relay implements, and keeps the relay's invariant.
\<close>

section \<open>Steps\<close>

text \<open>A pairing id is drawn fresh; the stages of a WebSocket handler may come in any order.\<close>

inductive fake_step :: "FakeRelay \<Rightarrow> FakeRelay \<Rightarrow> bool" where
  rest: "mget (fr_pairings r) id1 = None \<Longrightarrow> fake_serve va req id1 id2 meth path r = Some (resp, r') \<Longrightarrow> fake_step r r'"
| host_admit: "fake_handleHostWS_admit va req r = (res, r') \<Longrightarrow> fake_step r r'"
| device_admit: "fake_handleDeviceWS_admit va req r = (ticket, r') \<Longrightarrow> fake_step r r'"
| host_join: "fake_handleHostWS_join sub h r = (i, r') \<Longrightarrow> fake_step r r'"
| pairing_join: "fake_devicePairingAttach_join sub w ch r = (i, r') \<Longrightarrow> fake_step r r'"
| channel_join: "fake_deviceChannelAttach_join sub ch h r = (i, r') \<Longrightarrow> fake_step r r'"
| host_message: "fake_handleHostWS_message i h ty data r = (goes_on, r') \<Longrightarrow> fake_step r r'"
| device_message: "fake_deviceReadLoop_message i ch ty data r = (goes_on, r') \<Longrightarrow> fake_step r r'"
| host_cleanup: "fake_step r (fake_handleHostWS_cleanup i h r)"
| pairing_cleanup: "fake_step r (fake_devicePairingAttach_cleanup i w r)"
| channel_cleanup: "fake_step r (fake_deviceChannelAttach_cleanup i ch r)"
| writer: "fake_step r (fake_upd writer_step [i] r)"
| time: "0 \<le> d \<Longrightarrow> fake_step r (r\<lparr>fr_now := fr_now r + d\<rparr>)"
| presence_fires: "fake_step r (fire_presence h r)"
| window_fires: "fake_step r (fire_window w r)"
| callback: "fake_step r (run_fired r)"

inductive_cases fake_stepE: "fake_step r r'"

lemma run_fired_shadow [simp]: "shadow (run_fired r) = shadow r"
proof (cases "fr_fired r")
  case (Cons c cs)
  then show ?thesis by (cases c) (simp_all add: run_fired_def)
qed (simp add: run_fired_def)

lemma message_shadow:
  "effects (shadow r) (shadow (snd (fake_handleHostWS_message i h ty data r)))"
  "effects (shadow r) (shadow (snd (fake_deviceReadLoop_message i ch ty data r)))"
  using hostFrame_effects [of "fake_touchHost h r"]
  by (simp_all add: fake_handleHostWS_message_def fake_deviceReadLoop_message_def Let_def)

lemma fake_step_effects:
  assumes "fake_step r r'" "relay_inv (shadow r)" shows "effects (shadow r) (shadow r')"
  using assms(1)
proof cases
  case (rest id1 va req id2 meth path resp)
  have "pr_PairingID pr = i" if "mget (fr_pairings r) i = Some pr" for i pr
    using pairings_invD(2) [OF store_invD(1) [OF relay_invD(2) [OF assms(2)]]] that by (simp add: fake_store_def)
  with rest show ?thesis by (intro fake_serve_effects [of va req id1 id2 meth path r resp r'])
next
  case (host_admit va req res)
  then show ?thesis using fake_attach_effects(1) [of r va req] by simp
next
  case (device_admit va req ticket)
  then show ?thesis using fake_attach_effects(2) [of r va req] by simp
next
  case (host_join sub h i)
  then show ?thesis using shadow_conns(3) [of sub h r] by simp
next
  case (pairing_join sub w ch i)
  then show ?thesis using shadow_conns(4) [of sub w ch r] by simp
next
  case (channel_join sub ch h i)
  then show ?thesis using shadow_conns(5) [of sub ch h r] by simp
next
  case (host_message i h ty data goes_on)
  then show ?thesis using message_shadow(1) [of r i h ty data] by simp
next
  case (device_message i ch ty data goes_on)
  then show ?thesis using message_shadow(2) [of r i ch ty data] by simp
next
  case (time d)
  then have "shadow r' = (shadow r)\<lparr>rl_now := rl_now (shadow r) + d\<rparr>" by (simp add: shadow_def fake_store_def)
  then show ?thesis using time(2) by (simp only: effects_prim prim.tick)
qed (simp_all add: fake_cleanup_shadow)

interpretation fake_sim: simulation fake_step spec_step "\<lambda>r. registry_of (fake_store r)" "\<lambda>r. relay_inv (shadow r)"
proof
  fix r r' assume I: "relay_inv (shadow r)" and s: "fake_step r r'"
  note e = fake_step_effects [OF s I]
  show "spec_step\<^sup>*\<^sup>* (registry_of (fake_store r)) (registry_of (fake_store r'))"
    using effects_sim.run_simulated [OF effects_changes [OF e, unfolded changes_def] I] by simp
  show "relay_inv (shadow r')" by (rule effects_inv [OF e I])
qed

section \<open>The start\<close>

lemma fake_New_inv:
  assumes "config_ok (as_Config (FakeConfig_applyDefaults cfg))"
  shows "relay_inv (shadow (fake_New cfg now))" "registry_of (fake_store (fake_New cfg now)) = (Map.empty, \<lambda>_. [])"
proof -
  have "0 < fc_BindingIdleReap (FakeConfig_applyDefaults cfg)" using assms by (simp add: config_ok_def as_Config_def)
  then show "relay_inv (shadow (fake_New cfg now))"
    using assms by (simp add: relay_inv_def shadow_def fake_store_def fake_New_def store_inv_def pairings_inv_def windows_inv_def
        boxes_inv_def keys_inv_def indexes_def mwf_def accounts_inv_def mailboxes_inv_def tokens_inv_def tables_inv_def
        heap_inv_def table_inv_def presence_inv_def expiry_inv_def)
  show "registry_of (fake_store (fake_New cfg now)) = (Map.empty, \<lambda>_. [])"
    by (simp add: registry_of_def routes_of_def parked_of_def fun_eq_iff PairingByChannel_def fake_store_def fake_New_def)
qed

section \<open>A run\<close>

text \<open>A host of \<open>alice\<close> attaches, registers a pairing over HTTP, and sends a frame for the absent device.\<close>

definition fk_config :: FakeConfig where
  "fk_config = \<lparr>fc_MailboxTTL = 0, fc_MailboxMaxFrames = 0, fc_MailboxMaxBytes = 0, fc_WindowTTL = 0, fc_OfflineAfter = 0,
     fc_MaxFrameSize = 0, fc_MaxHeaderLen = 0, fc_BindingIdleReap = 0, fc_Limits = cf_Limits ex_config\<rparr>"

definition fk_cfg :: FakeConfig where
  "fk_cfg = FakeConfig_applyDefaults fk_config"

lemma fk_cfg_fields [simp]:
  "fc_MailboxTTL fk_cfg = 15 * minute" "fc_MailboxMaxFrames fk_cfg = 128" "fc_MailboxMaxBytes fk_cfg = 4194304"
  "fc_WindowTTL fk_cfg = 5 * minute" "fc_OfflineAfter fk_cfg = 30 * second" "fc_MaxFrameSize fk_cfg = 131072"
  "fc_MaxHeaderLen fk_cfg = 512" "fc_BindingIdleReap fk_cfg = 30 * 24 * hour" "fc_Limits fk_cfg = cf_Limits ex_cfg"
  by (simp_all add: fk_cfg_def fk_config_def FakeConfig_applyDefaults_def fake_Limits_applyDefaults_def ex_config_def)

lemma fk_config_ok: "config_ok (as_Config (FakeConfig_applyDefaults fk_config))"
  by (simp add: config_ok_def as_Config_def flip: fk_cfg_def)

definition fk1 :: FakeRelay where
  "fk1 = (fake_New fk_config 0)\<lparr>fr_bindings := [(ex_id 1, \<lparr>hb_sub = ''alice'', hb_boundAt = 0, hb_lastAttach = 0\<rparr>)]\<rparr>"

definition fk2 :: FakeRelay where
  "fk2 = snd (fake_handleHostWS_join ''alice'' (ex_id 1) fk1)"

definition fk3 :: FakeRelay where
  "fk3 = fk2\<lparr>fr_pairings := [(ex_id 10, ex_pairing)], fr_channels := [(ex_id 7, ex_id 10)]\<rparr>"

definition fk4 :: FakeRelay where
  "fk4 = snd (fake_handleHostWS_message 0 (ex_id 1) MessageBinary (ex_msg 7 ''wake'' [1, 2, 3]) fk3)"

lemma fk2_eq: "fk2 = fk1\<lparr>fr_conns := [(0, ex_host)], fr_next := 1, fr_hostConns := [(ex_id 1, [0])],
    fr_presence := [(ex_id 1, \<lparr>fp_online = True, fp_lastSeen = 0, fp_timer = Some \<lparr>tm_deadline = 30 * second, tm_active = True\<rparr>\<rparr>)]\<rparr>"
  by (simp add: fk2_def fake_handleHostWS_join_def fake_add_conn_def fake_touchHost_def broadcastPresence_def fake_upd_def fk1_def
      fake_New_def mput_def conns_add_def conns_of_def ex_host_def AfterFunc_def Let_def flip: fk_cfg_def)

lemma fk_req [simp]: "fake_bearerSub FakeValidator_Validate (ex_req i v) = Inr ''alice''"
  by (simp add: fake_bearerSub_def ex_req_def q_Has_def strip_def FakeValidator_Validate_def)

lemma fk_decodes: "wf_json v \<Longrightarrow> fake_decode (ex_req i v) dst = dst v"
  using pvalue_print [of v "[]"] by (simp add: fake_decode_def ex_req_def marshal_def)

lemma fk_pairing: "fake_decode (ex_req i pairing_json) fake_pairing_body = Some
    \<lparr>pq_ChannelID = ex_id 7, pq_HostID = ex_id 1, pq_DeviceID = ex_id 3, pq_HostLabel = Some ''studio''\<rparr>"
  by (subst fk_decodes) (simp_all add: pairing_json_def plain_char_def fake_pairing_body_def lax_def into_struct_def
      field_of_exact pairing_field_def into_string_def into_string_ptr_def)

lemma fk_admit: "snd (fake_handleHostWS_admit FakeValidator_Validate (ex_req [] JNull) (fake_New fk_config 0)) = fk1"
proof -
  have q: "\<not> q_Has (ex_req [] JNull) ''channel''" "q_Get (ex_req [] JNull) ''host_id'' = ex_id 1"
    by (simp_all add: ex_req_def q_Has_def q_Get_def)
  then show ?thesis
    by (simp add: fake_handleHostWS_admit_def fake_bindHost_def bindingFor_def fk1_def fake_New_def mput_def)
qed

lemma fk_create: "snd (fake_handleCreatePairing FakeValidator_Validate (ex_req [] pairing_json) (ex_id 10) fk2) = fk3"
proof -
  have b: "bindingFor (ex_id 1) fk2 = (Some \<lparr>hb_sub = ''alice'', hb_boundAt = 0, hb_lastAttach = 0\<rparr>, fk2)"
    by (simp add: bindingFor_def fk2_eq fk1_def fake_New_def mget_def hostHasPairings_def mvals_def time_sub_def flip: fk_cfg_def)
  have l: "lt_PairingsPerHour (fc_Limits (fr_cfg fk2)) = 0" by (simp add: fk2_eq fk1_def fake_New_def flip: fk_cfg_def)
  have p: "\<lparr>pr_PairingID = ex_id 10, pr_ChannelID = ex_id 7, pr_HostID = ex_id 1, pr_DeviceID = ex_id 3,
      pr_AccountSub = ''alice'', pr_HostLabel = Some ''studio'', pr_CreatedAt = fr_now fk2\<rparr> = ex_pairing"
    by (simp add: ex_pairing_def fk2_eq fk1_def fake_New_def)
  have c: "fr_channels fk2 = []" "fr_pairings fk2 = []" by (simp_all add: fk2_eq fk1_def fake_New_def)
  show ?thesis
    by (simp add: fake_handleCreatePairing_def fk_pairing l fake_allow_def b p c mput_def fk3_def)
qed

lemma fk_frame: "fr_mailboxes fk4 = [(ex_id 7, \<lparr>fm_items =
    [\<lparr>mi_Seq = 42, mi_PushClass = ''wake'', mi_Body = [1, 2, 3], mi_StoredAt = 0\<rparr>], fm_bytes = 3\<rparr>)]"
    "fr_pairings fk4 = fr_pairings fk3" "fr_channels fk4 = fr_channels fk3"
proof -
  have t: "fake_touchHost (ex_id 1) fk3 = fk3"
    by (simp add: fake_touchHost_def fk3_def fk2_eq fk1_def fake_New_def mget_def mput_def timer_Reset_def flip: fk_cfg_def)
  have i: "wc_hostID (fake_conn_at 0 fk3) = ex_id 1"
    by (simp add: fake_conn_at_def fk3_def fk2_eq mget_def ex_host_def)
  have c: "fr_cfg fk3 = fk_cfg" "fr_provChans fk3 = []" "fr_devConns fk3 = []" "fr_mailboxes fk3 = []" "fr_now fk3 = 0" "fr_apnsTok fk3 = []"
    by (simp_all add: fk3_def fk2_eq fk1_def fake_New_def flip: fk_cfg_def)
  have p: "fake_channel (ex_id 7) fk3 = Some ex_pairing" by (simp add: fake_channel_def fk3_def mget_def)
  have z: "\<not> 131072 < length (ex_msg 7 ''wake'' [1, 2, 3])" by (simp add: not_less)
  have f: "fk4 = fk3\<lparr>fr_mailboxes := [(ex_id 7, \<lparr>fm_items =
    [\<lparr>mi_Seq = 42, mi_PushClass = ''wake'', mi_Body = [1, 2, 3], mi_StoredAt = 0\<rparr>], fm_bytes = 3\<rparr>)]\<rparr>"
    by (simp add: fk4_def fake_handleHostWS_message_def t hostFrame_def i c p z fake_allow_def conns_of_def mput_def
        fake_append_def fake_prune_def fake_prune_index.simps fake_maybePush_def push_defs Let_def)
  show "fr_mailboxes fk4 = [(ex_id 7, \<lparr>fm_items =
    [\<lparr>mi_Seq = 42, mi_PushClass = ''wake'', mi_Body = [1, 2, 3], mi_StoredAt = 0\<rparr>], fm_bytes = 3\<rparr>)]"
    "fr_pairings fk4 = fr_pairings fk3" "fr_channels fk4 = fr_channels fk3" unfolding f by simp_all
qed

lemma fk_run: "fake_step\<^sup>*\<^sup>* (fake_New fk_config 0) fk3" "fake_step\<^sup>*\<^sup>* fk3 fk4"
proof -
  have 1: "fake_step (fake_New fk_config 0) fk1"
    by (rule fake_step.host_admit [of FakeValidator_Validate "ex_req [] JNull" _
      "fst (fake_handleHostWS_admit FakeValidator_Validate (ex_req [] JNull) (fake_New fk_config 0))"]) (simp add: prod_eq_iff fk_admit)
  have 2: "fake_step fk1 fk2" by (rule fake_step.host_join) (simp add: fk2_def prod_eq_iff)
  have "fake_serve FakeValidator_Validate (ex_req [] pairing_json) (ex_id 10) [] ''POST'' [''v1'', ''pairings''] fk2
      = Some (fst (fake_handleCreatePairing FakeValidator_Validate (ex_req [] pairing_json) (ex_id 10) fk2), fk3)"
    by (simp add: fake_serve_def prod_eq_iff fk_create)
  then have 3: "fake_step fk2 fk3" by (rule fake_step.rest [rotated]) (simp add: fk2_eq fk1_def fake_New_def)
  have 4: "fake_step fk3 fk4" by (rule fake_step.host_message) (simp add: fk4_def prod_eq_iff)
  show "fake_step\<^sup>*\<^sup>* (fake_New fk_config 0) fk3" "fake_step\<^sup>*\<^sup>* fk3 fk4"
    using converse_rtranclp_into_rtranclp [of fake_step, OF 1 converse_rtranclp_into_rtranclp [of fake_step, OF 2 r_into_rtranclp [of fake_step, OF 3]]]
      r_into_rtranclp [of fake_step, OF 4] by simp_all
qed

text \<open>Where the two differ: a window request with a member the contract does not define.\<close>

lemma fake_accepts_unknown_member:
  "fake_decode (ex_req [] (JObj [(''host_id'', JStr (ex_id 1)), (''x'', JNull)])) fake_window_body = Some (ex_id 1)
   \<and> decodeJSON (ex_req [] (JObj [(''host_id'', JStr (ex_id 1)), (''x'', JNull)])) window_body = None"
proof
  have f: "field_of [''host_id''] ''x'' = None" by (simp add: field_of_def)
  show "fake_decode (ex_req [] (JObj [(''host_id'', JStr (ex_id 1)), (''x'', JNull)])) fake_window_body = Some (ex_id 1)"
    by (subst fk_decodes) (simp_all add: plain_char_def fake_window_body_def lax_def into_struct_def field_of_exact window_field_def into_string_def f)
  show "decodeJSON (ex_req [] (JObj [(''host_id'', JStr (ex_id 1)), (''x'', JNull)])) window_body = None"
    by (subst ex_req_decodes) (simp_all add: plain_char_def marshal_def maxRequestBody_def quote_plain window_body_def into_struct_def
        field_of_exact window_field_def into_string_def f)
qed

section \<open>Refinement\<close>

text \<open>C18. The test double implements the registry, as the relay does. Along every run of it from its
  start, with a configuration inside the relay's ceilings, the channels and the parked frames change
  only by steps of the registry's specification, and it starts with none of either: whatever routing and buffering
  a client sees at the double, the specification the relay implements allows.\<close>

theorem fake_refines_registry:
  assumes "config_ok (as_Config (FakeConfig_applyDefaults cfg))" "fake_step\<^sup>*\<^sup>* (fake_New cfg now) r" "fake_step\<^sup>*\<^sup>* r r'"
  shows "spec_step\<^sup>*\<^sup>* (Map.empty, \<lambda>_. []) (registry_of (fake_store r))
    \<and> spec_step\<^sup>*\<^sup>* (registry_of (fake_store r)) (registry_of (fake_store r'))"
  using fake_sim.run_simulated [OF assms(2) fake_New_inv(1) [OF assms(1)]] fake_sim.run_simulated [OF assms(3)]
  by (simp add: fake_New_inv(2) [OF assms(1)])

theorem fake_refines_registry_witness:
  "spec_step\<^sup>*\<^sup>* (registry_of (fake_store fk3)) (registry_of (fake_store fk4))
   \<and> (\<exists>e. routes_of (fake_store fk3) (ex_id 7) = Some e \<and> en_account e = ''alice'')
   \<and> parked_of (fake_store fk3) (ex_id 7) = [] \<and> length (parked_of (fake_store fk4) (ex_id 7)) = 1"
proof -
  have "spec_step\<^sup>*\<^sup>* (registry_of (fake_store fk3)) (registry_of (fake_store fk4))"
    using fake_refines_registry [OF fk_config_ok fk_run] by simp
  moreover have "routes_of (fake_store fk3) (ex_id 7) = Some (entry_of ex_pairing)"
    by (simp add: routes_of_def PairingByChannel_def fake_store_def fk3_def mget_def)
  moreover have "parked_of (fake_store fk3) (ex_id 7) = []"
    by (simp add: parked_of_def fake_store_def fk3_def fk2_eq fk1_def fake_New_def)
  moreover have "mget (fr_mailboxes fk4) (ex_id 7) = Some \<lparr>fm_items =
      [\<lparr>mi_Seq = 42, mi_PushClass = ''wake'', mi_Body = [1, 2, 3], mi_StoredAt = 0\<rparr>], fm_bytes = 3\<rparr>"
    by (simp add: fk_frame mget_def)
  then have "length (parked_of (fake_store fk4) (ex_id 7)) = 1" by (simp add: parked_of_def fake_store_def box_def)
  ultimately show ?thesis by (simp add: entry_of_def)
qed

end
