(* ===== verification/Clock.thy ===== *)
theory Clock
  imports RelayState "HOL-Library.Multiset_Order"
begin

text \<open>
  The deterministic clock of the tests (\<open>internal/relay/clock.go\<close>): timers are objects with an
  address, the clock lists the addresses of those it knows, and \<open>Advance\<close> fires what falls due.
  A callback is a function of whatever state it works on and of the clock; \<open>sort.Slice\<close>, which may
  order equal deadlines as it likes, is an argument.
\<close>

section \<open>State and timers\<close>

record FakeClock =
  ck_now :: gotime
  ck_timers :: "nat list"
  ck_heap :: "(nat, timer) gomap"
  ck_next :: nat

definition NewFakeClock :: "gotime \<Rightarrow> FakeClock" where
  "NewFakeClock start = \<lparr>ck_now = start, ck_timers = [], ck_heap = [], ck_next = 0\<rparr>"

definition ck_timer :: "nat \<Rightarrow> FakeClock \<Rightarrow> timer" where
  "ck_timer i c = (case mget (ck_heap c) i of None \<Rightarrow> \<lparr>tm_deadline = 0, tm_active = False\<rparr> | Some t \<Rightarrow> t)"

definition ck_AfterFunc :: "duration \<Rightarrow> FakeClock \<Rightarrow> nat \<times> FakeClock" where
  "ck_AfterFunc d c = (ck_next c, c\<lparr>ck_heap := mput (ck_next c) \<lparr>tm_deadline = ck_now c + d, tm_active = True\<rparr> (ck_heap c),
     ck_timers := ck_timers c @ [ck_next c], ck_next := ck_next c + 1\<rparr>)"

definition ck_Stop :: "nat \<Rightarrow> FakeClock \<Rightarrow> bool \<times> FakeClock" where
  "ck_Stop i c = (let t = ck_timer i c in (tm_active t, c\<lparr>ck_heap := mput i (t\<lparr>tm_active := False\<rparr>) (ck_heap c)\<rparr>))"

text \<open>Re-arming a timer that fired puts it back into the list.\<close>

definition ck_Reset :: "duration \<Rightarrow> nat \<Rightarrow> FakeClock \<Rightarrow> bool \<times> FakeClock" where
  "ck_Reset d i c =
     (let was = tm_active (ck_timer i c);
          c = c\<lparr>ck_heap := mput i \<lparr>tm_deadline = ck_now c + d, tm_active = True\<rparr> (ck_heap c)\<rparr>
      in (was, if \<not> was \<and> i \<notin> set (ck_timers c) then c\<lparr>ck_timers := ck_timers c @ [i]\<rparr> else c))"

section \<open>Advance\<close>

text \<open>The scan for the first of the timers with the least deadline.\<close>

fun next_due :: "gotime \<Rightarrow> (nat \<Rightarrow> timer) \<Rightarrow> nat list \<Rightarrow> nat option \<Rightarrow> nat option" where
  "next_due target tm [] nxt = nxt"
| "next_due target tm (i # is) nxt =
     next_due target tm is (if tm_active (tm i) \<and> \<not> target < tm_deadline (tm i)
         \<and> (case nxt of None \<Rightarrow> True | Some j \<Rightarrow> tm_deadline (tm i) < tm_deadline (tm j))
       then Some i else nxt)"

definition clock_fire :: "nat \<Rightarrow> FakeClock \<Rightarrow> FakeClock" where
  "clock_fire i c =
     (let t = ck_timer i c
      in c\<lparr>ck_heap := mput i (t\<lparr>tm_active := False\<rparr>) (ck_heap c), ck_now := (if ck_now c < tm_deadline t then tm_deadline t else ck_now c)\<rparr>)"

type_synonym slice_sort = "(nat \<Rightarrow> gotime) \<Rightarrow> nat list \<Rightarrow> nat list"

definition compact :: "slice_sort \<Rightarrow> FakeClock \<Rightarrow> FakeClock" where
  "compact sort_by c = c\<lparr>ck_timers := sort_by (\<lambda>i. tm_deadline (ck_timer i c)) (filter (\<lambda>i. tm_active (ck_timer i c)) (ck_timers c))\<rparr>"

partial_function (option) advance_loop ::
    "slice_sort \<Rightarrow> (nat \<Rightarrow> 's \<times> FakeClock \<Rightarrow> 's \<times> FakeClock) \<Rightarrow> gotime \<Rightarrow> 's \<Rightarrow> FakeClock \<Rightarrow> ('s \<times> FakeClock) option" where
  "advance_loop sort_by f target s c =
     (case next_due target (\<lambda>i. ck_timer i c) (ck_timers c) None of
        None \<Rightarrow> Some (s, c\<lparr>ck_now := target\<rparr>)
      | Some i \<Rightarrow> (case f i (s, clock_fire i c) of (s, c) \<Rightarrow> advance_loop sort_by f target s (compact sort_by c)))"

definition Advance :: "slice_sort \<Rightarrow> (nat \<Rightarrow> 's \<times> FakeClock \<Rightarrow> 's \<times> FakeClock) \<Rightarrow> duration \<Rightarrow> 's \<Rightarrow> FakeClock \<Rightarrow> ('s \<times> FakeClock) option" where
  "Advance sort_by f d s c = advance_loop sort_by f (ck_now c + d) s c"

section \<open>What is due\<close>

definition due :: "gotime \<Rightarrow> FakeClock \<Rightarrow> nat set" where
  "due target c = {i \<in> set (ck_timers c). tm_active (ck_timer i c) \<and> tm_deadline (ck_timer i c) \<le> target}"

lemma finite_due [simp]: "finite (due target c)"
  by (simp add: due_def)

lemma next_due_spec:
  "next_due target tm is nxt = None \<longleftrightarrow> nxt = None \<and> (\<forall>i \<in> set is. tm_active (tm i) \<longrightarrow> target < tm_deadline (tm i))"
  by (induction "is" arbitrary: nxt) (auto simp: not_less)

lemma next_due_in:
  "next_due target tm is nxt = Some i \<Longrightarrow> nxt = Some i \<or> (i \<in> set is \<and> tm_active (tm i) \<and> tm_deadline (tm i) \<le> target)"
proof (induction "is" arbitrary: nxt)
  case (Cons j "is")
  from Cons.IH [OF Cons.prems [unfolded next_due.simps]] show ?case
    by (cases "tm_active (tm j) \<and> \<not> target < tm_deadline (tm j) \<and> (case nxt of None \<Rightarrow> True | Some k \<Rightarrow> tm_deadline (tm j) < tm_deadline (tm k))")
      (auto simp: not_less)
qed simp

lemma next_due_None: "next_due target (\<lambda>i. ck_timer i c) (ck_timers c) None = None \<longleftrightarrow> due target c = {}"
  by (force simp: next_due_spec due_def)

lemma next_due_Some: "next_due target (\<lambda>i. ck_timer i c) (ck_timers c) None = Some i \<Longrightarrow> i \<in> due target c"
  using next_due_in [of target "\<lambda>i. ck_timer i c" "ck_timers c" None i] by (simp add: due_def)

lemma next_due_least_aux:
  assumes "next_due target tm is nxt = Some i"
  shows "(\<forall>j \<in> set is. tm_active (tm j) \<and> tm_deadline (tm j) \<le> target \<longrightarrow> tm_deadline (tm i) \<le> tm_deadline (tm j))
    \<and> (\<forall>j. nxt = Some j \<longrightarrow> tm_deadline (tm i) \<le> tm_deadline (tm j))"
  using assms
proof (induction "is" arbitrary: nxt)
  case (Cons k "is")
  show ?case
  proof (cases "tm_active (tm k) \<and> \<not> target < tm_deadline (tm k) \<and> (case nxt of None \<Rightarrow> True | Some j \<Rightarrow> tm_deadline (tm k) < tm_deadline (tm j))")
    case True
    then show ?thesis using Cons.IH [of "Some k"] Cons.prems by (auto split: option.splits)
  next
    case False
    then show ?thesis using Cons.IH [of nxt] Cons.prems by (auto split: option.splits)
  qed
qed simp

lemma next_due_least:
  "next_due target (\<lambda>i. ck_timer i c) (ck_timers c) None = Some i \<Longrightarrow> j \<in> due target c \<Longrightarrow> tm_deadline (ck_timer i c) \<le> tm_deadline (ck_timer j c)"
  using next_due_least_aux [of target "\<lambda>i. ck_timer i c" "ck_timers c" None i] by (auto simp: due_def)

section \<open>What callbacks do\<close>

text \<open>A polite callback stops timers, makes new ones and re-arms old ones, never with a delay of zero.\<close>

inductive polite_op :: "FakeClock \<Rightarrow> FakeClock \<Rightarrow> bool" where
  stop: "polite_op c (snd (ck_Stop i c))"
| reset: "0 < d \<Longrightarrow> polite_op c (snd (ck_Reset d i c))"
| after: "0 < d \<Longrightarrow> polite_op c (snd (ck_AfterFunc d c))"

definition polite :: "(nat \<Rightarrow> 's \<times> FakeClock \<Rightarrow> 's \<times> FakeClock) \<Rightarrow> bool" where
  "polite f \<longleftrightarrow> (\<forall>i s c. polite_op\<^sup>*\<^sup>* c (snd (f i (s, c))))"

text \<open>How far before the target a timer is; those at least \<open>r\<close> before it.\<close>

definition ahead :: "gotime \<Rightarrow> FakeClock \<Rightarrow> nat \<Rightarrow> nat" where
  "ahead target c i = nat (target - tm_deadline (ck_timer i c))"

definition early :: "nat \<Rightarrow> gotime \<Rightarrow> FakeClock \<Rightarrow> nat set" where
  "early r target c = {i \<in> due target c. r \<le> ahead target c i}"

definition shrinks :: "nat \<Rightarrow> gotime \<Rightarrow> FakeClock \<Rightarrow> FakeClock \<Rightarrow> bool" where
  "shrinks r target c c' \<longleftrightarrow> (\<forall>i \<in> early r target c'. i \<in> early r target c \<and> ck_timer i c' = ck_timer i c)"

lemma polite_op_shrinks:
  assumes "polite_op c c'" "nat (target - ck_now c) \<le> r"
  shows "ck_now c' = ck_now c \<and> shrinks r target c c'"
  using assms
proof cases
  case (stop i)
  then show ?thesis by (auto simp: shrinks_def early_def due_def ahead_def ck_Stop_def ck_timer_def Let_def)
next
  case (reset d i)
  then show ?thesis using assms(2)
    by (auto simp: shrinks_def early_def due_def ahead_def ck_Reset_def ck_timer_def Let_def split: if_splits)
next
  case (after d)
  then show ?thesis using assms(2)
    by (auto simp: shrinks_def early_def due_def ahead_def ck_AfterFunc_def ck_timer_def split: if_splits)
qed

lemma polite_shrinks:
  assumes "polite_op\<^sup>*\<^sup>* c c'" "nat (target - ck_now c) \<le> r"
  shows "ck_now c' = ck_now c \<and> shrinks r target c c'"
  using assms(1)
proof (induction rule: rtranclp_induct)
  case base
  show ?case by (simp add: shrinks_def)
next
  case (step c1 c2)
  then have "ck_now c2 = ck_now c1 \<and> shrinks r target c1 c2" using assms(2) by (intro polite_op_shrinks) simp_all
  with step.IH show ?case by (auto simp: shrinks_def)
qed

section \<open>Advance returns\<close>

text \<open>What a round leaves to do. Firing a timer removes its distance to the target, and the callback can
  only add smaller ones: the multiset of distances goes down.\<close>

definition pending :: "gotime \<Rightarrow> FakeClock \<Rightarrow> nat multiset" where
  "pending target c = image_mset (ahead target c) (mset_set (due target c))"

definition permutes_slices :: "slice_sort \<Rightarrow> bool" where
  "permutes_slices sort_by \<longleftrightarrow> (\<forall>k xs. mset (sort_by k xs) = mset xs)"

lemma compact_frame:
  assumes "permutes_slices sort_by"
  shows "ck_now (compact sort_by c) = ck_now c" "ck_timer i (compact sort_by c) = ck_timer i c" "due target (compact sort_by c) = due target c"
proof -
  have s: "set (sort_by k xs) = set xs" for k xs
    using arg_cong [of _ _ set_mset, OF assms [unfolded permutes_slices_def, rule_format, of k xs]] by simp
  show t: "ck_now (compact sort_by c) = ck_now c" "ck_timer i (compact sort_by c) = ck_timer i c" for i
    by (simp_all add: compact_def ck_timer_def)
  show "due target (compact sort_by c) = due target c" by (auto simp: due_def t) (auto simp: compact_def s)
qed

lemma mset_set_split: "finite A \<Longrightarrow> B \<subseteq> A \<Longrightarrow> mset_set A = mset_set B + mset_set (A - B)"
  by (metis Diff_disjoint Diff_partition finite_Diff finite_subset mset_set_Union)

lemma fire_frame:
  assumes "i \<in> due target c"
  shows "nat (target - ck_now (clock_fire i c)) \<le> ahead target c i" "early r target (clock_fire i c) \<subseteq> due target c - {i}"
    "j \<noteq> i \<Longrightarrow> ck_timer j (clock_fire i c) = ck_timer j c" "ck_now c \<le> ck_now (clock_fire i c)"
    "ck_now c \<le> target \<Longrightarrow> ck_now (clock_fire i c) \<le> target"
  using assms by (auto simp: clock_fire_def ahead_def early_def due_def ck_timer_def Let_def)

lemma round_shrinks:
  assumes "permutes_slices sort_by" "i \<in> due target c" "polite_op\<^sup>*\<^sup>* (clock_fire i c) c'"
  shows "(pending target (compact sort_by c'), pending target c) \<in> mult less_than"
proof -
  let ?r = "ahead target c i" and ?c = "compact sort_by c'"
  note C = compact_frame [OF assms(1), where c = c']
  have sh: "shrinks ?r target (clock_fire i c) c'" using polite_shrinks [OF assms(3) fire_frame(1) [OF assms(2)]] by blast
  define E where "E = early ?r target ?c"
  have E: "E = early ?r target c'" by (simp add: E_def early_def ahead_def C)
  have sub: "E \<subseteq> due target c - {i}" using sh fire_frame(2) [OF assms(2), of ?r] by (auto simp: E shrinks_def)
  have same: "ahead target ?c j = ahead target c j" if "j \<in> E" for j
  proof -
    have "j \<noteq> i" using that sub by blast
    then have "ck_timer j c' = ck_timer j c" using sh that fire_frame(3) [OF assms(2)] by (simp add: E shrinks_def)
    then show ?thesis by (simp add: ahead_def C)
  qed
  have fin: "finite E" by (rule finite_subset [OF sub]) simp
  let ?I = "image_mset (ahead target c) (mset_set E)"
  have sub': "E \<subseteq> due target ?c" by (auto simp: E_def early_def)
  have "image_mset (ahead target ?c) (mset_set E) = ?I" by (rule image_mset_cong) (simp add: same fin)
  then have new: "pending target ?c = ?I + image_mset (ahead target ?c) (mset_set (due target ?c - E))"
    unfolding pending_def mset_set_split [OF finite_due sub'] image_mset_union by simp
  have subc: "E \<subseteq> due target c" using sub by blast
  have old: "pending target c = ?I + image_mset (ahead target c) (mset_set (due target c - E))"
    unfolding pending_def mset_set_split [OF finite_due subc] image_mset_union ..
  have i: "i \<in> due target c - E" using assms(2) sub by blast
  have "\<exists>j \<in># image_mset (ahead target c) (mset_set (due target c - E)). (k, j) \<in> less_than"
    if "k \<in># image_mset (ahead target ?c) (mset_set (due target ?c - E))" for k
    using that i by (auto simp: E_def early_def intro!: bexI [of _ i])
  moreover have "image_mset (ahead target c) (mset_set (due target c - E)) \<noteq> {#}" using i by (auto simp: mset_set_empty_iff)
  ultimately show ?thesis unfolding new old by (intro one_step_implies_mult) auto
qed

text \<open>The callbacks with a log of their calls: which timer, when it was due, and what the clock said.\<close>

definition logged :: "(nat \<Rightarrow> 's \<times> FakeClock \<Rightarrow> 's \<times> FakeClock) \<Rightarrow> nat
    \<Rightarrow> ((nat \<times> gotime \<times> gotime) list \<times> 's) \<times> FakeClock \<Rightarrow> ((nat \<times> gotime \<times> gotime) list \<times> 's) \<times> FakeClock" where
  "logged f i = (\<lambda>((tr, s), c). case f i (s, c) of (s', c') \<Rightarrow> ((tr @ [(i, tm_deadline (ck_timer i c), ck_now c)], s'), c'))"

text \<open>Nothing is late: whatever is due was due at \<open>t0\<close> already, or is due only now or later; and nothing is
  due before \<open>low\<close>.\<close>

definition on_time :: "gotime \<Rightarrow> gotime \<Rightarrow> gotime \<Rightarrow> FakeClock \<Rightarrow> bool" where
  "on_time t0 low target c \<longleftrightarrow> t0 \<le> ck_now c \<and> low \<le> ck_now c
     \<and> (\<forall>i \<in> due target c. (ck_now c = t0 \<or> ck_now c \<le> tm_deadline (ck_timer i c)) \<and> low \<le> tm_deadline (ck_timer i c))"

lemma polite_op_on_time:
  assumes "polite_op c c'" "on_time t0 low target c" shows "on_time t0 low target c'"
  using assms
proof cases
  case (stop i)
  then show ?thesis using assms(2) by (auto simp: on_time_def due_def ck_Stop_def ck_timer_def Let_def)
next
  case (reset d i)
  then show ?thesis using assms(2) by (auto simp: on_time_def due_def ck_Reset_def ck_timer_def Let_def split: if_splits)
next
  case (after d)
  then show ?thesis using assms(2) by (auto simp: on_time_def due_def ck_AfterFunc_def ck_timer_def split: if_splits)
qed

interpretation punctual: inductive_invariant "on_time t0 low target" polite_op "on_time t0 low target" for t0 low target
  by unfold_locales (simp_all add: polite_op_on_time)

lemma fire_on_time:
  assumes "next_due target (\<lambda>i. ck_timer i c) (ck_timers c) None = Some i" "on_time t0 low target c"
  shows "low \<le> tm_deadline (ck_timer i c)" "ck_now (clock_fire i c) = max t0 (tm_deadline (ck_timer i c))"
    "on_time t0 (tm_deadline (ck_timer i c)) target (clock_fire i c)" "tm_deadline (ck_timer i (clock_fire i c)) = tm_deadline (ck_timer i c)"
proof -
  note i = next_due_Some [OF assms(1)] and least = next_due_least [OF assms(1)]
  show "low \<le> tm_deadline (ck_timer i c)" using assms(2) i by (auto simp: on_time_def)
  show n: "ck_now (clock_fire i c) = max t0 (tm_deadline (ck_timer i c))"
    using assms(2) i by (auto simp: on_time_def clock_fire_def Let_def max_def)
  have d: "due target (clock_fire i c) = due target c - {i}" by (auto simp: clock_fire_def due_def ck_timer_def Let_def)
  have late: "max t0 (tm_deadline (ck_timer i c)) = t0 \<or> max t0 (tm_deadline (ck_timer i c)) \<le> tm_deadline (ck_timer j c)" if "j \<in> due target c" for j
    using least [OF that] by (auto simp: max_def)
  have "tm_deadline (ck_timer j (clock_fire i c)) = tm_deadline (ck_timer j c)" for j by (simp add: clock_fire_def ck_timer_def Let_def)
  then show "on_time t0 (tm_deadline (ck_timer i c)) target (clock_fire i c)" "tm_deadline (ck_timer i (clock_fire i c)) = tm_deadline (ck_timer i c)"
    using late least by (auto simp: on_time_def d n)
qed

lemma compact_on_time: "permutes_slices sort_by \<Longrightarrow> on_time t0 low target (compact sort_by c) = on_time t0 low target c"
  by (simp add: on_time_def compact_frame)

text \<open>The log of a run from a clock at \<open>t0\<close>: each callback ran at its own deadline, or at once when that had
  passed before the start, and the deadlines come in order.\<close>

definition punctual_log :: "gotime \<Rightarrow> gotime \<Rightarrow> gotime \<Rightarrow> (nat \<times> gotime \<times> gotime) list \<Rightarrow> bool" where
  "punctual_log t0 low target tr \<longleftrightarrow> sorted (map (\<lambda>(i, due_at, ran_at). due_at) tr) \<and> (\<forall>(i, due_at, ran_at) \<in> set tr. low \<le> due_at \<and> due_at \<le> target \<and> ran_at = max t0 due_at)"

lemma advance_loop_run:
  assumes "permutes_slices sort_by" "polite f" "ck_now c \<le> target" "on_time t0 low target c"
  shows "\<exists>tr' s' c'. advance_loop sort_by (logged f) target (tr, s) c = Some ((tr @ tr', s'), c') \<and> ck_now c' = target
    \<and> due target c' = {} \<and> punctual_log t0 low target tr'"
  using assms(3,4)
proof (induction "pending target c" arbitrary: c s tr low rule: wf_induct_rule [OF wf_mult [OF wf_less_than]])
  case 1
  show ?case
  proof (cases "next_due target (\<lambda>i. ck_timer i c) (ck_timers c) None")
    case None
    then have "due target (c\<lparr>ck_now := target\<rparr>) = {}" using next_due_None [of target c] by (simp add: due_def ck_timer_def)
    with None show ?thesis by (subst advance_loop.simps) (simp add: punctual_log_def)
  next
    case (Some i)
    let ?c1 = "clock_fire i c" and ?d = "tm_deadline (ck_timer i c)"
    obtain s2 c2 where f: "f i (s, ?c1) = (s2, c2)" by fastforce
    let ?c3 = "compact sort_by c2"
    note i = next_due_Some [OF Some] and fire = fire_on_time [OF Some 1(3)]
    have p: "polite_op\<^sup>*\<^sup>* ?c1 c2" using assms(2) f unfolding polite_def by (metis snd_conv)
    have now: "ck_now ?c3 \<le> target"
      using fire_frame(5) [OF i] 1(2) polite_shrinks [OF p order_refl] compact_frame(1) [OF assms(1)] by simp
    have ot: "on_time t0 ?d target ?c3" using punctual.run_inv [OF p fire(3)] by (simp add: compact_on_time [OF assms(1)])
    from 1(1) [OF round_shrinks [OF assms(1) i p] now ot, of "tr @ [(i, ?d, max t0 ?d)]" s2]
    obtain tr' s' c' where run: "advance_loop sort_by (logged f) target (tr @ [(i, ?d, max t0 ?d)], s2) ?c3 = Some (((tr @ [(i, ?d, max t0 ?d)]) @ tr', s'), c')"
      "ck_now c' = target" "due target c' = {}" "punctual_log t0 ?d target tr'" by auto
    have "advance_loop sort_by (logged f) target (tr, s) c = Some ((tr @ (i, ?d, max t0 ?d) # tr', s'), c')"
      by (subst advance_loop.simps) (use Some f run(1) fire(2,4) in \<open>simp add: logged_def\<close>)
    moreover have "punctual_log t0 low target ((i, ?d, max t0 ?d) # tr')"
      using run(4) fire(1) i by (auto simp: punctual_log_def due_def)
    ultimately show ?thesis using run(2,3) by blast
  qed
qed

text \<open>C19. Advancing the test clock ends, and fires in time order. Whatever the callbacks do, as long as they
  arm timers only with a positive delay, \<open>Advance\<close> returns. The callbacks ran in the order of their deadlines,
  each with the clock showing its own deadline (or the old time, for a timer that was overdue already),
  none later than the new time; the clock then shows the new time, and no timer it knows is due any more.\<close>

theorem Advance_returns_in_order:
  assumes "permutes_slices sort_by" "polite f" "0 \<le> d"
  shows "\<exists>tr s' c'. Advance sort_by (logged f) d ([], s) c = Some ((tr, s'), c')
    \<and> sorted (map (\<lambda>(i, due_at, ran_at). due_at) tr)
    \<and> (\<forall>(i, due_at, ran_at) \<in> set tr. due_at \<le> ck_now c + d \<and> ran_at = max (ck_now c) due_at) \<and> ck_now c' = ck_now c + d
    \<and> (\<forall>i \<in> set (ck_timers c'). tm_active (ck_timer i c') \<longrightarrow> ck_now c + d < tm_deadline (ck_timer i c'))"
proof -
  define low where "low = Min (insert (ck_now c) ((\<lambda>i. tm_deadline (ck_timer i c)) ` due (ck_now c + d) c))"
  have ot: "on_time (ck_now c) low (ck_now c + d) c" by (auto simp: on_time_def low_def)
  have "ck_now c \<le> ck_now c + d" using assms(3) by simp
  from advance_loop_run [OF assms(1,2) this ot, of "[]" s] obtain tr s' c' where
    r: "Advance sort_by (logged f) d ([], s) c = Some ((tr, s'), c')" "ck_now c' = ck_now c + d" "due (ck_now c + d) c' = {}"
      "punctual_log (ck_now c) low (ck_now c + d) tr"
    by (auto simp: Advance_def)
  have "\<forall>i \<in> set (ck_timers c'). tm_active (ck_timer i c') \<longrightarrow> ck_now c + d < tm_deadline (ck_timer i c')"
    using r(3) by (auto simp: due_def not_le)
  then show ?thesis using r by (intro exI conjI) (auto simp: punctual_log_def)
qed

text \<open>A heartbeat every two seconds, for five seconds, beside a timer that fires once.\<close>

definition ex_tick :: "nat \<Rightarrow> nat \<times> FakeClock \<Rightarrow> nat \<times> FakeClock" where
  "ex_tick i sc = (fst sc + 1, if i = 0 then snd (ck_Reset 2 0 (snd sc)) else snd sc)"

definition ex_clock :: FakeClock where
  "ex_clock = snd (ck_AfterFunc 3 (snd (ck_AfterFunc 2 (NewFakeClock 0))))"

lemma ex_tick_polite: "polite ex_tick"
proof -
  have "polite_op c (snd (ck_Reset 2 0 c))" for c by (rule polite_op.reset) simp
  then show ?thesis by (simp add: polite_def ex_tick_def r_into_rtranclp)
qed

theorem Advance_returns_in_order_witness:
  "\<exists>s' c'. Advance (\<lambda>k. sort_key k) (logged ex_tick) 5 ([], 0) ex_clock = Some (([(0, 2, 2), (1, 3, 3), (0, 4, 4)], s'), c')
     \<and> ck_now c' = 5 \<and> sorted (map (\<lambda>(i, due_at, ran_at). due_at) [(0::nat, 2::gotime, 2::gotime), (1, 3, 3), (0, 4, 4)])"
proof -
  have "permutes_slices (\<lambda>k. sort_key k)" by (simp add: permutes_slices_def)
  from Advance_returns_in_order [OF this ex_tick_polite, of 5 0 ex_clock] obtain tr s' c' where
    r: "Advance (\<lambda>k. sort_key k) (logged ex_tick) 5 ([], 0) ex_clock = Some ((tr, s'), c')" "ck_now c' = ck_now ex_clock + 5" "sorted (map (\<lambda>(i, due_at, ran_at). due_at) tr)" by auto
  have "tr = [(0, 2, 2), (1, 3, 3), (0, 4, 4)]"
    using r(1) by (simp add: Advance_def advance_loop.simps ex_clock_def NewFakeClock_def ck_AfterFunc_def ck_timer_def mget_def mput_def
        clock_fire_def logged_def ex_tick_def ck_Reset_def compact_def Let_def)
  with r show ?thesis by (simp add: ex_clock_def NewFakeClock_def ck_AfterFunc_def)
qed

end
