(* ===== verification/Commands.thy ===== *)
theory Commands
  imports Env Jwt System HostSession DeviceSession
begin

text \<open>
  The decisions of the commands: how \<open>cmd/relayd\<close> puts a relay together from its environment, what
  \<open>remotectl approve\<close> makes of the answers it hears, and the state machine of \<open>remotectl demo\<close>.
  Listeners, signals, flags and output are left out. A loop over \<open>Recv\<close> is a function of the list of
  its results; a run that has used them up and still waits gives None.
\<close>

section \<open>relayd\<close>

datatype relayd_error = BadConfiguration "env_error list + config_error" | BadJWT jwt_error | BadRelay config_error

definition relayd_run :: "envReader \<Rightarrow> gotime \<Rightarrow> relayd_error + JwtConfig \<times> Relay" where
  "relayd_run e now =
     (case LoadServerConfig e of Inl x \<Rightarrow> Inl (BadConfiguration x) | Inr cfg \<Rightarrow>
      case jwt_New \<lparr>jc_Issuer = sc_Issuer cfg, jc_Audience = sc_Audience cfg, jc_JWKSURL = sc_JWKSURL cfg,
                    jc_CacheTTL = sc_JWKSCacheTTL cfg, jc_Leeway = sc_JWTLeeway cfg\<rparr> of
        Inl x \<Rightarrow> Inl (BadJWT x) | Inr validator \<Rightarrow>
      let rcfg = (sc_Relay cfg)\<lparr>cf_Store := Some ''MemStore'', cf_Validator := Some ''JWTValidator'', cf_Logger := Some ''Logger'',
                   cf_Pusher := Some ''LogPusher'', cf_Ready := Some ''Ready''\<rparr>
      in case New rcfg (NewMemStore (sc_BindingReaper cfg)) now of Inl x \<Rightarrow> Inl (BadRelay x) | Inr r \<Rightarrow> Inr (validator, r))"

text \<open>The address a health probe dials: an unspecified host is the loopback one. \<open>net.SplitHostPort\<close> is an
  argument.\<close>

definition probe_url :: "(string \<Rightarrow> (string \<times> string) option) \<Rightarrow> (string \<Rightarrow> string \<Rightarrow> string) \<Rightarrow> string \<Rightarrow> string option" where
  "probe_url SplitHostPort JoinHostPort addr =
     (let addr = (if addr = [] then '':8080'' else addr) in
      case SplitHostPort addr of None \<Rightarrow> None | Some (host, port) \<Rightarrow>
      let host = (if host = [] \<or> host = ''0.0.0.0'' \<or> host = ''::'' then ''127.0.0.1'' else host)
      in Some (''http://'' @ JoinHostPort host port @ ''/healthz''))"

definition redactPath :: "string \<Rightarrow> string" where
  "redactPath p = (if strip ''/v1/'' p = None then ''/'' else p)"

text \<open>The relay at its start.\<close>

definition at_start :: "Relay \<Rightarrow> System" where
  "at_start r = \<lparr>sy_relay = r, sy_tickets = [], sy_running = [], sy_leaving = [], sy_publishing = []\<rparr>"

lemma relayd_run_ok:
  assumes "relayd_run e now = Inr (v, r)"
  obtains c where "LoadServerConfig e = Inr c"
    "jwt_New \<lparr>jc_Issuer = sc_Issuer c, jc_Audience = sc_Audience c, jc_JWKSURL = sc_JWKSURL c,
       jc_CacheTTL = sc_JWKSCacheTTL c, jc_Leeway = sc_JWTLeeway c\<rparr> = Inr v"
    "New ((sc_Relay c)\<lparr>cf_Store := Some ''MemStore'', cf_Validator := Some ''JWTValidator'', cf_Logger := Some ''Logger'',
       cf_Pusher := Some ''LogPusher'', cf_Ready := Some ''Ready''\<rparr>) (NewMemStore (sc_BindingReaper c)) now = Inr r"
  using assms by (auto simp: relayd_run_def Let_def split: sum.splits)

lemma applyDefaults_deps: "Config_applyDefaults (c\<lparr>cf_Store := a, cf_Validator := b, cf_Logger := Some l, cf_Pusher := Some p, cf_Ready := q\<rparr>)
    = (Config_applyDefaults c)\<lparr>cf_Store := a, cf_Validator := b, cf_Logger := Some l, cf_Pusher := Some p, cf_Ready := q\<rparr>"
  by (simp add: Config_applyDefaults_def or_iface_def)

lemma config_ok_deps: "config_ok (c\<lparr>cf_Store := Some a, cf_Validator := Some b, cf_Logger := l, cf_Pusher := p, cf_Ready := q\<rparr>)
    \<longleftrightarrow> config_ok (with_deps a b c)"
  by (simp add: config_ok_def with_deps_def)

lemma relayd_never_BadRelay: "relayd_run e now \<noteq> Inl (BadRelay x)"
proof (cases "LoadServerConfig e")
  case (Inr c)
  have "config_ok (Config_applyDefaults (with_deps ''MemStore'' ''JWTValidator'' (sc_Relay c)))"
    using LoadServerConfig_within_ceilings [OF Inr] by blast
  then have "Validate ((Config_applyDefaults (sc_Relay c))\<lparr>cf_Store := Some ''MemStore'', cf_Validator := Some ''JWTValidator'',
      cf_Logger := Some ''Logger'', cf_Pusher := Some ''LogPusher'', cf_Ready := Some ''Ready''\<rparr>) = None"
    unfolding Validate_iff config_ok_deps applyDefaults_with_deps .
  then show ?thesis by (simp add: relayd_run_def Inr New_def Let_def applyDefaults_deps split: sum.split)
qed (simp add: relayd_run_def)

text \<open>C40. What the production binary serves. Whatever its environment, a relayd that starts is the system of
  the other theorems at one of its initial states, with a configuration inside the ceilings, a store that forgets
  bindings at the configured horizon, and a validator with an issuer, an audience, a key set and bounded cache
  and leeway. Its rate limits are exactly those the environment asks for, except that the default replaces a value
  that is not above zero, a negative one included; so no limit has a value the limiter reads as unlimited. A NaN
  or an infinity that the float parser accepts is kept as it is.\<close>

theorem relayd_run_serves:
  assumes "relayd_run e now = Inr (v, r)"
  shows "reachable (at_start r) \<and> config_ok (rl_cfg r)
    \<and> cf_Limits (rl_cfg r) = running_limits (fst (load_limits e)) \<and> limits_active (cf_Limits (rl_cfg r))
    \<and> ms_idleReap (rl_store r) = cf_BindingIdleReap (rl_cfg r)
    \<and> jc_Issuer v \<noteq> [] \<and> jc_Audience v \<noteq> [] \<and> jc_JWKSURL v \<noteq> []
    \<and> MinCacheTTL \<le> jc_CacheTTL v \<and> jc_CacheTTL v \<le> MaxCacheTTL \<and> 0 < jc_Leeway v \<and> jc_Leeway v \<le> MaxLeeway"
proof -
  obtain c where c: "LoadServerConfig e = Inr c" and v: "jwt_New \<lparr>jc_Issuer = sc_Issuer c, jc_Audience = sc_Audience c,
      jc_JWKSURL = sc_JWKSURL c, jc_CacheTTL = sc_JWKSCacheTTL c, jc_Leeway = sc_JWTLeeway c\<rparr> = Inr v"
    and r: "New ((sc_Relay c)\<lparr>cf_Store := Some ''MemStore'', cf_Validator := Some ''JWTValidator'', cf_Logger := Some ''Logger'',
       cf_Pusher := Some ''LogPusher'', cf_Ready := Some ''Ready''\<rparr>) (NewMemStore (sc_BindingReaper c)) now = Inr r"
    by (rule relayd_run_ok [OF assms])
  have cfg: "rl_cfg r = (Config_applyDefaults (sc_Relay c))\<lparr>cf_Store := Some ''MemStore'', cf_Validator := Some ''JWTValidator'',
      cf_Logger := Some ''Logger'', cf_Pusher := Some ''LogPusher'', cf_Ready := Some ''Ready''\<rparr>" and st: "rl_store r = NewMemStore (sc_BindingReaper c)"
    using r by (auto simp: New_def Let_def applyDefaults_deps split: option.splits)
  have "reachable (at_start r)"
    using r unfolding reachable_def sys_init_def at_start_def by (metis rtranclp.rtrancl_refl System.select_convs)
  moreover have ok: "config_ok (rl_cfg r)" using New_inv [OF r] relay_invD(1) by blast
  moreover have "cf_Limits (rl_cfg r) = running_limits (fst (load_limits e))"
  proof -
    have "cf_Limits (with_deps a b d) = cf_Limits d" for a b d by (simp add: with_deps_def)
    then show ?thesis using LoadServerConfig_within_ceilings [OF c] unfolding applyDefaults_with_deps by (simp add: cfg)
  qed
  moreover have "ms_idleReap (rl_store r) = cf_BindingIdleReap (rl_cfg r)"
  proof -
    have "cf_BindingIdleReap (sc_Relay c) = or_default (sc_BindingReaper c) DefaultBindingIdleReap"
      using LoadServerConfig_ok(1) [OF c] by (simp add: Config_applyDefaults_def load_relay_hard)
    then have "cf_BindingIdleReap (rl_cfg r) = or_default (or_default (sc_BindingReaper c) DefaultBindingIdleReap) DefaultBindingIdleReap"
      by (simp add: cfg Config_applyDefaults_def)
    then show ?thesis using ok by (auto simp: st NewMemStore_def or_default_def config_ok_def DefaultBindingIdleReap_def split: if_splits)
  qed
  ultimately show ?thesis using jwt_New_bounds [OF v] running_limits_active by auto
qed

theorem relayd_run_serves_witness:
  "\<exists>v r. relayd_run ex_env 0 = Inr (v, r) \<and> reachable (at_start r) \<and> jc_CacheTTL v = 15 * minute
     \<and> lt_PairingsPerHour (cf_Limits (rl_cfg r)) = 10 \<and> lt_HostFramesBurst (cf_Limits (rl_cfg r)) = NaN"
proof -
  obtain c where c: "LoadServerConfig ex_env = Inr c" "sc_JWKSCacheTTL c = 15 * minute" "sc_JWTLeeway c = 60 * second"
    using ex_env_loads by blast
  have n: "sc_Issuer c \<noteq> []" "sc_Audience c \<noteq> []" "sc_JWKSURL c \<noteq> []" using LoadServerConfig_within_ceilings [OF c(1)] by blast+
  let ?v = "\<lparr>jc_Issuer = sc_Issuer c, jc_Audience = sc_Audience c, jc_JWKSURL = sc_JWKSURL c, jc_CacheTTL = 15 * minute, jc_Leeway = 60 * second\<rparr>"
  have "jwt_New ?v = Inr ?v" using n by (simp add: jwt_New_def MinCacheTTL_def MaxCacheTTL_def MaxLeeway_def)
  moreover have "\<forall>x. relayd_run ex_env 0 \<noteq> Inl (BadRelay x)" by (simp add: relayd_never_BadRelay)
  ultimately have "\<exists>r. relayd_run ex_env 0 = Inr (?v, r)" by (auto simp: relayd_run_def c Let_def split: sum.splits)
  then obtain r where "relayd_run ex_env 0 = Inr (?v, r)" by blast
  from relayd_run_serves [OF this] this show ?thesis by (auto simp: ex_env_limits running_limits_def)
qed

section \<open>remotectl approve\<close>

text \<open>The answers of a decision, decoded from an \<open>rpc.response\<close>: an error code, or the fields of a result.\<close>

record decide_result =
  dr_ApprovalID :: string
  dr_Status :: string
  dr_Decision :: string
  dr_Source :: string

definition into_decide_result :: "json \<Rightarrow> decide_result option" where
  "into_decide_result v = into_rec [(''approval_id'', str_field dr_ApprovalID_update dr_ApprovalID),
     (''status'', str_field dr_Status_update dr_Status), (''decision'', str_field dr_Decision_update dr_Decision),
     (''source'', str_field dr_Source_update dr_Source)] v
     \<lparr>dr_ApprovalID = [], dr_Status = [], dr_Decision = [], dr_Source = []\<rparr>"

record RPCError =
  re_Code :: string
  re_Message :: string
  re_Retryable :: bool

definition into_error_body :: "json \<Rightarrow> RPCError option" where
  "into_error_body v = into_rec [(''error'', into_rec [(''code'', str_field re_Code_update re_Code),
     (''message'', str_field re_Message_update re_Message), (''retryable'', bool_field re_Retryable_update re_Retryable)])] v
     \<lparr>re_Code = [], re_Message = [], re_Retryable = False\<rparr>"

datatype approve_result = ApproveRecv dev_error | ApproveFailed string | ApproveBody
  | AlreadyDecided string string | Applied string string

definition approve_args :: "string list \<Rightarrow> string \<Rightarrow> bool" where
  "approve_args args decision \<longleftrightarrow> length args = 1 \<and> (decision = ''allow'' \<or> decision = ''deny'')"

definition approve_answer :: "Envelope \<Rightarrow> approve_result" where
  "approve_answer env =
     (let code = (case DecodeBody env into_error_body of None \<Rightarrow> [] | Some e \<Rightarrow> re_Code e) in
      if code \<noteq> [] then ApproveFailed code
      else case DecodeBody env into_decide_result of None \<Rightarrow> ApproveBody | Some res \<Rightarrow>
      if dr_Status res = ''already_resolved'' then AlreadyDecided (dr_Decision res) (dr_Source res)
      else Applied (dr_ApprovalID res) (dr_Decision res))"

fun approve_loop :: "string \<Rightarrow> (dev_error + Envelope) list \<Rightarrow> approve_result option" where
  "approve_loop ident [] = None"
| "approve_loop ident (Inl e # evs) = Some (ApproveRecv e)"
| "approve_loop ident (Inr env # evs) =
     (if ev_Kind env = ''rpc.response'' \<and> ev_ID env = ident then Some (approve_answer env) else approve_loop ident evs)"

section \<open>remotectl watch\<close>

text \<open>What the loop does with the end of one session: whether the context had ended, the error of the session,
  and whether the context ended in the second before a reconnect.\<close>

datatype watch_next = WatchReturns "dev_error option" | WatchReconnects

definition watch_decides :: "bool \<Rightarrow> dev_error option \<Rightarrow> bool \<Rightarrow> watch_next" where
  "watch_decides ended err ended_waiting =
     (if ended then WatchReturns None
      else case err of None \<Rightarrow> WatchReturns None
        | Some e \<Rightarrow> if e = ErrRevoked then WatchReturns (Some e)
            else if ended_waiting then WatchReturns None else WatchReconnects)"

section \<open>remotectl demo\<close>

definition into_ApprovalRequest :: "json \<Rightarrow> ApprovalRequest option" where
  "into_ApprovalRequest v = into_rec [(''approval_id'', str_field ar_ApprovalID_update ar_ApprovalID),
     (''task_id'', str_field ar_TaskID_update ar_TaskID), (''workbench_id'', str_field ar_WorkbenchID_update ar_WorkbenchID),
     (''family'', str_field ar_Family_update ar_Family), (''action_kind'', str_field ar_ActionKind_update ar_ActionKind),
     (''summary'', str_field ar_Summary_update ar_Summary), (''dangerous'', bool_field ar_Dangerous_update ar_Dangerous),
     (''requested_at'', str_field ar_RequestedAt_update ar_RequestedAt), (''deadline_at'', str_field ar_DeadlineAt_update ar_DeadlineAt),
     (''timeout_s'', int_field ar_TimeoutS_update ar_TimeoutS)] v
     \<lparr>ar_ApprovalID = [], ar_TaskID = [], ar_WorkbenchID = [], ar_Family = [], ar_ActionKind = [], ar_Summary = [],
      ar_Dangerous = False, ar_RequestedAt = [], ar_DeadlineAt = [], ar_TimeoutS = 0\<rparr>"

definition into_ApprovalResolved :: "json \<Rightarrow> ApprovalResolved option" where
  "into_ApprovalResolved v = into_rec [(''approval_id'', str_field av_ApprovalID_update av_ApprovalID),
     (''task_id'', str_field av_TaskID_update av_TaskID), (''decision'', str_field av_Decision_update av_Decision),
     (''source'', str_field av_Source_update av_Source), (''resolved_at'', str_field av_ResolvedAt_update av_ResolvedAt),
     (''latency_ms'', int_field av_LatencyMS_update av_LatencyMS)] v zero_ApprovalResolved"

record demo =
  dm_sawSnapshot :: bool
  dm_sawEvent :: bool
  dm_approvalID :: string
  dm_rpcID :: string
  dm_sawApplied :: bool
  dm_sawResolved :: bool
  dm_resolvedMatch :: ApprovalResolved

definition demo_start :: demo where
  "demo_start = \<lparr>dm_sawSnapshot = False, dm_sawEvent = False, dm_approvalID = [], dm_rpcID = [], dm_sawApplied = False,
     dm_sawResolved = False, dm_resolvedMatch = zero_ApprovalResolved\<rparr>"

datatype demo_error = DemoRecv dev_error | DemoBody | DemoDecide dev_error | DemoResult decide_result | DemoResolution ApprovalResolved

text \<open>One received envelope; the first argument is what a \<open>SendRPC\<close> of \<open>approval.decide\<close> gives, the id it used.\<close>

definition demo_step :: "(dev_error + string) \<Rightarrow> Envelope \<Rightarrow> demo \<Rightarrow> demo_error + demo" where
  "demo_step send env d =
     (if ev_Kind env = ''snapshot.full'' then Inr (d\<lparr>dm_sawSnapshot := True\<rparr>)
      else if ev_Kind env = ''event'' then Inr (d\<lparr>dm_sawEvent := True\<rparr>)
      else if ev_Kind env = ''approval.request'' then
        (case DecodeBody env into_ApprovalRequest of None \<Rightarrow> Inl DemoBody | Some a \<Rightarrow>
         case send of Inl e \<Rightarrow> Inl (DemoDecide e) | Inr ident \<Rightarrow> Inr (d\<lparr>dm_approvalID := ar_ApprovalID a, dm_rpcID := ident\<rparr>))
      else if ev_Kind env = ''rpc.response'' then
        (if ev_ID env \<noteq> dm_rpcID d then Inr d
         else case DecodeBody env into_decide_result of None \<Rightarrow> Inl DemoBody | Some res \<Rightarrow>
           if dr_Status res \<noteq> ''applied'' \<or> dr_Decision res \<noteq> ''allow_once'' \<or> dr_Source res \<noteq> ''remote'' then Inl (DemoResult res)
           else Inr (d\<lparr>dm_sawApplied := True\<rparr>))
      else if ev_Kind env = ''approval.resolved'' then
        (case DecodeBody env into_ApprovalResolved of None \<Rightarrow> Inl DemoBody | Some r \<Rightarrow>
         if av_ApprovalID r = dm_approvalID d then
           (if av_Decision r \<noteq> ''allow_once'' \<or> av_Source r \<noteq> ''remote'' then Inl (DemoResolution r)
            else Inr (d\<lparr>dm_resolvedMatch := r, dm_sawResolved := True\<rparr>))
         else Inr d)
      else Inr d)"

fun demo_loop :: "(dev_error + Envelope \<times> (dev_error + string)) list \<Rightarrow> demo \<Rightarrow> (demo_error + demo) option" where
  "demo_loop evs d =
     (if dm_sawSnapshot d \<and> dm_sawEvent d \<and> dm_sawApplied d \<and> dm_sawResolved d then Some (Inr d)
      else case evs of [] \<Rightarrow> None
        | Inl e # _ \<Rightarrow> Some (Inl (DemoRecv e))
        | Inr (env, send) # evs \<Rightarrow> (case demo_step send env d of Inl e \<Rightarrow> Some (Inl e) | Inr d \<Rightarrow> demo_loop evs d))"

declare demo_loop.simps [simp del]

text \<open>What the demo has to show for each of its flags.\<close>

definition got_kind :: "Envelope list \<Rightarrow> string \<Rightarrow> bool" where
  "got_kind envs k \<longleftrightarrow> list_ex (\<lambda>e. ev_Kind e = k) envs"

definition got_request :: "Envelope list \<Rightarrow> string \<Rightarrow> bool" where
  "got_request envs i \<longleftrightarrow> list_ex (\<lambda>e. ev_Kind e = ''approval.request''
     \<and> map_option ar_ApprovalID (DecodeBody e into_ApprovalRequest) = Some i) envs"

definition allowed_remotely :: "Envelope \<Rightarrow> bool" where
  "allowed_remotely e \<longleftrightarrow> ev_Kind e = ''rpc.response'' \<and> (case DecodeBody e into_decide_result of None \<Rightarrow> False
     | Some res \<Rightarrow> dr_Status res = ''applied'' \<and> dr_Decision res = ''allow_once'' \<and> dr_Source res = ''remote'')"

definition got_resolution :: "Envelope list \<Rightarrow> ApprovalResolved \<Rightarrow> bool" where
  "got_resolution envs r \<longleftrightarrow> av_Decision r = ''allow_once'' \<and> av_Source r = ''remote''
     \<and> list_ex (\<lambda>e. ev_Kind e = ''approval.resolved'' \<and> DecodeBody e into_ApprovalResolved = Some r) envs
     \<and> (av_ApprovalID r = [] \<or> got_request envs (av_ApprovalID r))"

definition demo_seen :: "Envelope list \<Rightarrow> demo \<Rightarrow> bool" where
  "demo_seen envs d \<longleftrightarrow> (dm_sawSnapshot d \<longrightarrow> got_kind envs ''snapshot.full'') \<and> (dm_sawEvent d \<longrightarrow> got_kind envs ''event'')
     \<and> (dm_sawApplied d \<longrightarrow> list_ex allowed_remotely envs) \<and> (dm_sawResolved d \<longrightarrow> got_resolution envs (dm_resolvedMatch d))
     \<and> (dm_approvalID d = [] \<or> got_request envs (dm_approvalID d))"

lemma got_append:
  "got_kind (envs @ es) k \<longleftrightarrow> got_kind envs k \<or> got_kind es k" "got_request (envs @ es) i \<longleftrightarrow> got_request envs i \<or> got_request es i"
  "got_resolution envs r \<Longrightarrow> got_resolution (envs @ es) r"
  by (auto simp: got_kind_def got_request_def got_resolution_def)

lemma demo_seen_append: "demo_seen envs d \<Longrightarrow> demo_seen (envs @ es) d"
  by (auto simp: demo_seen_def got_append)

lemma demo_step_cases:
  assumes "demo_step send env d = Inr d'"
  obtains (same) "d' = d" | (snapshot) "d' = d\<lparr>dm_sawSnapshot := True\<rparr>" "got_kind [env] ''snapshot.full''"
    | (event) "d' = d\<lparr>dm_sawEvent := True\<rparr>" "got_kind [env] ''event''"
    | (request) i j where "d' = d\<lparr>dm_approvalID := i, dm_rpcID := j\<rparr>" "got_request [env] i"
    | (applied) "d' = d\<lparr>dm_sawApplied := True\<rparr>" "allowed_remotely env"
    | (resolved) r where "d' = d\<lparr>dm_resolvedMatch := r, dm_sawResolved := True\<rparr>" "av_ApprovalID r = dm_approvalID d"
        "av_Decision r = ''allow_once''" "av_Source r = ''remote''" "ev_Kind env = ''approval.resolved''" "DecodeBody env into_ApprovalResolved = Some r"
  using assms unfolding demo_step_def
  by (auto simp: got_kind_def got_request_def allowed_remotely_def split: if_splits option.splits sum.splits)

lemma demo_step_seen:
  assumes "demo_seen envs d" "demo_step send env d = Inr d'" shows "demo_seen (envs @ [env]) d'"
  using assms(2)
proof (cases rule: demo_step_cases)
  case (resolved r)
  have "got_resolution (envs @ [env]) r"
    using assms(1) resolved by (auto simp: got_resolution_def demo_seen_def got_append)
  with demo_seen_append [OF assms(1), of "[env]"] resolved(1) show ?thesis by (simp add: demo_seen_def)
qed (use demo_seen_append [OF assms(1), of "[env]"] in \<open>auto simp: demo_seen_def got_append\<close>)

definition heard :: "(dev_error + Envelope \<times> (dev_error + string)) list \<Rightarrow> Envelope list" where
  "heard evs = List.map_filter (\<lambda>x. case x of Inl _ \<Rightarrow> None | Inr (e, _) \<Rightarrow> Some e) evs"

lemma demo_loop_seen:
  "demo_seen envs d \<Longrightarrow> demo_loop evs d = Some (Inr d') \<Longrightarrow>
    demo_seen (envs @ heard evs) d' \<and> dm_sawSnapshot d' \<and> dm_sawEvent d' \<and> dm_sawApplied d' \<and> dm_sawResolved d'"
proof (induction evs arbitrary: envs d)
  case Nil
  then show ?case by (subst (asm) demo_loop.simps) (auto simp: heard_def split: if_splits)
next
  case (Cons x evs)
  show ?case
  proof (cases "dm_sawSnapshot d \<and> dm_sawEvent d \<and> dm_sawApplied d \<and> dm_sawResolved d")
    case True
    with Cons.prems have "d' = d" by (subst (asm) demo_loop.simps) simp
    with True demo_seen_append [OF Cons.prems(1)] show ?thesis by simp
  next
    case False
    with Cons.prems(2) obtain env send d1 where x: "x = Inr (env, send)" and d1: "demo_step send env d = Inr d1"
      and run: "demo_loop evs d1 = Some (Inr d')"
      by (subst (asm) demo_loop.simps) (auto split: sum.splits)
    have "heard (x # evs) = env # heard evs" by (simp add: heard_def x)
    with Cons.IH [OF demo_step_seen [OF Cons.prems(1) d1] run] show ?thesis by simp
  qed
qed

text \<open>A demo that passes has heard a snapshot, an event, the answer that its decision was applied as an
  \<open>allow_once\<close> of the remote surface, and a resolution that says the same of an approval it had been asked
  about - or of one with an empty id.\<close>

theorem demo_passes:
  assumes "demo_loop evs demo_start = Some (Inr d)"
  shows "got_kind (heard evs) ''snapshot.full'' \<and> got_kind (heard evs) ''event'' \<and> list_ex allowed_remotely (heard evs)
    \<and> got_resolution (heard evs) (dm_resolvedMatch d)"
proof -
  have "demo_seen [] demo_start" by (simp add: demo_seen_def demo_start_def)
  from demo_loop_seen [OF this assms] show ?thesis by (simp add: demo_seen_def)
qed

text \<open>The empty id is the start value of the loop: a host that resolves nothing but sends empty ids passes.\<close>

definition ex_ghost :: "(dev_error + Envelope \<times> (dev_error + string)) list" where
  "ex_ghost = map (\<lambda>(k, b). Inr (\<lparr>ev_V = 1, ev_Kind = k, ev_TS = [], ev_ID = [], ev_Body = Some (JObj b)\<rparr>, Inl DevRandom))
     [(''snapshot.full'', []), (''event'', []),
      (''rpc.response'', [(''status'', JStr ''applied''), (''decision'', JStr ''allow_once''), (''source'', JStr ''remote'')]),
      (''approval.resolved'', [(''decision'', JStr ''allow_once''), (''source'', JStr ''remote'')])]"

lemma demo_passes_without_approval:
  "(\<exists>d. demo_loop ex_ghost demo_start = Some (Inr d)) \<and> \<not> got_kind (heard ex_ghost) ''approval.request''"
  by (simp add: ex_ghost_def demo_loop.simps demo_step_def demo_start_def DecodeBody_def into_decide_result_def into_ApprovalResolved_def
      zero_ApprovalResolved_def into_defs got_kind_def heard_def)

theorem demo_passes_witness:
  "\<exists>d. demo_loop ex_ghost demo_start = Some (Inr d) \<and> got_resolution (heard ex_ghost) (dm_resolvedMatch d)"
  using demo_passes_without_approval demo_passes by blast

end
