(* ===== verification/AuditTrail.thy ===== *)
theory AuditTrail
  imports Opacity Run
begin

text \<open>
  What the relay lets an auditor see: the records \<open>AuditRecords\<close> of \<open>store.go\<close> renders, and the pushers of
  \<open>apns.go\<close> that log or record instead of talking to Apple. A row that \<open>encoding/json\<close> refuses (a time
  past the year 9999) is printed with \<open>fmt.Sprintf\<close>, which is an argument.
\<close>

section \<open>Rows\<close>

text \<open>\<open>time.Time\<close> as JSON: nanoseconds without their trailing zeros.\<close>

definition frac_digits :: "int \<Rightarrow> string" where
  "frac_digits n = (let ds = rev (dropWhile (\<lambda>c. c = CHR ''0'') (rev (pad_int 9 n))) in if ds = [] then [] else ''.'' @ ds)"

definition time_json :: "gotime \<Rightarrow> json option" where
  "time_json t =
     (let (y, _) = civil (t div 1000000000 div 86400) in
      if y < 0 \<or> 9999 < y then None
      else Some (JStr (butlast (format_rfc3339 t) @ frac_digits (t mod 1000000000) @ ''Z'')))"

definition row :: "(string \<times> json option) list \<Rightarrow> json option" where
  "row fs = map_option JObj (those (map (\<lambda>(k, v). map_option (Pair k) v) fs))"

text \<open>The values handed to \<open>add\<close>: a stored row, or the anonymous struct that stands for a parked frame.\<close>

datatype audit_value = VBinding Binding | VPairing Pairing | VWindow Window | VFrame string uint64 string int gotime
  | VToken APNSToken | VHost HostPresence | VDevice DevicePresence

fun value_json :: "audit_value \<Rightarrow> json option" where
  "value_json (VBinding b) = row [(''HostID'', Some (JStr (bd_HostID b))), (''AccountSub'', Some (JStr (bd_AccountSub b))),
     (''BoundAt'', time_json (bd_BoundAt b)), (''LastAttachAt'', time_json (bd_LastAttachAt b))]"
| "value_json (VPairing p) = row [(''PairingID'', Some (JStr (pr_PairingID p))), (''ChannelID'', Some (JStr (pr_ChannelID p))),
     (''HostID'', Some (JStr (pr_HostID p))), (''DeviceID'', Some (JStr (pr_DeviceID p))), (''AccountSub'', Some (JStr (pr_AccountSub p))),
     (''HostLabel'', Some (case pr_HostLabel p of None \<Rightarrow> JNull | Some l \<Rightarrow> JStr l)), (''CreatedAt'', time_json (pr_CreatedAt p))]"
| "value_json (VWindow w) = row [(''WindowID'', Some (JStr (wd_WindowID w))), (''HostID'', Some (JStr (wd_HostID w))),
     (''ProvisionalChannel'', Some (JStr (wd_ProvisionalChannel w))), (''ExpiresAt'', time_json (wd_ExpiresAt w)),
     (''Attaches'', Some (JNum (int_str (wd_Attaches w))))]"
| "value_json (VFrame ch q pc n t) = row [(''ChannelID'', Some (JStr ch)), (''Seq'', Some (JNum (uint_str q))),
     (''PushClass'', Some (JStr pc)), (''BodyLen'', Some (JNum (int_str n))), (''StoredAt'', time_json t)]"
| "value_json (VToken t) = row [(''DeviceID'', Some (JStr (at_DeviceID t))), (''Token'', Some (JStr (at_Token t))), (''Env'', Some (JStr (at_Env t)))]"
| "value_json (VHost p) = row [(''HostID'', Some (JStr (hp_HostID p))), (''Online'', Some (JBool (hp_Online p))), (''LastSeen'', time_json (hp_LastSeen p))]"
| "value_json (VDevice p) = row [(''ChannelID'', Some (JStr (dp_ChannelID p))), (''Attached'', Some (JBool (dp_Attached p))),
     (''LastSeen'', time_json (dp_LastSeen p))]"

record AuditRecord =
  au_Class :: string
  au_JSON :: bytes
  au_Raw :: "bytes list"

definition audit_add :: "(audit_value \<Rightarrow> bytes) \<Rightarrow> string \<Rightarrow> audit_value \<Rightarrow> bytes list \<Rightarrow> AuditRecord" where
  "audit_add Sprintf cls v raw =
     \<lparr>au_Class = cls, au_JSON = (case value_json v of None \<Rightarrow> Sprintf v | Some j \<Rightarrow> marshal j), au_Raw = raw\<rparr>"

definition audit_mailbox :: "(audit_value \<Rightarrow> bytes) \<Rightarrow> string \<Rightarrow> mailbox \<Rightarrow> AuditRecord list" where
  "audit_mailbox Sprintf ch mb =
     map (\<lambda>it. audit_add Sprintf ''ciphertext_mailbox''
       (VFrame ch (mi_Seq it) (mi_PushClass it) (int (length (mi_Body it))) (mi_StoredAt it)) [mi_Body it]) (mb_items mb)"

definition AuditRecords :: "(audit_value \<Rightarrow> bytes) \<Rightarrow> MemStore \<Rightarrow> AuditRecord list" where
  "AuditRecords Sprintf s =
     (let add = audit_add Sprintf in
      map (\<lambda>b. add ''host_account_binding'' (VBinding b) []) (mvals (ms_bindings s))
      @ map (\<lambda>p. add ''routing_registration'' (VPairing p) []) (mvals (ms_pairings s))
      @ map (\<lambda>w. add ''pairing_window'' (VWindow w) []) (mvals (ms_windows s))
      @ concat (map (\<lambda>(ch, mb). audit_mailbox Sprintf ch mb) (ms_mailboxes s))
      @ map (\<lambda>t. add ''apns_token'' (VToken t) []) (mvals (ms_apns s))
      @ map (\<lambda>p. add ''presence_host'' (VHost p) []) (mvals (ms_hostPres s))
      @ map (\<lambda>p. add ''presence_device'' (VDevice p) []) (mvals (ms_devPres s)))"

section \<open>What the records show\<close>

definition parked_bodies :: "MemStore \<Rightarrow> bytes list" where
  "parked_bodies s = concat (map (\<lambda>(ch, mb). map mi_Body (mb_items mb)) (ms_mailboxes s))"

definition row_count :: "MemStore \<Rightarrow> nat" where
  "row_count s = length (ms_bindings s) + length (ms_pairings s) + length (ms_windows s) + length (ms_apns s)
     + length (ms_hostPres s) + length (ms_devPres s) + length (parked_bodies s)"

definition audit_shown :: "AuditRecord \<Rightarrow> string \<times> bytes" where
  "audit_shown a = (au_Class a, au_JSON a)"

lemma audit_raw [simp]: "au_Raw (audit_add pf c v raw) = raw"
  by (simp add: audit_add_def)

lemma audit_shown_raw: "audit_shown (audit_add pf c v raw) = (c, case value_json v of None \<Rightarrow> pf v | Some j \<Rightarrow> marshal j)"
  by (simp add: audit_add_def audit_shown_def)

lemma concat_singletons [simp]: "concat (map (\<lambda>x. [g x]) xs) = map g xs"
  by (induction xs) simp_all

lemma concat_map_nil [simp]: "concat (map (\<lambda>_. []) xs) = []"
  by (induction xs) simp_all

lemma audit_mailbox_facts:
  "length (audit_mailbox pf ch mb) = length (mb_items mb)"
  "concat (map au_Raw (audit_mailbox pf ch mb)) = map mi_Body (mb_items mb)"
  "map audit_shown (audit_mailbox pf ch (erase_box mb)) = map audit_shown (audit_mailbox pf ch mb)"
  by (simp_all add: audit_mailbox_def comp_def audit_shown_raw erase_box_def erase_item_def)

lemma audit_mailboxes:
  "length (concat (map (\<lambda>(ch, mb). audit_mailbox pf ch mb) ms)) = length (concat (map (\<lambda>(ch, mb). map mi_Body (mb_items mb)) ms))"
  "concat (map au_Raw (concat (map (\<lambda>(ch, mb). audit_mailbox pf ch mb) ms))) = concat (map (\<lambda>(ch, mb). map mi_Body (mb_items mb)) ms)"
  "map audit_shown (concat (map (\<lambda>(ch, mb). audit_mailbox pf ch mb) (mmap erase_box ms)))
    = map audit_shown (concat (map (\<lambda>(ch, mb). audit_mailbox pf ch mb) ms))"
proof (induction ms)
  case Nil
  { case 1 show ?case by simp }
  { case 2 show ?case by simp }
  { case 3 show ?case by (simp add: mmap_def) }
next
  case (Cons a ms)
  obtain ch mb where a: "a = (ch, mb)" by (cases a)
  { case 1 show ?case using Cons(1) by (simp add: a audit_mailbox_facts) }
  { case 2 show ?case using Cons(2) by (simp add: a audit_mailbox_facts) }
  { case 3 show ?case using Cons(3) by (simp add: a audit_mailbox_facts mmap_def) }
qed

text \<open>The audit is complete and says no more than it must. Every row and every parked frame of the store has a
  record; the raw fields, in order, are exactly the parked bodies; and the classes and the JSON are the
  same when every body is replaced by zeros of its length, so no byte of a body is anywhere else.\<close>

theorem audit_complete_and_blind:
  "length (AuditRecords pf s) = row_count s \<and> concat (map au_Raw (AuditRecords pf s)) = parked_bodies s
   \<and> map audit_shown (AuditRecords pf (erase_store s)) = map audit_shown (AuditRecords pf s)"
  using audit_mailboxes [of pf "ms_mailboxes s"]
  by (simp add: AuditRecords_def row_count_def parked_bodies_def erase_store_def mvals_def comp_def Let_def)

section \<open>Pushers\<close>

text \<open>What a pusher leaves behind: nothing, a log line without the token, the push itself.\<close>

definition NopPusher_Push :: "Push \<Rightarrow> 'l list \<Rightarrow> 'l list" where
  "NopPusher_Push p ls = ls"

definition push_kind :: "Push \<Rightarrow> string" where
  "push_kind p =
     (case pu_Payload p of
        JObj ms \<Rightarrow> (case map_of ms ''aps'' of
            Some (JObj aps) \<Rightarrow> if map_of aps ''alert'' \<noteq> None then ''attention'' else ''wake''
          | _ \<Rightarrow> ''wake'')
      | _ \<Rightarrow> ''wake'')"

definition LogPusher_Push :: "bool \<Rightarrow> Push \<Rightarrow> (string \<times> string \<times> string) list \<Rightarrow> (string \<times> string \<times> string) list" where
  "LogPusher_Push logger p ls = (if \<not> logger then ls else ls @ [(pu_DeviceID p, pu_Env p, push_kind p)])"

definition RecordingPusher_Push :: "Push \<Rightarrow> Push list \<Rightarrow> Push list" where
  "RecordingPusher_Push p pushes = pushes @ [p]"

text \<open>The kind a log line names is the kind of the payload.\<close>

lemma push_kind_simps [simp]:
  "pu_Payload p = wakePayload ch q \<Longrightarrow> push_kind p = ''wake''"
  "pu_Payload p = attentionPayload l ch q \<Longrightarrow> push_kind p = ''attention''"
  by (simp_all add: push_kind_def wakePayload_def attentionPayload_def)

end
