(* ===== verification/Attach.thy ===== *)
theory Attach
  imports Run
begin

text \<open>
  The attached flag of a channel and the table of its device connections. The code updates the
  table under its lock and publishes a transition (\<open>setDeviceAttached\<close>) after releasing it. The flag is
  exact along every run in which no transition overtakes the publication of an earlier one, and a run
  is given in which one does and the flag stays wrong.
\<close>

section \<open>The flag and the table\<close>

definition shown_attached :: "string \<Rightarrow> Relay \<Rightarrow> bool" where
  "shown_attached ch r \<longleftrightarrow> (\<exists>p. LookupDevicePresence ch (rl_store r) = Some p \<and> dp_Attached p)"

lemma deviceAttachedNow_row: "deviceAttachedNow ch r \<longleftrightarrow> conns_of (rl_devConns r) ch \<noteq> []"
  by (simp add: deviceAttachedNow_def)

lemma shown_frame: "ms_devPres (rl_store r') = ms_devPres (rl_store r) \<Longrightarrow> shown_attached ch r' = shown_attached ch r"
  by (simp add: shown_attached_def LookupDevicePresence_def)

lemma row_frame: "rl_devConns r' = rl_devConns r \<Longrightarrow> deviceAttachedNow ch r' = deviceAttachedNow ch r"
  by (simp add: deviceAttachedNow_def)

lemma upd_conn_shown [simp]: "shown_attached ch (upd_conn f i r) = shown_attached ch r" "deviceAttachedNow ch (upd_conn f i r) = deviceAttachedNow ch r"
  by (simp_all add: shown_attached_def deviceAttachedNow_def)

lemma setDeviceAttached_row [simp]: "deviceAttachedNow ch' (setDeviceAttached ch a r) = deviceAttachedNow ch' r"
  by (simp add: deviceAttachedNow_def)

lemma shown_set [simp]:
  "store_inv (rl_store r) \<Longrightarrow> shown_attached ch' (setDeviceAttached ch a r) \<longleftrightarrow> (if ch' = ch then a else shown_attached ch' r)"
  using setDeviceAttached_devPres by (simp add: shown_attached_def LookupDevicePresence_def)

text \<open>No effect outside \<open>attach_step\<close> makes flag and table differ: only the deletion of a pairing touches
  either, and it clears both.\<close>

lemma prim_rows:
  assumes "prim r r'"
  shows "rl_devConns r' = rl_devConns r \<and> ms_devPres (rl_store r') = ms_devPres (rl_store r)
    \<or> (\<exists>c. rl_devConns r' = mdel c (rl_devConns r) \<and> ms_devPres (rl_store r') = mdel c (ms_devPres (rl_store r)))"
  using assms
proof cases
  case (delete i pr c m)
  then show ?thesis by (intro disjI2 exI [of _ "pr_ChannelID pr"]) (simp add: DeletePairing_devPres)
next
  case (touch h)
  then show ?thesis by (simp add: touchHost_store PutHostPresence_def)
next
  case (callback cb)
  then show ?thesis by (simp add: callback_devPres)
qed simp_all

lemma prim_shown:
  assumes "prim r r'" "shown_attached ch r = deviceAttachedNow ch r"
  shows "shown_attached ch r' = deviceAttachedNow ch r'"
  using prim_rows [OF assms(1)] assms(2)
  by (auto simp: shown_attached_def LookupDevicePresence_def deviceAttachedNow_def conns_of_def split: if_splits)

interpretation untouched: inductive_invariant "\<lambda>r. shown_attached ch r = deviceAttachedNow ch r" prim
    "\<lambda>r. shown_attached ch r = deviceAttachedNow ch r" for ch
  by unfold_locales (simp_all add: prim_shown)

section \<open>Runs in which publications keep up\<close>

text \<open>Every publication still to come tells of the table as it is.\<close>

definition keeps_up :: "System \<Rightarrow> bool" where
  "keeps_up S \<longleftrightarrow> (\<forall>(i, ch, attached) \<in> set (sy_publishing S). attached = deviceAttachedNow ch (sy_relay S))"

definition calm_step :: "System \<Rightarrow> System \<Rightarrow> bool" where
  "calm_step S S' \<longleftrightarrow> sys_step S S' \<and> keeps_up S'"

definition calm_inv :: "System \<Rightarrow> bool" where
  "calm_inv S \<longleftrightarrow> relay_inv (sy_relay S) \<and> keeps_up S
     \<and> (\<forall>ch. (\<forall>i a. (i, ch, a) \<notin> set (sy_publishing S)) \<longrightarrow> shown_attached ch (sy_relay S) = deviceAttachedNow ch (sy_relay S))"

lemma calm_attach:
  assumes "attach_step S S'" "calm_inv S" "\<forall>i a. (i, ch, a) \<notin> set (sy_publishing S')"
  shows "shown_attached ch (sy_relay S') = deviceAttachedNow ch (sy_relay S')"
proof -
  let ?r = "sy_relay S"
  have inv: "store_inv (rl_store ?r)" "tables_inv ?r" using assms(2) relay_invD by (auto simp: calm_inv_def)
  have old: "shown_attached ch ?r = deviceAttachedNow ch ?r" if "\<forall>i a. (i, ch, a) \<notin> set (sy_publishing S)"
    using assms(2) that by (simp add: calm_inv_def)
  from assms(1) show ?thesis
  proof cases
    case (channel_join sub c pr i first r')
    have f: "rl_next ?r \<notin> set (conns_of (rl_devConns ?r) c)"
      using inv(2) table_inv_fresh unfolding tables_inv_def by blast
    have r': "r' = snd (snd (deviceChannelAttach_join sub c pr ?r))" "first = (conns_of (rl_devConns ?r) c = [])"
      using channel_join(3) dev_in_eq(2) [of sub c pr ?r] f by (simp_all add: conns_of_add)
    have 1: "shown_attached ch r' = shown_attached ch ?r" by (rule shown_frame) (simp add: r'(1) dev_in_eq(1))
    have 2: "deviceAttachedNow ch r' \<longleftrightarrow> deviceAttachedNow ch ?r \<or> ch = c"
      using f by (auto simp: r'(1) dev_in_eq(1) deviceAttachedNow_row conns_of_add)
    have 3: "ch \<noteq> c \<or> deviceAttachedNow c ?r"
      using assms(3) r'(2) by (cases first) (auto simp: channel_join(1) deviceAttachedNow_row)
    have 4: "shown_attached ch ?r = deviceAttachedNow ch ?r"
      using assms(3) by (intro old) (auto simp: channel_join(1) split: if_splits)
    have "shown_attached ch r' = deviceAttachedNow ch r'" unfolding 1 2 4 using 3 by (cases "ch = c") simp_all
    then show ?thesis by (simp add: channel_join(1))
  next
    case (channel_cleanup i c emptied r')
    have r': "r' = ?r\<lparr>rl_devConns := conns_del c i (rl_devConns ?r)\<rparr>"
      and e: "emptied \<longleftrightarrow> conns_of (rl_devConns ?r) c \<noteq> [] \<and> removeAll i (conns_of (rl_devConns ?r) c) = []"
      using channel_cleanup(4) inv(2)
      by (auto simp: deviceChannelAttach_cleanup_def conns_of_def tables_inv_def table_inv_def split: option.splits)
    have "shown_attached ch r' = shown_attached ch ?r" by (rule shown_frame) (simp add: r')
    moreover have "deviceAttachedNow ch r' = deviceAttachedNow ch ?r" if "\<not> (emptied \<and> ch = c)"
      using that e by (auto simp: r' deviceAttachedNow_row conns_of_del)
    moreover have "\<not> (emptied \<and> ch = c)" "shown_attached ch ?r = deviceAttachedNow ch ?r"
      using assms(3) by (auto simp: channel_cleanup(1) intro!: old split: if_splits)
    ultimately show ?thesis by (simp add: channel_cleanup(1))
  next
    case (publish i c a)
    let ?p = "deviceChannelAttach_publish i c a ?r"
    have s: "shown_attached ch ?p \<longleftrightarrow> (if ch = c then a else shown_attached ch ?r)" "deviceAttachedNow ch ?p = deviceAttachedNow ch ?r"
      using inv(1) by (simp_all add: deviceChannelAttach_publish_def Let_def)
    have "a = deviceAttachedNow c ?r" using publish(2) assms(2) by (auto simp: calm_inv_def keeps_up_def)
    moreover have "\<forall>i a. (i, ch, a) \<notin> set (sy_publishing S)" if "ch \<noteq> c"
      using assms(3) that by (auto simp: publish(1) in_set_remove1)
    ultimately show ?thesis using s old by (auto simp: publish(1))
  qed
qed

interpretation calm: inductive_invariant sys_init calm_step calm_inv
proof
  fix S assume S: "sys_init S"
  have n: "ms_devPres (rl_store r) = [] \<and> rl_devConns r = []" if "New cfg (NewMemStore d) now = Inr r" for cfg d now r
    using that by (auto simp: New_def NewMemStore_def Let_def split: option.splits)
  obtain cfg d now where "New cfg (NewMemStore d) now = Inr (sy_relay S)" and p: "sy_publishing S = []" using S by (auto simp: sys_init_def)
  from n [OF this(1)] have "ms_devPres (rl_store (sy_relay S)) = []" "rl_devConns (sy_relay S) = []" by simp_all
  with p relay_machine.start_inv [OF S] show "calm_inv S"
    by (simp add: calm_inv_def keeps_up_def shown_attached_def LookupDevicePresence_def deviceAttachedNow_def conns_of_def)
next
  fix S S' assume I: "calm_inv S" and "calm_step S S'"
  then have s: "sys_step S S'" "keeps_up S'" by (simp_all add: calm_step_def)
  have r: "relay_inv (sy_relay S')" using I relay_machine.step_inv [OF _ s(1)] by (simp add: calm_inv_def)
  have "shown_attached ch (sy_relay S') = deviceAttachedNow ch (sy_relay S')" if "\<forall>i a. (i, ch, a) \<notin> set (sy_publishing S')" for ch
    using sys_step_effects [OF s(1)]
  proof
    show "store_inv (rl_store (sy_relay S))" using I by (simp add: calm_inv_def relay_invD)
  next
    assume "attach_step S S'"
    from calm_attach [OF this I that] show ?thesis .
  next
    assume e: "effects (sy_relay S) (sy_relay S') \<and> sy_publishing S' = sy_publishing S"
    then show ?thesis using untouched.run_inv [OF e [THEN conjunct1, unfolded effects_def]] I that by (simp add: calm_inv_def)
  qed
  with r s show "calm_inv S'" by (simp add: calm_inv_def)
qed

text \<open>C23. What the relay tells a host about its devices is true as long as its publications keep up. Along every
  run from a start in which no change of a channel's table overtakes a publication still to be made (at each
  state, what is about to be published is what the table says), a channel with nothing left to publish
  is recorded as attached exactly when at least one device connection is in its table. In between, while the
  publication is pending, the flag lags behind.\<close>

theorem attached_flag_exact:
  assumes "sys_init S0" "calm_step\<^sup>*\<^sup>* S0 S" "\<forall>i a. (i, ch, a) \<notin> set (sy_publishing S)"
  shows "deviceAttachedNow ch (sy_relay S) \<longleftrightarrow>
    (\<exists>p. LookupDevicePresence ch (rl_store (sy_relay S)) = Some p \<and> dp_Attached p)"
  using calm.always [OF assms(1,2)] assms(3) by (simp add: calm_inv_def shown_attached_def)

section \<open>One device, and two devices that race\<close>

text \<open>A first join, and the last leave, of a channel.\<close>

lemma first_join:
  assumes "DeviceTicket (ChannelTicket sub ch pr) \<in> set (sy_tickets S)" "conns_of (rl_devConns (sy_relay S)) ch = []"
  obtains i r' where "attach_step S (S\<lparr>sy_relay := r', sy_tickets := remove1 (DeviceTicket (ChannelTicket sub ch pr)) (sy_tickets S),
      sy_publishing := (i, ch, True) # sy_publishing S\<rparr>)"
    "conns_of (rl_devConns r') ch = [i]" "is_role ''device'' i r'"
proof -
  let ?j = "deviceChannelAttach_join sub ch pr (sy_relay S)"
  have row: "conns_of (rl_devConns (snd (snd ?j))) ch = [fst ?j]" using assms(2) by (simp add: dev_in_eq conns_of_add)
  have "rl_next (sy_relay S) = fst ?j" by (simp add: dev_in_eq)
  then have role: "is_role ''device'' (fst ?j) (snd (snd ?j))"
    by (auto simp: is_role_def dev_in_eq(1) upd_conn_def sendText_def enqueue_def dev_conn_def)
  have "attach_step S (S\<lparr>sy_relay := snd (snd ?j), sy_tickets := remove1 (DeviceTicket (ChannelTicket sub ch pr)) (sy_tickets S),
      sy_publishing := (fst ?j, ch, True) # sy_publishing S\<rparr>)"
    using attach_step.channel_join [OF assms(1), of "fst ?j" True "snd (snd ?j)"] assms(2)
    by (simp add: prod_eq_iff dev_in_eq conns_of_add)
  from that [OF this row role] show thesis .
qed

lemma last_leave:
  assumes "(i, ch) \<in> set (sy_leaving S)" "is_role ''device'' i (sy_relay S)" "conns_of (rl_devConns (sy_relay S)) ch = [i]"
  obtains r' where "attach_step S (S\<lparr>sy_relay := r', sy_leaving := remove1 (i, ch) (sy_leaving S), sy_publishing := (i, ch, False) # sy_publishing S\<rparr>)"
    "conns_of (rl_devConns r') ch = []"
proof -
  have "deviceChannelAttach_cleanup i ch (sy_relay S) = (True, (sy_relay S)\<lparr>rl_devConns := conns_del ch i (rl_devConns (sy_relay S))\<rparr>)"
    using assms(3) by (simp add: deviceChannelAttach_cleanup_def conns_of_def split: option.splits)
  from that [of "(sy_relay S)\<lparr>rl_devConns := conns_del ch i (rl_devConns (sy_relay S))\<rparr>"] attach_step.channel_cleanup [OF assms(1,2) this] assms(3)
  show thesis by (simp add: conns_of_del)
qed

lemma publish_row [simp]: "conns_of (rl_devConns (deviceChannelAttach_publish i ch a r)) ch' = conns_of (rl_devConns r) ch'"
  by (simp add: deviceChannelAttach_publish_def Let_def)

lemma is_role_publish: "is_role role j r \<Longrightarrow> is_role role j (deviceChannelAttach_publish i ch True r)"
  using heap_like_setDeviceAttached [of r ch True]
  by (auto simp: is_role_def deviceChannelAttach_publish_def heap_like_def same_conn_def Let_def elim!: allE [of _ j] option.rel_cases)

text \<open>The device's requests after the host has registered the pairing.\<close>

definition dev_req :: Request where
  "dev_req = \<lparr>rq_query = [(''channel'', ex_id 7)], rq_auth = ''Bearer fake-alice'', rq_pathID = [], rq_body = []\<rparr>"

definition dev_ticket :: pending where
  "dev_ticket = DeviceTicket (ChannelTicket ''alice'' (ex_id 7) ex_pairing)"

lemma run_device: "handleDeviceWS_admit ex_va dev_req run3 = (Inr (ChannelTicket ''alice'' (ex_id 7) ex_pairing), run3)"
proof -
  have "bearerSub ex_va dev_req = Inr ''alice''"
    by (simp add: bearerSub_def dev_req_def tokenQueryParams_def q_Has_def strip_def TestOnlySubjectValidator_def)
  moreover have "PairingByChannel (ex_id 7) (rl_store run3) = Some ex_pairing" by (simp add: PairingByChannel_def run_defs mget_def)
  moreover have "pr_AccountSub ex_pairing = ''alice''" by (simp add: ex_pairing_def)
  moreover have "lt_DeviceAttachPerChannel (cf_Limits (rl_cfg run3)) = 0" by (simp add: run_defs)
  ultimately show ?thesis
    by (simp add: handleDeviceWS_admit_def deviceChannelAttach_admit_def authorizeChannel_def dev_req_def q_Get_def Let_def)
qed

lemma device_asks:
  assumes "sy_relay S = run3" shows "sys_step S (S\<lparr>sy_tickets := dev_ticket # sy_tickets S\<rparr>)"
proof -
  have e: "S\<lparr>sy_relay := run3, sy_tickets := dev_ticket # sy_tickets S\<rparr> = S\<lparr>sy_tickets := dev_ticket # sy_tickets S\<rparr>"
    by (rule System.equality) (simp_all add: assms)
  have "sys_step S (S\<lparr>sy_relay := run3, sy_tickets := dev_ticket # sy_tickets S\<rparr>)"
    using sys_step.device_admit [of ex_va dev_req S] run_device assms by (simp add: dev_ticket_def)
  then show ?thesis by (simp only: e)
qed

lemma run3_row: "conns_of (rl_devConns run3) (ex_id 7) = []"
  by (simp add: run_defs conns_of_def)

text \<open>One device attaches and its attachment is published.\<close>

lemma calm_quiet: "sys_step S S' \<Longrightarrow> sy_publishing S' = [] \<Longrightarrow> calm_step S S'"
  by (simp add: calm_step_def keeps_up_def)

lemma calm_run3: "calm_step\<^sup>*\<^sup>* sys0 (ex_sys run3)"
proof -
  have "calm_step sys0 (sys0\<lparr>sy_relay := run1, sy_tickets := [HostTicket ''alice'' (ex_id 1)]\<rparr>)"
    by (rule calm_quiet [OF sys_run1]) (simp add: sys0_def)
  moreover have "calm_step (sys0\<lparr>sy_relay := run1, sy_tickets := [HostTicket ''alice'' (ex_id 1)]\<rparr>) (ex_sys run2)" "calm_step (ex_sys run2) (ex_sys run3)"
    using calm_quiet [OF sys_run2] calm_quiet [OF sys_run3] by (simp_all add: ex_sys_def)
  ultimately show ?thesis by (meson rtranclp.rtrancl_refl rtranclp.rtrancl_into_rtrancl)
qed

theorem attached_flag_exact_witness:
  "\<exists>S. calm_step\<^sup>*\<^sup>* sys0 S \<and> deviceAttachedNow (ex_id 7) (sy_relay S)
     \<and> (\<exists>p. LookupDevicePresence (ex_id 7) (rl_store (sy_relay S)) = Some p \<and> dp_Attached p)"
proof -
  let ?S1 = "(ex_sys run3)\<lparr>sy_tickets := [dev_ticket]\<rparr>"
  have "sys_step (ex_sys run3) ?S1" using device_asks [of "ex_sys run3"] by (simp add: ex_sys_def)
  then have 1: "calm_step (ex_sys run3) ?S1" by (rule calm_quiet) (simp add: ex_sys_def)
  have "DeviceTicket (ChannelTicket ''alice'' (ex_id 7) ex_pairing) \<in> set (sy_tickets ?S1)" "conns_of (rl_devConns (sy_relay ?S1)) (ex_id 7) = []"
    using run3_row by (simp_all add: dev_ticket_def ex_sys_def)
  then obtain i r' where j: "attach_step ?S1 (?S1\<lparr>sy_relay := r', sy_tickets := remove1 (DeviceTicket (ChannelTicket ''alice'' (ex_id 7) ex_pairing)) (sy_tickets ?S1),
      sy_publishing := (i, ex_id 7, True) # sy_publishing ?S1\<rparr>)" "conns_of (rl_devConns r') (ex_id 7) = [i]"
    by (rule first_join) blast
  let ?S2 = "?S1\<lparr>sy_relay := r', sy_tickets := remove1 (DeviceTicket (ChannelTicket ''alice'' (ex_id 7) ex_pairing)) (sy_tickets ?S1),
      sy_publishing := (i, ex_id 7, True) # sy_publishing ?S1\<rparr>"
  let ?S3 = "?S2\<lparr>sy_relay := deviceChannelAttach_publish i (ex_id 7) True r', sy_running := (i, ex_id 7) # sy_running ?S2, sy_publishing := []\<rparr>"
  have 2: "calm_step ?S1 ?S2" using j by (simp add: calm_step_def sys_step.attach keeps_up_def ex_sys_def deviceAttachedNow_def)
  have "attach_step ?S2 ?S3" using attach_step.publish [of i "ex_id 7" True ?S2] by (simp add: ex_sys_def)
  then have 3: "calm_step ?S2 ?S3" by (intro calm_quiet sys_step.attach) simp_all
  have run: "calm_step\<^sup>*\<^sup>* sys0 ?S3" using calm_run3 1 2 3 by (meson rtranclp.rtrancl_into_rtrancl)
  have start: "sys_init sys0" unfolding sys_init_def using run_start by (auto simp: sys0_def simp del: ex_cfg_fields intro: exI)
  have "deviceAttachedNow (ex_id 7) (sy_relay ?S3)" by (simp add: deviceAttachedNow_def j(2))
  with attached_flag_exact [OF start run, of "ex_id 7"] run show ?thesis by (intro exI [of _ ?S3]) simp
qed

text \<open>The race. A device attaches, is published, and leaves; a second one attaches before that leave is published,
  and its own publication comes first. Nothing is left to publish, a device is attached, and the record says
  that none is - until the next change of the table.\<close>

lemma attached_flag_stale:
  "\<exists>S. reachable S \<and> sy_publishing S = [] \<and> deviceAttachedNow (ex_id 7) (sy_relay S) \<and> \<not> shown_attached (ex_id 7) (sy_relay S)"
proof -
  let ?ch = "ex_id 7" and ?t = "DeviceTicket (ChannelTicket ''alice'' (ex_id 7) ex_pairing)"
  have r3: "reachable (ex_sys run3)" by (rule reachable_step [OF reachable_run2 sys_run3])
  let ?S1 = "(ex_sys run3)\<lparr>sy_tickets := [?t, ?t]\<rparr>"
  have "sys_step (ex_sys run3) ((ex_sys run3)\<lparr>sy_tickets := [?t]\<rparr>)" "sys_step ((ex_sys run3)\<lparr>sy_tickets := [?t]\<rparr>) ?S1"
    using device_asks [of "ex_sys run3"] device_asks [of "(ex_sys run3)\<lparr>sy_tickets := [?t]\<rparr>"] by (simp_all add: ex_sys_def dev_ticket_def)
  then have 1: "reachable ?S1" using reachable_step r3 by blast
  have "?t \<in> set (sy_tickets ?S1)" "conns_of (rl_devConns (sy_relay ?S1)) ?ch = []" using run3_row by (simp_all add: ex_sys_def)
  then obtain i r2 where j2: "attach_step ?S1 (?S1\<lparr>sy_relay := r2, sy_tickets := remove1 ?t (sy_tickets ?S1), sy_publishing := (i, ?ch, True) # sy_publishing ?S1\<rparr>)"
    "conns_of (rl_devConns r2) ?ch = [i]" "is_role ''device'' i r2" by (rule first_join) blast
  let ?r3 = "deviceChannelAttach_publish i ?ch True r2"
  define S2 where "S2 = (ex_sys r2)\<lparr>sy_tickets := [?t], sy_publishing := [(i, ?ch, True)]\<rparr>"
  define S3 where "S3 = (ex_sys ?r3)\<lparr>sy_tickets := [?t], sy_running := [(i, ?ch), (0, [])]\<rparr>"
  define S4 where "S4 = (ex_sys ?r3)\<lparr>sy_tickets := [?t], sy_leaving := [(i, ?ch)]\<rparr>"
  have 2: "reachable S2" using reachable_step [OF 1 sys_step.attach [OF j2(1)]] by (simp add: S2_def ex_sys_def)
  have 3: "reachable S3" using reachable_step [OF 2 sys_step.attach [OF attach_step.publish [of i ?ch True]]] by (simp add: S2_def S3_def ex_sys_def)
  have "sys_step S3 S4" using sys_step.read_fails [of i ?ch S3] by (simp add: S3_def S4_def ex_sys_def)
  then have 4: "reachable S4" using reachable_step 3 by blast
  have "(i, ?ch) \<in> set (sy_leaving S4)" "is_role ''device'' i (sy_relay S4)" "conns_of (rl_devConns (sy_relay S4)) ?ch = [i]"
    using is_role_publish [OF j2(3)] j2(2) by (simp_all add: S4_def ex_sys_def)
  then obtain r5 where j5: "attach_step S4 (S4\<lparr>sy_relay := r5, sy_leaving := remove1 (i, ?ch) (sy_leaving S4), sy_publishing := (i, ?ch, False) # sy_publishing S4\<rparr>)"
    "conns_of (rl_devConns r5) ?ch = []" by (rule last_leave) blast
  define S5 where "S5 = (ex_sys r5)\<lparr>sy_tickets := [?t], sy_publishing := [(i, ?ch, False)]\<rparr>"
  have 5: "reachable S5" using reachable_step [OF 4 sys_step.attach [OF j5(1)]] by (simp add: S4_def S5_def ex_sys_def)
  have "?t \<in> set (sy_tickets S5)" "conns_of (rl_devConns (sy_relay S5)) ?ch = []" using j5(2) by (simp_all add: S5_def ex_sys_def)
  then obtain k r6 where j6: "attach_step S5 (S5\<lparr>sy_relay := r6, sy_tickets := remove1 ?t (sy_tickets S5), sy_publishing := (k, ?ch, True) # sy_publishing S5\<rparr>)"
    "conns_of (rl_devConns r6) ?ch = [k]" by (rule first_join) blast
  let ?r7 = "deviceChannelAttach_publish k ?ch True r6"
  let ?r8 = "deviceChannelAttach_publish i ?ch False ?r7"
  define S6 where "S6 = (ex_sys r6)\<lparr>sy_publishing := [(k, ?ch, True), (i, ?ch, False)]\<rparr>"
  define S7 where "S7 = (ex_sys ?r7)\<lparr>sy_running := [(k, ?ch), (0, [])], sy_publishing := [(i, ?ch, False)]\<rparr>"
  define S8 where "S8 = (ex_sys ?r8)\<lparr>sy_running := [(k, ?ch), (0, [])]\<rparr>"
  have 6: "reachable S6" using reachable_step [OF 5 sys_step.attach [OF j6(1)]] by (simp add: S5_def S6_def ex_sys_def)
  have 7: "reachable S7" using reachable_step [OF 6 sys_step.attach [OF attach_step.publish [of k ?ch True]]] by (simp add: S6_def S7_def ex_sys_def)
  have 8: "reachable S8" using reachable_step [OF 7 sys_step.attach [OF attach_step.publish [of i ?ch False]]] by (simp add: S7_def S8_def ex_sys_def)
  have "store_inv (rl_store ?r7)" using relay_invD(2) [OF reachable_inv [OF 7]] by (simp add: S7_def ex_sys_def)
  then have "\<not> shown_attached ?ch ?r8" by (simp add: deviceChannelAttach_publish_def [of i] Let_def)
  moreover have "deviceAttachedNow ?ch ?r8" by (simp add: deviceAttachedNow_def j6(2))
  ultimately show ?thesis using 8 by (intro exI [of _ S8]) (simp add: S8_def ex_sys_def)
qed

end
