(* ===== verification/Spec2Isabelle.thy ===== *)
theory Spec2Isabelle
  imports Timers Seq SecretStream QR Jwt Env Handshake Drain HostRun Registry SessionRun DeviceRun FakeSim Clock Commands AuditTrail Attach
begin

text \<open>
  A verification development of the relay and of the endpoints that talk through it.

  \<^bold>\<open>The program.\<close> A relay (\<open>internal/relay\<close>) forwards encrypted frames between a host and the devices
  paired with it. It authenticates accounts by bearer tokens (\<open>authz.go\<close>, \<open>internal/jwtverify\<close>), binds a
  host id to the first account that attaches as it, opens pairing windows, registers channels, parks
  frames for absent devices in bounded mailboxes, wakes devices by closed push payloads, and tells
  each side of the other's presence. It reads the three-field frame header and nothing of a body. The
  endpoints share \<open>wire\<close> (frames, envelopes) and \<open>e2ekit\<close> (associated data, key agreement, key
  schedule, secretstream, sequence tracker, mailbox sealing, QR code); \<open>devclient\<close> is the device side
  and \<open>fakehost\<close> a scripted host.

  \<^bold>\<open>Theories, bottom up.\<close>
  \<^item> \<open>Prelude\<close>: bytes, Go strings and maps (association lists with \<open>mget\<close>, \<open>mput\<close>, \<open>mdel\<close>), indexes
    between maps, saturating time differences, the locale \<open>inductive_invariant\<close>. \<open>GoFloat\<close> (IEEE doubles:
    rationals rounded to 53 bits, infinities, NaN), \<open>Json\<close> (\<open>encoding/json\<close> and \<open>strconv\<close>), \<open>GoTime\<close>, \<open>Base64\<close>: the
    standard library as far as the source uses it.
  \<^item> \<open>AD\<close>, \<open>Frames\<close>, \<open>Errors\<close>: \<open>e2ekit/ad.go\<close>, the two copies of the frame codec, the error surface.
  \<^item> \<open>Mailbox\<close>, \<open>Store\<close>, \<open>Limiter\<close>, \<open>Config\<close>, \<open>Env\<close>, \<open>Apns\<close>: \<open>store.go\<close>, \<open>ratelimit.go\<close>, \<open>config.go\<close>,
    \<open>env.go\<close>, \<open>apns.go\<close>. \<open>RelayState\<close>, \<open>Presence\<close>, \<open>Auth\<close>, \<open>Handlers\<close>, \<open>Ws\<close>: the record \<open>Relay\<close> and every
    handler of \<open>relay.go\<close>, \<open>presence.go\<close>, \<open>authz.go\<close>, \<open>handler.go\<close> and \<open>ws.go\<close>.
  \<^item> \<open>Sample\<close>, \<open>Admission\<close>, \<open>Rest\<close>, \<open>Routing\<close>, \<open>Opacity\<close>: what each handler does, on every branch that
    matters, and that no verdict depends on a body.
  \<^item> \<open>Effects\<close>, \<open>Invariants\<close>, \<open>Preserve\<close>, \<open>System\<close>: the primitive effects the handlers consist of, the
    relay invariant, and the step relation \<open>sys_step\<close> of requests, messages, timers and clean-ups in any
    order, with \<open>reachable\<close>; the table of a channel's devices and its attached flag change in the smaller
    steps \<open>attach_step\<close>. \<open>Run\<close>, \<open>Safety\<close>, \<open>Timers\<close>: a concrete run and the theorems about reachable
    states. \<open>Attach\<close>: when the attached flag is exact, and the race that leaves it wrong. \<open>Registry\<close>: the abstract registry \<open>spec_step\<close> and the simulation of the relay by it.
  \<^item> \<open>Jwt\<close>: \<open>internal/jwtverify\<close>. \<open>Seq\<close>, \<open>Schedule\<close>, \<open>SecretStream\<close>, \<open>QR\<close>: \<open>e2ekit\<close>.
  \<^item> \<open>Envelope\<close>: \<open>wire/envelope.go\<close>. \<open>DevicePair\<close>, \<open>DeviceSession\<close>: \<open>devclient\<close>. \<open>HostPair\<close>, \<open>HostSession\<close>:
    \<open>fakehost\<close>. \<open>Ceremony\<close>, \<open>Handshake\<close>, \<open>SessionRun\<close>: the two endpoints run against each other through
    pairing, reconnect and an established session. \<open>HostRun\<close>, \<open>DeviceRun\<close>: the host and the device session
    as state machines, the latter with its state file, failed saves and restarts. \<open>Drain\<close>: the device's
    mailbox drain against the relay's own endpoint.
  \<^item> \<open>FakeRelay\<close>: \<open>internal/fakerelay\<close>, the in-memory test double, as one record with every handler.
    \<open>FakeRefine\<close>: each of its operations as effects of the relay on its \<open>shadow\<close>, the relay with the same
    bindings, pairings, mailboxes and tokens. \<open>FakeSim\<close>: its runs \<open>fake_step\<close> and their simulation by the
    registry. \<open>Clock\<close>: the deterministic clock of \<open>clock.go\<close>, with \<open>Advance\<close> over arbitrary callbacks.
  \<^item> \<open>Commands\<close>: \<open>cmd\<close>, as far as it decides anything: \<open>relayd\<close> put together from its environment, the
    loops of \<open>remotectl\<close>. \<open>AuditTrail\<close>: the records \<open>AuditRecords\<close> renders, complete and free of body bytes
    outside their raw fields, and the pushers of \<open>apns.go\<close>.

  \<^bold>\<open>Interfaces.\<close> The store's contract is stated in the locales \<open>channel_registry\<close> and \<open>tofu_bindings\<close>, the
  mailbox's in \<open>frame_buffer\<close>, the paged mailbox read's in \<open>page_source\<close>, refinement in \<open>simulation\<close>, and
  invariants of step relations in \<open>inductive_invariant\<close>; each is interpreted on the definitions that
  model the code (\<open>reg\<close>, \<open>tofu\<close>, \<open>mbx\<close>, \<open>relay_pages\<close>, \<open>effects_sim\<close>, \<open>relay_sim\<close>, \<open>fake_sim\<close>,
  \<open>relay_machine\<close>, \<open>device_numbers\<close>, \<open>spent\<close>, \<open>approvals\<close>, \<open>untouched\<close>, \<open>calm\<close>, \<open>punctual\<close> and the others of \<open>HostRun\<close>), and the theorems rest on those interpretations.

  \<^bold>\<open>Granularity.\<close> A REST handler is one step; a WebSocket handler is cut into admission, join, one message
  and clean-up, between which anything may happen; what a device connection publishes after updating its
  table is one more step (\<open>sy_publishing\<close> holds those to come). \<open>Pair\<close> and \<open>Connect\<close> are cut at their socket reads. A
  timer that fires leaves its callback pending, so a callback races with every handler. Goroutine
  interleavings finer than that are not modelled.

  \<^bold>\<open>Arguments and hypotheses.\<close> The token validator, identifiers drawn at random, \<open>time.ParseDuration\<close> and
  \<open>strconv.ParseFloat\<close> (whose result may be a NaN or infinite), the provider's HTTP answers and the signature checks are arguments of the
  definitions that use them. The primitives of \<open>golang.org/x/crypto\<close> are the record \<open>primitives\<close>; what
  is assumed of them (\<open>crypto_laws\<close>: X25519 commutes, results have their widths, the AEAD opens what it
  sealed; for \<open>mailbox_frame_end_to_end\<close> also \<open>aead_tidy\<close>: it accepts only what it would have sealed) is
  a hypothesis with an instance. The scripted host reads clock, randomness, operator and HTTP
  results from an oracle \<open>host_env\<close> at a tick every reading advances. File and socket failures are
  boolean arguments.

  \<^bold>\<open>Loops and fuel.\<close> The JSON parser runs on fuel \<open>2 * length + 1\<close>, enough by \<open>pvalue_fuel\<close>. The drain is
  \<open>partial_function (option)\<close>: \<open>drainMailbox_returns\<close> shows it returns against the relay, and
  \<open>drainMailbox_needs_progress\<close> that it does not against a server that repeats its cursor. \<open>Advance\<close> is
  too: \<open>Advance_returns_in_order\<close> shows, by a multiset of distances to the target, that it returns when
  callbacks arm timers with a positive delay only.

  \<^bold>\<open>Not modelled.\<close> Log lines and error texts; the HTTP and WebSocket libraries (upgrade,
  read limits, origin patterns); the flags, listeners, signals and terminal output of the commands; \<open>fakehost\<close>'s script file, prompts and \<open>WaitAttached\<close>; the layout of
  the state file beyond its JSON value. The test double shares with the relay the definitions of what
  is the same text in both packages: the frame codec, error codes, payload builders, connections, timers.
\<close>

end
